(* ===== verification/Prelude.thy ===== *)
theory Prelude
  imports Main "HOL-Library.List_Lexorder" "HOL-Library.Char_ord" "HOL-Library.Sublist"
    "HOL-Library.Code_Target_Nat"
begin

text \<open>
  What every component shares: results of fallible code as sums, the Rust
  \<open>BTreeMap\<close> as a key-sorted association list behind an ordered-map interface,
  loops that stop at the first error, and the lemma collections that carry the
  component proofs.
\<close>

named_theorems result_simps \<open>equations about results and error-stopping loops\<close>
named_theorems btm_simps \<open>equations about ordered maps\<close>
named_theorems str_simps \<open>equations about byte strings\<close>

section \<open>Results\<close>

text \<open>\<open>Result<T, E>\<close> is \<open>'e + 'a\<close>: \<open>Err\<close> is \<open>Inl\<close>, \<open>Ok\<close> is \<open>Inr\<close>.\<close>

abbreviation Ok :: "'a \<Rightarrow> 'e + 'a" where
  "Ok \<equiv> Inr"

abbreviation Err :: "'e \<Rightarrow> 'e + 'a" where
  "Err \<equiv> Inl"

definition is_ok :: "'e + 'a \<Rightarrow> bool" where
  "is_ok r \<longleftrightarrow> (case r of Err _ \<Rightarrow> False | Ok _ \<Rightarrow> True)"

definition is_err :: "'e + 'a \<Rightarrow> bool" where
  "is_err r \<longleftrightarrow> (case r of Err _ \<Rightarrow> True | Ok _ \<Rightarrow> False)"

definition ok_or :: "'a option \<Rightarrow> 'e \<Rightarrow> 'e + 'a" where
  "ok_or x e = (case x of None \<Rightarrow> Err e | Some y \<Rightarrow> Ok y)"

definition map_err :: "('e \<Rightarrow> 'f) \<Rightarrow> 'e + 'a \<Rightarrow> 'f + 'a" where
  "map_err f r = (case r of Err e \<Rightarrow> Err (f e) | Ok x \<Rightarrow> Ok x)"

definition and_then :: "'e + 'a \<Rightarrow> ('a \<Rightarrow> 'e + 'b) \<Rightarrow> 'e + 'b" where
  "and_then r f = (case r of Err e \<Rightarrow> Err e | Ok x \<Rightarrow> f x)"

lemma is_ok_simps [simp, result_simps]:
  "is_ok (Ok x)" "\<not> is_ok (Err e)" "is_err (Err e)" "\<not> is_err (Ok x)"
  by (simp_all add: is_ok_def is_err_def)

lemma is_ok_iff: "is_ok r \<longleftrightarrow> (\<exists>x. r = Ok x)"
  by (cases r) auto

lemma is_err_iff: "is_err r \<longleftrightarrow> (\<exists>e. r = Err e)"
  by (cases r) auto

lemma and_then_simps [simp, result_simps]:
  "and_then (Ok x) f = f x" "and_then (Err e) f = Err e"
  by (simp_all add: and_then_def)

lemma and_then_Ok_iff [simp, result_simps]:
  "and_then r f = Ok y \<longleftrightarrow> (\<exists>x. r = Ok x \<and> f x = Ok y)"
  by (cases r) auto

lemma ok_or_Ok_iff [simp, result_simps]: "ok_or x e = Ok y \<longleftrightarrow> x = Some y"
  by (cases x) (auto simp: ok_or_def)

lemma ok_or_Err_iff [simp, result_simps]: "ok_or x e = Err e' \<longleftrightarrow> x = None \<and> e' = e"
  by (cases x) (auto simp: ok_or_def)

lemma ok_or_simps [simp, result_simps]: "ok_or (Some x) e = Ok x" "ok_or None e = Err e"
  by (simp_all add: ok_or_def)

lemma map_err_Ok_iff [simp, result_simps]: "map_err f r = Ok x \<longleftrightarrow> r = Ok x"
  by (cases r) (auto simp: map_err_def)

lemma map_err_simps [simp, result_simps]: "map_err f (Ok x) = Ok x" "map_err f (Err e) = Err (f e)"
  by (simp_all add: map_err_def)

text \<open>Evaluation does not enter a continuation before its value is known.\<close>

declare and_then_def [code_unfold] ok_or_def [code_unfold] map_err_def [code_unfold]

text \<open>Elimination along a chain of fallible steps.\<close>

lemma and_then_OkE: "and_then m f = Ok v \<Longrightarrow> (\<And>x. m = Ok x \<Longrightarrow> f x = Ok v \<Longrightarrow> P) \<Longrightarrow> P"
  by (auto simp: and_then_Ok_iff)

lemma guard_OkE: "(if b then Err e else m) = Ok v \<Longrightarrow> (\<not> b \<Longrightarrow> m = Ok v \<Longrightarrow> P) \<Longrightarrow> P"
  by (auto split: if_splits)

lemma case_prod_OkE: "(case p of (x, y) \<Rightarrow> f x y) = Ok v \<Longrightarrow> (\<And>x y. p = (x, y) \<Longrightarrow> f x y = Ok v \<Longrightarrow> P) \<Longrightarrow> P"
  by (auto split: prod.splits)

section \<open>Loops that stop at the first error\<close>

text \<open>\<open>for x in xs { check(x)?; }\<close> and \<open>xs.iter().map(f).collect::<Result<Vec<_>, _>>()\<close>.\<close>

fun for_each :: "('a \<Rightarrow> 'e + unit) \<Rightarrow> 'a list \<Rightarrow> 'e + unit" where
  "for_each f [] = Ok ()"
| "for_each f (x # xs) = (case f x of Err e \<Rightarrow> Err e | Ok _ \<Rightarrow> for_each f xs)"

fun try_map :: "('a \<Rightarrow> 'e + 'b) \<Rightarrow> 'a list \<Rightarrow> 'e + 'b list" where
  "try_map f [] = Ok []"
| "try_map f (x # xs) = (case f x of Err e \<Rightarrow> Err e
     | Ok y \<Rightarrow> (case try_map f xs of Err e \<Rightarrow> Err e | Ok ys \<Rightarrow> Ok (y # ys)))"

text \<open>\<open>Iterator::try_fold\<close>.\<close>

fun try_fold :: "('b \<Rightarrow> 'a \<Rightarrow> 'e + 'b) \<Rightarrow> 'b \<Rightarrow> 'a list \<Rightarrow> 'e + 'b" where
  "try_fold f b [] = Ok b"
| "try_fold f b (x # xs) = (case f b x of Err e \<Rightarrow> Err e | Ok b' \<Rightarrow> try_fold f b' xs)"

fun option_seq :: "'a option list \<Rightarrow> 'a list option" where
  "option_seq [] = Some []"
| "option_seq (None # xs) = None"
| "option_seq (Some x # xs) = map_option ((#) x) (option_seq xs)"

fun find_map :: "('a \<Rightarrow> 'b option) \<Rightarrow> 'a list \<Rightarrow> 'b option" where
  "find_map f [] = None"
| "find_map f (x # xs) = (case f x of Some y \<Rightarrow> Some y | None \<Rightarrow> find_map f xs)"

lemma for_each_Ok_iff [simp, result_simps]:
  "for_each f xs = Ok u \<longleftrightarrow> (\<forall>x \<in> set xs. f x = Ok ())"
  by (induction xs) (auto split: sum.splits)

lemma for_each_Err_D: "for_each f xs = Err e \<Longrightarrow> \<exists>x \<in> set xs. f x = Err e"
  by (induction xs) (auto split: sum.splits)

lemma try_map_Ok_iff [result_simps]:
  "try_map f xs = Ok ys \<longleftrightarrow> list_all2 (\<lambda>x y. f x = Ok y) xs ys"
proof (induction xs arbitrary: ys)
  case Nil
  then show ?case by auto
next
  case (Cons x xs)
  show ?case
  proof (cases "f x")
    case (Inl e)
    then show ?thesis by (auto simp: list_all2_Cons1)
  next
    case (Inr y)
    then show ?thesis
      using Cons.IH by (auto simp: list_all2_Cons1 simp flip: Cons.IH split: sum.splits)
  qed
qed

lemma try_map_length: "try_map f xs = Ok ys \<Longrightarrow> length ys = length xs"
  by (auto simp: try_map_Ok_iff dest: list_all2_lengthD)

lemma option_seq_Some_iff: "option_seq xs = Some ys \<longleftrightarrow> xs = map Some ys"
proof (induction xs arbitrary: ys rule: option_seq.induct)
  case (3 x xs)
  then show ?case by (cases ys) auto
qed auto

lemma find_map_None_iff: "find_map f xs = None \<longleftrightarrow> (\<forall>x \<in> set xs. f x = None)"
  by (induction xs) (auto split: option.splits)

lemma find_map_SomeD:
  "find_map f xs = Some y \<Longrightarrow> \<exists>x \<in> set xs. f x = Some y"
  by (induction xs) (auto split: option.splits)

lemma find_map_first:
  assumes "find_map f xs = Some y"
  shows "\<exists>us x vs. xs = us @ x # vs \<and> f x = Some y \<and> (\<forall>u \<in> set us. f u = None)"
  using assms
proof (induction xs)
  case (Cons x xs)
  show ?case
  proof (cases "f x")
    case None
    with Cons obtain us z vs where "xs = us @ z # vs" "f z = Some y" "\<forall>u \<in> set us. f u = None"
      by auto
    with None have "x # xs = (x # us) @ z # vs \<and> f z = Some y \<and> (\<forall>u \<in> set (x # us). f u = None)"
      by simp
    then show ?thesis by blast
  next
    case (Some z)
    with Cons.prems have "x # xs = [] @ x # xs \<and> f x = Some y \<and> (\<forall>u \<in> set []. f u = None)"
      by simp
    then show ?thesis by blast
  qed
qed simp

section \<open>Ordered maps\<close>

text \<open>
  The map operations the components call, as an interface: lookup after insertion and
  removal, the keys an iteration visits, and what insertion keeps.
\<close>

locale ordered_map =
  fixes empty :: "'m"
    and get :: "'m \<Rightarrow> 'k \<Rightarrow> 'v option"
    and insert :: "'k \<Rightarrow> 'v \<Rightarrow> 'm \<Rightarrow> 'm"
    and remove :: "'k \<Rightarrow> 'm \<Rightarrow> 'm"
    and keys :: "'m \<Rightarrow> 'k list"
    and invar :: "'m \<Rightarrow> bool"
  assumes get_empty: "get empty k = None"
    and get_insert: "get (insert k v m) k' = (if k' = k then Some v else get m k')"
    and get_remove: "invar m \<Longrightarrow> get (remove k m) k' = (if k' = k then None else get m k')"
    and keys_get: "invar m \<Longrightarrow> k \<in> set (keys m) \<longleftrightarrow> get m k \<noteq> None"
    and keys_distinct: "invar m \<Longrightarrow> distinct (keys m)"
    and invar_empty: "invar empty"
    and invar_insert: "invar m \<Longrightarrow> invar (insert k v m)"
    and invar_remove: "invar m \<Longrightarrow> invar (remove k m)"
begin

lemma get_insert_same: "get (insert k v m) k = Some v"
  by (simp add: get_insert)

lemma keys_insert: "invar m \<Longrightarrow> set (keys (insert k v m)) = set (keys m) \<union> {k}"
  by (auto simp: keys_get invar_insert get_insert split: if_splits)

lemma keys_remove: "invar m \<Longrightarrow> set (keys (remove k m)) = set (keys m) - {k}"
  by (auto simp: keys_get invar_remove get_remove split: if_splits)

lemma invar_inserts: "invar m \<Longrightarrow> invar (foldl (\<lambda>m (k, v). insert k v m) m kvs)"
  by (induction kvs arbitrary: m) (auto simp: invar_insert)

end

text \<open>\<open>BTreeMap<K, V>\<close>: the entries in ascending key order.\<close>

type_synonym ('k, 'v) btree_map = "('k \<times> 'v) list"

definition btm_get :: "('k, 'v) btree_map \<Rightarrow> 'k \<Rightarrow> 'v option" where
  "btm_get m k = map_of m k"

fun btm_insert :: "'k::linorder \<Rightarrow> 'v \<Rightarrow> ('k, 'v) btree_map \<Rightarrow> ('k, 'v) btree_map" where
  "btm_insert k v [] = [(k, v)]"
| "btm_insert k v ((a, b) # m) =
     (if k < a then (k, v) # (a, b) # m
      else if k = a then (k, v) # m
      else (a, b) # btm_insert k v m)"

definition btm_remove :: "'k \<Rightarrow> ('k, 'v) btree_map \<Rightarrow> ('k, 'v) btree_map" where
  "btm_remove k m = filter (\<lambda>e. fst e \<noteq> k) m"

definition btm_keys :: "('k, 'v) btree_map \<Rightarrow> 'k list" where
  "btm_keys m = map fst m"

definition btm_contains :: "('k, 'v) btree_map \<Rightarrow> 'k \<Rightarrow> bool" where
  "btm_contains m k \<longleftrightarrow> btm_get m k \<noteq> None"

definition btm_wf :: "('k::linorder, 'v) btree_map \<Rightarrow> bool" where
  "btm_wf m \<longleftrightarrow> sorted_wrt (<) (map fst m)"

lemma btm_get_simps [simp, btm_simps]:
  "btm_get [] k = None" "btm_get ((a, b) # m) k = (if k = a then Some b else btm_get m k)"
  by (simp_all add: btm_get_def)

lemma btm_get_insert [simp, btm_simps]:
  "btm_get (btm_insert k v m) k' = (if k' = k then Some v else btm_get m k')"
  by (induction k v m rule: btm_insert.induct) auto

lemma set_keys_insert [simp, btm_simps]: "fst ` set (btm_insert k v m) = insert k (fst ` set m)"
  by (induction k v m rule: btm_insert.induct) auto

lemma btm_wf_Nil [simp, btm_simps]: "btm_wf []"
  by (simp add: btm_wf_def)

lemma btm_wf_insert [simp, btm_simps]: "btm_wf m \<Longrightarrow> btm_wf (btm_insert k v m)"
proof (induction m)
  case (Cons e m)
  obtain a b where e: "e = (a, b)" by (cases e)
  have "set (map fst (btm_insert k v m)) = insert k (fst ` set m)" by simp
  with Cons e show ?case
    by (auto simp: btm_wf_def)
qed (simp add: btm_wf_def)

lemma btm_get_remove [simp, btm_simps]:
  "btm_get (btm_remove k m) k' = (if k' = k then None else btm_get m k')"
  by (induction m) (auto simp: btm_remove_def)

lemma btm_wf_remove [simp, btm_simps]: "btm_wf m \<Longrightarrow> btm_wf (btm_remove k m)"
proof -
  have "map fst (filter (\<lambda>e. fst e \<noteq> k) m) = filter (\<lambda>a. a \<noteq> k) (map fst m)"
    by (simp add: filter_map comp_def)
  then show "btm_wf m \<Longrightarrow> btm_wf (btm_remove k m)"
    by (simp add: btm_wf_def btm_remove_def sorted_wrt_filter)
qed

lemma btm_keys_get: "k \<in> set (btm_keys m) \<longleftrightarrow> btm_get m k \<noteq> None"
  by (induction m) (auto simp: btm_keys_def)

lemma btm_get_in_set: "btm_get m k = Some v \<Longrightarrow> (k, v) \<in> set m"
  by (simp add: btm_get_def map_of_SomeD)

lemma btm_wf_distinct: "btm_wf m \<Longrightarrow> distinct (map fst m)"
  by (simp add: btm_wf_def strict_sorted_iff)

lemma btm_get_iff: "btm_wf m \<Longrightarrow> btm_get m k = Some v \<longleftrightarrow> (k, v) \<in> set m"
  by (simp add: btm_get_def btm_wf_distinct)

lemma btm_ext:
  assumes "btm_wf m" "btm_wf m'" "\<forall>k. btm_get m k = btm_get m' k"
  shows "m = m'"
proof -
  have same: "set m = set m'"
    using assms(3) btm_get_iff [OF assms(1)] btm_get_iff [OF assms(2)] by auto
  then have "set (map fst m) = set (map fst m')" by simp
  with assms(1,2) have keys: "map fst m = map fst m'"
    unfolding btm_wf_def using strict_sorted_equal by blast
  have "inj_on fst (set m)" using btm_wf_distinct [OF assms(1)] by (simp add: distinct_map)
  with keys same show ?thesis by (simp add: inj_on_map_eq_map)
qed

lemma btm_wf_inserts: "btm_wf m \<Longrightarrow> btm_wf (foldl (\<lambda>m (k, v). btm_insert k v m) m kvs)"
  by (induction kvs arbitrary: m) auto

lemma btm_get_inserts:
  "distinct (map fst kvs) \<Longrightarrow> btm_get (foldl (\<lambda>m (k, v). btm_insert k v m) m kvs) k =
     (case map_of kvs k of Some v \<Rightarrow> Some v | None \<Rightarrow> btm_get m k)"
proof (induction kvs arbitrary: m)
  case (Cons kv kvs)
  have "map_of kvs k = None" if "k = fst kv" using Cons.prems that by (simp add: map_of_eq_None_iff)
  with Cons show ?case by (cases kv) (auto split: option.splits)
qed simp

interpretation btm: ordered_map "[]" btm_get btm_insert btm_remove btm_keys btm_wf
  by unfold_locales (auto simp: btm_keys_get simp del: not_None_eq, simp add: btm_keys_def btm_wf_distinct)

section \<open>Lists\<close>

lemma list_all2_map_eq: "list_all2 (\<lambda>x y. y = f x) xs ys \<longleftrightarrow> ys = map f xs"
  by (induction xs arbitrary: ys) (auto simp: list_all2_Cons1)

lemma sum_list_mono_pointwise:
  "(\<And>x. x \<in> set xs \<Longrightarrow> f x \<le> g x) \<Longrightarrow> sum_list (map f xs) \<le> sum_list (map (g :: _ \<Rightarrow> int) xs)"
  by (induction xs) (auto intro: add_mono)

end
