(* ===== verification/Rust_Str.thy ===== *)
theory Rust_Str
  imports Prelude
begin

text \<open>
  The parts of Rust's \<open>str\<close> the sources use. A \<open>str\<close> is its UTF-8 bytes, a
  \<^typ>\<open>string\<close>: \<open>length\<close> is \<open>len()\<close>, \<open>chars_count\<close> is \<open>chars().count()\<close>.
  Byte classes, splitting and joining, prefixes and suffixes, trimming, case,
  integer parsing and printing, with the round trips between them.
\<close>

section \<open>Byte classes\<close>

definition byte :: "char \<Rightarrow> nat" where
  "byte c = of_char c"

definition is_ascii_digit :: "char \<Rightarrow> bool" where
  "is_ascii_digit c \<longleftrightarrow> 48 \<le> byte c \<and> byte c \<le> 57"

definition is_ascii_lowercase :: "char \<Rightarrow> bool" where
  "is_ascii_lowercase c \<longleftrightarrow> 97 \<le> byte c \<and> byte c \<le> 122"

definition is_ascii_uppercase :: "char \<Rightarrow> bool" where
  "is_ascii_uppercase c \<longleftrightarrow> 65 \<le> byte c \<and> byte c \<le> 90"

definition is_ascii_alphabetic :: "char \<Rightarrow> bool" where
  "is_ascii_alphabetic c \<longleftrightarrow> is_ascii_lowercase c \<or> is_ascii_uppercase c"

definition is_ascii_alphanumeric :: "char \<Rightarrow> bool" where
  "is_ascii_alphanumeric c \<longleftrightarrow> is_ascii_alphabetic c \<or> is_ascii_digit c"

definition is_ascii_hexdigit :: "char \<Rightarrow> bool" where
  "is_ascii_hexdigit c \<longleftrightarrow>
     is_ascii_digit c \<or> 97 \<le> byte c \<and> byte c \<le> 102 \<or> 65 \<le> byte c \<and> byte c \<le> 70"

definition to_lower :: "char \<Rightarrow> char" where
  "to_lower c = (if is_ascii_uppercase c then char_of (byte c + 32) else c)"

definition to_upper :: "char \<Rightarrow> char" where
  "to_upper c = (if is_ascii_lowercase c then char_of (byte c - 32) else c)"

definition to_ascii_lowercase :: "string \<Rightarrow> string" where
  "to_ascii_lowercase s = map to_lower s"

definition to_ascii_uppercase :: "string \<Rightarrow> string" where
  "to_ascii_uppercase s = map to_upper s"

definition eq_ignore_ascii_case :: "string \<Rightarrow> string \<Rightarrow> bool" where
  "eq_ignore_ascii_case a b \<longleftrightarrow> to_ascii_lowercase a = to_ascii_lowercase b"

text \<open>\<open>chars().count()\<close>: every byte but a UTF-8 continuation byte starts a character.\<close>

definition chars_count :: "string \<Rightarrow> nat" where
  "chars_count s = length (filter (\<lambda>c. \<not> (128 \<le> byte c \<and> byte c < 192)) s)"

text \<open>\<open>chars().any(char::is_control)\<close>: C0, DEL and the C1 block, encoded C2 80 to C2 9F.\<close>

fun has_control :: "string \<Rightarrow> bool" where
  "has_control [] = False"
| "has_control (c # s) =
     (byte c < 32 \<or> byte c = 127
      \<or> byte c = 194 \<and> (case s of [] \<Rightarrow> False | d # _ \<Rightarrow> 128 \<le> byte d \<and> byte d \<le> 159)
      \<or> has_control s)"

lemma chars_count_le: "chars_count s \<le> length s"
  by (simp add: chars_count_def)

lemma to_lower_idem [simp, str_simps]: "to_lower (to_lower c) = to_lower c"
  by (auto simp: to_lower_def is_ascii_uppercase_def byte_def of_char_of)

lemma to_upper_idem [simp, str_simps]: "to_upper (to_upper c) = to_upper c"
  by (auto simp: to_upper_def is_ascii_lowercase_def byte_def of_char_of)

lemma to_ascii_case_idem [simp, str_simps]:
  "to_ascii_lowercase (to_ascii_lowercase s) = to_ascii_lowercase s"
  "to_ascii_uppercase (to_ascii_uppercase s) = to_ascii_uppercase s"
  by (simp_all add: to_ascii_lowercase_def to_ascii_uppercase_def)

section \<open>Prefixes, suffixes, search\<close>

fun strip_prefix :: "string \<Rightarrow> string \<Rightarrow> string option" where
  "strip_prefix [] s = Some s"
| "strip_prefix (p # ps) [] = None"
| "strip_prefix (p # ps) (c # s) = (if p = c then strip_prefix ps s else None)"

definition strip_suffix :: "string \<Rightarrow> string \<Rightarrow> string option" where
  "strip_suffix q s = map_option rev (strip_prefix (rev q) (rev s))"

definition starts_with :: "string \<Rightarrow> string \<Rightarrow> bool" where
  "starts_with p s \<longleftrightarrow> strip_prefix p s \<noteq> None"

definition ends_with :: "string \<Rightarrow> string \<Rightarrow> bool" where
  "ends_with q s \<longleftrightarrow> strip_suffix q s \<noteq> None"

fun contains_str :: "string \<Rightarrow> string \<Rightarrow> bool" where
  "contains_str n [] = (n = [])"
| "contains_str n (c # s) = (starts_with n (c # s) \<or> contains_str n s)"

definition contains_any :: "char list \<Rightarrow> string \<Rightarrow> bool" where
  "contains_any cs s \<longleftrightarrow> list_ex (\<lambda>c. c \<in> set cs) s"

lemma strip_prefix_iff: "strip_prefix p s = Some r \<longleftrightarrow> s = p @ r"
  by (induction p s rule: strip_prefix.induct) auto

lemma strip_prefix_append [simp, str_simps]: "strip_prefix p (p @ r) = Some r"
  by (simp add: strip_prefix_iff)

lemma strip_suffix_iff: "strip_suffix q s = Some r \<longleftrightarrow> s = r @ q"
proof -
  have "strip_suffix q s = Some r \<longleftrightarrow> strip_prefix (rev q) (rev s) = Some (rev r)"
    by (auto simp: strip_suffix_def)
  also have "\<dots> \<longleftrightarrow> s = r @ q"
    by (metis rev_append rev_rev_ident strip_prefix_iff)
  finally show ?thesis .
qed

lemma strip_suffix_append [simp, str_simps]: "strip_suffix q (r @ q) = Some r"
  by (simp add: strip_suffix_iff)

lemma strip_suffix_Nil [simp, str_simps]: "strip_suffix [] s = Some s"
  by (simp add: strip_suffix_iff)

lemma starts_with_iff: "starts_with p s \<longleftrightarrow> (\<exists>r. s = p @ r)"
  by (auto simp: starts_with_def strip_prefix_iff)

lemma ends_with_iff: "ends_with q s \<longleftrightarrow> (\<exists>r. s = r @ q)"
  by (auto simp: ends_with_def strip_suffix_iff)

lemma contains_str_iff: "contains_str n s \<longleftrightarrow> sublist n s"
proof (induction s)
  case (Cons c s)
  then show ?case
    by (auto simp: sublist_Cons_right starts_with_iff prefix_def)
qed simp

lemma contains_any_iff [simp, str_simps]: "contains_any cs s \<longleftrightarrow> (\<exists>c \<in> set cs. c \<in> set s)"
  by (auto simp: contains_any_def list_ex_iff)

section \<open>Splitting and joining\<close>

fun split_on :: "char \<Rightarrow> string \<Rightarrow> string list" where
  "split_on c [] = [[]]"
| "split_on c (x # s) =
     (if x = c then [] # split_on c s
      else (case split_on c s of [] \<Rightarrow> [[x]] | p # ps \<Rightarrow> (x # p) # ps))"

fun join :: "string \<Rightarrow> string list \<Rightarrow> string" where
  "join sep [] = []"
| "join sep [x] = x"
| "join sep (x # y # zs) = x @ sep @ join sep (y # zs)"

fun split_once :: "char \<Rightarrow> string \<Rightarrow> (string \<times> string) option" where
  "split_once c [] = None"
| "split_once c (x # s) =
     (if x = c then Some ([], s)
      else map_option (\<lambda>(a, b). (x # a, b)) (split_once c s))"

definition rsplit_once :: "char \<Rightarrow> string \<Rightarrow> (string \<times> string) option" where
  "rsplit_once c s = map_option (\<lambda>(a, b). (rev b, rev a)) (split_once c (rev s))"

text \<open>\<open>splitn(n, c)\<close>: at most \<open>n\<close> parts, the last one unsplit.\<close>

fun splitn :: "nat \<Rightarrow> char \<Rightarrow> string \<Rightarrow> string list" where
  "splitn 0 c s = []"
| "splitn (Suc 0) c s = [s]"
| "splitn (Suc (Suc n)) c s =
     (case split_once c s of None \<Rightarrow> [s] | Some (a, b) \<Rightarrow> a # splitn (Suc n) c b)"

lemma split_on_not_Nil [simp, str_simps]: "split_on c s \<noteq> []"
  by (induction s) (auto split: list.splits)

lemma split_on_pieces: "p \<in> set (split_on c s) \<Longrightarrow> c \<notin> set p \<and> set p \<subseteq> set s"
proof (induction s arbitrary: p)
  case (Cons x s)
  then show ?case by (cases "split_on c s") (auto split: if_splits, blast+)
qed simp

lemma join_split_on [simp, str_simps]: "join [c] (split_on c s) = s"
proof (induction s)
  case (Cons x s)
  obtain p ps where sp: "split_on c s = p # ps" by (cases "split_on c s") auto
  with Cons show ?case by (cases ps) auto
qed simp

lemma split_on_no_sep [simp, str_simps]: "c \<notin> set s \<Longrightarrow> split_on c s = [s]"
  by (induction s) auto

lemma split_on_append: "c \<notin> set a \<Longrightarrow> split_on c (a @ c # s) = a # split_on c s"
  by (induction a) auto

lemma split_on_join:
  "xs \<noteq> [] \<Longrightarrow> \<forall>x \<in> set xs. c \<notin> set x \<Longrightarrow> split_on c (join [c] xs) = xs"
  by (induction "[c]" xs rule: join.induct) (auto simp: split_on_append)

lemma set_join: "set (join sep xs) \<subseteq> \<Union> (set ` set xs) \<union> set sep"
  by (induction sep xs rule: join.induct) auto

lemma split_once_Some_iff: "split_once c s = Some (a, b) \<longleftrightarrow> s = a @ c # b \<and> c \<notin> set a"
proof (induction s arbitrary: a b)
  case (Cons x s)
  show ?case by (cases a) (auto simp: Cons)
qed simp

lemma split_once_None_iff: "split_once c s = None \<longleftrightarrow> c \<notin> set s"
  by (induction s) auto

lemma split_once_append [simp, str_simps]: "c \<notin> set a \<Longrightarrow> split_once c (a @ c # b) = Some (a, b)"
  by (simp add: split_once_Some_iff)

lemma rsplit_once_Some_iff: "rsplit_once c s = Some (a, b) \<longleftrightarrow> s = a @ c # b \<and> c \<notin> set b"
proof -
  have "rsplit_once c s = Some (a, b) \<longleftrightarrow> split_once c (rev s) = Some (rev b, rev a)"
    unfolding rsplit_once_def by (cases "split_once c (rev s)") auto
  also have "\<dots> \<longleftrightarrow> rev s = rev b @ c # rev a \<and> c \<notin> set b"
    by (simp add: split_once_Some_iff)
  also have "rev s = rev b @ c # rev a \<longleftrightarrow> s = a @ c # b"
    by (metis append.assoc append_Cons append_Nil rev.simps(2) rev_append rev_rev_ident)
  finally show ?thesis .
qed

lemma rsplit_once_None_iff: "rsplit_once c s = None \<longleftrightarrow> c \<notin> set s"
  by (simp add: rsplit_once_def split_once_None_iff)

lemma join_snoc: "xs \<noteq> [] \<Longrightarrow> join sep (xs @ [y]) = join sep xs @ sep @ y"
  by (induction sep xs rule: join.induct) auto

lemma join_Cons: "xs \<noteq> [] \<Longrightarrow> join sep (x # xs) = x @ sep @ join sep xs"
  by (cases xs) auto

section \<open>Trimming\<close>

text \<open>
  \<open>trim()\<close> drops Unicode \<open>White_Space\<close> at both ends: the six ASCII characters and the
  UTF-8 codes of U+0085, U+00A0, U+1680, U+2000 to U+200A, U+2028, U+2029, U+202F, U+205F
  and U+3000.
\<close>

definition ws_codes :: "string list" where
  "ws_codes = map (map char_of) (
     [[9], [10], [11], [12], [13], [32], [194, 133], [194, 160], [225, 154, 128],
      [226, 128, 168], [226, 128, 169], [226, 128, 175], [226, 129, 159], [227, 128, 128]]
     @ map (\<lambda>i. [226, 128, i]) [128 ..< 139] :: nat list list)"

fun drop_ws :: "string list \<Rightarrow> nat \<Rightarrow> string \<Rightarrow> string" where
  "drop_ws codes 0 s = s"
| "drop_ws codes (Suc n) s =
     (case find_map (\<lambda>w. strip_prefix w s) codes of None \<Rightarrow> s | Some r \<Rightarrow> drop_ws codes n r)"

definition trim_start :: "string \<Rightarrow> string" where
  "trim_start s = drop_ws ws_codes (length s) s"

definition trim_end :: "string \<Rightarrow> string" where
  "trim_end s = rev (drop_ws (map rev ws_codes) (length s) (rev s))"

definition trim :: "string \<Rightarrow> string" where
  "trim s = trim_end (trim_start s)"

text \<open>\<open>chars().any(char::is_whitespace)\<close>.\<close>

definition has_whitespace :: "string \<Rightarrow> bool" where
  "has_whitespace s \<longleftrightarrow> list_ex (\<lambda>w. contains_str w s) ws_codes"

lemma ws_codes_not_Nil: "w \<in> set ws_codes \<Longrightarrow> w \<noteq> []"
  by (auto simp: ws_codes_def)

lemma drop_ws_fixed:
  "(\<forall>w \<in> set codes. strip_prefix w s = None) \<Longrightarrow> drop_ws codes n s = s"
  by (cases n) (simp_all add: find_map_None_iff [THEN iffD2])

lemma drop_ws_result:
  assumes "\<forall>w \<in> set codes. w \<noteq> []" and "length s \<le> n"
  shows "\<forall>w \<in> set codes. strip_prefix w (drop_ws codes n s) = None"
  using assms(2)
proof (induction n arbitrary: s)
  case 0
  then show ?case using assms(1) by (auto simp: neq_Nil_conv)
next
  case (Suc n)
  show ?case
  proof (cases "find_map (\<lambda>w. strip_prefix w s) codes")
    case None
    then have "\<forall>w \<in> set codes. strip_prefix w s = None" by (simp add: find_map_None_iff)
    with None show ?thesis by simp
  next
    case (Some r)
    then obtain w where "w \<in> set codes" "s = w @ r"
      using find_map_SomeD strip_prefix_iff by metis
    with assms(1) Suc.prems have "length r \<le> n" by (cases w) auto
    with Some show ?thesis by (simp add: Suc.IH)
  qed
qed

lemma drop_ws_suffix: "suffix (drop_ws codes n s) s"
proof (induction codes n s rule: drop_ws.induct)
  case (2 codes n s)
  show ?case
  proof (cases "find_map (\<lambda>w. strip_prefix w s) codes")
    case (Some r)
    then obtain w where "s = w @ r" using find_map_SomeD strip_prefix_iff by metis
    with Some "2.IH" show ?thesis by (simp add: suffix_appendI)
  qed simp
qed simp

lemma trim_start_clean: "w \<in> set ws_codes \<Longrightarrow> strip_prefix w (trim_start s) = None"
  unfolding trim_start_def using drop_ws_result [of ws_codes s "length s"] ws_codes_not_Nil by blast

lemma trim_end_clean: "w \<in> set ws_codes \<Longrightarrow> strip_prefix (rev w) (rev (trim_end s)) = None"
  unfolding trim_end_def
  using drop_ws_result [of "map rev ws_codes" "rev s" "length s"] ws_codes_not_Nil by auto

lemma trim_end_prefix: "prefix (trim_end s) s"
  using drop_ws_suffix [of "map rev ws_codes" "length s" "rev s"]
  by (simp add: trim_end_def suffix_to_prefix)

lemma trim_start_suffix: "suffix (trim_start s) s"
  by (simp add: trim_start_def drop_ws_suffix)

lemma trim_end_trim_end: "trim_end (trim_end s) = trim_end s"
  using trim_end_clean [of _ s] unfolding trim_end_def [of "trim_end s"]
  by (subst drop_ws_fixed) auto

text \<open>Trimmed text starts with no white space and is trimmed already.\<close>

lemma trim_clean: "w \<in> set ws_codes \<Longrightarrow> strip_prefix w (trim s) = None"
  using trim_start_clean [of w s] trim_end_prefix [of "trim_start s"]
  by (cases "strip_prefix w (trim s)") (auto simp: trim_def strip_prefix_iff prefix_def)

lemma trim_trim [simp, str_simps]: "trim (trim s) = trim s"
proof -
  have "trim_start (trim s) = trim s"
    unfolding trim_start_def by (rule drop_ws_fixed) (simp add: trim_clean)
  then show ?thesis by (metis trim_def trim_end_trim_end)
qed

text \<open>Lower-casing changes no byte of a white-space code, so it commutes with trimming.\<close>

lemma ws_codes_not_lower: "w \<in> set ws_codes \<Longrightarrow> c \<in> set w \<Longrightarrow> \<not> is_ascii_lowercase c \<and> \<not> is_ascii_uppercase c"
proof -
  have "list_all (list_all (\<lambda>c. \<not> is_ascii_lowercase c \<and> \<not> is_ascii_uppercase c)) ws_codes" by code_simp
  then show "w \<in> set ws_codes \<Longrightarrow> c \<in> set w \<Longrightarrow> ?thesis" by (auto simp: list_all_iff)
qed

lemma to_lower_eq_nonlower: "\<not> is_ascii_lowercase x \<Longrightarrow> \<not> is_ascii_uppercase x \<Longrightarrow> x = to_lower c \<longleftrightarrow> x = c"
  by (auto simp: to_lower_def is_ascii_lowercase_def is_ascii_uppercase_def byte_def of_char_of)

lemma strip_prefix_lower:
  assumes "\<forall>c \<in> set w. \<not> is_ascii_lowercase c \<and> \<not> is_ascii_uppercase c"
  shows "strip_prefix w (map to_lower s) = map_option (map to_lower) (strip_prefix w s)"
  using assms by (induction w s rule: strip_prefix.induct) (auto simp: to_lower_eq_nonlower)

lemma find_map_map_option:
  "(\<And>x. x \<in> set xs \<Longrightarrow> g x = map_option h (f x)) \<Longrightarrow> find_map g xs = map_option h (find_map f xs)"
  by (induction xs) (auto split: option.splits)

lemma drop_ws_lower:
  assumes "\<forall>w \<in> set codes. \<forall>c \<in> set w. \<not> is_ascii_lowercase c \<and> \<not> is_ascii_uppercase c"
  shows "drop_ws codes n (map to_lower s) = map to_lower (drop_ws codes n s)"
proof (induction n arbitrary: s)
  case (Suc n)
  have "find_map (\<lambda>w. strip_prefix w (map to_lower s)) codes =
      map_option (map to_lower) (find_map (\<lambda>w. strip_prefix w s) codes)"
    using assms by (intro find_map_map_option strip_prefix_lower) blast
  with Suc show ?case by (auto split: option.splits)
qed simp

lemma trim_lower [simp, str_simps]: "trim (to_ascii_lowercase s) = to_ascii_lowercase (trim s)"
proof -
  have start: "drop_ws ws_codes n (map to_lower t) = map to_lower (drop_ws ws_codes n t)"
    and finish: "drop_ws (map rev ws_codes) n (map to_lower t) = map to_lower (drop_ws (map rev ws_codes) n t)"
    for n t using ws_codes_not_lower by (intro drop_ws_lower; fastforce)+
  show ?thesis
    by (simp add: to_ascii_lowercase_def trim_def trim_start_def trim_end_def start rev_map finish)
qed

lemma trim_sublist: "sublist (trim s) s"
proof -
  have "suffix (trim_start s) s" by (simp add: trim_start_def drop_ws_suffix)
  moreover have "prefix (trim_end t) t" for t
    using drop_ws_suffix [of "map rev ws_codes" "length t" "rev t"]
    by (simp add: trim_end_def suffix_to_prefix)
  ultimately show ?thesis
    unfolding trim_def by (meson prefix_imp_sublist sublist_order.order_trans suffix_imp_sublist)
qed

lemma set_trim: "set (trim s) \<subseteq> set s"
  by (simp add: set_mono_sublist trim_sublist)

text \<open>Text with no byte that starts or ends a white-space code is its own trimming.\<close>

definition ws_byte :: "char \<Rightarrow> bool" where
  "ws_byte c \<longleftrightarrow> list_ex (\<lambda>w. c \<in> set w) ws_codes"

lemma trim_id_if_no_ws_byte:
  assumes "\<forall>c \<in> set s. \<not> ws_byte c"
  shows "trim s = s"
proof -
  have start: "strip_prefix w t = None"
    if "w \<in> set ws_codes \<or> w \<in> set (map rev ws_codes)" "set t \<subseteq> set s" for w t
  proof (rule ccontr)
    assume "strip_prefix w t \<noteq> None"
    then obtain r where r: "t = w @ r" by (auto simp: strip_prefix_iff)
    from that(1) obtain v where v: "v \<in> set ws_codes" "set w = set v" "w = [] \<longleftrightarrow> v = []"
      by auto
    with ws_codes_not_Nil obtain c where "c \<in> set w" by (cases w) auto
    with v r that(2) have "ws_byte c" "c \<in> set s" by (auto simp: ws_byte_def list_ex_iff)
    with assms show False by blast
  qed
  then have "trim_start s = s" unfolding trim_start_def by (intro drop_ws_fixed) auto
  moreover have "trim_end s = s"
    unfolding trim_end_def using start by (subst drop_ws_fixed) auto
  ultimately show ?thesis by (simp add: trim_def)
qed

text \<open>\<open>split_whitespace\<close>: the pieces between white-space code points, none of them empty.\<close>

definition ws_at :: "string \<Rightarrow> nat option" where
  "ws_at s = map_option length (find (\<lambda>w. strip_prefix w s \<noteq> None) ws_codes)"

fun words_from :: "nat \<Rightarrow> string \<Rightarrow> string \<Rightarrow> string list" where
  "words_from skip word [] = (if word = [] then [] else [word])"
| "words_from (Suc skip) word (c # s) = words_from skip word s"
| "words_from 0 word (c # s) = (case ws_at (c # s) of
     Some n \<Rightarrow> (if word = [] then [] else [word]) @ words_from (n - 1) [] s
   | None \<Rightarrow> words_from 0 (word @ [c]) s)"

definition split_whitespace :: "string \<Rightarrow> string list" where
  "split_whitespace s = words_from 0 [] s"

section \<open>Integers as text\<close>

definition digit_char :: "nat \<Rightarrow> char" where
  "digit_char d = char_of (48 + d)"

definition digit_val :: "char \<Rightarrow> nat" where
  "digit_val c = byte c - 48"

fun nat_str :: "nat \<Rightarrow> string" where
  "nat_str n = (if n < 10 then [digit_char n] else nat_str (n div 10) @ [digit_char (n mod 10)])"

lemma nat_str_length: "n < 10 ^ Suc k \<Longrightarrow> length (nat_str n) \<le> Suc k"
proof (induction k arbitrary: n)
  case 0
  then show ?case by (subst nat_str.simps) simp
next
  case (Suc k)
  show ?case
  proof (cases "n < 10")
    case False
    have "n div 10 < 10 ^ Suc k" using Suc.prems by (simp add: less_mult_imp_div_less)
    then have "length (nat_str (n div 10)) \<le> Suc k" by (rule Suc.IH)
    with False show ?thesis by (subst nat_str.simps) simp
  qed (subst nat_str.simps, simp)
qed

declare nat_str.simps [simp del]

definition int_str :: "int \<Rightarrow> string" where
  "int_str i = (if i < 0 then CHR ''-'' # nat_str (nat (- i)) else nat_str (nat i))"

definition digits_val :: "string \<Rightarrow> nat" where
  "digits_val s = foldl (\<lambda>a c. 10 * a + digit_val c) 0 s"

definition all_digits :: "string \<Rightarrow> bool" where
  "all_digits s \<longleftrightarrow> list_all is_ascii_digit s"

text \<open>
  \<open>str::parse\<close> for an unsigned type with maximum \<open>mx\<close>: an optional \<open>+\<close>, then at least one
  digit; \<open>None\<close> on anything else or on overflow. For a signed type also an optional \<open>-\<close>.
\<close>

definition parse_uint :: "nat \<Rightarrow> string \<Rightarrow> nat option" where
  "parse_uint mx s =
     (let d = (case strip_prefix ''+'' s of Some r \<Rightarrow> r | None \<Rightarrow> s)
      in if d = [] \<or> \<not> all_digits d then None
         else if digits_val d \<le> mx then Some (digits_val d) else None)"

definition parse_int :: "int \<Rightarrow> int \<Rightarrow> string \<Rightarrow> int option" where
  "parse_int mn mx s =
     (let (neg, d) = (case strip_prefix ''-'' s of Some r \<Rightarrow> (True, r)
                      | None \<Rightarrow> (case strip_prefix ''+'' s of Some r \<Rightarrow> (False, r) | None \<Rightarrow> (False, s)))
      in if d = [] \<or> \<not> all_digits d then None
         else (let v = (if neg then - int (digits_val d) else int (digits_val d))
               in if mn \<le> v \<and> v \<le> mx then Some v else None))"

lemma digit_char_props [simp, str_simps]:
  "d < 10 \<Longrightarrow> is_ascii_digit (digit_char d)" "d < 10 \<Longrightarrow> digit_val (digit_char d) = d"
  by (simp_all add: digit_char_def is_ascii_digit_def digit_val_def byte_def of_char_of)

lemma digit_val_less: "is_ascii_digit c \<Longrightarrow> digit_val c < 10"
  by (auto simp: is_ascii_digit_def digit_val_def)

lemma digits_val_Nil [simp, str_simps]: "digits_val [] = 0"
  by (simp add: digits_val_def)

lemma digits_val_snoc [simp, str_simps]: "digits_val (s @ [c]) = 10 * digits_val s + digit_val c"
  by (simp add: digits_val_def)

lemma digits_val_append: "digits_val (a @ b) = digits_val a * 10 ^ length b + digits_val b"
proof (induction b rule: rev_induct)
  case (snoc c b)
  then show ?case by (simp flip: append_assoc add: algebra_simps)
qed simp

lemma all_digits_simps [simp, str_simps]:
  "all_digits []" "all_digits (c # s) \<longleftrightarrow> is_ascii_digit c \<and> all_digits s"
  "all_digits (s @ t) \<longleftrightarrow> all_digits s \<and> all_digits t"
  by (simp_all add: all_digits_def)

lemma nat_str_digits [simp, str_simps]: "all_digits (nat_str n)" "nat_str n \<noteq> []"
  by (induction n rule: nat_str.induct; subst nat_str.simps; simp)+

lemma digits_val_nat_str [simp, str_simps]: "digits_val (nat_str n) = n"
proof (induction n rule: nat_str.induct)
  case (1 n)
  show ?case
  proof (cases "n < 10")
    case True
    then show ?thesis by (subst nat_str.simps) (simp add: digits_val_def)
  next
    case False
    with "1.IH" show ?thesis by (subst nat_str.simps) simp
  qed
qed

lemma not_digit_sign: "\<not> is_ascii_digit CHR ''+''" "\<not> is_ascii_digit CHR ''-''"
  "\<not> is_ascii_digit CHR ''.''" "\<not> is_ascii_digit CHR ''e''" "\<not> is_ascii_digit CHR ''E''"
  by (simp_all add: is_ascii_digit_def byte_def)

lemma all_digits_no_prefix:
  "all_digits s \<Longrightarrow> \<not> is_ascii_digit c \<Longrightarrow> strip_prefix [c] s = None"
  by (cases s) auto

lemma all_digits_notin: "all_digits s \<Longrightarrow> \<not> is_ascii_digit c \<Longrightarrow> c \<notin> set s"
  by (auto simp: all_digits_def list_all_iff)

lemma parse_uint_digits:
  "all_digits s \<Longrightarrow> s \<noteq> [] \<Longrightarrow>
   parse_uint mx s = (if digits_val s \<le> mx then Some (digits_val s) else None)"
  by (simp add: parse_uint_def all_digits_no_prefix not_digit_sign)

lemma parse_int_digits:
  "all_digits s \<Longrightarrow> s \<noteq> [] \<Longrightarrow>
   parse_int mn mx s = (if mn \<le> int (digits_val s) \<and> int (digits_val s) \<le> mx
                        then Some (int (digits_val s)) else None)"
  by (simp add: parse_int_def all_digits_no_prefix not_digit_sign Let_def)

lemma parse_uint_nat_str [simp, str_simps]: "n \<le> mx \<Longrightarrow> parse_uint mx (nat_str n) = Some n"
  by (simp add: parse_uint_digits)

lemma parse_uint_le: "parse_uint mx s = Some n \<Longrightarrow> n \<le> mx"
  by (auto simp: parse_uint_def Let_def split: if_splits)

end
