(* ===== verification/Rust_Int.thy ===== *)
theory Rust_Int
  imports Rust_Str
begin

text \<open>
  Rust's fixed-width integers as the code uses them: the bounds of each type, the checked
  operations that yield \<open>None\<close> on overflow, the wrapping and saturating ones, and the
  printing and trimming of decimal digits.
\<close>

section \<open>Bounds\<close>

definition i64_max :: int where "i64_max = 9223372036854775807"
definition i64_min :: int where "i64_min = - 9223372036854775808"
definition u64_max :: nat where "u64_max = 18446744073709551615"
definition u32_max :: nat where "u32_max = 4294967295"
definition i32_max :: int where "i32_max = 2147483647"
definition i32_min :: int where "i32_min = - 2147483648"
definition i128_max :: int where "i128_max = 2 ^ 127 - 1"
definition i128_min :: int where "i128_min = - (2 ^ 127)"

text \<open>Two's complement wrap-around of a 32-bit signed result.\<close>

definition wrap_i32 :: "int \<Rightarrow> int" where
  "wrap_i32 x = (x + 2 ^ 31) mod 2 ^ 32 - 2 ^ 31"

definition saturating_neg_i32 :: "int \<Rightarrow> int" where
  "saturating_neg_i32 x = (if x = i32_min then i32_max else - x)"

definition checked_i128 :: "int \<Rightarrow> int option" where
  "checked_i128 x = (if i128_min \<le> x \<and> x \<le> i128_max then Some x else None)"

definition trim_end_zeros :: "string \<Rightarrow> string" where
  "trim_end_zeros s = rev (dropWhile (\<lambda>c. c = CHR ''0'') (rev s))"

text \<open>\<open>{n:0w}\<close>: at least \<open>w\<close> digits, zeros in front.\<close>

definition pad_zeros :: "nat \<Rightarrow> nat \<Rightarrow> string" where
  "pad_zeros w n = replicate (w - length (nat_str n)) CHR ''0'' @ nat_str n"

definition checked_i64 :: "int \<Rightarrow> int option" where
  "checked_i64 x = (if i64_min \<le> x \<and> x \<le> i64_max then Some x else None)"

lemma checked_Some_iff [simp]:
  "checked_i64 x = Some y \<longleftrightarrow> y = x \<and> i64_min \<le> x \<and> x \<le> i64_max"
  "checked_i128 x = Some y \<longleftrightarrow> y = x \<and> i128_min \<le> x \<and> x \<le> i128_max"
  by (auto simp: checked_i64_def checked_i128_def)

lemma parse_int_int_str: "mn \<le> i \<Longrightarrow> i \<le> mx \<Longrightarrow> parse_int mn mx (int_str i) = Some i"
  by (auto simp: int_str_def parse_int_def all_digits_no_prefix not_digit_sign Let_def)

end
