(* ===== verification/Json.thy ===== *)
theory Json
  imports Rust_Int
begin

text \<open>
  The JSON data model the sources work on (\<open>serde_json::Value\<close> with insertion-ordered
  objects) and the duplicate-refusing visitor of \<open>permissions/src/lib.rs\<close>. The text
  reader and printer, the JSON Pointer lookup, the URL parser and decoder and the
  substring search are other crates: they are the fields of \<open>externals\<close>, an argument of every definition that uses them.
\<close>

section \<open>Values\<close>

text \<open>
  A number is an unsigned integer, a negative integer or a finite double. A double is
  its canonical decimal text, which is one to one with the finite doubles.
\<close>

datatype json_number = PosInt nat | NegInt int | Float string

datatype json =
    JNull
  | JBool bool
  | JNumber json_number
  | JString string
  | JArray "json list"
  | JObject "(string \<times> json) list"

definition f64_zero_text :: "string \<Rightarrow> bool" where
  "f64_zero_text t \<longleftrightarrow> t = ''0.0'' \<or> t = ''-0.0''"

text \<open>Number equality: the two zeros of \<open>f64\<close> are equal, an integer never equals a double.\<close>

fun number_eq :: "json_number \<Rightarrow> json_number \<Rightarrow> bool" where
  "number_eq (PosInt a) (PosInt b) = (a = b)"
| "number_eq (NegInt a) (NegInt b) = (a = b)"
| "number_eq (Float a) (Float b) = (a = b \<or> f64_zero_text a \<and> f64_zero_text b)"
| "number_eq _ _ = False"

text \<open>Value equality: objects compare as maps, whatever their insertion order.\<close>

fun json_eq :: "json \<Rightarrow> json \<Rightarrow> bool"
  and json_eq_list :: "json list \<Rightarrow> json list \<Rightarrow> bool"
  and json_sub_obj :: "(string \<times> json) list \<Rightarrow> (string \<times> json) list \<Rightarrow> bool" where
  "json_eq JNull JNull = True"
| "json_eq (JBool a) (JBool b) = (a = b)"
| "json_eq (JNumber a) (JNumber b) = number_eq a b"
| "json_eq (JString a) (JString b) = (a = b)"
| "json_eq (JArray xs) (JArray ys) = json_eq_list xs ys"
| "json_eq (JObject es) (JObject fs) = (length es = length fs \<and> json_sub_obj es fs)"
| "json_eq _ _ = False"
| "json_eq_list [] [] = True"
| "json_eq_list (x # xs) (y # ys) = (json_eq x y \<and> json_eq_list xs ys)"
| "json_eq_list _ _ = False"
| "json_sub_obj [] fs = True"
| "json_sub_obj ((k, v) # es) fs =
     ((case map_of fs k of None \<Rightarrow> False | Some w \<Rightarrow> json_eq v w) \<and> json_sub_obj es fs)"

lemma json_eq_string [simp]: "json_eq (JString a) v \<longleftrightarrow> v = JString a"
  by (cases v) auto

lemma json_eq_string' [simp]: "json_eq v (JString a) \<longleftrightarrow> v = JString a"
  by (cases v) auto

fun as_str :: "json \<Rightarrow> string option" where
  "as_str (JString s) = Some s"
| "as_str _ = None"

fun as_bool :: "json \<Rightarrow> bool option" where
  "as_bool (JBool b) = Some b"
| "as_bool _ = None"

fun as_array :: "json \<Rightarrow> json list option" where
  "as_array (JArray xs) = Some xs"
| "as_array _ = None"

fun as_object :: "json \<Rightarrow> (string \<times> json) list option" where
  "as_object (JObject es) = Some es"
| "as_object _ = None"

fun as_u64 :: "json \<Rightarrow> nat option" where
  "as_u64 (JNumber (PosInt n)) = Some n"
| "as_u64 _ = None"

fun as_i64 :: "json \<Rightarrow> int option" where
  "as_i64 (JNumber (PosInt n)) = (if int n \<le> i64_max then Some (int n) else None)"
| "as_i64 (JNumber (NegInt i)) = Some i"
| "as_i64 _ = None"

text \<open>\<open>value.get(key)\<close> and \<open>value[key]\<close>, which reads \<open>null\<close> where there is nothing.\<close>

definition jget :: "json \<Rightarrow> string \<Rightarrow> json option" where
  "jget v k = (case v of JObject es \<Rightarrow> map_of es k | _ \<Rightarrow> None)"

definition jindex :: "json \<Rightarrow> string \<Rightarrow> json" where
  "jindex v k = (case jget v k of None \<Rightarrow> JNull | Some w \<Rightarrow> w)"

text \<open>The decimal text of a number, as \<open>Number::to_string\<close> prints it.\<close>

fun number_text :: "json_number \<Rightarrow> string" where
  "number_text (PosInt n) = nat_str n"
| "number_text (NegInt i) = int_str i"
| "number_text (Float t) = t"

lemma as_str_Some_iff [simp]: "as_str v = Some s \<longleftrightarrow> v = JString s"
  by (cases v) auto

lemma as_array_Some_iff [simp]: "as_array v = Some xs \<longleftrightarrow> v = JArray xs"
  by (cases v) auto

lemma as_object_Some_iff [simp]: "as_object v = Some es \<longleftrightarrow> v = JObject es"
  by (cases v) auto

lemma jindex_JString: "jindex v k = JString s \<longleftrightarrow> (\<exists>es. v = JObject es \<and> map_of es k = Some (JString s))"
  by (cases v) (auto simp: jindex_def jget_def split: option.splits)

section \<open>What the text reader reports\<close>

text \<open>
  The reader drives a visitor with the value's shape; an object is its key/value pairs in
  text order, duplicates included. A double is its canonical text, \<open>None\<close> when not finite.
\<close>

datatype raw =
    RUnit
  | RBool bool
  | RI64 int
  | RU64 nat
  | RF64 "string option"
  | RStr string
  | RSeq "raw list"
  | RMap "(string \<times> raw) list"

record parsed_url =
  url_scheme :: string
  url_username :: string
  url_password :: "string option"
  url_path :: string
  url_query :: "string option"
  url_fragment :: "string option"
  url_port :: "nat option"
  url_host_str :: "string option"
  url_origin :: string

record externals =
  from_slice :: "string \<Rightarrow> raw option"
  to_vec :: "json \<Rightarrow> string"
  pointer :: "json \<Rightarrow> string \<Rightarrow> json option"
  url_decode :: "string \<Rightarrow> string option"
  parse_url :: "string \<Rightarrow> parsed_url option"
  memmem_find :: "string \<Rightarrow> string \<Rightarrow> nat option"

text \<open>\<open>Unique\<close> and its \<open>Visitor\<close>: \<open>None\<close> is the deserializer's error.\<close>

fun unique :: "raw \<Rightarrow> json option"
  and visit_seq :: "raw list \<Rightarrow> json list option"
  and visit_map :: "(string \<times> json) list \<Rightarrow> (string \<times> raw) list \<Rightarrow> (string \<times> json) list option" where
  "unique RUnit = Some JNull"
| "unique (RBool b) = Some (JBool b)"
| "unique (RI64 i) = Some (JNumber (if i < 0 then NegInt i else PosInt (nat i)))"
| "unique (RU64 n) = Some (JNumber (PosInt n))"
| "unique (RF64 t) = map_option (\<lambda>x. JNumber (Float x)) t"
| "unique (RStr s) = Some (JString s)"
| "unique (RSeq rs) = map_option JArray (visit_seq rs)"
| "unique (RMap es) = map_option JObject (visit_map [] es)"
| "visit_seq [] = Some []"
| "visit_seq (r # rs) =
     (case unique r of None \<Rightarrow> None | Some v \<Rightarrow> map_option ((#) v) (visit_seq rs))"
| "visit_map acc [] = Some acc"
| "visit_map acc ((k, r) # es) =
     (case unique r of None \<Rightarrow> None
      | Some v \<Rightarrow> if map_of acc k \<noteq> None then None else visit_map (acc @ [(k, v)]) es)"

text \<open>What the visitor is to refuse: a repeated key at any depth, a double that is not finite.\<close>

fun unambiguous :: "raw \<Rightarrow> bool"
  and unambiguous_seq :: "raw list \<Rightarrow> bool"
  and unambiguous_map :: "(string \<times> raw) list \<Rightarrow> bool" where
  "unambiguous (RF64 t) = (t \<noteq> None)"
| "unambiguous (RSeq rs) = unambiguous_seq rs"
| "unambiguous (RMap es) = (distinct (map fst es) \<and> unambiguous_map es)"
| "unambiguous _ = True"
| "unambiguous_seq [] = True"
| "unambiguous_seq (r # rs) = (unambiguous r \<and> unambiguous_seq rs)"
| "unambiguous_map [] = True"
| "unambiguous_map ((k, r) # es) = (unambiguous r \<and> unambiguous_map es)"

text \<open>The value a text without ambiguity denotes.\<close>

fun denotes :: "raw \<Rightarrow> json"
  and denotes_seq :: "raw list \<Rightarrow> json list"
  and denotes_map :: "(string \<times> raw) list \<Rightarrow> (string \<times> json) list" where
  "denotes RUnit = JNull"
| "denotes (RBool b) = JBool b"
| "denotes (RI64 i) = JNumber (if i < 0 then NegInt i else PosInt (nat i))"
| "denotes (RU64 n) = JNumber (PosInt n)"
| "denotes (RF64 t) = JNumber (Float (case t of None \<Rightarrow> [] | Some x \<Rightarrow> x))"
| "denotes (RStr s) = JString s"
| "denotes (RSeq rs) = JArray (denotes_seq rs)"
| "denotes (RMap es) = JObject (denotes_map es)"
| "denotes_seq [] = []"
| "denotes_seq (r # rs) = denotes r # denotes_seq rs"
| "denotes_map [] = []"
| "denotes_map ((k, r) # es) = (k, denotes r) # denotes_map es"

text \<open>No object of a value repeats a key, and its negative numbers are negative.\<close>

fun json_wf :: "json \<Rightarrow> bool"
  and json_wf_list :: "json list \<Rightarrow> bool"
  and json_wf_obj :: "(string \<times> json) list \<Rightarrow> bool" where
  "json_wf (JNumber n) = (case n of NegInt i \<Rightarrow> i < 0 | _ \<Rightarrow> True)"
| "json_wf (JArray xs) = json_wf_list xs"
| "json_wf (JObject es) = (distinct (map fst es) \<and> json_wf_obj es)"
| "json_wf _ = True"
| "json_wf_list [] = True"
| "json_wf_list (x # xs) = (json_wf x \<and> json_wf_list xs)"
| "json_wf_obj [] = True"
| "json_wf_obj ((k, v) # es) = (json_wf v \<and> json_wf_obj es)"

lemma map_fst_denotes_map [simp]: "map fst (denotes_map es) = map fst es"
  by (induction es) auto

lemma unique_iff:
  "unique r = (if unambiguous r then Some (denotes r) else None)"
  "visit_seq rs = (if unambiguous_seq rs then Some (denotes_seq rs) else None)"
  "visit_map acc es =
     (if unambiguous_map es \<and> distinct (map fst es) \<and> fst ` set acc \<inter> fst ` set es = {}
      then Some (acc @ denotes_map es) else None)"
proof (induction r and rs and acc es rule: unique_visit_seq_visit_map.induct)
  case (12 acc k r es)
  show ?case
  proof (cases "unambiguous r \<and> map_of acc k = None")
    case True
    then have "k \<notin> fst ` set acc" by (simp add: map_of_eq_None_iff)
    with True 12 show ?thesis by (auto simp: image_iff)
  next
    case False
    with 12 show ?thesis by (auto simp: map_of_eq_None_iff image_iff split: option.splits)
  qed
qed (auto split: option.splits)

lemma denotes_wf:
  "unambiguous r \<Longrightarrow> json_wf (denotes r)"
  "unambiguous_seq rs \<Longrightarrow> json_wf_list (denotes_seq rs)"
  "unambiguous_map es \<Longrightarrow> json_wf_obj (denotes_map es)"
  by (induction r and rs and es rule: denotes_denotes_seq_denotes_map.induct) auto

lemma unique_wf: "unique r = Some v \<Longrightarrow> json_wf v"
  by (auto simp: unique_iff denotes_wf split: if_splits)

section \<open>Reading back what was printed\<close>

text \<open>The events the reader reports for the text of a value.\<close>

fun raw_of :: "json \<Rightarrow> raw"
  and raw_of_list :: "json list \<Rightarrow> raw list"
  and raw_of_obj :: "(string \<times> json) list \<Rightarrow> (string \<times> raw) list" where
  "raw_of JNull = RUnit"
| "raw_of (JBool b) = RBool b"
| "raw_of (JNumber n) = (case n of PosInt k \<Rightarrow> RU64 k | NegInt i \<Rightarrow> RI64 i | Float t \<Rightarrow> RF64 (Some t))"
| "raw_of (JString s) = RStr s"
| "raw_of (JArray xs) = RSeq (raw_of_list xs)"
| "raw_of (JObject es) = RMap (raw_of_obj es)"
| "raw_of_list [] = []"
| "raw_of_list (x # xs) = raw_of x # raw_of_list xs"
| "raw_of_obj [] = []"
| "raw_of_obj ((k, v) # es) = (k, raw_of v) # raw_of_obj es"

lemma map_fst_raw_of_obj [simp]: "map fst (raw_of_obj es) = map fst es"
  by (induction es) auto

lemma raw_of_denotes:
  "json_wf v \<Longrightarrow> unambiguous (raw_of v) \<and> denotes (raw_of v) = v"
  "json_wf_list xs \<Longrightarrow> unambiguous_seq (raw_of_list xs) \<and> denotes_seq (raw_of_list xs) = xs"
  "json_wf_obj es \<Longrightarrow> unambiguous_map (raw_of_obj es) \<and> denotes_map (raw_of_obj es) = es"
  by (induction v and xs and es rule: raw_of_raw_of_list_raw_of_obj.induct)
    (auto split: json_number.splits)

lemma unique_raw_of: "json_wf v \<Longrightarrow> unique (raw_of v) = Some v"
  by (simp add: unique_iff raw_of_denotes)

text \<open>
  What the sources rely on in the JSON crate: reading the text of a value reports the
  value. The crate's reader stops at 128 nested levels and may round a double, so the law is
  about values below that depth and without doubles.
\<close>

fun json_plain :: "nat \<Rightarrow> json \<Rightarrow> bool"
  and json_plain_list :: "nat \<Rightarrow> json list \<Rightarrow> bool"
  and json_plain_obj :: "nat \<Rightarrow> (string \<times> json) list \<Rightarrow> bool" where
  "json_plain d (JNumber n) = (case n of Float _ \<Rightarrow> False | _ \<Rightarrow> True)"
| "json_plain d (JArray xs) = (d > 0 \<and> json_plain_list (d - 1) xs)"
| "json_plain d (JObject es) = (d > 0 \<and> json_plain_obj (d - 1) es)"
| "json_plain d _ = True"
| "json_plain_list d [] = True"
| "json_plain_list d (x # xs) = (json_plain d x \<and> json_plain_list d xs)"
| "json_plain_obj d [] = True"
| "json_plain_obj d ((k, v) # es) = (json_plain d v \<and> json_plain_obj d es)"

definition reads_back :: "externals \<Rightarrow> bool" where
  "reads_back ext \<longleftrightarrow>
     (\<forall>v. json_wf v \<longrightarrow> json_plain 127 v \<longrightarrow> from_slice ext (to_vec ext v) = Some (raw_of v))"

lemma strings_plain [simp]:
  "json_wf_list (map JString xs)" "json_plain_list d (map JString xs)"
  by (induction xs) auto

section \<open>Deserialization helpers\<close>

text \<open>\<open>Vec<String>\<close> and \<open>BTreeMap<String, String>\<close> out of a value.\<close>

definition string_list :: "json \<Rightarrow> string list option" where
  "string_list v = (case v of JArray xs \<Rightarrow> option_seq (map as_str xs) | _ \<Rightarrow> None)"

definition string_map :: "json \<Rightarrow> (string, string) btree_map option" where
  "string_map v = (case v of
     JObject es \<Rightarrow>
       map_option (foldl (\<lambda>m (k, s). btm_insert k s m) [])
         (option_seq (map (\<lambda>(k, x). map_option (Pair k) (as_str x)) es))
   | _ \<Rightarrow> None)"

lemma option_seq_map_Some [simp]: "option_seq (map Some xs) = Some xs"
  by (simp add: option_seq_Some_iff)

lemma string_list_strings [simp]: "string_list (JArray (map JString xs)) = Some xs"
  by (simp add: string_list_def comp_def)

end
