(* ===== verification/Perm_Types.thy ===== *)
theory Perm_Types
  imports Json
begin

text \<open>
  The data of the permission engine (\<open>permissions/src/lib.rs\<close>, the schema types of
  \<open>google.rs\<close>, the hook definitions of \<open>hooks.rs\<close>): errors, policies, requests,
  responses and plans. Field names carry a short prefix of their struct.
\<close>

definition MAX_BODY_BYTES :: nat where "MAX_BODY_BYTES = 64 * 1024"
definition MAX_RESPONSE_BYTES :: nat where "MAX_RESPONSE_BYTES = 8 * 1024 * 1024"

datatype hook_stage = BeforeExecute | AfterResponse

datatype perm_error =
    ApprovalPending string
  | Policy string
  | Denied string
  | Verification
  | Upstream
  | Timeout
  | ResponseTooLarge
  | OutcomeUncertain
  | Busy
  | HookDenied string hook_stage
  | HookUnavailable string hook_stage
  | WriteAcceptedResponseWithheld

datatype value_rule =
    Exact json
  | OneOf "json list"
  | MaxInteger nat
  | MaxLength nat

datatype parameter_location = Query | Body

record parameter_constraint =
  pc_location :: parameter_location
  pc_name :: string
  pc_required :: bool
  pc_rule :: value_rule

record query_parameter =
  qp_required :: bool
  qp_rule :: value_rule

datatype json_shape =
    SObject "(string \<times> json_shape) list" "string list"
  | SArray json_shape nat
  | SString nat
  | SInteger int int
  | SNumber int int nat
  | SBoolean
  | SExact json
  | SOneOf "json list"

record api_operation =
  op_id :: string
  op_origin :: string
  op_method :: string
  op_path :: string
  op_path_parameters :: "(string, value_rule) btree_map"
  op_query_parameters :: "(string, query_parameter) btree_map"
  op_body :: "json_shape option"

datatype resource_boundary =
    GoogleDriveFolder string bool
  | GoogleApi "api_operation list"

record hook_definition =
  hd_name :: string
  hd_handler :: string
  hd_stage :: hook_stage
  hd_operations :: "string list"
  hd_timeout_ms :: nat
  hd_config :: json

record policy =
  po_version :: nat
  po_name :: string
  po_provider :: string
  po_resource :: resource_boundary
  po_allowed_operations :: "string list"
  po_constraints :: "(string, parameter_constraint list) btree_map"
  po_hooks :: "hook_definition list"

record request =
  rq_method :: string
  rq_path :: string
  rq_query :: "(string, string) btree_map"
  rq_body :: string
  rq_content_type :: "string option"

record response =
  rs_status :: nat
  rs_content_type :: string
  rs_body :: string

record resource_check =
  rc_id :: string
  rc_must_be_folder :: bool
  rc_allow_root :: bool

record plan =
  pl_operation :: string
  pl_origin :: "string option"
  pl_request :: request
  pl_resources :: "resource_check list"

section \<open>Awaiting\<close>

text \<open>
  The engine runs one call under a deadline that may pass at any \<open>.await\<close>: an awaited
  operation is \<open>Done\<close> with its result, or the deadline passed while it ran and the rest of
  the call is dropped. The effects it had before stay in the state.
\<close>

datatype 'a awaited = Done 'a | Deadline

type_synonym ('a, 's) outcome = "(perm_error + 'a) awaited \<times> 's"

definition await :: "('a, 's) outcome \<Rightarrow> ('a \<Rightarrow> 's \<Rightarrow> ('b, 's) outcome) \<Rightarrow> ('b, 's) outcome" where
  "await r f = (case r of
     (Done (Ok x), s) \<Rightarrow> f x s
   | (Done (Err e), s) \<Rightarrow> (Done (Err e), s)
   | (Deadline, s) \<Rightarrow> (Deadline, s))"

declare await_def [code_unfold]

type_synonym 's sender = "request \<Rightarrow> 's \<Rightarrow> (response, 's) outcome"

lemma await_simps [simp, result_simps]:
  "await (Done (Ok x), s) f = f x s"
  "await (Done (Err e), s) f = (Done (Err e), s)"
  "await (Deadline, s) f = (Deadline, s)"
  by (simp_all add: await_def)

lemma await_OkE:
  assumes "await r f = (Done (Ok y), s')"
  obtains x s where "r = (Done (Ok x), s)" "f x s = (Done (Ok y), s')"
  using assms by (auto simp: await_def split: prod.splits awaited.splits sum.splits)

text \<open>\<open>Request::get(path)\<close>.\<close>

definition request_get :: "string \<Rightarrow> request" where
  "request_get path = \<lparr>rq_method = ''GET'', rq_path = path, rq_query = [], rq_body = [],
                       rq_content_type = None\<rparr>"

text \<open>\<open>!matches!(request.method, Method::GET | Method::HEAD)\<close>.\<close>

definition mutating :: "request \<Rightarrow> bool" where
  "mutating r \<longleftrightarrow> rq_method r \<noteq> ''GET'' \<and> rq_method r \<noteq> ''HEAD''"

text \<open>The UTF-8 bytes of the dash in the sources' messages.\<close>

definition en_dash :: string where
  "en_dash = [CHR 0xE2, CHR 0x80, CHR 0x93]"

text \<open>\<open>content_type.split(';').next().map(str::trim) == Some("application/json")\<close>.\<close>

definition is_application_json :: "string \<Rightarrow> bool" where
  "is_application_json ct \<longleftrightarrow> trim (hd (split_on CHR '';'' ct)) = ''application/json''"

end
