(* ===== verification/Perm_Values.thy ===== *)
theory Perm_Values
  imports Perm_Types
begin

text \<open>
  Input limits shared by every route (\<open>permissions/src/values.rs\<close>, the value matching and
  parsers of \<open>lib.rs\<close>, the schema vocabulary of \<open>google.rs\<close>): value rules, the closed
  query, the bounded body schema and the exact decimal bounds check.
\<close>

section \<open>Value rules\<close>

definition matches_value :: "value_rule \<Rightarrow> json \<Rightarrow> bool" where
  "matches_value rule value = (case rule of
     Exact expected \<Rightarrow> json_eq value expected
   | OneOf vals \<Rightarrow> list_ex (\<lambda>v. json_eq v value) vals
   | MaxInteger maximum \<Rightarrow>
       (case (case as_u64 value of Some n \<Rightarrow> Some n
              | None \<Rightarrow> (case as_str value of None \<Rightarrow> None | Some s \<Rightarrow> parse_uint u64_max s)) of
          None \<Rightarrow> False | Some v \<Rightarrow> v \<le> maximum)
   | MaxLength maximum \<Rightarrow>
       (case as_str value of None \<Rightarrow> False | Some s \<Rightarrow> chars_count s \<le> maximum))"

text \<open>A JSON Pointer in its escaped form: every \<open>~\<close> is followed by \<open>0\<close> or \<open>1\<close>.\<close>

definition valid_pointer :: "string \<Rightarrow> bool" where
  "valid_pointer p \<longleftrightarrow>
     (p = [] \<or> starts_with ''/'' p)
     \<and> list_all (\<lambda>part. starts_with ''0'' part \<or> starts_with ''1'' part)
         (tl (split_on CHR ''~'' p))"

definition parse_json :: "externals \<Rightarrow> string \<Rightarrow> perm_error + json" where
  "parse_json ext bytes = (case from_slice ext bytes of
     None \<Rightarrow> Err (Denied ''invalid or ambiguous JSON'')
   | Some r \<Rightarrow> (case unique r of
       None \<Rightarrow> Err (Denied ''invalid or ambiguous JSON'')
     | Some v \<Rightarrow> Ok v))"

lemma parse_json_printed:
  "reads_back ext \<Longrightarrow> json_wf v \<Longrightarrow> json_plain 127 v \<Longrightarrow> parse_json ext (to_vec ext v) = Ok v"
  by (simp add: parse_json_def reads_back_def unique_raw_of)

lemma parse_json_wf: "parse_json ext bytes = Ok v \<Longrightarrow> json_wf v"
  by (auto simp: parse_json_def split: option.split_asm intro: unique_wf)

text \<open>Every \<open>%\<close> of the raw text starts a two-digit escape.\<close>

fun percent_encoding_ok :: "string \<Rightarrow> bool" where
  "percent_encoding_ok [] = True"
| "percent_encoding_ok (c # s) =
     ((c = CHR ''%'' \<longrightarrow>
        (case s of h # l # _ \<Rightarrow> is_ascii_hexdigit h \<and> is_ascii_hexdigit l | _ \<Rightarrow> False))
      \<and> percent_encoding_ok s)"

definition decode_query_part :: "externals \<Rightarrow> string \<Rightarrow> perm_error + string" where
  "decode_query_part ext raw_text =
     (if \<not> percent_encoding_ok raw_text then Err (Denied ''invalid query encoding'')
      else ok_or (url_decode ext (map (\<lambda>c. if c = CHR ''+'' then CHR '' '' else c) raw_text))
             (Denied ''invalid query encoding''))"

fun parse_query_pairs ::
  "externals \<Rightarrow> string list \<Rightarrow> (string, string) btree_map \<Rightarrow> perm_error + (string, string) btree_map"
where
  "parse_query_pairs ext [] result = Ok result"
| "parse_query_pairs ext (pair # pairs) result =
     (let (key, value) = (case split_once CHR ''='' pair of None \<Rightarrow> (pair, []) | Some kv \<Rightarrow> kv)
      in (case decode_query_part ext key of Err e \<Rightarrow> Err e
          | Ok k \<Rightarrow> (case decode_query_part ext value of Err e \<Rightarrow> Err e
            | Ok v \<Rightarrow>
                if btm_contains result k then Err (Denied ''duplicate query parameter'')
                else parse_query_pairs ext pairs (btm_insert k v result))))"

definition parse_query :: "externals \<Rightarrow> string \<Rightarrow> perm_error + (string, string) btree_map" where
  "parse_query ext query =
     (if length query > 8192 then Err (Denied ''query is too long'')
      else parse_query_pairs ext (filter (\<lambda>s. s \<noteq> []) (split_on CHR ''&'' query)) [])"

section \<open>Identifiers, canonical paths, reserved parameters (google.rs)\<close>

definition is_identifier :: "string \<Rightarrow> bool" where
  "is_identifier value \<longleftrightarrow>
     value \<noteq> [] \<and> length value \<le> 128
     \<and> list_all (\<lambda>b. is_ascii_alphanumeric b \<or> b \<in> set ''_-.'') value"

definition path_is_canonical :: "string \<Rightarrow> bool \<Rightarrow> bool" where
  "path_is_canonical path template \<longleftrightarrow>
     starts_with ''/'' path
     \<and> length path \<le> 2048
     \<and> length path > 1
     \<and> list_all (\<lambda>b. is_ascii_alphanumeric b
          \<or> b \<in> {CHR ''/'', CHR ''-'', CHR ''.'', CHR ''_'', CHR ''~'', CHR ''!'', CHR ''$'',
                 CHR ''&'', CHR 0x27, CHR ''('', CHR '')'', CHR ''+'', CHR '','', CHR '';'',
                 CHR ''='', CHR '':'', CHR ''@''}
          \<or> template \<and> b \<in> {CHR ''{'', CHR ''}''}) path
     \<and> list_all (\<lambda>part. part \<noteq> [] \<and> part \<noteq> ''.'' \<and> part \<noteq> ''..'')
         (split_on CHR ''/'' (tl path))"

text \<open>\<open>variable\<close>: a whole-segment variable and its optional custom-verb suffix.\<close>

definition variable :: "string \<Rightarrow> (string \<times> string) option" where
  "variable segment = (case strip_prefix ''{'' segment of
     None \<Rightarrow> None
   | Some rest \<Rightarrow> (case split_once CHR ''}'' rest of
       None \<Rightarrow> None
     | Some (name, suff) \<Rightarrow>
         if \<not> is_identifier name
            \<or> \<not> (suff = [] \<or> (case strip_prefix '':'' suff of None \<Rightarrow> False | Some v \<Rightarrow> is_identifier v))
         then None else Some (name, suff)))"

definition exact_strings :: "value_rule \<Rightarrow> string list option" where
  "exact_strings rule = (case rule of
     Exact value \<Rightarrow> map_option (\<lambda>s. [s]) (as_str value)
   | OneOf vals \<Rightarrow>
       if vals \<noteq> [] \<and> length vals \<le> 100 then option_seq (map as_str vals) else None
   | _ \<Rightarrow> None)"

definition reserved_query :: "string \<Rightarrow> bool" where
  "reserved_query name \<longleftrightarrow>
     \<not> is_identifier name
     \<or> starts_with ''_nyxid'' (to_ascii_lowercase name)
     \<or> to_ascii_lowercase name \<in> set [''access_token'', ''oauth_token'', ''key'', ''callback'',
          ''uploadtype'', ''upload_protocol'', ''httpmethod'', ''method'', ''_method'']"

section \<open>Exact decimal bounds\<close>

text \<open>The mantissa and exponent of a number's text, split at the first \<open>e\<close> or \<open>E\<close>.\<close>

definition split_exponent :: "string \<Rightarrow> string \<times> int" where
  "split_exponent text =
     (let m = takeWhile (\<lambda>c. c \<noteq> CHR ''e'' \<and> c \<noteq> CHR ''E'') text;
          r = dropWhile (\<lambda>c. c \<noteq> CHR ''e'' \<and> c \<noteq> CHR ''E'') text
      in (case r of [] \<Rightarrow> (text, 0)
          | _ # e \<Rightarrow> (m, (case parse_int i32_min i32_max e of Some i \<Rightarrow> i | None \<Rightarrow> i32_max))))"

definition number_in_bounds :: "json \<Rightarrow> int \<Rightarrow> int \<Rightarrow> nat \<Rightarrow> bool" where
  "number_in_bounds value minimum maximum max_fraction_digits =
     (if minimum > maximum \<or> max_fraction_digits > 12 then False
      else (case value of
        JNumber number \<Rightarrow>
          (let text = number_text number;
               (mantissa0, exponent) = split_exponent text;
               negative = starts_with ''-'' mantissa0;
               mantissa = dropWhile (\<lambda>c. c = CHR ''-'') mantissa0;
               fraction = (case split_once CHR ''.'' mantissa of None \<Rightarrow> 0 | Some (_, f) \<Rightarrow> int (length f));
               digits = filter (\<lambda>c. c \<noteq> CHR ''.'') mantissa;
               significant = trim_end_zeros digits
           in if significant = [] then minimum \<le> 0 \<and> maximum \<ge> 0
              else (let shift = wrap_i32 (wrap_i32 (exponent - fraction)
                                          + int (length digits - length significant));
                        scale = nat (max (saturating_neg_i32 shift) 0)
                    in if scale > max_fraction_digits then False
                       else (case (case parse_int i128_min i128_max significant of
                                     None \<Rightarrow> None
                                   | Some n \<Rightarrow>
                                       if shift > 0
                                       then (case checked_i128 (10 ^ nat shift) of
                                               None \<Rightarrow> None | Some p \<Rightarrow> checked_i128 (p * n))
                                       else Some n) of
                               None \<Rightarrow> False
                             | Some c \<Rightarrow>
                                 (let coefficient = (if negative then - c else c);
                                      factor = 10 ^ scale
                                  in minimum * factor \<le> coefficient
                                     \<and> coefficient \<le> maximum * factor))))
      | _ \<Rightarrow> False))"

section \<open>The body schema\<close>

text \<open>\<open>JsonShape::validate\<close> threads the remaining node budget.\<close>

fun shape_validate :: "json_shape \<Rightarrow> nat \<Rightarrow> nat \<Rightarrow> perm_error + nat"
  and shape_validate_all :: "(string \<times> json_shape) list \<Rightarrow> nat \<Rightarrow> nat \<Rightarrow> perm_error + nat" where
  "shape_validate s depth remaining =
     (if depth > 12 \<or> remaining = 0
      then Err (Policy ''body schema exceeds depth or node limit'')
      else (let remaining = remaining - 1 in
        (case s of
           SObject properties required \<Rightarrow>
             if length properties > 64
                \<or> length required > length properties
                \<or> list_ex (\<lambda>key. \<not> btm_contains properties key) required
                \<or> list_ex (\<lambda>key. key = [] \<or> length key > 256) (map fst properties)
             then Err (Policy ''invalid body object schema'')
             else shape_validate_all properties (depth + 1) remaining
         | SArray items max_items \<Rightarrow>
             if max_items > 1000 then Err (Policy ''maximum 1000 array items'')
             else shape_validate items (depth + 1) remaining
         | SString max_length \<Rightarrow>
             if max_length > MAX_BODY_BYTES
             then Err (Policy ''string limit exceeds request limit'') else Ok remaining
         | SInteger minimum maximum \<Rightarrow>
             if minimum > maximum then Err (Policy ''invalid integer bounds'') else Ok remaining
         | SNumber minimum maximum max_fraction_digits \<Rightarrow>
             if minimum > maximum \<or> max_fraction_digits > 12
             then Err (Policy ''invalid number bounds or fraction limit'') else Ok remaining
         | SOneOf vals \<Rightarrow>
             if vals = [] \<or> length vals > 100
             then Err (Policy (''one_of requires 1'' @ en_dash @ ''100 values'')) else Ok remaining
         | _ \<Rightarrow> Ok remaining)))"
| "shape_validate_all [] depth remaining = Ok remaining"
| "shape_validate_all ((k, child) # ps) depth remaining =
     (case shape_validate child depth remaining of
        Err e \<Rightarrow> Err e
      | Ok remaining' \<Rightarrow> shape_validate_all ps depth remaining')"

fun accepts :: "json_shape \<Rightarrow> json \<Rightarrow> bool"
  and accepts_list :: "json_shape \<Rightarrow> json list \<Rightarrow> bool"
  and accepts_entries :: "(string \<times> json_shape) list \<Rightarrow> (string \<times> json) list \<Rightarrow> bool" where
  "accepts (SObject properties required) (JObject object) =
     (list_all (\<lambda>key. map_of object key \<noteq> None) required
      \<and> accepts_entries properties object)"
| "accepts (SArray items max_items) (JArray array) =
     (length array \<le> max_items \<and> accepts_list items array)"
| "accepts (SString max_length) (JString s) = (chars_count s \<le> max_length)"
| "accepts (SInteger minimum maximum) value =
     (case as_i64 value of None \<Rightarrow> False | Some n \<Rightarrow> minimum \<le> n \<and> n \<le> maximum)"
| "accepts (SNumber minimum maximum k) value = number_in_bounds value minimum maximum k"
| "accepts SBoolean (JBool b) = True"
| "accepts (SExact expected) value = json_eq value expected"
| "accepts (SOneOf vals) value = list_ex (\<lambda>v. json_eq v value) vals"
| "accepts _ _ = False"
| "accepts_list items [] = True"
| "accepts_list items (v # vs) = (accepts items v \<and> accepts_list items vs)"
| "accepts_entries properties [] = True"
| "accepts_entries properties ((k, v) # es) =
     ((case btm_get properties k of None \<Rightarrow> False | Some rule \<Rightarrow> accepts rule v)
      \<and> accepts_entries properties es)"

end
