(* ===== verification/Perm_Inputs.thy ===== *)
theory Perm_Inputs
  imports Perm_Values
begin

text \<open>
  \<open>InputRules\<close> of \<open>permissions/src/values.rs\<close>: the optional limits on one operation's path
  variables, query and body, their validation and their check.
\<close>

record input_rules =
  ir_path :: "(string, value_rule) btree_map"
  ir_query :: "(string, query_parameter) btree_map option"
  ir_body :: "json_shape option"

definition input_rules_is_empty :: "input_rules \<Rightarrow> bool" where
  "input_rules_is_empty r \<longleftrightarrow> ir_path r = [] \<and> ir_query r = None \<and> ir_body r = None"

definition path_rule_ok :: "value_rule \<Rightarrow> bool" where
  "path_rule_ok rule = (case exact_strings rule of
     None \<Rightarrow> False
   | Some vals \<Rightarrow>
       \<not> list_ex (\<lambda>v. CHR ''/'' \<in> set v \<or> \<not> path_is_canonical (''/'' @ v) False) vals)"

definition validate_path_rules :: "value_rule list \<Rightarrow> perm_error + unit" where
  "validate_path_rules rules =
     for_each (\<lambda>rule. if path_rule_ok rule then Ok ()
       else Err (Policy ''path variables require literal exact or one_of strings'')) rules"

definition query_rule_ok :: "string \<Rightarrow> query_parameter \<Rightarrow> bool" where
  "query_rule_ok name parameter \<longleftrightarrow>
     \<not> (reserved_query name
        \<or> (case qp_rule parameter of Exact v \<Rightarrow> as_str v = None | _ \<Rightarrow> False)
        \<or> (case qp_rule parameter of
             OneOf vals \<Rightarrow> vals = [] \<or> length vals > 100 \<or> list_ex (\<lambda>v. as_str v = None) vals
           | _ \<Rightarrow> False)
        \<or> eq_ignore_ascii_case name ''alt''
          \<and> (case exact_strings (qp_rule parameter) of
               None \<Rightarrow> True | Some vals \<Rightarrow> list_ex (\<lambda>v. v \<noteq> ''json'') vals))"

definition validate_query_rules :: "(string, query_parameter) btree_map \<Rightarrow> perm_error + unit" where
  "validate_query_rules rules =
     (if length rules > 32 then Err (Policy ''at most 32 query parameters'')
      else for_each (\<lambda>(name, parameter). if query_rule_ok name parameter then Ok ()
             else Err (Policy ''invalid or reserved query parameter rule'')) rules)"

definition body_rule_validate :: "string \<Rightarrow> json_shape option \<Rightarrow> perm_error + unit" where
  "body_rule_validate method body = (case body of
     None \<Rightarrow> Ok ()
   | Some shape \<Rightarrow>
       if method = ''GET'' \<or> method = ''HEAD''
       then Err (Policy ''read operations cannot declare a body'')
       else (case shape_validate shape 0 512 of Err e \<Rightarrow> Err e | Ok _ \<Rightarrow> Ok ()))"

definition input_rules_validate :: "input_rules \<Rightarrow> string \<Rightarrow> string list \<Rightarrow> perm_error + unit" where
  "input_rules_validate r method variables =
     (if length (ir_path r) > 16 \<or> list_ex (\<lambda>name. name \<notin> set variables) (map fst (ir_path r))
      then Err (Policy ''path rules must name template variables'')
      else and_then (validate_path_rules (map snd (ir_path r))) (\<lambda>_.
        and_then (case ir_query r of None \<Rightarrow> Ok () | Some query \<Rightarrow> validate_query_rules query) (\<lambda>_.
          body_rule_validate method (ir_body r))))"

text \<open>A closed query: every parameter is declared and satisfies its rule.\<close>

definition check_query ::
  "(string, query_parameter) btree_map \<Rightarrow> (string, string) btree_map \<Rightarrow> perm_error + unit" where
  "check_query rules query =
     (if list_ex (\<lambda>name. \<not> btm_contains rules name) (map fst query)
      then Err (Denied ''query parameter is not allowed'')
      else for_each (\<lambda>(name, parameter).
        (case btm_get query name of
           Some value \<Rightarrow>
             if matches_value (qp_rule parameter) (JString value) then Ok ()
             else Err (Denied ''query parameter violates its rule'')
         | None \<Rightarrow>
             if \<not> qp_required parameter then Ok ()
             else Err (Denied ''query parameter violates its rule''))) rules)"

text \<open>A non-empty \<open>application/json\<close> body accepted by the closed schema.\<close>

definition check_json_body ::
  "externals \<Rightarrow> json_shape \<Rightarrow> string \<Rightarrow> string option \<Rightarrow> perm_error + unit" where
  "check_json_body ext shape body content_type =
     (if body = [] then Err (Denied ''body is missing or forbidden'')
      else if \<not> (case content_type of None \<Rightarrow> False | Some ct \<Rightarrow> is_application_json ct)
      then Err (Denied ''body requires application/json'')
      else and_then (parse_json ext body) (\<lambda>value.
        if accepts shape value then Ok () else Err (Denied ''body violates its closed schema'')))"

definition input_rules_check ::
  "externals \<Rightarrow> input_rules \<Rightarrow> (string, string) btree_map \<Rightarrow> string option \<Rightarrow> string \<Rightarrow> string option
   \<Rightarrow> perm_error + unit" where
  "input_rules_check ext r path query body content_type =
     and_then (for_each (\<lambda>(name, rule).
         (case btm_get path name of
            None \<Rightarrow> Err (Denied ''path variable is missing'')
          | Some value \<Rightarrow>
              if matches_value rule (JString value) then Ok ()
              else Err (Denied ''path variable violates its rule''))) (ir_path r)) (\<lambda>_.
     and_then (case ir_query r of
         None \<Rightarrow> Ok ()
       | Some rules \<Rightarrow>
           and_then (parse_query ext (case query of None \<Rightarrow> [] | Some q \<Rightarrow> q)) (check_query rules)) (\<lambda>_.
     (case ir_body r of
        None \<Rightarrow> Ok ()
      | Some shape \<Rightarrow> check_json_body ext shape body content_type)))"

end
