(* ===== verification/Perm_Hooks.thy ===== *)
theory Perm_Hooks
  imports Perm_Types
begin

text \<open>
  Check hooks (\<open>permissions/src/hooks.rs\<close>): the registry and its binding to a policy, the
  two built-in hooks and the sequential run of the bound hooks of one stage.
\<close>

section \<open>Outcomes and handlers\<close>

datatype hook_decision = Allow | Deny

text \<open>
  What the engine sees of one hook call: its decision, its failure, the hook's own timeout,
  or a caught panic.
\<close>

datatype hook_outcome = Decided hook_decision | Failed | TimedOut | Panicked

record 's hook_handler =
  hh_validate :: "hook_stage \<Rightarrow> json \<Rightarrow> perm_error + unit"
  hh_check :: "policy \<Rightarrow> plan \<Rightarrow> response option \<Rightarrow> json \<Rightarrow> 's \<Rightarrow> hook_outcome awaited \<times> 's"

type_synonym 's hook_registry = "(string \<times> 's hook_handler) list"

record 's bound_hook =
  bh_definition :: hook_definition
  bh_handler :: "'s hook_handler"

definition valid_name :: "string \<Rightarrow> bool" where
  "valid_name name \<longleftrightarrow>
     name \<noteq> [] \<and> length name \<le> 64
     \<and> list_all (\<lambda>b. is_ascii_alphanumeric b \<or> b = CHR ''_'' \<or> b = CHR ''-'') name"

definition register_hook ::
  "string \<Rightarrow> 's hook_handler \<Rightarrow> 's hook_registry \<Rightarrow> perm_error + 's hook_registry" where
  "register_hook name handler registry =
     (if \<not> valid_name name \<or> map_of registry name \<noteq> None
      then Err (Policy ''invalid or duplicate hook handler'')
      else Ok ((name, handler) # registry))"

section \<open>Binding\<close>

fun bind_hooks ::
  "'s hook_registry \<Rightarrow> string list \<Rightarrow> string list \<Rightarrow> hook_definition list
   \<Rightarrow> perm_error + 's bound_hook list" where
  "bind_hooks registry allowed names [] = Ok []"
| "bind_hooks registry allowed names (d # ds) =
     (if \<not> valid_name (hd_name d)
         \<or> hd_name d \<in> set names
         \<or> \<not> (1 \<le> hd_timeout_ms d \<and> hd_timeout_ms d \<le> 2000)
         \<or> length (hd_operations d) > 64
         \<or> list_ex (\<lambda>op. op \<notin> set allowed) (hd_operations d)
      then Err (Policy ''invalid hook name, timeout or operation selector'')
      else (case map_of registry (hd_handler d) of
        None \<Rightarrow> Err (Policy ''unknown hook handler'')
      | Some handler \<Rightarrow>
          and_then (hh_validate handler (hd_stage d) (hd_config d)) (\<lambda>_.
          and_then (bind_hooks registry allowed (hd_name d # names) ds) (\<lambda>rest.
            Ok (\<lparr>bh_definition = d, bh_handler = handler\<rparr> # rest)))))"

definition bind :: "'s hook_registry \<Rightarrow> policy \<Rightarrow> perm_error + 's bound_hook list" where
  "bind registry p =
     (if length (po_hooks p) > 8 then Err (Policy ''maximum eight hooks per policy'')
      else bind_hooks registry (po_allowed_operations p) [] (po_hooks p))"

section \<open>Running\<close>

definition hook_applies :: "hook_definition \<Rightarrow> hook_stage \<Rightarrow> plan \<Rightarrow> bool" where
  "hook_applies d stage pl \<longleftrightarrow>
     \<not> (hd_stage d \<noteq> stage
        \<or> hd_operations d \<noteq> [] \<and> \<not> list_ex (\<lambda>op. op = pl_operation pl) (hd_operations d))"

fun run_hooks ::
  "'s bound_hook list \<Rightarrow> hook_stage \<Rightarrow> policy \<Rightarrow> plan \<Rightarrow> response option \<Rightarrow> 's \<Rightarrow> (unit, 's) outcome"
where
  "run_hooks [] stage p pl resp s = (Done (Ok ()), s)"
| "run_hooks (h # hs) stage p pl resp s =
     (let d = bh_definition h in
      if \<not> hook_applies d stage pl then run_hooks hs stage p pl resp s
      else (case hh_check (bh_handler h) p pl resp (hd_config d) s of
        (Done (Decided Allow), s') \<Rightarrow> run_hooks hs stage p pl resp s'
      | (Done (Decided Deny), s') \<Rightarrow> (Done (Err (HookDenied (hd_name d) stage)), s')
      | (Done _, s') \<Rightarrow> (Done (Err (HookUnavailable (hd_name d) stage)), s')
      | (Deadline, s') \<Rightarrow> (Deadline, s')))"

section \<open>The pause switch\<close>

text \<open>
  A Unix path is its components: empty and \<open>.\<close> segments vanish, \<open>..\<close> stays. The file system
  answers whether a path is a directory and what \<open>lstat\<close> of a path says.
\<close>

definition path_components :: "string \<Rightarrow> string list" where
  "path_components path = filter (\<lambda>c. c \<noteq> [] \<and> c \<noteq> ''.'') (split_on CHR ''/'' path)"

definition path_is_absolute :: "string \<Rightarrow> bool" where
  "path_is_absolute path \<longleftrightarrow> starts_with ''/'' path"

definition path_file_name :: "string \<Rightarrow> string option" where
  "path_file_name path =
     (let cs = path_components path
      in if cs = [] \<or> last cs = ''..'' then None else Some (last cs))"

datatype lstat_result = Found | NotFound | IoError

record filesystem =
  dir_metadata :: "string list \<Rightarrow> bool option"
  symlink_metadata :: "string list \<Rightarrow> lstat_result"

text \<open>\<open>PauseConfig\<close> denies unknown fields; \<open>path\<close> is a string. A sequence of one string
  deserializes as the struct too.\<close>

definition pause_config_path :: "json \<Rightarrow> string option" where
  "pause_config_path config = (case config of
     JObject [(k, v)] \<Rightarrow> if k = ''path'' then as_str v else None
   | JArray [v] \<Rightarrow> as_str v
   | _ \<Rightarrow> None)"

definition pause_switch_validate :: "hook_stage \<Rightarrow> json \<Rightarrow> perm_error + unit" where
  "pause_switch_validate stage config = (case pause_config_path config of
     None \<Rightarrow> Err (Policy ''invalid pause_switch config'')
   | Some path \<Rightarrow>
       if stage \<noteq> BeforeExecute
          \<or> \<not> path_is_absolute path
          \<or> path_file_name path = None
          \<or> list_ex (\<lambda>part. part = ''..'') (path_components path)
       then Err (Policy ''pause_switch requires before_execute and an absolute file path'')
       else Ok ())"

definition pause_switch_check :: "filesystem \<Rightarrow> json \<Rightarrow> hook_outcome" where
  "pause_switch_check fs config = (case pause_config_path config of
     None \<Rightarrow> Failed
   | Some path \<Rightarrow>
       (let cs = path_components path in
        if cs = [] then Failed
        else (case dir_metadata fs (butlast cs) of
          None \<Rightarrow> Failed
        | Some is_dir \<Rightarrow>
            if \<not> is_dir then Failed
            else (case symlink_metadata fs cs of
              Found \<Rightarrow> Decided Deny
            | NotFound \<Rightarrow> Decided Allow
            | IoError \<Rightarrow> Failed))))"

section \<open>Response markers\<close>

definition markers_config :: "json \<Rightarrow> string list option" where
  "markers_config config = (case config of
     JObject [(k, v)] \<Rightarrow> if k = ''markers'' then string_list v else None
   | JArray [v] \<Rightarrow> string_list v
   | _ \<Rightarrow> None)"

definition response_markers_validate :: "hook_stage \<Rightarrow> json \<Rightarrow> perm_error + unit" where
  "response_markers_validate stage config = (case markers_config config of
     None \<Rightarrow> Err (Policy ''invalid response_markers config'')
   | Some markers \<Rightarrow>
       if stage \<noteq> AfterResponse
          \<or> markers = []
          \<or> length markers > 16
          \<or> list_ex (\<lambda>m. m = [] \<or> length m > 128) markers
       then Err (Policy (''response_markers requires after_response and 1'' @ en_dash
                         @ ''16 markers of 1'' @ en_dash @ ''128 bytes''))
       else Ok ())"

definition chunk_bytes :: nat where "chunk_bytes = 64 * 1024"

text \<open>\<open>(0..len).step_by(64 * 1024)\<close>.\<close>

definition chunk_starts :: "nat \<Rightarrow> nat list" where
  "chunk_starts len = map (\<lambda>i. i * chunk_bytes) [0 ..< (len + chunk_bytes - 1) div chunk_bytes]"

text \<open>\<open>&body[start..end]\<close> with \<open>end = len.min(start + 64 * 1024 + marker.len() - 1)\<close>.\<close>

definition chunk_slice :: "string \<Rightarrow> string \<Rightarrow> nat \<Rightarrow> string" where
  "chunk_slice body marker start =
     (let end = min (length body) (start + chunk_bytes + length marker - 1)
      in take (end - start) (drop start body))"

definition marker_found :: "externals \<Rightarrow> string \<Rightarrow> string \<Rightarrow> bool" where
  "marker_found ext body marker \<longleftrightarrow>
     list_ex (\<lambda>start. memmem_find ext (chunk_slice body marker start) marker \<noteq> None)
       (chunk_starts (length body))"

definition response_markers_check :: "externals \<Rightarrow> response option \<Rightarrow> json \<Rightarrow> hook_outcome" where
  "response_markers_check ext resp config = (case markers_config config of
     None \<Rightarrow> Failed
   | Some markers \<Rightarrow> (case resp of
       None \<Rightarrow> Failed
     | Some r \<Rightarrow>
         if list_ex (marker_found ext (rs_body r)) markers then Decided Deny else Decided Allow))"

text \<open>
  A check that awaits may be cut off: by the hook's own timer, which the engine sees as a
  timeout, or by the call's deadline. The environment decides.
\<close>

datatype interruption = HookTimer | CallDeadline

record hook_env =
  he_filesystem :: filesystem
  he_interruption :: "interruption option"

definition awaited_check :: "hook_env \<Rightarrow> hook_outcome \<Rightarrow> hook_outcome awaited" where
  "awaited_check env out = (case he_interruption env of
     None \<Rightarrow> Done out | Some HookTimer \<Rightarrow> Done TimedOut | Some CallDeadline \<Rightarrow> Deadline)"

text \<open>\<open>HookRegistry::builtins()\<close> over the environment a state shows.\<close>

definition builtins :: "externals \<Rightarrow> ('s \<Rightarrow> hook_env) \<Rightarrow> 's hook_registry" where
  "builtins ext env_of =
     [(''pause_switch'',
       \<lparr>hh_validate = pause_switch_validate,
        hh_check = (\<lambda>p pl resp config s.
          (awaited_check (env_of s) (pause_switch_check (he_filesystem (env_of s)) config), s))\<rparr>),
      (''response_markers'',
       \<lparr>hh_validate = response_markers_validate,
        hh_check = (\<lambda>p pl resp config s.
          (awaited_check (env_of s) (response_markers_check ext resp config), s))\<rparr>)]"

end
