(* ===== verification/Perm_Engine.thy ===== *)
theory Perm_Engine
  imports Perm_Inputs Perm_Hooks
begin

text \<open>
  The permission engine (\<open>permissions/src/lib.rs\<close>): construction, authorization, one call
  under its deadline, the outcome a caller is told, and the permits that bound concurrent
  calls. The provider adapter and the transport are interfaces: the locales below hold
  what the engine relies on, and the components that provide them interpret them.
\<close>

record 's provider_adapter =
  pa_validate_policy :: "policy \<Rightarrow> perm_error + unit"
  pa_plan :: "policy \<Rightarrow> request \<Rightarrow> perm_error + plan"
  pa_verify :: "policy \<Rightarrow> plan \<Rightarrow> 's sender \<Rightarrow> 's \<Rightarrow> (unit, 's) outcome"
  pa_sanitize_response :: "plan \<Rightarrow> response \<Rightarrow> perm_error + response"

text \<open>\<open>send_verified\<close> also says whether it marked the primary attempt as dispatched.\<close>

record 's transport =
  tr_send :: "'s sender"
  tr_send_verified :: "plan \<Rightarrow> 's \<Rightarrow> bool \<times> (response, 's) outcome"

text \<open>The trait's default methods.\<close>

definition default_send_to :: "'s sender \<Rightarrow> request \<Rightarrow> string option \<Rightarrow> 's \<Rightarrow> (response, 's) outcome" where
  "default_send_to send r origin s =
     (if origin \<noteq> None then (Done (Err (Denied ''transport cannot enforce the API origin'')), s)
      else send r s)"

definition default_send_verified :: "'s sender \<Rightarrow> plan \<Rightarrow> 's \<Rightarrow> bool \<times> (response, 's) outcome" where
  "default_send_verified send pl s = (True, default_send_to send (pl_request pl) (pl_origin pl) s)"

record 's engine =
  en_policy :: policy
  en_adapter :: "'s provider_adapter"
  en_transport :: "'s transport"
  en_hooks :: "'s bound_hook list"

section \<open>Construction\<close>

definition constraint_valid :: "parameter_constraint \<Rightarrow> perm_error + unit" where
  "constraint_valid c =
     (if length (pc_name c) > 256 \<or> pc_location c = Body \<and> \<not> valid_pointer (pc_name c)
      then Err (Policy ''invalid constraint parameter or JSON Pointer'')
      else (case pc_rule c of
        OneOf vals \<Rightarrow>
          if vals = [] \<or> length vals > 100
          then Err (Policy (''one_of requires 1'' @ en_dash @ ''100 values'')) else Ok ()
      | _ \<Rightarrow> Ok ()))"

definition policy_constraints_valid :: "policy \<Rightarrow> perm_error + unit" where
  "policy_constraints_valid p = for_each (\<lambda>(operation, constraints).
     if operation \<notin> set (po_allowed_operations p) \<or> length constraints > 32
     then Err (Policy ''constraints must name an allowed operation; maximum 32 each'')
     else for_each constraint_valid constraints) (po_constraints p)"

text \<open>\<open>serialized\<close> is the length of the policy's JSON text, \<open>None\<close> if it has none.\<close>

definition engine_new_with_hooks ::
  "(policy \<Rightarrow> nat option) \<Rightarrow> policy \<Rightarrow> 's provider_adapter \<Rightarrow> 's transport \<Rightarrow> 's hook_registry
   \<Rightarrow> perm_error + 's engine" where
  "engine_new_with_hooks serialized p adapter tr registry =
     (if po_version p \<noteq> 1 \<or> po_name p = [] \<or> length (po_name p) > 128
      then Err (Policy (''expected version 1 and a name of 1'' @ en_dash @ ''128 bytes''))
      else if po_allowed_operations p = [] \<or> length (po_allowed_operations p) > 64
      then Err (Policy (''expected 1'' @ en_dash @ ''64 allowed operations''))
      else if length (po_constraints p) > 64 then Err (Policy ''too many operation constraints'')
      else (case serialized p of
        None \<Rightarrow> Err (Policy ''invalid policy'')
      | Some n \<Rightarrow>
          if n > 128 * 1024 then Err (Policy ''policy exceeds 128 KiB'')
          else and_then (policy_constraints_valid p) (\<lambda>_.
               and_then (pa_validate_policy adapter p) (\<lambda>_.
               and_then (bind registry p) (\<lambda>hooks.
                 Ok \<lparr>en_policy = p, en_adapter = adapter, en_transport = tr, en_hooks = hooks\<rparr>)))))"

section \<open>Authorization\<close>

definition constraint_value :: "externals \<Rightarrow> request \<Rightarrow> json \<Rightarrow> parameter_constraint \<Rightarrow> json option" where
  "constraint_value ext r body c = (case pc_location c of
     Query \<Rightarrow> map_option JString (btm_get (rq_query r) (pc_name c))
   | Body \<Rightarrow> pointer ext body (pc_name c))"

definition enforce_constraints ::
  "externals \<Rightarrow> parameter_constraint list \<Rightarrow> request \<Rightarrow> perm_error + unit" where
  "enforce_constraints ext constraints r =
     and_then (if rq_body r = [] then Ok JNull else parse_json ext (rq_body r)) (\<lambda>body.
       for_each (\<lambda>c.
         (case constraint_value ext r body c of
            None \<Rightarrow>
              if pc_required c then Err (Denied ''required parameter is missing'') else Ok ()
          | Some value \<Rightarrow>
              if matches_value (pc_rule c) value then Ok ()
              else Err (Denied ''parameter violates its constraint''))) constraints)"

text \<open>The checks of \<open>authorize\<close> before its first await: limits, plan, allowance, constraints.\<close>

definition authorize_plan :: "externals \<Rightarrow> 's engine \<Rightarrow> request \<Rightarrow> perm_error + plan" where
  "authorize_plan ext e r =
     (if length (rq_body r) > MAX_BODY_BYTES
      then Err (Denied ''request body exceeds the policy byte limit'')
      else if sum_list (map (\<lambda>(k, v). length k + length v) (rq_query r)) > 8192
      then Err (Denied ''query is too long'')
      else and_then (pa_plan (en_adapter e) (en_policy e) r) (\<lambda>pl.
        if pl_operation pl \<notin> set (po_allowed_operations (en_policy e))
        then Err (Denied ''operation is not allowed'')
        else and_then
          (case btm_get (po_constraints (en_policy e)) (pl_operation pl) of
             None \<Rightarrow> Ok ()
           | Some constraints \<Rightarrow> enforce_constraints ext constraints (pl_request pl))
          (\<lambda>_. Ok pl)))"

definition authorize :: "externals \<Rightarrow> 's engine \<Rightarrow> request \<Rightarrow> 's \<Rightarrow> (plan, 's) outcome" where
  "authorize ext e r s = (case authorize_plan ext e r of
     Err err \<Rightarrow> (Done (Err err), s)
   | Ok pl \<Rightarrow>
       await (run_hooks (en_hooks e) BeforeExecute (en_policy e) pl None s) (\<lambda>_ s1.
       await (pa_verify (en_adapter e) (en_policy e) pl (tr_send (en_transport e)) s1) (\<lambda>_ s2.
         (Done (Ok pl), s2))))"

section \<open>One call\<close>

text \<open>
  The body of the timed block after authorization: the answer of the primary send, the
  adapter's projection and the response hooks. The flags are \<open>dispatched\<close> and
  \<open>write_accepted\<close> as the block leaves them.
\<close>

definition finish_response ::
  "'s engine \<Rightarrow> request \<Rightarrow> plan \<Rightarrow> response \<Rightarrow> 's \<Rightarrow> bool \<times> (response, 's) outcome" where
  "finish_response e r pl resp s =
     (if length (rs_body resp) > MAX_RESPONSE_BYTES then (False, (Done (Err ResponseTooLarge), s))
      else if \<not> (200 \<le> rs_status resp \<and> rs_status resp < 300) then (False, (Done (Err Upstream), s))
      else (mutating r,
        (case pa_sanitize_response (en_adapter e) pl resp of
           Err err \<Rightarrow> (Done (Err err), s)
         | Ok resp' \<Rightarrow>
             await (run_hooks (en_hooks e) AfterResponse (en_policy e) pl (Some resp') s)
               (\<lambda>_ s'. (Done (Ok resp'), s')))))"

definition run_call ::
  "externals \<Rightarrow> 's engine \<Rightarrow> nat \<Rightarrow> request \<Rightarrow> 's \<Rightarrow> bool \<times> bool \<times> (response, 's) outcome" where
  "run_call ext e permits r s =
     (if permits = 0 then (False, False, (Done (Err Busy), s))
      else (case authorize ext e r s of
        (Deadline, s1) \<Rightarrow> (False, False, (Deadline, s1))
      | (Done (Err err), s1) \<Rightarrow> (False, False, (Done (Err err), s1))
      | (Done (Ok pl), s1) \<Rightarrow>
          (case tr_send_verified (en_transport e) pl s1 of
             (dispatched, (Deadline, s2)) \<Rightarrow> (dispatched, False, (Deadline, s2))
           | (dispatched, (Done (Err err), s2)) \<Rightarrow> (dispatched, False, (Done (Err err), s2))
           | (dispatched, (Done (Ok resp), s2)) \<Rightarrow>
               (case finish_response e r pl resp s2 of
                  (accepted, out) \<Rightarrow> (dispatched, accepted, out)))))"

text \<open>What the caller is told, from the timed block's outcome and the flags.\<close>

definition report :: "bool \<Rightarrow> bool \<Rightarrow> bool \<Rightarrow> (perm_error + response) awaited \<Rightarrow> perm_error + response" where
  "report dispatched accepted is_mutating out =
     (let result = (case out of Deadline \<Rightarrow> Err Timeout | Done res \<Rightarrow> res)
      in if accepted \<and> is_err result then Err WriteAcceptedResponseWithheld
         else if dispatched \<and> is_mutating \<and> is_err result then Err OutcomeUncertain
         else result)"

definition execute ::
  "externals \<Rightarrow> 's engine \<Rightarrow> nat \<Rightarrow> request \<Rightarrow> 's \<Rightarrow> (perm_error + response) \<times> 's" where
  "execute ext e permits r s =
     (case run_call ext e permits r s of
        (dispatched, accepted, (out, s')) \<Rightarrow> (report dispatched accepted (mutating r) out, s'))"

section \<open>Permits\<close>

text \<open>
  \<open>Semaphore::new(32)\<close> with \<open>try_acquire\<close> at the start of a call and the permit dropped at
  its end; any number of calls interleave.
\<close>

record permit_state =
  available :: nat
  running :: nat

definition permits_init :: permit_state where
  "permits_init = \<lparr>available = 32, running = 0\<rparr>"

inductive permit_step :: "permit_state \<Rightarrow> permit_state \<Rightarrow> bool" where
  acquire: "available s > 0 \<Longrightarrow>
    permit_step s (s\<lparr>available := available s - 1, running := running s + 1\<rparr>)"
| refuse: "available s = 0 \<Longrightarrow> permit_step s s"
| release: "running s > 0 \<Longrightarrow>
    permit_step s (s\<lparr>available := available s + 1, running := running s - 1\<rparr>)"

inductive_cases permit_stepE: "permit_step s t"

section \<open>Contracts\<close>

text \<open>
  What the engine relies on in an adapter: planning keeps the method, path and body of the
  request (the engine classifies the outcome of a write by the request it was given),
  verification reads only, and the projection keeps the status.
\<close>

locale adapter_contract =
  fixes adapter :: "'s provider_adapter"
  assumes plan_method: "pa_plan adapter p r = Ok pl \<Longrightarrow> rq_method (pl_request pl) = rq_method r"
    and plan_path: "pa_plan adapter p r = Ok pl \<Longrightarrow> rq_path (pl_request pl) = rq_path r"
    and plan_body: "pa_plan adapter p r = Ok pl \<Longrightarrow> rq_body (pl_request pl) = rq_body r"
    and verify_reads_only:
      "(\<And>r t. rq_method r = ''GET'' \<Longrightarrow> I t \<Longrightarrow> I (snd (send r t))) \<Longrightarrow> I s
       \<Longrightarrow> I (snd (pa_verify adapter p pl send s))"
    and sanitize_status:
      "pa_sanitize_response adapter pl resp = Ok resp' \<Longrightarrow> rs_status resp' = rs_status resp"

text \<open>
  What the engine relies on in a transport, over the part of the state the upstream keeps:
  a read leaves it, and a primary send that was not dispatched leaves it.
\<close>

locale transport_contract =
  fixes tr :: "'s transport" and store :: "'s \<Rightarrow> 'st"
  assumes read_keeps: "\<not> mutating r \<Longrightarrow> store (snd (tr_send tr r s)) = store s"
    and verified_read_keeps:
      "\<not> mutating (pl_request pl) \<Longrightarrow> store (snd (snd (tr_send_verified tr pl s))) = store s"
    and undispatched_keeps:
      "\<not> fst (tr_send_verified tr pl s) \<Longrightarrow> store (snd (snd (tr_send_verified tr pl s))) = store s"

text \<open>Hooks are checks: they leave the upstream's state alone.\<close>

definition hooks_keep :: "('s \<Rightarrow> 'st) \<Rightarrow> 's bound_hook list \<Rightarrow> bool" where
  "hooks_keep store hooks \<longleftrightarrow>
     (\<forall>h \<in> set hooks. \<forall>p pl resp c s. store (snd (hh_check (bh_handler h) p pl resp c s)) = store s)"

lemma run_hooks_keep:
  "hooks_keep store hs \<Longrightarrow> store (snd (run_hooks hs stage p pl resp s)) = store s"
proof (induction hs arbitrary: s)
  case (Cons h hs)
  then have IH: "store (snd (run_hooks hs stage p pl resp t)) = store t" for t
    by (simp add: hooks_keep_def)
  obtain out s' where out: "hh_check (bh_handler h) p pl resp (hd_config (bh_definition h)) s = (out, s')"
    by fastforce
  have "store (snd (hh_check (bh_handler h) p pl resp (hd_config (bh_definition h)) s)) = store s"
    using Cons.prems by (simp add: hooks_keep_def)
  with out have "store s' = store s" by simp
  with IH out show ?case
    by (auto simp: Let_def split: awaited.splits hook_outcome.splits hook_decision.splits)
qed simp

lemma run_hooks_Ok_D:
  "run_hooks hs stage p pl resp s = (Done (Ok u), s') \<Longrightarrow> h \<in> set hs \<Longrightarrow>
   hook_applies (bh_definition h) stage pl \<Longrightarrow>
   \<exists>t t'. hh_check (bh_handler h) p pl resp (hd_config (bh_definition h)) t = (Done (Decided Allow), t')"
  by (induction hs arbitrary: s)
    (auto simp: Let_def split: if_splits prod.splits awaited.splits hook_outcome.splits
       hook_decision.splits)

lemma authorize_Ok_D:
  assumes "authorize ext e r s = (Done (Ok pl), s2)"
  obtains s1 where "authorize_plan ext e r = Ok pl"
    and "run_hooks (en_hooks e) BeforeExecute (en_policy e) pl None s = (Done (Ok ()), s1)"
    and "pa_verify (en_adapter e) (en_policy e) pl (tr_send (en_transport e)) s1 = (Done (Ok ()), s2)"
  using assms by (auto simp: authorize_def await_def split: sum.splits prod.splits awaited.splits)

lemma authorize_plan_Ok_D:
  assumes "authorize_plan ext e r = Ok pl"
  shows "pa_plan (en_adapter e) (en_policy e) r = Ok pl"
    and "pl_operation pl \<in> set (po_allowed_operations (en_policy e))"
    and "length (rq_body r) \<le> MAX_BODY_BYTES"
    and "\<And>cs. btm_get (po_constraints (en_policy e)) (pl_operation pl) = Some cs \<Longrightarrow>
           enforce_constraints ext cs (pl_request pl) = Ok ()"
  using assms by (auto simp: authorize_plan_def split: if_splits option.splits)

lemma run_call_dispatched_D:
  assumes "run_call ext e permits r s = (dispatched, accepted, out)" "dispatched \<or> accepted \<or> (\<exists>x s'. out = (Done (Ok x), s'))"
  obtains pl s1 where "authorize ext e r s = (Done (Ok pl), s1)"
  using assms unfolding run_call_def
  by (auto split: if_splits prod.splits awaited.splits sum.splits)

context adapter_contract begin

lemma plan_mutating: "pa_plan adapter p r = Ok pl \<Longrightarrow> mutating (pl_request pl) = mutating r"
  by (simp add: mutating_def plan_method)

end

text \<open>An engine over a contract-keeping adapter, transport and hooks.\<close>

locale governed_engine =
  adapter_contract "en_adapter e" + transport_contract "en_transport e" store
  for e :: "'s engine" and store :: "'s \<Rightarrow> 'st" +
  assumes hooks_keep: "hooks_keep store (en_hooks e)"
begin

lemma authorize_keeps: "store (snd (authorize ext e r s)) = store s"
proof (cases "authorize_plan ext e r")
  case (Inr pl)
  obtain a s1 where hooks: "run_hooks (en_hooks e) BeforeExecute (en_policy e) pl None s = (a, s1)"
    by fastforce
  have s1: "store s1 = store s"
    using run_hooks_keep [OF hooks_keep, of BeforeExecute "en_policy e" pl None s] hooks by simp
  have "store (snd (pa_verify (en_adapter e) (en_policy e) pl (tr_send (en_transport e)) s1)) = store s"
    by (rule verify_reads_only [where I = "\<lambda>t. store t = store s"])
      (simp_all add: s1 read_keeps mutating_def)
  with Inr hooks s1 show ?thesis
    by (auto simp: authorize_def await_def split: awaited.splits sum.splits prod.splits)
qed (simp add: authorize_def)

lemma finish_keeps: "store (snd (snd (finish_response e r pl resp s))) = store s"
  using run_hooks_keep [OF hooks_keep]
  by (auto simp: finish_response_def await_def split: sum.splits prod.splits awaited.splits)
    (metis snd_conv)+

text \<open>A call that was not dispatched changed nothing upstream.\<close>

lemma undispatched_call_keeps:
  assumes "run_call ext e permits r s = (False, accepted, (out, s'))"
  shows "store s' = store s"
proof (cases "permits = 0")
  case False
  obtain a s1 where auth: "authorize ext e r s = (a, s1)" by fastforce
  have s1: "store s1 = store s" using authorize_keeps [of ext r s] auth by simp
  show ?thesis
  proof (cases "\<exists>pl. a = Done (Ok pl)")
    case True
    then obtain pl where a: "a = Done (Ok pl)" by blast
    obtain d b s2 where sent: "tr_send_verified (en_transport e) pl s1 = (d, (b, s2))"
      by (metis surj_pair)
    from assms False auth a sent have "\<not> d"
      by (auto simp: run_call_def split: awaited.splits sum.splits prod.splits)
    with sent undispatched_keeps [of pl s1] s1 have s2: "store s2 = store s" by simp
    from assms False auth a sent s2 show ?thesis
      using finish_keeps [of r pl]
      by (auto simp: run_call_def split: awaited.splits sum.splits prod.splits) (metis snd_conv)
  next
    case False
    with assms \<open>permits \<noteq> 0\<close> auth s1 show ?thesis
      by (auto simp: run_call_def split: awaited.splits sum.splits)
  qed
qed (use assms in \<open>simp add: run_call_def\<close>)

text \<open>A read changes nothing upstream, dispatched or not.\<close>

lemma read_call_keeps:
  assumes "\<not> mutating r"
  shows "store (snd (snd (snd (run_call ext e permits r s)))) = store s"
proof -
  obtain a s1 where auth: "authorize ext e r s = (a, s1)" by fastforce
  have s1: "store s1 = store s" using authorize_keeps [of ext r s] auth by simp
  have "store (snd (snd (tr_send_verified (en_transport e) pl s1))) = store s"
    if "a = Done (Ok pl)" for pl
  proof -
    from that auth have "authorize_plan ext e r = Ok pl" by (auto elim: authorize_Ok_D)
    then have "\<not> mutating (pl_request pl)"
      using assms plan_mutating authorize_plan_Ok_D(1) by metis
    with s1 show ?thesis by (simp add: verified_read_keeps)
  qed
  with auth s1 show ?thesis
    using finish_keeps
    by (auto simp: run_call_def split: awaited.splits sum.splits prod.splits)
qed

text \<open>
  Whatever a call changes upstream is the effect of one primary send of an authorized plan.
\<close>

lemma change_is_authorized_send:
  assumes "store (snd (execute ext e permits r s)) \<noteq> store s"
  shows "\<exists>pl s1. authorize ext e r s = (Done (Ok pl), s1) \<and> store s1 = store s \<and> mutating r
    \<and> fst (tr_send_verified (en_transport e) pl s1)
    \<and> store (snd (execute ext e permits r s)) = store (snd (snd (tr_send_verified (en_transport e) pl s1)))"
proof -
  have final: "snd (execute ext e permits r s) = snd (snd (snd (run_call ext e permits r s)))"
    by (simp add: execute_def split: prod.split)
  with assms have "mutating r" using read_call_keeps [of r ext permits s] by fastforce
  obtain a s1 where auth: "authorize ext e r s = (a, s1)" by fastforce
  have s1: "store s1 = store s" using authorize_keeps [of ext r s] auth by simp
  have "permits \<noteq> 0"
  proof
    assume "permits = 0"
    then have "snd (execute ext e permits r s) = s" by (simp add: execute_def run_call_def)
    with assms show False by simp
  qed
  then obtain pl where a: "a = Done (Ok pl)"
    using assms final auth s1 by (auto simp: run_call_def split: awaited.split_asm sum.split_asm)
  obtain d b s2 where sent: "tr_send_verified (en_transport e) pl s1 = (d, (b, s2))"
    by (metis surj_pair)
  have same: "store (snd (execute ext e permits r s)) = store s2"
    using auth a sent \<open>permits \<noteq> 0\<close> finish_keeps [of r pl _ s2]
    by (auto simp: final run_call_def split: awaited.split sum.split prod.split)
  then have "d" using assms sent s1 undispatched_keeps [of pl s1] by auto
  with auth a sent s1 same \<open>mutating r\<close> show ?thesis by simp
qed

end

end
