(* ===== verification/Perm_Drive.thy ===== *)
theory Perm_Drive
  imports Perm_Values
begin

text \<open>
  The Google Drive adapter (\<open>permissions/src/drive.rs\<close>): the policy check, the translation
  of a request into a plan, the walk over folder ancestry that verifies the plan's
  resources, and the response projection.
\<close>

definition FOLDER :: string where "FOLDER = ''application/vnd.google-apps.folder''"
definition SHORTCUT :: string where "SHORTCUT = ''application/vnd.google-apps.shortcut''"
definition VERIFY_FIELDS :: string where "VERIFY_FIELDS = ''id,name,mimeType,parents,trashed''"

definition OPERATIONS :: "string list" where
  "OPERATIONS = [''drive.files.list'', ''drive.files.get'', ''drive.files.download'',
     ''drive.files.export'', ''drive.folders.create'', ''drive.files.rename'']"

record file_metadata =
  fm_id :: string
  fm_name :: string
  fm_mime_type :: string
  fm_parents :: "string list"
  fm_trashed :: bool

text \<open>
  The derived deserializer: an object (unknown fields ignored, \<open>parents\<close> optional) or the
  five fields as a sequence.
\<close>

definition file_metadata_fields ::
  "json option \<Rightarrow> json option \<Rightarrow> json option \<Rightarrow> json option \<Rightarrow> json option \<Rightarrow> file_metadata option" where
  "file_metadata_fields i n m ps t =
     (case (case i of None \<Rightarrow> None | Some v \<Rightarrow> as_str v) of None \<Rightarrow> None | Some fid \<Rightarrow>
     (case (case n of None \<Rightarrow> None | Some v \<Rightarrow> as_str v) of None \<Rightarrow> None | Some name \<Rightarrow>
     (case (case m of None \<Rightarrow> None | Some v \<Rightarrow> as_str v) of None \<Rightarrow> None | Some mime \<Rightarrow>
     (case (case ps of None \<Rightarrow> Some [] | Some v \<Rightarrow> string_list v) of None \<Rightarrow> None | Some parents \<Rightarrow>
     (case (case t of None \<Rightarrow> None | Some v \<Rightarrow> as_bool v) of None \<Rightarrow> None | Some trashed \<Rightarrow>
       Some \<lparr>fm_id = fid, fm_name = name, fm_mime_type = mime, fm_parents = parents,
             fm_trashed = trashed\<rparr>)))))"

definition file_metadata_of :: "json \<Rightarrow> file_metadata option" where
  "file_metadata_of v = (case v of
     JObject es \<Rightarrow> file_metadata_fields (map_of es ''id'') (map_of es ''name'')
       (map_of es ''mimeType'') (map_of es ''parents'') (map_of es ''trashed'')
   | JArray [i, n, m, ps, t] \<Rightarrow> file_metadata_fields (Some i) (Some n) (Some m) (Some ps) (Some t)
   | _ \<Rightarrow> None)"

definition valid_id :: "string \<Rightarrow> bool" where
  "valid_id fid \<longleftrightarrow>
     fid \<noteq> [] \<and> length fid \<le> 256
     \<and> list_all (\<lambda>b. is_ascii_alphanumeric b \<or> b = CHR ''_'' \<or> b = CHR ''-'') fid"

definition only_query :: "request \<Rightarrow> string list \<Rightarrow> perm_error + unit" where
  "only_query r allowed =
     (if list_ex (\<lambda>key. key \<notin> set allowed) (map fst (rq_query r))
      then Err (Denied ''query parameter is not supported'')
      else if (case btm_get (rq_query r) ''supportsAllDrives'' of None \<Rightarrow> False | Some s \<Rightarrow> s \<noteq> ''true'')
      then Err (Denied ''supportsAllDrives must be true'')
      else Ok ())"

definition json_body :: "externals \<Rightarrow> request \<Rightarrow> string list \<Rightarrow> perm_error + json" where
  "json_body ext r allowed =
     (if \<not> (case rq_content_type r of None \<Rightarrow> False | Some ct \<Rightarrow> is_application_json ct)
      then Err (Denied ''this operation requires application/json'')
      else and_then (parse_json ext (rq_body r)) (\<lambda>body.
        (case as_object body of
           None \<Rightarrow> Err (Denied ''expected a JSON object'')
         | Some object \<Rightarrow>
             if list_ex (\<lambda>key. key \<notin> set allowed) (map fst object)
             then Err (Denied ''body field is not supported'')
             else (case (case jget body ''name'' of None \<Rightarrow> None | Some n \<Rightarrow> as_str n) of
                 None \<Rightarrow> Err (Denied ''name is required'')
               | Some name \<Rightarrow>
                   if trim name = [] \<or> length name > 1024 \<or> has_control name
                   then Err (Denied ''invalid file name'')
                   else Ok body))))"

definition checked_id :: "string \<Rightarrow> bool \<Rightarrow> bool \<Rightarrow> perm_error + resource_check" where
  "checked_id fid folder allow_root =
     (if \<not> valid_id fid then Err (Denied ''invalid resource ID'')
      else Ok \<lparr>rc_id = fid, rc_must_be_folder = folder, rc_allow_root = allow_root\<rparr>)"

section \<open>The policy check\<close>

definition drive_allowed_query :: "string \<Rightarrow> string list" where
  "drive_allowed_query operation =
     (if operation = ''drive.files.list'' then
        [''q'', ''pageSize'', ''pageToken'', ''fields'', ''supportsAllDrives'',
         ''includeItemsFromAllDrives'']
      else if operation = ''drive.files.download'' then [''alt'', ''supportsAllDrives'']
      else if operation = ''drive.files.export'' then [''mimeType'']
      else [''fields'', ''supportsAllDrives''])"

definition drive_constraint_known :: "string \<Rightarrow> parameter_constraint \<Rightarrow> bool" where
  "drive_constraint_known operation c = (case pc_location c of
     Query \<Rightarrow> pc_name c \<in> set (drive_allowed_query operation)
   | Body \<Rightarrow>
       if operation = ''drive.files.rename'' then pc_name c \<in> set ['''', ''/name'']
       else if operation = ''drive.folders.create''
       then pc_name c \<in> set ['''', ''/name'', ''/mimeType'', ''/parents'', ''/parents/0'']
       else False)"

definition drive_validate_policy :: "policy \<Rightarrow> perm_error + unit" where
  "drive_validate_policy p = (case po_resource p of
     GoogleApi _ \<Rightarrow> Err (Policy ''expected a Drive folder boundary'')
   | GoogleDriveFolder root_folder_id _ \<Rightarrow>
       if po_provider p \<noteq> ''google_drive'' \<or> \<not> valid_id root_folder_id \<or> root_folder_id = ''root''
       then Err (Policy ''expected google_drive and a concrete folder ID (not root)'')
       else if list_ex (\<lambda>op. op \<notin> set OPERATIONS) (po_allowed_operations p)
       then Err (Policy ''unknown Drive operation'')
       else for_each (\<lambda>(operation, constraints).
              for_each (\<lambda>c. if drive_constraint_known operation c then Ok ()
                else Err (Policy ''constraint names an unsupported parameter'')) constraints)
            (po_constraints p))"

section \<open>Planning\<close>

text \<open>The list query's parent folder: the whole of \<open>q\<close> is \<open>'FOLDER_ID' in parents\<close>.\<close>

definition list_parent :: "string \<Rightarrow> request \<Rightarrow> perm_error + string" where
  "list_parent root_folder_id r = (case btm_get (rq_query r) ''q'' of
     None \<Rightarrow> Ok root_folder_id
   | Some q \<Rightarrow>
       (case strip_prefix [CHR 0x27] q of
          None \<Rightarrow> Err (Denied (''list q must be exactly '' @ [CHR 0x27] @ ''FOLDER_ID'' @ [CHR 0x27] @ '' in parents''))
        | Some t \<Rightarrow>
            (case strip_suffix (CHR 0x27 # '' in parents'') t of
               None \<Rightarrow> Err (Denied (''list q must be exactly '' @ [CHR 0x27] @ ''FOLDER_ID'' @ [CHR 0x27] @ '' in parents''))
             | Some fid \<Rightarrow>
                 if valid_id fid then Ok fid
                 else Err (Denied (''list q must be exactly '' @ [CHR 0x27] @ ''FOLDER_ID'' @ [CHR 0x27] @ '' in parents'')))))"

definition u16_max :: nat where "u16_max = 65535"

definition set_query :: "string \<Rightarrow> string \<Rightarrow> request \<Rightarrow> request" where
  "set_query k v r = r\<lparr>rq_query := btm_insert k v (rq_query r)\<rparr>"

definition drop_query :: "string \<Rightarrow> request \<Rightarrow> request" where
  "drop_query k r = r\<lparr>rq_query := btm_remove k (rq_query r)\<rparr>"

definition quoted_parents :: "string \<Rightarrow> string" where
  "quoted_parents parent = CHR 0x27 # parent @ CHR 0x27 # '' in parents and trashed = false''"

definition plan_list :: "string \<Rightarrow> request \<Rightarrow> perm_error + string \<times> resource_check list \<times> request" where
  "plan_list root_folder_id r =
     and_then (only_query r [''q'', ''pageSize'', ''pageToken'', ''fields'', ''supportsAllDrives'']) (\<lambda>_.
     and_then (list_parent root_folder_id r) (\<lambda>parent.
     and_then (checked_id parent True True) (\<lambda>resource.
     and_then (case btm_get (rq_query r) ''pageSize'' of
                 None \<Rightarrow> Ok 100
               | Some s \<Rightarrow> ok_or (parse_uint u16_max s) (Denied ''invalid pageSize'')) (\<lambda>size.
       if \<not> (1 \<le> size \<and> size \<le> 100) then Err (Denied ''pageSize must be between 1 and 100'')
       else if (case btm_get (rq_query r) ''pageToken'' of None \<Rightarrow> False
                | Some s \<Rightarrow> s = [] \<or> length s > 4096)
       then Err (Denied ''invalid page token'')
       else Ok (''drive.files.list'', [resource],
         set_query ''includeItemsFromAllDrives'' ''true''
           (set_query ''fields'' (''nextPageToken,incompleteSearch,files('' @ VERIFY_FIELDS @ '')'')
             (set_query ''pageSize'' (nat_str size)
               (set_query ''q'' (quoted_parents parent) r))))))))"

definition plan_get :: "string \<Rightarrow> request \<Rightarrow> perm_error + string \<times> resource_check list \<times> request" where
  "plan_get fid r =
     and_then (only_query r [''fields'', ''alt'', ''supportsAllDrives'']) (\<lambda>_.
     and_then (checked_id fid False True) (\<lambda>resource.
       (case btm_get (rq_query r) ''alt'' of
          None \<Rightarrow> Ok (''drive.files.get'', [resource],
                       set_query ''fields'' VERIFY_FIELDS (drop_query ''alt'' r))
        | Some a \<Rightarrow>
            if a = ''json'' then Ok (''drive.files.get'', [resource],
                       set_query ''fields'' VERIFY_FIELDS (drop_query ''alt'' r))
            else if a = ''media'' then Ok (''drive.files.download'', [resource], drop_query ''fields'' r)
            else Err (Denied ''unsupported alt value''))))"

definition plan_export :: "string \<Rightarrow> request \<Rightarrow> perm_error + string \<times> resource_check list \<times> request" where
  "plan_export fid r =
     and_then (only_query r [''mimeType'']) (\<lambda>_.
       if btm_get (rq_query r) ''mimeType''
            \<notin> {Some ''application/pdf'', Some ''text/plain'', Some ''text/csv''}
       then Err (Denied ''unsupported export MIME type'')
       else and_then (checked_id fid False False) (\<lambda>resource.
         Ok (''drive.files.export'', [resource], r)))"

definition plan_create :: "externals \<Rightarrow> request \<Rightarrow> perm_error + string \<times> resource_check list \<times> request" where
  "plan_create ext r =
     and_then (only_query r [''fields'', ''supportsAllDrives'']) (\<lambda>_.
     and_then (json_body ext r [''name'', ''mimeType'', ''parents'']) (\<lambda>body.
       if jindex body ''mimeType'' \<noteq> JString FOLDER
       then Err (Denied ''only folder creation is supported'')
       else (case as_array (jindex body ''parents'') of
           Some [p] \<Rightarrow> (case as_str p of
               None \<Rightarrow> Err (Denied ''invalid parent'')
             | Some parent \<Rightarrow> and_then (checked_id parent True True) (\<lambda>resource.
                 Ok (''drive.folders.create'', [resource], set_query ''fields'' VERIFY_FIELDS r)))
         | _ \<Rightarrow> Err (Denied ''exactly one explicit parent is required''))))"

definition plan_rename ::
  "externals \<Rightarrow> string \<Rightarrow> request \<Rightarrow> perm_error + string \<times> resource_check list \<times> request" where
  "plan_rename ext fid r =
     and_then (only_query r [''fields'', ''supportsAllDrives'']) (\<lambda>_.
     and_then (json_body ext r [''name'']) (\<lambda>_.
     and_then (checked_id fid False False) (\<lambda>resource.
       Ok (''drive.files.rename'', [resource], set_query ''fields'' VERIFY_FIELDS r))))"

definition files_route :: "string list" where
  "files_route = [[], ''drive'', ''v3'', ''files'']"

text \<open>The \<open>match\<close> on the method and the path's segments.\<close>

definition drive_route ::
  "externals \<Rightarrow> string \<Rightarrow> request \<Rightarrow> perm_error + string \<times> resource_check list \<times> request" where
  "drive_route ext root_folder_id r =
     (let segments = split_on CHR ''/'' (rq_path r); method = rq_method r
      in if method = ''GET'' \<and> segments = files_route then plan_list root_folder_id r
         else if method = ''GET'' \<and> length segments = 5 \<and> take 4 segments = files_route
         then plan_get (segments ! 4) r
         else if method = ''GET'' \<and> length segments = 6 \<and> take 4 segments = files_route
                 \<and> segments ! 5 = ''export''
         then plan_export (segments ! 4) r
         else if method = ''POST'' \<and> segments = files_route then plan_create ext r
         else if method = ''PATCH'' \<and> length segments = 5 \<and> take 4 segments = files_route
         then plan_rename ext (segments ! 4) r
         else Err (Denied ''operation is not supported by the Drive adapter''))"

definition drive_plan :: "externals \<Rightarrow> policy \<Rightarrow> request \<Rightarrow> perm_error + plan" where
  "drive_plan ext p r = (case po_resource p of
     GoogleApi _ \<Rightarrow> Err (Policy ''expected a Drive folder boundary'')
   | GoogleDriveFolder root_folder_id _ \<Rightarrow>
       if length (rq_path r) > 2048
          \<or> \<not> starts_with ''/'' (rq_path r)
          \<or> contains_any [CHR ''%'', CHR 0x5C, CHR ''?'', CHR ''#''] (rq_path r)
       then Err (Denied ''noncanonical path'')
       else if rq_method r = ''GET'' \<and> rq_body r \<noteq> []
       then Err (Denied ''GET bodies are not supported'')
       else and_then (drive_route ext root_folder_id r) (\<lambda>(operation, resources, r').
         Ok \<lparr>pl_operation = operation, pl_origin = None,
             pl_request = (if operation \<noteq> ''drive.files.export''
                           then set_query ''supportsAllDrives'' ''true'' r' else r'),
             pl_resources = resources\<rparr>))"

section \<open>Verification: the walk to the boundary folder\<close>

type_synonym metadata_cache = "(string \<times> file_metadata) list"

definition metadata_request :: "string \<Rightarrow> request" where
  "metadata_request current =
     set_query ''supportsAllDrives'' ''true''
       (set_query ''fields'' VERIFY_FIELDS (request_get (''/drive/v3/files/'' @ current)))"

text \<open>What one metadata answer has to be to enter the cache.\<close>

definition metadata_answer :: "externals \<Rightarrow> string \<Rightarrow> perm_error + response \<Rightarrow> perm_error + file_metadata" where
  "metadata_answer ext current answer = (case answer of
     Err _ \<Rightarrow> Err Verification
   | Ok resp \<Rightarrow>
       if rs_status resp \<noteq> 200 \<or> length (rs_body resp) > 64 * 1024 then Err Verification
       else and_then (map_err (\<lambda>_. Verification) (parse_json ext (rs_body resp))) (\<lambda>json.
         (case file_metadata_of json of
            None \<Rightarrow> Err Verification
          | Some file \<Rightarrow>
              if fm_id file \<noteq> current
                 \<or> list_ex (\<lambda>fid. \<not> valid_id fid) (fm_parents file)
                 \<or> length (fm_parents file) > 1
              then Err Verification else Ok file)))"

definition lookup_metadata ::
  "externals \<Rightarrow> 's sender \<Rightarrow> string \<Rightarrow> metadata_cache \<Rightarrow> 's \<Rightarrow> (file_metadata \<times> metadata_cache, 's) outcome"
where
  "lookup_metadata ext send current cache s = (case map_of cache current of
     Some file \<Rightarrow> (Done (Ok (file, cache)), s)
   | None \<Rightarrow>
       (case send (metadata_request current) s of
          (Deadline, s') \<Rightarrow> (Deadline, s')
        | (Done answer, s') \<Rightarrow>
            (Done (and_then (metadata_answer ext current answer)
                     (\<lambda>file. Ok (file, (current, file) # cache))), s')))"

text \<open>
  What the loop body refuses of a file at a depth of the walk. The branch and the order of
  the checks are the source's.
\<close>

definition ancestry_check ::
  "string \<Rightarrow> string \<Rightarrow> resource_check \<Rightarrow> nat \<Rightarrow> string \<Rightarrow> file_metadata \<Rightarrow> perm_error + unit" where
  "ancestry_check root operation resource depth current file =
     (if fm_trashed file \<or> fm_mime_type file = SHORTCUT
      then Err (Denied ''trashed files and shortcuts are denied'')
      else if (depth > 0 \<or> rc_must_be_folder resource \<or> current = root) \<and> fm_mime_type file \<noteq> FOLDER
      then Err (Denied ''expected a folder in resource ancestry'')
      else if depth = 0 \<and> operation \<in> set [''drive.files.download'', ''drive.files.export'']
              \<and> fm_mime_type file = FOLDER
      then Err (Denied ''folder content downloads are unsupported'')
      else Ok ())"

text \<open>
  \<open>for depth in 0..32\<close>: \<open>n\<close> rounds are left. The result says whether the walk met the
  boundary folder, with the cache it leaves.
\<close>

fun drive_walk ::
  "externals \<Rightarrow> 's sender \<Rightarrow> string \<Rightarrow> bool \<Rightarrow> string \<Rightarrow> resource_check \<Rightarrow> nat \<Rightarrow> nat \<Rightarrow> string
   \<Rightarrow> string list \<Rightarrow> metadata_cache \<Rightarrow> 's \<Rightarrow> (bool \<times> metadata_cache, 's) outcome" where
  "drive_walk ext send root incl operation resource 0 depth current visited cache s =
     (Done (Ok (False, cache)), s)"
| "drive_walk ext send root incl operation resource (Suc n) depth current visited cache s =
     (if current \<in> set visited then (Done (Err (Denied ''cyclic folder ancestry'')), s)
      else await (lookup_metadata ext send current cache s) (\<lambda>(file, cache') s'.
        (case ancestry_check root operation resource depth current file of
           Err e \<Rightarrow> (Done (Err e), s')
         | Ok _ \<Rightarrow>
             if current = root then (Done (Ok (True, cache')), s')
             else if \<not> incl \<and> depth \<ge> 1 then (Done (Ok (False, cache')), s')
             else (case fm_parents file of
                 [] \<Rightarrow> (Done (Ok (False, cache')), s')
               | parent # _ \<Rightarrow>
                   drive_walk ext send root incl operation resource n (depth + 1) parent
                     (current # visited) cache' s'))))"

fun verify_resources ::
  "externals \<Rightarrow> 's sender \<Rightarrow> string \<Rightarrow> bool \<Rightarrow> string \<Rightarrow> resource_check list \<Rightarrow> metadata_cache \<Rightarrow> 's
   \<Rightarrow> (unit, 's) outcome" where
  "verify_resources ext send root incl operation [] cache s = (Done (Ok ()), s)"
| "verify_resources ext send root incl operation (resource # rest) cache s =
     (if rc_must_be_folder resource \<and> \<not> incl \<and> rc_id resource \<noteq> root
      then (Done (Err (Denied ''listing or creating inside subfolders is denied'')), s)
      else if rc_id resource = root \<and> \<not> rc_allow_root resource
      then (Done (Err (Denied ''changing the boundary folder itself is denied'')), s)
      else await (drive_walk ext send root incl operation resource 32 0 (rc_id resource) [] cache s)
        (\<lambda>(found, cache') s'.
          if \<not> found
          then (Done (Err (Denied ''resource is outside the permitted folder boundary or depth limit'')), s')
          else verify_resources ext send root incl operation rest cache' s'))"

definition drive_verify :: "externals \<Rightarrow> policy \<Rightarrow> plan \<Rightarrow> 's sender \<Rightarrow> 's \<Rightarrow> (unit, 's) outcome" where
  "drive_verify ext p pl send s = (case po_resource p of
     GoogleApi _ \<Rightarrow> (Done (Err (Policy ''expected a Drive folder boundary'')), s)
   | GoogleDriveFolder root_folder_id include_descendants \<Rightarrow>
       verify_resources ext send root_folder_id include_descendants (pl_operation pl)
         (pl_resources pl) [] s)"

section \<open>The response projection\<close>

definition sanitize_file :: "json \<Rightarrow> perm_error + json" where
  "sanitize_file value = (case file_metadata_of value of
     None \<Rightarrow> Err Verification
   | Some file \<Rightarrow>
       if \<not> valid_id (fm_id file) \<or> fm_trashed file \<or> length (fm_parents file) > 1
          \<or> list_ex (\<lambda>fid. \<not> valid_id fid) (fm_parents file)
       then Err Verification
       else Ok (JObject [(''id'', JString (fm_id file)), (''name'', JString (fm_name file)),
                         (''mimeType'', JString (fm_mime_type file))]))"

text \<open>The loop over a listing: shortcuts are left out, everything else is projected.\<close>

fun sanitize_listing :: "string \<Rightarrow> json list \<Rightarrow> perm_error + json list" where
  "sanitize_listing parent [] = Ok []"
| "sanitize_listing parent (file # files) =
     (if \<not> json_eq (jindex file ''parents'') (JArray [JString parent]) then Err Verification
      else if jindex file ''mimeType'' = JString SHORTCUT then sanitize_listing parent files
      else and_then (sanitize_file file) (\<lambda>v.
           and_then (sanitize_listing parent files) (\<lambda>vs. Ok (v # vs))))"

definition sanitize_list :: "plan \<Rightarrow> json \<Rightarrow> perm_error + json" where
  "sanitize_list pl value =
     (if (case (case jget value ''incompleteSearch'' of None \<Rightarrow> None | Some v \<Rightarrow> as_bool v) of
            None \<Rightarrow> False | Some b \<Rightarrow> b)
      then Err Verification
      else (case as_array (jindex value ''files'') of
          None \<Rightarrow> Err Verification
        | Some files \<Rightarrow>
            (case (case btm_get (rq_query (pl_request pl)) ''pageSize'' of
                     None \<Rightarrow> None | Some s \<Rightarrow> parse_uint u64_max s) of
               None \<Rightarrow> Err Verification
             | Some limit \<Rightarrow>
                 if length files > limit then Err Verification
                 else and_then (sanitize_listing (rc_id (hd (pl_resources pl))) files) (\<lambda>safe.
                   (case jget value ''nextPageToken'' of
                      None \<Rightarrow> Ok (JObject [(''files'', JArray safe)])
                    | Some token \<Rightarrow>
                        (case as_str token of
                           None \<Rightarrow> Err Verification
                         | Some t \<Rightarrow>
                             if t = [] \<or> length t > 4096 then Err Verification
                             else Ok (JObject [(''files'', JArray safe),
                                               (''nextPageToken'', token)])))))))"

definition drive_sanitize_response :: "externals \<Rightarrow> plan \<Rightarrow> response \<Rightarrow> perm_error + response" where
  "drive_sanitize_response ext pl resp =
     (if pl_operation pl \<in> set [''drive.files.download'', ''drive.files.export'']
      then Ok (resp\<lparr>rs_content_type := ''application/octet-stream''\<rparr>)
      else and_then (map_err (\<lambda>_. Verification) (parse_json ext (rs_body resp))) (\<lambda>value.
        and_then
          (if pl_operation pl = ''drive.files.list'' then sanitize_list pl value
           else if pl_operation pl \<noteq> ''drive.folders.create''
                   \<and> jindex value ''id'' \<noteq> JString (rc_id (hd (pl_resources pl)))
           then Err Verification
           else if pl_operation pl = ''drive.folders.create''
                   \<and> (\<not> json_eq (jindex value ''parents'')
                          (JArray [JString (rc_id (hd (pl_resources pl)))])
                      \<or> jindex value ''mimeType'' \<noteq> JString FOLDER)
           then Err Verification
           else sanitize_file value)
          (\<lambda>result. Ok \<lparr>rs_status = rs_status resp, rs_content_type = ''application/json'',
                        rs_body = to_vec ext result\<rparr>)))"

end
