(* ===== verification/Perm_Google.thy ===== *)
theory Perm_Google
  imports Perm_Inputs
begin

text \<open>
  The declarative Google REST adapter (\<open>permissions/src/google.rs\<close>): origin eligibility,
  the validation of an operation and of a policy, the matching of a request to exactly
  one declared operation, and the response projection.
\<close>

definition dns_label_ok :: "string \<Rightarrow> bool" where
  "dns_label_ok label \<longleftrightarrow>
     label \<noteq> [] \<and> \<not> starts_with ''-'' label \<and> \<not> ends_with ''-'' label
     \<and> list_all (\<lambda>b. is_ascii_lowercase b \<or> is_ascii_digit b \<or> b = CHR ''-'') label"

definition is_google_api_origin :: "externals \<Rightarrow> string \<Rightarrow> bool" where
  "is_google_api_origin ext origin = (case parse_url ext origin of
     None \<Rightarrow> False
   | Some url \<Rightarrow>
       url_scheme url = ''https''
       \<and> url_username url = []
       \<and> url_password url = None
       \<and> url_path url = ''/''
       \<and> url_query url = None
       \<and> url_fragment url = None
       \<and> url_port url = None
       \<and> url_origin url = origin
       \<and> (case url_host_str url of
            None \<Rightarrow> False
          | Some host \<Rightarrow> (case strip_suffix ''.googleapis.com'' host of
              None \<Rightarrow> False
            | Some pre \<Rightarrow> pre \<noteq> [] \<and> list_all dns_label_ok (split_on CHR ''.'' pre))))"

definition google_operations :: "policy \<Rightarrow> perm_error + api_operation list" where
  "google_operations p = (case po_resource p of
     GoogleApi operations \<Rightarrow>
       if po_provider p = ''google'' then Ok operations
       else Err (Policy ''expected google provider and google_api boundary'')
   | _ \<Rightarrow> Err (Policy ''expected google provider and google_api boundary''))"

text \<open>The loop over the template's segments, collecting the variables it declares.\<close>

fun template_variables :: "string list \<Rightarrow> string list \<Rightarrow> perm_error + string list" where
  "template_variables [] acc = Ok acc"
| "template_variables (segment # segments) acc =
     (case variable segment of
        Some (name, _) \<Rightarrow>
          if name \<in> set acc then Err (Policy ''duplicate path variable'')
          else template_variables segments (acc @ [name])
      | None \<Rightarrow>
          if contains_any [CHR ''{'', CHR ''}''] segment then Err (Policy ''invalid path template'')
          else template_variables segments acc)"

definition operation_validate :: "externals \<Rightarrow> api_operation \<Rightarrow> perm_error + unit" where
  "operation_validate ext op =
     (if \<not> is_identifier (op_id op)
         \<or> \<not> is_google_api_origin ext (op_origin op)
         \<or> op_method op \<notin> set [''GET'', ''HEAD'', ''POST'', ''PUT'', ''PATCH'', ''DELETE'']
         \<or> \<not> path_is_canonical (op_path op) True
         \<or> length (op_path_parameters op) > 16
         \<or> length (op_query_parameters op) > 32
      then Err (Policy ''invalid API operation identity, origin, method or path'')
      else and_then (template_variables (split_on CHR ''/'' (tl (op_path op))) []) (\<lambda>variables.
        if length variables \<noteq> length (op_path_parameters op)
           \<or> list_ex (\<lambda>name. \<not> btm_contains (op_path_parameters op) name) variables
        then Err (Policy ''every path variable requires an exact or one_of rule'')
        else and_then (validate_path_rules (map snd (op_path_parameters op))) (\<lambda>_.
             and_then (validate_query_rules (op_query_parameters op)) (\<lambda>_.
               body_rule_validate (op_method op) (op_body op)))))"

text \<open>One template segment against one segment of the request's path.\<close>

definition segment_matches :: "(string, value_rule) btree_map \<Rightarrow> string \<Rightarrow> string \<Rightarrow> bool" where
  "segment_matches parameters pattern part = (case variable pattern of
     Some (name, suff) \<Rightarrow> (case strip_suffix suff part of
         None \<Rightarrow> False
       | Some value \<Rightarrow> (case btm_get parameters name of
           None \<Rightarrow> False | Some rule \<Rightarrow> matches_value rule (JString value)))
   | None \<Rightarrow> pattern = part)"

definition operation_matches :: "api_operation \<Rightarrow> request \<Rightarrow> bool" where
  "operation_matches op r =
     (if op_method op \<noteq> rq_method r then False
      else (let template = split_on CHR ''/'' (tl (op_path op));
                actual = split_on CHR ''/'' (tl (rq_path r))
            in length template = length actual
               \<and> list_all (\<lambda>(pattern, part). segment_matches (op_path_parameters op) pattern part)
                   (zip template actual)))"

definition operation_check_inputs :: "externals \<Rightarrow> api_operation \<Rightarrow> request \<Rightarrow> perm_error + unit" where
  "operation_check_inputs ext op r =
     and_then (check_query (op_query_parameters op) (rq_query r)) (\<lambda>_.
       (case op_body op of
          None \<Rightarrow> if rq_body r = [] then Ok () else Err (Denied ''body is missing or forbidden'')
        | Some shape \<Rightarrow> check_json_body ext shape (rq_body r) (rq_content_type r)))"

definition google_constraint_ok :: "api_operation \<Rightarrow> parameter_constraint \<Rightarrow> perm_error + unit" where
  "google_constraint_ok op c = (case pc_location c of
     Query \<Rightarrow>
       if \<not> btm_contains (op_query_parameters op) (pc_name c)
       then Err (Policy ''constraint names an undeclared query parameter'') else Ok ()
   | Body \<Rightarrow>
       if op_body op = None then Err (Policy ''body constraint on a bodyless operation'') else Ok ())"

definition google_validate_policy :: "externals \<Rightarrow> policy \<Rightarrow> perm_error + unit" where
  "google_validate_policy ext p = and_then (google_operations p) (\<lambda>operations.
     let ids = remdups (map op_id operations)
     in if operations = []
           \<or> length operations > 64
           \<or> length ids \<noteq> length operations
           \<or> set (po_allowed_operations p) \<noteq> set ids
           \<or> length (po_allowed_operations p) \<noteq> length ids
        then Err (Policy ''declare exactly the allowed operations, without duplicate IDs'')
        else for_each (\<lambda>op. and_then (operation_validate ext op) (\<lambda>_.
               (case btm_get (po_constraints p) (op_id op) of
                  None \<Rightarrow> Ok ()
                | Some constraints \<Rightarrow> for_each (google_constraint_ok op) constraints))) operations)"

definition google_plan :: "externals \<Rightarrow> policy \<Rightarrow> request \<Rightarrow> perm_error + plan" where
  "google_plan ext p r =
     (if \<not> path_is_canonical (rq_path r) False then Err (Denied ''noncanonical API path'')
      else and_then (google_operations p) (\<lambda>operations.
        (case filter (\<lambda>op. operation_matches op r) operations of
           [] \<Rightarrow> Err (Denied ''API operation or resource is not allowed'')
         | operation # rest \<Rightarrow>
             if rest \<noteq> [] then Err (Denied ''ambiguous API operation'')
             else and_then (operation_check_inputs ext operation r) (\<lambda>_.
               Ok \<lparr>pl_operation = op_id operation,
                   pl_origin = Some (op_origin operation),
                   pl_request = r\<lparr>rq_content_type :=
                     (if rq_body r \<noteq> [] then Some ''application/json'' else None)\<rparr>,
                   pl_resources = []\<rparr>))))"

definition google_verify :: "policy \<Rightarrow> plan \<Rightarrow> 's sender \<Rightarrow> 's \<Rightarrow> (unit, 's) outcome" where
  "google_verify p pl send s = (Done (Ok ()), s)"

definition google_sanitize_response :: "externals \<Rightarrow> plan \<Rightarrow> response \<Rightarrow> perm_error + response" where
  "google_sanitize_response ext pl resp =
     (if rs_status resp = 204 \<or> rq_method (pl_request pl) = ''HEAD''
      then Ok \<lparr>rs_status = rs_status resp, rs_content_type = ''application/json'', rs_body = []\<rparr>
      else if \<not> is_application_json (rs_content_type resp) then Err Verification
      else and_then (map_err (\<lambda>_. Verification) (parse_json ext (rs_body resp))) (\<lambda>json.
        Ok \<lparr>rs_status = rs_status resp, rs_content_type = ''application/json'',
            rs_body = to_vec ext json\<rparr>))"

end
