(* ===== verification/Perm_Mock.thy ===== *)
theory Perm_Mock
  imports Perm_Engine Perm_Drive Perm_Google
begin

text \<open>
  The in-memory Drive (\<open>permissions/src/mock.rs\<close>) as a transport, the two provider adapters
  as values of the engine's adapter interface, and the selection of an adapter for a policy.
  The transport and adapter contracts are interpreted here.
\<close>

section \<open>Adapters\<close>

definition drive_adapter :: "externals \<Rightarrow> 's provider_adapter" where
  "drive_adapter ext =
     \<lparr>pa_validate_policy = drive_validate_policy, pa_plan = drive_plan ext,
      pa_verify = drive_verify ext, pa_sanitize_response = drive_sanitize_response ext\<rparr>"

definition google_adapter :: "externals \<Rightarrow> 's provider_adapter" where
  "google_adapter ext =
     \<lparr>pa_validate_policy = google_validate_policy ext, pa_plan = google_plan ext,
      pa_verify = google_verify, pa_sanitize_response = google_sanitize_response ext\<rparr>"

definition adapter_for_policy :: "externals \<Rightarrow> policy \<Rightarrow> perm_error + 's provider_adapter" where
  "adapter_for_policy ext p = (case po_resource p of
     GoogleDriveFolder _ _ \<Rightarrow>
       if po_provider p = ''google_drive'' then Ok (drive_adapter ext)
       else Err (Policy ''provider and resource boundary do not match'')
   | GoogleApi _ \<Rightarrow>
       if po_provider p = ''google'' then Ok (google_adapter ext)
       else Err (Policy ''provider and resource boundary do not match''))"

section \<open>The in-memory Drive\<close>

record drive_state =
  ds_files :: "(string, file_metadata) btree_map"
  ds_requests :: "request list"

definition put_file :: "file_metadata \<Rightarrow> drive_state \<Rightarrow> drive_state" where
  "put_file file st = st\<lparr>ds_files := btm_insert (fm_id file) file (ds_files st)\<rparr>"

definition demo_file :: "string \<Rightarrow> string \<Rightarrow> string \<Rightarrow> string option \<Rightarrow> file_metadata" where
  "demo_file fid name mime parent =
     \<lparr>fm_id = fid, fm_name = name, fm_mime_type = mime,
      fm_parents = (case parent of None \<Rightarrow> [] | Some p \<Rightarrow> [p]), fm_trashed = False\<rparr>"

definition mock_drive_default :: drive_state where
  "mock_drive_default = foldl (\<lambda>st f. put_file f st) \<lparr>ds_files = [], ds_requests = []\<rparr>
     [demo_file ''client-a'' ''Client A'' FOLDER None,
      demo_file ''reports'' ''Reports'' FOLDER (Some ''client-a''),
      demo_file ''report'' ''October report.txt'' ''text/plain'' (Some ''reports''),
      demo_file ''brief'' ''Brief.txt'' ''text/plain'' (Some ''client-a''),
      demo_file ''payroll'' ''Payroll'' FOLDER None,
      demo_file ''salary'' ''Salaries.txt'' ''text/plain'' (Some ''payroll''),
      demo_file ''shortcut-out'' ''Payroll shortcut'' SHORTCUT (Some ''client-a'')]"

definition file_json :: "file_metadata \<Rightarrow> json" where
  "file_json f = JObject [(''id'', JString (fm_id f)), (''name'', JString (fm_name f)),
     (''mimeType'', JString (fm_mime_type f)), (''parents'', JArray (map JString (fm_parents f))),
     (''trashed'', JBool (fm_trashed f))]"

definition reply :: "externals \<Rightarrow> nat \<Rightarrow> json \<Rightarrow> perm_error + response" where
  "reply ext status value =
     Ok \<lparr>rs_status = status, rs_content_type = ''application/json'', rs_body = to_vec ext value\<rparr>"

definition not_found_json :: json where
  "not_found_json = JObject [(''error'', JString ''not found'')]"

text \<open>The id segment of a path below \<open>/drive/v3/files/\<close>.\<close>

definition mock_path_id :: "string \<Rightarrow> string" where
  "mock_path_id path =
     hd (split_on CHR ''/'' (case strip_prefix ''/drive/v3/files/'' path of None \<Rightarrow> [] | Some r \<Rightarrow> r))"

definition str_or_empty :: "json \<Rightarrow> string" where
  "str_or_empty v = (case as_str v of None \<Rightarrow> [] | Some s \<Rightarrow> s)"

definition mock_list :: "externals \<Rightarrow> request \<Rightarrow> drive_state \<Rightarrow> perm_error + response" where
  "mock_list ext r st =
     (let parent = (case btm_get (rq_query r) ''q'' of None \<Rightarrow> []
            | Some q \<Rightarrow> (case split_on CHR 0x27 q of _ # p # _ \<Rightarrow> p | _ \<Rightarrow> []));
          size = (case btm_get (rq_query r) ''pageSize'' of None \<Rightarrow> 100
            | Some s \<Rightarrow> (case parse_uint u64_max s of None \<Rightarrow> 100 | Some n \<Rightarrow> n))
      in and_then (case btm_get (rq_query r) ''pageToken'' of
             None \<Rightarrow> Ok 0 | Some s \<Rightarrow> ok_or (parse_uint u64_max s) Upstream) (\<lambda>start.
           let files = filter (\<lambda>f. \<not> fm_trashed f \<and> fm_parents f = [parent]) (map snd (ds_files st));
               page = take size (drop start files);
               listing = [(''files'', JArray (map file_json page))]
           in reply ext 200 (JObject (if start + size < length files
                then listing @ [(''nextPageToken'', JString (nat_str (start + size)))]
                else listing))))"

text \<open>\<open>MockDrive::send\<close>. The state already holds the request that is being answered.\<close>

definition mock_answer :: "externals \<Rightarrow> request \<Rightarrow> drive_state \<Rightarrow> (perm_error + response) \<times> drive_state" where
  "mock_answer ext r st =
     (let fid = mock_path_id (rq_path r) in
      if rq_method r = ''GET'' \<and> rq_path r = ''/drive/v3/files'' then (mock_list ext r st, st)
      else if rq_method r = ''GET'' then
        ((case btm_get (ds_files st) fid of
            None \<Rightarrow> reply ext 404 not_found_json
          | Some file \<Rightarrow>
              if btm_get (rq_query r) ''alt'' = Some ''media'' \<or> ends_with ''/export'' (rq_path r)
              then Ok \<lparr>rs_status = 200, rs_content_type = ''text/plain'',
                       rs_body = ''Demo content of '' @ fm_name file\<rparr>
              else reply ext 200 (file_json file)), st)
      else if rq_method r = ''POST'' \<and> rq_path r = ''/drive/v3/files'' then
        (case parse_json ext (rq_body r) of
           Err e \<Rightarrow> (Err e, st)
         | Ok body \<Rightarrow>
             (case string_list (jindex body ''parents'') of
                None \<Rightarrow> (Err Upstream, st)
              | Some parents \<Rightarrow>
                  (let file = \<lparr>fm_id = ''created-'' @ nat_str (length (ds_requests st)),
                              fm_name = str_or_empty (jindex body ''name''),
                              fm_mime_type = str_or_empty (jindex body ''mimeType''),
                              fm_parents = parents, fm_trashed = False\<rparr>
                   in (reply ext 200 (file_json file), put_file file st))))
      else if rq_method r = ''PATCH'' then
        (case parse_json ext (rq_body r) of
           Err e \<Rightarrow> (Err e, st)
         | Ok body \<Rightarrow>
             (case btm_get (ds_files st) fid of
                None \<Rightarrow> (reply ext 404 not_found_json, st)
              | Some old \<Rightarrow>
                  (let file = old\<lparr>fm_name := str_or_empty (jindex body ''name'')\<rparr>
                   in (reply ext 200 (file_json file),
                       st\<lparr>ds_files := btm_insert fid file (ds_files st)\<rparr>))))
      else (reply ext 400 (JObject [(''error'', JString ''unsupported mock operation'')]), st))"

definition mock_send :: "externals \<Rightarrow> drive_state sender" where
  "mock_send ext r st =
     (let (answer, st') = mock_answer ext r (st\<lparr>ds_requests := ds_requests st @ [r]\<rparr>)
      in (Done answer, st'))"

definition mock_transport :: "externals \<Rightarrow> drive_state transport" where
  "mock_transport ext =
     \<lparr>tr_send = mock_send ext, tr_send_verified = default_send_verified (mock_send ext)\<rparr>"

section \<open>The contracts hold\<close>

text \<open>Planning only rewrites the query.\<close>

definition same_but_query :: "request \<Rightarrow> request \<Rightarrow> bool" where
  "same_but_query r r' \<longleftrightarrow>
     rq_method r' = rq_method r \<and> rq_path r' = rq_path r \<and> rq_body r' = rq_body r"

lemma same_but_query_simps [simp]:
  "same_but_query r r"
  "same_but_query r (set_query k v r') = same_but_query r r'"
  "same_but_query r (drop_query k r') = same_but_query r r'"
  by (simp_all add: same_but_query_def set_query_def drop_query_def)

lemma plan_list_frame: "plan_list root r = Ok (oper, rcs, r') \<Longrightarrow> same_but_query r r'"
  by (auto simp: plan_list_def split: if_split_asm option.split_asm)

lemma plan_get_frame: "plan_get fid r = Ok (oper, rcs, r') \<Longrightarrow> same_but_query r r'"
  by (cases "only_query r [''fields'', ''alt'', ''supportsAllDrives'']";
      cases "checked_id fid False True"; cases "btm_get (rq_query r) ''alt''")
    (auto simp: plan_get_def split: if_split_asm)

lemma plan_export_frame: "plan_export fid r = Ok (oper, rcs, r') \<Longrightarrow> same_but_query r r'"
  by (auto simp: plan_export_def split: if_split_asm)

lemma plan_rename_frame: "plan_rename ext fid r = Ok (oper, rcs, r') \<Longrightarrow> same_but_query r r'"
  by (auto simp: plan_rename_def)

lemma plan_create_frame:
  "plan_create ext r = Ok (oper, rcs, r') \<Longrightarrow> same_but_query r r'"
  by (auto simp: plan_create_def split: if_split_asm option.split_asm list.split_asm)

lemmas plan_frames =
  plan_list_frame plan_get_frame plan_export_frame plan_rename_frame plan_create_frame

lemma drive_route_frame:
  "drive_route ext root r = Ok (oper, rcs, r') \<Longrightarrow> same_but_query r r'"
  unfolding drive_route_def Let_def
  by (auto dest: plan_frames split: if_split_asm)

lemma drive_plan_frame:
  assumes "drive_plan ext p r = Ok pl"
  shows "rq_method (pl_request pl) = rq_method r" "rq_path (pl_request pl) = rq_path r"
    "rq_body (pl_request pl) = rq_body r"
  using assms
  by (auto simp: drive_plan_def set_query_def same_but_query_def dest!: drive_route_frame
      split: resource_boundary.split_asm if_split_asm)

lemma google_plan_OkE:
  assumes "google_plan ext p r = Ok pl"
  obtains ops op where "path_is_canonical (rq_path r) False" "google_operations p = Ok ops"
    "filter (\<lambda>op. operation_matches op r) ops = [op]" "operation_check_inputs ext op r = Ok ()"
    "pl = \<lparr>pl_operation = op_id op, pl_origin = Some (op_origin op),
           pl_request = r\<lparr>rq_content_type :=
             (if rq_body r \<noteq> [] then Some ''application/json'' else None)\<rparr>,
           pl_resources = []\<rparr>"
proof -
  from assms have can: "path_is_canonical (rq_path r) False"
    by (simp add: google_plan_def split: if_split_asm)
  with assms obtain ops where ops: "google_operations p = Ok ops"
    by (cases "google_operations p") (auto simp: google_plan_def)
  show thesis
  proof (cases "filter (\<lambda>op. operation_matches op r) ops")
    case Nil
    with assms can ops show thesis by (simp add: google_plan_def)
  next
    case (Cons op rest)
    with assms can ops have "rest = []" "operation_check_inputs ext op r = Ok ()"
      "pl = \<lparr>pl_operation = op_id op, pl_origin = Some (op_origin op),
           pl_request = r\<lparr>rq_content_type :=
             (if rq_body r \<noteq> [] then Some ''application/json'' else None)\<rparr>,
           pl_resources = []\<rparr>"
      by (simp_all add: google_plan_def split: if_split_asm)
    with can ops Cons show thesis using that by blast
  qed
qed

lemma google_plan_frame:
  assumes "google_plan ext p r = Ok pl"
  shows "rq_method (pl_request pl) = rq_method r" "rq_path (pl_request pl) = rq_path r"
    "rq_body (pl_request pl) = rq_body r"
  using assms by (auto elim!: google_plan_OkE)

text \<open>A fetch of metadata is a GET, so the walk keeps whatever every GET keeps.\<close>

lemma metadata_request_get [simp]: "rq_method (metadata_request c) = ''GET''"
  by (simp add: metadata_request_def set_query_def request_get_def)

lemma lookup_metadata_keeps:
  assumes "\<And>r t. rq_method r = ''GET'' \<Longrightarrow> I t \<Longrightarrow> I (snd (send r t))" "I s"
  shows "I (snd (lookup_metadata ext send c cache s))"
proof -
  have "I (snd (send (metadata_request c) s))" by (rule assms(1) [OF metadata_request_get assms(2)])
  with assms(2) show ?thesis
    by (cases "send (metadata_request c) s")
      (auto simp: lookup_metadata_def split: option.split awaited.split)
qed

lemma drive_walk_keeps:
  assumes get: "\<And>r t. rq_method r = ''GET'' \<Longrightarrow> I t \<Longrightarrow> I (snd (send r t))"
  shows "I s \<Longrightarrow> I (snd (drive_walk ext send root incl oper rc n d c vis cache s))"
proof (induction n arbitrary: d c vis cache s)
  case (Suc n)
  obtain a s' where look: "lookup_metadata ext send c cache s = (a, s')" by fastforce
  have "I (snd (lookup_metadata ext send c cache s))"
    by (rule lookup_metadata_keeps [where I = I]) (use get Suc.prems in auto)
  with look have "I s'" by simp
  show ?case
  proof (cases "c \<notin> set vis \<and> (\<exists>fm cache'. a = Done (Ok (fm, cache')))")
    case True
    then obtain fm cache' where a: "a = Done (Ok (fm, cache'))" by blast
    show ?thesis
    proof (cases "ancestry_check root oper rc d c fm")
      case (Inr u)
      have IH: "I (snd (drive_walk ext send root incl' oper rc n d' c' vis' cache' s'))"
        if "incl' = incl" for incl' d' c' vis'
        unfolding that by (rule Suc.IH) (fact \<open>I s'\<close>)
      with a look True Inr \<open>I s'\<close> show ?thesis by (auto split: list.split)
    qed (use a look True \<open>I s'\<close> in simp)
  next
    case False
    with look \<open>I s'\<close> Suc.prems show ?thesis
      by (cases a rule: awaited.exhaust; cases "c \<in> set vis")
        (auto simp: await_def split: sum.split)
  qed
qed simp

lemma verify_resources_keeps:
  assumes get: "\<And>r t. rq_method r = ''GET'' \<Longrightarrow> I t \<Longrightarrow> I (snd (send r t))"
  shows "I s \<Longrightarrow> I (snd (verify_resources ext send root incl oper rcs cache s))"
proof (induction rcs arbitrary: cache s)
  case (Cons rc rcs)
  obtain a s' where w: "drive_walk ext send root incl oper rc 32 0 (rc_id rc) [] cache s = (a, s')"
    by fastforce
  have "I (snd (drive_walk ext send root incl oper rc 32 0 (rc_id rc) [] cache s))"
    by (rule drive_walk_keeps [where I = I]) (use get Cons.prems in auto)
  with w have "I s'" by simp
  have IH: "I (snd (verify_resources ext send root incl oper rcs cache' s'))" for cache'
    by (rule Cons.IH) (fact \<open>I s'\<close>)
  show ?case
    using \<open>I s'\<close> Cons.prems IH
    by (simp add: w await_def split: awaited.split sum.split)
qed simp

lemma sanitize_frame:
  "drive_sanitize_response ext pl resp = Ok resp' \<Longrightarrow> rs_status resp' = rs_status resp"
  "google_sanitize_response ext pl resp = Ok resp' \<Longrightarrow> rs_status resp' = rs_status resp"
  by (auto simp: drive_sanitize_response_def google_sanitize_response_def split: if_splits)

interpretation drive: adapter_contract "drive_adapter ext" for ext
proof
  fix I :: "'s \<Rightarrow> bool" and send :: "'s sender" and s p pl
  assume get: "\<And>r t. rq_method r = ''GET'' \<Longrightarrow> I t \<Longrightarrow> I (snd (send r t))" and "I s"
  then show "I (snd (pa_verify (drive_adapter ext) p pl send s))"
    using verify_resources_keeps [where I = I, OF get]
    by (auto simp: drive_adapter_def drive_verify_def split: resource_boundary.splits)
qed (auto simp: drive_adapter_def dest: drive_plan_frame sanitize_frame)

interpretation google: adapter_contract "google_adapter ext" for ext
  by unfold_locales
    (auto simp: google_adapter_def google_verify_def dest: google_plan_frame sanitize_frame)

lemma mock_send_read_keeps:
  "\<not> mutating r \<Longrightarrow> ds_files (snd (mock_send ext r st)) = ds_files st"
  by (auto simp: mock_send_def mock_answer_def mutating_def Let_def split: prod.splits)

interpretation mock: transport_contract "mock_transport ext" ds_files for ext
  by unfold_locales
    (auto simp: mock_transport_def default_send_verified_def default_send_to_def mock_send_read_keeps)

lemma builtins_keep:
  assumes "bind (builtins ext env_of) p = Ok hooks"
  shows "hooks_keep store hooks"
proof -
  have "\<exists>h \<in> set (builtins ext env_of). bh_handler b = snd h"
    if "bind_hooks (builtins ext env_of) allowed names ds = Ok hs" "b \<in> set hs" for allowed names ds hs b
    using that
    by (induction ds arbitrary: names hs)
      (force split: if_split_asm option.split_asm dest!: map_of_SomeD)+
  with assms show ?thesis
    unfolding bind_def hooks_keep_def
    by (fastforce simp: builtins_def split: if_splits)
qed

end
