(* ===== verification/Perm_Confinement.thy ===== *)
theory Perm_Confinement
  imports Perm_Mock
begin

text \<open>
  What the Drive adapter's verification establishes, over any transport: each resource of
  the plan has a path of folders to the boundary folder, every step of it answered by the
  transport. From it, confinement: whatever a governed call changes on the in-memory
  Drive lies inside the boundary.
\<close>

section \<open>Paths to the boundary\<close>

fun ancestry :: "string \<Rightarrow> (string \<times> file_metadata) list \<Rightarrow> bool" where
  "ancestry root [] = False"
| "ancestry root [(c, f)] = (c = root)"
| "ancestry root ((c, f) # (p, g) # rest) =
     (c \<noteq> root \<and> (case fm_parents f of [] \<Rightarrow> False | q # _ \<Rightarrow> q = p) \<and> ancestry root ((p, g) # rest))"

text \<open>
  A path from a resource to the boundary folder: at most 32 files (2 without descendants),
  no file twice, none trashed or a shortcut, and every ancestor a folder.
\<close>

definition boundary_path :: "string \<Rightarrow> bool \<Rightarrow> string \<Rightarrow> (string \<times> file_metadata) list \<Rightarrow> bool" where
  "boundary_path root incl fid path \<longleftrightarrow>
     path \<noteq> [] \<and> fst (hd path) = fid \<and> ancestry root path
     \<and> distinct (map fst path) \<and> length path \<le> 32 \<and> (incl \<or> length path \<le> 2)
     \<and> (\<forall>(c, f) \<in> set path. \<not> fm_trashed f \<and> fm_mime_type f \<noteq> SHORTCUT)
     \<and> (\<forall>(c, f) \<in> set (tl path). fm_mime_type f = FOLDER)"

lemma ancestry_Cons:
  "path \<noteq> [] \<Longrightarrow> fst (hd path) = p \<Longrightarrow>
   ancestry root ((c, f) # path) \<longleftrightarrow>
     c \<noteq> root \<and> (case fm_parents f of [] \<Rightarrow> False | q # _ \<Rightarrow> q = p) \<and> ancestry root path"
  by (cases path) (auto split: list.split)

lemma ancestry_check_OkD:
  assumes "ancestry_check root oper rc d c f = Ok ()"
  shows "\<not> fm_trashed f" "fm_mime_type f \<noteq> SHORTCUT" "d > 0 \<Longrightarrow> fm_mime_type f = FOLDER"
    "rc_must_be_folder rc \<Longrightarrow> fm_mime_type f = FOLDER" "c = root \<Longrightarrow> fm_mime_type f = FOLDER"
  using assms by (auto simp: ancestry_check_def split: if_split_asm)

section \<open>The walk finds such a path\<close>

text \<open>
  \<open>good c f\<close>: the transport may answer \<open>f\<close> for the valid id \<open>c\<close> in a state that satisfies
  \<open>I\<close>, and every GET keeps \<open>I\<close>.
\<close>

definition answers_good ::
  "externals \<Rightarrow> 's sender \<Rightarrow> ('s \<Rightarrow> bool) \<Rightarrow> (string \<Rightarrow> file_metadata \<Rightarrow> bool) \<Rightarrow> bool" where
  "answers_good ext send I good \<longleftrightarrow>
     (\<forall>c t ans t' f. I t \<longrightarrow> valid_id c \<longrightarrow> send (metadata_request c) t = (Done ans, t') \<longrightarrow>
        metadata_answer ext c ans = Ok f \<longrightarrow> good c f)
     \<and> (\<forall>c f. good c f \<longrightarrow> list_all valid_id (fm_parents f))
     \<and> (\<forall>r t. rq_method r = ''GET'' \<longrightarrow> I t \<longrightarrow> I (snd (send r t)))"

lemma answers_goodD:
  assumes "answers_good ext send I good"
  shows "I t \<Longrightarrow> valid_id c \<Longrightarrow> send (metadata_request c) t = (Done ans, t') \<Longrightarrow>
      metadata_answer ext c ans = Ok f \<Longrightarrow> good c f"
    and "rq_method r = ''GET'' \<Longrightarrow> I t \<Longrightarrow> I (snd (send r t))"
    and "good c f \<Longrightarrow> list_all valid_id (fm_parents f)"
  using assms unfolding answers_good_def by blast+

lemma lookup_metadata_good:
  assumes send: "answers_good ext send I good"
    and look: "lookup_metadata ext send c cache s = (Done (Ok (f, cache')), s')"
    and "I s" and "valid_id c" and cache: "\<forall>(c, f) \<in> set cache. good c f"
  shows "good c f \<and> (\<forall>(c, f) \<in> set cache'. good c f)"
proof (cases "map_of cache c")
  case None
  with look obtain ans where "send (metadata_request c) s = (Done ans, s')"
    "metadata_answer ext c ans = Ok f" "cache' = (c, f) # cache"
    by (auto simp: lookup_metadata_def split: prod.split_asm awaited.split_asm)
  with answers_goodD(1) [OF send \<open>I s\<close> \<open>valid_id c\<close>] cache show ?thesis by auto
next
  case (Some g)
  with look cache show ?thesis by (auto simp: lookup_metadata_def dest: map_of_SomeD)
qed

text \<open>What a walk that starts at depth \<open>d\<close> from \<open>c\<close> and finds the boundary has passed.\<close>

definition walked ::
  "string \<Rightarrow> bool \<Rightarrow> string \<Rightarrow> resource_check \<Rightarrow> nat \<Rightarrow> nat \<Rightarrow> string list \<Rightarrow> string
   \<Rightarrow> (string \<Rightarrow> file_metadata \<Rightarrow> bool) \<Rightarrow> (string \<times> file_metadata) list \<Rightarrow> bool" where
  "walked root incl oper rc n d vis c good path \<longleftrightarrow>
     path \<noteq> [] \<and> fst (hd path) = c \<and> ancestry root path \<and> length path \<le> n
     \<and> (incl \<or> length path \<le> 1 \<or> d + length path \<le> 2)
     \<and> distinct (map fst path) \<and> set (map fst path) \<inter> set vis = {}
     \<and> (\<forall>(c, f) \<in> set path. good c f \<and> \<not> fm_trashed f \<and> fm_mime_type f \<noteq> SHORTCUT)
     \<and> (\<forall>(c, f) \<in> set (tl path). fm_mime_type f = FOLDER)
     \<and> (d > 0 \<or> rc_must_be_folder rc \<longrightarrow> fm_mime_type (snd (hd path)) = FOLDER)"

lemma drive_walk_sound:
  assumes send: "answers_good ext send I good"
  shows "drive_walk ext send root incl oper rc n d c vis cache s = (Done (Ok (found, cache')), s') \<Longrightarrow>
    I s \<Longrightarrow> valid_id c \<Longrightarrow> \<forall>(c, f) \<in> set cache. good c f \<Longrightarrow>
    (\<forall>(c, f) \<in> set cache'. good c f) \<and> (found \<longrightarrow> (\<exists>path. walked root incl oper rc n d vis c good path))"
proof (induction n arbitrary: d c vis cache s)
  case (Suc n)
  from Suc.prems(1) have new: "c \<notin> set vis" by (auto split: if_split_asm)
  obtain f cache1 s1
    where look: "lookup_metadata ext send c cache s = (Done (Ok (f, cache1)), s1)"
    using Suc.prems(1) new by (auto elim!: await_OkE)
  from lookup_metadata_good [OF send look Suc.prems(2-4)]
  have good: "good c f" "\<forall>(c, f) \<in> set cache1. good c f" by blast+
  have "I (snd (lookup_metadata ext send c cache s))"
    by (rule lookup_metadata_keeps [where I = I]) (use answers_goodD(2) [OF send] Suc.prems in auto)
  with look have I1: "I s1" by simp
  from Suc.prems(1) new look have chk: "ancestry_check root oper rc d c f = Ok ()"
    by (simp split: sum.split_asm)
  note ok = ancestry_check_OkD [OF chk]
  show ?case
  proof (cases "c = root")
    case True
    with Suc.prems(1) new look chk have "found" "cache' = cache1" by simp_all
    moreover have "walked root incl oper rc (Suc n) d vis c good [(c, f)]"
      using True ok good new by (auto simp: walked_def)
    ultimately show ?thesis using good by blast
  next
    case False
    show ?thesis
    proof (cases "(\<not> incl \<and> d \<ge> 1) \<or> fm_parents f = []")
      case True
      with False Suc.prems(1) new look chk good show ?thesis
        by (auto split: if_split_asm list.split_asm)
    next
      case deeper: False
      then obtain p ps where ps: "fm_parents f = p # ps" by (cases "fm_parents f") auto
      with deeper False Suc.prems(1) new look chk
      have rec: "drive_walk ext send root incl oper rc n (d + 1) p (c # vis) cache1 s1
          = (Done (Ok (found, cache')), s')"
        by (auto split: if_split_asm)
      have "valid_id p" using answers_goodD(3) [OF send good(1)] ps by simp
      from Suc.IH [OF rec I1 this good(2)]
      have rest: "\<forall>(c, f) \<in> set cache'. good c f"
        "found \<longrightarrow> (\<exists>path. walked root incl oper rc n (d + 1) (c # vis) p good path)" by blast+
      have "walked root incl oper rc (Suc n) d vis c good ((c, f) # path)"
        if w: "walked root incl oper rc n (d + 1) (c # vis) p good path" for path
      proof -
        from w have "path \<noteq> []" "fst (hd path) = p" by (auto simp: walked_def)
        with w False ps have "ancestry root ((c, f) # path)"
          by (subst ancestry_Cons) (auto simp: walked_def)
        moreover from w \<open>path \<noteq> []\<close> have "\<forall>(c, f) \<in> set path. fm_mime_type f = FOLDER"
          by (cases path) (auto simp: walked_def)
        moreover from w deeper have "incl \<or> d + length ((c, f) # path) \<le> 2"
          by (cases path) (auto simp: walked_def)
        ultimately show ?thesis
          using w ok good new by (auto simp: walked_def)
      qed
      with rest show ?thesis by blast
    qed
  qed
qed simp

lemma walked_boundary_path:
  "walked root incl oper rc 32 0 [] c good path \<Longrightarrow> boundary_path root incl c path"
  by (auto simp: walked_def boundary_path_def)

lemma verify_resources_sound:
  assumes send: "answers_good ext send I good"
  shows "verify_resources ext send root incl oper rcs cache s = (Done (Ok u), s') \<Longrightarrow>
    I s \<Longrightarrow> \<forall>(c, f) \<in> set cache. good c f \<Longrightarrow> \<forall>rc \<in> set rcs. valid_id (rc_id rc) \<Longrightarrow> rc \<in> set rcs \<Longrightarrow>
    (\<exists>path. boundary_path root incl (rc_id rc) path \<and> (\<forall>(c, f) \<in> set path. good c f)
       \<and> (rc_must_be_folder rc \<longrightarrow> fm_mime_type (snd (hd path)) = FOLDER))
    \<and> (rc_id rc = root \<longrightarrow> rc_allow_root rc) \<and> (rc_must_be_folder rc \<and> \<not> incl \<longrightarrow> rc_id rc = root)"
proof (induction rcs arbitrary: cache s)
  case (Cons x rcs)
  from Cons.prems(1) have pre: "\<not> (rc_must_be_folder x \<and> \<not> incl \<and> rc_id x \<noteq> root)"
    "\<not> (rc_id x = root \<and> \<not> rc_allow_root x)"
    by (auto split: if_split_asm)
  obtain found cache1 s1
    where w: "drive_walk ext send root incl oper x 32 0 (rc_id x) [] cache s
        = (Done (Ok (found, cache1)), s1)"
      and rest: "found" "verify_resources ext send root incl oper rcs cache1 s1 = (Done (Ok u), s')"
    using Cons.prems(1) pre by (auto elim!: await_OkE split: if_split_asm)
  have "valid_id (rc_id x)" using Cons.prems(4) by simp
  from drive_walk_sound [OF send w Cons.prems(2) this Cons.prems(3)] rest(1)
  obtain path where cache1: "\<forall>(c, f) \<in> set cache1. good c f"
    and path: "walked root incl oper x 32 0 [] (rc_id x) good path" by blast
  have "I (snd (drive_walk ext send root incl oper x 32 0 (rc_id x) [] cache s))"
    by (rule drive_walk_keeps [where I = I]) (use answers_goodD(2) [OF send] Cons.prems in auto)
  with w have "I s1" by simp
  show ?case
  proof (cases "rc = x")
    case True
    have "boundary_path root incl (rc_id x) path \<and> (\<forall>(c, f) \<in> set path. good c f)
       \<and> (rc_must_be_folder x \<longrightarrow> fm_mime_type (snd (hd path)) = FOLDER)"
      using path walked_boundary_path [OF path] by (auto simp: walked_def)
    with True pre show ?thesis by blast
  next
    case False
    with Cons.prems(5) have "rc \<in> set rcs" by simp
    with Cons.IH [OF rest(2) \<open>I s1\<close> cache1] Cons.prems(4) show ?thesis by simp
  qed
qed simp

section \<open>What a plan of the Drive adapter names\<close>

lemma split_on_files_route: "split_on CHR ''/'' path = files_route \<longleftrightarrow> path = ''/drive/v3/files''"
proof
  assume "split_on CHR ''/'' path = files_route"
  then have "join ''/'' (split_on CHR ''/'' path) = join ''/'' files_route" by simp
  then show "path = ''/drive/v3/files''" by (simp add: files_route_def)
qed (simp add: files_route_def)

lemma split_on_file_route:
  assumes "length (split_on CHR ''/'' path) = 5" "take 4 (split_on CHR ''/'' path) = files_route"
  shows "path = ''/drive/v3/files/'' @ split_on CHR ''/'' path ! 4"
proof -
  let ?s = "split_on CHR ''/'' path"
  from assms(1) have "?s = take 4 ?s @ [?s ! 4]"
    by (metis Suc_eq_numeral lessI pred_numeral_simps(2) semiring_norm(26) take_Suc_conv_app_nth
        take_all_iff order_refl eval_nat_numeral(3) numeral_eq_Suc BitM.simps(2) pred_numeral_def)
  with assms(2) have "?s = files_route @ [?s ! 4]" by simp
  then have "join ''/'' ?s = join ''/'' (files_route @ [?s ! 4])" by simp
  then show ?thesis by (simp add: files_route_def)
qed

end
