(* ===== verification/Reference_Codec.thy ===== *)
theory Reference_Codec
  imports Json
begin

text \<open>
  An executable instance of the external functions that has the behaviour the properties
  assume of them, for the properties' instances: a self-delimiting text for JSON values with
  its reader, lookup of one pointer token, substring search and identity URL decoding.
\<close>

section \<open>The text of a value\<close>

definition netstring :: "string \<Rightarrow> string" where
  "netstring s = nat_str (length s) @ CHR '':'' # s"

fun ref_text :: "json \<Rightarrow> string"
  and ref_text_list :: "json list \<Rightarrow> string"
  and ref_text_obj :: "(string \<times> json) list \<Rightarrow> string" where
  "ref_text JNull = ''n''"
| "ref_text (JBool b) = (if b then ''t'' else ''f'')"
| "ref_text (JNumber n) = (case n of
     PosInt k \<Rightarrow> CHR ''+'' # netstring (nat_str k)
   | NegInt i \<Rightarrow> CHR ''-'' # netstring (nat_str (nat (- i)))
   | Float t \<Rightarrow> CHR ''.'' # netstring t)"
| "ref_text (JString s) = CHR ''s'' # netstring s"
| "ref_text (JArray xs) = CHR ''['' # ref_text_list xs"
| "ref_text (JObject es) = CHR ''{'' # ref_text_obj es"
| "ref_text_list [] = '']''"
| "ref_text_list (x # xs) = CHR '','' # ref_text x @ ref_text_list xs"
| "ref_text_obj [] = ''}''"
| "ref_text_obj ((k, v) # es) = CHR '';'' # netstring k @ ref_text v @ ref_text_obj es"

section \<open>The reader\<close>

definition read_netstring :: "string \<Rightarrow> (string \<times> string) option" where
  "read_netstring s = (case split_once CHR '':'' s of
     None \<Rightarrow> None
   | Some (n, rest) \<Rightarrow> Some (take (digits_val n) rest, drop (digits_val n) rest))"

fun ref_read :: "nat \<Rightarrow> string \<Rightarrow> (raw \<times> string) option"
  and ref_read_list :: "nat \<Rightarrow> string \<Rightarrow> (raw list \<times> string) option"
  and ref_read_obj :: "nat \<Rightarrow> string \<Rightarrow> ((string \<times> raw) list \<times> string) option" where
  "ref_read 0 s = None"
| "ref_read (Suc n) s = (case s of [] \<Rightarrow> None | c # r \<Rightarrow>
     if c = CHR ''n'' then Some (RUnit, r)
     else if c = CHR ''t'' then Some (RBool True, r)
     else if c = CHR ''f'' then Some (RBool False, r)
     else if c = CHR ''['' then map_option (\<lambda>(xs, t). (RSeq xs, t)) (ref_read_list n r)
     else if c = CHR ''{'' then map_option (\<lambda>(es, t). (RMap es, t)) (ref_read_obj n r)
     else (case read_netstring r of None \<Rightarrow> None | Some (x, t) \<Rightarrow>
       if c = CHR ''+'' then Some (RU64 (digits_val x), t)
       else if c = CHR ''-'' then Some (RI64 (- int (digits_val x)), t)
       else if c = CHR ''.'' then Some (RF64 (Some x), t)
       else if c = CHR ''s'' then Some (RStr x, t)
       else None))"
| "ref_read_list 0 s = None"
| "ref_read_list (Suc n) s = (case s of [] \<Rightarrow> None | c # r \<Rightarrow>
     if c = CHR '']'' then Some ([], r)
     else (case ref_read n r of None \<Rightarrow> None | Some (x, t) \<Rightarrow>
       map_option (\<lambda>(xs, u). (x # xs, u)) (ref_read_list n t)))"
| "ref_read_obj 0 s = None"
| "ref_read_obj (Suc n) s = (case s of [] \<Rightarrow> None | c # r \<Rightarrow>
     if c = CHR ''}'' then Some ([], r)
     else (case read_netstring r of None \<Rightarrow> None | Some (k, t) \<Rightarrow>
       (case ref_read n t of None \<Rightarrow> None | Some (x, u) \<Rightarrow>
         map_option (\<lambda>(es, w). ((k, x) # es, w)) (ref_read_obj n u))))"

lemma read_netstring [simp]: "read_netstring (netstring s @ r) = Some (s, r)"
proof -
  have "CHR '':'' \<notin> set (nat_str (length s))"
    by (rule all_digits_notin) (simp_all add: is_ascii_digit_def byte_def)
  then show ?thesis by (simp add: read_netstring_def netstring_def)
qed

lemma ref_read_text:
  "json_wf v \<Longrightarrow> length (ref_text v) \<le> n \<Longrightarrow> ref_read n (ref_text v @ r) = Some (raw_of v, r)"
  "json_wf_list xs \<Longrightarrow> length (ref_text_list xs) \<le> n \<Longrightarrow>
     ref_read_list n (ref_text_list xs @ r) = Some (raw_of_list xs, r)"
  "json_wf_obj es \<Longrightarrow> length (ref_text_obj es) \<le> n \<Longrightarrow>
     ref_read_obj n (ref_text_obj es @ r) = Some (raw_of_obj es, r)"
proof (induction v and xs and es arbitrary: n r and n r and n r
    rule: ref_text_ref_text_list_ref_text_obj.induct)
  case (3 k)
  then show ?case by (cases n) (auto split: json_number.splits)
next
  case (8 x xs)
  then show ?case by (cases n) auto
next
  case (10 k v es)
  then show ?case by (cases n) auto
qed (case_tac n; auto split: if_splits; fail)+

section \<open>The instance\<close>

definition ref_to_vec :: "json \<Rightarrow> string" where
  "ref_to_vec v = ref_text v"

definition ref_from_slice :: "string \<Rightarrow> raw option" where
  "ref_from_slice s = (case ref_read (length s) s of Some (x, []) \<Rightarrow> Some x | _ \<Rightarrow> None)"

definition ref_memmem_find :: "string \<Rightarrow> string \<Rightarrow> nat option" where
  "ref_memmem_find hay needle = (if contains_str needle hay then Some 0 else None)"

definition ref_externals :: externals where
  "ref_externals = \<lparr>from_slice = ref_from_slice, to_vec = ref_to_vec,
     pointer = (\<lambda>v p. if p = [] then Some v else jget v (tl p)),
     url_decode = Some, parse_url = (\<lambda>_. None), memmem_find = ref_memmem_find\<rparr>"

lemma reads_back_ref: "reads_back ref_externals"
  using ref_read_text(1) [where r = "[]"]
  by (auto simp: reads_back_def ref_externals_def ref_from_slice_def ref_to_vec_def)

end
