(* ===== verification/Drive_Confinement.thy ===== *)
theory Drive_Confinement
  imports Perm_Confinement Reference_Codec
begin

text \<open>
  Confinement on the in-memory Drive: an engine built with the Drive adapter over the mock
  changes no file outside the policy's folder boundary, whatever request it is given.
\<close>

section \<open>The shape of a plan\<close>

lemma only_query_D: "only_query r allowed = Ok u \<Longrightarrow> set (map fst (rq_query r)) \<subseteq> set allowed"
  by (auto simp: only_query_def list_ex_iff split: if_split_asm)

lemma checked_id_Ok_iff:
  "checked_id fid folder allow_root = Ok rc \<longleftrightarrow>
     valid_id fid \<and> rc = \<lparr>rc_id = fid, rc_must_be_folder = folder, rc_allow_root = allow_root\<rparr>"
  by (auto simp: checked_id_def)

lemma json_body_Ok_D:
  assumes "json_body ext r allowed = Ok body"
  shows "parse_json ext (rq_body r) = Ok body" "\<exists>n. jget body ''name'' = Some (JString n)"
  using assms by (auto simp: json_body_def split: if_split_asm option.split_asm)

lemma drive_write_shape:
  assumes plan: "drive_plan ext p r = Ok pl" and not_get: "rq_method r \<noteq> ''GET''"
  obtains (create) body parent where "rq_method r = ''POST''" "rq_path r = ''/drive/v3/files''"
      "parse_json ext (rq_body r) = Ok body" "jindex body ''parents'' = JArray [JString parent]"
      "jindex body ''mimeType'' = JString FOLDER" "valid_id parent"
      "pl_operation pl = ''drive.folders.create''"
      "pl_resources pl = [\<lparr>rc_id = parent, rc_must_be_folder = True, rc_allow_root = True\<rparr>]"
  | (rename) fid where "rq_method r = ''PATCH''" "rq_path r = ''/drive/v3/files/'' @ fid" "valid_id fid"
      "pl_operation pl = ''drive.files.rename''"
      "pl_resources pl = [\<lparr>rc_id = fid, rc_must_be_folder = False, rc_allow_root = False\<rparr>]"
proof -
  from plan obtain root incl oper rcs r' where "po_resource p = GoogleDriveFolder root incl"
    and route: "drive_route ext root r = Ok (oper, rcs, r')"
    and pl: "pl_operation pl = oper" "pl_resources pl = rcs"
    by (auto simp: drive_plan_def split: resource_boundary.split_asm if_split_asm)
  from route not_get consider
      "rq_method r = ''POST''" "split_on CHR ''/'' (rq_path r) = files_route"
        "plan_create ext r = Ok (oper, rcs, r')"
    | "rq_method r = ''PATCH''" "length (split_on CHR ''/'' (rq_path r)) = 5"
        "take 4 (split_on CHR ''/'' (rq_path r)) = files_route"
        "plan_rename ext (split_on CHR ''/'' (rq_path r) ! 4) r = Ok (oper, rcs, r')"
    by (auto simp: drive_route_def Let_def split: if_split_asm)
  then show thesis
  proof cases
    case 1
    from 1(3) obtain body parent where body: "json_body ext r [''name'', ''mimeType'', ''parents''] = Ok body"
      and "jindex body ''mimeType'' = JString FOLDER" "jindex body ''parents'' = JArray [JString parent]"
        "valid_id parent" "oper = ''drive.folders.create''"
        "rcs = [\<lparr>rc_id = parent, rc_must_be_folder = True, rc_allow_root = True\<rparr>]"
      by (auto simp: plan_create_def checked_id_Ok_iff
          split: if_split_asm option.split_asm list.split_asm)
    moreover have "rq_path r = ''/drive/v3/files''" using 1(2) by (simp only: split_on_files_route)
    ultimately show ?thesis using pl 1(1) json_body_Ok_D(1) [OF body] create by simp
  next
    case 2
    with pl rename split_on_file_route [OF 2(2,3)] show ?thesis
      by (auto simp: plan_rename_def checked_id_Ok_iff)
  qed
qed

section \<open>What the mock answers\<close>

lemma file_json_plain: "json_wf (file_json f)" "json_plain 127 (file_json f)"
  by (simp_all add: file_json_def)

lemma file_metadata_of_file_json [simp]: "file_metadata_of (file_json f) = Some f"
  by (simp add: file_metadata_of_def file_json_def file_metadata_fields_def)

text \<open>The files are keyed by their id, and no id is \<open>export\<close>, which the mock reads as a verb.\<close>

definition store_wf :: "(string, file_metadata) btree_map \<Rightarrow> bool" where
  "store_wf F \<longleftrightarrow> (\<forall>k f. btm_get F k = Some f \<longrightarrow> fm_id f = k) \<and> btm_get F ''export'' = None"

lemma valid_id_no_slash: "valid_id fid \<Longrightarrow> CHR ''/'' \<notin> set fid"
  by (auto simp: valid_id_def list_all_iff is_ascii_alphanumeric_def is_ascii_alphabetic_def
      is_ascii_lowercase_def is_ascii_uppercase_def is_ascii_digit_def byte_def)

lemma mock_path_id_valid: "valid_id fid \<Longrightarrow> mock_path_id (''/drive/v3/files/'' @ fid) = fid"
  by (simp add: mock_path_id_def valid_id_no_slash)

lemma ends_with_export:
  assumes "CHR ''/'' \<notin> set fid" "ends_with ''/export'' (''/drive/v3/files/'' @ fid)"
  shows "fid = ''export''"
proof -
  from assms(2) obtain a where "''/drive/v3/files/'' @ fid = a @ ''/export''"
    by (auto simp: ends_with_iff)
  then have eq: "''/drive/v3/files'' @ CHR ''/'' # fid = a @ CHR ''/'' # ''export''" by simp
  have "rsplit_once CHR ''/'' (route @ CHR ''/'' # fid) = Some (route, fid)" for route
    by (rule rsplit_once_Some_iff [THEN iffD2]) (use assms(1) in simp)
  moreover have "rsplit_once CHR ''/'' (a @ CHR ''/'' # ''export'') = Some (a, ''export'')"
    by (rule rsplit_once_Some_iff [THEN iffD2]) simp
  ultimately show ?thesis by (metis eq option.inject prod.inject)
qed

lemma metadata_request_fields:
  "rq_path (metadata_request c) = ''/drive/v3/files/'' @ c"
  "btm_get (rq_query (metadata_request c)) ''alt'' = None"
  by (simp_all add: metadata_request_def request_get_def set_query_def)

lemma mock_metadata_reply:
  assumes "valid_id c"
  shows "btm_get (ds_files st) c = None \<Longrightarrow>
      fst (mock_answer ext (metadata_request c) st) = reply ext 404 not_found_json"
    and "btm_get (ds_files st) c = Some f \<Longrightarrow> c \<noteq> ''export'' \<Longrightarrow>
      fst (mock_answer ext (metadata_request c) st) = reply ext 200 (file_json f)"
proof -
  have path: "rq_path (metadata_request c) \<noteq> ''/drive/v3/files''"
    "mock_path_id (rq_path (metadata_request c)) = c"
    unfolding metadata_request_fields using mock_path_id_valid [OF assms] by simp_all
  have verb: "\<not> ends_with ''/export'' (rq_path (metadata_request c))" if "c \<noteq> ''export''"
    unfolding metadata_request_fields using that ends_with_export valid_id_no_slash [OF assms] by blast
  note eqs = mock_answer_def path metadata_request_fields(2) Let_def
  show "btm_get (ds_files st) c = None \<Longrightarrow>
      fst (mock_answer ext (metadata_request c) st) = reply ext 404 not_found_json"
    by (simp add: eqs)
  show "btm_get (ds_files st) c = Some f \<Longrightarrow> c \<noteq> ''export'' \<Longrightarrow>
      fst (mock_answer ext (metadata_request c) st) = reply ext 200 (file_json f)"
    by (simp add: eqs verb)
qed

lemma mock_metadata:
  assumes rb: "reads_back ext" and wf: "store_wf (ds_files st)" and "valid_id c"
    and sent: "mock_send ext (metadata_request c) st = (Done ans, st')"
    and ok: "metadata_answer ext c ans = Ok f"
  shows "btm_get (ds_files st) c = Some f" "list_all valid_id (fm_parents f)"
proof -
  from ok show "list_all valid_id (fm_parents f)"
    by (auto simp: metadata_answer_def list_ex_iff list_all_iff
        split: sum.split_asm if_split_asm option.split_asm)
  define st1 where "st1 = st\<lparr>ds_requests := ds_requests st @ [metadata_request c]\<rparr>"
  have files: "ds_files st1 = ds_files st" by (simp add: st1_def)
  from sent have ans: "ans = fst (mock_answer ext (metadata_request c) st1)"
    by (simp add: mock_send_def st1_def split: prod.split_asm)
  show "btm_get (ds_files st) c = Some f"
  proof (cases "btm_get (ds_files st) c")
    case None
    with ans files have "ans = reply ext 404 not_found_json"
      by (simp add: mock_metadata_reply(1) [OF \<open>valid_id c\<close>])
    with ok show ?thesis by (simp add: metadata_answer_def reply_def)
  next
    case (Some g)
    with wf have "c \<noteq> ''export''" by (auto simp: store_wf_def)
    with Some ans files have "ans = reply ext 200 (file_json g)"
      by (simp add: mock_metadata_reply(2) [OF \<open>valid_id c\<close>])
    with ok have "f = g"
      using parse_json_printed [OF rb file_json_plain]
      by (auto simp: metadata_answer_def reply_def split: if_split_asm)
    with Some show ?thesis by simp
  qed
qed

lemma mock_answers_good:
  assumes "reads_back ext" "store_wf F"
  shows "answers_good ext (mock_send ext) (\<lambda>st. ds_files st = F)
           (\<lambda>c f. btm_get F c = Some f \<and> list_all valid_id (fm_parents f))"
  unfolding answers_good_def
  using mock_metadata [OF assms(1)] assms(2)
  by (auto simp: mock_send_read_keeps mutating_def)


section \<open>The engine over the mock\<close>

definition bound_hooks :: "externals \<Rightarrow> ('s \<Rightarrow> hook_env) \<Rightarrow> policy \<Rightarrow> 's bound_hook list" where
  "bound_hooks ext env_of p = (case bind (builtins ext env_of) p of Err _ \<Rightarrow> [] | Ok hooks \<Rightarrow> hooks)"

definition drive_engine :: "externals \<Rightarrow> (drive_state \<Rightarrow> hook_env) \<Rightarrow> policy \<Rightarrow> drive_state engine" where
  "drive_engine ext env_of p =
     \<lparr>en_policy = p, en_adapter = drive_adapter ext, en_transport = mock_transport ext,
      en_hooks = bound_hooks ext env_of p\<rparr>"

lemma bound_hooks_keep: "hooks_keep store (bound_hooks ext env_of p)"
  by (cases "bind (builtins ext env_of) p") (auto simp: bound_hooks_def builtins_keep hooks_keep_def [of _ "[]"])

lemma new_drive_engine:
  "engine_new_with_hooks serialized p (drive_adapter ext) (mock_transport ext) (builtins ext env_of) = Ok e
   \<Longrightarrow> e = drive_engine ext env_of p"
  by (auto simp: engine_new_with_hooks_def drive_engine_def bound_hooks_def
      split: if_split_asm option.split_asm)

interpretation dm: governed_engine "drive_engine ext env_of p" ds_files for ext env_of p
proof -
  have "hooks_keep ds_files (en_hooks (drive_engine ext env_of p))"
    by (simp add: drive_engine_def bound_hooks_keep)
  then show "governed_engine (drive_engine ext env_of p) ds_files"
    by (simp add: governed_engine_def governed_engine_axioms_def drive_engine_def
        drive.adapter_contract_axioms mock.transport_contract_axioms)
qed

text \<open>
  What one governed call may have done to the file \<open>k\<close>: renamed it, below the boundary
  folder, or created it as a folder, in a folder at or below the boundary. \<open>old\<close> are the
  files before the call.
\<close>

definition renamed_inside ::
  "string \<Rightarrow> bool \<Rightarrow> (string, file_metadata) btree_map \<Rightarrow> string \<Rightarrow> file_metadata option \<Rightarrow> bool" where
  "renamed_inside root incl old k new \<longleftrightarrow>
     k \<noteq> root
     \<and> (\<exists>f n. btm_get old k = Some f \<and> new = Some (f\<lparr>fm_name := n\<rparr>))
     \<and> (\<exists>path. boundary_path root incl k path \<and> (\<forall>(c, f) \<in> set path. btm_get old c = Some f))"

definition created_inside ::
  "string \<Rightarrow> bool \<Rightarrow> (string, file_metadata) btree_map \<Rightarrow> string \<Rightarrow> file_metadata option \<Rightarrow> bool" where
  "created_inside root incl old k new \<longleftrightarrow>
     (\<exists>f parent path. new = Some f \<and> fm_id f = k \<and> fm_parents f = [parent] \<and> fm_mime_type f = FOLDER
        \<and> (incl \<or> parent = root) \<and> boundary_path root incl parent path
        \<and> (\<forall>(c, g) \<in> set path. btm_get old c = Some g)
        \<and> fm_mime_type (snd (hd path)) = FOLDER)"

lemma mock_write_effect:
  assumes plan: "drive_plan ext p r = Ok pl" and "mutating r"
    and change: "btm_get (ds_files (snd (snd (default_send_verified (mock_send ext) pl s1)))) k
      \<noteq> btm_get (ds_files s1) k"
  obtains (create) parent f where "pl_operation pl = ''drive.folders.create''" "valid_id parent"
      "pl_resources pl = [\<lparr>rc_id = parent, rc_must_be_folder = True, rc_allow_root = True\<rparr>]"
      "btm_get (ds_files (snd (snd (default_send_verified (mock_send ext) pl s1)))) k = Some f"
      "fm_id f = k" "fm_parents f = [parent]" "fm_mime_type f = FOLDER"
  | (rename) f n where "pl_operation pl = ''drive.files.rename''" "valid_id k"
      "pl_resources pl = [\<lparr>rc_id = k, rc_must_be_folder = False, rc_allow_root = False\<rparr>]"
      "btm_get (ds_files s1) k = Some f"
      "btm_get (ds_files (snd (snd (default_send_verified (mock_send ext) pl s1)))) k
         = Some (f\<lparr>fm_name := n\<rparr>)"
proof -
  define r' where "r' = pl_request pl"
  define st where "st = s1\<lparr>ds_requests := ds_requests s1 @ [r']\<rparr>"
  have files: "ds_files st = ds_files s1" by (simp add: st_def)
  note frame = drive_plan_frame [OF plan, folded r'_def]
  from change have "pl_origin pl = None"
    by (auto simp: default_send_verified_def default_send_to_def split: if_split_asm)
  then have same: "ds_files (snd (snd (default_send_verified (mock_send ext) pl s1)))
      = ds_files (snd (mock_answer ext r' st))"
    by (simp add: default_send_verified_def default_send_to_def mock_send_def r'_def st_def split: prod.split)
  from \<open>mutating r\<close> have "rq_method r \<noteq> ''GET''" by (simp add: mutating_def)
  from plan this show thesis
  proof (cases rule: drive_write_shape)
    case (create body parent)
    then have "string_list (jindex body ''parents'') = Some [parent]"
      by (simp add: string_list_def)
    with create frame obtain fl where "snd (mock_answer ext r' st) = put_file fl st"
      "fm_parents fl = [parent]" "fm_mime_type fl = FOLDER"
      by (simp add: mock_answer_def str_or_empty_def Let_def)
    with create(6-) change files show ?thesis
      unfolding same by (intro that(1)) (auto simp: put_file_def same split: if_split_asm)
  next
    case (rename fid)
    from rename(3) have "mock_path_id (''/drive/v3/files/'' @ fid) = fid" by (rule mock_path_id_valid)
    with rename(1,2) frame have pid: "mock_path_id (rq_path r') = fid" by simp
    from rename frame have "rq_method r' = ''PATCH''" by simp
    with pid change files obtain f n where "k = fid" "btm_get (ds_files s1) k = Some f"
      and "btm_get (ds_files (snd (mock_answer ext r' st))) k = Some (f\<lparr>fm_name := n\<rparr>)"
      unfolding same
      by (auto simp: mock_answer_def Let_def split: sum.split_asm option.split_asm if_split_asm)
    with rename(3-5) show ?thesis unfolding same by (intro that(2)) (auto simp: same)
  qed
qed

text \<open>
  C1. Confinement. On an engine that was built with the Drive adapter and the built-in hooks
  over the in-memory Drive, a call with any request changes a file only if the file is
  strictly inside the policy's boundary folder (a rename), or is a new folder whose only
  parent is the boundary folder or a folder inside it.
\<close>

theorem drive_confinement:
  assumes "reads_back ext" and "store_wf (ds_files s)"
    and "po_resource p = GoogleDriveFolder root incl"
    and "engine_new_with_hooks serialized p (drive_adapter ext) (mock_transport ext) (builtins ext env_of) = Ok e"
    and "btm_get (ds_files (snd (execute ext e permits r s))) k \<noteq> btm_get (ds_files s) k"
  shows "renamed_inside root incl (ds_files s) k (btm_get (ds_files (snd (execute ext e permits r s))) k)
    \<or> created_inside root incl (ds_files s) k (btm_get (ds_files (snd (execute ext e permits r s))) k)"
proof -
  have e: "e = drive_engine ext env_of p" using assms(4) by (rule new_drive_engine)
  from assms(5) have "ds_files (snd (execute ext e permits r s)) \<noteq> ds_files s" by auto
  from dm.change_is_authorized_send [OF this [unfolded e]] obtain pl s1
    where auth: "authorize ext (drive_engine ext env_of p) r s = (Done (Ok pl), s1)"
      and s1: "ds_files s1 = ds_files s" and "mutating r"
      and final: "ds_files (snd (execute ext e permits r s))
        = ds_files (snd (snd (default_send_verified (mock_send ext) pl s1)))"
    by (auto simp: e drive_engine_def mock_transport_def)
  from auth obtain s0 where ap: "authorize_plan ext (drive_engine ext env_of p) r = Ok pl"
    and hooks: "run_hooks (bound_hooks ext env_of p) BeforeExecute p pl None s = (Done (Ok ()), s0)"
    and ver: "drive_verify ext p pl (mock_send ext) s0 = (Done (Ok ()), s1)"
    by (elim authorize_Ok_D) (simp add: drive_engine_def drive_adapter_def mock_transport_def)
  have s0: "ds_files s0 = ds_files s"
    using run_hooks_keep [OF bound_hooks_keep, of ds_files ext env_of p BeforeExecute p pl None s] hooks by simp
  have plan: "drive_plan ext p r = Ok pl"
    using authorize_plan_Ok_D(1) [OF ap] by (simp add: drive_engine_def drive_adapter_def)
  let ?F = "ds_files s"
  have good: "answers_good ext (mock_send ext) (\<lambda>st. ds_files st = ?F)
      (\<lambda>c f. btm_get ?F c = Some f \<and> list_all valid_id (fm_parents f))"
    by (rule mock_answers_good) fact+
  have "verify_resources ext (mock_send ext) root incl (pl_operation pl) (pl_resources pl) [] s0
      = (Done (Ok ()), s1)"
    using ver assms(3) by (simp add: drive_verify_def)
  note sound = verify_resources_sound [OF good this s0]
  from plan \<open>mutating r\<close> assms(5) [unfolded final, folded s1] show ?thesis
  proof (cases rule: mock_write_effect)
    case (create parent f)
    with sound [of "\<lparr>rc_id = parent, rc_must_be_folder = True, rc_allow_root = True\<rparr>"]
    obtain path where "boundary_path root incl parent path"
      "\<forall>(c, g) \<in> set path. btm_get ?F c = Some g" "fm_mime_type (snd (hd path)) = FOLDER"
      "incl \<or> parent = root"
      by auto
    with create have "created_inside root incl ?F k (Some f)"
      unfolding created_inside_def by blast
    with create final s1 show ?thesis by simp
  next
    case (rename f n)
    with sound [of "\<lparr>rc_id = k, rc_must_be_folder = False, rc_allow_root = False\<rparr>"]
    obtain path where "boundary_path root incl k path" "\<forall>(c, g) \<in> set path. btm_get ?F c = Some g"
      "k \<noteq> root"
      by auto
    with rename s1 have "renamed_inside root incl ?F k (Some (f\<lparr>fm_name := n\<rparr>))"
      unfolding renamed_inside_def by auto
    with rename final s1 show ?thesis by simp
  qed
qed

definition quiet_env :: hook_env where
  "quiet_env = \<lparr>he_filesystem = \<lparr>dir_metadata = (\<lambda>_. None), symlink_metadata = (\<lambda>_. NotFound)\<rparr>,
     he_interruption = None\<rparr>"

definition demo_policy :: policy where
  "demo_policy = \<lparr>po_version = 1, po_name = ''demo'', po_provider = ''google_drive'',
     po_resource = GoogleDriveFolder ''client-a'' True,
     po_allowed_operations = [''drive.files.rename'', ''drive.files.list''],
     po_constraints = [], po_hooks = []\<rparr>"

definition demo_engine :: "drive_state engine" where
  "demo_engine = drive_engine ref_externals (\<lambda>_. quiet_env) demo_policy"

definition demo_rename :: request where
  "demo_rename = \<lparr>rq_method = ''PATCH'', rq_path = ''/drive/v3/files/brief'', rq_query = [],
     rq_body = ref_to_vec (JObject [(''name'', JString ''b'')]),
     rq_content_type = Some ''application/json''\<rparr>"

lemma demo_engine_built:
  "engine_new_with_hooks (\<lambda>_. Some 10) demo_policy (drive_adapter ref_externals)
     (mock_transport ref_externals) (builtins ref_externals (\<lambda>_. quiet_env)) = Ok demo_engine"
proof -
  have "is_ok (engine_new_with_hooks (\<lambda>_. Some 10) demo_policy (drive_adapter ref_externals)
     (mock_transport ref_externals) (builtins ref_externals (\<lambda>_. quiet_env)))"
    by code_simp
  then show ?thesis
    unfolding is_ok_iff demo_engine_def using new_drive_engine by fastforce
qed

lemma demo_store_wf: "store_wf (ds_files mock_drive_default)"
proof -
  have all: "list_all (\<lambda>(k, f). fm_id f = k \<and> k \<noteq> ''export'') (ds_files mock_drive_default)"
    by code_simp
  have ids: "fm_id f = k \<and> k \<noteq> ''export''" if "btm_get (ds_files mock_drive_default) k = Some f" for k f
    using btm_get_in_set [OF that] all unfolding list_all_iff by blast
  show ?thesis
    unfolding store_wf_def by (metis ids option.exhaust)
qed

lemma demo_rename_changes:
  "btm_get (ds_files (snd (execute ref_externals demo_engine 32 demo_rename mock_drive_default))) ''brief''
     \<noteq> btm_get (ds_files mock_drive_default) ''brief''"
  by code_simp

lemma drive_confinement_witness:
  "renamed_inside ''client-a'' True (ds_files mock_drive_default) ''brief''
     (btm_get (ds_files (snd (execute ref_externals demo_engine 32 demo_rename mock_drive_default))) ''brief'')
   \<or> created_inside ''client-a'' True (ds_files mock_drive_default) ''brief''
     (btm_get (ds_files (snd (execute ref_externals demo_engine 32 demo_rename mock_drive_default))) ''brief'')"
  by (rule drive_confinement
      [OF reads_back_ref demo_store_wf _ demo_engine_built demo_rename_changes])
    (simp add: demo_policy_def)

end
