(* ===== verification/Engine_Properties.thy ===== *)
theory Engine_Properties
  imports Drive_Confinement
begin

text \<open>
  What one governed call guarantees, over any adapter and transport where the statement says
  so: no dispatch without authorization, honest outcome reports, the constraints and the
  bound on concurrent calls.
\<close>

section \<open>Dispatch\<close>

text \<open>
  C2. Complete mediation. If a call dispatched its primary request, accepted a write or
  returned a response, then the request was planned by the adapter as an operation the
  policy allows, it satisfies every constraint of that operation, every applicable
  before-execute hook allowed it, and the adapter verified its resources. This holds for any
  adapter, transport and hooks.
\<close>

theorem dispatch_is_authorized:
  assumes call: "run_call ext e permits r s = (dispatched, accepted, (out, s'))"
    and "dispatched \<or> accepted \<or> (\<exists>resp. out = Done (Ok resp))"
  shows "permits > 0 \<and> (\<exists>pl s1 s2.
      pa_plan (en_adapter e) (en_policy e) r = Ok pl
    \<and> pl_operation pl \<in> set (po_allowed_operations (en_policy e))
    \<and> (\<forall>cs. btm_get (po_constraints (en_policy e)) (pl_operation pl) = Some cs \<longrightarrow>
          enforce_constraints ext cs (pl_request pl) = Ok ())
    \<and> (\<forall>h \<in> set (en_hooks e). hook_applies (bh_definition h) BeforeExecute pl \<longrightarrow>
          (\<exists>t t'. hh_check (bh_handler h) (en_policy e) pl None (hd_config (bh_definition h)) t
             = (Done (Decided Allow), t')))
    \<and> pa_verify (en_adapter e) (en_policy e) pl (tr_send (en_transport e)) s1 = (Done (Ok ()), s2))"
proof -
  have "permits > 0"
    using assms by (auto simp: run_call_def split: if_split_asm)
  have "dispatched \<or> accepted \<or> (\<exists>x s''. (out, s') = (Done (Ok x), s''))" using assms(2) by auto
  from run_call_dispatched_D [OF call this] obtain pl s2
    where auth: "authorize ext e r s = (Done (Ok pl), s2)" by blast
  from authorize_Ok_D [OF auth] obtain s1 where ap: "authorize_plan ext e r = Ok pl"
    and hooks: "run_hooks (en_hooks e) BeforeExecute (en_policy e) pl None s = (Done (Ok ()), s1)"
    and ver: "pa_verify (en_adapter e) (en_policy e) pl (tr_send (en_transport e)) s1 = (Done (Ok ()), s2)"
    by blast
  note planned = authorize_plan_Ok_D [OF ap]
  have "\<forall>h \<in> set (en_hooks e). hook_applies (bh_definition h) BeforeExecute pl \<longrightarrow>
          (\<exists>t t'. hh_check (bh_handler h) (en_policy e) pl None (hd_config (bh_definition h)) t
             = (Done (Decided Allow), t'))"
    using run_hooks_Ok_D [OF hooks] by blast
  with \<open>permits > 0\<close> planned ver show ?thesis by blast
qed

text \<open>
  C8. Honest outcomes. On the in-memory Drive, when a call answers with any error other than
  \<open>OutcomeUncertain\<close> and \<open>WriteAcceptedResponseWithheld\<close>, no file has changed; and a call
  with a GET or HEAD request changes no file whatever it answers.
\<close>

theorem reported_errors_changed_nothing:
  assumes "execute ext (drive_engine ext env_of p) permits r s = (res, s')"
    and "\<not> mutating r \<or> (\<exists>err. res = Err err \<and> err \<noteq> OutcomeUncertain \<and> err \<noteq> WriteAcceptedResponseWithheld)"
  shows "ds_files s' = ds_files s"
proof -
  obtain d a out where call: "run_call ext (drive_engine ext env_of p) permits r s = (d, a, (out, s'))"
    and res: "res = report d a (mutating r) out"
    using assms(1) by (auto simp: execute_def split: prod.split_asm)
  show ?thesis
  proof (cases "mutating r")
    case False
    then have "ds_files (snd (snd (snd (run_call ext (drive_engine ext env_of p) permits r s)))) = ds_files s"
      by (rule dm.read_call_keeps)
    with call show ?thesis by simp
  next
    case True
    with assms(2) res have "\<not> d"
      by (auto simp: report_def Let_def split: if_split_asm)
    with call have "run_call ext (drive_engine ext env_of p) permits r s = (False, a, (out, s'))" by simp
    then show ?thesis by (rule dm.undispatched_call_keeps)
  qed
qed

definition refused_rename :: request where
  "refused_rename = demo_rename\<lparr>rq_path := ''/drive/v3/files/salary''\<rparr>"

lemma reported_errors_changed_nothing_witness:
  "ds_files (snd (execute ref_externals demo_engine 32 refused_rename mock_drive_default))
     = ds_files mock_drive_default"
proof (rule reported_errors_changed_nothing)
  show "execute ref_externals (drive_engine ref_externals (\<lambda>_. quiet_env) demo_policy) 32
      refused_rename mock_drive_default
    = (fst (execute ref_externals demo_engine 32 refused_rename mock_drive_default),
       snd (execute ref_externals demo_engine 32 refused_rename mock_drive_default))"
    by (simp add: demo_engine_def)
  have "(case fst (execute ref_externals demo_engine 32 refused_rename mock_drive_default) of
      Err err \<Rightarrow> err \<noteq> OutcomeUncertain \<and> err \<noteq> WriteAcceptedResponseWithheld | Ok _ \<Rightarrow> False)"
    by code_simp
  then show "\<not> mutating refused_rename \<or>
    (\<exists>err. fst (execute ref_externals demo_engine 32 refused_rename mock_drive_default) = Err err
       \<and> err \<noteq> OutcomeUncertain \<and> err \<noteq> WriteAcceptedResponseWithheld)"
    by (auto split: sum.split_asm)
qed

lemma dispatch_is_authorized_witness:
  "\<exists>pl. pa_plan (en_adapter demo_engine) (en_policy demo_engine) demo_rename = Ok pl
    \<and> pl_operation pl \<in> set (po_allowed_operations (en_policy demo_engine))"
proof -
  obtain d a out s' where call:
    "run_call ref_externals demo_engine 32 demo_rename mock_drive_default = (d, a, (out, s'))"
    by (metis surj_pair)
  have "fst (run_call ref_externals demo_engine 32 demo_rename mock_drive_default)" by code_simp
  with call have "d" by simp
  with dispatch_is_authorized [OF call] show ?thesis by blast
qed

section \<open>Constraints\<close>

text \<open>
  A request passes the operation's constraints exactly when its body is empty or an
  unambiguous JSON text, and each constrained parameter that is present satisfies its rule
  and each required one is present.
\<close>

theorem enforce_constraints_iff:
  "enforce_constraints ext cs r = Ok () \<longleftrightarrow>
     (\<exists>body. (if rq_body r = [] then body = JNull else parse_json ext (rq_body r) = Ok body)
       \<and> list_all (\<lambda>c. case constraint_value ext r body c of
             None \<Rightarrow> \<not> pc_required c | Some v \<Rightarrow> matches_value (pc_rule c) v) cs)"
  by (cases "rq_body r = []"; cases "parse_json ext (rq_body r)")
    (auto simp: enforce_constraints_def list_all_iff split: option.splits)

section \<open>Permits\<close>

inductive_simps permit_step_iff: "permit_step s t"

text \<open>
  The semaphore bounds concurrency: in every reachable state the free and the running
  permits sum to 32, so at most 32 calls run at once.
\<close>

theorem permits_bound:
  "permit_step\<^sup>*\<^sup>* permits_init s \<Longrightarrow> available s + running s = 32 \<and> running s \<le> 32"
  by (induction rule: rtranclp_induct) (auto simp: permits_init_def permit_step_iff)

lemma permits_bound_witness:
  "available \<lparr>available = 31, running = 1\<rparr> + running \<lparr>available = 31, running = 1\<rparr> = 32
   \<and> running \<lparr>available = 31, running = 1\<rparr> \<le> 32"
proof (rule permits_bound)
  have "permit_step permits_init (permits_init\<lparr>available := available permits_init - 1,
      running := running permits_init + 1\<rparr>)"
    by (rule permit_step.acquire) (simp add: permits_init_def)
  then show "permit_step\<^sup>*\<^sup>* permits_init \<lparr>available = 31, running = 1\<rparr>"
    by (simp add: permits_init_def)
qed

section \<open>The plans of the adapters\<close>

lemma plan_get_op: "plan_get fid r = Ok (oper, rcs, r') \<Longrightarrow> oper \<noteq> ''drive.files.list''"
  by (cases "only_query r [''fields'', ''alt'', ''supportsAllDrives'']";
      cases "checked_id fid False True"; cases "btm_get (rq_query r) ''alt''")
    (auto simp: plan_get_def split: if_split_asm)

lemma plan_export_op: "plan_export fid r = Ok (oper, rcs, r') \<Longrightarrow> oper \<noteq> ''drive.files.list''"
  by (auto simp: plan_export_def split: if_split_asm)

lemma plan_rename_op: "plan_rename ext fid r = Ok (oper, rcs, r') \<Longrightarrow> oper \<noteq> ''drive.files.list''"
  by (auto simp: plan_rename_def)

lemma plan_create_op: "plan_create ext r = Ok (oper, rcs, r') \<Longrightarrow> oper \<noteq> ''drive.files.list''"
  by (auto simp: plan_create_def split: if_split_asm option.split_asm list.split_asm)

lemmas plan_ops = plan_get_op plan_export_op plan_rename_op plan_create_op

text \<open>
  A list request that the Drive adapter plans is rewritten to one bounded page of one
  folder: the query is exactly the membership of one valid folder id with the trash left
  out, the page size is 1 to 100, the field mask is the adapter's, the page token is the
  caller's, nothing else is sent, and that folder is the one resource to verify.
\<close>

theorem drive_list_plan:
  assumes "drive_plan ext p r = Ok pl" and "pl_operation pl = ''drive.files.list''"
  shows "\<exists>parent size. valid_id parent \<and> 1 \<le> size \<and> size \<le> 100
    \<and> pl_resources pl = [\<lparr>rc_id = parent, rc_must_be_folder = True, rc_allow_root = True\<rparr>]
    \<and> (\<forall>k. btm_get (rq_query (pl_request pl)) k =
          (if k = ''pageToken'' then btm_get (rq_query r) k
           else map_of [(''q'', CHR 0x27 # parent @ CHR 0x27 # '' in parents and trashed = false''),
                     (''pageSize'', nat_str size),
                     (''fields'', ''nextPageToken,incompleteSearch,files('' @ VERIFY_FIELDS @ '')''),
                     (''includeItemsFromAllDrives'', ''true''), (''supportsAllDrives'', ''true'')] k))"
proof -
  from assms obtain root incl rcs r' where route: "drive_route ext root r = Ok (''drive.files.list'', rcs, r')"
    and pl: "pl_resources pl = rcs" "pl_request pl = set_query ''supportsAllDrives'' ''true'' r'"
    by (auto simp: drive_plan_def split: resource_boundary.split_asm if_split_asm)
  from route have "plan_list root r = Ok (''drive.files.list'', rcs, r')"
    unfolding drive_route_def Let_def by (auto dest: plan_ops split: if_split_asm)
  then obtain parent size where q: "only_query r [''q'', ''pageSize'', ''pageToken'', ''fields'', ''supportsAllDrives''] = Ok ()"
    and "valid_id parent" "1 \<le> size" "size \<le> 100"
      "rcs = [\<lparr>rc_id = parent, rc_must_be_folder = True, rc_allow_root = True\<rparr>]"
    and r': "r' = set_query ''includeItemsFromAllDrives'' ''true''
           (set_query ''fields'' (''nextPageToken,incompleteSearch,files('' @ VERIFY_FIELDS @ '')'')
             (set_query ''pageSize'' (nat_str size)
               (set_query ''q'' (quoted_parents parent) r)))"
    by (auto simp: plan_list_def checked_id_Ok_iff split: if_split_asm option.split_asm)
  have sent: "btm_get (rq_query (pl_request pl)) k =
      (if k = ''supportsAllDrives'' then Some ''true''
       else if k = ''includeItemsFromAllDrives'' then Some ''true''
       else if k = ''fields'' then Some (''nextPageToken,incompleteSearch,files('' @ VERIFY_FIELDS @ '')'')
       else if k = ''pageSize'' then Some (nat_str size)
       else if k = ''q'' then Some (quoted_parents parent) else btm_get (rq_query r) k)" for k
    by (simp add: pl r' set_query_def cong del: if_weak_cong)
  have none: "btm_get (rq_query r) k = None"
    if "k \<notin> {''q'', ''pageSize'', ''pageToken'', ''fields'', ''supportsAllDrives''}" for k
  proof (rule ccontr)
    assume "btm_get (rq_query r) k \<noteq> None"
    then obtain v where "(k, v) \<in> set (rq_query r)" by (auto dest: btm_get_in_set)
    with only_query_D [OF q] that show False by force
  qed
  have "btm_get (rq_query (pl_request pl)) k = (if k = ''pageToken'' then btm_get (rq_query r) k
           else map_of [(''q'', CHR 0x27 # parent @ CHR 0x27 # '' in parents and trashed = false''),
                     (''pageSize'', nat_str size),
                     (''fields'', ''nextPageToken,incompleteSearch,files('' @ VERIFY_FIELDS @ '')''),
                     (''includeItemsFromAllDrives'', ''true''), (''supportsAllDrives'', ''true'')] k)" for k
    by (cases "k \<in> {''q'', ''pageSize'', ''pageToken'', ''fields'', ''supportsAllDrives''}")
      (auto simp: sent none quoted_parents_def)
  with \<open>valid_id parent\<close> \<open>1 \<le> size\<close> \<open>size \<le> 100\<close> \<open>rcs = _\<close> pl show ?thesis by blast
qed

definition demo_list :: request where
  "demo_list = (request_get ''/drive/v3/files'')\<lparr>rq_query := [(''pageSize'', ''2''), (''pageToken'', ''1'')]\<rparr>"

lemma drive_list_plan_witness:
  "\<exists>pl parent size. drive_plan ref_externals demo_policy demo_list = Ok pl \<and> valid_id parent
    \<and> size \<le> 100 \<and> btm_get (rq_query (pl_request pl)) ''pageSize'' = Some (nat_str size)"
proof -
  have "(case drive_plan ref_externals demo_policy demo_list of Err _ \<Rightarrow> False
     | Ok pl \<Rightarrow> pl_operation pl = ''drive.files.list'')" by code_simp
  then obtain pl where "drive_plan ref_externals demo_policy demo_list = Ok pl"
    "pl_operation pl = ''drive.files.list''" by (auto split: sum.split_asm)
  with drive_list_plan [OF this] show ?thesis by auto
qed

lemma check_query_Ok_D:
  assumes "check_query rules query = Ok ()"
  shows "btm_get query k = Some v \<Longrightarrow> \<exists>qp. btm_get rules k = Some qp \<and> matches_value (qp_rule qp) (JString v)"
    and "btm_get rules k = Some qp \<Longrightarrow> qp_required qp \<Longrightarrow> btm_get query k \<noteq> None"
proof -
  from assms have known: "\<And>name. name \<in> fst ` set query \<Longrightarrow> btm_contains rules name"
    and rules: "\<And>name qp. (name, qp) \<in> set rules \<Longrightarrow>
      (case btm_get query name of Some value \<Rightarrow> matches_value (qp_rule qp) (JString value)
       | None \<Rightarrow> \<not> qp_required qp)"
    by (force simp: check_query_def list_ex_iff split: if_split_asm option.splits)+
  show "\<exists>qp. btm_get rules k = Some qp \<and> matches_value (qp_rule qp) (JString v)" if "btm_get query k = Some v"
  proof -
    from known btm_get_in_set [OF that] obtain qp where qp: "btm_get rules k = Some qp"
      by (force simp: btm_contains_def)
    with rules [OF btm_get_in_set [OF qp]] that show ?thesis by simp
  qed
  show "btm_get query k \<noteq> None" if "btm_get rules k = Some qp" "qp_required qp"
    using rules [OF btm_get_in_set [OF that(1)]] that(2) by (auto split: option.split_asm)
qed

lemma path_is_canonical_segments:
  "path_is_canonical path template \<Longrightarrow> part \<in> set (split_on CHR ''/'' (tl path)) \<Longrightarrow>
   part \<noteq> [] \<and> part \<noteq> ''.'' \<and> part \<noteq> ''..''"
  by (auto simp: path_is_canonical_def list_all_iff)

lemma segment_matches_iff:
  "segment_matches params pattern part \<longleftrightarrow> (case variable pattern of
     None \<Rightarrow> part = pattern
   | Some (name, suff) \<Rightarrow> (\<exists>value rule. part = value @ suff \<and> btm_get params name = Some rule
       \<and> matches_value rule (JString value)))"
  by (auto simp: segment_matches_def strip_suffix_iff split: option.splits)

text \<open>The characters of a canonical path (digits, letters and some punctuation), and its shape.\<close>

definition api_path_character :: "char \<Rightarrow> bool" where
  "api_path_character c \<longleftrightarrow> byte c \<in> {48..57} \<union> {65..90} \<union> {97..122}
     \<or> c \<in> set (''/-._~!$&'' @ [CHR 0x27] @ ''()+,;=:@'')"

definition canonical_api_path :: "string \<Rightarrow> bool" where
  "canonical_api_path path \<longleftrightarrow> length path \<le> 2048 \<and> (\<forall>c\<in>set path. api_path_character c)
     \<and> (\<exists>rest. path = CHR ''/'' # rest \<and> rest \<noteq> [] \<and> set (split_on CHR ''/'' rest) \<inter> {[], ''.'', ''..''} = {})"

text \<open>An operation declares a request when method and path are its own, variable for variable.\<close>

definition declares :: "api_operation \<Rightarrow> request \<Rightarrow> bool" where
  "declares op q \<longleftrightarrow> rq_method q = op_method op
     \<and> list_all2 (\<lambda>pattern part. case variable pattern of
         None \<Rightarrow> part = pattern
       | Some (name, verb) \<Rightarrow> (\<exists>v rule. part = v @ verb \<and> btm_get (op_path_parameters op) name = Some rule
           \<and> matches_value rule (JString v)))
       (split_on CHR ''/'' (tl (op_path op))) (split_on CHR ''/'' (tl (rq_path q)))"

lemma path_is_canonical_shape: "path_is_canonical path False \<Longrightarrow> canonical_api_path path"
proof -
  assume c: "path_is_canonical path False"
  then obtain rest where rest: "path = CHR ''/'' # rest" by (auto simp: path_is_canonical_def starts_with_iff)
  have alnum: "is_ascii_alphanumeric b \<Longrightarrow> api_path_character b" for b
    by (auto simp: api_path_character_def is_ascii_alphanumeric_def is_ascii_alphabetic_def is_ascii_digit_def
        is_ascii_lowercase_def is_ascii_uppercase_def)
  have "\<forall>b\<in>set path. is_ascii_alphanumeric b \<or> b \<in> set (''/-._~!$&'' @ [CHR 0x27] @ ''()+,;=:@'')"
    using c by (simp add: path_is_canonical_def list_all_iff)
  then have "\<forall>b\<in>set path. api_path_character b" using alnum unfolding api_path_character_def by blast
  moreover have "rest \<noteq> []" "length path \<le> 2048" using c rest by (simp_all add: path_is_canonical_def)
  moreover have "set (split_on CHR ''/'' rest) \<inter> {[], ''.'', ''..''} = {}"
    using path_is_canonical_segments [OF c] rest by auto
  ultimately show ?thesis using rest by (simp add: canonical_api_path_def)
qed

lemma operation_matches_declares: "operation_matches op r \<longleftrightarrow> declares op r"
  by (auto simp: operation_matches_def declares_def segment_matches_iff Let_def list_all_iff list_all2_iff split: prod.splits)

text \<open>
  C20. A plan of the Google adapter is of exactly one declared operation, for the request it was made
  for. Its request has a canonical path (of at most 2048 permitted characters, without an empty or
  a dot segment); one operation of the policy and no other has its method and a path template
  whose literals are its segments and whose variables accept theirs; every query parameter of it is
  declared and satisfies its rule, every required one is present, and its body is empty or JSON of the
  declared shape, sent as such. The plan is that operation's, to that operation's origin.
\<close>

theorem google_plan_is_declared:
  assumes "google_plan ext p r = Ok pl"
  shows "\<exists>ops op q. po_provider p = ''google'' \<and> po_resource p = GoogleApi ops \<and> filter (\<lambda>op. declares op q) ops = [op]
    \<and> pl_operation pl = op_id op \<and> pl_origin pl = Some (op_origin op)
    \<and> pl_request pl = q \<and> q = r\<lparr>rq_content_type := rq_content_type q\<rparr>
    \<and> canonical_api_path (rq_path q)
    \<and> (\<forall>k v. btm_get (rq_query q) k = Some v \<longrightarrow>
         (\<exists>qp. btm_get (op_query_parameters op) k = Some qp \<and> matches_value (qp_rule qp) (JString v)))
    \<and> (\<forall>k qp. btm_get (op_query_parameters op) k = Some qp \<longrightarrow> qp_required qp \<longrightarrow>
         btm_get (rq_query q) k \<noteq> None)
    \<and> (case op_body op of
         None \<Rightarrow> rq_body q = [] \<and> rq_content_type q = None
       | Some shape \<Rightarrow> rq_content_type q = Some ''application/json''
           \<and> (\<exists>kind. rq_content_type r = Some kind \<and> is_application_json kind)
           \<and> (\<exists>v. parse_json ext (rq_body q) = Ok v \<and> accepts shape v))"
proof -
  obtain ops op where can: "path_is_canonical (rq_path r) False" and ops: "google_operations p = Ok ops"
    and uniq: "filter (\<lambda>op. operation_matches op r) ops = [op]"
    and inputs: "operation_check_inputs ext op r = Ok ()"
    and pl: "pl_operation pl = op_id op" "pl_origin pl = Some (op_origin op)"
      "pl_request pl = r\<lparr>rq_content_type := (if rq_body r \<noteq> [] then Some ''application/json'' else None)\<rparr>"
    using assms by (elim google_plan_OkE) simp
  let ?q = "pl_request pl"
  from ops have res: "po_provider p = ''google''" "po_resource p = GoogleApi ops"
    by (simp_all add: google_operations_def split: resource_boundary.split_asm if_split_asm)
  have same: "rq_method ?q = rq_method r" "rq_path ?q = rq_path r" "rq_query ?q = rq_query r" "rq_body ?q = rq_body r"
    "?q = r\<lparr>rq_content_type := rq_content_type ?q\<rparr>"
    by (simp_all add: pl(3))
  have one: "filter (\<lambda>op. declares op ?q) ops = [op]"
    using uniq by (simp add: operation_matches_declares declares_def same(1-4))
  have q: "check_query (op_query_parameters op) (rq_query ?q) = Ok ()"
    using inputs by (auto simp: operation_check_inputs_def same(3))
  have body: "case op_body op of
         None \<Rightarrow> rq_body ?q = [] \<and> rq_content_type ?q = None
       | Some shape \<Rightarrow> rq_content_type ?q = Some ''application/json''
           \<and> (\<exists>kind. rq_content_type r = Some kind \<and> is_application_json kind)
           \<and> (\<exists>v. parse_json ext (rq_body ?q) = Ok v \<and> accepts shape v)"
    using inputs unfolding same(4) by (auto simp: pl(3) operation_check_inputs_def check_json_body_def
        split: option.splits if_split_asm)
  have path: "canonical_api_path (rq_path ?q)" unfolding same(2) by (rule path_is_canonical_shape [OF can])
  show ?thesis
    by (rule exI [of _ ops], rule exI [of _ op], rule exI [of _ ?q])
      (use res one pl(1,2) same(5) path check_query_Ok_D [OF q] body in blast)
qed

definition demo_operation :: api_operation where
  "demo_operation = \<lparr>op_id = ''events.list'', op_origin = ''https://www.googleapis.com'',
     op_method = ''GET'', op_path = ''/calendar/v3/calendars/{id}/events'',
     op_path_parameters = [(''id'', Exact (JString ''primary''))],
     op_query_parameters = [(''maxResults'', \<lparr>qp_required = True, qp_rule = MaxInteger 50\<rparr>)],
     op_body = None\<rparr>"

definition demo_google_policy :: policy where
  "demo_google_policy = \<lparr>po_version = 1, po_name = ''demo'', po_provider = ''google'',
     po_resource = GoogleApi [demo_operation], po_allowed_operations = [''events.list''],
     po_constraints = [], po_hooks = []\<rparr>"

definition demo_events :: request where
  "demo_events = (request_get ''/calendar/v3/calendars/primary/events'')\<lparr>rq_query := [(''maxResults'', ''10'')]\<rparr>"

lemma google_plan_is_declared_witness:
  "\<exists>pl op. google_plan ref_externals demo_google_policy demo_events = Ok pl \<and> pl_operation pl = op_id op
    \<and> declares op (pl_request pl) \<and> canonical_api_path (rq_path (pl_request pl))"
proof -
  have "is_ok (google_plan ref_externals demo_google_policy demo_events)" by code_simp
  then obtain pl where pl: "google_plan ref_externals demo_google_policy demo_events = Ok pl"
    by (auto simp: is_ok_iff)
  obtain ops op where one: "filter (\<lambda>op. declares op (pl_request pl)) ops = [op]"
    and op: "pl_operation pl = op_id op" "canonical_api_path (rq_path (pl_request pl))"
    using google_plan_is_declared [OF pl] by blast
  have "op \<in> set (filter (\<lambda>op. declares op (pl_request pl)) ops)" unfolding one by simp
  then show ?thesis using pl op by auto
qed

section \<open>What a listing discloses\<close>

definition is_shortcut :: "json \<Rightarrow> bool" where
  "is_shortcut f \<longleftrightarrow> jindex f ''mimeType'' = JString SHORTCUT"

definition projects :: "json \<Rightarrow> json \<Rightarrow> bool" where
  "projects f v \<longleftrightarrow> (\<exists>m. file_metadata_of f = Some m \<and> \<not> fm_trashed m \<and> valid_id (fm_id m)
     \<and> v = JObject [(''id'', JString (fm_id m)), (''name'', JString (fm_name m)),
                    (''mimeType'', JString (fm_mime_type m))])"

lemma sanitize_file_projects: "sanitize_file f = Ok v \<Longrightarrow> projects f v"
  by (auto simp: sanitize_file_def projects_def split: option.split_asm if_split_asm)

lemma sanitize_listing_Ok:
  "sanitize_listing parent files = Ok safe \<Longrightarrow>
     list_all (\<lambda>f. json_eq (jindex f ''parents'') (JArray [JString parent])) files
     \<and> list_all2 projects (filter (\<lambda>f. \<not> is_shortcut f) files) safe"
proof (induction files arbitrary: safe)
  case (Cons f files)
  then show ?case
    by (auto simp: is_shortcut_def dest: sanitize_file_projects split: if_split_asm)
qed simp

definition page_answer :: "json \<Rightarrow> json list \<Rightarrow> perm_error + json" where
  "page_answer v safe = (case jget v ''nextPageToken'' of
      None \<Rightarrow> Ok (JObject [(''files'', JArray safe)])
    | Some token \<Rightarrow> (case as_str token of
        None \<Rightarrow> Err Verification
      | Some t \<Rightarrow> if t = [] \<or> length t > 4096 then Err Verification
                else Ok (JObject [(''files'', JArray safe), (''nextPageToken'', token)])))"

lemma sanitize_list_OkE:
  assumes "sanitize_list pl v = Ok result"
  obtains files limit safe where "jindex v ''files'' = JArray files"
    "jget v ''incompleteSearch'' \<noteq> Some (JBool True)" "length files \<le> limit"
    "map_option (parse_uint u64_max) (btm_get (rq_query (pl_request pl)) ''pageSize'') = Some (Some limit)"
    "sanitize_listing (rc_id (hd (pl_resources pl))) files = Ok safe" "page_answer v safe = Ok result"
proof -
  from assms have search: "jget v ''incompleteSearch'' \<noteq> Some (JBool True)"
    by (auto simp: sanitize_list_def)
  from assms obtain files where files: "jindex v ''files'' = JArray files"
    by (auto simp: sanitize_list_def split: if_split_asm option.split_asm)
  from assms obtain size limit where limit: "btm_get (rq_query (pl_request pl)) ''pageSize'' = Some size"
    "parse_uint u64_max size = Some limit"
    by (cases "btm_get (rq_query (pl_request pl)) ''pageSize''"; cases "as_array (jindex v ''files'')")
      (auto simp: sanitize_list_def split: if_split_asm option.split_asm)
  from assms files limit have "length files \<le> limit"
    and "\<exists>safe. sanitize_listing (rc_id (hd (pl_resources pl))) files = Ok safe \<and> page_answer v safe = Ok result"
    by (simp_all add: sanitize_list_def page_answer_def split: if_split_asm)
  with that files search limit show thesis by auto
qed

text \<open>
  What a listing discloses: the answer the caller of a list operation sees holds, of each
  file of the upstream's answer that is not a shortcut, the id, name and type and nothing
  else. Every file of that answer, shown or not, has the planned folder as its only parent,
  no shown file is trashed, there are no more files than the planned page size, the upstream
  searched completely, and the only other field is a page token of 1 to 4096 bytes.
\<close>

theorem drive_listing_disclosure:
  assumes "drive_sanitize_response ext pl resp = Ok resp'" and "pl_operation pl = ''drive.files.list''"
  shows "\<exists>v files safe rest limit. parse_json ext (rs_body resp) = Ok v
    \<and> jindex v ''files'' = JArray files \<and> jget v ''incompleteSearch'' \<noteq> Some (JBool True)
    \<and> list_all (\<lambda>f. json_eq (jindex f ''parents'') (JArray [JString (rc_id (hd (pl_resources pl)))])) files
    \<and> list_all2 projects (filter (\<lambda>f. \<not> is_shortcut f) files) safe
    \<and> length files \<le> limit \<and> map_option (parse_uint u64_max) (btm_get (rq_query (pl_request pl)) ''pageSize'') = Some (Some limit)
    \<and> rs_body resp' = to_vec ext (JObject ((''files'', JArray safe) # rest))
    \<and> (rest = [] \<or> (\<exists>t. rest = [(''nextPageToken'', JString t)] \<and> t \<noteq> [] \<and> length t \<le> 4096))"
proof -
  from assms obtain v result where v: "parse_json ext (rs_body resp) = Ok v"
    and list: "sanitize_list pl v = Ok result" and body: "rs_body resp' = to_vec ext result"
    by (auto simp: drive_sanitize_response_def)
  from list obtain files limit safe
    where files: "jindex v ''files'' = JArray files" "jget v ''incompleteSearch'' \<noteq> Some (JBool True)"
      and limit: "length files \<le> limit"
        "map_option (parse_uint u64_max) (btm_get (rq_query (pl_request pl)) ''pageSize'') = Some (Some limit)"
      and safe: "sanitize_listing (rc_id (hd (pl_resources pl))) files = Ok safe"
      and rest: "page_answer v safe = Ok result"
    by (elim sanitize_list_OkE)
  from rest obtain others where "result = JObject ((''files'', JArray safe) # others)"
    "others = [] \<or> (\<exists>t. others = [(''nextPageToken'', JString t)] \<and> t \<noteq> [] \<and> length t \<le> 4096)"
    by (auto simp: page_answer_def split: option.split_asm if_split_asm)
  with v body files limit sanitize_listing_Ok [OF safe] show ?thesis by blast
qed

definition demo_listing_plan :: plan where
  "demo_listing_plan = \<lparr>pl_operation = ''drive.files.list'', pl_origin = None,
     pl_request = demo_list,
     pl_resources = [\<lparr>rc_id = ''client-a'', rc_must_be_folder = True, rc_allow_root = True\<rparr>]\<rparr>"

definition demo_listing_answer :: response where
  "demo_listing_answer = \<lparr>rs_status = 200, rs_content_type = ''application/json'',
     rs_body = ref_to_vec (JObject [(''files'', JArray
       [file_json (demo_file ''brief'' ''Brief'' ''text/plain'' (Some ''client-a''))])])\<rparr>"

lemma drive_listing_disclosure_witness:
  "\<exists>resp' files safe. drive_sanitize_response ref_externals demo_listing_plan demo_listing_answer = Ok resp'
     \<and> list_all2 projects (filter (\<lambda>f. \<not> is_shortcut f) files) safe"
proof -
  have "is_ok (drive_sanitize_response ref_externals demo_listing_plan demo_listing_answer)"
    by code_simp
  then obtain resp' where "drive_sanitize_response ref_externals demo_listing_plan demo_listing_answer = Ok resp'"
    by (auto simp: is_ok_iff)
  with drive_listing_disclosure [OF this] show ?thesis by (auto simp: demo_listing_plan_def)
qed

end
