(* ===== verification/Values_Properties.thy ===== *)
theory Values_Properties
  imports Perm_Inputs Perm_Hooks Reference_Codec
begin

text \<open>
  The limits on untrusted input: unambiguous JSON, the closed query string, the budget of a
  body schema and what an accepted body is, and the check hooks.
\<close>

section \<open>JSON and queries\<close>

text \<open>
  \<open>parse_json\<close> succeeds exactly on a JSON text in which no object, at any depth, repeats a
  key and every number is finite; the value it answers is the one the text denotes, and no
  object of it repeats a key.
\<close>

theorem parse_json_unambiguous:
  "parse_json ext bytes = Ok v \<longleftrightarrow>
     (\<exists>r. from_slice ext bytes = Some r \<and> unambiguous r \<and> v = denotes r \<and> json_wf v)"
  by (auto simp: parse_json_def unique_iff denotes_wf split: option.splits)

text \<open>The pairs of a query string as the code splits them, with both halves decoded.\<close>

definition query_pair :: "externals \<Rightarrow> string \<Rightarrow> (string \<times> string) option" where
  "query_pair ext pair =
     (let (key, value) = (case split_once CHR ''='' pair of None \<Rightarrow> (pair, []) | Some kv \<Rightarrow> kv)
      in (case (decode_query_part ext key, decode_query_part ext value) of
            (Ok k, Ok v) \<Rightarrow> Some (k, v) | _ \<Rightarrow> None))"

lemma parse_query_pairs_Ok_iff:
  assumes "btm_wf m"
  shows "parse_query_pairs ext pairs m = Ok q \<longleftrightarrow>
    (\<exists>kvs. map (query_pair ext) pairs = map Some kvs \<and> distinct (map fst kvs)
       \<and> (\<forall>kv \<in> set kvs. btm_get m (fst kv) = None)
       \<and> q = foldl (\<lambda>m (k, v). btm_insert k v m) m kvs)"
  using assms
proof (induction pairs arbitrary: m)
  case (Cons pair pairs)
  show ?case
  proof (cases "query_pair ext pair")
    case None
    then show ?thesis
      by (auto simp: query_pair_def Let_def split: sum.splits prod.splits)
  next
    case (Some kv)
    obtain k v where kv: "kv = (k, v)" by (cases kv)
    with Some have step: "parse_query_pairs ext (pair # pairs) m =
      (if btm_contains m k then Err (Denied ''duplicate query parameter'')
       else parse_query_pairs ext pairs (btm_insert k v m))"
      by (auto simp: query_pair_def Let_def split: sum.splits prod.splits)
    have wf: "btm_wf (btm_insert k v m)" using Cons.prems by simp
    have list: "map (query_pair ext) (pair # pairs) = map Some kvs \<longleftrightarrow>
        (\<exists>rest. kvs = (k, v) # rest \<and> map (query_pair ext) pairs = map Some rest)" for kvs
      using Some kv by (cases kvs) auto
    have fresh: "distinct (map fst ((k, v) # rest)) \<and> (\<forall>kv \<in> set ((k, v) # rest). btm_get m (fst kv) = None)
        \<longleftrightarrow> btm_get m k = None \<and> distinct (map fst rest)
          \<and> (\<forall>kv \<in> set rest. btm_get (btm_insert k v m) (fst kv) = None)" for rest
      by (auto simp: rev_image_eqI split: if_split_asm)
    have "parse_query_pairs ext (pair # pairs) m = Ok q \<longleftrightarrow> btm_get m k = None \<and>
        parse_query_pairs ext pairs (btm_insert k v m) = Ok q"
      unfolding step btm_contains_def by simp
    also have "\<dots> \<longleftrightarrow> (\<exists>rest. map (query_pair ext) pairs = map Some rest
        \<and> (distinct (map fst ((k, v) # rest)) \<and> (\<forall>kv \<in> set ((k, v) # rest). btm_get m (fst kv) = None))
        \<and> q = foldl (\<lambda>m (k, v). btm_insert k v m) m ((k, v) # rest))"
      unfolding fresh Cons.IH [OF wf] foldl_Cons prod.case by blast
    finally show ?thesis unfolding list by blast
  qed
qed auto

text \<open>
  A query string parses exactly when it is at most 8192 bytes, every pair's halves are
  well-formed percent encodings the decoder accepts, and no two pairs decode to one name.
  The result then maps each name to its decoded value and nothing else.
\<close>

theorem parse_query_closed:
  "parse_query ext query = Ok q \<longleftrightarrow>
     length query \<le> 8192
     \<and> (\<exists>kvs. map (query_pair ext) (filter (\<lambda>s. s \<noteq> []) (split_on CHR ''&'' query)) = map Some kvs
         \<and> distinct (map fst kvs) \<and> btm_wf q \<and> (\<forall>k. btm_get q k = map_of kvs k))"
proof -
  let ?pairs = "filter (\<lambda>s. s \<noteq> []) (split_on CHR ''&'' query)"
  have "q = foldl (\<lambda>m (k, v). btm_insert k v m) [] kvs
      \<longleftrightarrow> btm_wf q \<and> (\<forall>k. btm_get q k = map_of kvs k)" if "distinct (map fst kvs)" for kvs
  proof -
    have fold: "btm_wf (foldl (\<lambda>m (k, v). btm_insert k v m) [] kvs)"
      "btm_get (foldl (\<lambda>m (k, v). btm_insert k v m) [] kvs) k = map_of kvs k" for k
      by (simp_all add: btm_wf_inserts btm_get_inserts that split: option.split)
    then show ?thesis using btm_ext [OF _ fold(1), of q] by auto
  qed
  then show ?thesis
    unfolding parse_query_def by (auto simp: parse_query_pairs_Ok_iff cong: conj_cong)
qed

section \<open>Body schemas\<close>

fun shape_nodes :: "json_shape \<Rightarrow> nat" and shapes_nodes :: "(string \<times> json_shape) list \<Rightarrow> nat" where
  "shape_nodes (SObject ps req) = Suc (shapes_nodes ps)"
| "shape_nodes (SArray s n) = Suc (shape_nodes s)"
| "shape_nodes _ = 1"
| "shapes_nodes [] = 0"
| "shapes_nodes ((k, s) # ps) = shape_nodes s + shapes_nodes ps"

fun shape_depth :: "json_shape \<Rightarrow> nat" and shapes_depth :: "(string \<times> json_shape) list \<Rightarrow> nat" where
  "shape_depth (SObject ps req) = (if ps = [] then 0 else Suc (shapes_depth ps))"
| "shape_depth (SArray s n) = Suc (shape_depth s)"
| "shape_depth _ = 0"
| "shapes_depth [] = 0"
| "shapes_depth ((k, s) # ps) = max (shape_depth s) (shapes_depth ps)"

lemma shape_validate_spends:
  "shape_validate s d n = Ok n' \<Longrightarrow> n = shape_nodes s + n' \<and> d + shape_depth s \<le> 12"
  "shape_validate_all ps d n = Ok n' \<Longrightarrow>
     n = shapes_nodes ps + n' \<and> (ps = [] \<or> d + shapes_depth ps \<le> 12)"
proof (induction s d n and ps d n arbitrary: n' and n' rule: shape_validate_shape_validate_all.induct)
  case (1 s d n)
  from "1.prems" have ok: "\<not> (d > 12 \<or> n = 0)" by (auto split: if_split_asm)
  show ?case
  proof (cases s)
    case (SObject ps req)
    with "1.prems" ok have "shape_validate_all ps (d + 1) (n - 1) = Ok n'"
      by (auto split: if_split_asm)
    moreover from "1.prems" ok SObject
    have "\<not> (length ps > 64 \<or> length req > length ps \<or> list_ex (\<lambda>key. \<not> btm_contains ps key) req
        \<or> list_ex (\<lambda>key. key = [] \<or> length key > 256) (map fst ps))"
      by (auto split: if_split_asm)
    ultimately have "n - 1 = shapes_nodes ps + n' \<and> (ps = [] \<or> d + 1 + shapes_depth ps \<le> 12)"
      using "1.IH"(1) [OF ok refl SObject] by blast
    with ok SObject show ?thesis by auto
  next
    case (SArray items k)
    with "1.prems" ok have k: "\<not> k > 1000" and "shape_validate items (d + 1) (n - 1) = Ok n'"
      by (auto split: if_split_asm)
    with "1.IH"(2) [OF ok refl SArray k] have "n - 1 = shape_nodes items + n' \<and> d + 1 + shape_depth items \<le> 12"
      by blast
    with ok SArray show ?thesis by auto
  qed (use "1.prems" ok in \<open>auto split: if_split_asm\<close>)
next
  case (3 k child ps d n)
  then obtain m where m: "shape_validate child d n = Ok m" "shape_validate_all ps d m = Ok n'"
    by (auto split: sum.split_asm)
  with "3.IH" show ?case by fastforce
qed simp

text \<open>
  The budget of a body schema: a declared body passes validation only for a method other
  than GET and HEAD, and then it has at most 512 nodes, at most 12 levels below the root, and
  the walk hands on exactly the budget it did not spend.
\<close>

theorem body_schema_bounded:
  "body_rule_validate m (Some shape) = Ok () \<longleftrightarrow>
     m \<noteq> ''GET'' \<and> m \<noteq> ''HEAD'' \<and> shape_nodes shape \<le> 512 \<and> shape_depth shape \<le> 12
     \<and> shape_validate shape 0 512 = Ok (512 - shape_nodes shape)"
  using shape_validate_spends(1) [of shape 0 512]
  by (auto simp: body_rule_validate_def split: sum.split if_split_asm)

section \<open>Check hooks\<close>

text \<open>The hooks \<open>hs\<close>, run from \<open>s\<close>, all allow where they apply and leave \<open>s'\<close>.\<close>

inductive hooks_allow ::
  "hook_stage \<Rightarrow> policy \<Rightarrow> plan \<Rightarrow> response option \<Rightarrow> 's bound_hook list \<Rightarrow> 's \<Rightarrow> 's \<Rightarrow> bool"
  for stage p pl resp where
  none: "hooks_allow stage p pl resp [] s s"
| skip: "\<not> hook_applies (bh_definition h) stage pl \<Longrightarrow> hooks_allow stage p pl resp hs s s' \<Longrightarrow>
    hooks_allow stage p pl resp (h # hs) s s'"
| allow: "hook_applies (bh_definition h) stage pl \<Longrightarrow>
    hh_check (bh_handler h) p pl resp (hd_config (bh_definition h)) s = (Done (Decided Allow), t) \<Longrightarrow>
    hooks_allow stage p pl resp hs t s' \<Longrightarrow> hooks_allow stage p pl resp (h # hs) s s'"

inductive_simps hooks_allow_Nil: "hooks_allow stage p pl resp [] s s'"
inductive_simps hooks_allow_Cons: "hooks_allow stage p pl resp (h # hs) s s'"

text \<open>What a hook that does not allow is reported as.\<close>

definition refusal :: "hook_definition \<Rightarrow> hook_stage \<Rightarrow> hook_outcome \<Rightarrow> perm_error" where
  "refusal d stage out =
     (if out = Decided Deny then HookDenied (hd_name d) stage else HookUnavailable (hd_name d) stage)"

lemma run_hooks_Ok_iff:
  "run_hooks hs stage p pl resp s = (Done (Ok ()), s') \<longleftrightarrow> hooks_allow stage p pl resp hs s s'"
proof (induction hs arbitrary: s)
  case (Cons h hs)
  obtain out t where out: "hh_check (bh_handler h) p pl resp (hd_config (bh_definition h)) s = (out, t)"
    by fastforce
  show ?case
    using Cons.IH [of s] Cons.IH [of t] out
    by (cases "hook_applies (bh_definition h) stage pl")
      (auto simp: hooks_allow_Cons Let_def split: awaited.split hook_outcome.split hook_decision.split)
qed (auto simp: hooks_allow_Nil)

lemma ex_split_Cons:
  "(\<exists>us y vs. x # xs = us @ y # vs \<and> Q us y) \<longleftrightarrow>
     Q [] x \<or> (\<exists>us y vs. xs = us @ y # vs \<and> Q (x # us) y)"
  unfolding Cons_eq_append_conv by auto

text \<open>The hook \<open>h\<close> refuses after the hooks \<open>us\<close> allowed.\<close>

definition refuses_after ::
  "hook_stage \<Rightarrow> policy \<Rightarrow> plan \<Rightarrow> response option \<Rightarrow> 's \<Rightarrow> 's bound_hook list \<Rightarrow> 's bound_hook
   \<Rightarrow> perm_error \<Rightarrow> 's \<Rightarrow> bool" where
  "refuses_after stage p pl resp s us h e s' \<longleftrightarrow>
     (\<exists>t out. hooks_allow stage p pl resp us s t \<and> hook_applies (bh_definition h) stage pl
        \<and> hh_check (bh_handler h) p pl resp (hd_config (bh_definition h)) t = (Done out, s')
        \<and> out \<noteq> Decided Allow \<and> e = refusal (bh_definition h) stage out)"

lemma run_hooks_Err_iff:
  "run_hooks hs stage p pl resp s = (Done (Err e), s') \<longleftrightarrow>
     (\<exists>us h vs. hs = us @ h # vs \<and> refuses_after stage p pl resp s us h e s')"
proof (induction hs arbitrary: s)
  case (Cons h hs)
  obtain out t where out: "hh_check (bh_handler h) p pl resp (hd_config (bh_definition h)) s = (out, t)"
    by fastforce
  have first: "refuses_after stage p pl resp s [] h e s' \<longleftrightarrow> hook_applies (bh_definition h) stage pl
      \<and> (\<exists>o'. out = Done o' \<and> t = s' \<and> o' \<noteq> Decided Allow \<and> e = refusal (bh_definition h) stage o')"
    using out by (auto simp: refuses_after_def hooks_allow_Nil)
  show ?case
  proof (cases "hook_applies (bh_definition h) stage pl")
    case False
    then have "refuses_after stage p pl resp s (h # us) h' e s' \<longleftrightarrow> refuses_after stage p pl resp s us h' e s'"
      for us h' by (simp add: refuses_after_def hooks_allow_Cons)
    with False first show ?thesis
      unfolding ex_split_Cons by (simp add: Cons.IH)
  next
    case applies: True
    have rest: "refuses_after stage p pl resp s (h # us) h' e s' \<longleftrightarrow>
        out = Done (Decided Allow) \<and> refuses_after stage p pl resp t us h' e s'" for us h'
      using applies out by (auto simp: refuses_after_def hooks_allow_Cons)
    show ?thesis
    proof (cases "out = Done (Decided Allow)")
      case True
      with applies out first rest show ?thesis
        unfolding ex_split_Cons by (simp add: Cons.IH)
    next
      case False
      have "run_hooks (h # hs) stage p pl resp s = (Done (Err e), s') \<longleftrightarrow>
          (\<exists>o'. out = Done o' \<and> t = s' \<and> o' \<noteq> Decided Allow \<and> e = refusal (bh_definition h) stage o')"
      proof (cases out)
        case (Done o')
        with applies out False show ?thesis
          by (cases o' rule: hook_outcome.exhaust; (cases "o' = Decided Deny")?)
            (auto simp: refusal_def Let_def split: hook_decision.split)
      qed (use applies out in \<open>simp add: Let_def\<close>)
      with applies first rest False show ?thesis
        unfolding ex_split_Cons by simp
    qed
  qed
qed simp

text \<open>
  Hooks fail closed, in order. The bound hooks of a stage let a call pass exactly when each
  one that applies answers Allow. They refuse it exactly when a first applicable hook, after
  a prefix that allows, answers anything else: a Deny is reported as that hook's denial, and a
  failure, its own timeout or a panic as that hook being unavailable; no later hook runs.
\<close>

theorem hooks_fail_closed:
  "(run_hooks hs stage p pl resp s = (Done (Ok ()), s') \<longleftrightarrow> hooks_allow stage p pl resp hs s s')
   \<and> (run_hooks hs stage p pl resp s = (Done (Err e), s') \<longleftrightarrow>
     (\<exists>us h vs. hs = us @ h # vs \<and> refuses_after stage p pl resp s us h e s'))"
  by (rule conjI [OF run_hooks_Ok_iff run_hooks_Err_iff])

text \<open>What the substring search of the crate answers: something exactly on a substring.\<close>

definition finds_sublists :: "externals \<Rightarrow> bool" where
  "finds_sublists ext \<longleftrightarrow> (\<forall>hay needle. memmem_find ext hay needle \<noteq> None \<longleftrightarrow> sublist needle hay)"

lemma sublist_slice: "sublist (take n (drop i xs)) xs"
  by (metis sublist_order.order.trans sublist_drop sublist_take)

text \<open>
  The response markers hook searches in chunks of 64 KiB that overlap by one byte less than
  the marker, and the chunking is complete: a marker is found exactly when it occurs in the
  body, also across a chunk boundary.
\<close>

theorem marker_found_iff:
  assumes "finds_sublists ext" and "marker \<noteq> []"
  shows "marker_found ext body marker \<longleftrightarrow> sublist marker body"
proof -
  have found: "marker_found ext body marker \<longleftrightarrow>
      (\<exists>start \<in> set (chunk_starts (length body)). sublist marker (chunk_slice body marker start))"
    using assms(1) unfolding marker_found_def list_ex_iff finds_sublists_def by blast
  show ?thesis
  proof
    assume "marker_found ext body marker"
    then show "sublist marker body"
      unfolding found chunk_slice_def Let_def using sublist_slice sublist_order.order.trans by blast
  next
    assume "sublist marker body"
    then obtain a b where body: "body = a @ marker @ b" by (auto simp: sublist_def)
    define i where "i = length a div chunk_bytes"
    have pos: "chunk_bytes > 0" by (simp add: chunk_bytes_def)
    have i: "i * chunk_bytes \<le> length a" "length a < i * chunk_bytes + chunk_bytes"
      using pos by (simp_all add: i_def) (metis add.commute dividend_less_times_div mult.commute)
    have "length a < length body" using body assms(2) by (cases marker) auto
    then have "i < (length body + chunk_bytes - 1) div chunk_bytes"
      using i pos by (simp add: less_eq_div_iff_mult_less_eq flip: Suc_le_eq)
    then have start: "i * chunk_bytes \<in> set (chunk_starts (length body))"
      by (auto simp: chunk_starts_def)
    let ?n = "min (length body) (i * chunk_bytes + chunk_bytes + length marker - 1) - i * chunk_bytes"
    have n: "length a - i * chunk_bytes + length marker \<le> ?n"
      using i body assms(2) by (cases marker) auto
    have "drop (i * chunk_bytes) body = drop (i * chunk_bytes) a @ marker @ b"
      using i by (simp add: body)
    then have "chunk_slice body marker (i * chunk_bytes) =
        drop (i * chunk_bytes) a @ marker @ take (?n - (length a - i * chunk_bytes) - length marker) b"
      using n by (simp add: chunk_slice_def Let_def)
    then have "sublist marker (chunk_slice body marker (i * chunk_bytes))" by (auto simp: sublist_def)
    with start found show "marker_found ext body marker" by blast
  qed
qed

lemma marker_found_iff_witness:
  "marker_found ref_externals ''secret plans'' ''plan'' \<longleftrightarrow> sublist ''plan'' ''secret plans''"
  by (rule marker_found_iff)
    (auto simp: finds_sublists_def ref_externals_def ref_memmem_find_def contains_str_iff)

text \<open>One bound hook against its definition.\<close>

definition bound_ok :: "'s hook_registry \<Rightarrow> policy \<Rightarrow> hook_definition \<Rightarrow> 's bound_hook \<Rightarrow> bool" where
  "bound_ok registry p d b \<longleftrightarrow>
     bh_definition b = d \<and> map_of registry (hd_handler d) = Some (bh_handler b)
     \<and> valid_name (hd_name d) \<and> 1 \<le> hd_timeout_ms d \<and> hd_timeout_ms d \<le> 2000
     \<and> length (hd_operations d) \<le> 64 \<and> set (hd_operations d) \<subseteq> set (po_allowed_operations p)
     \<and> hh_validate (bh_handler b) (hd_stage d) (hd_config d) = Ok ()"

lemma bind_hooks_Ok_iff:
  "bind_hooks registry (po_allowed_operations p) names ds = Ok hooks \<longleftrightarrow>
     distinct (map hd_name ds) \<and> set (map hd_name ds) \<inter> set names = {}
     \<and> list_all2 (bound_ok registry p) ds hooks"
proof (induction ds arbitrary: names hooks)
  case (Cons d ds)
  let ?bad = "\<not> valid_name (hd_name d) \<or> hd_name d \<in> set names
         \<or> \<not> (1 \<le> hd_timeout_ms d \<and> hd_timeout_ms d \<le> 2000)
         \<or> length (hd_operations d) > 64
         \<or> list_ex (\<lambda>op. op \<notin> set (po_allowed_operations p)) (hd_operations d)"
  show ?case
  proof (cases "?bad \<or> map_of registry (hd_handler d) = None")
    case True
    then show ?thesis
      by (cases hooks) (auto simp: bound_ok_def list_ex_iff split: option.split)
  next
    case False
    then obtain handler where h: "map_of registry (hd_handler d) = Some handler" by auto
    from False have ops: "set (hd_operations d) \<subseteq> set (po_allowed_operations p)"
      by (auto simp: list_ex_iff)
    from False h have "bind_hooks registry (po_allowed_operations p) names (d # ds) = Ok hooks \<longleftrightarrow>
      hh_validate handler (hd_stage d) (hd_config d) = Ok ()
      \<and> (\<exists>rest. bind_hooks registry (po_allowed_operations p) (hd_name d # names) ds = Ok rest
           \<and> hooks = \<lparr>bh_definition = d, bh_handler = handler\<rparr> # rest)"
      by auto
    also have "\<dots> \<longleftrightarrow> distinct (map hd_name (d # ds)) \<and> set (map hd_name (d # ds)) \<inter> set names = {}
       \<and> list_all2 (bound_ok registry p) (d # ds) hooks"
      unfolding Cons.IH using False h ops by (auto simp: bound_ok_def list_all2_Cons1)
    finally show ?thesis .
  qed
qed auto

text \<open>
  Binding a policy's hooks succeeds exactly when there are at most eight, their names are
  distinct, and each has a valid name, a timeout of 1 to 2000 ms, at most 64 operations all
  of which the policy allows, and a registered handler that accepts its stage and
  configuration; the bound hooks are the policy's, in its order.
\<close>

theorem bind_exact:
  "bind registry p = Ok hooks \<longleftrightarrow>
     length (po_hooks p) \<le> 8 \<and> distinct (map hd_name (po_hooks p))
     \<and> list_all2 (bound_ok registry p) (po_hooks p) hooks"
  by (auto simp: bind_def bind_hooks_Ok_iff)

end
