(* ===== verification/Decimal_Text.thy ===== *)
theory Decimal_Text
  imports Rust_Int Complex_Main
begin

text \<open>
  Decimal numbers as text: sign, digits, fraction and exponent, the real number such a text
  denotes, and the arithmetic of trailing zeros and powers of ten that every exact decimal
  routine of the code rests on (\<open>permissions/src/values.rs\<close>, \<open>models/credits.rs\<close>,
  \<open>services/billing/amounts.rs\<close>).
\<close>

section \<open>Decimal texts\<close>

text \<open>
  The text of a number: a sign, digits, an optional fraction and an optional exponent.
  \<open>decimal_value\<close> is the real it denotes.
\<close>

definition mantissa_text :: "bool \<Rightarrow> string \<Rightarrow> string \<Rightarrow> string" where
  "mantissa_text neg ip fp =
     (if neg then ''-'' else []) @ ip @ (if fp = [] then [] else CHR ''.'' # fp)"

definition decimal_text :: "bool \<Rightarrow> string \<Rightarrow> string \<Rightarrow> int option \<Rightarrow> string" where
  "decimal_text neg ip fp ex =
     mantissa_text neg ip fp
     @ (case ex of None \<Rightarrow> [] | Some e \<Rightarrow> CHR ''e'' # int_str e)"

definition exponent_of :: "int option \<Rightarrow> int" where
  "exponent_of ex = (case ex of None \<Rightarrow> 0 | Some e \<Rightarrow> e)"

definition decimal_value :: "bool \<Rightarrow> string \<Rightarrow> string \<Rightarrow> int option \<Rightarrow> real" where
  "decimal_value neg ip fp ex =
     (if neg then -1 else 1) * real (digits_val (ip @ fp)) * 10 powi (exponent_of ex - int (length fp))"

section \<open>Trailing zeros\<close>

lemma trim_end_zeros_split:
  "s = trim_end_zeros s @ replicate (length s - length (trim_end_zeros s)) CHR ''0''"
proof -
  let ?P = "\<lambda>c. c = CHR ''0''"
  have zeros: "takeWhile ?P t = replicate (length (takeWhile ?P t)) CHR ''0''" for t
    by (induction t) auto
  have rs: "rev s = takeWhile ?P (rev s) @ dropWhile ?P (rev s)" by simp
  have "s = rev (rev s)" by simp
  also have "\<dots> = trim_end_zeros s @ rev (takeWhile ?P (rev s))"
    by (subst rs) (simp only: rev_append trim_end_zeros_def)
  finally have s: "s = trim_end_zeros s @ rev (takeWhile ?P (rev s))" .
  have "length s = length (trim_end_zeros s) + length (takeWhile ?P (rev s))"
    by (subst s) simp
  moreover have "rev (takeWhile ?P (rev s)) = replicate (length (takeWhile ?P (rev s))) CHR ''0''"
    by (subst zeros) simp
  ultimately show ?thesis using s by simp
qed

lemma trim_end_zeros_last:
  assumes "trim_end_zeros s \<noteq> []" "all_digits s"
  shows "digits_val (trim_end_zeros s) mod 10 \<noteq> 0" "digits_val (trim_end_zeros s) > 0"
proof -
  let ?P = "\<lambda>c. c = CHR ''0''"
  from assms(1) obtain xs c where x: "trim_end_zeros s = xs @ [c]" by (metis rev_exhaust)
  then have d: "dropWhile ?P (rev s) = c # rev xs"
    unfolding trim_end_zeros_def by (metis rev.simps(2) rev_rev_ident rev_append append_Cons append_Nil)
  have "c \<noteq> CHR ''0''" using hd_dropWhile [of ?P "rev s"] d by simp
  moreover have "is_ascii_digit c"
  proof -
    have "c \<in> set (dropWhile ?P (rev s))" by (simp add: d)
    then have "c \<in> set s" by (metis set_dropWhileD set_rev)
    with assms(2) show ?thesis by (simp add: all_digits_def list_all_iff)
  qed
  moreover have "byte c \<noteq> 48"
  proof
    assume "byte c = 48"
    then have "of_char c = (of_char CHR ''0'' :: nat)" by (simp add: byte_def)
    with \<open>c \<noteq> CHR ''0''\<close> show False by (simp only: of_char_eq_iff)
  qed
  ultimately have "digit_val c < 10" "digit_val c \<noteq> 0"
    by (auto simp: digit_val_less digit_val_def is_ascii_digit_def)
  then show "digits_val (trim_end_zeros s) mod 10 \<noteq> 0" "digits_val (trim_end_zeros s) > 0"
    by (simp_all add: x)
qed

lemma digits_val_zeros: "digits_val (replicate n CHR ''0'') = 0"
  by (induction n) (simp_all add: digits_val_append [of "[_]", simplified] digits_val_def digit_val_def byte_def)

lemma digits_val_trim:
  "digits_val s = digits_val (trim_end_zeros s) * 10 ^ (length s - length (trim_end_zeros s))"
  by (subst trim_end_zeros_split) (simp add: digits_val_append digits_val_zeros)

section \<open>Powers of ten\<close>

text \<open>A value \<open>m * 10 powi shift\<close> with \<open>m\<close> not a multiple of ten, against scaled bounds.\<close>

definition scale_of :: "int \<Rightarrow> nat" where
  "scale_of shift = nat (max (- shift) 0)"

lemma powi_scale:
  "(10::real) powi shift = 10 ^ nat (max shift 0) / 10 ^ scale_of shift"
  by (cases "shift \<ge> 0") (auto simp: scale_of_def power_int_def field_simps)

lemma fraction_digits_iff:
  fixes m :: int
  assumes "m mod 10 \<noteq> 0"
  shows "(\<exists>z::int. real_of_int m * 10 powi shift * 10 ^ k = real_of_int z) \<longleftrightarrow> scale_of shift \<le> k"
proof
  assume "scale_of shift \<le> k"
  then obtain j where k: "k = scale_of shift + j" using le_Suc_ex by blast
  have "real_of_int m * 10 powi shift * 10 ^ k = real_of_int (m * 10 ^ nat (max shift 0) * 10 ^ j)"
    by (simp add: powi_scale k power_add)
  then show "\<exists>z::int. real_of_int m * 10 powi shift * 10 ^ k = real_of_int z" by blast
next
  assume "\<exists>z::int. real_of_int m * 10 powi shift * 10 ^ k = real_of_int z"
  then obtain z :: int where z: "real_of_int m * 10 powi shift * 10 ^ k = real_of_int z" by blast
  show "scale_of shift \<le> k"
  proof (rule ccontr)
    assume "\<not> scale_of shift \<le> k"
    then obtain j where j: "scale_of shift = k + Suc j"
      by (metis less_iff_Suc_add not_le add_Suc_right)
    then have "shift < 0" by (auto simp: scale_of_def max_def split: if_split_asm)
    then have "real_of_int m = real_of_int z * 10 ^ Suc j"
      using z unfolding powi_scale j by (simp add: power_add field_simps)
    then have "m = z * 10 ^ Suc j" by (metis of_int_eq_iff of_int_mult of_int_numeral of_int_power)
    with assms show False by simp
  qed
qed

end
