(* ===== verification/Number_Bounds.thy ===== *)
theory Number_Bounds
  imports Perm_Values Decimal_Text
begin

text \<open>
  The decimal comparison of \<open>number_in_bounds\<close> (\<open>permissions/src/values.rs\<close>) against real
  arithmetic: what its text manipulation and scaled integers compute is the comparison of
  the number's exact decimal value, within the ranges its integer types allow.
\<close>

section \<open>Reading the text\<close>

text \<open>The texts the JSON crate prints stay far below the widths of the code's integers.\<close>

definition decimal_ok :: "string \<Rightarrow> string \<Rightarrow> int option \<Rightarrow> bool" where
  "decimal_ok ip fp ex \<longleftrightarrow>
     all_digits ip \<and> all_digits fp \<and> ip \<noteq> [] \<and> length ip + length fp \<le> 1000
     \<and> \<bar>exponent_of ex\<bar> \<le> 1000"

lemma no_exponent_mark:
  assumes "all_digits ip" "all_digits fp" "c \<in> set (mantissa_text neg ip fp)"
  shows "c \<noteq> CHR ''e'' \<and> c \<noteq> CHR ''E''"
  using assms all_digits_notin [OF _ not_digit_sign(4)] all_digits_notin [OF _ not_digit_sign(5)]
  by (auto simp: mantissa_text_def split: if_split_asm)

lemma split_exponent_decimal:
  assumes "decimal_ok ip fp ex"
  shows "split_exponent (decimal_text neg ip fp ex) =
    (mantissa_text neg ip fp, exponent_of ex)"
proof -
  let ?m = "mantissa_text neg ip fp"
  let ?P = "\<lambda>c. c \<noteq> CHR ''e'' \<and> c \<noteq> CHR ''E''"
  have m: "\<forall>c \<in> set ?m. ?P c"
    using no_exponent_mark assms unfolding decimal_ok_def by blast
  show ?thesis
  proof (cases ex)
    case None
    then have whole: "decimal_text neg ip fp ex = ?m" by (simp add: decimal_text_def)
    have rest: "dropWhile ?P ?m = []" using m by simp
    show ?thesis
      by (simp only: split_exponent_def exponent_of_def Let_def None rest
          whole [unfolded None] list.case option.case)
  next
    case (Some e)
    then have whole: "decimal_text neg ip fp ex = ?m @ CHR ''e'' # int_str e"
      by (simp add: decimal_text_def)
    have "takeWhile ?P (?m @ CHR ''e'' # int_str e) = ?m" "dropWhile ?P (?m @ CHR ''e'' # int_str e) = CHR ''e'' # int_str e"
      by (subst takeWhile_append2; use m in simp) (subst dropWhile_append2; use m in simp)
    moreover have "parse_int i32_min i32_max (int_str e) = Some e"
      using assms Some by (intro parse_int_int_str) (auto simp: decimal_ok_def exponent_of_def i32_min_def i32_max_def)
    ultimately show ?thesis
      unfolding split_exponent_def whole Let_def by (simp add: exponent_of_def Some)
  qed
qed

lemma mantissa_parts:
  assumes "decimal_ok ip fp ex"
  shows "starts_with ''-'' (mantissa_text neg ip fp) \<longleftrightarrow> neg"
    and "dropWhile (\<lambda>c. c = CHR ''-'') (mantissa_text neg ip fp) = ip @ (if fp = [] then [] else CHR ''.'' # fp)"
    and "(case split_once CHR ''.'' (ip @ (if fp = [] then [] else CHR ''.'' # fp)) of
            None \<Rightarrow> 0 | Some (_, f) \<Rightarrow> int (length f)) = int (length fp)"
    and "filter (\<lambda>c. c \<noteq> CHR ''.'') (ip @ (if fp = [] then [] else CHR ''.'' # fp)) = ip @ fp"
proof -
  from assms(1) have "CHR ''-'' \<notin> set ip" "ip \<noteq> []"
    using all_digits_notin [OF _ not_digit_sign(2)] by (auto simp: decimal_ok_def)
  then obtain d ds where ip: "ip = d # ds" "d \<noteq> CHR ''-''" by (cases ip) auto
  have dots: "CHR ''.'' \<notin> set ip" "CHR ''.'' \<notin> set fp"
    using assms(1) all_digits_notin [OF _ not_digit_sign(3)] by (auto simp: decimal_ok_def)
  show "starts_with ''-'' (mantissa_text neg ip fp) \<longleftrightarrow> neg" using ip by (simp add: mantissa_text_def starts_with_def)
  show "dropWhile (\<lambda>c. c = CHR ''-'') (mantissa_text neg ip fp) = ip @ (if fp = [] then [] else CHR ''.'' # fp)"
    using ip by (simp add: mantissa_text_def)
  show "(case split_once CHR ''.'' (ip @ (if fp = [] then [] else CHR ''.'' # fp)) of
            None \<Rightarrow> 0 | Some (_, f) \<Rightarrow> int (length f)) = int (length fp)"
    using dots split_once_None_iff [of "CHR ''.''" ip] by simp
  show "filter (\<lambda>c. c \<noteq> CHR ''.'') (ip @ (if fp = [] then [] else CHR ''.'' # fp)) = ip @ fp"
  proof -
    have "filter (\<lambda>c. c \<noteq> CHR ''.'') ip = ip" "filter (\<lambda>c. c \<noteq> CHR ''.'') fp = fp"
      by (rule filter_True; use dots in auto)+
    then show ?thesis by simp
  qed
qed

section \<open>The comparison\<close>

lemma scaled_comparison:
  fixes c :: int
  shows "lo * 10 ^ n \<le> c \<and> c \<le> hi * 10 ^ n
    \<longleftrightarrow> real_of_int lo \<le> real_of_int c / 10 ^ n \<and> real_of_int c / 10 ^ n \<le> real_of_int hi"
proof -
  have "lo * 10 ^ n \<le> c \<longleftrightarrow> real_of_int (lo * 10 ^ n) \<le> real_of_int c"
    "c \<le> hi * 10 ^ n \<longleftrightarrow> real_of_int c \<le> real_of_int (hi * 10 ^ n)"
    by (simp_all only: of_int_le_iff)
  then show ?thesis by (simp add: field_simps)
qed

text \<open>What the code makes of the significant digits: \<open>None\<close> where a 128-bit step overflows.\<close>

definition checked_coefficient :: "string \<Rightarrow> int \<Rightarrow> int option" where
  "checked_coefficient significant shift =
     (case parse_int i128_min i128_max significant of
        None \<Rightarrow> None
      | Some n \<Rightarrow> if shift > 0
          then (case checked_i128 (10 ^ nat shift) of
                  None \<Rightarrow> None | Some p \<Rightarrow> checked_i128 (p * n))
          else Some n)"

lemma checked_coefficient_iff:
  assumes "all_digits s" "s \<noteq> []" "digits_val s > 0"
  shows "checked_coefficient s shift =
     (let c = int (digits_val s) * 10 ^ nat (max shift 0)
      in if c \<le> i128_max then Some c else None)"
proof -
  let ?n = "int (digits_val s)" and ?p = "10 ^ nat (max shift 0) :: int"
  have n: "?n \<ge> 1" "?p \<ge> 1" using assms(3) by simp_all
  then have le: "?n \<le> ?n * ?p" "?p \<le> ?n * ?p" by (simp_all add: mult_le_cancel_left1 mult_le_cancel_right1)
  have parse: "parse_int i128_min i128_max s = (if ?n \<le> i128_max then Some ?n else None)"
    using assms n by (simp add: parse_int_digits i128_min_def)
  have neg: "i128_min \<le> x" if "x \<ge> 0" for x using that by (simp add: i128_min_def)
  show ?thesis
  proof (cases "shift > 0")
    case True
    then have p: "nat (max shift 0) = nat shift" by simp
    have ovf: "?n * 10 ^ nat shift \<le> i128_max \<Longrightarrow> ?n \<le> i128_max \<and> 10 ^ nat shift \<le> i128_max"
      using le unfolding p by linarith
    show ?thesis
    proof (cases "?n * 10 ^ nat shift \<le> i128_max")
      case fits: True
      with ovf parse True neg show ?thesis
        by (simp add: checked_coefficient_def checked_i128_def Let_def mult.commute p)
    next
      case False
      with parse True neg show ?thesis
        by (auto simp: checked_coefficient_def checked_i128_def Let_def mult.commute p split: option.split)
    qed
  next
    case False
    with parse show ?thesis by (simp add: checked_coefficient_def Let_def max_def)
  qed
qed

lemma i128_beyond:
  fixes c :: int
  assumes "c > i128_max" "n \<le> 12" "i64_min \<le> lo" "hi \<le> i64_max" "\<bar>d\<bar> = c"
  shows "\<not> (lo * 10 ^ n \<le> d \<and> d \<le> hi * 10 ^ n)"
proof
  assume d: "lo * 10 ^ n \<le> d \<and> d \<le> hi * 10 ^ n"
  have p: "(10::int) ^ n \<le> 10 ^ 12" using assms(2) by (intro power_increasing) auto
  have b: "hi \<le> 2 ^ 63" "- (2 ^ 63) \<le> lo" using assms(3,4) by (simp_all add: i64_max_def i64_min_def)
  have "hi * 10 ^ n \<le> 2 ^ 63 * 10 ^ n" "- (2 ^ 63) * 10 ^ n \<le> lo * 10 ^ n"
    by (rule mult_right_mono; use b in simp)+
  moreover have "2 ^ 63 * 10 ^ n \<le> (2 ^ 63 * 10 ^ 12 :: int)"
    by (rule mult_left_mono [OF p]) simp
  ultimately have "d \<le> 2 ^ 63 * 10 ^ 12" "- (2 ^ 63 * 10 ^ 12) \<le> d"
    using d by linarith+
  with assms(1,5) show False by (simp add: i128_max_def)
qed

lemma wrap_i32_id: "- (2 ^ 31) \<le> x \<Longrightarrow> x < 2 ^ 31 \<Longrightarrow> wrap_i32 x = x"
  by (simp add: wrap_i32_def)

text \<open>
  C29. \<open>number_in_bounds\<close> decides exact decimal arithmetic: a JSON number whose text is a
  decimal passes exactly when the bounds are in order, at most 12 fraction digits are asked
  for, the real number the text denotes lies between the bounds, and it is a whole number of
  units of \<open>10 ^ -max_fraction_digits\<close>. No rounding and no overflow of the 32-bit exponent
  or the 128-bit coefficient changes the answer.
\<close>

theorem number_in_bounds_exact:
  assumes "number_text n = decimal_text neg ip fp ex" and "decimal_ok ip fp ex"
    and "i64_min \<le> lo" and "hi \<le> i64_max"
  shows "number_in_bounds (JNumber n) lo hi k \<longleftrightarrow>
    lo \<le> hi \<and> k \<le> 12
    \<and> real_of_int lo \<le> decimal_value neg ip fp ex \<and> decimal_value neg ip fp ex \<le> real_of_int hi
    \<and> (\<exists>z::int. decimal_value neg ip fp ex * 10 ^ k = real_of_int z)"
proof (cases "lo \<le> hi \<and> k \<le> 12")
  case False
  then show ?thesis by (auto simp: number_in_bounds_def)
next
  case True
  define s where "s = trim_end_zeros (ip @ fp)"
  define shift where "shift = exponent_of ex - int (length fp) + int (length (ip @ fp) - length s)"
  note parts = mantissa_parts [OF assms(2)]
  have len: "length s \<le> length (ip @ fp)"
    unfolding s_def by (metis le_add1 length_append trim_end_zeros_split)
  have wraps: "wrap_i32 (wrap_i32 (exponent_of ex - int (length fp)) + int (length (ip @ fp) - length s)) = shift"
  proof -
    have "wrap_i32 (exponent_of ex - int (length fp)) = exponent_of ex - int (length fp)"
      using assms(2) by (intro wrap_i32_id) (auto simp: decimal_ok_def)
    moreover have "wrap_i32 shift = shift"
      using assms(2) len unfolding shift_def by (intro wrap_i32_id) (auto simp: decimal_ok_def)
    ultimately show ?thesis by (simp add: shift_def)
  qed
  have "int (length (ip @ fp) - length s) \<le> 1000" "int (length fp) \<le> 1000"
    using assms(2) by (auto simp: decimal_ok_def)
  then have small: "\<bar>shift\<bar> \<le> 4000"
    using assms(2) unfolding shift_def decimal_ok_def by linarith
  then have neg_shift: "nat (max (saturating_neg_i32 shift) 0) = scale_of shift"
    by (simp add: saturating_neg_i32_def scale_of_def i32_min_def)
  have code: "number_in_bounds (JNumber n) lo hi k \<longleftrightarrow>
    (if s = [] then lo \<le> 0 \<and> hi \<ge> 0
     else if scale_of shift > k then False
     else (case checked_coefficient s shift of None \<Rightarrow> False
           | Some c \<Rightarrow> lo * 10 ^ scale_of shift \<le> (if neg then - c else c)
               \<and> (if neg then - c else c) \<le> hi * 10 ^ scale_of shift))"
  proof -
    have cond: "\<not> (lo > hi \<or> k > 12)" using True by simp
    show ?thesis
      unfolding number_in_bounds_def if_not_P [OF cond] json.case assms(1)
        split_exponent_decimal [OF assms(2)] Let_def prod.case parts
        s_def [symmetric] wraps neg_shift checked_coefficient_def [symmetric]
      by (rule refl)
  qed
  have digits: "all_digits (ip @ fp)" using assms(2) by (simp add: decimal_ok_def)
  have val: "decimal_value neg ip fp ex = real_of_int ((if neg then -1 else 1) * int (digits_val s)) * 10 powi shift"
  proof -
    have "real (digits_val (ip @ fp)) = real (digits_val s) * 10 ^ (length (ip @ fp) - length s)"
      by (subst digits_val_trim) (simp add: s_def)
    moreover have "(10::real) powi shift = 10 ^ (length (ip @ fp) - length s) * 10 powi (exponent_of ex - int (length fp))"
      unfolding shift_def by (subst power_int_add) (simp_all add: power_int_def mult.commute)
    ultimately show ?thesis by (simp add: decimal_value_def)
  qed
  show ?thesis
  proof (cases "s = []")
    case True
    then have "decimal_value neg ip fp ex = 0" by (simp add: val)
    with True \<open>lo \<le> hi \<and> k \<le> 12\<close> show ?thesis
      unfolding code by (auto intro: exI [of _ 0])
  next
    case False
    have s: "all_digits s" "digits_val s mod 10 \<noteq> 0" "digits_val s > 0"
      using trim_end_zeros_last [of "ip @ fp"] False digits trim_end_zeros_split [of "ip @ fp"]
      by (auto simp: s_def) (metis all_digits_simps(3) digits)
    define m where "m = (if neg then -1 else 1) * int (digits_val s)"
    have m10: "m mod 10 \<noteq> 0"
      using s(2) by (auto simp: m_def zmod_zminus1_eq_if simp flip: zmod_int) presburger+
    define d where "d = m * 10 ^ nat (max shift 0)"
    have real: "decimal_value neg ip fp ex = real_of_int d / 10 ^ scale_of shift"
      unfolding val d_def m_def powi_scale by simp
    have frac: "(\<exists>z::int. decimal_value neg ip fp ex * 10 ^ k = real_of_int z) \<longleftrightarrow> scale_of shift \<le> k"
      unfolding val m_def [symmetric] by (rule fraction_digits_iff [OF m10])
    have range: "real_of_int lo \<le> decimal_value neg ip fp ex \<and> decimal_value neg ip fp ex \<le> real_of_int hi
      \<longleftrightarrow> lo * 10 ^ scale_of shift \<le> d \<and> d \<le> hi * 10 ^ scale_of shift"
      unfolding real scaled_comparison ..
    define c where "c = int (digits_val s) * 10 ^ nat (max shift 0)"
    have d: "d = (if neg then - c else c)" "\<bar>d\<bar> = c" by (simp_all add: d_def m_def c_def abs_mult)
    have coeff: "checked_coefficient s shift = (if c \<le> i128_max then Some c else None)"
      using checked_coefficient_iff [OF s(1) False s(3)] by (simp add: Let_def c_def)
    show ?thesis
    proof (cases "scale_of shift \<le> k")
      case fits: True
      have "\<not> (lo * 10 ^ scale_of shift \<le> d \<and> d \<le> hi * 10 ^ scale_of shift)" if "c > i128_max"
        by (rule i128_beyond [OF that _ assms(3,4) d(2)]) (use fits \<open>lo \<le> hi \<and> k \<le> 12\<close> in simp)
      then have "number_in_bounds (JNumber n) lo hi k \<longleftrightarrow>
          lo * 10 ^ scale_of shift \<le> d \<and> d \<le> hi * 10 ^ scale_of shift"
        using fits False unfolding code coeff d(1) by (cases "c \<le> i128_max") simp_all
      with range frac fits \<open>lo \<le> hi \<and> k \<le> 12\<close> show ?thesis by blast
    next
      case False
      with \<open>s \<noteq> []\<close> show ?thesis unfolding code frac by simp
    qed
  qed
qed

lemma number_in_bounds_exact_witness:
  "real_of_int 0 \<le> decimal_value False ''1'' ''5'' (Some (-1))
   \<and> decimal_value False ''1'' ''5'' (Some (-1)) \<le> real_of_int 1
   \<and> (\<exists>z::int. decimal_value False ''1'' ''5'' (Some (-1)) * 10 ^ 2 = real_of_int z)"
proof -
  have "number_text (Float ''1.5e-1'') = decimal_text False ''1'' ''5'' (Some (-1))" by code_simp
  moreover have "decimal_ok ''1'' ''5'' (Some (-1))" by code_simp
  moreover have "i64_min \<le> 0" "1 \<le> i64_max" by (simp_all add: i64_min_def i64_max_def)
  moreover have "number_in_bounds (JNumber (Float ''1.5e-1'')) 0 1 2" by code_simp
  ultimately show ?thesis using number_in_bounds_exact by blast
qed

end
