(* ===== verification/App_Error.thy ===== *)
theory App_Error
  imports Rust_Str
begin

text \<open>
  The part of the backend's error enumeration (\<open>AppError\<close>, \<open>backend/src/errors/mod.rs\<close>)
  that the modelled services return, with the HTTP status and the numeric code each variant
  is reported with.
\<close>

datatype app_error =
    BadRequest string
  | ValidationError string
  | NotFound string
  | Forbidden string
  | Conflict string
  | Internal string
  | ServicePoolMemberInvalid string
  | ServicePoolNotFound string
  | ServicePoolNoViableMember string
  | BillingProviderUnavailable string
  | BillingNotConfigured string
  | ApiKeyScopeForbidden string
  | ChannelMediaTooLarge
  | ChannelMediaFetchFailed string
  | DatabaseError string

fun status_code :: "app_error \<Rightarrow> nat" where
  "status_code (BadRequest _) = 400"
| "status_code (ValidationError _) = 400"
| "status_code (NotFound _) = 404"
| "status_code (Forbidden _) = 403"
| "status_code (Conflict _) = 409"
| "status_code (Internal _) = 500"
| "status_code (ServicePoolMemberInvalid _) = 400"
| "status_code (ServicePoolNotFound _) = 404"
| "status_code (ServicePoolNoViableMember _) = 502"
| "status_code (BillingProviderUnavailable _) = 402"
| "status_code (BillingNotConfigured _) = 402"
| "status_code (ApiKeyScopeForbidden _) = 403"
| "status_code ChannelMediaTooLarge = 413"
| "status_code (ChannelMediaFetchFailed _) = 502"
| "status_code (DatabaseError _) = 500"

end
