(* ===== verification/Rust_Utf8.thy ===== *)
theory Rust_Utf8
  imports Rust_Str
begin

text \<open>
  UTF-8 as Rust's \<open>str::from_utf8\<close> and \<open>String::from_utf8_lossy\<close> read it: one step of the
  validation, the validation and the lossy decoding.
\<close>

text \<open>
  One step of Rust's UTF-8 validation: the length of the next character, or that of the
  maximal invalid prefix \<open>from_utf8_lossy\<close> replaces.
\<close>

definition continuation :: "nat \<Rightarrow> bool" where
  "continuation b \<longleftrightarrow> 128 \<le> b \<and> b < 192"

definition second_ok :: "nat \<Rightarrow> nat \<Rightarrow> bool" where
  "second_ok a b \<longleftrightarrow>
     (if a = 224 then 160 \<le> b \<and> b < 192
      else if a = 237 then 128 \<le> b \<and> b < 160
      else if a = 240 then 144 \<le> b \<and> b < 192
      else if a = 244 then 128 \<le> b \<and> b < 144
      else continuation b)"

definition nth_byte :: "string \<Rightarrow> nat \<Rightarrow> nat" where
  "nth_byte s i = (if i < length s then byte (s ! i) else 0)"

definition utf8_step :: "string \<Rightarrow> bool \<times> nat" where
  "utf8_step s = (let a = nth_byte s 0; b = nth_byte s 1; c = nth_byte s 2; d = nth_byte s 3 in
     if a < 128 then (True, 1)
     else if 194 \<le> a \<and> a < 224 then (if continuation b then (True, 2) else (False, 1))
     else if 224 \<le> a \<and> a < 240 then
       (if \<not> second_ok a b then (False, 1) else if continuation c then (True, 3) else (False, 2))
     else if 240 \<le> a \<and> a < 245 then
       (if \<not> second_ok a b then (False, 1) else if \<not> continuation c then (False, 2)
        else if continuation d then (True, 4) else (False, 3))
     else (False, 1))"

lemma utf8_step_pos: "0 < snd (utf8_step s)"
  by (simp add: utf8_step_def Let_def)

function utf8_valid :: "string \<Rightarrow> bool" where
  "utf8_valid s = (if s = [] then True else fst (utf8_step s) \<and> utf8_valid (drop (snd (utf8_step s)) s))"
  by auto

termination
  by (relation "measure length") (simp_all add: utf8_step_pos)

declare utf8_valid.simps [simp del]

text \<open>\<open>String::from_utf8_lossy\<close>: each invalid prefix becomes U+FFFD, EF BF BD.\<close>

definition replacement :: string where
  "replacement = [char_of (239::nat), char_of (191::nat), char_of (189::nat)]"

function utf8_lossy :: "string \<Rightarrow> string" where
  "utf8_lossy s = (if s = [] then []
     else (if fst (utf8_step s) then take (snd (utf8_step s)) s else replacement)
          @ utf8_lossy (drop (snd (utf8_step s)) s))"
  by auto

termination
  by (relation "measure length") (simp_all add: utf8_step_pos)

declare utf8_lossy.simps [simp del]

end
