(* ===== verification/Proxy_Authorization.thy ===== *)
theory Proxy_Authorization
  imports App_Error Json Rust_Utf8
begin

text \<open>
  Operation policies of proxied services
  (\<open>backend/src/services/proxy_authorization.rs\<close>): the canonical path, percent decoding, the
  template grammar, the matching of a path against a rule with its captures, the value
  grammars and the path that is forwarded upstream. The URL encoder and the Unicode letter
  tables are parameters.
\<close>

record proxy_externals =
  px_alphabetic :: "string \<Rightarrow> bool"
  px_alphanumeric :: "string \<Rightarrow> bool"
  px_encode :: "string \<Rightarrow> string"

section \<open>UTF-8\<close>

definition is_cont :: "char \<Rightarrow> bool" where
  "is_cont c \<longleftrightarrow> 128 \<le> byte c \<and> byte c < 192"

text \<open>\<open>str::chars\<close>: the characters of a string, each as its bytes.\<close>

function (sequential) utf8_chars :: "string \<Rightarrow> string list" where
  "utf8_chars [] = []"
| "utf8_chars (c # s) = (c # takeWhile is_cont s) # utf8_chars (dropWhile is_cont s)"
  by pat_completeness auto
termination
  by (relation "measure length") (auto simp: le_imp_less_Suc length_dropWhile_le)

section \<open>Canonical paths\<close>

text \<open>\<open>CanonicalPath\<close>: its segments.\<close>

type_synonym canonical_path = "string list"

definition invalid_path :: app_error where
  "invalid_path = BadRequest ''Invalid proxy path''"

definition strip_slash :: "string \<Rightarrow> string" where
  "strip_slash path = (case strip_prefix ''/'' path of None \<Rightarrow> path | Some r \<Rightarrow> r)"

definition reject_common_ambiguity :: "string \<Rightarrow> bool \<Rightarrow> app_error + unit" where
  "reject_common_ambiguity path reject_percent =
     (if CHR ''?'' \<in> set path
         \<or> CHR ''#'' \<in> set path
         \<or> CHR 0x5C \<in> set path
         \<or> reject_percent \<and> CHR ''%'' \<in> set path
         \<or> list_ex (\<lambda>c. byte c < 32 \<or> byte c = 127) path
         \<or> starts_with ''//'' path
         \<or> contains_str ''//'' path
         \<or> length path > 1 \<and> ends_with ''/'' path
      then Err invalid_path
      else if list_ex (\<lambda>s. s = ''.'' \<or> s = ''..'') (split_on CHR ''/'' (strip_slash path))
      then Err invalid_path
      else Ok ())"

definition from_decoded :: "string \<Rightarrow> app_error + canonical_path" where
  "from_decoded path =
     and_then (reject_common_ambiguity path True) (\<lambda>_.
       Ok (if strip_slash path = [] then [] else split_on CHR ''/'' (strip_slash path)))"

definition hex_value :: "char \<Rightarrow> nat option" where
  "hex_value c =
     (let b = byte c in
      if 48 \<le> b \<and> b \<le> 57 then Some (b - 48)
      else if 97 \<le> b \<and> b \<le> 102 then Some (b - 97 + 10)
      else if 65 \<le> b \<and> b \<le> 70 then Some (b - 65 + 10)
      else None)"

text \<open>The decoding loop: \<open>None\<close> is its error.\<close>

fun decode_bytes :: "string \<Rightarrow> string option" where
  "decode_bytes [] = Some []"
| "decode_bytes (c # s) =
     (if c \<noteq> CHR ''%'' then map_option ((#) c) (decode_bytes s)
      else (case s of
        h # l # rest \<Rightarrow>
          (case (hex_value h, hex_value l) of
             (Some high, Some low) \<Rightarrow>
               (let b = char_of (16 * high + low) in
                if b \<in> {CHR ''/'', CHR 0x5C, CHR ''%'', CHR 0x00} then None
                else map_option ((#) b) (decode_bytes rest))
           | _ \<Rightarrow> None)
      | _ \<Rightarrow> None))"

definition percent_decode_path :: "string \<Rightarrow> app_error + string" where
  "percent_decode_path path = (case decode_bytes path of
     None \<Rightarrow> Err invalid_path
   | Some d \<Rightarrow> if utf8_valid d then Ok d else Err invalid_path)"

definition from_rest_decoded :: "string \<Rightarrow> app_error + canonical_path" where
  "from_rest_decoded path = from_decoded path"

definition from_mcp_literal :: "string \<Rightarrow> app_error + canonical_path" where
  "from_mcp_literal path = from_decoded path"

definition from_mcp_built :: "string \<Rightarrow> app_error + canonical_path" where
  "from_mcp_built path =
     and_then (reject_common_ambiguity path False) (\<lambda>_.
     and_then (percent_decode_path path) from_decoded)"

definition as_policy_path :: "canonical_path \<Rightarrow> string" where
  "as_policy_path segments = (if segments = [] then ''/'' else CHR ''/'' # join ''/'' segments)"

section \<open>Templates and rules\<close>

datatype proxy_path_constraint = SheetsA1Range | MultiSegment

record proxy_rule =
  pr_method :: string
  pr_path_template :: string
  pr_target_id :: "string option"
  pr_constraints :: "(string, proxy_path_constraint) btree_map"

type_synonym proxy_policy = "proxy_rule list"

definition invalid_template :: app_error where
  "invalid_template = ValidationError ''Invalid proxy operation path template''"

definition split_template_segment :: "string \<Rightarrow> string \<times> string option" where
  "split_template_segment segment = (case split_once CHR '':'' segment of
     Some (resource, verb) \<Rightarrow> (resource, Some verb)
   | None \<Rightarrow> (segment, None))"

definition strip_custom_method :: "string \<Rightarrow> string \<Rightarrow> string option" where
  "strip_custom_method actual verb = (case strip_suffix verb actual of
     None \<Rightarrow> None
   | Some r \<Rightarrow> (case strip_suffix '':'' r of
       None \<Rightarrow> None
     | Some resource \<Rightarrow> if resource \<noteq> [] then Some resource else None))"

definition validate_template_segment :: "string \<Rightarrow> app_error + unit" where
  "validate_template_segment segment =
     (let (resource, verb) = split_template_segment segment in
      if (case verb of None \<Rightarrow> False | Some v \<Rightarrow> v = [] \<or> \<not> list_all is_ascii_alphanumeric v \<or> resource = [])
      then Err invalid_template
      else if starts_with ''{'' resource \<or> ends_with ''}'' resource
      then (if starts_with ''{'' resource \<and> ends_with ''}'' resource \<and> length resource > 2
               \<and> \<not> list_ex (\<lambda>c. \<not> is_ascii_alphanumeric c \<and> c \<noteq> CHR ''_'') (butlast (tl resource))
            then Ok () else Err invalid_template)
      else if contains_any [CHR ''*'', CHR ''['', CHR '']'', CHR ''('', CHR '')'', CHR ''|'',
                            CHR ''{'', CHR ''}''] resource
      then Err invalid_template
      else Ok ())"

definition trim_slashes :: "string \<Rightarrow> string" where
  "trim_slashes s = dropWhile (\<lambda>c. c = CHR ''/'') s"

definition validate_template :: "string \<Rightarrow> app_error + unit" where
  "validate_template template =
     (if length template > 2048
      then Err (ValidationError ''proxy operation path template exceeds 2048 bytes'')
      else if CHR '' '' \<in> set template \<or> \<not> starts_with ''/'' template
      then Err (ValidationError ''proxy operation paths must be root-anchored'')
      else and_then (map_err (\<lambda>_. invalid_template) (reject_common_ambiguity template True)) (\<lambda>_.
        if template = ''/'' then Ok ()
        else for_each validate_template_segment (split_on CHR ''/'' (trim_slashes template))))"

definition parameter_name :: "string \<Rightarrow> string option" where
  "parameter_name resource = (case strip_prefix ''{'' resource of
     None \<Rightarrow> None | Some r \<Rightarrow> strip_suffix ''}'' r)"

definition validate_rule :: "proxy_rule \<Rightarrow> app_error + unit" where
  "validate_rule rule =
     and_then (validate_template (pr_path_template rule)) (\<lambda>_.
       for_each (\<lambda>name.
         if list_ex (\<lambda>segment. parameter_name (fst (split_template_segment segment)) = Some name)
              (split_on CHR ''/'' (pr_path_template rule))
         then Ok () else Err invalid_template) (map fst (pr_constraints rule)))"

definition validate_target_id :: "string \<Rightarrow> app_error + unit" where
  "validate_target_id tid =
     (if tid = [] \<or> length tid > 64
         \<or> \<not> list_all (\<lambda>b. is_ascii_alphanumeric b \<or> b = CHR ''_'' \<or> b = CHR ''-'') tid
      then Err (ValidationError ''Destination target IDs must contain 1-64 ASCII letters, digits, underscores, or hyphens'')
      else Ok ())"

definition HTTP_METHODS :: "string list" where
  "HTTP_METHODS = [''GET'', ''POST'', ''PUT'', ''PATCH'', ''DELETE'', ''HEAD'', ''OPTIONS'']"

text \<open>The loop of \<open>normalize_policy\<close>: \<open>done\<close> are the rules pushed so far.\<close>

fun normalize_rules :: "proxy_policy \<Rightarrow> proxy_policy \<Rightarrow> app_error + proxy_policy" where
  "normalize_rules acc [] = Ok acc"
| "normalize_rules acc (rule # rules) =
     (let m = to_ascii_uppercase (trim (pr_method rule)) in
      if m \<notin> set HTTP_METHODS
      then Err (ValidationError (''Unsupported proxy operation method: '' @ pr_method rule))
      else and_then (validate_rule rule) (\<lambda>_.
        and_then (case pr_target_id rule of None \<Rightarrow> Ok () | Some tid \<Rightarrow> validate_target_id tid) (\<lambda>_.
          if list_ex (\<lambda>existing. pr_method existing = m
               \<and> pr_path_template existing = pr_path_template rule
               \<and> pr_target_id existing \<noteq> pr_target_id rule) acc
          then Err (ValidationError ''Identical operations may not select different targets'')
          else normalize_rules (acc @ [rule\<lparr>pr_method := m\<rparr>]) rules)))"

definition normalize_policy :: "proxy_policy \<Rightarrow> app_error + proxy_policy" where
  "normalize_policy rules =
     (if length rules > 256
      then Err (ValidationError ''proxy_operation_policy must not exceed 256 rules'')
      else normalize_rules [] rules)"

section \<open>Rules from endpoint parameters\<close>

text \<open>The derived deserializer of the constraint: its name, or an object with that one key.\<close>

definition constraint_of :: "json \<Rightarrow> proxy_path_constraint option" where
  "constraint_of v =
     (let name = (case v of JString s \<Rightarrow> Some s | JObject [(s, JNull)] \<Rightarrow> Some s | _ \<Rightarrow> None)
      in if name = Some ''sheets_a1_range'' then Some SheetsA1Range
         else if name = Some ''multi_segment'' then Some MultiSegment
         else None)"

definition add_constraint ::
  "string \<Rightarrow> proxy_path_constraint \<Rightarrow> proxy_rule \<Rightarrow> app_error + proxy_rule" where
  "add_constraint name c rule =
     (if btm_contains (pr_constraints rule) name then Err invalid_template
      else Ok (rule\<lparr>pr_constraints := btm_insert name c (pr_constraints rule)\<rparr>))"

definition add_parameter :: "json \<Rightarrow> proxy_rule \<Rightarrow> app_error + proxy_rule" where
  "add_parameter parameter rule =
     (if jindex parameter ''in'' \<noteq> JString ''path''
      then (if jget parameter ''x-nyxid-path-constraint'' \<noteq> None then Err invalid_template else Ok rule)
      else (case as_str (jindex parameter ''name'') of
        None \<Rightarrow> Err invalid_template
      | Some name \<Rightarrow>
          and_then (if as_bool (jindex parameter ''allowReserved'') = Some True
                       \<or> as_bool (jindex parameter ''x-nyxid-path-segments'') = Some True
                    then add_constraint name MultiSegment rule else Ok rule) (\<lambda>rule'.
            (case jget parameter ''x-nyxid-path-constraint'' of
               None \<Rightarrow> Ok rule'
             | Some c \<Rightarrow> (case constraint_of c of
                 None \<Rightarrow> Err invalid_template
               | Some constraint \<Rightarrow> add_constraint name constraint rule')))))"

fun add_parameters :: "json list \<Rightarrow> proxy_rule \<Rightarrow> app_error + proxy_rule" where
  "add_parameters [] rule = Ok rule"
| "add_parameters (parameter # ps) rule =
     and_then (add_parameter parameter rule) (\<lambda>rule'. add_parameters ps rule')"

definition rule_from_endpoint :: "string \<Rightarrow> string \<Rightarrow> json option \<Rightarrow> app_error + proxy_rule" where
  "rule_from_endpoint method path parameters =
     and_then (add_parameters
         (case parameters of None \<Rightarrow> [] | Some v \<Rightarrow> (case as_array v of None \<Rightarrow> [] | Some ps \<Rightarrow> ps))
         \<lparr>pr_method = to_ascii_uppercase (trim method), pr_path_template = path,
          pr_target_id = None, pr_constraints = []\<rparr>) (\<lambda>rule.
       and_then (validate_rule rule) (\<lambda>_. Ok rule))"

section \<open>Value grammars\<close>

definition a1_identifier :: "proxy_externals \<Rightarrow> string \<Rightarrow> bool" where
  "a1_identifier px value = (case utf8_chars value of
     [] \<Rightarrow> False
   | c # cs \<Rightarrow> (px_alphabetic px c \<or> c = ''_'')
       \<and> list_all (\<lambda>c. px_alphanumeric px c \<or> c = ''_'' \<or> c = ''.'') cs)"

text \<open>\<open>quoted.replace("''", "")\<close>: pairs of apostrophes are dropped from left to right.\<close>

fun drop_doubled :: "string \<Rightarrow> string" where
  "drop_doubled (c # d # s) =
     (if c = CHR 0x27 \<and> d = CHR 0x27 then drop_doubled s else c # drop_doubled (d # s))"
| "drop_doubled s = s"

definition a1_sheet :: "proxy_externals \<Rightarrow> string \<Rightarrow> bool" where
  "a1_sheet px value =
     (case (case strip_prefix [CHR 0x27] value of None \<Rightarrow> None | Some v \<Rightarrow> strip_suffix [CHR 0x27] v) of
        Some quoted \<Rightarrow>
          quoted \<noteq> []
          \<and> \<not> contains_any [CHR '':'', CHR ''/'', CHR 0x5C, CHR ''?'', CHR ''*'', CHR ''['', CHR '']''] quoted
          \<and> CHR 0x27 \<notin> set (drop_doubled quoted)
      | None \<Rightarrow> a1_identifier px value)"

definition strip_dollar :: "string \<Rightarrow> string" where
  "strip_dollar s = (case strip_prefix ''$'' s of None \<Rightarrow> s | Some r \<Rightarrow> r)"

definition a1_coordinate :: "string \<Rightarrow> bool" where
  "a1_coordinate value0 =
     (let value = strip_dollar value0;
          letters = length (takeWhile is_ascii_alphabetic value)
      in if letters > 3 then False
         else (let rest = drop letters value; row = strip_dollar rest
               in if row = [] then letters > 0 \<and> rest = []
                  else list_all is_ascii_digit row \<and> \<not> starts_with ''0'' row))"

definition sheets_a1_range :: "proxy_externals \<Rightarrow> string \<Rightarrow> bool" where
  "sheets_a1_range px value =
     (if starts_with [CHR 0x27] value \<and> ends_with [CHR 0x27] value then a1_sheet px value
      else (case (case rsplit_once CHR ''!'' value of
              Some (title, rng) \<Rightarrow> if \<not> a1_sheet px title then None else Some rng
            | None \<Rightarrow> Some value) of
          None \<Rightarrow> False
        | Some rng \<Rightarrow> (case split_once CHR '':'' rng of
              Some (start, end) \<Rightarrow> a1_coordinate start \<and> a1_coordinate end
            | None \<Rightarrow> a1_coordinate rng \<or> a1_identifier px rng)))"

definition parameter_matches ::
  "proxy_externals \<Rightarrow> proxy_path_constraint option \<Rightarrow> string \<Rightarrow> bool" where
  "parameter_matches px constraint value =
     (if value = [] \<or> value = ''.'' \<or> value = ''..''
         \<or> contains_any [CHR ''%'', CHR ''/'', CHR 0x5C, CHR ''?'', CHR ''#''] value
         \<or> has_control value
      then False
      else (case constraint of
          Some SheetsA1Range \<Rightarrow> sheets_a1_range px value
        | Some MultiSegment \<Rightarrow> True
        | None \<Rightarrow> CHR '':'' \<notin> set value \<and> \<not> has_whitespace value))"

section \<open>Matching\<close>

text \<open>
  The segments a parameter takes: one, or for a multi-segment parameter all but as many as
  template segments remain. \<open>rest\<close> is the path from \<open>actual_index\<close> on.
\<close>

definition take_value :: "bool \<Rightarrow> nat \<Rightarrow> string list \<Rightarrow> (string \<times> string list) option" where
  "take_value multi_segment remaining rest =
     (if multi_segment
      then (if length rest < remaining then None
            else (let n = length rest - remaining in
              if n = 0 then Some ([], rest)
              else (let vals = take n rest in
                if list_ex (\<lambda>value. value = [] \<or> value = ''.'' \<or> value = ''..''
                     \<or> contains_any [CHR ''%'', CHR 0x5C, CHR ''?'', CHR ''#''] value
                     \<or> has_control value) vals
                then None else Some (join ''/'' vals, drop n rest))))
      else (case rest of [] \<Rightarrow> None | actual # rest' \<Rightarrow> Some (actual, rest')))"

fun match_segments ::
  "proxy_externals \<Rightarrow> (string, proxy_path_constraint) btree_map \<Rightarrow> string list \<Rightarrow> string list
   \<Rightarrow> (string, string) btree_map \<Rightarrow> (string, string) btree_map option" where
  "match_segments px constraints [] rest arguments = (if rest = [] then Some arguments else None)"
| "match_segments px constraints (template # templates) rest arguments =
     (let (resource, verb) = split_template_segment template in
      (case parameter_name resource of
         None \<Rightarrow> (case rest of
             [] \<Rightarrow> None
           | actual # rest' \<Rightarrow>
               if actual \<noteq> template then None
               else match_segments px constraints templates rest' arguments)
       | Some name \<Rightarrow>
           (let multi_segment = (btm_get constraints name = Some MultiSegment) in
            (case take_value multi_segment (length templates) rest of
               None \<Rightarrow> None
             | Some (taken, rest') \<Rightarrow>
                 (case (case verb of None \<Rightarrow> Some taken | Some v \<Rightarrow> strip_custom_method taken v) of
                    None \<Rightarrow> None
                  | Some value \<Rightarrow>
                      if \<not> multi_segment \<and> \<not> parameter_matches px (btm_get constraints name) value
                      then None
                      else (case btm_get arguments name of
                          Some previous \<Rightarrow>
                            if previous \<noteq> value then None
                            else match_segments px constraints templates rest' arguments
                        | None \<Rightarrow>
                            match_segments px constraints templates rest'
                              (btm_insert name value arguments)))))))"

definition template_segments :: "proxy_rule \<Rightarrow> string list" where
  "template_segments rule =
     filter (\<lambda>s. s \<noteq> []) (split_on CHR ''/'' (trim_slashes (pr_path_template rule)))"

definition match_path_arguments ::
  "proxy_externals \<Rightarrow> proxy_rule \<Rightarrow> canonical_path \<Rightarrow> (string, string) btree_map option" where
  "match_path_arguments px rule path =
     (if is_err (validate_rule rule) then None
      else match_segments px (pr_constraints rule) (template_segments rule) path [])"

definition rule_matches :: "proxy_externals \<Rightarrow> proxy_rule \<Rightarrow> string \<Rightarrow> canonical_path \<Rightarrow> bool" where
  "rule_matches px rule method path \<longleftrightarrow>
     pr_method rule = method \<and> match_path_arguments px rule path \<noteq> None"

section \<open>Forwarding\<close>

definition forward_segment ::
  "proxy_externals \<Rightarrow> proxy_rule \<Rightarrow> (string, string) btree_map \<Rightarrow> string \<Rightarrow> string" where
  "forward_segment px rule arguments template =
     (let (resource, verb) = split_template_segment template;
          name = parameter_name resource;
          value = (case name of None \<Rightarrow> resource
            | Some n \<Rightarrow> (case btm_get arguments n of None \<Rightarrow> resource | Some v \<Rightarrow> v));
          encoded = (if (case name of None \<Rightarrow> False
                         | Some n \<Rightarrow> btm_get (pr_constraints rule) n = Some MultiSegment)
                     then join ''/'' (map (px_encode px) (split_on CHR ''/'' value))
                     else px_encode px value)
      in (case verb of Some v \<Rightarrow> encoded @ CHR '':'' # v | None \<Rightarrow> encoded))"

definition rule_forwarding_path ::
  "proxy_externals \<Rightarrow> proxy_rule \<Rightarrow> string \<Rightarrow> canonical_path \<Rightarrow> string option" where
  "rule_forwarding_path px rule method path =
     (if \<not> rule_matches px rule method path then None
      else (case match_path_arguments px rule path of
        None \<Rightarrow> None
      | Some arguments \<Rightarrow>
          Some (join ''/'' (map (forward_segment px rule arguments) (template_segments rule)))))"

definition authorize_proxy_operation_fields ::
  "proxy_externals \<Rightarrow> proxy_policy option \<Rightarrow> string \<Rightarrow> canonical_path \<Rightarrow> app_error + string" where
  "authorize_proxy_operation_fields px policy method0 path =
     (let method = to_ascii_uppercase (trim method0);
          forwarding_path = (case policy of
            Some rules \<Rightarrow> find_map (\<lambda>rule. rule_forwarding_path px rule method path) rules
          | None \<Rightarrow> Some (join ''/'' (map (px_encode px) path)))
      in ok_or forwarding_path (NotFound ''Service operation not found''))"

end
