(* ===== verification/Proxy_Properties.thy ===== *)
theory Proxy_Properties
  imports Proxy_Authorization
begin

text \<open>
  What an authorized proxy operation sends upstream: decoded once, the forwarded path is the
  canonical path that was authorized, and no custom-method delimiter appears in it that the
  matched rule does not declare.
\<close>

section \<open>The encoder's law\<close>

text \<open>
  \<open>urlencoding::encode\<close>: letters, digits and \<open>-_.~\<close> stay, every other byte is \<open>%\<close> and its two
  upper-case hexadecimal digits.
\<close>

definition hex_digit :: "nat \<Rightarrow> char" where
  "hex_digit n = (if n < 10 then char_of (48 + n) else char_of (55 + n))"

definition unreserved :: "char \<Rightarrow> bool" where
  "unreserved c \<longleftrightarrow> is_ascii_alphanumeric c \<or> c \<in> {CHR ''-'', CHR ''_'', CHR ''.'', CHR ''~''}"

definition pct_byte :: "char \<Rightarrow> string" where
  "pct_byte c = (if unreserved c then [c]
     else [CHR ''%'', hex_digit (byte c div 16), hex_digit (byte c mod 16)])"

definition encodes :: "proxy_externals \<Rightarrow> bool" where
  "encodes px \<longleftrightarrow> (\<forall>s. px_encode px s = concat (map pct_byte s))"

lemma byte_less: "byte c < 256"
  by (simp add: byte_def)

lemma char_of_byte [simp]: "char_of (byte c) = c"
  by (simp add: byte_def)

lemma byte_char_of: "n < 256 \<Longrightarrow> byte (char_of n) = n"
  by (simp add: byte_def of_char_of)

lemma hex_value_hex_digit: "n < 16 \<Longrightarrow> hex_value (hex_digit n) = Some n"
  by (auto simp: hex_digit_def hex_value_def byte_char_of Let_def)

section \<open>Decoding what was encoded\<close>

text \<open>\<open>p\<close> decodes to \<open>d\<close> wherever it stands.\<close>

definition decodes_to :: "string \<Rightarrow> string \<Rightarrow> bool" where
  "decodes_to p d \<longleftrightarrow> (\<forall>t. decode_bytes (p @ t) = map_option ((@) d) (decode_bytes t))"

lemma append_fun:
  "(@) [] = (\<lambda>x. x)" "(@) [c] = (#) c" "(@) (d @ e) = (\<lambda>x. d @ e @ x)"
  by auto

lemma decodes_Nil: "decodes_to [] []"
  by (simp add: decodes_to_def append_fun option.map_ident)

lemma decodes_append:
  "decodes_to p d \<Longrightarrow> decodes_to q e \<Longrightarrow> decodes_to (p @ q) (d @ e)"
  by (simp add: decodes_to_def option.map_comp comp_def append_fun)

lemma decodes_plain: "c \<noteq> CHR ''%'' \<Longrightarrow> decodes_to [c] [c]"
  by (simp add: decodes_to_def append_fun)

lemma decodes_plains: "CHR ''%'' \<notin> set s \<Longrightarrow> decodes_to s s"
proof (induction s)
  case (Cons c s)
  then have "decodes_to ([c] @ s) ([c] @ s)" by (intro decodes_append decodes_plain) auto
  then show ?case by simp
qed (rule decodes_Nil)

definition forbidden_bytes :: "char set" where
  "forbidden_bytes = {CHR ''/'', CHR 0x5C, CHR ''%'', CHR 0x00}"

lemma decodes_pct_byte: "c \<notin> forbidden_bytes \<Longrightarrow> decodes_to (pct_byte c) [c]"
proof (cases "unreserved c")
  case True
  moreover assume "c \<notin> forbidden_bytes"
  ultimately show ?thesis by (simp add: pct_byte_def forbidden_bytes_def decodes_plain)
next
  case False
  assume ok: "c \<notin> forbidden_bytes"
  have "byte c div 16 < 16" "byte c mod 16 < 16" using byte_less [of c] by auto
  moreover have "char_of (16 * (byte c div 16) + byte c mod 16) = c" by simp
  ultimately show ?thesis
    using False ok
    by (simp add: decodes_to_def pct_byte_def hex_value_hex_digit forbidden_bytes_def Let_def
        append_fun)
qed

lemma decodes_encoded:
  "encodes px \<Longrightarrow> set s \<inter> forbidden_bytes = {} \<Longrightarrow> decodes_to (px_encode px s) s"
proof -
  have "decodes_to (concat (map pct_byte s)) s" if "set s \<inter> forbidden_bytes = {}" for s
    using that
  proof (induction s)
    case (Cons c s)
    then have "decodes_to (pct_byte c @ concat (map pct_byte s)) ([c] @ s)"
      by (intro decodes_append decodes_pct_byte) auto
    then show ?case by simp
  qed (simp add: decodes_Nil)
  then show "encodes px \<Longrightarrow> set s \<inter> forbidden_bytes = {} \<Longrightarrow> decodes_to (px_encode px s) s"
    by (simp add: encodes_def)
qed

lemma decodes_join:
  "list_all2 decodes_to ps ds \<Longrightarrow> decodes_to (join ''/'' ps) (join ''/'' ds)"
proof (induction ps ds rule: list_all2_induct)
  case (Cons p ps d ds)
  show ?case
  proof (cases ps)
    case Nil
    with Cons show ?thesis by simp
  next
    case (Cons q qs)
    with \<open>list_all2 decodes_to ps ds\<close> have ne: "ps \<noteq> []" "ds \<noteq> []" by auto
    have "decodes_to (p @ ''/'' @ join ''/'' ps) (d @ ''/'' @ join ''/'' ds)"
      using Cons.hyps Cons.IH by (intro decodes_append decodes_plain) auto
    with ne show ?thesis by (simp add: join_Cons)
  qed
qed (simp add: decodes_Nil)

lemma decodes_whole: "decodes_to p d \<Longrightarrow> decode_bytes p = Some d"
  by (auto simp: decodes_to_def dest!: spec [of _ "[]"])

section \<open>What a match binds\<close>

text \<open>The decoded counterpart of one forwarded template segment, and whether it is multi-segment.\<close>

definition multi_template :: "(string, proxy_path_constraint) btree_map \<Rightarrow> string \<Rightarrow> bool" where
  "multi_template constraints template \<longleftrightarrow>
     (case parameter_name (fst (split_template_segment template)) of
        None \<Rightarrow> False | Some n \<Rightarrow> btm_get constraints n = Some MultiSegment)"

definition verb_suffix :: "string option \<Rightarrow> string" where
  "verb_suffix verb = (case verb of None \<Rightarrow> [] | Some v \<Rightarrow> CHR '':'' # v)"

definition template_value :: "(string, string) btree_map \<Rightarrow> string \<Rightarrow> string" where
  "template_value arguments template =
     (let resource = fst (split_template_segment template) in
      (case parameter_name resource of
         None \<Rightarrow> resource
       | Some n \<Rightarrow> (case btm_get arguments n of None \<Rightarrow> resource | Some v \<Rightarrow> v)))"

definition actual_segment :: "(string, string) btree_map \<Rightarrow> string \<Rightarrow> string" where
  "actual_segment arguments template =
     template_value arguments template @ verb_suffix (snd (split_template_segment template))"

lemma split_template_join:
  "fst (split_template_segment t) @ verb_suffix (snd (split_template_segment t)) = t"
  by (auto simp: split_template_segment_def verb_suffix_def split_once_Some_iff split: option.split)

lemma strip_custom_method_Some:
  "strip_custom_method taken v = Some value \<longleftrightarrow> taken = value @ CHR '':'' # v \<and> value \<noteq> []"
proof -
  have "strip_custom_method taken v = Some value \<longleftrightarrow>
      (\<exists>r. strip_suffix v taken = Some r \<and> strip_suffix '':'' r = Some value \<and> value \<noteq> [])"
    by (auto simp: strip_custom_method_def split: option.splits if_splits)
  then show ?thesis by (auto simp: strip_suffix_iff)
qed

definition segment_list_ok :: "string list \<Rightarrow> bool" where
  "segment_list_ok segs \<longleftrightarrow> (\<forall>s \<in> set segs. s \<noteq> [] \<and> CHR ''/'' \<notin> set s)"

lemma take_value_Some:
  assumes "take_value multi n rest = Some (taken, rest')" "segment_list_ok rest"
  shows "filter (\<lambda>s. s \<noteq> []) (split_on CHR ''/'' taken) @ rest' = rest"
    and "set taken \<subseteq> {CHR ''/''} \<union> \<Union> (set ` set rest)"
    and "\<not> multi \<Longrightarrow> CHR ''/'' \<notin> set taken"
    and "segment_list_ok rest'" "set rest' \<subseteq> set rest"
proof -
  consider (one) actual where "\<not> multi" "rest = actual # rest'" "taken = actual"
    | (none) "multi" "taken = []" "rest' = rest"
    | (some) k where "multi" "k > 0" "k \<le> length rest" "taken = join ''/'' (take k rest)" "rest' = drop k rest"
  proof (cases multi)
    case False
    with assms(1) that(1) show ?thesis by (auto simp: take_value_def split: list.split_asm)
  next
    case True
    show ?thesis
    proof (cases "length rest - n = 0")
      case z: True
      with True assms(1) that(2) show ?thesis by (auto simp: take_value_def split: if_split_asm)
    next
      case False
      with True assms(1) that(3) [of "length rest - n"] show ?thesis
        by (auto simp: take_value_def Let_def split: if_split_asm)
    qed
  qed
  then have "filter (\<lambda>s. s \<noteq> []) (split_on CHR ''/'' taken) @ rest' = rest
    \<and> set taken \<subseteq> {CHR ''/''} \<union> \<Union> (set ` set rest) \<and> (\<not> multi \<longrightarrow> CHR ''/'' \<notin> set taken)
    \<and> segment_list_ok rest' \<and> set rest' \<subseteq> set rest"
  proof cases
    case one
    with assms(2) show ?thesis by (auto simp: segment_list_ok_def)
  next
    case none
    with assms(2) show ?thesis by simp
  next
    case some
    then have ne: "take k rest \<noteq> []" by auto
    have ok: "\<forall>x \<in> set (take k rest). x \<noteq> [] \<and> CHR ''/'' \<notin> set x"
      using assms(2) by (auto simp: segment_list_ok_def dest: in_set_takeD)
    with ne some have "split_on CHR ''/'' taken = take k rest"
      using split_on_join by blast
    moreover have "filter (\<lambda>s. s \<noteq> []) (take k rest) = take k rest"
      using ok by (auto simp: filter_id_conv)
    moreover have "set taken \<subseteq> {CHR ''/''} \<union> \<Union> (set ` set rest)"
      unfolding some(4) using set_join [of "''/''" "take k rest"] by (auto dest: in_set_takeD)
    ultimately show ?thesis
      using some assms(2) by (auto simp: segment_list_ok_def dest: in_set_dropD)
  qed
  then show "filter (\<lambda>s. s \<noteq> []) (split_on CHR ''/'' taken) @ rest' = rest"
    "set taken \<subseteq> {CHR ''/''} \<union> \<Union> (set ` set rest)" "\<not> multi \<Longrightarrow> CHR ''/'' \<notin> set taken"
    "segment_list_ok rest'" "set rest' \<subseteq> set rest" by blast+
qed

text \<open>What a successful match says of its final arguments and the templates it consumed.\<close>

definition match_sound ::
  "(string, proxy_path_constraint) btree_map \<Rightarrow> string list \<Rightarrow> string list
   \<Rightarrow> (string, string) btree_map \<Rightarrow> (string, string) btree_map \<Rightarrow> bool" where
  "match_sound constraints templates rest arguments final \<longleftrightarrow>
     (\<forall>k v. btm_get arguments k = Some v \<longrightarrow> btm_get final k = Some v)
     \<and> filter (\<lambda>s. s \<noteq> []) (concat (map (\<lambda>t. split_on CHR ''/'' (actual_segment final t)) templates)) = rest
     \<and> (\<forall>t \<in> set templates. set (actual_segment final t) \<subseteq> {CHR ''/''} \<union> \<Union> (set ` set rest)
          \<and> (\<not> multi_template constraints t \<longrightarrow> CHR ''/'' \<notin> set (actual_segment final t)))"

lemma match_segments_sound:
  "match_segments px constraints templates rest arguments = Some final \<Longrightarrow> segment_list_ok rest \<Longrightarrow>
   match_sound constraints templates rest arguments final"
proof (induction px constraints templates rest arguments rule: match_segments.induct)
  case (1 px constraints rest arguments)
  then show ?case by (simp add: match_sound_def split: if_split_asm)
next
  case (2 px constraints template templates rest arguments)
  obtain resource verb where st: "split_template_segment template = (resource, verb)"
    by fastforce
  note whole = split_template_join [of template, unfolded st, simplified]
  show ?case
  proof (cases "parameter_name resource")
    case None
    with "2.prems" st obtain rest' where rest: "rest = template # rest'"
      and rec: "match_segments px constraints templates rest' arguments = Some final"
      by (auto split: list.split_asm if_split_asm)
    have "segment_list_ok rest'" using "2.prems"(2) rest by (auto simp: segment_list_ok_def)
    with "2.IH"(1) [OF st [symmetric] refl None rest] rec
    have "match_sound constraints templates rest' arguments final" by simp
    moreover have "actual_segment final template = template"
      using None st whole by (simp add: actual_segment_def template_value_def)
    ultimately show ?thesis
      using rest "2.prems"(2) by (auto simp: match_sound_def segment_list_ok_def)
  next
    case (Some name)
    let ?multi = "btm_get constraints name = Some MultiSegment"
    from "2.prems"(1) st Some obtain taken rest' val
      where taken: "take_value ?multi (length templates) rest = Some (taken, rest')"
        and vl: "(case verb of None \<Rightarrow> Some taken | Some v \<Rightarrow> strip_custom_method taken v) = Some val"
        and ok: "\<not> (\<not> ?multi \<and> \<not> parameter_matches px (btm_get constraints name) val)"
      by (auto simp: Let_def split: option.split_asm if_split_asm)
    note tv = take_value_Some [OF taken "2.prems"(2)]
    have whole': "val @ verb_suffix verb = taken"
      using vl by (auto simp: verb_suffix_def strip_custom_method_Some split: option.split_asm)
    have "\<exists>arguments'. match_sound constraints templates rest' arguments' final
        \<and> btm_get final name = Some val \<and> (\<forall>k v. btm_get arguments k = Some v \<longrightarrow> btm_get arguments' k = Some v)"
    proof (cases "btm_get arguments name")
      case None
      with "2.prems"(1) st Some taken vl ok
      have rec: "match_segments px constraints templates rest' (btm_insert name val arguments) = Some final"
        by simp
      with "2.IH"(2) [OF st [symmetric] refl Some refl taken refl vl ok None] tv(4)
      have "match_sound constraints templates rest' (btm_insert name val arguments) final" by simp
      then show ?thesis
        using None by (intro exI [of _ "btm_insert name val arguments"]) (auto simp: match_sound_def)
    next
      case prev: (Some previous)
      with "2.prems"(1) st Some taken vl ok
      have "previous = val" and rec: "match_segments px constraints templates rest' arguments = Some final"
        by (auto split: if_split_asm)
      with "2.IH"(3) [OF st [symmetric] refl Some refl taken refl vl ok prev] tv(4)
      have "match_sound constraints templates rest' arguments final" by simp
      with prev \<open>previous = val\<close> show ?thesis by (auto simp: match_sound_def)
    qed
    then obtain arguments' where sound: "match_sound constraints templates rest' arguments' final"
      and bound: "btm_get final name = Some val"
      and grows: "\<forall>k v. btm_get arguments k = Some v \<longrightarrow> btm_get arguments' k = Some v" by blast
    have actual: "actual_segment final template = taken"
      using st Some bound whole' by (simp add: actual_segment_def template_value_def)
    have multi: "multi_template constraints template \<longleftrightarrow> ?multi"
      using st Some by (simp add: multi_template_def)
    have "\<Union> (set ` set rest') \<subseteq> \<Union> (set ` set rest)" using tv(5) by blast
    with sound have later: "set (actual_segment final t) \<subseteq> {CHR ''/''} \<union> \<Union> (set ` set rest)
        \<and> (\<not> multi_template constraints t \<longrightarrow> CHR ''/'' \<notin> set (actual_segment final t))"
      if "t \<in> set templates" for t
      using that unfolding match_sound_def by blast
    show ?thesis
      unfolding match_sound_def
    proof (intro conjI ballI)
      show "\<forall>k v. btm_get arguments k = Some v \<longrightarrow> btm_get final k = Some v"
        using sound grows unfolding match_sound_def by blast
      show "filter (\<lambda>s. s \<noteq> []) (concat (map (\<lambda>t. split_on CHR ''/'' (actual_segment final t))
          (template # templates))) = rest"
        using sound actual tv(1) unfolding match_sound_def by simp
    qed (use later tv(2,3) actual multi in auto)
  qed
qed

section \<open>Canonical paths\<close>

lemma join_append:
  "us \<noteq> [] \<Longrightarrow> vs \<noteq> [] \<Longrightarrow> join sep (us @ vs) = join sep us @ sep @ join sep vs"
proof (induction us)
  case (Cons u us)
  then show ?case by (cases "us = []") (simp_all add: join_Cons)
qed simp

lemma empty_piece:
  assumes "[] \<in> set (split_on c s)"
  shows "s = [] \<or> hd s = c \<or> last s = c \<or> contains_str [c, c] s"
proof -
  from assms obtain us vs where ps: "split_on c s = us @ [] # vs" by (meson split_list)
  have s: "s = join [c] (us @ [] # vs)" using join_split_on [of c s] ps by simp
  consider "us = []" "vs = []" | "us = []" "vs \<noteq> []" | "us \<noteq> []" "vs = []" | "us \<noteq> []" "vs \<noteq> []" by blast
  then show ?thesis
  proof cases
    case 1
    with s show ?thesis by simp
  next
    case 2
    with s have "s = c # join [c] vs" by (simp add: join_Cons)
    then show ?thesis by simp
  next
    case 3
    with s have "s = join [c] us @ [c]" by (simp add: join_append)
    then show ?thesis by simp
  next
    case 4
    with s have "s = join [c] us @ [c, c] @ join [c] vs" by (simp add: join_append join_Cons)
    then have "sublist [c, c] s" by (auto simp: sublist_def)
    then show ?thesis by (simp add: contains_str_iff)
  qed
qed

lemma reject_common_ambiguity_OkD:
  assumes "reject_common_ambiguity path rp = Ok u"
  shows "CHR ''?'' \<notin> set path" "CHR ''#'' \<notin> set path" "CHR 0x5C \<notin> set path"
    "rp \<Longrightarrow> CHR ''%'' \<notin> set path" "c \<in> set path \<Longrightarrow> 32 \<le> byte c \<and> byte c \<noteq> 127"
    "\<not> contains_str ''//'' path" "\<not> (length path > 1 \<and> ends_with ''/'' path)"
    "seg \<in> set (split_on CHR ''/'' (strip_slash path)) \<Longrightarrow> seg \<noteq> ''.'' \<and> seg \<noteq> ''..''"
  using assms unfolding reject_common_ambiguity_def list_ex_iff
  by (simp_all split: if_split_asm) (auto simp: not_less)

text \<open>What the segments of a canonical path are made of.\<close>

definition canonical_segment :: "string \<Rightarrow> bool" where
  "canonical_segment s \<longleftrightarrow>
     s \<notin> {[], ''.'', ''..''}
     \<and> {CHR ''/'', CHR ''?'', CHR ''#'', CHR 0x5C, CHR ''%''} \<inter> set s = {}
     \<and> (\<forall>c \<in> set s. 32 \<le> byte c \<and> byte c \<noteq> 127)"

lemma strip_slash_simps [simp]:
  "strip_slash [] = []" "strip_slash (c # s) = (if c = CHR ''/'' then s else c # s)"
  by (auto simp: strip_slash_def)

lemma strip_slash_suffix: "suffix (strip_slash path) path"
  by (cases path) (auto simp: suffix_def)

lemma from_decoded_segments:
  assumes "from_decoded path = Ok segs"
  shows "list_all canonical_segment segs"
    and "segs = (if strip_slash path = [] then [] else split_on CHR ''/'' (strip_slash path))"
proof -
  let ?t = "strip_slash path"
  from assms have amb: "reject_common_ambiguity path True = Ok ()"
    and segs: "segs = (if ?t = [] then [] else split_on CHR ''/'' ?t)"
    by (auto simp: from_decoded_def)
  show "segs = (if ?t = [] then [] else split_on CHR ''/'' ?t)" by (rule segs)
  note ok = reject_common_ambiguity_OkD [OF amb]
  have sub: "set ?t \<subseteq> set path" by (rule set_mono_suffix [OF strip_slash_suffix])
  have "[] \<notin> set (split_on CHR ''/'' ?t)" if "?t \<noteq> []"
  proof
    assume "[] \<in> set (split_on CHR ''/'' ?t)"
    from empty_piece [OF this] that
    consider "hd ?t = CHR ''/''" | "last ?t = CHR ''/''" | "contains_str ''//'' ?t" by blast
    then show False
    proof cases
      case 1
      with that obtain u where "path = ''//'' @ u"
        by (cases path; cases "tl path") (auto split: if_split_asm)
      then have "contains_str ''//'' path" by (auto simp: contains_str_iff sublist_def)
      with ok show False by blast
    next
      case 2
      with that obtain u where t: "?t = u @ ''/''" by (metis append_butlast_last_id)
      then obtain w where path: "path = w @ ''/''" using strip_slash_suffix [of path]
        by (auto simp: suffix_def)
      then have "w \<noteq> []" using that by auto
      with path have "length path > 1 \<and> ends_with ''/'' path"
        by (auto simp: ends_with_iff Suc_le_eq)
      with ok show False by blast
    next
      case 3
      then have "contains_str ''//'' path"
        unfolding contains_str_iff
        by (meson sublist_order.order.trans suffix_imp_sublist strip_slash_suffix)
      with ok show False by blast
    qed
  qed
  moreover have "canonical_segment seg" if "seg \<in> set (split_on CHR ''/'' ?t)" "seg \<noteq> []" for seg
  proof -
    have "CHR ''/'' \<notin> set seg" "set seg \<subseteq> set path" using split_on_pieces [OF that(1)] sub by auto
    with ok that show ?thesis unfolding canonical_segment_def by blast
  qed
  ultimately show "list_all canonical_segment segs"
    unfolding segs list_all_iff by auto
qed

lemma canonical_segmentsD:
  assumes "list_all canonical_segment segs"
  shows "segment_list_ok segs" "c \<in> \<Union> (set ` set segs) \<Longrightarrow> c \<notin> forbidden_bytes"
proof -
  show "segment_list_ok segs"
    using assms unfolding list_all_iff segment_list_ok_def canonical_segment_def by blast
  assume "c \<in> \<Union> (set ` set segs)"
  then obtain seg where seg: "canonical_segment seg" "c \<in> set seg" using assms unfolding list_all_iff by blast
  have "byte CHR 0x00 = 0" by (simp add: byte_def)
  moreover have "32 \<le> byte c" using seg unfolding canonical_segment_def by blast
  ultimately have "c \<noteq> CHR 0x00" by auto
  with seg show "c \<notin> forbidden_bytes" unfolding forbidden_bytes_def canonical_segment_def by blast
qed

section \<open>The forwarded path\<close>

lemma decodes_forward_segment:
  assumes enc: "encodes px" and bytes: "set (actual_segment arguments t) \<subseteq> {CHR ''/''} \<union> - forbidden_bytes"
    and single: "\<not> multi_template (pr_constraints rule) t \<Longrightarrow> CHR ''/'' \<notin> set (actual_segment arguments t)"
  shows "decodes_to (forward_segment px rule arguments t) (actual_segment arguments t)"
proof -
  let ?bound = "template_value arguments t" and ?verb = "snd (split_template_segment t)"
  have val: "set ?bound \<subseteq> {CHR ''/''} \<union> - forbidden_bytes" and verb: "CHR ''%'' \<notin> set (verb_suffix ?verb)"
    using bytes by (auto simp: actual_segment_def forbidden_bytes_def)
  define encoded where "encoded =
    (if multi_template (pr_constraints rule) t
     then join ''/'' (map (px_encode px) (split_on CHR ''/'' ?bound)) else px_encode px ?bound)"
  have fwd: "forward_segment px rule arguments t = encoded @ verb_suffix ?verb"
    by (auto simp: forward_segment_def encoded_def multi_template_def template_value_def verb_suffix_def
        Let_def split: prod.split option.split)
  have "decodes_to encoded ?bound"
  proof (cases "multi_template (pr_constraints rule) t")
    case True
    have "decodes_to (px_encode px part) part" if "part \<in> set (split_on CHR ''/'' ?bound)" for part
      using split_on_pieces [OF that] val by (intro decodes_encoded [OF enc]) auto
    then have "list_all2 decodes_to (map (px_encode px) (split_on CHR ''/'' ?bound)) (split_on CHR ''/'' ?bound)"
      by (auto simp: list_all2_map1 intro: list.rel_refl_strong)
    from decodes_join [OF this] True show ?thesis by (simp add: encoded_def)
  next
    case False
    with single val have "set ?bound \<inter> forbidden_bytes = {}" by (auto simp: actual_segment_def)
    with False decodes_encoded [OF enc] show ?thesis by (simp add: encoded_def)
  qed
  with verb show ?thesis
    unfolding fwd actual_segment_def by (intro decodes_append decodes_plains)
qed

lemma split_on_join_concat:
  "xs \<noteq> [] \<Longrightarrow> split_on c (join [c] xs) = concat (map (split_on c) xs)"
proof (induction xs)
  case (Cons x xs)
  have step: "split_on c (s @ c # r) = split_on c s @ split_on c r" for s r
    by (induction s) (auto split: list.split)
  show ?case
  proof (cases "xs = []")
    case False
    with Cons.IH show ?thesis by (simp add: join_Cons step)
  qed simp
qed simp

lemma authorize_Some_D:
  assumes "authorize_proxy_operation_fields px (Some rules) meth segs = Ok fwd"
  obtains rule arguments where "rule \<in> set rules" "pr_method rule = to_ascii_uppercase (trim meth)"
    "validate_rule rule = Ok ()"
    "match_segments px (pr_constraints rule) (template_segments rule) segs [] = Some arguments"
    "fwd = join ''/'' (map (forward_segment px rule arguments) (template_segments rule))"
proof -
  from assms obtain rule where rule: "rule \<in> set rules"
    "rule_forwarding_path px rule (to_ascii_uppercase (trim meth)) segs = Some fwd"
    by (auto simp: authorize_proxy_operation_fields_def Let_def dest: find_map_SomeD)
  then obtain arguments where "pr_method rule = to_ascii_uppercase (trim meth)"
    "match_path_arguments px rule segs = Some arguments"
    "fwd = join ''/'' (map (forward_segment px rule arguments) (template_segments rule))"
    by (auto simp: rule_forwarding_path_def rule_matches_def split: if_split_asm)
  with rule that show thesis
    by (cases "validate_rule rule") (auto simp: match_path_arguments_def)
qed

text \<open>
  C13. What is authorized is what is sent. If a path was canonicalized (by any of the three
  constructors, which end in \<open>from_decoded\<close>) and the operation authorized, with or without a
  policy, then decoding the forwarded path once succeeds and gives back exactly the canonical
  segments that were matched, up to empty segments: no encoding, custom-method suffix or
  multi-segment capture changes which resource the upstream sees.
\<close>

theorem forwarded_path_is_canonical:
  assumes "encodes px" and "from_decoded path = Ok segs"
    and "authorize_proxy_operation_fields px policy meth segs = Ok fwd"
  shows "\<exists>d. decode_bytes fwd = Some d \<and> filter (\<lambda>s. s \<noteq> []) (split_on CHR ''/'' d) = segs"
proof -
  note canon = from_decoded_segments(1) [OF assms(2)]
  note ok = canonical_segmentsD [OF canon]
  have nonempty: "filter (\<lambda>s. s \<noteq> []) segs = segs"
    using ok(1) by (auto simp: segment_list_ok_def filter_id_conv)
  show ?thesis
  proof (cases policy)
    case None
    then have fwd: "fwd = join ''/'' (map (px_encode px) segs)"
      using assms(3) by (simp add: authorize_proxy_operation_fields_def Let_def)
    have "decodes_to (px_encode px seg) seg" if "seg \<in> set segs" for seg
      using that ok(2) by (intro decodes_encoded [OF assms(1)]) blast
    then have "list_all2 decodes_to (map (px_encode px) segs) segs"
      by (auto simp: list_all2_map1 intro: list.rel_refl_strong)
    from decodes_whole [OF decodes_join [OF this]] have "decode_bytes fwd = Some (join ''/'' segs)"
      by (simp add: fwd)
    moreover have "filter (\<lambda>s. s \<noteq> []) (split_on CHR ''/'' (join ''/'' segs)) = segs"
      using ok(1) nonempty by (cases "segs = []") (auto simp: split_on_join segment_list_ok_def)
    ultimately show ?thesis by blast
  next
    case (Some rules)
    with assms(3) obtain rule arguments
      where m: "match_segments px (pr_constraints rule) (template_segments rule) segs [] = Some arguments"
        and fwd: "fwd = join ''/'' (map (forward_segment px rule arguments) (template_segments rule))"
      by (auto elim: authorize_Some_D)
    note sound = match_segments_sound [OF m ok(1), unfolded match_sound_def]
    let ?ds = "map (actual_segment arguments) (template_segments rule)"
    have "decodes_to (forward_segment px rule arguments t) (actual_segment arguments t)"
      if "t \<in> set (template_segments rule)" for t
      using that sound ok(2) by (intro decodes_forward_segment [OF assms(1)]) blast+
    then have "list_all2 decodes_to (map (forward_segment px rule arguments) (template_segments rule)) ?ds"
      by (auto simp: list_all2_map1 list_all2_map2 intro: list.rel_refl_strong)
    from decodes_whole [OF decodes_join [OF this]] have "decode_bytes fwd = Some (join ''/'' ?ds)"
      by (simp add: fwd)
    moreover have "filter (\<lambda>s. s \<noteq> []) (split_on CHR ''/'' (join ''/'' ?ds)) = segs"
      using sound by (cases "template_segments rule = []") (simp_all add: split_on_join_concat comp_def)
    ultimately show ?thesis by blast
  qed
qed

definition ref_proxy_externals :: proxy_externals where
  "ref_proxy_externals = \<lparr>px_alphabetic = list_all is_ascii_alphabetic,
     px_alphanumeric = list_all is_ascii_alphanumeric, px_encode = (\<lambda>s. concat (map pct_byte s))\<rparr>"

lemma encodes_ref: "encodes ref_proxy_externals"
  by (simp add: encodes_def ref_proxy_externals_def)

definition demo_rules :: proxy_policy where
  "demo_rules = [\<lparr>pr_method = ''POST'', pr_path_template = ''/v1/docs/{id}:batchUpdate'',
     pr_target_id = None, pr_constraints = []\<rparr>,
     \<lparr>pr_method = ''GET'', pr_path_template = ''/a/{p}/b'', pr_target_id = None,
      pr_constraints = [(''p'', MultiSegment)]\<rparr>]"

lemma demo_forwarded:
  "from_decoded ''/v1/docs/a@b:batchUpdate'' = Ok [''v1'', ''docs'', ''a@b:batchUpdate'']"
  "authorize_proxy_operation_fields ref_proxy_externals (Some demo_rules) '' post''
     [''v1'', ''docs'', ''a@b:batchUpdate''] = Ok ''v1/docs/a%40b:batchUpdate''"
  by code_simp+

lemma forwarded_path_is_canonical_witness:
  "\<exists>d. decode_bytes ''v1/docs/a%40b:batchUpdate'' = Some d
     \<and> filter (\<lambda>s. s \<noteq> []) (split_on CHR ''/'' d) = [''v1'', ''docs'', ''a@b:batchUpdate'']"
  by (rule forwarded_path_is_canonical [OF encodes_ref demo_forwarded])

section \<open>Custom-method delimiters\<close>

definition colons :: "string \<Rightarrow> nat" where
  "colons s = length (filter (\<lambda>c. c = CHR '':'') s)"

lemma colons_simps [simp]:
  "colons [] = 0" "colons (c # s) = (if c = CHR '':'' then 1 else 0) + colons s"
  "colons (s @ t) = colons s + colons t"
  by (simp_all add: colons_def)

lemma colons_notin: "CHR '':'' \<notin> set s \<Longrightarrow> colons s = 0"
  by (simp add: colons_def filter_empty_conv) blast

lemma colons_join: "CHR '':'' \<notin> set sep \<Longrightarrow> colons (join sep xs) = sum_list (map colons xs)"
  by (induction sep xs rule: join.induct) (simp_all add: colons_notin)

lemma colons_pct_byte: "colons (pct_byte c) = 0"
proof (cases "unreserved c")
  case True
  then show ?thesis
    by (auto simp: pct_byte_def unreserved_def is_ascii_alphanumeric_def is_ascii_alphabetic_def
        is_ascii_digit_def is_ascii_lowercase_def is_ascii_uppercase_def byte_def)
next
  case False
  have "hex_digit n \<noteq> CHR '':''" if "n < 16" for n
  proof
    assume "hex_digit n = CHR '':''"
    then have "byte (hex_digit n) = 58" by (simp add: byte_def)
    with that show False by (auto simp: hex_digit_def byte_char_of split: if_split_asm)
  qed
  with False byte_less [of c] show ?thesis by (simp add: pct_byte_def)
qed

lemma colons_encode: "encodes px \<Longrightarrow> colons (px_encode px s) = 0"
  by (induction s) (simp_all add: encodes_def colons_pct_byte)

lemma valid_verb:
  assumes "validate_template_segment t = Ok u" "snd (split_template_segment t) = Some v"
  shows "colons v = 0"
proof -
  obtain resource where st: "split_template_segment t = (resource, Some v)"
    using assms(2) by (cases "split_template_segment t") simp
  with assms(1) have "list_all is_ascii_alphanumeric v"
    by (auto simp: validate_template_segment_def split: if_split_asm)
  then have "CHR '':'' \<notin> set v"
    by (auto simp: list_all_iff is_ascii_alphanumeric_def is_ascii_alphabetic_def is_ascii_digit_def
        is_ascii_lowercase_def is_ascii_uppercase_def byte_def)
  then show ?thesis by (rule colons_notin)
qed

lemma valid_template_segments:
  assumes "validate_rule rule = Ok u" "t \<in> set (template_segments rule)"
  shows "validate_template_segment t = Ok ()"
proof (cases "pr_path_template rule = ''/''")
  case True
  with assms(2) show ?thesis by (simp add: template_segments_def trim_slashes_def)
next
  case False
  with assms show ?thesis
    by (auto simp: validate_rule_def validate_template_def template_segments_def split: if_split_asm)
qed

lemma colons_forward_segment:
  assumes "encodes px" "validate_template_segment t = Ok ()"
  shows "colons (forward_segment px rule arguments t)
    = (if snd (split_template_segment t) = None then 0 else 1)"
proof -
  have multi: "colons (join ''/'' (map (px_encode px) xs)) = 0" for xs
    using colons_encode [OF assms(1)] by (simp add: colons_join comp_def)
  obtain resource verb where st: "split_template_segment t = (resource, verb)" by fastforce
  show ?thesis
    using valid_verb [OF assms(2)] colons_encode [OF assms(1)] multi
    by (cases verb) (auto simp: forward_segment_def st Let_def)
qed

text \<open>
  Only the policy's author introduces custom methods. The colons of a forwarded path are
  exactly the custom-method delimiters of the rule that authorized it: none comes from a
  caller's value, which is percent-encoded even where its grammar allows a colon.
\<close>

theorem only_declared_custom_methods:
  assumes "encodes px" and "authorize_proxy_operation_fields px (Some rules) meth segs = Ok fwd"
  shows "\<exists>rule \<in> set rules. pr_method rule = to_ascii_uppercase (trim meth)
    \<and> match_path_arguments px rule segs \<noteq> None
    \<and> colons fwd = length (filter (\<lambda>t. snd (split_template_segment t) \<noteq> None) (template_segments rule))"
proof -
  from assms(2) obtain rule arguments where rule: "rule \<in> set rules"
    "pr_method rule = to_ascii_uppercase (trim meth)" "validate_rule rule = Ok ()"
    and m: "match_segments px (pr_constraints rule) (template_segments rule) segs [] = Some arguments"
    and fwd: "fwd = join ''/'' (map (forward_segment px rule arguments) (template_segments rule))"
    by (elim authorize_Some_D)
  have "sum_list (map (colons \<circ> forward_segment px rule arguments) ts)
      = length (filter (\<lambda>t. snd (split_template_segment t) \<noteq> None) ts)"
    if "\<forall>t \<in> set ts. validate_template_segment t = Ok ()" for ts
    using that by (induction ts) (auto simp: colons_forward_segment [OF assms(1)])
  from this [of "template_segments rule"] valid_template_segments [OF rule(3)]
  have "colons fwd = length (filter (\<lambda>t. snd (split_template_segment t) \<noteq> None) (template_segments rule))"
    by (simp add: fwd colons_join)
  moreover have "match_path_arguments px rule segs \<noteq> None"
    using rule(3) m by (simp add: match_path_arguments_def)
  ultimately show ?thesis using rule by blast
qed

lemma only_declared_custom_methods_witness:
  "\<exists>rule \<in> set demo_rules. colons ''v1/docs/a%40b:batchUpdate''
     = length (filter (\<lambda>t. snd (split_template_segment t) \<noteq> None) (template_segments rule))"
  using only_declared_custom_methods [OF encodes_ref demo_forwarded(2)] by blast

section \<open>Captures\<close>

text \<open>
  What a rule's parameters bind. In a match, every bound value satisfies the grammar of its
  parameter; without a constraint that means: one path segment, not empty or a dot segment,
  without \<open>%\<close>, slashes, \<open>?\<close>, \<open>#\<close>, a colon, white space or control characters.
\<close>

theorem captures_satisfy_grammar:
  assumes "match_path_arguments px rule segs = Some arguments" and "btm_get arguments k = Some v"
  shows "btm_get (pr_constraints rule) k = Some MultiSegment
    \<or> parameter_matches px (btm_get (pr_constraints rule) k) v
      \<and> v \<notin> {[], ''.'', ''..''} \<and> CHR ''/'' \<notin> set v \<and> CHR ''%'' \<notin> set v
      \<and> (btm_get (pr_constraints rule) k = None \<longrightarrow> CHR '':'' \<notin> set v)"
proof -
  have "match_segments px constraints templates rest arguments = Some final \<Longrightarrow>
      \<forall>k v. btm_get arguments k = Some v \<longrightarrow> btm_get constraints k \<noteq> Some MultiSegment \<longrightarrow>
        parameter_matches px (btm_get constraints k) v \<Longrightarrow>
      \<forall>k v. btm_get final k = Some v \<longrightarrow> btm_get constraints k \<noteq> Some MultiSegment \<longrightarrow>
        parameter_matches px (btm_get constraints k) v" for px constraints templates rest arguments final
  proof (induction px constraints templates rest arguments rule: match_segments.induct)
    case (1 px constraints rest arguments)
    then show ?case by (simp split: if_split_asm)
  next
    case (2 px constraints template templates rest arguments)
    obtain resource verb where st: "split_template_segment template = (resource, verb)" by fastforce
    show ?case
    proof (cases "parameter_name resource")
      case None
      with "2.prems" st obtain rest' where rest: "rest = template # rest'"
        and rec: "match_segments px constraints templates rest' arguments = Some final"
        by (auto split: list.split_asm if_split_asm)
      from "2.IH"(1) [OF st [symmetric] refl None rest] rec "2.prems"(2) show ?thesis by simp
    next
      case (Some name)
      let ?multi = "btm_get constraints name = Some MultiSegment"
      from "2.prems"(1) st Some obtain taken rest' val
        where taken: "take_value ?multi (length templates) rest = Some (taken, rest')"
          and vl: "(case verb of None \<Rightarrow> Some taken | Some v \<Rightarrow> strip_custom_method taken v) = Some val"
          and ok: "\<not> (\<not> ?multi \<and> \<not> parameter_matches px (btm_get constraints name) val)"
        by (auto simp: Let_def split: option.split_asm if_split_asm)
      show ?thesis
      proof (cases "btm_get arguments name")
        case None
        with "2.prems"(1) st Some taken vl ok
        have rec: "match_segments px constraints templates rest' (btm_insert name val arguments) = Some final"
          by simp
        show ?thesis
          by (rule "2.IH"(2) [OF st [symmetric] refl Some refl taken refl vl ok None rec])
            (use "2.prems"(2) ok in auto)
      next
        case prev: (Some previous)
        with "2.prems"(1) st Some taken vl ok
        have "\<not> previous \<noteq> val"
          and rec: "match_segments px constraints templates rest' arguments = Some final"
          by (auto split: if_split_asm)
        show ?thesis
          by (rule "2.IH"(3) [OF st [symmetric] refl Some refl taken refl vl ok prev
                \<open>\<not> previous \<noteq> val\<close> rec "2.prems"(2)])
      qed
    qed
  qed
  from this [of px "pr_constraints rule" "template_segments rule" segs "[]" arguments]
  have "btm_get (pr_constraints rule) k = Some MultiSegment
    \<or> parameter_matches px (btm_get (pr_constraints rule) k) v"
    using assms by (auto simp: match_path_arguments_def split: if_split_asm)
  then show ?thesis by (auto simp: parameter_matches_def split: if_split_asm option.split_asm)
qed

lemma captures_satisfy_grammar_witness:
  "btm_get (pr_constraints (hd demo_rules)) ''id'' = Some MultiSegment
   \<or> parameter_matches ref_proxy_externals (btm_get (pr_constraints (hd demo_rules)) ''id'') ''a@b''
     \<and> ''a@b'' \<notin> {[], ''.'', ''..''} \<and> CHR ''/'' \<notin> set ''a@b'' \<and> CHR ''%'' \<notin> set ''a@b''
     \<and> (btm_get (pr_constraints (hd demo_rules)) ''id'' = None \<longrightarrow> CHR '':'' \<notin> set ''a@b'')"
proof -
  have "match_path_arguments ref_proxy_externals (hd demo_rules) [''v1'', ''docs'', ''a@b:batchUpdate'']
      = Some [(''id'', ''a@b'')]"
    by code_simp
  then show ?thesis by (rule captures_satisfy_grammar) simp
qed

section \<open>Normal forms\<close>

text \<open>
  A canonical path is its policy text: reading \<open>as_policy_path\<close> back gives the same
  segments, whichever spelling they were read from.
\<close>

theorem canonical_path_roundtrip:
  assumes "from_decoded path = Ok segs"
  shows "from_decoded (as_policy_path segs) = Ok segs"
proof -
  let ?t = "strip_slash path"
  note segs = from_decoded_segments(2) [OF assms]
  from assms have amb: "reject_common_ambiguity path True = Ok ()" by (auto simp: from_decoded_def)
  show ?thesis
  proof (cases "?t = []")
    case True
    with segs show ?thesis by (simp add: as_policy_path_def) code_simp
  next
    case False
    with segs have printed: "as_policy_path segs = CHR ''/'' # ?t" by (simp add: as_policy_path_def)
    have "reject_common_ambiguity (CHR ''/'' # ?t) True = Ok ()"
    proof (cases "\<exists>u. path = CHR ''/'' # u")
      case True
      then have "path = CHR ''/'' # ?t" by auto
      with amb show ?thesis by metis
    next
      case False
      then have p: "?t = path" by (cases path) auto
      then have hd: "\<not> starts_with ''/'' path" using False by (auto simp: starts_with_iff)
      have "starts_with ''//'' (CHR ''/'' # path) = False" using hd by (auto simp: starts_with_iff)
      moreover have "contains_str ''//'' (CHR ''/'' # path) = contains_str ''//'' path"
        using calculation by simp
      moreover have "ends_with ''/'' (CHR ''/'' # path) \<longleftrightarrow> ends_with ''/'' path"
        using \<open>?t \<noteq> []\<close> p by (auto simp: ends_with_iff append_eq_Cons_conv Cons_eq_append_conv)
      moreover have "length path > 1 \<or> \<not> ends_with ''/'' path"
        using False \<open>?t \<noteq> []\<close> p by (cases path; cases "tl path") (auto simp: ends_with_iff)
      ultimately show ?thesis
        using amb p \<open>?t \<noteq> []\<close> unfolding p reject_common_ambiguity_def
        by (auto simp: byte_def split: if_split_asm)
    qed
    with False segs printed show ?thesis by (simp add: from_decoded_def)
  qed
qed

lemma canonical_path_roundtrip_witness:
  "from_decoded (as_policy_path [''air'', ''offers'']) = Ok [''air'', ''offers'']"
proof (rule canonical_path_roundtrip)
  show "from_decoded ''air/offers'' = Ok [''air'', ''offers'']" by code_simp
qed

definition normal_rule :: "proxy_rule \<Rightarrow> proxy_rule" where
  "normal_rule r = r\<lparr>pr_method := to_ascii_uppercase (trim (pr_method r))\<rparr>"

definition rule_ok :: "proxy_rule \<Rightarrow> bool" where
  "rule_ok r \<longleftrightarrow> pr_method (normal_rule r) \<in> set HTTP_METHODS \<and> validate_rule r = Ok ()
     \<and> (case pr_target_id r of None \<Rightarrow> True | Some tid \<Rightarrow> validate_target_id tid = Ok ())"

text \<open>Two rules for the same operation select the same target.\<close>

definition same_target :: "proxy_rule \<Rightarrow> proxy_rule \<Rightarrow> bool" where
  "same_target a b \<longleftrightarrow>
     (pr_method a = pr_method b \<and> pr_path_template a = pr_path_template b \<longrightarrow> pr_target_id a = pr_target_id b)"

lemma normalize_rules_Ok_iff:
  "sorted_wrt same_target acc \<Longrightarrow>
   normalize_rules acc rules = Ok out \<longleftrightarrow>
     list_all rule_ok rules \<and> out = acc @ map normal_rule rules \<and> sorted_wrt same_target out"
proof (induction rules arbitrary: acc)
  case (Cons r rules)
  let ?ok = "rule_ok r \<and> (\<forall>e \<in> set acc. same_target e (normal_rule r))"
  have step: "normalize_rules acc (r # rules) = Ok out \<longleftrightarrow>
      ?ok \<and> normalize_rules (acc @ [normal_rule r]) rules = Ok out"
    by (auto simp: rule_ok_def same_target_def normal_rule_def Let_def list_ex_iff split: option.split)
  show ?case
  proof (cases ?ok)
    case True
    then have "sorted_wrt same_target (acc @ [normal_rule r])"
      using Cons.prems by (simp add: sorted_wrt_append)
    from Cons.IH [OF this] True show ?thesis unfolding step by auto
  next
    case False
    then show ?thesis unfolding step by (auto simp: sorted_wrt_append)
  qed
qed auto

lemma normal_rule_idem: "pr_method (normal_rule r) \<in> set HTTP_METHODS \<Longrightarrow> normal_rule (normal_rule r) = normal_rule r"
proof -
  have "list_all (\<lambda>m. to_ascii_uppercase (trim m) = m) HTTP_METHODS" by code_simp
  then show "pr_method (normal_rule r) \<in> set HTTP_METHODS \<Longrightarrow> ?thesis"
    by (simp add: normal_rule_def list_all_iff)
qed

text \<open>
  Policy normalization is a fixed point and decides targets. A policy that normalizes keeps
  its rules in order with only the method's spelling changed, normalizes to itself again, and
  has no two rules for one method and template that select different targets.
\<close>

theorem normalize_policy_fixpoint:
  assumes "normalize_policy rules = Ok out"
  shows "out = map normal_rule rules \<and> normalize_policy out = Ok out
    \<and> (\<forall>a \<in> set out. \<forall>b \<in> set out. same_target a b)"
proof -
  from assms have len: "length rules \<le> 256" and "normalize_rules [] rules = Ok out"
    by (auto simp: normalize_policy_def split: if_split_asm)
  with normalize_rules_Ok_iff [of "[]" rules out]
  have ok: "list_all rule_ok rules" and out: "out = map normal_rule rules"
    and sorted: "sorted_wrt same_target out" by auto
  have idem: "map normal_rule out = out"
    using ok unfolding out by (auto simp: list_all_iff rule_ok_def normal_rule_idem)
  have ok': "rule_ok (normal_rule r)" if "rule_ok r" for r
  proof -
    have "validate_rule (normal_rule r) = validate_rule r" "pr_target_id (normal_rule r) = pr_target_id r"
      by (simp_all add: validate_rule_def normal_rule_def)
    with that show ?thesis unfolding rule_ok_def by (simp add: normal_rule_idem)
  qed
  then have "list_all rule_ok out" using ok unfolding out by (auto simp: list_all_iff)
  with idem sorted have "normalize_rules [] out = Ok out"
    using normalize_rules_Ok_iff [of "[]" out out] by simp
  moreover have "same_target a b" if "a \<in> set out" "b \<in> set out" for a b
  proof -
    note at = that [THEN in_set_conv_nth [THEN iffD1]]
    obtain i where i: "i < length out" "a = out ! i"
      using at(1) by blast
    obtain j where j: "j < length out" "b = out ! j"
      using at(2) by blast
    note ij = i j
    consider "i < j" | "i = j" | "j < i" by linarith
    then show ?thesis
    proof cases
      case 1
      with sorted ij show ?thesis by (simp add: sorted_wrt_iff_nth_less)
    next
      case 2
      with ij show ?thesis by (simp add: same_target_def)
    next
      case 3
      with sorted ij have "same_target b a" by (simp add: sorted_wrt_iff_nth_less)
      then show ?thesis by (auto simp: same_target_def)
    qed
  qed
  ultimately show ?thesis using len out by (simp add: normalize_policy_def)
qed

lemma normalize_policy_fixpoint_witness:
  "\<exists>out. normalize_policy demo_rules = Ok out \<and> normalize_policy out = Ok out"
proof -
  have "is_ok (normalize_policy demo_rules)" by code_simp
  then obtain out where "normalize_policy demo_rules = Ok out" by (auto simp: is_ok_iff)
  with normalize_policy_fixpoint [OF this] show ?thesis by blast
qed

text \<open>
  A multi-segment parameter may take no segment at all, and then leaves an empty segment in
  the forwarded path: the path \<open>/a/b\<close> matches \<open>/a/{p}/b\<close> and is forwarded as \<open>a//b\<close>, a
  spelling the canonicalizer itself refuses.
\<close>

theorem empty_capture_leaves_empty_segment:
  "from_decoded ''/a/b'' = Ok [''a'', ''b'']
   \<and> authorize_proxy_operation_fields ref_proxy_externals (Some demo_rules) ''GET'' [''a'', ''b''] = Ok ''a//b''
   \<and> is_err (from_decoded ''a//b'')"
  by (intro conjI; code_simp)

end
