(* ===== verification/Operation_Descriptor.thy ===== *)
theory Operation_Descriptor
  imports Json
begin

text \<open>
  What the approval policy sees of an operation: \<open>services/operation_descriptor.rs\<close>,
  \<open>services/action_description.rs\<close>, \<open>operation_effects\<close> of \<open>services/mcp_service.rs\<close> and the
  closed inference contract of \<open>services/assistant_service_execution/request_identity.rs\<close>. The
  JSON reader (a field of \<open>externals\<close>) and the regular-expression redaction of SSH commands
  are parameters.
\<close>

section \<open>Plain deserialization\<close>

text \<open>
  \<open>serde_json::from_slice::<Value>\<close>: a repeated key keeps its place and takes the last value,
  a double that is not finite is \<open>null\<close>.
\<close>

fun map_put :: "string \<Rightarrow> 'v \<Rightarrow> (string \<times> 'v) list \<Rightarrow> (string \<times> 'v) list" where
  "map_put k v [] = [(k, v)]"
| "map_put k v ((a, b) # m) = (if a = k then (a, v) # m else (a, b) # map_put k v m)"

fun plain_value :: "raw \<Rightarrow> json"
  and plain_seq :: "raw list \<Rightarrow> json list"
  and plain_map :: "(string \<times> json) list \<Rightarrow> (string \<times> raw) list \<Rightarrow> (string \<times> json) list" where
  "plain_value RUnit = JNull"
| "plain_value (RBool b) = JBool b"
| "plain_value (RI64 i) = JNumber (if i < 0 then NegInt i else PosInt (nat i))"
| "plain_value (RU64 n) = JNumber (PosInt n)"
| "plain_value (RF64 t) = (case t of None \<Rightarrow> JNull | Some x \<Rightarrow> JNumber (Float x))"
| "plain_value (RStr s) = JString s"
| "plain_value (RSeq rs) = JArray (plain_seq rs)"
| "plain_value (RMap es) = JObject (plain_map [] es)"
| "plain_seq [] = []"
| "plain_seq (r # rs) = plain_value r # plain_seq rs"
| "plain_map acc [] = acc"
| "plain_map acc ((k, r) # es) = plain_map (map_put k (plain_value r) acc) es"

definition read_value :: "externals \<Rightarrow> string \<Rightarrow> json option" where
  "read_value ext body = map_option plain_value (from_slice ext body)"

lemma map_put_keys: "fst ` set (map_put k v m) = insert k (fst ` set m)"
  by (induction k v m rule: map_put.induct) auto

lemma map_put_distinct: "distinct (map fst m) \<Longrightarrow> distinct (map fst (map_put k v m))"
proof (induction k v m rule: map_put.induct)
  case (2 k v a b m)
  then show ?case using map_put_keys [of k v m] by (auto simp: image_iff)
qed simp

lemma map_put_get: "map_of (map_put k v m) k' = (if k' = k then Some v else map_of m k')"
  by (induction k v m rule: map_put.induct) auto

section \<open>Text that fits\<close>

definition is_continuation :: "char \<Rightarrow> bool" where
  "is_continuation c \<longleftrightarrow> 128 \<le> byte c \<and> byte c < 192"

text \<open>\<open>str::is_char_boundary\<close>.\<close>

definition is_char_boundary :: "string \<Rightarrow> nat \<Rightarrow> bool" where
  "is_char_boundary s i \<longleftrightarrow>
     i = 0 \<or> (if i < length s then \<not> is_continuation (s ! i) else i = length s)"

text \<open>\<open>while !s.is_char_boundary(end) { end -= 1; }\<close>\<close>

function boundary_before :: "string \<Rightarrow> nat \<Rightarrow> nat" where
  "boundary_before s i = (if is_char_boundary s i then i else boundary_before s (i - 1))"
  by auto

termination
proof (relation "measure snd")
  fix s :: string and i
  assume "\<not> is_char_boundary s i"
  then have "i \<noteq> 0" by (auto simp: is_char_boundary_def)
  then show "((s, i - 1), (s, i)) \<in> measure snd" by simp
qed simp

declare boundary_before.simps [simp del]

definition MAX_STORED_RESOURCE_LEN :: nat where
  "MAX_STORED_RESOURCE_LEN = 200"

definition truncate_stored_resource :: "string \<Rightarrow> string" where
  "truncate_stored_resource resource =
     (if length resource \<le> MAX_STORED_RESOURCE_LEN then resource
      else take (boundary_before resource (MAX_STORED_RESOURCE_LEN - 3)) resource @ ''...'')"

definition truncate_summary :: "string \<Rightarrow> string" where
  "truncate_summary summary =
     (if length summary \<le> 200 then summary
      else take (boundary_before summary 197) summary @ ''...'')"

definition truncate_description :: "string \<Rightarrow> string" where
  "truncate_description s =
     (if length s \<le> 200 then s else take (boundary_before s 197) s @ ''...'')"

section \<open>The action description\<close>

definition interesting_keys :: "string list" where
  "interesting_keys =
     [''model'', ''max_tokens'', ''temperature'', ''stream'', ''tool_choice'', ''response_format'', ''n'']"

fun display_value :: "json \<Rightarrow> string option" where
  "display_value (JString s) = Some s"
| "display_value (JNumber n) = Some (number_text n)"
| "display_value (JBool b) = Some (if b then ''true'' else ''false'')"
| "display_value _ = None"

definition extract_key_params :: "externals \<Rightarrow> string \<Rightarrow> string list" where
  "extract_key_params ext body =
     (case read_value ext body of
        Some (JObject obj) \<Rightarrow>
          List.map_filter (\<lambda>key. case map_of obj key of
              None \<Rightarrow> None
            | Some val \<Rightarrow> map_option (\<lambda>display. key @ '': '' @ display) (display_value val)) interesting_keys
          @ (case map_of obj ''messages'' of
               Some (JArray messages) \<Rightarrow> [nat_str (length messages) @ '' messages'']
             | _ \<Rightarrow> [])
      | _ \<Rightarrow> [])"

definition build_action_description :: "externals \<Rightarrow> string \<Rightarrow> string \<Rightarrow> string option \<Rightarrow> string" where
  "build_action_description ext meth path body =
     (let normalized_path = (if starts_with ''/'' path then path else ''/'' @ path);
          base = meth @ '' '' @ normalized_path
      in if meth \<notin> {''POST'', ''PUT'', ''PATCH''} then truncate_description base
         else (case body of
             None \<Rightarrow> truncate_description base
           | Some body \<Rightarrow>
               (let params = extract_key_params ext body in
                if params = [] then truncate_description base
                else truncate_description (base @ '' ('' @ join '', '' params @ '')''))))"

section \<open>Descriptors\<close>

datatype approval_verb = Read | Write | Destructive

fun verb_str :: "approval_verb \<Rightarrow> string" where
  "verb_str Read = ''read''"
| "verb_str Write = ''write''"
| "verb_str Destructive = ''destructive''"

datatype protocol = Http | Llm | Mcp | Ssh

fun summary_prefix :: "protocol \<Rightarrow> string" where
  "summary_prefix Http = ''proxy''"
| "summary_prefix Llm = ''llm''"
| "summary_prefix Mcp = ''mcp''"
| "summary_prefix Ssh = ''ssh''"

record operation_descriptor =
  od_protocol :: protocol
  od_verb :: approval_verb
  od_method :: "string option"
  od_resource :: "string option"
  od_summary :: string

definition operation_summary :: "operation_descriptor \<Rightarrow> string" where
  "operation_summary d =
     (if od_protocol d = Ssh \<and> od_method d = Some ''TUNNEL''
         \<and> (case od_resource d of None \<Rightarrow> True | Some r \<Rightarrow> r = [])
      then ''ssh:tunnel''
      else (let meth = (case od_method d of None \<Rightarrow> summary_prefix (od_protocol d) | Some m \<Rightarrow> m)
            in case od_resource d of
                 None \<Rightarrow> summary_prefix (od_protocol d) @ '':'' @ meth
               | Some r \<Rightarrow>
                   if r = [] then summary_prefix (od_protocol d) @ '':'' @ meth
                   else summary_prefix (od_protocol d) @ '':'' @ meth @ '' '' @ r))"

text \<open>\<open>Option::filter\<close> for non-empty text.\<close>

definition nonempty :: "string option \<Rightarrow> string option" where
  "nonempty x = (case x of Some s \<Rightarrow> if s = [] then None else Some s | None \<Rightarrow> None)"

definition before_query :: "string \<Rightarrow> string" where
  "before_query s = (case split_once CHR ''?'' s of None \<Rightarrow> s | Some (path, _) \<Rightarrow> path)"

definition normalize_resource :: "string \<Rightarrow> string" where
  "normalize_resource resource = trim (before_query resource)"

definition normalized_method :: "operation_descriptor \<Rightarrow> string option" where
  "normalized_method d = nonempty (map_option (\<lambda>m. to_ascii_lowercase (trim m)) (od_method d))"

definition normalized_resource :: "operation_descriptor \<Rightarrow> string option" where
  "normalized_resource d = nonempty (map_option (\<lambda>resource.
     (case od_protocol d of Ssh \<Rightarrow> trim resource | _ \<Rightarrow> normalize_resource resource)) (od_resource d))"

definition derive_verb_from_method :: "string \<Rightarrow> approval_verb" where
  "derive_verb_from_method meth =
     (let m = to_ascii_uppercase (trim meth) in
      if m \<in> {''GET'', ''HEAD'', ''OPTIONS''} then Read
      else if m = ''DELETE'' then Destructive else Write)"

definition normalize_method_for_display :: "string \<Rightarrow> string" where
  "normalize_method_for_display meth = to_ascii_uppercase (trim meth)"

definition normalize_http_path :: "string \<Rightarrow> string" where
  "normalize_http_path path =
     (let trimmed = trim (before_query path) in
      if trimmed = [] then ''/''
      else if starts_with ''/'' trimmed then trimmed else ''/'' @ trimmed)"

definition build_http_like_descriptor ::
  "externals \<Rightarrow> protocol \<Rightarrow> string \<Rightarrow> string \<Rightarrow> string option \<Rightarrow> operation_descriptor" where
  "build_http_like_descriptor ext protocol meth0 path body =
     (let meth = normalize_method_for_display meth0; resource = normalize_http_path path
      in \<lparr>od_protocol = protocol, od_verb = derive_verb_from_method meth, od_method = Some meth,
          od_resource = Some resource, od_summary = build_action_description ext meth resource body\<rparr>)"

definition build_http_descriptor ::
  "externals \<Rightarrow> string \<Rightarrow> string \<Rightarrow> string option \<Rightarrow> operation_descriptor" where
  "build_http_descriptor ext meth path body = build_http_like_descriptor ext Http meth path body"

definition build_llm_descriptor ::
  "externals \<Rightarrow> string \<Rightarrow> string \<Rightarrow> string option \<Rightarrow> operation_descriptor" where
  "build_llm_descriptor ext meth path body = build_http_like_descriptor ext Llm meth path body"

definition build_mcp_descriptor ::
  "externals \<Rightarrow> string \<Rightarrow> string \<Rightarrow> string option \<Rightarrow> operation_descriptor" where
  "build_mcp_descriptor ext meth0 path body =
     (let meth = normalize_method_for_display meth0; resource = normalize_http_path path
      in \<lparr>od_protocol = Mcp, od_verb = derive_verb_from_method meth, od_method = Some meth,
          od_resource = Some resource, od_summary = build_action_description ext meth resource body\<rparr>)"

definition build_mcp_endpoint_descriptor :: "externals \<Rightarrow> string \<Rightarrow> string \<Rightarrow> operation_descriptor" where
  "build_mcp_endpoint_descriptor ext meth path = build_mcp_descriptor ext meth path None"

definition build_mcp_meta_descriptor :: "string \<Rightarrow> operation_descriptor" where
  "build_mcp_meta_descriptor tool_name =
     \<lparr>od_protocol = Mcp, od_verb = Read, od_method = Some ''tools/call'',
      od_resource = Some (trim tool_name), od_summary = ''MCP meta-tool: '' @ trim tool_name\<rparr>"

datatype ssh_operation_kind = Exec | Tunnel

definition sanitize_ssh_command :: "(string \<Rightarrow> string) \<Rightarrow> string \<Rightarrow> string" where
  "sanitize_ssh_command redact command = truncate_stored_resource (redact (trim command))"

fun build_ssh_descriptor ::
  "(string \<Rightarrow> string) \<Rightarrow> ssh_operation_kind \<Rightarrow> string option \<Rightarrow> operation_descriptor" where
  "build_ssh_descriptor redact Exec command =
     (let command = sanitize_ssh_command redact (case command of None \<Rightarrow> [] | Some c \<Rightarrow> c)
      in \<lparr>od_protocol = Ssh, od_verb = Write, od_method = Some ''EXEC'', od_resource = Some command,
          od_summary = truncate_summary (''SSH exec: '' @ command)\<rparr>)"
| "build_ssh_descriptor redact Tunnel command =
     \<lparr>od_protocol = Ssh, od_verb = Write, od_method = Some ''TUNNEL'', od_resource = Some [],
      od_summary = ''SSH tunnel session''\<rparr>"

section \<open>Operation effects\<close>

datatype endpoint_risk = RiskRead | RiskWrite

text \<open>The fields of \<open>McpDurableEndpointMetadata\<close> that the classification reads.\<close>

record endpoint_metadata =
  em_risk :: "endpoint_risk option"
  em_destructive :: bool
  em_changes_existing :: "bool option"
  em_append_only :: bool
  em_catalog_contract :: bool

record operation_effects =
  oe_reads :: bool
  oe_uses :: bool
  oe_destructive :: bool

definition operation_effects_of :: "string \<Rightarrow> endpoint_metadata \<Rightarrow> operation_effects" where
  "operation_effects_of meth metadata =
     (let safe = meth \<in> {''GET'', ''HEAD'', ''OPTIONS''};
          reads = safe \<and> em_risk metadata \<noteq> Some RiskWrite
            \<or> meth = ''POST'' \<and> em_catalog_contract metadata \<and> em_risk metadata = Some RiskRead;
          changes = (if em_changes_existing metadata = Some True then True
             else if em_changes_existing metadata = Some False \<and> em_catalog_contract metadata then False
             else \<not> (safe \<or> meth = ''POST''));
          destructive = meth = ''DELETE'' \<or> em_destructive metadata
      in \<lparr>oe_reads = reads \<and> \<not> changes \<and> \<not> destructive,
          oe_uses = \<not> changes \<and> (\<not> destructive
            \<or> em_catalog_contract metadata \<and> em_append_only metadata \<and> meth = ''POST''),
          oe_destructive = destructive\<rparr>)"

definition apply_operation_effects ::
  "operation_descriptor \<Rightarrow> operation_effects \<Rightarrow> bool \<Rightarrow> operation_descriptor" where
  "apply_operation_effects d effects method_override =
     d\<lparr>od_verb := (if oe_destructive effects then Destructive
        else if oe_reads effects \<and> \<not> method_override then Read else Write)\<rparr>"

section \<open>The closed inference contract\<close>

text \<open>The reasons of \<open>model_shape\<close>; an unknown field carries the names it may show.\<close>

datatype shape_diagnostic = RequestShape | UnknownField "string list" | HandlePresent | ToolShape

definition safe_field_name :: "string \<Rightarrow> bool" where
  "safe_field_name name \<longleftrightarrow>
     name \<noteq> [] \<and> length name \<le> 64
     \<and> list_all (\<lambda>b. is_ascii_lowercase b \<or> is_ascii_digit b \<or> b = CHR ''_'' \<or> b = CHR ''-'') name"

definition diagnostic_unknown :: "string list \<Rightarrow> shape_diagnostic" where
  "diagnostic_unknown names = UnknownField (take 8 (filter safe_field_name names))"

definition trim_slash_ends :: "string \<Rightarrow> string" where
  "trim_slash_ends s =
     rev (dropWhile (\<lambda>c. c = CHR ''/'') (rev (dropWhile (\<lambda>c. c = CHR ''/'') s)))"

definition model_fields :: "string list" where
  "model_fields =
     [''model'', ''messages'', ''input'', ''instructions'', ''system'', ''stream'',
      ''stream_options'', ''max_tokens'', ''max_completion_tokens'', ''max_output_tokens'',
      ''temperature'', ''top_p'', ''top_k'', ''frequency_penalty'', ''presence_penalty'', ''stop'',
      ''stop_sequences'', ''seed'', ''n'', ''tools'', ''tool_choice'', ''parallel_tool_calls'',
      ''response_format'', ''text'', ''reasoning'', ''reasoning_effort'', ''thinking'', ''store'',
      ''background'', ''metadata'', ''user'', ''service_tier'', ''include'', ''truncation'',
      ''encoding_format'', ''dimensions'', ''logprobs'', ''top_logprobs'', ''prediction'',
      ''verbosity'', ''safety_identifier'', ''prompt_cache_key'', ''prompt_cache_retention'',
      ''client_metadata'']"

definition correlation_fields :: "string list" where
  "correlation_fields =
     [''root_turn_id'', ''session_id'', ''thread_id'', ''turn_id'', ''x-codex-installation-id'',
      ''x-codex-turn-metadata'', ''x-codex-window-id'']"

definition handle_keys :: "string list" where
  "handle_keys =
     [''file_id'', ''previous_response_id'', ''conversation'', ''assistant_id'', ''thread_id'',
      ''vector_store_ids'', ''container'', ''prompt'', ''mcp_servers'', ''server_url'',
      ''server_label'', ''connector_id'']"

fun handles :: "json \<Rightarrow> bool"
  and handles_list :: "json list \<Rightarrow> bool"
  and handles_obj :: "(string \<times> json) list \<Rightarrow> bool" where
  "handles (JObject es) = handles_obj es"
| "handles (JArray xs) = handles_list xs"
| "handles _ = False"
| "handles_list [] = False"
| "handles_list (x # xs) = (handles x \<or> handles_list xs)"
| "handles_obj [] = False"
| "handles_obj ((k, v) # es) = (k \<in> set handle_keys \<or> handles v \<or> handles_obj es)"

definition is_object :: "json \<Rightarrow> bool" where
  "is_object v \<longleftrightarrow> as_object v \<noteq> None"

definition model_tool_ok :: "string \<Rightarrow> json \<Rightarrow> bool" where
  "model_tool_ok path tool \<longleftrightarrow>
     is_object tool
     \<and> (if path = ''messages''
        then jget tool ''type'' = None \<and> (\<exists>name \<in> set_option (jget tool ''name''). as_str name \<noteq> None)
          \<and> (\<exists>schema \<in> set_option (jget tool ''input_schema''). is_object schema)
        else (case jget tool ''type'' of
                Some (JString t) \<Rightarrow> t = ''function'' \<or> t = ''web_search'' | _ \<Rightarrow> False))"

definition model_metadata_ok :: "string \<Rightarrow> json \<Rightarrow> bool" where
  "model_metadata_ok path metadata \<longleftrightarrow>
     path = ''responses''
     \<and> (case as_object metadata of
          None \<Rightarrow> False
        | Some entries \<Rightarrow> length entries \<le> length correlation_fields
            \<and> list_all (\<lambda>(key, v). key \<in> set correlation_fields
                 \<and> (case as_str v of None \<Rightarrow> False | Some t \<Rightarrow> length t \<le> 8192)) entries)"

definition model_path :: "string \<Rightarrow> string" where
  "model_path path = (case strip_prefix ''v1/'' (trim_slash_ends path) of
     None \<Rightarrow> trim_slash_ends path | Some rest \<Rightarrow> rest)"

definition model_shape :: "string \<Rightarrow> json \<Rightarrow> shape_diagnostic + unit" where
  "model_shape path0 body =
     (let path = model_path path0 in
      if path \<notin> {''chat/completions'', ''responses'', ''messages'', ''embeddings''} then Err RequestShape
      else (case as_object body of
          None \<Rightarrow> Err RequestShape
        | Some entries \<Rightarrow>
            if (case map_of entries ''model'' of Some (JString m) \<Rightarrow> trim m = [] | _ \<Rightarrow> True)
            then Err RequestShape
            else if path = ''responses'' \<and> map_of entries ''store'' \<noteq> Some (JBool False)
            then Err RequestShape
            else if list_ex (\<lambda>(key, _). key \<notin> set model_fields) entries
            then Err (diagnostic_unknown (filter (\<lambda>key. key \<notin> set model_fields) (map fst entries)))
            else if (case map_of entries ''store'' of None \<Rightarrow> False | Some v \<Rightarrow> v \<noteq> JBool False)
                 \<or> (case map_of entries ''background'' of None \<Rightarrow> False | Some v \<Rightarrow> v \<noteq> JBool False)
            then Err RequestShape
            else if (case map_of entries ''client_metadata'' of
                       None \<Rightarrow> False | Some metadata \<Rightarrow> \<not> model_metadata_ok path metadata)
            then Err RequestShape
            else if handles (JObject (filter (\<lambda>(key, _). key \<noteq> ''tools'' \<and> key \<noteq> ''client_metadata'') entries))
            then Err HandlePresent
            else (case map_of entries ''tools'' of
                    None \<Rightarrow> Ok ()
                  | Some tools \<Rightarrow> (case as_array tools of
                      None \<Rightarrow> Err ToolShape
                    | Some ts \<Rightarrow> if list_ex (\<lambda>tool. \<not> model_tool_ok path tool) ts
                                then Err ToolShape else Ok ()))))"

definition stateless_model_transport :: "string \<Rightarrow> json \<Rightarrow> bool" where
  "stateless_model_transport path body \<longleftrightarrow> is_ok (model_shape path body)"

definition stateless_inference :: "string \<Rightarrow> json \<Rightarrow> bool" where
  "stateless_inference path body \<longleftrightarrow> stateless_model_transport path body"

text \<open>\<open>inference\<close> is \<open>service.inference.is_some()\<close>.\<close>

definition apply_inference_contract ::
  "externals \<Rightarrow> operation_descriptor \<Rightarrow> bool \<Rightarrow> string option \<Rightarrow> bool \<Rightarrow> bool \<Rightarrow> operation_descriptor" where
  "apply_inference_contract ext d inference body method_override guest_model =
     (if method_override
      then (if od_verb d \<noteq> Destructive then d\<lparr>od_verb := Write\<rparr> else d)
      else if od_verb d \<noteq> Destructive \<and> inference \<and> od_method d = Some ''POST''
        \<and> (case body of None \<Rightarrow> False | Some bytes \<Rightarrow>
             (case read_value ext bytes of None \<Rightarrow> False | Some v \<Rightarrow>
               (let path = (case od_resource d of None \<Rightarrow> [] | Some r \<Rightarrow> r) in
                if guest_model then stateless_model_transport path v else stateless_inference path v)))
      then d\<lparr>od_verb := Read\<rparr> else d)"

text \<open>\<open>content_types\<close> are the values of the \<open>Content-Type\<close> headers, in order.\<close>

definition apply_machine_git_contract ::
  "operation_descriptor \<Rightarrow> string list \<Rightarrow> bool \<Rightarrow> operation_descriptor" where
  "apply_machine_git_contract d content_types method_override =
     (let upload_pack = (case content_types of
            [] \<Rightarrow> False
          | v # rest \<Rightarrow> v = ''application/x-git-upload-pack-request'' \<and> rest = [])
      in if \<not> method_override \<and> upload_pack \<and> od_verb d \<noteq> Destructive \<and> od_method d = Some ''POST''
            \<and> (case od_resource d of None \<Rightarrow> False | Some path \<Rightarrow> ends_with ''/git-upload-pack'' path)
         then d\<lparr>od_verb := Read\<rparr> else d)"

end
