(* ===== verification/Approval_Policy.thy ===== *)
theory Approval_Policy
  imports Operation_Descriptor App_Error
begin

text \<open>
  Approval rules (\<open>services/approval_policy.rs\<close>, \<open>models/service_approval_config.rs\<close>): the
  evaluation of a service's rules on an operation, the grant scopes it mints, their reading
  back and the process-wide matcher cache, threaded as state. The glob compiler is a
  parameter: a pattern and its separator flag give a matcher or an error text.
\<close>

section \<open>Configuration\<close>

datatype approval_mode = PerRequest | Grant

datatype approval_effect = RequireApproval | AutoAllow | Deny

record approval_rule =
  ar_mandatory_review :: bool
  ar_methods :: "string list"
  ar_resource_pattern :: string
  ar_verbs :: "approval_verb list"
  ar_effect :: approval_effect
  ar_mode :: approval_mode

text \<open>The fields of \<open>ServiceApprovalConfig\<close> the evaluation reads.\<close>

record approval_config =
  ac_approval_required :: bool
  ac_approval_mode :: approval_mode
  ac_rules :: "approval_rule list"
  ac_default_effect :: "approval_effect option"

record policy_decision =
  pd_effect :: approval_effect
  pd_mode :: approval_mode
  pd_grant_scope :: "string option"

section \<open>The global preference\<close>

datatype global_mode = WritesOnly | All | Off

fun gm_stored :: "global_mode \<Rightarrow> bool option" where
  "gm_stored All = Some True"
| "gm_stored Off = Some False"
| "gm_stored WritesOnly = None"

fun gm_from_stored :: "bool option \<Rightarrow> global_mode" where
  "gm_from_stored (Some True) = All"
| "gm_from_stored (Some False) = Off"
| "gm_from_stored None = WritesOnly"

definition gm_from_update :: "bool option \<Rightarrow> global_mode option \<Rightarrow> app_error + global_mode option" where
  "gm_from_update legacy mode =
     (if (case (legacy, mode) of (Some l, Some m) \<Rightarrow> gm_stored m \<noteq> Some l | _ \<Rightarrow> False)
      then Err (ValidationError ''approval_required conflicts with global_approval_mode'')
      else Ok (case mode of Some m \<Rightarrow> Some m
        | None \<Rightarrow> map_option (\<lambda>l. gm_from_stored (Some l)) legacy))"

fun gm_requires :: "global_mode \<Rightarrow> approval_verb \<Rightarrow> bool" where
  "gm_requires All verb = True"
| "gm_requires Off verb = False"
| "gm_requires WritesOnly verb = (verb \<noteq> Read)"

section \<open>Compiled patterns\<close>

type_synonym matcher = "string \<Rightarrow> bool"
type_synonym globs = "string \<Rightarrow> bool \<Rightarrow> string + matcher"
type_synonym glob_cache = "((string \<times> bool) \<times> matcher) list"

definition MAX_APPROVAL_RULES :: nat where "MAX_APPROVAL_RULES = 50"
definition MAX_RULE_METHODS :: nat where "MAX_RULE_METHODS = 16"
definition MAX_RULE_RESOURCE_PATTERN_LEN :: nat where "MAX_RULE_RESOURCE_PATTERN_LEN = 256"
definition MAX_CACHED_GLOBS :: nat where "MAX_CACHED_GLOBS = 1024"

definition normalized_rule_resource_pattern :: "string \<Rightarrow> string" where
  "normalized_rule_resource_pattern pattern = (if trim pattern = [] then ''*'' else trim pattern)"

definition literal_separator_for_protocol :: "protocol \<Rightarrow> bool" where
  "literal_separator_for_protocol protocol \<longleftrightarrow> protocol \<noteq> Ssh"

definition compile_resource_pattern :: "globs \<Rightarrow> string \<Rightarrow> bool \<Rightarrow> string + matcher" where
  "compile_resource_pattern globs pattern literal_separator =
     globs (normalized_rule_resource_pattern pattern) literal_separator"

definition cached_resource_matcher ::
  "globs \<Rightarrow> string \<Rightarrow> bool \<Rightarrow> glob_cache \<Rightarrow> (string + matcher) \<times> glob_cache" where
  "cached_resource_matcher globs pattern literal_separator cache =
     (let key = (normalized_rule_resource_pattern pattern, literal_separator) in
      (case map_of cache key of
         Some m \<Rightarrow> (Ok m, cache)
       | None \<Rightarrow> (case compile_resource_pattern globs (fst key) (snd key) of
           Err e \<Rightarrow> (Err e, cache)
         | Ok m \<Rightarrow> (Ok m, if length cache < MAX_CACHED_GLOBS then (key, m) # cache else cache))))"

definition resource_pattern_matches ::
  "globs \<Rightarrow> string \<Rightarrow> operation_descriptor \<Rightarrow> glob_cache \<Rightarrow> bool \<times> glob_cache" where
  "resource_pattern_matches globs pattern0 d cache =
     (let pattern = normalized_rule_resource_pattern pattern0 in
      if pattern = ''*'' then (True, cache)
      else (case normalized_resource d of
          None \<Rightarrow> (False, cache)
        | Some resource \<Rightarrow>
            (case cached_resource_matcher globs pattern (literal_separator_for_protocol (od_protocol d)) cache of
               (Ok glob, cache') \<Rightarrow> (glob resource, cache')
             | (Err _, cache') \<Rightarrow> (False, cache'))))"

section \<open>Matching a rule\<close>

definition methods_match :: "string list \<Rightarrow> operation_descriptor \<Rightarrow> bool" where
  "methods_match methods d =
     (if methods = [] \<or> list_ex (\<lambda>m. trim m = ''*'') methods then True
      else (case normalized_method d of
          None \<Rightarrow> False
        | Some request_method \<Rightarrow>
            list_ex (\<lambda>m. to_ascii_lowercase (trim m) = request_method) methods))"

definition verbs_match :: "approval_verb list \<Rightarrow> operation_descriptor \<Rightarrow> bool" where
  "verbs_match verbs d \<longleftrightarrow> verbs = [] \<or> list_ex (\<lambda>v. v = od_verb d) verbs"

definition approval_rule_matches ::
  "globs \<Rightarrow> approval_rule \<Rightarrow> operation_descriptor \<Rightarrow> glob_cache \<Rightarrow> bool \<times> glob_cache" where
  "approval_rule_matches globs rule d cache =
     (if methods_match (ar_methods rule) d \<and> verbs_match (ar_verbs rule) d
      then resource_pattern_matches globs (ar_resource_pattern rule) d cache
      else (False, cache))"

text \<open>The first rule that matches: the loop of \<open>evaluate\<close> and the \<open>find\<close> of \<open>mandatory_review\<close>.\<close>

fun find_stateful :: "('a \<Rightarrow> 's \<Rightarrow> bool \<times> 's) \<Rightarrow> 'a list \<Rightarrow> 's \<Rightarrow> 'a option \<times> 's" where
  "find_stateful f [] s = (None, s)"
| "find_stateful f (x # xs) s =
     (case f x s of (True, s') \<Rightarrow> (Some x, s') | (False, s') \<Rightarrow> find_stateful f xs s')"

definition find_rule ::
  "globs \<Rightarrow> approval_rule list \<Rightarrow> operation_descriptor \<Rightarrow> glob_cache \<Rightarrow> approval_rule option \<times> glob_cache" where
  "find_rule globs rules d = find_stateful (\<lambda>rule. approval_rule_matches globs rule d) rules"

section \<open>Scopes\<close>

fun protocol_scope_label :: "protocol \<Rightarrow> string" where
  "protocol_scope_label Http = ''http''"
| "protocol_scope_label Llm = ''http''"
| "protocol_scope_label Mcp = ''http''"
| "protocol_scope_label Ssh = ''ssh''"

definition scope_protocol_family :: "string \<Rightarrow> string option" where
  "scope_protocol_family protocol =
     (if protocol \<in> {''http'', ''llm'', ''mcp''} then Some ''http''
      else if protocol = ''ssh'' then Some ''ssh'' else None)"

definition build_scope :: "string \<Rightarrow> string \<Rightarrow> string \<Rightarrow> string \<Rightarrow> string" where
  "build_scope protocol methods verbs resource_pattern =
     ''v1:'' @ protocol @ '':'' @ methods @ '':'' @ verbs @ '':'' @ resource_pattern"

definition concrete_scope :: "operation_descriptor \<Rightarrow> string" where
  "concrete_scope d =
     build_scope (protocol_scope_label (od_protocol d))
       (case normalized_method d of None \<Rightarrow> ''*'' | Some m \<Rightarrow> m)
       (verb_str (od_verb d))
       (case normalized_resource d of None \<Rightarrow> ''*'' | Some r \<Rightarrow> r)"

text \<open>\<open>sort()\<close> then \<open>dedup()\<close>.\<close>

definition normalized_method_set :: "string list \<Rightarrow> string" where
  "normalized_method_set methods =
     (let values = filter (\<lambda>m. m \<noteq> []) (map (\<lambda>m. to_ascii_lowercase (trim m)) methods) in
      if values = [] \<or> list_ex (\<lambda>m. m = ''*'') values then ''*''
      else join '','' (remdups_adj (sort values)))"

definition normalized_verb_set :: "approval_verb list \<Rightarrow> string" where
  "normalized_verb_set verbs =
     (if verbs = [] then ''*'' else join '','' (remdups_adj (sort (map verb_str verbs))))"

definition scope_from_rule :: "operation_descriptor \<Rightarrow> approval_rule \<Rightarrow> string" where
  "scope_from_rule d rule =
     build_scope (protocol_scope_label (od_protocol d)) (normalized_method_set (ar_methods rule))
       (normalized_verb_set (ar_verbs rule)) (normalized_rule_resource_pattern (ar_resource_pattern rule))"

definition require_approval_scope :: "approval_effect \<Rightarrow> string \<Rightarrow> string option" where
  "require_approval_scope effect scope = (if effect = RequireApproval then Some scope else None)"

section \<open>Evaluation\<close>

definition evaluate ::
  "globs \<Rightarrow> approval_config \<Rightarrow> operation_descriptor \<Rightarrow> glob_cache \<Rightarrow> policy_decision \<times> glob_cache" where
  "evaluate globs config d cache =
     (case find_rule globs (ac_rules config) d cache of
        (Some rule, cache') \<Rightarrow>
          (\<lparr>pd_effect = ar_effect rule, pd_mode = ar_mode rule,
            pd_grant_scope = require_approval_scope (ar_effect rule) (scope_from_rule d rule)\<rparr>, cache')
      | (None, cache') \<Rightarrow>
          (case ac_default_effect config of
             Some effect \<Rightarrow>
               (\<lparr>pd_effect = effect, pd_mode = ac_approval_mode config,
                 pd_grant_scope = require_approval_scope effect (concrete_scope d)\<rparr>, cache')
           | None \<Rightarrow>
               if ac_rules config = []
               then (if ac_approval_required config
                     then (\<lparr>pd_effect = RequireApproval, pd_mode = ac_approval_mode config,
                            pd_grant_scope = None\<rparr>, cache')
                     else (\<lparr>pd_effect = AutoAllow, pd_mode = ac_approval_mode config,
                            pd_grant_scope = None\<rparr>, cache'))
               else (\<lparr>pd_effect = AutoAllow, pd_mode = ac_approval_mode config,
                      pd_grant_scope = None\<rparr>, cache')))"

definition mandatory_review ::
  "globs \<Rightarrow> approval_config \<Rightarrow> operation_descriptor \<Rightarrow> glob_cache \<Rightarrow> bool \<times> glob_cache" where
  "mandatory_review globs config d cache =
     (case find_rule globs (ac_rules config) d cache of
        (Some rule, cache') \<Rightarrow> (ar_mandatory_review rule, cache')
      | (None, cache') \<Rightarrow> (False, cache'))"

section \<open>Reading a scope back\<close>

record parsed_scope =
  ps_protocol :: string
  ps_methods :: "string list"
  ps_verbs :: "string list"
  ps_resource_pattern :: string

definition split_scope_set :: "string \<Rightarrow> string list" where
  "split_scope_set raw = filter (\<lambda>item. item \<noteq> []) (map trim (split_on CHR '','' raw))"

definition parse_scope :: "string \<Rightarrow> parsed_scope option" where
  "parse_scope scope =
     (case splitn 5 CHR '':'' scope of
        [version, protocol, methods, verbs, resource_pattern] \<Rightarrow>
          if version \<noteq> ''v1'' then None
          else Some \<lparr>ps_protocol = protocol, ps_methods = split_scope_set methods,
                     ps_verbs = split_scope_set verbs, ps_resource_pattern = resource_pattern\<rparr>
      | _ \<Rightarrow> None)"

definition method_set_matches :: "string list \<Rightarrow> operation_descriptor \<Rightarrow> bool" where
  "method_set_matches methods d =
     (if methods = [] \<or> ''*'' \<in> set methods then True
      else (case normalized_method d of None \<Rightarrow> False | Some m \<Rightarrow> list_ex (\<lambda>c. c = m) methods))"

definition verb_set_matches :: "string list \<Rightarrow> operation_descriptor \<Rightarrow> bool" where
  "verb_set_matches verbs d \<longleftrightarrow>
     verbs = [] \<or> ''*'' \<in> set verbs \<or> list_ex (\<lambda>v. v = verb_str (od_verb d)) verbs"

definition grant_scope_covers ::
  "globs \<Rightarrow> string option \<Rightarrow> operation_descriptor \<Rightarrow> glob_cache \<Rightarrow> bool \<times> glob_cache" where
  "grant_scope_covers globs scope d cache =
     (case scope of
        None \<Rightarrow> (True, cache)
      | Some scope \<Rightarrow> (case parse_scope scope of
          None \<Rightarrow> (False, cache)
        | Some parsed \<Rightarrow>
            if scope_protocol_family (ps_protocol parsed) \<noteq> Some (protocol_scope_label (od_protocol d))
            then (False, cache)
            else if method_set_matches (ps_methods parsed) d \<and> verb_set_matches (ps_verbs parsed) d
            then resource_pattern_matches globs (ps_resource_pattern parsed) d cache
            else (False, cache)))"

section \<open>Validation\<close>

definition rule_method_names :: "string list" where
  "rule_method_names =
     [''*'', ''GET'', ''POST'', ''PUT'', ''PATCH'', ''DELETE'', ''HEAD'', ''OPTIONS'', ''EXEC'', ''TUNNEL'']"

definition quoted :: "string \<Rightarrow> string" where
  "quoted s = CHR 0x27 # s @ [CHR 0x27]"

definition validate_methods :: "nat \<Rightarrow> string list \<Rightarrow> string + unit" where
  "validate_methods idx methods =
     (if methods = [] then Ok ()
      else if list_ex (\<lambda>m. trim m = ''*'') methods \<and> length methods > 1
      then Err (''approval rule '' @ nat_str idx @ '' cannot combine '' @ quoted ''*'' @ '' with explicit methods'')
      else for_each (\<lambda>m. if to_ascii_uppercase (trim m) \<notin> set rule_method_names
        then Err (''approval rule '' @ nat_str idx @ '' contains unsupported method '' @ quoted m) else Ok ()) methods)"

fun validate_rules_from :: "globs \<Rightarrow> nat \<Rightarrow> approval_rule list \<Rightarrow> string + unit" where
  "validate_rules_from globs idx [] = Ok ()"
| "validate_rules_from globs idx (rule # rules) =
     (let pattern = normalized_rule_resource_pattern (ar_resource_pattern rule) in
      if length (ar_methods rule) > MAX_RULE_METHODS
      then Err (''approval rule '' @ nat_str idx @ '' cannot list more than 16 methods'')
      else if length pattern > MAX_RULE_RESOURCE_PATTERN_LEN
      then Err (''approval rule '' @ nat_str idx @ '' resource_pattern exceeds 256 characters'')
      else and_then (validate_methods idx (ar_methods rule)) (\<lambda>_.
        and_then (map_err (\<lambda>e. ''approval rule '' @ nat_str idx @ '' resource_pattern is invalid: '' @ e)
            (and_then (compile_resource_pattern globs pattern True)
               (\<lambda>_. compile_resource_pattern globs pattern False))) (\<lambda>_.
          validate_rules_from globs (idx + 1) rules)))"

definition validate_rules :: "globs \<Rightarrow> approval_rule list \<Rightarrow> string + unit" where
  "validate_rules globs rules =
     (if list_ex ar_mandatory_review rules
      then Err ''Mandatory organization review is reader-only until execution enforcement is released''
      else if length rules > MAX_APPROVAL_RULES
      then Err ''approval rules cannot exceed 50 entries''
      else validate_rules_from globs 0 rules)"

end
