(* ===== verification/Approval_Properties.thy ===== *)
theory Approval_Properties
  imports Approval_Policy Reference_Codec
begin

text \<open>
  What the approval policy decides and what its grants cover: the matcher cache never changes a
  decision, a grant minted by a rule covers exactly the class of operations the rule declares,
  a grant minted by a default effect is the operation's resource read as a pattern.
\<close>

section \<open>Searching with state\<close>

text \<open>A test that threads a state and, while the state is sound, decides a fixed predicate.\<close>

locale stateful_test =
  fixes test :: "'a \<Rightarrow> 's \<Rightarrow> bool \<times> 's"
    and holds :: "'a \<Rightarrow> bool"
    and sound :: "'s \<Rightarrow> bool"
  assumes test_holds: "sound s \<Longrightarrow> fst (test x s) = holds x"
    and test_sound: "sound s \<Longrightarrow> sound (snd (test x s))"
begin

lemma find_stateful_eq:
  "sound s \<Longrightarrow> fst (find_stateful test xs s) = List.find holds xs \<and> sound (snd (find_stateful test xs s))"
proof (induction xs arbitrary: s)
  case (Cons x xs)
  obtain b s' where test: "test x s = (b, s')" by fastforce
  with Cons.prems test_holds [of s x] test_sound [of s x] have "b = holds x" "sound s'" by auto
  with Cons.IH test show ?case by (cases b) auto
qed simp

end

section \<open>The cache-free specification\<close>

definition resource_matches :: "globs \<Rightarrow> string \<Rightarrow> operation_descriptor \<Rightarrow> bool" where
  "resource_matches globs pattern d \<longleftrightarrow>
     (let p = normalized_rule_resource_pattern pattern in
      p = ''*'' \<or> (case normalized_resource d of None \<Rightarrow> False
        | Some resource \<Rightarrow> (case globs p (od_protocol d \<noteq> Ssh) of
            Err _ \<Rightarrow> False | Ok m \<Rightarrow> m resource)))"

definition rule_applies :: "globs \<Rightarrow> operation_descriptor \<Rightarrow> approval_rule \<Rightarrow> bool" where
  "rule_applies globs d rule \<longleftrightarrow>
     methods_match (ar_methods rule) d \<and> verbs_match (ar_verbs rule) d
     \<and> resource_matches globs (ar_resource_pattern rule) d"

text \<open>What the policy promises: the first rule that applies decides, else the default, else the
  legacy switch, which only an empty rule list consults.\<close>

definition policy_spec :: "globs \<Rightarrow> approval_config \<Rightarrow> operation_descriptor \<Rightarrow> policy_decision" where
  "policy_spec globs config d =
     (case List.find (rule_applies globs d) (ac_rules config) of
        Some rule \<Rightarrow> \<lparr>pd_effect = ar_effect rule, pd_mode = ar_mode rule,
          pd_grant_scope = (if ar_effect rule = RequireApproval then Some (scope_from_rule d rule) else None)\<rparr>
      | None \<Rightarrow>
          (let effect = (case ac_default_effect config of Some e \<Rightarrow> e
                 | None \<Rightarrow> if ac_rules config = [] \<and> ac_approval_required config
                          then RequireApproval else AutoAllow)
           in \<lparr>pd_effect = effect, pd_mode = ac_approval_mode config,
               pd_grant_scope = (if ac_default_effect config = Some RequireApproval
                 then Some (concrete_scope d) else None)\<rparr>))"

text \<open>A sound cache: bounded, one entry per key, each entry what compiling its key gives.\<close>

definition cache_ok :: "globs \<Rightarrow> glob_cache \<Rightarrow> bool" where
  "cache_ok globs cache \<longleftrightarrow>
     length cache \<le> MAX_CACHED_GLOBS \<and> distinct (map fst cache)
     \<and> (\<forall>e \<in> set cache. compile_resource_pattern globs (fst (fst e)) (snd (fst e)) = Ok (snd e))"

lemma normalized_pattern_idem [simp]:
  "normalized_rule_resource_pattern (normalized_rule_resource_pattern p) = normalized_rule_resource_pattern p"
proof -
  have "trim ''*'' = ''*''" by code_simp
  then show ?thesis by (simp add: normalized_rule_resource_pattern_def)
qed

lemma cached_resource_matcher_ok:
  assumes "cache_ok globs cache"
  shows "fst (cached_resource_matcher globs p sep cache) = globs (normalized_rule_resource_pattern p) sep"
    and "cache_ok globs (snd (cached_resource_matcher globs p sep cache))"
proof -
  let ?key = "(normalized_rule_resource_pattern p, sep)"
  show "fst (cached_resource_matcher globs p sep cache) = globs (normalized_rule_resource_pattern p) sep"
  proof (cases "map_of cache ?key")
    case None
    then show ?thesis
      by (auto simp: cached_resource_matcher_def compile_resource_pattern_def Let_def split: sum.splits)
  next
    case (Some m)
    then have "(?key, m) \<in> set cache" by (rule map_of_SomeD)
    with assms have "compile_resource_pattern globs (fst ?key) (snd ?key) = Ok m"
      unfolding cache_ok_def by force
    with Some show ?thesis by (simp add: cached_resource_matcher_def compile_resource_pattern_def)
  qed
  show "cache_ok globs (snd (cached_resource_matcher globs p sep cache))"
    using assms
    by (auto simp: cached_resource_matcher_def cache_ok_def Let_def map_of_eq_None_iff MAX_CACHED_GLOBS_def
        split: option.splits sum.splits)
qed

lemma resource_pattern_matches_ok:
  assumes "cache_ok globs cache"
  shows "fst (resource_pattern_matches globs p d cache) = resource_matches globs p d"
    and "cache_ok globs (snd (resource_pattern_matches globs p d cache))"
proof -
  let ?q = "normalized_rule_resource_pattern p" and ?sep = "literal_separator_for_protocol (od_protocol d)"
  obtain r cache' where run: "cached_resource_matcher globs ?q ?sep cache = (r, cache')" by fastforce
  with cached_resource_matcher_ok [OF assms, of ?q ?sep]
  have r: "r = globs ?q (od_protocol d \<noteq> Ssh)" and ok: "cache_ok globs cache'"
    by (simp_all add: literal_separator_for_protocol_def)
  show "fst (resource_pattern_matches globs p d cache) = resource_matches globs p d"
    using run r by (auto simp: resource_pattern_matches_def resource_matches_def Let_def
        split: option.splits sum.splits)
  show "cache_ok globs (snd (resource_pattern_matches globs p d cache))"
    using run ok assms by (auto simp: resource_pattern_matches_def Let_def split: option.splits sum.splits)
qed

interpretation rules: stateful_test
  "\<lambda>rule. approval_rule_matches globs rule d" "rule_applies globs d" "cache_ok globs"
  for globs d
  by unfold_locales
    (auto simp: approval_rule_matches_def rule_applies_def resource_pattern_matches_ok)

lemma find_rule_ok:
  assumes "cache_ok globs cache"
  obtains cache' where "find_rule globs rules d cache = (List.find (rule_applies globs d) rules, cache')"
    "cache_ok globs cache'"
  using rules.find_stateful_eq [OF assms, of d rules] unfolding find_rule_def
  by (metis prod.collapse)

lemma evaluate_spec:
  assumes ok: "cache_ok globs cache"
  shows "fst (evaluate globs config d cache) = policy_spec globs config d"
    and "cache_ok globs (snd (evaluate globs config d cache))"
proof -
  obtain c where run: "find_rule globs (ac_rules config) d cache
      = (List.find (rule_applies globs d) (ac_rules config), c)" "cache_ok globs c"
    using find_rule_ok [OF ok] by blast
  show "fst (evaluate globs config d cache) = policy_spec globs config d"
    using run(1) by (auto simp: evaluate_def policy_spec_def require_approval_scope_def Let_def split: option.splits)
  show "cache_ok globs (snd (evaluate globs config d cache))"
    using run by (auto simp: evaluate_def split: option.splits)
qed

text \<open>
  C30. The matcher cache is an optimisation and nothing more. From any sound cache, \<open>evaluate\<close>
  returns exactly the decision of the cache-free specification (the first rule that applies,
  else the default effect, else the legacy switch), \<open>mandatory_review\<close> and
  \<open>grant_scope_covers\<close> answer the same from any two sound caches, and the cache they leave is
  sound again: at most 1024 entries, one per key.
\<close>

theorem evaluate_refines_spec:
  assumes ok: "cache_ok globs cache" and ok': "cache_ok globs cache'"
  shows "fst (evaluate globs config d cache) = policy_spec globs config d
    \<and> cache_ok globs (snd (evaluate globs config d cache))
    \<and> (fst (mandatory_review globs config d cache) \<longleftrightarrow>
        (\<exists>rule. List.find (rule_applies globs d) (ac_rules config) = Some rule \<and> ar_mandatory_review rule))
    \<and> fst (grant_scope_covers globs scope d cache) = fst (grant_scope_covers globs scope d cache')
    \<and> cache_ok globs (snd (grant_scope_covers globs scope d cache))"
proof (intro conjI)
  obtain c where run: "find_rule globs (ac_rules config) d cache
      = (List.find (rule_applies globs d) (ac_rules config), c)" "cache_ok globs c"
    using find_rule_ok [OF ok] by blast
  show "fst (evaluate globs config d cache) = policy_spec globs config d"
    "cache_ok globs (snd (evaluate globs config d cache))"
    using evaluate_spec [OF ok] by blast+
  show "fst (mandatory_review globs config d cache) \<longleftrightarrow>
      (\<exists>rule. List.find (rule_applies globs d) (ac_rules config) = Some rule \<and> ar_mandatory_review rule)"
    using run(1) by (auto simp: mandatory_review_def split: option.splits)
  show "fst (grant_scope_covers globs scope d cache) = fst (grant_scope_covers globs scope d cache')"
    using resource_pattern_matches_ok(1) [OF ok] resource_pattern_matches_ok(1) [OF ok']
    by (auto simp: grant_scope_covers_def split: option.splits)
  show "cache_ok globs (snd (grant_scope_covers globs scope d cache))"
    using resource_pattern_matches_ok(2) [OF ok] ok
    by (auto simp: grant_scope_covers_def split: option.splits)
qed

section \<open>Reading a minted scope back\<close>

lemma parse_build_scope:
  assumes "CHR '':'' \<notin> set protocol" "CHR '':'' \<notin> set methods" "CHR '':'' \<notin> set verbs"
  shows "parse_scope (build_scope protocol methods verbs p) =
    Some \<lparr>ps_protocol = protocol, ps_methods = split_scope_set methods,
          ps_verbs = split_scope_set verbs, ps_resource_pattern = p\<rparr>"
proof -
  define version where "version = ''v1''"
  have version: "CHR '':'' \<notin> set version" by (simp add: version_def)
  have scope: "build_scope protocol methods verbs p
      = version @ CHR '':'' # protocol @ CHR '':'' # methods @ CHR '':'' # verbs @ CHR '':'' # p"
    by (simp add: build_scope_def version_def)
  have five: "(5 :: nat) = Suc (Suc (Suc (Suc (Suc 0))))" by simp
  have "splitn 5 CHR '':'' (build_scope protocol methods verbs p) = [version, protocol, methods, verbs, p]"
    unfolding scope five using assms version by simp
  then show ?thesis by (simp add: parse_scope_def version_def)
qed

lemma split_scope_set_join:
  assumes "xs \<noteq> []" "\<forall>x \<in> set xs. CHR '','' \<notin> set x \<and> x \<noteq> [] \<and> trim x = x"
  shows "split_scope_set (join '','' xs) = xs"
proof -
  have "map trim xs = xs" using assms(2) by (intro map_idI) blast
  moreover have "filter (\<lambda>item. item \<noteq> []) xs = xs" using assms(2) by (simp add: filter_id_conv)
  ultimately show ?thesis using assms by (simp add: split_scope_set_def split_on_join)
qed

definition scope_word :: "string \<Rightarrow> bool" where
  "scope_word x \<longleftrightarrow> x \<noteq> [] \<and> CHR '','' \<notin> set x \<and> CHR '':'' \<notin> set x \<and> trim x = x"

lemma remdups_sort_Nil: "remdups_adj (sort xs) = [] \<longleftrightarrow> xs = []"
  by (metis remdups_adj_Nil_iff set_empty set_sort)

lemma scope_word_set:
  assumes "xs \<noteq> []" "\<forall>x \<in> set xs. scope_word x"
  shows "split_scope_set (join '','' (remdups_adj (sort xs))) = remdups_adj (sort xs)"
    and "CHR '':'' \<notin> set (join '','' (remdups_adj (sort xs)))"
proof -
  have "remdups_adj (sort xs) \<noteq> []" using assms(1) remdups_sort_Nil by blast
  then show "split_scope_set (join '','' (remdups_adj (sort xs))) = remdups_adj (sort xs)"
    using assms(2) by (intro split_scope_set_join) (auto simp: scope_word_def)
  have "CHR '':'' \<notin> set x" if "x \<in> set (remdups_adj (sort xs))" for x
    using that assms(2) by (simp add: scope_word_def)
  then show "CHR '':'' \<notin> set (join '','' (remdups_adj (sort xs)))"
    using set_join [of "'',''" "remdups_adj (sort xs)"] by auto
qed

lemma star_word: "scope_word ''*''" "split_scope_set ''*'' = [''*'']" "CHR '':'' \<notin> set ''*''"
  by code_simp+

lemma verb_words: "scope_word (verb_str v)" "verb_str v \<noteq> ''*''"
proof -
  have "scope_word ''read'' \<and> scope_word ''write'' \<and> scope_word ''destructive''" by code_simp
  then show "scope_word (verb_str v)" "verb_str v \<noteq> ''*''" by (cases v; simp)+
qed

lemma verb_str_inj [simp]: "verb_str v = verb_str w \<longleftrightarrow> v = w"
  by (cases v; cases w) simp_all

lemma lower_upper: "to_ascii_lowercase (to_ascii_uppercase s) = to_ascii_lowercase s"
proof -
  have "to_lower (to_upper c) = to_lower c" for c
    by (auto simp: to_lower_def to_upper_def is_ascii_lowercase_def is_ascii_uppercase_def byte_def of_char_of)
  then show ?thesis by (simp add: to_ascii_lowercase_def to_ascii_uppercase_def)
qed

lemma list_ex_map_comp: "list_ex P (map f xs) = list_ex (P \<circ> f) xs"
  by (induction xs) simp_all

lemma lower_star: "to_ascii_lowercase s = ''*'' \<longleftrightarrow> s = ''*''"
proof -
  have "to_lower c = CHR ''*'' \<longleftrightarrow> c = CHR ''*''" for c
    using to_lower_eq_nonlower [of "CHR ''*''" c]
    by (auto simp: is_ascii_lowercase_def is_ascii_uppercase_def byte_def)
  then show ?thesis by (auto simp: to_ascii_lowercase_def map_eq_Cons_conv)
qed

definition rule_method_ok :: "string \<Rightarrow> bool" where
  "rule_method_ok m \<longleftrightarrow> to_ascii_uppercase (trim m) \<in> set rule_method_names"

lemma rule_method_word:
  assumes "rule_method_ok m" shows "scope_word (to_ascii_lowercase (trim m))"
proof -
  have "to_ascii_lowercase (trim m) \<in> to_ascii_lowercase ` set rule_method_names"
    using assms unfolding rule_method_ok_def by (metis imageI lower_upper)
  moreover have "list_all scope_word (map to_ascii_lowercase rule_method_names)" by code_simp
  ultimately show ?thesis by (auto simp: list_all_iff)
qed

lemma method_set_roundtrip:
  assumes "\<forall>m \<in> set methods. rule_method_ok m"
  shows "method_set_matches (split_scope_set (normalized_method_set methods)) d = methods_match methods d"
    and "CHR '':'' \<notin> set (normalized_method_set methods)"
proof -
  define names where "names = map (\<lambda>m. to_ascii_lowercase (trim m)) methods"
  have words: "\<forall>x \<in> set names. scope_word x"
    using assms rule_method_word by (auto simp: names_def)
  then have all: "filter (\<lambda>m. m \<noteq> []) names = names"
    by (auto simp: filter_id_conv scope_word_def)
  have star: "list_ex (\<lambda>m. m = ''*'') names \<longleftrightarrow> list_ex (\<lambda>m. trim m = ''*'') methods"
    unfolding names_def list_ex_map_comp comp_def by (simp add: lower_star del: trim_lower)
  have set_eq: "normalized_method_set methods =
      (if names = [] \<or> list_ex (\<lambda>m. m = ''*'') names then ''*'' else join '','' (remdups_adj (sort names)))"
    using all by (simp add: normalized_method_set_def names_def [symmetric])
  have matched: "methods_match methods d \<longleftrightarrow> names = [] \<or> list_ex (\<lambda>m. m = ''*'') names
      \<or> (\<exists>m. normalized_method d = Some m \<and> m \<in> set names)"
    unfolding star by (auto simp: methods_match_def names_def list_ex_iff split: option.splits)
  show "method_set_matches (split_scope_set (normalized_method_set methods)) d = methods_match methods d"
  proof (cases "names = [] \<or> list_ex (\<lambda>m. m = ''*'') names")
    case True
    then show ?thesis using set_eq matched star_word(2) by (auto simp: method_set_matches_def)
  next
    case False
    then have "split_scope_set (normalized_method_set methods) = remdups_adj (sort names)"
      using scope_word_set(1) [OF _ words] set_eq by simp
    moreover have "remdups_adj (sort names) \<noteq> []" using False remdups_sort_Nil by blast
    moreover have "''*'' \<notin> set names" using False by (auto simp: list_ex_iff)
    ultimately show ?thesis
      using False matched by (auto simp: method_set_matches_def list_ex_iff split: option.splits)
  qed
  show "CHR '':'' \<notin> set (normalized_method_set methods)"
    using set_eq scope_word_set(2) [OF _ words] by (cases "names = []") simp_all
qed

lemma verb_set_roundtrip:
  "verb_set_matches (split_scope_set (normalized_verb_set verbs)) d = verbs_match verbs d"
  "CHR '':'' \<notin> set (normalized_verb_set verbs)"
proof -
  have words: "\<forall>x \<in> set (map verb_str verbs). scope_word x" by (simp add: verb_words)
  show "verb_set_matches (split_scope_set (normalized_verb_set verbs)) d = verbs_match verbs d"
  proof (cases "verbs = []")
    case True
    then show ?thesis using star_word(2) by (simp add: normalized_verb_set_def verb_set_matches_def verbs_match_def)
  next
    case False
    then have "split_scope_set (normalized_verb_set verbs) = remdups_adj (sort (map verb_str verbs))"
      using scope_word_set(1) [OF _ words] by (simp add: normalized_verb_set_def)
    moreover have "remdups_adj (sort (map verb_str verbs)) \<noteq> []"
      using False by (simp only: remdups_sort_Nil map_is_Nil_conv not_False_eq_True)
    moreover have "''*'' \<notin> verb_str ` set verbs" using verb_words(2) by (metis imageE)
    ultimately show ?thesis
      using False by (auto simp: verb_set_matches_def verbs_match_def list_ex_iff)
  qed
  show "CHR '':'' \<notin> set (normalized_verb_set verbs)"
    using scope_word_set(2) [OF _ words] by (simp add: normalized_verb_set_def)
qed

lemma protocol_labels: "scope_protocol_family (protocol_scope_label p) = Some (protocol_scope_label p)"
  "CHR '':'' \<notin> set (protocol_scope_label p)"
  by (cases p; simp add: scope_protocol_family_def)+

lemma validated_methods:
  "validate_rules_from globs idx rules = Ok () \<Longrightarrow> rule \<in> set rules \<Longrightarrow> m \<in> set (ar_methods rule)
   \<Longrightarrow> rule_method_ok m"
proof (induction globs idx rules rule: validate_rules_from.induct)
  case (2 globs idx r rules)
  then have "validate_methods idx (ar_methods r) = Ok ()" "validate_rules_from globs (idx + 1) rules = Ok ()"
    by (auto simp: Let_def split: if_splits)
  with 2 show ?case
    by (auto simp: validate_methods_def rule_method_ok_def Let_def split: if_splits)
qed simp

lemma rule_scope_covers:
  assumes ok: "cache_ok globs cache" and methods: "\<forall>m \<in> set (ar_methods rule). rule_method_ok m"
  shows "fst (grant_scope_covers globs (Some (scope_from_rule d rule)) d' cache) \<longleftrightarrow>
    protocol_scope_label (od_protocol d') = protocol_scope_label (od_protocol d) \<and> rule_applies globs d' rule"
proof -
  have "parse_scope (scope_from_rule d rule) =
      Some \<lparr>ps_protocol = protocol_scope_label (od_protocol d),
        ps_methods = split_scope_set (normalized_method_set (ar_methods rule)),
        ps_verbs = split_scope_set (normalized_verb_set (ar_verbs rule)),
        ps_resource_pattern = normalized_rule_resource_pattern (ar_resource_pattern rule)\<rparr>"
    unfolding scope_from_rule_def
    by (intro parse_build_scope protocol_labels(2) method_set_roundtrip(2) [OF methods] verb_set_roundtrip(2))
  moreover have "resource_matches globs (normalized_rule_resource_pattern (ar_resource_pattern rule)) d'
      = resource_matches globs (ar_resource_pattern rule) d'"
    by (simp add: resource_matches_def)
  ultimately show ?thesis
    using method_set_roundtrip(1) [OF methods, of d'] verb_set_roundtrip(1) [of "ar_verbs rule" d']
      resource_pattern_matches_ok(1) [OF ok]
    by (auto simp: grant_scope_covers_def protocol_labels rule_applies_def)
qed

text \<open>
  C21. A grant covers exactly what its rule declares. Among rules that pass \<open>validate_rules\<close>,
  when the rule that decides an operation asks for approval, the decision carries a scope; the
  scope covers the operation it was minted for, and any other operation exactly when that
  operation belongs to the same protocol family and the same rule applies to it. Methods,
  verbs and pattern survive the text format, whatever their case, order and repetition.
\<close>

theorem rule_scope_is_rule_class:
  assumes "validate_rules globs (ac_rules config) = Ok ()"
    and "fst (find_rule globs (ac_rules config) d cache) = Some rule" and "ar_effect rule = RequireApproval"
    and ok: "cache_ok globs cache" and ok': "cache_ok globs cache'"
  shows "\<exists>scope. pd_grant_scope (fst (evaluate globs config d cache)) = Some scope
    \<and> fst (grant_scope_covers globs (Some scope) d cache')
    \<and> (fst (grant_scope_covers globs (Some scope) d' cache') \<longleftrightarrow>
        protocol_scope_label (od_protocol d') = protocol_scope_label (od_protocol d) \<and> rule_applies globs d' rule)"
proof -
  have found: "List.find (rule_applies globs d) (ac_rules config) = Some rule"
    using assms(2) find_rule_ok [OF ok, of "ac_rules config" d] by fastforce
  then have rule: "rule \<in> set (ac_rules config)" "rule_applies globs d rule"
    by (auto simp: find_Some_iff)
  have "validate_rules_from globs 0 (ac_rules config) = Ok ()"
    using assms(1) by (auto simp: validate_rules_def split: if_splits)
  with rule(1) have methods: "\<forall>m \<in> set (ar_methods rule). rule_method_ok m"
    using validated_methods by blast
  have "fst (evaluate globs config d cache) = policy_spec globs config d"
    by (rule evaluate_spec(1) [OF ok])
  with found assms(3) have "pd_grant_scope (fst (evaluate globs config d cache)) = Some (scope_from_rule d rule)"
    by (simp add: policy_spec_def)
  then show ?thesis using rule_scope_covers [OF ok' methods] rule(2) by simp
qed

section \<open>Scopes of a default effect\<close>

lemma concrete_scope_covers:
  assumes ok: "cache_ok globs cache" and m: "normalized_method d = Some m" "list_all is_ascii_alphabetic m"
  shows "fst (grant_scope_covers globs (Some (concrete_scope d)) d' cache) \<longleftrightarrow>
    protocol_scope_label (od_protocol d') = protocol_scope_label (od_protocol d)
    \<and> normalized_method d' = Some m \<and> od_verb d' = od_verb d
    \<and> (case normalized_resource d of None \<Rightarrow> True | Some r \<Rightarrow> resource_matches globs r d')"
proof -
  obtain m0 where m0: "od_method d = Some m0" "m = to_ascii_lowercase (trim m0)" "m \<noteq> []"
    using m(1) by (auto simp: normalized_method_def nonempty_def split: option.splits if_splits)
  have letters: "CHR '':'' \<notin> set m" "CHR '','' \<notin> set m" "CHR ''*'' \<notin> set m"
    using m(2) by (auto simp: list_all_iff is_ascii_alphabetic_def is_ascii_lowercase_def
        is_ascii_uppercase_def byte_def)
  have "trim m = m" using m0(2) by (simp flip: trim_lower)
  with m0(3) letters have words: "split_scope_set m = [m]" "m \<noteq> ''*''"
    by (auto simp: split_scope_set_def)
  have verb: "split_scope_set (verb_str (od_verb d)) = [verb_str (od_verb d)]" "CHR '':'' \<notin> set (verb_str (od_verb d))"
    using verb_words(1) [of "od_verb d"] by (auto simp: split_scope_set_def scope_word_def)
  let ?r = "case normalized_resource d of None \<Rightarrow> ''*'' | Some r \<Rightarrow> r"
  have "parse_scope (concrete_scope d) =
      Some \<lparr>ps_protocol = protocol_scope_label (od_protocol d), ps_methods = [m],
        ps_verbs = [verb_str (od_verb d)], ps_resource_pattern = ?r\<rparr>"
    using parse_build_scope [of "protocol_scope_label (od_protocol d)" m "verb_str (od_verb d)" ?r]
      letters verb words m(1) by (simp add: concrete_scope_def protocol_labels)
  moreover have "resource_matches globs ?r d' \<longleftrightarrow>
      (case normalized_resource d of None \<Rightarrow> True | Some r \<Rightarrow> resource_matches globs r d')"
  proof (cases "normalized_resource d")
    case None
    have "normalized_rule_resource_pattern ''*'' = ''*''" by code_simp
    with None show ?thesis by (simp add: resource_matches_def)
  qed simp
  ultimately show ?thesis
    using resource_pattern_matches_ok(1) [OF ok] words(2) verb_words(2) [of "od_verb d"]
    by (auto simp: grant_scope_covers_def protocol_labels method_set_matches_def verb_set_matches_def
        split: option.splits)
qed

text \<open>
  A grant minted by a default effect covers one method and one verb, and the resource it
  was asked for read as a pattern. When no rule applies and the default effect asks for
  approval, the decision's scope covers another operation of the same protocol family exactly
  when its method and verb are the same and its resource matches the original resource as a
  glob, so a wildcard in the approved resource is a wildcard in the grant.
\<close>

theorem default_scope_is_resource_pattern:
  assumes ok: "cache_ok globs cache" and ok': "cache_ok globs cache'"
    and "fst (find_rule globs (ac_rules config) d cache) = None"
    and "ac_default_effect config = Some RequireApproval"
    and "normalized_method d = Some m" "list_all is_ascii_alphabetic m"
  shows "\<exists>scope. pd_grant_scope (fst (evaluate globs config d cache)) = Some scope
    \<and> (fst (grant_scope_covers globs (Some scope) d' cache') \<longleftrightarrow>
        protocol_scope_label (od_protocol d') = protocol_scope_label (od_protocol d)
        \<and> normalized_method d' = Some m \<and> od_verb d' = od_verb d
        \<and> (case normalized_resource d of None \<Rightarrow> True | Some r \<Rightarrow> resource_matches globs r d'))"
proof -
  have "List.find (rule_applies globs d) (ac_rules config) = None"
    using assms(3) find_rule_ok [OF ok, of "ac_rules config" d] by fastforce
  then have "pd_grant_scope (fst (evaluate globs config d cache)) = Some (concrete_scope d)"
    using assms(4) evaluate_spec(1) [OF ok] by (simp add: policy_spec_def)
  then show ?thesis using concrete_scope_covers [OF ok' assms(5,6)] by simp
qed

section \<open>Effects and contracts\<close>

text \<open>Metadata of an operation about which the catalog says nothing.\<close>

definition no_metadata :: endpoint_metadata where
  "no_metadata = \<lparr>em_risk = None, em_destructive = False, em_changes_existing = None,
     em_append_only = False, em_catalog_contract = False\<rparr>"

text \<open>
  A remote specification may only narrow. Whatever an operation's metadata marks, unless it
  comes from a catalog contract it never makes a method readable or usable that is not so
  without any metadata, and it never removes a destructive mark; and for every metadata a
  destructive operation does not read, and an operation that reads may be used.
\<close>

theorem remote_metadata_only_narrows:
  assumes "\<not> em_catalog_contract metadata"
  shows "(oe_reads (operation_effects_of meth metadata) \<longrightarrow> oe_reads (operation_effects_of meth no_metadata))
    \<and> (oe_uses (operation_effects_of meth metadata) \<longrightarrow> oe_uses (operation_effects_of meth no_metadata))
    \<and> (oe_destructive (operation_effects_of meth no_metadata) \<longrightarrow> oe_destructive (operation_effects_of meth metadata))
    \<and> (oe_destructive (operation_effects_of meth metadata') \<longrightarrow> \<not> oe_reads (operation_effects_of meth metadata'))
    \<and> (oe_reads (operation_effects_of meth metadata') \<longrightarrow> oe_uses (operation_effects_of meth metadata'))"
  using assms by (simp add: operation_effects_of_def no_metadata_def Let_def)

inductive occurs_key :: "string \<Rightarrow> json \<Rightarrow> bool" where
  here: "(k, v) \<in> set es \<Longrightarrow> occurs_key k (JObject es)"
| in_object: "(k', v) \<in> set es \<Longrightarrow> occurs_key k v \<Longrightarrow> occurs_key k (JObject es)"
| in_array: "v \<in> set xs \<Longrightarrow> occurs_key k v \<Longrightarrow> occurs_key k (JArray xs)"

inductive_simps occurs_key_simps:
  "occurs_key k JNull" "occurs_key k (JBool b)" "occurs_key k (JNumber n)" "occurs_key k (JString s)"
  "occurs_key k (JArray xs)" "occurs_key k (JObject es)"

lemma occurs_key_object: "occurs_key k (JObject es) \<longleftrightarrow> (\<exists>e \<in> set es. fst e = k \<or> occurs_key k (snd e))"
  by (force simp: occurs_key_simps)

lemma handles_iff:
  "handles v \<longleftrightarrow> (\<exists>k \<in> set handle_keys. occurs_key k v)"
  "handles_list xs \<longleftrightarrow> (\<exists>k \<in> set handle_keys. \<exists>x \<in> set xs. occurs_key k x)"
  "handles_obj es \<longleftrightarrow> (\<exists>k \<in> set handle_keys. \<exists>e \<in> set es. fst e = k \<or> occurs_key k (snd e))"
proof (induction v and xs and es rule: handles_handles_list_handles_obj.induct)
  case (1 es)
  then show ?case by (simp only: handles.simps occurs_key_object)
next
  case (2 xs)
  then show ?case by (auto simp: occurs_key_simps)
qed (simp_all only: handles.simps handles_list.simps handles_obj.simps occurs_key_simps, auto)

text \<open>
  What makes a write read-class. If the inference contract turns an operation that was not
  read-class into one, then the service declares inference, no method override is present, the
  method is \<open>POST\<close> and the body is one JSON object with only known fields, which neither
  stores nor runs in the background and, outside its tool declarations and correlation metadata,
  names no provider resource handle at any depth.
\<close>

theorem inference_read_is_closed:
  assumes "od_verb d \<noteq> Read"
    and "od_verb (apply_inference_contract ext d inference body method_override guest) = Read"
  shows "inference \<and> \<not> method_override \<and> od_method d = Some ''POST'' \<and> od_verb d \<noteq> Destructive
    \<and> (\<exists>bytes entries. body = Some bytes \<and> read_value ext bytes = Some (JObject entries)
        \<and> fst ` set entries \<subseteq> set model_fields
        \<and> map_of entries ''store'' \<in> {None, Some (JBool False)}
        \<and> map_of entries ''background'' \<in> {None, Some (JBool False)}
        \<and> (\<forall>(f, v) \<in> set entries. \<forall>k \<in> set handle_keys.
             f = ''tools'' \<or> f = ''client_metadata'' \<or> f \<noteq> k \<and> \<not> occurs_key k v))"
proof -
  from assms obtain bytes v path where ctx: "inference" "\<not> method_override" "od_method d = Some ''POST''"
      "od_verb d \<noteq> Destructive" "body = Some bytes" "read_value ext bytes = Some v"
    and shape: "model_shape path v = Ok ()"
    by (auto simp: apply_inference_contract_def stateless_inference_def stateless_model_transport_def
        is_ok_iff Let_def split: if_splits option.splits)
  from shape obtain entries where v: "v = JObject entries"
    by (cases v) (auto simp: model_shape_def Let_def split: if_splits)
  from shape v have keys: "\<not> list_ex (\<lambda>(key, _). key \<notin> set model_fields) entries"
    and store: "\<not> (case map_of entries ''store'' of None \<Rightarrow> False | Some v \<Rightarrow> v \<noteq> JBool False)"
    and background: "\<not> (case map_of entries ''background'' of None \<Rightarrow> False | Some v \<Rightarrow> v \<noteq> JBool False)"
    and handles: "\<not> handles_obj (filter (\<lambda>(key, _). key \<noteq> ''tools'' \<and> key \<noteq> ''client_metadata'') entries)"
    by (auto simp: model_shape_def Let_def split: if_splits)
  from keys have "fst ` set entries \<subseteq> set model_fields" by (auto simp: list_ex_iff)
  moreover from handles have "\<forall>(f, v) \<in> set entries. \<forall>k \<in> set handle_keys.
      f = ''tools'' \<or> f = ''client_metadata'' \<or> f \<noteq> k \<and> \<not> occurs_key k v"
    unfolding handles_iff by fastforce
  moreover from store background have "map_of entries ''store'' \<in> {None, Some (JBool False)}"
      "map_of entries ''background'' \<in> {None, Some (JBool False)}"
    by (auto split: option.splits)
  ultimately show ?thesis using ctx v by blast
qed

text \<open>
  A method override is never read-class. With an override present, whatever the trusted
  effects, the inference contract and the machine Git contract say, in the order the proxy
  applies them, the operation ends as a write or as destructive; and neither contract ever
  weakens a destructive operation, override or not.
\<close>

theorem override_is_never_read:
  "od_verb (apply_machine_git_contract
      (apply_inference_contract ext (apply_operation_effects d effects True) inference body True guest)
      content_types True) \<noteq> Read
   \<and> od_verb (apply_inference_contract ext d inference body True guest) \<noteq> Read
   \<and> (if od_verb d = Destructive
      then apply_inference_contract ext d inference body method_override guest = d
        \<and> apply_machine_git_contract d content_types method_override = d
      else od_verb (apply_machine_git_contract d content_types True) = od_verb d)"
  by (simp add: apply_machine_git_contract_def apply_inference_contract_def apply_operation_effects_def Let_def)

section \<open>Descriptions\<close>

lemma boundary_before_props:
  "is_char_boundary s (boundary_before s i) \<and> boundary_before s i \<le> i
   \<and> (\<forall>j. boundary_before s i < j \<and> j \<le> i \<longrightarrow> \<not> is_char_boundary s j)"
proof (induction s i rule: boundary_before.induct)
  case (1 s i)
  show ?case
  proof (cases "is_char_boundary s i")
    case True
    then show ?thesis by (auto simp: boundary_before.simps [of s i])
  next
    case False
    then have "i \<noteq> 0" by (auto simp: is_char_boundary_def)
    have step: "boundary_before s i = boundary_before s (i - 1)"
      using False by (simp add: boundary_before.simps [of s i])
    have "\<not> is_char_boundary s j" if "boundary_before s i < j" "j \<le> i" for j
      using that 1 [OF False] False step by (cases "j = i") auto
    with 1 [OF False] step show ?thesis by auto
  qed
qed

lemma truncation_eqs:
  "truncate_stored_resource = truncate_description" "truncate_summary = truncate_description"
  by (auto simp: fun_eq_iff truncate_stored_resource_def truncate_summary_def truncate_description_def
      MAX_STORED_RESOURCE_LEN_def)

lemma truncate_description_le: "length (truncate_description s) \<le> 200"
  using boundary_before_props [of s 197] by (auto simp: truncate_description_def)

text \<open>
  Descriptions fit. Every action description, every stored SSH command and its summary has at
  most 200 bytes, whatever the request. A text that is cut keeps the longest prefix of at most
  197 bytes that ends at a character boundary, followed by three dots, so the loop that looks
  for the boundary ends and never splits a character.
\<close>

theorem descriptions_fit:
  "length (build_action_description ext meth path body) \<le> 200
   \<and> length (truncate_stored_resource s) \<le> 200
   \<and> od_resource (build_ssh_descriptor redact Exec command)
       = Some (truncate_stored_resource (redact (trim (case command of None \<Rightarrow> [] | Some c \<Rightarrow> c))))
   \<and> length (od_summary (build_ssh_descriptor redact Exec command)) \<le> 200
   \<and> (if length s \<le> 200 then truncate_description s = s
      else (\<exists>i \<le> 197. is_char_boundary s i \<and> truncate_description s = take i s @ ''...''
        \<and> {j. i < j \<and> j \<le> 197 \<and> is_char_boundary s j} = {}))"
proof (intro conjI)
  show "length (build_action_description ext meth path body) \<le> 200"
    by (auto simp: build_action_description_def Let_def truncate_description_le split: option.splits)
  show "length (truncate_stored_resource s) \<le> 200"
    by (simp add: truncation_eqs truncate_description_le)
  show "od_resource (build_ssh_descriptor redact Exec command)
      = Some (truncate_stored_resource (redact (trim (case command of None \<Rightarrow> [] | Some c \<Rightarrow> c))))"
    by (simp add: Let_def sanitize_ssh_command_def)
  show "length (od_summary (build_ssh_descriptor redact Exec command)) \<le> 200"
    by (simp add: Let_def truncation_eqs truncate_description_le)
  show "if length s \<le> 200 then truncate_description s = s
      else (\<exists>i \<le> 197. is_char_boundary s i \<and> truncate_description s = take i s @ ''...''
        \<and> {j. i < j \<and> j \<le> 197 \<and> is_char_boundary s j} = {})"
    using boundary_before_props [of s 197] by (auto simp: truncate_description_def)
qed

text \<open>What a description may show of a body: the scalar values of seven keys and a count.\<close>

definition shown_params :: "(string \<times> json) list \<Rightarrow> string option list \<times> nat option" where
  "shown_params entries =
     (map (\<lambda>k. Option.bind (map_of entries k) display_value) interesting_keys,
      (case map_of entries ''messages'' of Some (JArray ms) \<Rightarrow> Some (length ms) | _ \<Rightarrow> None))"

text \<open>
  A notification never shows content. The description of a request depends on its JSON body
  only through the scalar values of seven well-known keys and the number of messages: two
  bodies that agree on those, whatever their messages, inputs and credentials, have the same
  description.
\<close>

theorem description_hides_content:
  assumes "read_value ext body1 = Some (JObject entries1)" "read_value ext body2 = Some (JObject entries2)"
    and "shown_params entries1 = shown_params entries2"
  shows "build_action_description ext meth path (Some body1) = build_action_description ext meth path (Some body2)"
proof -
  have param: "(case map_of entries k of None \<Rightarrow> None
      | Some val \<Rightarrow> map_option (\<lambda>display. k @ '': '' @ display) (display_value val)) =
      map_option (\<lambda>display. k @ '': '' @ display) (Option.bind (map_of entries k) display_value)" for entries k
    by (cases "map_of entries k") simp_all
  have count: "(case map_of entries ''messages'' of
      Some (JArray messages) \<Rightarrow> [nat_str (length messages) @ '' messages''] | _ \<Rightarrow> []) =
      (case snd (shown_params entries) of Some n \<Rightarrow> [nat_str n @ '' messages''] | None \<Rightarrow> [])" for entries
    by (auto simp: shown_params_def split: option.splits json.splits)
  have "Option.bind (map_of entries1 k) display_value = Option.bind (map_of entries2 k) display_value"
    if "k \<in> set interesting_keys" for k
    using assms(3) that by (auto simp: shown_params_def)
  then have "extract_key_params ext body1 = extract_key_params ext body2"
    using assms by (simp add: extract_key_params_def param count List.map_filter_def cong: map_cong filter_cong)
  then show ?thesis by (simp add: build_action_description_def Let_def)
qed

section \<open>Instances\<close>

text \<open>
  A glob engine for the instances: \<open>*\<close> stands for any text (without \<open>/\<close> when the separator is
  literal), every other character for itself, and \<open>[\<close> does not compile.
\<close>

fun demo_glob :: "bool \<Rightarrow> string \<Rightarrow> string \<Rightarrow> bool" where
  "demo_glob sep [] s = (s = [])"
| "demo_glob sep (p # ps) [] = (p = CHR ''*'' \<and> demo_glob sep ps [])"
| "demo_glob sep (p # ps) (c # s) =
     (if p = CHR ''*'' then demo_glob sep ps (c # s) \<or> \<not> (sep \<and> c = CHR ''/'') \<and> demo_glob sep (p # ps) s
      else p = c \<and> demo_glob sep ps s)"

definition demo_globs :: globs where
  "demo_globs pattern sep =
     (if CHR ''['' \<in> set pattern then Err ''unclosed character class'' else Ok (demo_glob sep pattern))"

definition demo_rule :: approval_rule where
  "demo_rule = \<lparr>ar_mandatory_review = False, ar_methods = ['' post'', ''Put'', ''PUT''],
     ar_resource_pattern = '' /repos/*/contents:v1 '', ar_verbs = [Write, Read],
     ar_effect = RequireApproval, ar_mode = Grant\<rparr>"

definition demo_config :: approval_config where
  "demo_config = \<lparr>ac_approval_required = False, ac_approval_mode = PerRequest,
     ac_rules = [demo_rule], ac_default_effect = Some RequireApproval\<rparr>"

definition demo_put :: operation_descriptor where
  "demo_put = build_http_descriptor ref_externals ''put'' ''repos/nyx/contents:v1?ref=main'' None"

definition demo_post :: "string \<Rightarrow> operation_descriptor" where
  "demo_post path = build_mcp_descriptor ref_externals ''POST'' path None"

lemma empty_cache_ok: "cache_ok globs []"
  by (simp add: cache_ok_def)

lemma evaluate_refines_spec_witness:
  "fst (evaluate demo_globs demo_config demo_put []) = policy_spec demo_globs demo_config demo_put
   \<and> pd_grant_scope (policy_spec demo_globs demo_config demo_put)
       = Some ''v1:http:post,put:read,write:/repos/*/contents:v1''"
proof
  show "fst (evaluate demo_globs demo_config demo_put []) = policy_spec demo_globs demo_config demo_put"
    using evaluate_refines_spec [OF empty_cache_ok empty_cache_ok] by blast
  show "pd_grant_scope (policy_spec demo_globs demo_config demo_put)
      = Some ''v1:http:post,put:read,write:/repos/*/contents:v1''" by code_simp
qed

lemma rule_scope_is_rule_class_witness:
  "\<exists>scope. pd_grant_scope (fst (evaluate demo_globs demo_config demo_put [])) = Some scope
    \<and> fst (grant_scope_covers demo_globs (Some scope) demo_put [])
    \<and> (fst (grant_scope_covers demo_globs (Some scope) (demo_post ''/repos/a/contents:v1'') []) \<longleftrightarrow>
        protocol_scope_label (od_protocol (demo_post ''/repos/a/contents:v1'')) = protocol_scope_label (od_protocol demo_put)
        \<and> rule_applies demo_globs (demo_post ''/repos/a/contents:v1'') demo_rule)"
proof (rule rule_scope_is_rule_class)
  show "validate_rules demo_globs (ac_rules demo_config) = Ok ()" by code_simp
  show "fst (find_rule demo_globs (ac_rules demo_config) demo_put []) = Some demo_rule" by code_simp
  show "ar_effect demo_rule = RequireApproval" by (simp add: demo_rule_def)
qed (rule empty_cache_ok)+

lemma default_scope_is_resource_pattern_witness:
  "\<exists>scope. pd_grant_scope (fst (evaluate demo_globs demo_config (demo_post ''/files/*'') [])) = Some scope
    \<and> fst (grant_scope_covers demo_globs (Some scope) (demo_post ''/files/secret'') [])"
proof -
  let ?d = "demo_post ''/files/*''" and ?d' = "demo_post ''/files/secret''"
  have "fst (find_rule demo_globs (ac_rules demo_config) ?d []) = None" by code_simp
  moreover have "normalized_method ?d = Some ''post''" by code_simp
  moreover have "list_all is_ascii_alphabetic ''post''" by code_simp
  moreover have "ac_default_effect demo_config = Some RequireApproval" by (simp add: demo_config_def)
  ultimately obtain scope where
    "pd_grant_scope (fst (evaluate demo_globs demo_config ?d [])) = Some scope"
    and covers: "fst (grant_scope_covers demo_globs (Some scope) ?d' []) \<longleftrightarrow>
        protocol_scope_label (od_protocol ?d') = protocol_scope_label (od_protocol ?d)
        \<and> normalized_method ?d' = Some ''post'' \<and> od_verb ?d' = od_verb ?d
        \<and> (case normalized_resource ?d of None \<Rightarrow> True | Some r \<Rightarrow> resource_matches demo_globs r ?d')"
    using default_scope_is_resource_pattern [OF empty_cache_ok empty_cache_ok] by blast
  moreover have "protocol_scope_label (od_protocol ?d') = protocol_scope_label (od_protocol ?d)
      \<and> normalized_method ?d' = Some ''post'' \<and> od_verb ?d' = od_verb ?d
      \<and> (case normalized_resource ?d of None \<Rightarrow> True | Some r \<Rightarrow> resource_matches demo_globs r ?d')"
    by code_simp
  ultimately show ?thesis by blast
qed

definition demo_remote :: endpoint_metadata where
  "demo_remote = \<lparr>em_risk = Some RiskRead, em_destructive = False, em_changes_existing = Some False,
     em_append_only = True, em_catalog_contract = False\<rparr>"

lemma remote_metadata_only_narrows_witness:
  "\<not> oe_reads (operation_effects_of ''POST'' demo_remote) \<and> \<not> oe_uses (operation_effects_of ''PUT'' demo_remote)"
proof -
  have "\<not> em_catalog_contract demo_remote" by (simp add: demo_remote_def)
  note narrows = remote_metadata_only_narrows [OF this]
  have "\<not> oe_reads (operation_effects_of ''POST'' no_metadata) \<and> \<not> oe_uses (operation_effects_of ''PUT'' no_metadata)"
    by code_simp
  then show ?thesis using narrows by blast
qed

definition demo_body :: "string \<Rightarrow> (string \<times> json) list" where
  "demo_body content = [(''model'', JString ''m''), (''store'', JBool False),
     (''messages'', JArray [JObject [(''role'', JString ''user''), (''content'', JString content)]])]"

lemma inference_read_is_closed_witness:
  "\<exists>entries. read_value ref_externals (ref_text (JObject (demo_body ''hi''))) = Some (JObject entries)
     \<and> (\<forall>(f, v) \<in> set entries. \<forall>k \<in> set handle_keys.
          f = ''tools'' \<or> f = ''client_metadata'' \<or> f \<noteq> k \<and> \<not> occurs_key k v)"
proof -
  let ?bytes = "ref_text (JObject (demo_body ''hi''))" and ?d = "demo_post ''/v1/responses''"
  have "od_verb ?d \<noteq> Read" by code_simp
  moreover have "od_verb (apply_inference_contract ref_externals ?d True (Some ?bytes) False False) = Read"
    by code_simp
  ultimately show ?thesis using inference_read_is_closed by fastforce
qed

lemma description_hides_content_witness:
  "build_action_description ref_externals ''POST'' ''/v1/chat'' (Some (ref_text (JObject (demo_body ''public''))))
   = build_action_description ref_externals ''POST'' ''/v1/chat'' (Some (ref_text (JObject (demo_body ''my secret''))))"
proof (rule description_hides_content)
  show "read_value ref_externals (ref_text (JObject (demo_body ''public''))) = Some (JObject (demo_body ''public''))"
    by code_simp
  show "read_value ref_externals (ref_text (JObject (demo_body ''my secret''))) = Some (JObject (demo_body ''my secret''))"
    by code_simp
  show "shown_params (demo_body ''public'') = shown_params (demo_body ''my secret'')"
    by code_simp
qed

end
