(* ===== verification/Pool_Config.thy ===== *)
theory Pool_Config
  imports App_Error Json
begin

text \<open>
  Service pools: their data and defaults (\<open>models/service_pool.rs\<close>), the validation of a
  configuration (\<open>services/service_pool_service.rs\<close>, \<open>services/service_pool_contract.rs\<close>), the
  choice of a member, and the retry policy (\<open>services/pool_failover.rs\<close>, \<open>handlers/proxy.rs\<close>).
  Unsigned integers are naturals with their saturation written out, durations and instants are
  nanoseconds. The HTTP date parser is a parameter.
\<close>

section \<open>Data\<close>

datatype pool_strategy = RoundRobin | Weighted | Priority
datatype tier_balance = TierRoundRobin | TierWeighted
datatype member_contract = SameApi | AiChat
datatype retry_trigger =
    TConnectError | TNodeOffline | TTransportError | TTimeout
  | THttp408 | THttp429 | THttp500 | THttp502 | THttp503 | THttp504 | THttp529 | THttp401 | THttp403

fun strategy_str :: "pool_strategy \<Rightarrow> string" where
  "strategy_str RoundRobin = ''round_robin''"
| "strategy_str Weighted = ''weighted''"
| "strategy_str Priority = ''priority''"

definition strategy_parse :: "string \<Rightarrow> pool_strategy option" where
  "strategy_parse s =
     (if s = ''round_robin'' then Some RoundRobin
      else if s = ''weighted'' then Some Weighted
      else if s = ''priority'' then Some Priority else None)"

fun contract_str :: "member_contract \<Rightarrow> string" where
  "contract_str SameApi = ''same_api''"
| "contract_str AiChat = ''ai_chat''"

fun trigger_str :: "retry_trigger \<Rightarrow> string" where
  "trigger_str TConnectError = ''connect_error''"
| "trigger_str TNodeOffline = ''node_offline''"
| "trigger_str TTransportError = ''transport_error''"
| "trigger_str TTimeout = ''timeout''"
| "trigger_str THttp408 = ''http_408''"
| "trigger_str THttp429 = ''http_429''"
| "trigger_str THttp500 = ''http_500''"
| "trigger_str THttp502 = ''http_502''"
| "trigger_str THttp503 = ''http_503''"
| "trigger_str THttp504 = ''http_504''"
| "trigger_str THttp529 = ''http_529''"
| "trigger_str THttp401 = ''http_401''"
| "trigger_str THttp403 = ''http_403''"

record pool_member =
  pm_user_service_id :: string
  pm_weight :: nat
  pm_enabled :: bool
  pm_priority :: nat
  pm_model :: "string option"
  pm_same_api_compatible :: bool
  pm_health_reset_generation :: int

record cooldown_policy =
  cp_base_ms :: nat
  cp_max_ms :: nat
  cp_honor_retry_after :: bool
  cp_failures_to_open :: nat

record failover_policy =
  fp_max_attempts :: nat
  fp_per_attempt_timeout_ms :: nat
  fp_overall_deadline_ms :: nat
  fp_retry_on :: "retry_trigger list"
  fp_retry_ambiguous_dispatch :: bool
  fp_cooldown :: cooldown_policy
  fp_max_replay_body_bytes :: nat

definition default_cooldown :: cooldown_policy where
  "default_cooldown = \<lparr>cp_base_ms = 5000, cp_max_ms = 300000, cp_honor_retry_after = True,
     cp_failures_to_open = 1\<rparr>"

definition default_retry_on :: "retry_trigger list" where
  "default_retry_on = [TConnectError, TNodeOffline, TTimeout, THttp429, THttp502, THttp503, THttp504, THttp529]"

definition default_failover :: failover_policy where
  "default_failover = \<lparr>fp_max_attempts = 3, fp_per_attempt_timeout_ms = 60000,
     fp_overall_deadline_ms = 120000, fp_retry_on = default_retry_on,
     fp_retry_ambiguous_dispatch = False, fp_cooldown = default_cooldown,
     fp_max_replay_body_bytes = 8 * 1024 * 1024\<rparr>"

text \<open>The fields of \<open>ServicePool\<close> that routing and health read; times and the name are left out.\<close>

record service_pool =
  sp_id :: string
  sp_user_id :: string
  sp_slug :: string
  sp_strategy :: pool_strategy
  sp_tier_balance :: tier_balance
  sp_member_contract :: member_contract
  sp_failover :: "failover_policy option"
  sp_members :: "pool_member list"
  sp_rr_counter :: int
  sp_tier_counters :: "(string, int) btree_map"
  sp_config_revision :: int
  sp_health_reset_generation :: int
  sp_health_observation_sequence :: int
  sp_is_active :: bool

section \<open>Validation\<close>

definition MAX_POOL_MEMBERS :: nat where "MAX_POOL_MEMBERS = 50"
definition MAX_NAME_LEN :: nat where "MAX_NAME_LEN = 128"
definition MAX_DESCRIPTION_LEN :: nat where "MAX_DESCRIPTION_LEN = 1024"
definition MAX_MODEL_LEN :: nat where "MAX_MODEL_LEN = 256"
definition HEALTH_RETENTION_MS :: nat where "HEALTH_RETENTION_MS = 60 * 60 * 1000"

definition validate_text_fields :: "string \<Rightarrow> string option \<Rightarrow> app_error + unit" where
  "validate_text_fields name description =
     (if trim name = [] \<or> chars_count name > MAX_NAME_LEN
      then Err (ValidationError ''Pool name must be 1-128 characters'')
      else if (case description of None \<Rightarrow> False | Some d \<Rightarrow> chars_count d > MAX_DESCRIPTION_LEN)
      then Err (ValidationError ''description must not exceed 1024 characters'')
      else Ok ())"

definition normalize_model :: "string option \<Rightarrow> app_error + string option" where
  "normalize_model model = (case model of
     None \<Rightarrow> Ok None
   | Some m \<Rightarrow>
       if trim m = [] then Ok None
       else if chars_count (trim m) > MAX_MODEL_LEN
       then Err (ServicePoolMemberInvalid ''member model must not exceed 256 characters'')
       else Ok (Some (trim m)))"

text \<open>The loop of \<open>normalize_members\<close>: \<open>seen\<close> are the ids so far.\<close>

fun normalize_members_loop ::
  "string list \<Rightarrow> pool_member list \<Rightarrow> pool_member list \<Rightarrow> app_error + pool_member list" where
  "normalize_members_loop seen out [] = Ok out"
| "normalize_members_loop seen out (member # members) =
     (if trim (pm_user_service_id member) = []
      then Err (ServicePoolMemberInvalid ''Pool member user_service_id must not be empty'')
      else if pm_user_service_id member \<in> set seen
      then Err (ServicePoolMemberInvalid (''Duplicate pool member '' @ pm_user_service_id member))
      else if pm_weight member > 1000
      then Err (ServicePoolMemberInvalid ''Member weight must not exceed 1000'')
      else and_then (normalize_model (pm_model member)) (\<lambda>model.
        normalize_members_loop (pm_user_service_id member # seen)
          (out @ [member\<lparr>pm_weight := max (pm_weight member) 1, pm_model := model\<rparr>]) members))"

definition normalize_members :: "pool_member list \<Rightarrow> app_error + pool_member list" where
  "normalize_members members =
     (if length members > MAX_POOL_MEMBERS
      then Err (ServicePoolMemberInvalid ''Service pools may contain at most 50 members'')
      else normalize_members_loop [] [] members)"

definition failover_in_bounds :: "failover_policy \<Rightarrow> bool" where
  "failover_in_bounds p \<longleftrightarrow>
     1 \<le> fp_max_attempts p \<and> fp_max_attempts p \<le> 5
     \<and> 1000 \<le> fp_per_attempt_timeout_ms p \<and> fp_per_attempt_timeout_ms p \<le> 300000
     \<and> 1000 \<le> fp_overall_deadline_ms p \<and> fp_overall_deadline_ms p \<le> 600000
     \<and> cp_base_ms (fp_cooldown p) \<noteq> 0
     \<and> \<not> cp_max_ms (fp_cooldown p) < cp_base_ms (fp_cooldown p)
     \<and> cp_failures_to_open (fp_cooldown p) \<noteq> 0
     \<and> fp_max_replay_body_bytes p \<noteq> 0
     \<and> \<not> cp_max_ms (fp_cooldown p) > HEALTH_RETENTION_MS"

definition validate_pool_policy ::
  "pool_strategy \<Rightarrow> tier_balance \<Rightarrow> member_contract \<Rightarrow> failover_policy option \<Rightarrow> pool_member list
   \<Rightarrow> app_error + unit" where
  "validate_pool_policy strategy balance contract failover members =
     (if strategy \<noteq> Priority \<and> balance \<noteq> TierRoundRobin
      then Err (ServicePoolMemberInvalid ''tier balancing requires the priority strategy'')
      else if failover \<noteq> None \<and> strategy \<noteq> Priority
      then Err (ServicePoolMemberInvalid ''failover requires the priority strategy; older strategies remain single-attempt'')
      else if contract = SameApi \<and> list_ex (\<lambda>m. pm_model m \<noteq> None) members
      then Err (ServicePoolMemberInvalid ''Model mapping requires the ai_chat contract'')
      else if contract = AiChat \<and> strategy \<noteq> Priority
      then Err (ServicePoolMemberInvalid ''the ai_chat contract requires the priority strategy'')
      else if contract = AiChat \<and> list_ex (\<lambda>m. pm_model m = None) members
      then Err (ServicePoolMemberInvalid ''every ai_chat member must define a model mapping'')
      else if strategy \<noteq> Priority \<and> list_ex (\<lambda>m. pm_priority m \<noteq> 0 \<or> pm_model m \<noteq> None) members
      then Err (ServicePoolMemberInvalid ''priority and model member settings require the priority strategy'')
      else if (case failover of None \<Rightarrow> False | Some policy \<Rightarrow> \<not> failover_in_bounds policy)
      then Err (ServicePoolMemberInvalid ''failover limits are outside the supported bounds'')
      else Ok ())"

text \<open>The compatibility rule.\<close>

datatype wire_protocol = AnthropicMessages | OpenaiResponses | OpenaiCompletions

record contract_member =
  cm_catalog_id :: "string option"
  cm_protocol :: "wire_protocol option"
  cm_declared :: bool

definition declaration_required :: "contract_member \<Rightarrow> contract_member list \<Rightarrow> bool" where
  "declaration_required member peers \<longleftrightarrow>
     cm_catalog_id member = None \<or> list_ex (\<lambda>other. cm_catalog_id other \<noteq> cm_catalog_id member) peers"

definition validate_contract :: "member_contract \<Rightarrow> contract_member list \<Rightarrow> app_error + unit" where
  "validate_contract contract members =
     (if contract = AiChat
      then (if list_ex (\<lambda>m. cm_protocol m = None) members
            then Err (ServicePoolMemberInvalid ''AI chat members require authoritative catalog inference metadata'')
            else Ok ())
      else (let protocol = find_map cm_protocol members in
        if list_ex (\<lambda>p. Some p \<noteq> protocol) (List.map_filter cm_protocol members)
        then Err (ServicePoolMemberInvalid ''Same API members have incompatible inference protocols'')
        else if list_ex (\<lambda>m. \<not> cm_declared m \<and> declaration_required m members) members
        then Err (ServicePoolMemberInvalid ''Custom or different catalog APIs require an explicit same_api_compatible declaration on every affected member'')
        else Ok ()))"

section \<open>Choosing a member\<close>

text \<open>\<open>rem_euclid\<close> of a positive divisor is \<open>mod\<close>; the loop walks the weights, \<open>idx\<close> the next index.\<close>

fun weighted_slot :: "nat \<Rightarrow> nat \<Rightarrow> nat list \<Rightarrow> nat option" where
  "weighted_slot idx slot [] = None"
| "weighted_slot idx slot (weight # weights) =
     (let width = max weight 1 in
      if slot < width then Some idx else weighted_slot (idx + 1) (slot - width) weights)"

definition choose_member_index :: "pool_strategy \<Rightarrow> nat list \<Rightarrow> int \<Rightarrow> nat option" where
  "choose_member_index strategy weights tick =
     (if weights = [] then None
      else (case strategy of
          Priority \<Rightarrow> None
        | RoundRobin \<Rightarrow> Some (nat (tick mod int (length weights)))
        | Weighted \<Rightarrow>
            (let total = sum_list (map (\<lambda>w. max w 1) weights) in
             if total = 0 then None
             else (case weighted_slot 0 (nat (tick mod int total)) weights of
                 Some idx \<Rightarrow> Some idx
               | None \<Rightarrow> Some (length weights - 1)))))"

section \<open>The plan\<close>

text \<open>What the ordering of \<open>plan_candidates_with_access\<close> reads of a candidate.\<close>

record pool_candidate =
  pc_member :: pool_member
  pc_tier :: nat
  pc_cooldown_until :: "int option"
  pc_contract :: contract_member

record candidate_plan =
  cpl_candidates :: "pool_candidate list"
  cpl_max_attempts :: nat
  cpl_all_cooled_until :: "int option"

definition is_cooling :: "int \<Rightarrow> pool_candidate \<Rightarrow> bool" where
  "is_cooling now c \<longleftrightarrow> (case pc_cooldown_until c of None \<Rightarrow> False | Some until \<Rightarrow> until > now)"

fun earliest_cooldown :: "int \<Rightarrow> int option \<Rightarrow> pool_candidate list \<Rightarrow> int option" where
  "earliest_cooldown now acc [] = acc"
| "earliest_cooldown now acc (c # cs) =
     (case pc_cooldown_until c of
        Some until \<Rightarrow>
          if until > now
          then earliest_cooldown now (Some (case acc of None \<Rightarrow> until | Some cur \<Rightarrow> min cur until)) cs
          else earliest_cooldown now acc cs
      | None \<Rightarrow> earliest_cooldown now acc cs)"

definition plan_max_attempts :: "service_pool \<Rightarrow> nat \<Rightarrow> nat" where
  "plan_max_attempts pool body_len =
     (let policy = (case sp_failover pool of None \<Rightarrow> default_failover | Some p \<Rightarrow> p) in
      if sp_strategy pool \<noteq> Priority \<or> body_len > fp_max_replay_body_bytes policy then 1
      else fp_max_attempts policy)"

text \<open>
  The second half of \<open>plan_candidates_with_access\<close>, from the gathered candidates on; \<open>tick\<close> is
  what \<open>increment_counter\<close> returned, read only by the older strategies. \<open>sort_by_key\<close> is stable.
\<close>

definition order_plan ::
  "service_pool \<Rightarrow> nat \<Rightarrow> app_error option \<Rightarrow> int \<Rightarrow> int \<Rightarrow> pool_candidate list
   \<Rightarrow> app_error + candidate_plan" where
  "order_plan pool body_len compatibility_error tick now candidates =
     (if candidates = []
      then Err (case compatibility_error of Some e \<Rightarrow> e | None \<Rightarrow> ServicePoolNoViableMember (sp_slug pool))
      else and_then (if sp_strategy pool = Priority
          then validate_contract (sp_member_contract pool) (map pc_contract candidates) else Ok ()) (\<lambda>_.
        (let filtered = filter (\<lambda>c. \<not> is_cooling now c) candidates;
             max_attempts = plan_max_attempts pool body_len in
         if filtered = []
         then Ok \<lparr>cpl_candidates = [], cpl_max_attempts = max_attempts,
                  cpl_all_cooled_until = earliest_cooldown now None candidates\<rparr>
         else (let ordered = (if sp_strategy pool = Priority then sort_key pc_tier filtered
                 else (let weights = map (\<lambda>c. max (pm_weight (pc_member c)) 1) filtered in
                   take 1 (case choose_member_index (sp_strategy pool) weights tick of
                       Some first \<Rightarrow> rotate first filtered | None \<Rightarrow> filtered)))
               in if ordered = [] then Err (ServicePoolNoViableMember (sp_slug pool))
                  else Ok \<lparr>cpl_candidates = ordered, cpl_max_attempts = max_attempts,
                           cpl_all_cooled_until = None\<rparr>))))"

text \<open>\<open>order_visited_tier\<close> on the stored pool, found under the plan's revision, or not.\<close>

definition order_visited_tier ::
  "service_pool \<Rightarrow> service_pool option \<Rightarrow> pool_candidate list
   \<Rightarrow> app_error + int \<times> pool_candidate list \<times> service_pool option" where
  "order_visited_tier pool stored candidates =
     (case candidates of
        [] \<Rightarrow> Ok (0, [], stored)
      | first # _ \<Rightarrow>
          (let tier = pc_tier first;
               visited = takeWhile (\<lambda>c. pc_tier c = tier) candidates;
               rest = dropWhile (\<lambda>c. pc_tier c = tier) candidates;
               key = nat_str tier
           in case stored of
                None \<Rightarrow> Err (Conflict ''Pool configuration changed during selection'')
              | Some row \<Rightarrow>
                  if sp_id row \<noteq> sp_id pool \<or> sp_config_revision row \<noteq> sp_config_revision pool
                     \<or> \<not> sp_is_active row
                  then Err (Conflict ''Pool configuration changed during selection'')
                  else (let counter = (case btm_get (sp_tier_counters row) key of None \<Rightarrow> 0 | Some n \<Rightarrow> n) + 1;
                            row' = row\<lparr>sp_tier_counters := btm_insert key counter (sp_tier_counters row)\<rparr>;
                            tick = counter - 1;
                            weights = map (\<lambda>c. max (pm_weight (pc_member c)) 1) visited;
                            strategy = (case sp_tier_balance pool of
                              TierRoundRobin \<Rightarrow> RoundRobin | TierWeighted \<Rightarrow> Weighted)
                        in Ok (tick,
                            (case choose_member_index strategy weights tick of
                               Some first \<Rightarrow> rotate first visited | None \<Rightarrow> visited) @ rest,
                            Some row'))))"

section \<open>Attempts\<close>

datatype failure_class = NotDispatched | RejectedWithoutEffect | Ambiguous | Terminal

datatype attempt_evidence =
    EConnectError | ENodeRejectedBeforeDispatch | ETimeout | ENodeTimeout
  | ENodeTransportAfterDispatch | ETransportAfterDispatch | EUpstream nat

fun classify :: "attempt_evidence \<Rightarrow> failure_class" where
  "classify EConnectError = NotDispatched"
| "classify ENodeRejectedBeforeDispatch = NotDispatched"
| "classify (EUpstream status) =
     (if status = 408 then RejectedWithoutEffect
      else if status = 429 then RejectedWithoutEffect
      else if status = 503 \<or> status = 529 then Ambiguous
      else if status = 401 \<or> status = 403 then RejectedWithoutEffect
      else if status = 500 \<or> status = 502 \<or> status = 504 then Ambiguous
      else Terminal)"
| "classify ETimeout = Ambiguous"
| "classify ENodeTimeout = Ambiguous"
| "classify ETransportAfterDispatch = Ambiguous"
| "classify ENodeTransportAfterDispatch = Ambiguous"

fun trigger_for :: "attempt_evidence \<Rightarrow> retry_trigger option" where
  "trigger_for EConnectError = Some TConnectError"
| "trigger_for ENodeRejectedBeforeDispatch = Some TNodeOffline"
| "trigger_for ETimeout = Some TTimeout"
| "trigger_for ENodeTimeout = Some TTimeout"
| "trigger_for ETransportAfterDispatch = Some TTransportError"
| "trigger_for ENodeTransportAfterDispatch = Some TTransportError"
| "trigger_for (EUpstream status) =
     (if status = 408 then Some THttp408
      else if status = 429 then Some THttp429
      else if status = 500 then Some THttp500
      else if status = 502 then Some THttp502
      else if status = 503 then Some THttp503
      else if status = 504 then Some THttp504
      else if status = 529 then Some THttp529
      else if status = 401 then Some THttp401
      else if status = 403 then Some THttp403
      else None)"

definition method_is_safe :: "string \<Rightarrow> bool" where
  "method_is_safe meth \<longleftrightarrow> meth \<in> {''GET'', ''HEAD'', ''OPTIONS'', ''TRACE''}"

definition should_retry ::
  "failure_class \<Rightarrow> retry_trigger option \<Rightarrow> string \<Rightarrow> failover_policy \<Rightarrow> bool" where
  "should_retry class trigger meth policy =
     (case trigger of
        None \<Rightarrow> False
      | Some trigger \<Rightarrow>
          if trigger \<notin> set (fp_retry_on policy) then False
          else (case class of
              NotDispatched \<Rightarrow> True
            | RejectedWithoutEffect \<Rightarrow> True
            | Ambiguous \<Rightarrow> fp_retry_ambiguous_dispatch policy \<or> method_is_safe meth
            | Terminal \<Rightarrow> False))"

definition pool_should_retry :: "attempt_evidence \<Rightarrow> string \<Rightarrow> failover_policy \<Rightarrow> bool" where
  "pool_should_retry evidence meth policy =
     (if (evidence = ENodeTimeout \<or> evidence = ENodeTransportAfterDispatch) \<and> \<not> method_is_safe meth
      then False
      else should_retry (classify evidence) (trigger_for evidence) meth policy)"

section \<open>Cooldowns\<close>


text \<open>\<open>HeaderValue::to_str\<close>: visible ASCII and tabs.\<close>

definition header_to_str :: "string \<Rightarrow> string option" where
  "header_to_str s =
     (if list_all (\<lambda>c. byte c = 9 \<or> 32 \<le> byte c \<and> byte c < 127) s then Some s else None)"

text \<open>\<open>http_date\<close> gives the seconds since the epoch of an HTTP date; \<open>now\<close> is in nanoseconds.\<close>

definition parse_retry_after :: "(string \<Rightarrow> nat option) \<Rightarrow> string option \<Rightarrow> int \<Rightarrow> nat option" where
  "parse_retry_after http_date header now =
     (case Option.bind header header_to_str of
        None \<Rightarrow> None
      | Some text \<Rightarrow>
          (case parse_uint u64_max (trim text) of
             Some seconds \<Rightarrow> Some (seconds * 1000000000)
           | None \<Rightarrow> map_option (\<lambda>date. nat (int date * 1000000000 - now)) (http_date (trim text))))"

definition saturating_mul_u64 :: "nat \<Rightarrow> nat \<Rightarrow> nat" where
  "saturating_mul_u64 a b = min (a * b) u64_max"

definition from_millis :: "nat \<Rightarrow> nat" where
  "from_millis ms = ms * 1000000"

definition cooldown_for :: "cooldown_policy \<Rightarrow> nat \<Rightarrow> nat option \<Rightarrow> nat" where
  "cooldown_for policy consecutive_failures retry_after =
     (let exponent = min (consecutive_failures - 1) 31;
          base = saturating_mul_u64 (cp_base_ms policy) (2 ^ exponent);
          bounded = min base (cp_max_ms policy)
      in (case retry_after of
            Some after \<Rightarrow>
              if cp_honor_retry_after policy
              then min (max after (from_millis bounded)) (from_millis (cp_max_ms policy))
              else from_millis bounded
          | None \<Rightarrow> from_millis bounded))"

end
