(* ===== verification/Rust_Time.thy ===== *)
theory Rust_Time
  imports Main
begin

text \<open>
  A \<open>chrono::DateTime<Utc>\<close> is its number of nanoseconds since the epoch; the database keeps whole
  milliseconds.
\<close>

definition NS_PER_MS :: int where "NS_PER_MS = 1000000"

definition timestamp_millis :: "int \<Rightarrow> int" where "timestamp_millis t = t div NS_PER_MS"

definition bson_time :: "int \<Rightarrow> int" where
  "bson_time t = t div 1000000 * 1000000"

lemma timestamp_millis_bson_time [simp]: "timestamp_millis (bson_time t) = timestamp_millis t"
  by (simp add: timestamp_millis_def bson_time_def NS_PER_MS_def)

lemma bson_time_bson_time [simp]: "bson_time (bson_time t) = bson_time t"
  by (simp add: bson_time_def)

end
