(* ===== verification/Pool_Health.thy ===== *)
theory Pool_Health
  imports Pool_Config Rust_Time
begin

text \<open>
  The passive health of pool members (\<open>services/service_pool_health_service.rs\<close>,
  \<open>models/service_pool_member_health.rs\<close>) on an explicit store: the pools, the health rows and
  the observations, as the database keeps them. Every transaction is one operation; an aborted
  one leaves the store. Instants are nanoseconds since the epoch and are stored in milliseconds.
  The writes of \<open>services/service_pool_service.rs\<close> that the fences guard against are here too.
\<close>

section \<open>Rows\<close>

record health_scope =
  hs_pool_id :: string
  hs_user_service_id :: string
  hs_owner_id :: string
  hs_pool_config_revision :: int
  hs_credential_identity :: string
  hs_credential_epoch :: int
  hs_destination_fingerprint :: string
  hs_config_fingerprint :: string
  hs_model :: "string option"

record observation_ticket =
  ot_observation_id :: string
  ot_observation_sequence :: int
  ot_scope :: health_scope
  ot_pool_reset_generation :: int
  ot_member_reset_generation :: int
  ot_health_instance_id :: string

record health_row =
  hr_id :: string
  hr_scope :: health_scope
  hr_consecutive_failures :: nat
  hr_cooldown_until :: "int option"
  hr_expires_at :: int
  hr_last_failure_class :: "string option"
  hr_last_status :: "int option"
  hr_generation :: int
  hr_observation_id :: "string option"
  hr_observation_sequence :: int
  hr_observation_outcome :: "string option"
  hr_pool_reset_generation :: int
  hr_member_reset_generation :: int
  hr_last_failure_at :: int
  hr_updated_at :: int

record health_observation =
  ho_id :: string
  ho_ticket_scope :: "string \<times> string \<times> int \<times> int \<times> int"
  ho_observation_sequence :: int
  ho_health_instance_id :: string
  ho_completed :: bool
  ho_outcome :: "string option"
  ho_failure_class :: "string option"
  ho_status :: "int option"
  ho_expires_at :: int

text \<open>
  \<open>db_fence_closed\<close> says for which owners \<open>fence_in_session\<close> refuses new writes,
  \<open>db_owner_active\<close> which user rows are active and not being deleted.
\<close>

record pool_db =
  db_pools :: "service_pool list"
  db_health :: "health_row list"
  db_observations :: "health_observation list"
  db_fence_closed :: "string \<Rightarrow> bool"
  db_owner_active :: "string \<Rightarrow> bool"

section \<open>Store operations\<close>

text \<open>\<open>find_one_and_update\<close> and \<open>update_one\<close> change the first row that matches.\<close>

fun update_first :: "('a \<Rightarrow> bool) \<Rightarrow> ('a \<Rightarrow> 'a) \<Rightarrow> 'a list \<Rightarrow> 'a list" where
  "update_first p f [] = []"
| "update_first p f (x # xs) = (if p x then f x # xs else x # update_first p f xs)"

text \<open>\<open>bson::DateTime::from_chrono\<close> keeps milliseconds.\<close>

definition HEALTH_RETENTION :: int where
  "HEALTH_RETENTION = int HEALTH_RETENTION_MS * 1000000"

text \<open>The largest \<open>DateTime<Utc>\<close>, and the largest \<open>Duration\<close> of the calendar library.\<close>

definition MAX_UTC :: int where
  "MAX_UTC = 8210266876799999999999"

definition duration_from_std :: "nat \<Rightarrow> nat" where
  "duration_from_std d = (if d \<le> 9223372036854775807 * 1000000 then d else 0)"

definition checked_add_signed :: "int \<Rightarrow> nat \<Rightarrow> int option" where
  "checked_add_signed now d = (if now + int d \<le> MAX_UTC then Some (now + int d) else None)"

definition i64_saturating_inc :: "int \<Rightarrow> int" where
  "i64_saturating_inc n = min (n + 1) i64_max"

section \<open>Scopes and fences\<close>

definition scope_filter :: "health_scope \<Rightarrow> int \<Rightarrow> int \<Rightarrow> health_row \<Rightarrow> bool" where
  "scope_filter scope pool_reset member_reset row \<longleftrightarrow>
     hr_scope row = scope \<and> hr_pool_reset_generation row = pool_reset
     \<and> hr_member_reset_generation row = member_reset"

definition member_reset_generation :: "service_pool \<Rightarrow> string \<Rightarrow> int option" where
  "member_reset_generation pool member_id =
     map_option pm_health_reset_generation
       (List.find (\<lambda>m. pm_user_service_id m = member_id \<and> pm_enabled m) (sp_members pool))"

text \<open>The filter of the live pool under a scope's revision.\<close>

definition scope_pool :: "health_scope \<Rightarrow> service_pool \<Rightarrow> bool" where
  "scope_pool scope pool \<longleftrightarrow>
     sp_id pool = hs_pool_id scope \<and> sp_user_id pool = hs_owner_id scope \<and> sp_is_active pool
     \<and> sp_config_revision pool = hs_pool_config_revision scope"

definition current_pool :: "pool_db \<Rightarrow> health_scope \<Rightarrow> service_pool option" where
  "current_pool db scope = List.find (scope_pool scope) (db_pools db)"

definition current_fences :: "pool_db \<Rightarrow> health_scope \<Rightarrow> (int \<times> int) option" where
  "current_fences db scope = (case current_pool db scope of
     None \<Rightarrow> None
   | Some pool \<Rightarrow> map_option (Pair (sp_health_reset_generation pool))
       (member_reset_generation pool (hs_user_service_id scope)))"

definition load_for_scope :: "pool_db \<Rightarrow> health_scope \<Rightarrow> health_row option" where
  "load_for_scope db scope = (case current_fences db scope of
     None \<Rightarrow> None
   | Some (pool_reset, member_reset) \<Rightarrow> List.find (scope_filter scope pool_reset member_reset) (db_health db))"

section \<open>Tickets\<close>

definition fresh_row :: "string \<Rightarrow> health_scope \<Rightarrow> int \<Rightarrow> int \<Rightarrow> int \<Rightarrow> int \<Rightarrow> health_row" where
  "fresh_row health_id scope pool_reset member_reset sequence now =
     \<lparr>hr_id = health_id, hr_scope = scope, hr_consecutive_failures = 0, hr_cooldown_until = None,
      hr_expires_at = bson_time (now + HEALTH_RETENTION), hr_last_failure_class = None,
      hr_last_status = None, hr_generation = sequence, hr_observation_id = None,
      hr_observation_sequence = 0, hr_observation_outcome = None,
      hr_pool_reset_generation = pool_reset, hr_member_reset_generation = member_reset,
      hr_last_failure_at = bson_time now, hr_updated_at = bson_time now\<rparr>"

definition touch_row :: "int \<Rightarrow> int \<Rightarrow> health_row \<Rightarrow> health_row" where
  "touch_row sequence now row =
     row\<lparr>hr_generation := max (hr_generation row) sequence,
         hr_expires_at := bson_time (now + HEALTH_RETENTION), hr_updated_at := bson_time now\<rparr>"

definition membership_changed :: app_error where
  "membership_changed = Conflict ''pool membership changed before dispatch''"

text \<open>\<open>observation_id\<close> and \<open>health_id\<close> are the two new UUIDs.\<close>

definition issue_observation_ticket ::
  "pool_db \<Rightarrow> health_scope \<Rightarrow> int \<Rightarrow> string \<Rightarrow> string \<Rightarrow> (app_error + observation_ticket) \<times> pool_db" where
  "issue_observation_ticket db scope now observation_id health_id =
     (if db_fence_closed db (hs_owner_id scope)
      then (Err (Conflict ''Account erasure has closed this owner's write admission''), db)
      else if \<not> db_owner_active db (hs_owner_id scope)
      then (Err (Conflict ''Pool owner is unavailable''), db)
      else (let admits = (\<lambda>p. scope_pool scope p
              \<and> list_ex (\<lambda>m. pm_user_service_id m = hs_user_service_id scope \<and> pm_enabled m) (sp_members p)) in
        (case List.find admits (db_pools db) of
           None \<Rightarrow> (Err membership_changed, db)
         | Some found \<Rightarrow>
             (let bump = (\<lambda>p. p\<lparr>sp_health_observation_sequence := sp_health_observation_sequence p + 1\<rparr>);
                  pool = bump found in
              (case member_reset_generation pool (hs_user_service_id scope) of
                 None \<Rightarrow> (Err membership_changed, db)
               | Some member_reset \<Rightarrow>
                   (let pool_reset = sp_health_reset_generation pool;
                        sequence = sp_health_observation_sequence pool;
                        matches = scope_filter scope pool_reset member_reset;
                        (instance_id, health) = (case List.find matches (db_health db) of
                           Some row \<Rightarrow> (hr_id row, update_first matches (touch_row sequence now) (db_health db))
                         | None \<Rightarrow> (health_id,
                             db_health db @ [fresh_row health_id scope pool_reset member_reset sequence now]));
                        observation = \<lparr>ho_id = observation_id,
                          ho_ticket_scope = (hs_pool_id scope, hs_user_service_id scope,
                            hs_pool_config_revision scope, pool_reset, member_reset),
                          ho_observation_sequence = sequence, ho_health_instance_id = instance_id,
                          ho_completed = False, ho_outcome = None, ho_failure_class = None,
                          ho_status = None, ho_expires_at = bson_time (now + HEALTH_RETENTION)\<rparr>
                    in (Ok \<lparr>ot_observation_id = observation_id, ot_observation_sequence = sequence,
                            ot_scope = scope, ot_pool_reset_generation = pool_reset,
                            ot_member_reset_generation = member_reset,
                            ot_health_instance_id = instance_id\<rparr>,
                        db\<lparr>db_pools := update_first admits bump (db_pools db), db_health := health,
                           db_observations := db_observations db @ [observation]\<rparr>)))))))"

section \<open>Outcomes\<close>

record failure_report =
  fr_policy :: cooldown_policy
  fr_class :: string
  fr_status :: "int option"
  fr_retry_after :: "nat option"

definition proposed_cooldown :: "failure_report \<Rightarrow> nat \<Rightarrow> int \<Rightarrow> int option" where
  "proposed_cooldown f failures now =
     (if failures \<ge> max (cp_failures_to_open (fr_policy f)) 1
      then checked_add_signed now (duration_from_std (cooldown_for (fr_policy f) failures (fr_retry_after f)))
      else None)"

definition later_cooldown :: "int option \<Rightarrow> int option \<Rightarrow> int option" where
  "later_cooldown current proposed = (case (current, proposed) of
     (Some old, Some new) \<Rightarrow> Some (max old new)
   | (Some old, None) \<Rightarrow> Some old
   | (None, proposed) \<Rightarrow> proposed)"

definition after_failure :: "observation_ticket \<Rightarrow> failure_report \<Rightarrow> int \<Rightarrow> health_row \<Rightarrow> health_row" where
  "after_failure ticket f now row =
     (let failures = min (hr_consecutive_failures row + 1) u32_max;
          row' = row\<lparr>hr_updated_at := bson_time now, hr_expires_at := bson_time (now + HEALTH_RETENTION),
            hr_generation := i64_saturating_inc (hr_generation row),
            hr_consecutive_failures := failures,
            hr_cooldown_until := map_option bson_time
              (later_cooldown (hr_cooldown_until row) (proposed_cooldown f failures now))\<rparr>
      in if hr_observation_sequence row \<le> ot_observation_sequence ticket
         then row'\<lparr>hr_observation_id := Some (ot_observation_id ticket),
           hr_observation_sequence := ot_observation_sequence ticket,
           hr_observation_outcome := Some ''failure'', hr_last_failure_class := Some (fr_class f),
           hr_last_status := fr_status f, hr_last_failure_at := bson_time now\<rparr>
         else row')"

definition after_success :: "observation_ticket \<Rightarrow> int \<Rightarrow> health_row \<Rightarrow> health_row" where
  "after_success ticket now row =
     row\<lparr>hr_updated_at := bson_time now, hr_expires_at := bson_time (now + HEALTH_RETENTION),
       hr_generation := i64_saturating_inc (hr_generation row), hr_consecutive_failures := 0,
       hr_cooldown_until := None, hr_last_failure_class := None, hr_last_status := None,
       hr_observation_id := Some (ot_observation_id ticket),
       hr_observation_sequence := ot_observation_sequence ticket,
       hr_observation_outcome := Some ''success''\<rparr>"

definition ticket_row :: "observation_ticket \<Rightarrow> health_row \<Rightarrow> bool" where
  "ticket_row ticket row \<longleftrightarrow>
     hr_id row = ot_health_instance_id ticket
     \<and> scope_filter (ot_scope ticket) (ot_pool_reset_generation ticket) (ot_member_reset_generation ticket) row"

definition claimable :: "observation_ticket \<Rightarrow> int \<Rightarrow> health_observation \<Rightarrow> bool" where
  "claimable ticket now observation \<longleftrightarrow>
     ho_id observation = ot_observation_id ticket
     \<and> ho_health_instance_id observation = ot_health_instance_id ticket
     \<and> \<not> ho_completed observation \<and> ho_expires_at observation > bson_time now"

definition complete_observation :: "failure_report option \<Rightarrow> health_observation \<Rightarrow> health_observation" where
  "complete_observation failure observation =
     observation\<lparr>ho_completed := True,
       ho_outcome := Some (if failure = None then ''success'' else ''failure''),
       ho_failure_class := map_option fr_class failure,
       ho_status := Option.bind failure fr_status\<rparr>"

definition fence_holds :: "pool_db \<Rightarrow> observation_ticket \<Rightarrow> bool" where
  "fence_holds db ticket \<longleftrightarrow> (case current_pool db (ot_scope ticket) of
     None \<Rightarrow> False
   | Some pool \<Rightarrow>
       sp_health_reset_generation pool = ot_pool_reset_generation ticket
       \<and> member_reset_generation pool (hs_user_service_id (ot_scope ticket))
           = Some (ot_member_reset_generation ticket))"

definition finish_observation ::
  "pool_db \<Rightarrow> observation_ticket \<Rightarrow> failure_report option \<Rightarrow> int \<Rightarrow> (bool \<times> health_row option) \<times> pool_db" where
  "finish_observation db ticket failure now =
     (case List.find (ticket_row ticket) (db_health db) of
        None \<Rightarrow> ((False, None), db)
      | Some current \<Rightarrow>
          if \<not> list_ex (claimable ticket now) (db_observations db) then ((False, Some current), db)
          else (let db' = db\<lparr>db_observations :=
                  update_first (claimable ticket now) (complete_observation failure) (db_observations db)\<rparr>
                in if \<not> fence_holds db ticket then ((False, None), db')
                   else (case failure of
                       Some f \<Rightarrow>
                         ((True, Some (after_failure ticket f now current)),
                          db'\<lparr>db_health := update_first (ticket_row ticket)
                            (\<lambda>_. after_failure ticket f now current) (db_health db)\<rparr>)
                     | None \<Rightarrow>
                         if hr_observation_sequence current > ot_observation_sequence ticket
                         then ((False, Some current), db')
                         else ((True, Some (after_success ticket now current)),
                               db'\<lparr>db_health := update_first (ticket_row ticket)
                                 (\<lambda>_. after_success ticket now current) (db_health db)\<rparr>))))"

definition record_failure ::
  "pool_db \<Rightarrow> observation_ticket \<Rightarrow> failure_report \<Rightarrow> int \<Rightarrow> health_row option \<times> pool_db" where
  "record_failure db ticket f now =
     (case finish_observation db ticket (Some f) now of ((_, row), db') \<Rightarrow> (row, db'))"

definition record_success :: "pool_db \<Rightarrow> observation_ticket \<Rightarrow> int \<Rightarrow> bool \<times> pool_db" where
  "record_success db ticket now =
     (case finish_observation db ticket None now of ((applied, _), db') \<Rightarrow> (applied, db'))"

section \<open>Resets and configuration writes\<close>

definition bump_member :: "string \<Rightarrow> pool_member \<Rightarrow> pool_member" where
  "bump_member member_id m =
     (if pm_user_service_id m = member_id
      then m\<lparr>pm_health_reset_generation := pm_health_reset_generation m + 1\<rparr> else m)"

definition owned_pool :: "string \<Rightarrow> string \<Rightarrow> service_pool \<Rightarrow> bool" where
  "owned_pool pool_id owner_id p \<longleftrightarrow> sp_id p = pool_id \<and> sp_user_id p = owner_id"

definition reset_pool ::
  "pool_db \<Rightarrow> string \<Rightarrow> string \<Rightarrow> string option \<Rightarrow> (app_error + nat) \<times> pool_db" where
  "reset_pool db pool_id owner_id user_service_id = (case user_service_id of
     Some member_id \<Rightarrow>
       (let has = (\<lambda>p. owned_pool pool_id owner_id p
              \<and> list_ex (\<lambda>m. pm_user_service_id m = member_id) (sp_members p)) in
        if \<not> list_ex has (db_pools db)
        then (Err (ServicePoolMemberInvalid ''service pool member not found''), db)
        else (Ok 1, db\<lparr>db_pools := update_first has
               (\<lambda>p. p\<lparr>sp_members := map (bump_member member_id) (sp_members p)\<rparr>) (db_pools db)\<rparr>))
   | None \<Rightarrow>
       if \<not> list_ex (owned_pool pool_id owner_id) (db_pools db)
       then (Err (ServicePoolNotFound pool_id), db)
       else (Ok 1, db\<lparr>db_pools := update_first (owned_pool pool_id owner_id)
              (\<lambda>p. p\<lparr>sp_health_reset_generation := sp_health_reset_generation p + 1\<rparr>) (db_pools db)\<rparr>))"

text \<open>
  The write of \<open>update_pool\<close>, under its revision filter: \<open>change\<close> is its \<open>$set\<close>, which reaches
  slug, strategy, balancing, contract, failover, members and activity; the tier counters are
  cleared and the revision moves on.
\<close>

definition configured :: "(service_pool \<Rightarrow> service_pool) \<Rightarrow> service_pool \<Rightarrow> service_pool" where
  "configured change p =
     (change p)\<lparr>sp_id := sp_id p, sp_user_id := sp_user_id p, sp_rr_counter := sp_rr_counter p,
       sp_tier_counters := [], sp_config_revision := sp_config_revision p + 1,
       sp_health_reset_generation := sp_health_reset_generation p,
       sp_health_observation_sequence := sp_health_observation_sequence p\<rparr>"

definition commit_pool_update ::
  "pool_db \<Rightarrow> string \<Rightarrow> string \<Rightarrow> int \<Rightarrow> (service_pool \<Rightarrow> service_pool) \<Rightarrow> (app_error + unit) \<times> pool_db" where
  "commit_pool_update db pool_id owner_id expected_revision change =
     (let live = (\<lambda>p. owned_pool pool_id owner_id p \<and> sp_config_revision p = expected_revision) in
      if list_ex live (db_pools db)
      then (Ok (), db\<lparr>db_pools := update_first live (configured change) (db_pools db)\<rparr>)
      else (Err (if list_ex (owned_pool pool_id owner_id) (db_pools db)
                 then Conflict ''service pool changed while it was being edited''
                 else ServicePoolNotFound pool_id), db))"

definition remove_pool :: "pool_db \<Rightarrow> string \<Rightarrow> string \<Rightarrow> (app_error + unit) \<times> pool_db" where
  "remove_pool db pool_id owner_id =
     (if list_ex (owned_pool pool_id owner_id) (db_pools db)
      then (Ok (), db\<lparr>db_pools := filter (\<lambda>p. \<not> owned_pool pool_id owner_id p) (db_pools db)\<rparr>)
      else (Err (ServicePoolNotFound pool_id), db))"

section \<open>Histories\<close>

text \<open>
  A history interleaves these operations with the clock, the counters and the database's own
  expiry. It remembers the tickets issued and the ids used, since the code's ids are UUIDs that
  are never drawn twice; a pool is created with a new id, at revision and generations zero.
\<close>

record health_state =
  st_db :: pool_db
  st_now :: int
  st_tickets :: "observation_ticket list"
  st_used :: "string list"

definition initial_state :: "health_state \<Rightarrow> bool" where
  "initial_state st \<longleftrightarrow>
     db_pools (st_db st) = [] \<and> db_health (st_db st) = [] \<and> db_observations (st_db st) = []
     \<and> st_tickets st = [] \<and> st_used st = []"

definition new_pool :: "service_pool \<Rightarrow> bool" where
  "new_pool p \<longleftrightarrow> sp_config_revision p = 0 \<and> sp_health_reset_generation p = 0
     \<and> sp_health_observation_sequence p = 0 \<and> sp_rr_counter p = 0 \<and> sp_tier_counters p = []"

inductive health_step :: "health_state \<Rightarrow> health_state \<Rightarrow> bool" where
  create: "new_pool p \<Longrightarrow> sp_id p \<notin> set (st_used st) \<Longrightarrow>
    health_step st (st\<lparr>st_db := (st_db st)\<lparr>db_pools := db_pools (st_db st) @ [p]\<rparr>,
      st_used := sp_id p # st_used st\<rparr>)"
| issue: "issue_observation_ticket (st_db st) scope (st_now st) oid hid = (Ok t, db') \<Longrightarrow>
    oid \<notin> set (st_used st) \<Longrightarrow> hid \<notin> set (st_used st) \<Longrightarrow> oid \<noteq> hid \<Longrightarrow>
    health_step st (st\<lparr>st_db := db', st_tickets := t # st_tickets st, st_used := oid # hid # st_used st\<rparr>)"
| finish: "t \<in> set (st_tickets st) \<Longrightarrow>
    health_step st (st\<lparr>st_db := snd (finish_observation (st_db st) t failure (st_now st))\<rparr>)"
| reset: "health_step st (st\<lparr>st_db := snd (reset_pool (st_db st) pool_id owner member)\<rparr>)"
| configure: "health_step st (st\<lparr>st_db := snd (commit_pool_update (st_db st) pool_id owner revision change)\<rparr>)"
| remove: "health_step st (st\<lparr>st_db := snd (remove_pool (st_db st) pool_id owner)\<rparr>)"
| count: "health_step st (st\<lparr>st_db := (st_db st)\<lparr>db_pools :=
    map (\<lambda>p. p\<lparr>sp_rr_counter := rr p, sp_tier_counters := tiers p\<rparr>) (db_pools (st_db st))\<rparr>\<rparr>)"
| expire_health: "health_step st (st\<lparr>st_db := (st_db st)\<lparr>db_health :=
    filter (\<lambda>r. hr_id r \<noteq> i \<or> hr_expires_at r > st_now st) (db_health (st_db st))\<rparr>\<rparr>)"
| expire_observation: "health_step st (st\<lparr>st_db := (st_db st)\<lparr>db_observations :=
    filter (\<lambda>ob. ho_id ob \<noteq> i \<or> ho_expires_at ob > st_now st) (db_observations (st_db st))\<rparr>\<rparr>)"
| owners: "health_step st (st\<lparr>st_db := (st_db st)\<lparr>db_fence_closed := closed, db_owner_active := active\<rparr>\<rparr>)"
| clock: "st_now st \<le> now' \<Longrightarrow> health_step st (st\<lparr>st_now := now'\<rparr>)"

inductive reachable :: "health_state \<Rightarrow> bool" where
  start: "initial_state st \<Longrightarrow> reachable st"
| step: "reachable st \<Longrightarrow> health_step st st' \<Longrightarrow> reachable st'"

end
