(* ===== verification/Pool_Properties.thy ===== *)
theory Pool_Properties
  imports Pool_Config "HOL-Library.Multiset"
begin

text \<open>
  What a pool's configuration, selection and retry policy guarantee: accepted members are well
  formed, balancing is exactly fair over every window, backoff is the exact bounded exponential,
  and an attempt that may have had an effect is not repeated without the owner's consent.
\<close>

section \<open>Accepted configurations\<close>

definition member_wf :: "pool_member \<Rightarrow> bool" where
  "member_wf m \<longleftrightarrow>
     trim (pm_user_service_id m) \<noteq> [] \<and> 1 \<le> pm_weight m \<and> pm_weight m \<le> 1000
     \<and> (case pm_model m of None \<Rightarrow> True
          | Some model \<Rightarrow> model \<noteq> [] \<and> trim model = model \<and> chars_count model \<le> MAX_MODEL_LEN)"

definition members_wf :: "pool_member list \<Rightarrow> bool" where
  "members_wf ms \<longleftrightarrow>
     length ms \<le> MAX_POOL_MEMBERS \<and> distinct (map pm_user_service_id ms) \<and> list_all member_wf ms"

text \<open>What normalization makes of one member, and when it accepts it.\<close>

definition member_accepted :: "pool_member \<Rightarrow> bool" where
  "member_accepted m \<longleftrightarrow>
     trim (pm_user_service_id m) \<noteq> [] \<and> pm_weight m \<le> 1000 \<and> is_ok (normalize_model (pm_model m))"

definition normal_member :: "pool_member \<Rightarrow> pool_member" where
  "normal_member m = m\<lparr>pm_weight := max (pm_weight m) 1,
     pm_model := (case pm_model m of None \<Rightarrow> None | Some x \<Rightarrow> if trim x = [] then None else Some (trim x))\<rparr>"

lemma normalize_model_Ok_iff:
  "normalize_model model = Ok x \<longleftrightarrow> is_ok (normalize_model model)
     \<and> x = (case model of None \<Rightarrow> None | Some m \<Rightarrow> if trim m = [] then None else Some (trim m))"
  by (auto simp: normalize_model_def split: option.splits)

lemma normalize_members_loop_iff:
  "normalize_members_loop seen out ms = Ok r \<longleftrightarrow>
     list_all member_accepted ms \<and> distinct (map pm_user_service_id ms)
     \<and> set seen \<inter> pm_user_service_id ` set ms = {} \<and> r = out @ map normal_member ms"
proof (induction seen out ms rule: normalize_members_loop.induct)
  case (2 seen out m ms)
  have model: "and_then (normalize_model (pm_model m)) f = Ok r \<longleftrightarrow>
      is_ok (normalize_model (pm_model m)) \<and> f (pm_model (normal_member m)) = Ok r" for f
    by (subst and_then_Ok_iff, subst normalize_model_Ok_iff) (auto simp: normal_member_def)
  have member: "m\<lparr>pm_weight := max (pm_weight m) 1, pm_model := pm_model (normal_member m)\<rparr> = normal_member m"
    by (simp add: normal_member_def)
  show ?case
  proof (cases "trim (pm_user_service_id m) = [] \<or> pm_user_service_id m \<in> set seen \<or> pm_weight m > 1000")
    case True
    then show ?thesis by (auto simp: member_accepted_def)
  next
    case False
    then have step: "normalize_members_loop seen out (m # ms) = Ok r \<longleftrightarrow>
        is_ok (normalize_model (pm_model m))
        \<and> normalize_members_loop (pm_user_service_id m # seen) (out @ [normal_member m]) ms = Ok r"
      by (simp add: model member del: and_then_Ok_iff One_nat_def)
    have IH: "normalize_members_loop (pm_user_service_id m # seen) (out @ [normal_member m]) ms = Ok r \<longleftrightarrow>
        list_all member_accepted ms \<and> distinct (map pm_user_service_id ms)
        \<and> set (pm_user_service_id m # seen) \<inter> pm_user_service_id ` set ms = {}
        \<and> r = (out @ [normal_member m]) @ map normal_member ms"
      using 2 [of "pm_model (normal_member m)"] False unfolding member by blast
    show ?thesis unfolding step IH using False by (auto simp: member_accepted_def [of m])
  qed
qed auto

lemma normal_member_wf: "member_accepted m \<Longrightarrow> member_wf (normal_member m)"
  by (auto simp: member_accepted_def member_wf_def normal_member_def normalize_model_def
      split: option.splits if_splits)

lemma normal_member_id [simp]: "pm_user_service_id (normal_member m) = pm_user_service_id m"
  by (simp add: normal_member_def)

lemma member_wf_normal: "member_wf m \<Longrightarrow> member_accepted m \<and> normal_member m = m"
  by (cases m) (auto simp: member_wf_def member_accepted_def normal_member_def normalize_model_def
      split: option.splits)

text \<open>
  Accepted members are well formed. \<open>normalize_members\<close> accepts a list exactly when it has at
  most 50 members with distinct non-blank ids, weights up to 1000 and models of at most 256
  characters; the result is the input member by member with weight at least one and the model
  trimmed or removed, is well formed, and is left unchanged by normalizing it again.
\<close>

theorem normalize_members_wf:
  assumes "normalize_members ms = Ok out"
  shows "members_wf out \<and> out = map normal_member ms \<and> normalize_members out = Ok out
    \<and> (is_ok (normalize_members ms') \<longleftrightarrow> length ms' \<le> MAX_POOL_MEMBERS
        \<and> distinct (map pm_user_service_id ms') \<and> list_all member_accepted ms')"
proof -
  have iff: "normalize_members xs = Ok r \<longleftrightarrow> length xs \<le> MAX_POOL_MEMBERS
      \<and> distinct (map pm_user_service_id xs) \<and> list_all member_accepted xs \<and> r = map normal_member xs" for xs r
    by (auto simp: normalize_members_def normalize_members_loop_iff)
  from assms have facts: "length ms \<le> MAX_POOL_MEMBERS" "distinct (map pm_user_service_id ms)"
      "list_all member_accepted ms" "out = map normal_member ms"
    by (simp_all add: iff)
  then have wf: "members_wf out"
    by (auto simp: members_wf_def comp_def list_all_iff intro: normal_member_wf)
  then have again: "\<forall>m \<in> set out. member_accepted m \<and> normal_member m = m"
    using member_wf_normal by (auto simp: members_wf_def list_all_iff)
  then have "map normal_member out = out" by (intro map_idI) blast
  with wf again have "normalize_members out = Ok out"
    by (auto simp: iff members_wf_def list_all_iff)
  with wf facts(4) show ?thesis by (auto simp: is_ok_iff iff)
qed

section \<open>Fair balancing\<close>

lemma weighted_slot_iff:
  "weighted_slot idx slot ws = Some j \<longleftrightarrow>
     (\<exists>i < length ws. j = idx + i \<and> sum_list (map (\<lambda>w. max w 1) (take i ws)) \<le> slot
        \<and> slot < sum_list (map (\<lambda>w. max w 1) (take i ws)) + max (ws ! i) 1)"
proof (induction idx slot ws rule: weighted_slot.induct)
  case (2 idx slot w ws)
  let ?P = "\<lambda>xs i s. sum_list (map (\<lambda>w. max w 1) (take i xs)) \<le> s
      \<and> s < sum_list (map (\<lambda>w. max w 1) (take i xs)) + max (xs ! i) 1"
  have ex: "(\<exists>i < length (w # ws). j = idx + i \<and> ?P (w # ws) i slot) \<longleftrightarrow>
      j = idx \<and> slot < max w 1 \<or> (\<exists>i < length ws. j = idx + Suc i \<and> ?P (w # ws) (Suc i) slot)"
    by (auto simp: less_Suc_eq_0_disj)
  show ?case
  proof (cases "slot < max w 1")
    case True
    then show ?thesis unfolding ex by auto
  next
    case False
    have "?P (w # ws) (Suc i) slot \<longleftrightarrow> ?P ws i (slot - max w 1)" for i
      using False by auto
    then show ?thesis using False 2 unfolding ex by (simp add: Let_def)
  qed
qed simp

lemma mod_window_bij:
  fixes a :: int and n :: nat
  assumes "0 < n"
  shows "bij_betw (\<lambda>t. nat (t mod int n)) {a..<a + int n} {..<n}"
proof (rule bij_betw_byWitness [where f' = "\<lambda>s. a + ((int s - a) mod int n)"])
  have pos: "0 < int n" using assms by simp
  show "\<forall>t \<in> {a..<a + int n}. a + ((int (nat (t mod int n)) - a) mod int n) = t"
  proof
    fix t assume t: "t \<in> {a..<a + int n}"
    have "int (nat (t mod int n)) = t mod int n" using pos by simp
    then have "(int (nat (t mod int n)) - a) mod int n = (t - a) mod int n" by (simp add: mod_diff_left_eq)
    also have "\<dots> = t - a" using t by (intro mod_pos_pos_trivial) auto
    finally show "a + ((int (nat (t mod int n)) - a) mod int n) = t" by simp
  qed
  show "\<forall>s \<in> {..<n}. nat ((a + (int s - a) mod int n) mod int n) = s"
    by (auto simp: mod_add_right_eq)
  show "(\<lambda>t. nat (t mod int n)) ` {a..<a + int n} \<subseteq> {..<n}"
    using pos by (auto simp: nat_less_iff)
  show "(\<lambda>s. a + ((int s - a) mod int n)) ` {..<n} \<subseteq> {a..<a + int n}"
    using pos by auto
qed

lemma card_mod_window:
  fixes a :: int and n :: nat
  assumes "0 < n"
  shows "card {t \<in> {a..<a + int n}. P (nat (t mod int n))} = card {s. s < n \<and> P s}"
proof -
  let ?f = "\<lambda>t. nat (t mod int n)" and ?S = "{a..<a + int n}"
  have inj: "inj_on ?f ?S" and img: "?f ` ?S = {..<n}"
    using mod_window_bij [OF assms, of a] unfolding bij_betw_def by blast+
  have "?f ` {t \<in> ?S. P (?f t)} = {s \<in> ?f ` ?S. P s}" by blast
  also have "\<dots> = {s. s < n \<and> P s}" unfolding img by auto
  finally have "?f ` {t \<in> ?S. P (?f t)} = {s. s < n \<and> P s}" .
  moreover have "inj_on ?f {t \<in> ?S. P (?f t)}" using inj by (rule inj_on_subset) blast
  ultimately show ?thesis by (metis (no_types, lifting) card_image)
qed

lemma sum_take_le:
  fixes xs :: "nat list"
  assumes "i < length xs" shows "sum_list (take i xs) + xs ! i \<le> sum_list xs"
proof -
  have "xs = take i xs @ xs ! i # drop (Suc i) xs" using assms by (rule id_take_nth_drop)
  then have "sum_list xs = sum_list (take i xs) + xs ! i + sum_list (drop (Suc i) xs)"
    by (metis sum_list.Cons sum_list_append add.assoc)
  then show ?thesis by simp
qed

lemma interval_below:
  assumes P: "\<And>s. P s \<longleftrightarrow> b \<le> s \<and> s < b + (w :: nat)" and "b + w \<le> n"
  shows "{s. s < n \<and> P s} = {b..<b + w}"
proof (rule set_eqI)
  fix s
  have "s < n \<and> P s \<longleftrightarrow> b \<le> s \<and> s < b + w" using P [of s] assms(2) by linarith
  then show "s \<in> {s. s < n \<and> P s} \<longleftrightarrow> s \<in> {b..<b + w}" by simp
qed

lemma weighted_total_pos: "ws \<noteq> [] \<Longrightarrow> 0 < sum_list (map (\<lambda>w. max w (1::nat)) ws)"
  by (cases ws) auto

lemma weighted_slot_total:
  "slot < sum_list (map (\<lambda>w. max w 1) ws) \<Longrightarrow> weighted_slot idx slot ws \<noteq> None"
  by (induction idx slot ws rule: weighted_slot.induct) (auto simp: Let_def)

lemma choose_weighted:
  assumes "ws \<noteq> []"
  shows "choose_member_index Weighted ws t =
    weighted_slot 0 (nat (t mod int (sum_list (map (\<lambda>w. max w 1) ws)))) ws"
proof -
  let ?n = "sum_list (map (\<lambda>w. max w 1) ws)"
  have pos: "0 < ?n" using weighted_total_pos [OF assms] .
  then have "nat (t mod int ?n) < ?n" by (simp add: nat_less_iff)
  then have "weighted_slot 0 (nat (t mod int ?n)) ws \<noteq> None" by (rule weighted_slot_total)
  with assms pos show ?thesis by (auto simp: choose_member_index_def Let_def split: option.splits)
qed

text \<open>
  Balancing is exactly fair. For every list of weights and every starting tick, negative ones
  included, over any run of consecutive ticks as long as the total weight the weighted strategy
  selects each member exactly as often as its weight (at least once), and over any run as long as
  the list round robin selects each member exactly once; every selection is an index of the list.
\<close>

theorem balancing_is_fair:
  assumes i: "i < length ws"
  shows "card {t \<in> {a..<a + int (sum_list (map (\<lambda>w. max w 1) ws))}. choose_member_index Weighted ws t = Some i}
      = max (ws ! i) 1
    \<and> card {t \<in> {a..<a + int (length ws)}. choose_member_index RoundRobin ws t = Some i} = 1
    \<and> (\<exists>j < length ws. choose_member_index Weighted ws t = Some j)
    \<and> (\<exists>j < length ws. choose_member_index RoundRobin ws t = Some j)"
proof (intro conjI)
  let ?ws = "map (\<lambda>w. max w 1) ws" and ?n = "sum_list (map (\<lambda>w. max w 1) ws)"
  have ne: "ws \<noteq> []" using i by auto
  have pos: "0 < ?n" and len: "0 < length ws" using weighted_total_pos [OF ne] ne by auto
  let ?before = "sum_list (take i ?ws)"
  have "weighted_slot 0 s ws = Some i \<longleftrightarrow> ?before \<le> s \<and> s < ?before + ?ws ! i" for s
    using i by (simp add: weighted_slot_iff take_map)
  moreover have "?before + ?ws ! i \<le> ?n" using sum_take_le [of i ?ws] i by simp
  ultimately have slots: "{s. s < ?n \<and> weighted_slot 0 s ws = Some i} = {?before..<?before + ?ws ! i}"
    by (rule interval_below)
  show "card {t \<in> {a..<a + int ?n}. choose_member_index Weighted ws t = Some i} = max (ws ! i) 1"
    unfolding choose_weighted [OF ne] card_mod_window [OF pos, where P = "\<lambda>s. weighted_slot 0 s ws = Some i"] slots
    using i by simp
  have "{s. s < length ws \<and> s = i} = {i}" using i by auto
  then show "card {t \<in> {a..<a + int (length ws)}. choose_member_index RoundRobin ws t = Some i} = 1"
    using ne card_mod_window [OF len, where P = "\<lambda>s. s = i" and a = a] by (simp add: choose_member_index_def)
  have "weighted_slot 0 (nat (t mod int ?n)) ws \<noteq> None"
    using pos by (intro weighted_slot_total) (simp add: nat_less_iff)
  then show "\<exists>j < length ws. choose_member_index Weighted ws t = Some j"
    unfolding choose_weighted [OF ne] by (auto simp: weighted_slot_iff)
  show "\<exists>j < length ws. choose_member_index RoundRobin ws t = Some j"
    using ne len by (intro exI [of _ "nat (t mod int (length ws))"])
      (simp add: choose_member_index_def nat_less_iff)
qed

section \<open>The order of attempts\<close>

lemma sort_key_empty: "sort_key f xs = [] \<longleftrightarrow> xs = []"
  by (metis length_0_conv length_sort)

lemma mset_rotate_eq: "mset (rotate k xs) = mset xs"
  by (simp add: rotate_drop_take) (metis append_take_drop_id mset_append add.commute)

lemma Min_insert_acc:
  fixes R :: "int set"
  assumes "finite R"
  shows "Min (insert (case acc of None \<Rightarrow> u | Some a \<Rightarrow> min a u) R) = Min (set_option acc \<union> insert u R)"
proof (cases acc)
  case (Some a)
  with assms show ?thesis by (cases "R = {}") (simp_all add: min.assoc)
qed simp

lemma earliest_cooldown_min:
  "earliest_cooldown now acc cs =
     (let untils = set_option acc \<union> {u. \<exists>c \<in> set cs. pc_cooldown_until c = Some u \<and> u > now}
      in if untils = {} then None else Some (Min untils))"
proof (induction now acc cs rule: earliest_cooldown.induct)
  case (1 now acc)
  then show ?case by (cases acc) simp_all
next
  case (2 now acc c cs)
  let ?rest = "{u. \<exists>c \<in> set cs. pc_cooldown_until c = Some u \<and> u > now}"
  have fin: "finite ?rest"
  proof (rule finite_subset)
    show "?rest \<subseteq> (\<lambda>c. the (pc_cooldown_until c)) ` set cs" by force
  qed simp
  show ?case
  proof (cases "is_cooling now c")
    case False
    then have "{u. \<exists>c \<in> set (c # cs). pc_cooldown_until c = Some u \<and> u > now} = ?rest"
      and "earliest_cooldown now acc (c # cs) = earliest_cooldown now acc cs"
      by (auto simp: is_cooling_def split: option.splits)
    with False 2 show ?thesis by (auto simp: is_cooling_def split: option.splits)
  next
    case True
    then obtain u where u: "pc_cooldown_until c = Some u" "u > now"
      by (auto simp: is_cooling_def split: option.splits)
    then have all: "{u. \<exists>c \<in> set (c # cs). pc_cooldown_until c = Some u \<and> u > now} = insert u ?rest"
      by auto
    let ?acc = "case acc of None \<Rightarrow> u | Some cur \<Rightarrow> min cur u"
    have "earliest_cooldown now acc (c # cs) = earliest_cooldown now (Some ?acc) cs" using u by simp
    also have "\<dots> = Some (Min (insert ?acc ?rest))" using 2(2) [OF u] by (simp add: Let_def)
    also have "Min (insert ?acc ?rest) = Min (set_option acc \<union> insert u ?rest)"
      by (rule Min_insert_acc [OF fin])
    finally show ?thesis unfolding all by (simp add: Let_def)
  qed
qed

lemma plan_max_attempts_bounds:
  assumes "\<forall>p \<in> set_option (sp_failover pool). failover_in_bounds p"
  shows "1 \<le> plan_max_attempts pool n \<and> plan_max_attempts pool n \<le> 5"
  using assms by (auto simp: plan_max_attempts_def Let_def failover_in_bounds_def default_failover_def
      split: option.splits)

text \<open>
  The plan tries the right members in the right order. A priority plan holds exactly the
  candidates that are not cooling down, sorted by tier and in their configured order within a
  tier; an older strategy's plan holds one of them. A plan is empty only when every candidate is
  cooling down, and then names the earliest moment one of them is back. Attempts are one for the
  older strategies and for bodies too large to replay, and for an accepted policy at most five.
\<close>

theorem plan_order_is_right:
  assumes plan: "order_plan pool body_len problem tick now cs = Ok plan"
    and "\<forall>p \<in> set_option (sp_failover pool). failover_in_bounds p"
  shows "(if sp_strategy pool = Priority
      then sorted (map pc_tier (cpl_candidates plan))
        \<and> (\<forall>tier. filter (\<lambda>c. pc_tier c = tier) (cpl_candidates plan)
              = filter (\<lambda>c. pc_tier c = tier) (filter (\<lambda>c. \<not> is_cooling now c) cs))
      else length (cpl_candidates plan) \<le> 1
        \<and> set (cpl_candidates plan) \<subseteq> {c \<in> set cs. \<not> is_cooling now c})
    \<and> (cpl_candidates plan = [] \<longleftrightarrow> (\<forall>c \<in> set cs. is_cooling now c))
    \<and> (cpl_candidates plan = [] \<longrightarrow> cpl_all_cooled_until plan
          = Some (Min {u. \<exists>c \<in> set cs. pc_cooldown_until c = Some u \<and> u > now}))
    \<and> 1 \<le> cpl_max_attempts plan \<and> cpl_max_attempts plan \<le> 5
    \<and> (sp_strategy pool \<noteq> Priority \<longrightarrow> cpl_max_attempts plan = 1)"
proof (intro conjI)
  let ?ok = "filter (\<lambda>c. \<not> is_cooling now c) cs"
  have attempts: "cpl_max_attempts plan = plan_max_attempts pool body_len" and ne: "cs \<noteq> []"
    using plan by (auto simp: order_plan_def Let_def split: if_splits)
  show "1 \<le> cpl_max_attempts plan" "cpl_max_attempts plan \<le> 5"
    using plan_max_attempts_bounds [OF assms(2)] attempts by auto
  show "sp_strategy pool \<noteq> Priority \<longrightarrow> cpl_max_attempts plan = 1"
    using attempts by (simp add: plan_max_attempts_def Let_def)
  have cands: "cpl_candidates plan = (if sp_strategy pool = Priority then sort_key pc_tier ?ok
      else take 1 (case choose_member_index (sp_strategy pool)
          (map (\<lambda>c. max (pm_weight (pc_member c)) 1) ?ok) tick of
        Some first \<Rightarrow> rotate first ?ok | None \<Rightarrow> ?ok))"
    using plan by (cases "?ok = []") (auto simp: order_plan_def Let_def split: if_splits option.splits)
  show "if sp_strategy pool = Priority
      then sorted (map pc_tier (cpl_candidates plan))
        \<and> (\<forall>tier. filter (\<lambda>c. pc_tier c = tier) (cpl_candidates plan)
              = filter (\<lambda>c. pc_tier c = tier) ?ok)
      else length (cpl_candidates plan) \<le> 1
        \<and> set (cpl_candidates plan) \<subseteq> {c \<in> set cs. \<not> is_cooling now c}"
  proof (cases "sp_strategy pool = Priority")
    case True
    then show ?thesis using cands sort_key_stable [of pc_tier _ ?ok] by simp
  next
    case False
    have "set (cpl_candidates plan) \<subseteq> set ?ok"
      using cands False by (auto dest!: in_set_takeD split: option.splits)
    then show ?thesis using cands False by (auto split: option.splits)
  qed
  have empty: "cpl_candidates plan = [] \<longleftrightarrow> ?ok = []"
    unfolding cands using sort_key_empty [of pc_tier ?ok] by (auto split: option.splits)
  then show "cpl_candidates plan = [] \<longleftrightarrow> (\<forall>c \<in> set cs. is_cooling now c)"
    by (simp add: filter_empty_conv)
  show "cpl_candidates plan = [] \<longrightarrow> cpl_all_cooled_until plan
      = Some (Min {u. \<exists>c \<in> set cs. pc_cooldown_until c = Some u \<and> u > now})"
  proof
    assume "cpl_candidates plan = []"
    with empty have none: "?ok = []" by simp
    with plan have "cpl_all_cooled_until plan = earliest_cooldown now None cs"
      by (auto simp: order_plan_def Let_def split: if_splits)
    moreover obtain c where "c \<in> set cs" "is_cooling now c"
      using ne none by (cases cs) (auto split: if_splits)
    ultimately show "cpl_all_cooled_until plan
        = Some (Min {u. \<exists>c \<in> set cs. pc_cooldown_until c = Some u \<and> u > now})"
      by (auto simp: earliest_cooldown_min Let_def is_cooling_def split: option.splits)
  qed
qed

text \<open>
  Visiting a tier reorders that tier only. A successful visit permutes the candidates of the
  first tier by a rotation, keeps all others where they are, uses the tier's stored counter (zero
  at first) as its tick and stores its successor, touching no other counter and not the
  configuration; a pool that was changed since the plan was made is refused.
\<close>

theorem visit_reorders_one_tier:
  assumes "order_visited_tier pool stored (c # cs) = Ok (tick, out, stored')"
  shows "\<exists>row row' k. stored = Some row \<and> stored' = Some row' \<and> sp_config_revision row = sp_config_revision pool
    \<and> sp_is_active row
    \<and> out = rotate k (takeWhile (\<lambda>d. pc_tier d = pc_tier c) (c # cs)) @ dropWhile (\<lambda>d. pc_tier d = pc_tier c) (c # cs)
    \<and> map pc_tier out = map pc_tier (c # cs) \<and> mset out = mset (c # cs)
    \<and> tick = (case btm_get (sp_tier_counters row) (nat_str (pc_tier c)) of None \<Rightarrow> 0 | Some n \<Rightarrow> n)
    \<and> btm_get (sp_tier_counters row') (nat_str (pc_tier c)) = Some (tick + 1)
    \<and> {t. t \<noteq> nat_str (pc_tier c) \<and> btm_get (sp_tier_counters row') t \<noteq> btm_get (sp_tier_counters row) t} = {}
    \<and> row' = row\<lparr>sp_tier_counters := sp_tier_counters row'\<rparr>"
proof -
  let ?same = "\<lambda>d. pc_tier d = pc_tier c" and ?cs = "c # cs"
  from assms obtain row where row: "stored = Some row" "sp_id row = sp_id pool"
      "sp_config_revision row = sp_config_revision pool" "sp_is_active row"
    by (auto simp: order_visited_tier_def Let_def split: option.splits if_splits)
  let ?tick = "case btm_get (sp_tier_counters row) (nat_str (pc_tier c)) of None \<Rightarrow> 0 | Some n \<Rightarrow> n"
  let ?row = "row\<lparr>sp_tier_counters := btm_insert (nat_str (pc_tier c)) (?tick + 1) (sp_tier_counters row)\<rparr>"
  let ?k = "case choose_member_index (case sp_tier_balance pool of TierRoundRobin \<Rightarrow> RoundRobin | TierWeighted \<Rightarrow> Weighted)
      (map (\<lambda>c. max (pm_weight (pc_member c)) 1) (takeWhile ?same ?cs)) ?tick of Some first \<Rightarrow> first | None \<Rightarrow> 0"
  have res: "tick = ?tick" "stored' = Some ?row" "out = rotate ?k (takeWhile ?same ?cs) @ dropWhile ?same ?cs"
    using assms row by (auto simp: order_visited_tier_def Let_def split: option.splits)
  have tiers: "map pc_tier (rotate k (takeWhile ?same ?cs)) = map pc_tier (takeWhile ?same ?cs)" for k
  proof (rule nth_equalityI)
    fix i assume "i < length (map pc_tier (rotate k (takeWhile ?same ?cs)))"
    moreover have "\<forall>d \<in> set (rotate k (takeWhile ?same ?cs)). pc_tier d = pc_tier c"
      and "\<forall>d \<in> set (takeWhile ?same ?cs). pc_tier d = pc_tier c"
      by (auto dest: set_takeWhileD split: if_splits)
    ultimately show "map pc_tier (rotate k (takeWhile ?same ?cs)) ! i = map pc_tier (takeWhile ?same ?cs) ! i"
      by (metis length_map length_rotate nth_map nth_mem)
  qed simp
  have "map pc_tier out = map pc_tier ?cs"
    unfolding res(3) map_append tiers by (simp only: map_append [symmetric] takeWhile_dropWhile_id)
  moreover have "mset out = mset ?cs"
    unfolding res(3) by (metis mset_append mset_rotate_eq takeWhile_dropWhile_id)
  ultimately show ?thesis using row res by (intro exI [of _ row] exI [of _ ?row] exI [of _ ?k]) simp
qed

section \<open>Retries and backoff\<close>

text \<open>
  What may have had an effect is not repeated. A retry happens only for a trigger the policy
  lists; the attempt was then never dispatched, or was rejected without effect, or its outcome is
  unknown and either the method is safe or the owner opted in to ambiguous retries and the
  attempt did not run on a node. Every outcome without a trigger is terminal and the reverse.
\<close>

theorem retries_are_safe:
  assumes "pool_should_retry evidence meth policy"
  shows "(\<exists>t. trigger_for evidence = Some t \<and> t \<in> set (fp_retry_on policy))
    \<and> (classify evidence = NotDispatched \<or> classify evidence = RejectedWithoutEffect
        \<or> classify evidence = Ambiguous
          \<and> (method_is_safe meth
              \<or> fp_retry_ambiguous_dispatch policy \<and> evidence \<notin> {ENodeTimeout, ENodeTransportAfterDispatch}))
    \<and> (classify any = Terminal \<longleftrightarrow> trigger_for any = None)"
proof (intro conjI)
  show "\<exists>t. trigger_for evidence = Some t \<and> t \<in> set (fp_retry_on policy)"
    using assms by (auto simp: pool_should_retry_def should_retry_def split: if_splits option.splits)
  have node: "\<not> ((evidence = ENodeTimeout \<or> evidence = ENodeTransportAfterDispatch) \<and> \<not> method_is_safe meth)"
    using assms by (auto simp: pool_should_retry_def)
  show "classify evidence = NotDispatched \<or> classify evidence = RejectedWithoutEffect
      \<or> classify evidence = Ambiguous
        \<and> (method_is_safe meth
            \<or> fp_retry_ambiguous_dispatch policy \<and> evidence \<notin> {ENodeTimeout, ENodeTransportAfterDispatch})"
    using assms node
    by (cases "classify evidence")
      (auto simp: pool_should_retry_def should_retry_def split: if_splits option.splits)
  show "classify any = Terminal \<longleftrightarrow> trigger_for any = None" by (cases any) simp_all
qed

lemma power_31: "(2 :: nat) ^ 31 = 2147483648"
  by simp

lemma backoff_exact:
  assumes "failover_in_bounds p" "1 \<le> failures"
  shows "cooldown_for (fp_cooldown p) failures None
    = from_millis (min (cp_base_ms (fp_cooldown p) * 2 ^ (failures - 1)) (cp_max_ms (fp_cooldown p)))"
proof -
  define base mx where "base = cp_base_ms (fp_cooldown p)" and "mx = cp_max_ms (fp_cooldown p)"
  have b: "1 \<le> base" "base \<le> mx" "mx \<le> 3600000"
    using assms(1) by (simp_all add: failover_in_bounds_def base_def mx_def HEALTH_RETENTION_MS_def)
  have "min (min (base * 2 ^ min (failures - 1) 31) u64_max) mx = min (base * 2 ^ (failures - 1)) mx"
  proof (cases "failures - 1 \<le> 31")
    case True
    then have "(2 :: nat) ^ (failures - 1) \<le> 2 ^ 31" by (intro power_increasing) auto
    then have "base * 2 ^ (failures - 1) \<le> 3600000 * 2147483648"
      using b unfolding power_31 by (intro mult_mono) auto
    with True show ?thesis by (simp add: u64_max_def)
  next
    case False
    then have "(2 :: nat) ^ 31 \<le> 2 ^ (failures - 1)" by (intro power_increasing) auto
    then have "2147483648 \<le> base * 2 ^ (failures - 1)"
      using b(1) unfolding power_31 by (metis mult_le_mono nat_mult_1)
    moreover have "2147483648 \<le> base * 2 ^ 31" using b(1) by simp
    ultimately show ?thesis using False b by (simp add: u64_max_def)
  qed
  then show ?thesis
    by (simp add: cooldown_for_def Let_def saturating_mul_u64_def base_def mx_def)
qed

text \<open>
  The backoff is the exact bounded exponential. For every accepted policy and any number of
  failures, however large, the cooldown is the base doubled once per further failure and capped
  at the maximum: neither the capped exponent nor the saturating product shows. It lies between
  base and maximum and never shrinks as failures add up; an honoured \<open>Retry-After\<close> only ever
  lengthens it, up to the maximum.
\<close>

theorem cooldown_is_bounded_exponential:
  assumes "failover_in_bounds p" "1 \<le> failures" "failures \<le> later"
  shows "cooldown_for (fp_cooldown p) failures None
      = from_millis (min (cp_base_ms (fp_cooldown p) * 2 ^ (failures - 1)) (cp_max_ms (fp_cooldown p)))
    \<and> from_millis (cp_base_ms (fp_cooldown p)) \<le> cooldown_for (fp_cooldown p) failures after
    \<and> cooldown_for (fp_cooldown p) failures after \<le> from_millis (cp_max_ms (fp_cooldown p))
    \<and> cooldown_for (fp_cooldown p) failures after \<le> cooldown_for (fp_cooldown p) later after
    \<and> cooldown_for (fp_cooldown p) failures None \<le> cooldown_for (fp_cooldown p) failures after
    \<and> (cp_honor_retry_after (fp_cooldown p) \<longrightarrow> min (from_millis s) (from_millis (cp_max_ms (fp_cooldown p)))
        \<le> cooldown_for (fp_cooldown p) failures (Some (from_millis s)))"
proof -
  let ?c = "fp_cooldown p"
  have b: "1 \<le> cp_base_ms ?c" "cp_base_ms ?c \<le> cp_max_ms ?c"
    using assms(1) by (simp_all add: failover_in_bounds_def)
  have with_after: "cooldown_for ?c n after = (case after of None \<Rightarrow> cooldown_for ?c n None
      | Some a \<Rightarrow> if cp_honor_retry_after ?c then min (max a (cooldown_for ?c n None)) (from_millis (cp_max_ms ?c))
                 else cooldown_for ?c n None)" for n after
    by (simp add: cooldown_for_def Let_def split: option.split)
  have exact: "cooldown_for ?c n None = from_millis (min (cp_base_ms ?c * 2 ^ (n - 1)) (cp_max_ms ?c))"
    if "1 \<le> n" for n using backoff_exact [OF assms(1) that] .
  have "(2 :: nat) ^ (failures - 1) \<le> 2 ^ (later - 1)" using assms by (intro power_increasing) auto
  then have mono: "cooldown_for ?c failures None \<le> cooldown_for ?c later None"
    using exact [of failures] exact [of later] assms(2,3) by (simp add: from_millis_def min.coboundedI1 mult_le_mono)
  have "cp_base_ms ?c \<le> cp_base_ms ?c * 2 ^ (failures - 1)" by simp
  then have low: "from_millis (cp_base_ms ?c) \<le> cooldown_for ?c failures None"
    using exact [OF assms(2)] b by (simp add: from_millis_def)
  have high: "cooldown_for ?c n None \<le> from_millis (cp_max_ms ?c)" for n
    by (simp add: cooldown_for_def Let_def from_millis_def)
  show ?thesis
    using exact [OF assms(2)] mono low high [of failures] high [of later]
    by (simp add: with_after [of _ after] with_after [of _ "Some (from_millis s)"] split: option.split)
      (auto simp: min_def max_def)
qed

section \<open>Instances\<close>

definition demo_member :: "string \<Rightarrow> nat \<Rightarrow> nat \<Rightarrow> string option \<Rightarrow> pool_member" where
  "demo_member i weight priority model = \<lparr>pm_user_service_id = i, pm_weight = weight, pm_enabled = True,
     pm_priority = priority, pm_model = model, pm_same_api_compatible = True, pm_health_reset_generation = 0\<rparr>"

definition demo_candidate :: "string \<Rightarrow> nat \<Rightarrow> nat \<Rightarrow> int option \<Rightarrow> pool_candidate" where
  "demo_candidate i weight tier cooldown = \<lparr>pc_member = demo_member i weight tier None, pc_tier = tier,
     pc_cooldown_until = cooldown,
     pc_contract = \<lparr>cm_catalog_id = Some ''c'', cm_protocol = Some OpenaiCompletions, cm_declared = True\<rparr>\<rparr>"

definition demo_pool :: service_pool where
  "demo_pool = \<lparr>sp_id = ''p'', sp_user_id = ''u'', sp_slug = ''s'', sp_strategy = Priority,
     sp_tier_balance = TierWeighted, sp_member_contract = SameApi, sp_failover = Some default_failover,
     sp_members = [], sp_rr_counter = 0, sp_tier_counters = [], sp_config_revision = 4,
     sp_health_reset_generation = 0, sp_health_observation_sequence = 0, sp_is_active = True\<rparr>"

lemma normalize_members_wf_witness:
  "members_wf [demo_member ''a'' 1 0 (Some ''m''), demo_member ''b'' 7 2 None]"
proof -
  have "normalize_members [demo_member ''a'' 0 0 (Some '' m ''), demo_member ''b'' 7 2 (Some '' '')]
      = Ok [demo_member ''a'' 1 0 (Some ''m''), demo_member ''b'' 7 2 None]" by code_simp
  from normalize_members_wf [OF this] show ?thesis by blast
qed

lemma balancing_is_fair_witness:
  "card {t \<in> {- 5..<- 5 + 6}. choose_member_index Weighted [2, 0, 3] t = Some 2} = 3"
  using balancing_is_fair [of 2 "[2, 0, 3]" "- 5"] by simp

lemma plan_order_is_right_witness:
  "\<exists>plan. order_plan demo_pool 10 None 0 5 [demo_candidate ''a'' 1 2 None, demo_candidate ''b'' 1 1 (Some 9),
      demo_candidate ''c'' 1 1 (Some 5)] = Ok plan
     \<and> sorted (map pc_tier (cpl_candidates plan)) \<and> cpl_max_attempts plan \<le> 5"
proof -
  let ?cs = "[demo_candidate ''a'' 1 2 None, demo_candidate ''b'' 1 1 (Some 9), demo_candidate ''c'' 1 1 (Some 5)]"
  have "is_ok (order_plan demo_pool 10 None 0 5 ?cs)" by code_simp
  then obtain plan where plan: "order_plan demo_pool 10 None 0 5 ?cs = Ok plan" by (auto simp: is_ok_iff)
  have "failover_in_bounds default_failover" by code_simp
  then have "\<forall>p \<in> set_option (sp_failover demo_pool). failover_in_bounds p" by (simp add: demo_pool_def)
  from plan_order_is_right [OF plan this] plan show ?thesis by (auto simp: demo_pool_def)
qed

lemma visit_reorders_one_tier_witness:
  "\<exists>tick out stored'. order_visited_tier demo_pool (Some demo_pool)
      [demo_candidate ''a'' 1 1 None, demo_candidate ''b'' 1 1 None, demo_candidate ''c'' 1 2 None] = Ok (tick, out, stored')
     \<and> mset out = mset [demo_candidate ''a'' 1 1 None, demo_candidate ''b'' 1 1 None, demo_candidate ''c'' 1 2 None]"
proof -
  let ?cs = "[demo_candidate ''a'' 1 1 None, demo_candidate ''b'' 1 1 None, demo_candidate ''c'' 1 2 None]"
  have "is_ok (order_visited_tier demo_pool (Some demo_pool) ?cs)" by code_simp
  then obtain tick out stored' where
    visit: "order_visited_tier demo_pool (Some demo_pool) ?cs = Ok (tick, out, stored')"
    by (auto simp: is_ok_iff)
  from visit_reorders_one_tier [OF visit] visit show ?thesis by blast
qed

lemma retries_are_safe_witness:
  "pool_should_retry (EUpstream 429) ''POST'' default_failover
   \<and> (\<exists>t. trigger_for (EUpstream 429) = Some t \<and> t \<in> set (fp_retry_on default_failover))"
proof -
  have retry: "pool_should_retry (EUpstream 429) ''POST'' default_failover" by code_simp
  from retries_are_safe [OF this] retry show ?thesis by blast
qed

lemma cooldown_is_bounded_exponential_witness:
  "cooldown_for default_cooldown 4 None = from_millis (min (5000 * 2 ^ 3) 300000)"
proof -
  have "failover_in_bounds default_failover" by code_simp
  from cooldown_is_bounded_exponential [OF this, of 4 4] show ?thesis
    by (simp add: default_failover_def default_cooldown_def)
qed

end
