(* ===== verification/Pool_Health_Properties.thy ===== *)
theory Pool_Health_Properties
  imports Pool_Health Pool_Properties
begin

text \<open>
  What the fences, sequences and instance ids of pool health guarantee over every history of
  concurrent outcomes, resets, configuration writes and expiry.
\<close>

section \<open>Store lemmas\<close>

lemma update_first_cases:
  "y \<in> set (update_first p f xs) \<Longrightarrow> y \<in> set xs \<or> (\<exists>x \<in> set xs. p x \<and> y = f x)"
  by (induction xs) (auto split: if_splits)

lemma map_update_first: "(\<And>x. p x \<Longrightarrow> g (f x) = g x) \<Longrightarrow> map g (update_first p f xs) = map g xs"
  by (induction xs) auto

lemma update_first_none: "\<not> list_ex p xs \<Longrightarrow> update_first p f xs = xs"
  by (induction xs) auto

lemma find_update_first:
  "List.find p xs = Some x \<Longrightarrow> p (f x) \<Longrightarrow> List.find p (update_first p f xs) = Some (f x)"
  by (induction xs) (auto split: if_splits)

lemma find_SomeD: "List.find p xs = Some x \<Longrightarrow> x \<in> set xs \<and> p x"
  by (auto simp: find_Some_iff)

lemma find_distinct:
  assumes "distinct (map g xs)" "x \<in> set xs" "p x" and same: "\<And>y. p y \<Longrightarrow> g y = g x"
  shows "List.find p xs = Some x"
proof -
  from assms(2,3) have "List.find p xs \<noteq> None" by (auto simp: find_None_iff)
  then obtain y where y: "List.find p xs = Some y" by blast
  then have "y \<in> set xs" "g y = g x" using find_SomeD [OF y] same by auto
  then have "y = x" using assms(1,2) by (auto simp: distinct_map inj_on_def)
  with y show ?thesis by simp
qed

lemma find_cong_first:
  "List.find p xs = Some x \<Longrightarrow> q x \<Longrightarrow> (\<And>y. q y \<Longrightarrow> p y) \<Longrightarrow> List.find q xs = Some x"
  by (induction xs) (auto split: if_splits)

lemma update_first_cong_first:
  "List.find p xs = Some x \<Longrightarrow> q x \<Longrightarrow> (\<And>y. q y \<Longrightarrow> p y) \<Longrightarrow> update_first q f xs = update_first p f xs"
  by (induction xs) (auto split: if_splits)

lemma find_append_none: "List.find p xs = None \<Longrightarrow> List.find p (xs @ ys) = List.find p ys"
  by (induction xs) auto

lemma bson_time_mono: "s \<le> t \<Longrightarrow> bson_time s \<le> bson_time t"
  by (simp add: bson_time_def zdiv_mono1)

lemma bson_time_max: "bson_time (max s t) = max (bson_time s) (bson_time t)"
  using bson_time_mono by (simp add: max_def) (meson bson_time_mono antisym linear)

section \<open>Pools only advance\<close>

definition pool_advances :: "service_pool \<Rightarrow> service_pool \<Rightarrow> bool" where
  "pool_advances p p' \<longleftrightarrow>
     sp_id p' = sp_id p \<and> sp_config_revision p \<le> sp_config_revision p'
     \<and> sp_health_reset_generation p \<le> sp_health_reset_generation p'
     \<and> sp_health_observation_sequence p \<le> sp_health_observation_sequence p'
     \<and> (sp_config_revision p' = sp_config_revision p \<longrightarrow>
         (\<forall>m g. member_reset_generation p m = Some g \<longrightarrow>
            (\<exists>g'. member_reset_generation p' m = Some g' \<and> g \<le> g')))"

lemma pool_advances_same:
  "sp_id p' = sp_id p \<Longrightarrow> sp_members p' = sp_members p \<Longrightarrow> sp_config_revision p' = sp_config_revision p
   \<Longrightarrow> sp_health_reset_generation p \<le> sp_health_reset_generation p'
   \<Longrightarrow> sp_health_observation_sequence p \<le> sp_health_observation_sequence p' \<Longrightarrow> pool_advances p p'"
  by (auto simp: pool_advances_def member_reset_generation_def)

lemma find_bump:
  "List.find (\<lambda>m. pm_user_service_id m = i \<and> pm_enabled m) (map (bump_member x) ms) =
     map_option (bump_member x) (List.find (\<lambda>m. pm_user_service_id m = i \<and> pm_enabled m) ms)"
  by (induction ms) (auto simp: bump_member_def)

lemma member_generation_bump:
  "member_reset_generation (p\<lparr>sp_members := map (bump_member x) (sp_members p)\<rparr>) i =
     map_option (\<lambda>g. if x = i then g + 1 else g) (member_reset_generation p i)"
proof (cases "List.find (\<lambda>m. pm_user_service_id m = i \<and> pm_enabled m) (sp_members p)")
  case (Some m)
  then have "pm_user_service_id m = i" using find_SomeD by fastforce
  with Some show ?thesis by (auto simp: member_reset_generation_def find_bump bump_member_def)
qed (simp add: member_reset_generation_def find_bump)

lemma pool_advances_bump: "pool_advances p (p\<lparr>sp_members := map (bump_member x) (sp_members p)\<rparr>)"
  by (auto simp: pool_advances_def member_generation_bump)

lemma pool_advances_configured: "pool_advances p (configured change p)"
  by (simp add: pool_advances_def configured_def)

lemma update_first_advances:
  assumes "\<And>x. pool_advances x (f x)" "p' \<in> set (update_first q f ps)"
  shows "\<exists>p \<in> set ps. pool_advances p p'"
proof -
  have "pool_advances p' p'" by (rule pool_advances_same) simp_all
  then show ?thesis using update_first_cases [OF assms(2)] assms(1) by blast
qed

text \<open>How one operation changes the pools: nothing, an advance of each, or a removal.\<close>

lemma issue_Ok:
  assumes "issue_observation_ticket db scope now oid hid = (Ok t, db')"
  obtains admits found member_reset where
    "List.find admits (db_pools db) = Some found" "scope_pool scope found"
    "\<And>p. admits p \<Longrightarrow> scope_pool scope p"
    "member_reset_generation found (hs_user_service_id scope) = Some member_reset"
    "ot_scope t = scope" "ot_observation_id t = oid"
    "ot_observation_sequence t = sp_health_observation_sequence found + 1"
    "ot_pool_reset_generation t = sp_health_reset_generation found"
    "ot_member_reset_generation t = member_reset"
    "db_pools db' = update_first admits
       (\<lambda>p. p\<lparr>sp_health_observation_sequence := sp_health_observation_sequence p + 1\<rparr>) (db_pools db)"
    "(case List.find (scope_filter scope (sp_health_reset_generation found) member_reset) (db_health db) of
        Some row \<Rightarrow> ot_health_instance_id t = hr_id row
          \<and> db_health db' = update_first (scope_filter scope (sp_health_reset_generation found) member_reset)
              (touch_row (ot_observation_sequence t) now) (db_health db)
      | None \<Rightarrow> ot_health_instance_id t = hid
          \<and> db_health db' = db_health db @ [fresh_row hid scope (sp_health_reset_generation found)
              member_reset (ot_observation_sequence t) now])"
    "\<exists>ob. db_observations db' = db_observations db @ [ob] \<and> ho_id ob = oid \<and> \<not> ho_completed ob
       \<and> ho_health_instance_id ob = ot_health_instance_id t
       \<and> ho_expires_at ob = bson_time (now + HEALTH_RETENTION)"
proof -
  let ?admits = "\<lambda>p. scope_pool scope p
      \<and> list_ex (\<lambda>m. pm_user_service_id m = hs_user_service_id scope \<and> pm_enabled m) (sp_members p)"
  have gen: "member_reset_generation (p\<lparr>sp_health_observation_sequence := n\<rparr>) i = member_reset_generation p i"
    for p n i by (simp add: member_reset_generation_def)
  from assms obtain found where found: "List.find ?admits (db_pools db) = Some found"
    by (auto simp: issue_observation_ticket_def Let_def split: if_splits option.splits)
  from assms found obtain mr where mr: "member_reset_generation found (hs_user_service_id scope) = Some mr"
    by (auto simp: issue_observation_ticket_def Let_def gen split: if_splits option.splits)
  show thesis
    using assms found find_SomeD [OF found]
    by (intro that [of ?admits found mr])
      (auto simp: issue_observation_ticket_def Let_def gen mr split: if_splits option.splits)
qed

lemma finish_pools [simp]: "db_pools (snd (finish_observation db t failure now)) = db_pools db"
  by (auto simp: finish_observation_def Let_def split: option.splits)

text \<open>A write that advances at most one pool.\<close>

definition advancing_write :: "service_pool list \<Rightarrow> service_pool list \<Rightarrow> bool" where
  "advancing_write ps ps' \<longleftrightarrow> (\<exists>q f. ps' = update_first q f ps \<and> (\<forall>p. pool_advances p (f p)))"

lemma advancing_write_refl: "advancing_write ps ps"
  unfolding advancing_write_def
  by (rule exI [of _ "\<lambda>_. False"], rule exI [of _ "\<lambda>p. p"])
    (auto simp: update_first_none list_ex_iff intro: pool_advances_same)

lemma advancing_writeI: "(\<And>p. pool_advances p (f p)) \<Longrightarrow> advancing_write ps (update_first q f ps)"
  unfolding advancing_write_def by blast

lemma advancing_writeD: "advancing_write ps ps' \<Longrightarrow> p' \<in> set ps' \<Longrightarrow> \<exists>p \<in> set ps. pool_advances p p'"
  unfolding advancing_write_def using update_first_advances by blast

lemma advancing_write_ids: "advancing_write ps ps' \<Longrightarrow> map sp_id ps' = map sp_id ps"
  unfolding advancing_write_def by (auto simp: pool_advances_def intro!: map_update_first)

lemma writes_advance:
  "advancing_write (db_pools db) (db_pools (snd (reset_pool db pool_id owner member)))"
  "advancing_write (db_pools db) (db_pools (snd (commit_pool_update db pool_id owner revision change)))"
  "issue_observation_ticket db scope now oid hid = (Ok t, db') \<Longrightarrow> advancing_write (db_pools db) (db_pools db')"
proof -
  have reset: "pool_advances p (p\<lparr>sp_health_reset_generation := sp_health_reset_generation p + 1\<rparr>)"
    and bump: "pool_advances p (p\<lparr>sp_health_observation_sequence := sp_health_observation_sequence p + 1\<rparr>)" for p
    by (rule pool_advances_same; simp)+
  show "advancing_write (db_pools db) (db_pools (snd (reset_pool db pool_id owner member)))"
    by (cases member) (simp_all add: reset_pool_def Let_def advancing_write_refl
        advancing_writeI [OF reset] advancing_writeI [OF pool_advances_bump])
  show "advancing_write (db_pools db) (db_pools (snd (commit_pool_update db pool_id owner revision change)))"
    by (simp add: commit_pool_update_def Let_def advancing_write_refl advancing_writeI [OF pool_advances_configured])
  show "advancing_write (db_pools db) (db_pools db')"
    if "issue_observation_ticket db scope now oid hid = (Ok t, db')"
    using that by (rule issue_Ok) (simp add: advancing_writeI [OF bump])
qed

lemma writes_keep [simp]:
  "db_health (snd (reset_pool db pool_id owner member)) = db_health db"
  "db_observations (snd (reset_pool db pool_id owner member)) = db_observations db"
  "db_health (snd (commit_pool_update db pool_id owner revision change)) = db_health db"
  "db_observations (snd (commit_pool_update db pool_id owner revision change)) = db_observations db"
  "db_health (snd (remove_pool db pool_id owner)) = db_health db"
  "db_observations (snd (remove_pool db pool_id owner)) = db_observations db"
  by (auto simp: reset_pool_def commit_pool_update_def remove_pool_def Let_def split: option.splits)

lemma step_pools:
  assumes "health_step st st'" "p' \<in> set (db_pools (st_db st'))"
  shows "sp_id p' \<notin> set (st_used st) \<and> sp_id p' \<in> set (st_used st') \<and> new_pool p'
    \<or> (\<exists>p \<in> set (db_pools (st_db st)). pool_advances p p')"
proof -
  have refl: "pool_advances p p" for p by (rule pool_advances_same) simp_all
  from assms show ?thesis
  proof (cases rule: health_step.cases)
    case (create p)
    then show ?thesis using assms(2) refl by auto
  next
    case (issue scope oid hid t db')
    then show ?thesis using advancing_writeD [OF writes_advance(3)] assms(2) by auto
  next
    case (reset pool_id owner member)
    then show ?thesis using advancing_writeD [OF writes_advance(1)] assms(2) by auto
  next
    case (configure pool_id owner revision change)
    then show ?thesis using advancing_writeD [OF writes_advance(2)] assms(2) by auto
  next
  case (remove pool_id owner)
    then show ?thesis using assms(2) refl by (auto simp: remove_pool_def split: if_splits)
  next
    case (count tiers rr)
    then obtain p where "p \<in> set (db_pools (st_db st))"
        "p' = p\<lparr>sp_rr_counter := rr p, sp_tier_counters := tiers p\<rparr>"
      using assms(2) by auto
    moreover from this have "pool_advances p p'" by (intro pool_advances_same) simp_all
    ultimately show ?thesis by blast
  qed (use assms(2) refl in auto)
qed

section \<open>The invariant of histories\<close>

abbreviation ticket_pool :: "observation_ticket \<Rightarrow> string" where
  "ticket_pool t \<equiv> hs_pool_id (ot_scope t)"

abbreviation ticket_member :: "observation_ticket \<Rightarrow> string" where
  "ticket_member t \<equiv> hs_user_service_id (ot_scope t)"

abbreviation ticket_revision :: "observation_ticket \<Rightarrow> int" where
  "ticket_revision t \<equiv> hs_pool_config_revision (ot_scope t)"

definition row_key :: "health_row \<Rightarrow> health_scope \<times> int \<times> int" where
  "row_key r = (hr_scope r, hr_pool_reset_generation r, hr_member_reset_generation r)"

text \<open>A ticket is never ahead of its pool.\<close>

definition ticket_bound :: "service_pool \<Rightarrow> observation_ticket \<Rightarrow> bool" where
  "ticket_bound p t \<longleftrightarrow> (sp_id p = ticket_pool t \<longrightarrow>
     ticket_revision t \<le> sp_config_revision p
     \<and> ot_pool_reset_generation t \<le> sp_health_reset_generation p
     \<and> ot_observation_sequence t \<le> sp_health_observation_sequence p
     \<and> (ticket_revision t = sp_config_revision p \<longrightarrow>
         (\<exists>g. member_reset_generation p (ticket_member t) = Some g \<and> ot_member_reset_generation t \<le> g)))"

definition pools_ok :: "health_state \<Rightarrow> bool" where
  "pools_ok st \<longleftrightarrow> distinct (map sp_id (db_pools (st_db st)))
     \<and> sp_id ` set (db_pools (st_db st)) \<subseteq> set (st_used st)"

definition tickets_ok :: "health_state \<Rightarrow> bool" where
  "tickets_ok st \<longleftrightarrow> (\<forall>t \<in> set (st_tickets st). ot_observation_id t \<in> set (st_used st)
     \<and> ticket_pool t \<in> set (st_used st) \<and> (\<forall>p \<in> set (db_pools (st_db st)). ticket_bound p t))"

definition rows_ok :: "health_state \<Rightarrow> bool" where
  "rows_ok st \<longleftrightarrow> distinct (map hr_id (db_health (st_db st)))
     \<and> distinct (map row_key (db_health (st_db st)))
     \<and> hr_id ` set (db_health (st_db st)) \<subseteq> set (st_used st)
     \<and> (\<forall>r \<in> set (db_health (st_db st)). \<forall>u \<in> set_option (hr_cooldown_until r). bson_time u = u)"

definition observations_ok :: "health_state \<Rightarrow> bool" where
  "observations_ok st \<longleftrightarrow> distinct (map ho_id (db_observations (st_db st)))
     \<and> ho_id ` set (db_observations (st_db st)) \<subseteq> set (st_used st)"

definition state_ok :: "health_state \<Rightarrow> bool" where
  "state_ok st \<longleftrightarrow> pools_ok st \<and> tickets_ok st \<and> rows_ok st \<and> observations_ok st"

lemma used_grows: "health_step st st' \<Longrightarrow> set (st_used st) \<subseteq> set (st_used st')"
  by (cases rule: health_step.cases) auto

lemma tickets_grow:
  "health_step st st' \<Longrightarrow> set (st_tickets st) \<subseteq> set (st_tickets st')"
  by (cases rule: health_step.cases) auto

lemma bound_advances: "ticket_bound p t \<Longrightarrow> pool_advances p p' \<Longrightarrow> ticket_bound p' t"
  unfolding ticket_bound_def pool_advances_def by (smt (verit) order_trans)

lemma pools_ok_same_ids:
  assumes "pools_ok st" "map sp_id (db_pools (st_db st')) = map sp_id (db_pools (st_db st))"
    and "set (st_used st) \<subseteq> set (st_used st')"
  shows "pools_ok st'"
proof -
  have "sp_id ` set (db_pools (st_db st')) = sp_id ` set (db_pools (st_db st))"
    using assms(2) by (metis set_map)
  with assms show ?thesis by (auto simp: pools_ok_def)
qed

lemma step_pools_ok:
  assumes "pools_ok st" and step: "health_step st st'" shows "pools_ok st'"
  using step
proof (cases rule: health_step.cases)
  case (issue scope oid hid t db')
  then show ?thesis
    using assms(1) advancing_write_ids [OF writes_advance(3) [OF issue(2)]]
    by (intro pools_ok_same_ids [OF assms(1)] used_grows [OF step]) simp
next
  case (reset pool_id owner member)
  then show ?thesis
    using advancing_write_ids [OF writes_advance(1), of "st_db st"]
    by (intro pools_ok_same_ids [OF assms(1)] used_grows [OF step]) simp
next
  case (configure pool_id owner revision change)
  then show ?thesis
    using advancing_write_ids [OF writes_advance(2), of "st_db st"]
    by (intro pools_ok_same_ids [OF assms(1)] used_grows [OF step]) simp
next
  case (remove pool_id owner)
  then show ?thesis using assms(1) by (auto simp: pools_ok_def remove_pool_def distinct_map_filter)
next
  case (count tiers rr)
  then show ?thesis by (intro pools_ok_same_ids [OF assms(1)] used_grows [OF step]) simp
qed (use assms(1) in \<open>auto simp: pools_ok_def\<close>)

lemma update_first_mem: "List.find p xs = Some x \<Longrightarrow> f x \<in> set (update_first p f xs)"
  by (induction xs) (auto split: if_splits)

lemma issue_bound:
  assumes "issue_observation_ticket db scope now oid hid = (Ok t, db')"
    and "distinct (map sp_id (db_pools db))" "p \<in> set (db_pools db')"
  shows "ticket_bound p t \<and> ticket_pool t \<in> sp_id ` set (db_pools db) \<and> ot_observation_id t = oid"
proof -
  let ?bump = "\<lambda>p. p\<lparr>sp_health_observation_sequence := sp_health_observation_sequence p + 1\<rparr>"
  from assms(1) obtain admits found mr where found: "List.find admits (db_pools db) = Some found"
      "scope_pool scope found" "member_reset_generation found (hs_user_service_id scope) = Some mr"
    and t: "ot_scope t = scope" "ot_observation_id t = oid"
      "ot_observation_sequence t = sp_health_observation_sequence found + 1"
      "ot_pool_reset_generation t = sp_health_reset_generation found" "ot_member_reset_generation t = mr"
    and pools: "db_pools db' = update_first admits ?bump (db_pools db)"
    by (rule issue_Ok)
  have mem: "?bump found \<in> set (db_pools db')" using update_first_mem [OF found(1)] pools by simp
  have "distinct (map sp_id (db_pools db'))"
    unfolding pools using assms(2) by (subst map_update_first) simp_all
  then have "p = ?bump found" if "sp_id p = sp_id found"
    using that mem assms(3) inj_onD [of sp_id "set (db_pools db')" p "?bump found"]
    by (simp add: distinct_map)
  moreover have "member_reset_generation (?bump found) i = member_reset_generation found i" for i
    by (simp add: member_reset_generation_def)
  ultimately have "ticket_bound p t"
    using found t by (auto simp: ticket_bound_def scope_pool_def)
  moreover have "ticket_pool t = sp_id found" using found(2) t(1) by (simp add: scope_pool_def)
  ultimately show ?thesis using t find_SomeD [OF found(1)] by simp
qed

lemma issue_nonempty:
  "issue_observation_ticket db scope now oid hid = (Ok t, db') \<Longrightarrow> \<exists>p. p \<in> set (db_pools db')"
  by (erule issue_Ok) (metis update_first_mem)

lemma step_tickets:
  assumes "health_step st st'" "t \<in> set (st_tickets st')"
  obtains (old) "t \<in> set (st_tickets st)"
    | (fresh) scope oid hid where
      "issue_observation_ticket (st_db st) scope (st_now st) oid hid = (Ok t, st_db st')"
      "oid \<in> set (st_used st')" "oid \<notin> set (st_used st)"
  using assms(1)
proof (cases rule: health_step.cases)
  case (issue scope oid hid t' db')
  then show ?thesis using assms(2) old fresh [of scope oid hid] by auto
qed (use assms(2) old in auto)

lemma step_tickets_ok:
  assumes ok: "pools_ok st" "tickets_ok st" and step: "health_step st st'" shows "tickets_ok st'"
  unfolding tickets_ok_def
proof
  fix t assume "t \<in> set (st_tickets st')"
  with step show "ot_observation_id t \<in> set (st_used st') \<and> ticket_pool t \<in> set (st_used st')
      \<and> (\<forall>p \<in> set (db_pools (st_db st')). ticket_bound p t)"
  proof (cases rule: step_tickets)
    case old
    have "ticket_bound p' t" if "p' \<in> set (db_pools (st_db st'))" for p'
    proof (cases "\<exists>p \<in> set (db_pools (st_db st)). pool_advances p p'")
      case True
      then show ?thesis using old ok(2) bound_advances unfolding tickets_ok_def by blast
    next
      case False
      then have "sp_id p' \<notin> set (st_used st)" using step_pools [OF step that] by blast
      then show ?thesis using old ok(2) by (auto simp: tickets_ok_def ticket_bound_def)
    qed
    then show ?thesis using old ok(2) used_grows [OF step] by (auto simp: tickets_ok_def)
  next
    case fresh
    obtain p where "p \<in> set (db_pools (st_db st'))" using issue_nonempty [OF fresh(1)] by blast
    then show ?thesis
      using issue_bound [OF fresh(1)] ok(1) fresh(2) used_grows [OF step] by (force simp: pools_ok_def)
  qed
qed

section \<open>Rows and observations\<close>

definition finished_row :: "observation_ticket \<Rightarrow> failure_report option \<Rightarrow> int \<Rightarrow> health_row \<Rightarrow> health_row" where
  "finished_row t failure now row =
     (case failure of Some f \<Rightarrow> after_failure t f now row | None \<Rightarrow> after_success t now row)"

lemma finished_row_keeps [simp]:
  "hr_id (finished_row t failure now row) = hr_id row"
  "row_key (finished_row t failure now row) = row_key row"
  by (auto simp: finished_row_def after_failure_def after_success_def row_key_def Let_def split: option.splits)

lemma touch_row_keeps [simp]:
  "hr_id (touch_row n now row) = hr_id row" "row_key (touch_row n now row) = row_key row"
  "hr_cooldown_until (touch_row n now row) = hr_cooldown_until row"
  "hr_observation_sequence (touch_row n now row) = hr_observation_sequence row"
  by (simp_all add: touch_row_def row_key_def)

lemma ticket_row_keys: "ticket_row t r \<Longrightarrow> ticket_row t r' \<Longrightarrow> hr_id r = hr_id r' \<and> row_key r = row_key r'"
  by (auto simp: ticket_row_def scope_filter_def row_key_def)

text \<open>The two things \<open>finish_observation\<close> can do: leave every health row, or change the ticket's.\<close>

lemma finish_cases:
  obtains (ignored) "db_health (snd (finish_observation db t failure now)) = db_health db"
      "fst (fst (finish_observation db t failure now)) = False"
  | (applied) current where "List.find (ticket_row t) (db_health db) = Some current"
      "fence_holds db t" "list_ex (claimable t now) (db_observations db)"
      "failure = None \<longrightarrow> hr_observation_sequence current \<le> ot_observation_sequence t"
      "db_health (snd (finish_observation db t failure now)) =
         update_first (ticket_row t) (\<lambda>_. finished_row t failure now current) (db_health db)"
      "fst (finish_observation db t failure now) = (True, Some (finished_row t failure now current))"
proof (cases "List.find (ticket_row t) (db_health db)")
  case None
  then show thesis by (intro ignored) (simp_all add: finish_observation_def)
next
  case (Some current)
  show thesis
  proof (cases "list_ex (claimable t now) (db_observations db) \<and> fence_holds db t
      \<and> (failure = None \<longrightarrow> hr_observation_sequence current \<le> ot_observation_sequence t)")
    case True
    with Some show thesis
      by (intro applied [of current])
        (auto simp: finish_observation_def finished_row_def Let_def split: option.splits)
  next
    case False
    with Some show thesis
      by (intro ignored) (auto simp: finish_observation_def Let_def split: option.splits)
  qed
qed

lemma finish_observations:
  "db_observations (snd (finish_observation db t failure now)) = db_observations db
   \<or> db_observations (snd (finish_observation db t failure now))
      = update_first (claimable t now) (complete_observation failure) (db_observations db)"
  by (auto simp: finish_observation_def Let_def split: option.splits)

lemma finish_row_ids:
  "map hr_id (db_health (snd (finish_observation db t failure now))) = map hr_id (db_health db)"
  "map row_key (db_health (snd (finish_observation db t failure now))) = map row_key (db_health db)"
proof -
  show "map hr_id (db_health (snd (finish_observation db t failure now))) = map hr_id (db_health db)"
    "map row_key (db_health (snd (finish_observation db t failure now))) = map row_key (db_health db)"
  proof (atomize (full), cases rule: finish_cases [of db t failure now])
    case (applied current)
    have "ticket_row t current" using find_SomeD [OF applied(1)] by simp
    then have "hr_id x = hr_id current \<and> row_key x = row_key current" if "ticket_row t x" for x
      using ticket_row_keys [OF that] by simp
    then show "map hr_id (db_health (snd (finish_observation db t failure now))) = map hr_id (db_health db)
        \<and> map row_key (db_health (snd (finish_observation db t failure now))) = map row_key (db_health db)"
      unfolding applied(5) by (auto intro!: map_update_first)
  qed simp
qed

text \<open>How a step changes one row.\<close>

definition cooldown_le :: "int option \<Rightarrow> int option \<Rightarrow> bool" where
  "cooldown_le c c' \<longleftrightarrow> (case c of None \<Rightarrow> True
     | Some u \<Rightarrow> (case c' of None \<Rightarrow> False | Some u' \<Rightarrow> u \<le> u'))"

definition cleared_by :: "observation_ticket \<Rightarrow> health_row \<Rightarrow> bool" where
  "cleared_by t r \<longleftrightarrow> hr_cooldown_until r = None \<and> hr_consecutive_failures r = 0
     \<and> hr_observation_id r = Some (ot_observation_id t)
     \<and> hr_observation_sequence r = ot_observation_sequence t \<and> hr_observation_outcome r = Some ''success''"

definition row_advances :: "health_state \<Rightarrow> health_row \<Rightarrow> health_row \<Rightarrow> bool" where
  "row_advances st r r' \<longleftrightarrow>
     row_key r' = row_key r \<and> hr_observation_sequence r \<le> hr_observation_sequence r'
     \<and> (cooldown_le (hr_cooldown_until r) (hr_cooldown_until r') \<or> (\<exists>t \<in> set (st_tickets st). cleared_by t r'))"

lemma cooldown_le_refl [simp]: "cooldown_le c c"
  by (simp add: cooldown_le_def split: option.split)

lemma row_advances_same:
  "row_key r' = row_key r \<Longrightarrow> hr_observation_sequence r' = hr_observation_sequence r
   \<Longrightarrow> hr_cooldown_until r' = hr_cooldown_until r \<Longrightarrow> row_advances st r r'"
  by (simp add: row_advances_def)

lemma later_cooldown_le:
  assumes "\<forall>u \<in> set_option c. bson_time u = u"
  shows "cooldown_le c (map_option bson_time (later_cooldown c d))"
    and "\<forall>u \<in> set_option d. cooldown_le (Some (bson_time u)) (map_option bson_time (later_cooldown c d))"
proof -
  have "u \<le> bson_time (max u v)" if "bson_time u = u" for u v
    using bson_time_mono [of u "max u v"] that by simp
  then show "cooldown_le c (map_option bson_time (later_cooldown c d))"
    using assms by (cases c; cases d) (simp_all add: cooldown_le_def later_cooldown_def)
  show "\<forall>u \<in> set_option d. cooldown_le (Some (bson_time u)) (map_option bson_time (later_cooldown c d))"
    by (cases c; cases d) (simp_all add: cooldown_le_def later_cooldown_def bson_time_mono)
qed

lemma after_failure_advances:
  assumes "\<forall>u \<in> set_option (hr_cooldown_until row). bson_time u = u"
  shows "row_advances st row (after_failure t f now row)"
    and "\<forall>u \<in> set_option (hr_cooldown_until (after_failure t f now row)). bson_time u = u"
proof -
  have cool: "hr_cooldown_until (after_failure t f now row) = map_option bson_time
      (later_cooldown (hr_cooldown_until row) (proposed_cooldown f (min (hr_consecutive_failures row + 1) u32_max) now))"
    by (simp add: after_failure_def Let_def)
  have "row_key (after_failure t f now row) = row_key row"
    using finished_row_keeps(2) [of t "Some f" now row] by (simp add: finished_row_def)
  moreover have "hr_observation_sequence row \<le> hr_observation_sequence (after_failure t f now row)"
    by (simp add: after_failure_def Let_def)
  ultimately show "row_advances st row (after_failure t f now row)"
    using later_cooldown_le(1) [OF assms] unfolding row_advances_def cool by blast
  show "\<forall>u \<in> set_option (hr_cooldown_until (after_failure t f now row)). bson_time u = u"
    unfolding cool by (auto simp: option.set_map)
qed

lemma issue_health:
  assumes "issue_observation_ticket db scope now oid hid = (Ok t, db')"
  shows "(case List.find (scope_filter scope (ot_pool_reset_generation t) (ot_member_reset_generation t)) (db_health db) of
      Some row \<Rightarrow> ot_health_instance_id t = hr_id row
        \<and> db_health db' = update_first (scope_filter scope (ot_pool_reset_generation t) (ot_member_reset_generation t))
            (touch_row (ot_observation_sequence t) now) (db_health db)
    | None \<Rightarrow> ot_health_instance_id t = hid
        \<and> db_health db' = db_health db @ [fresh_row hid scope (ot_pool_reset_generation t)
            (ot_member_reset_generation t) (ot_observation_sequence t) now])"
  using assms by (rule issue_Ok) (simp split: option.splits)

lemma step_rows_ok:
  assumes ok: "rows_ok st" and step: "health_step st st'" shows "rows_ok st'"
  using step
proof (cases rule: health_step.cases)
  case (issue scope oid hid t db')
  let ?p = "scope_filter scope (ot_pool_reset_generation t) (ot_member_reset_generation t)"
  note health = issue_health [OF issue(2)]
  show ?thesis
  proof (cases "List.find ?p (db_health (st_db st))")
    case None
    let ?new = "fresh_row hid scope (ot_pool_reset_generation t) (ot_member_reset_generation t)
        (ot_observation_sequence t) (st_now st)"
    have "row_key ?new \<noteq> row_key r" if "r \<in> set (db_health (st_db st))" for r
      using None that by (auto simp: find_None_iff scope_filter_def row_key_def fresh_row_def)
    moreover have "hr_id ?new = hid" "hr_cooldown_until ?new = None" by (simp_all add: fresh_row_def)
    moreover have "db_health db' = db_health (st_db st) @ [?new]" using health None by simp
    ultimately show ?thesis using ok issue(1,3,4) by (auto simp: rows_ok_def)
  next
    case (Some row)
    then have upd: "db_health db' = update_first ?p (touch_row (ot_observation_sequence t) (st_now st)) (db_health (st_db st))"
      using health by simp
    have ids: "map hr_id (db_health db') = map hr_id (db_health (st_db st))"
      "map row_key (db_health db') = map row_key (db_health (st_db st))"
      unfolding upd by (auto intro!: map_update_first)
    moreover have "hr_id ` set (db_health db') = hr_id ` set (db_health (st_db st))"
      using ids(1) by (metis set_map)
    moreover have "\<forall>r \<in> set (db_health db'). \<forall>u \<in> set_option (hr_cooldown_until r). bson_time u = u"
      using ok update_first_cases [where xs = "db_health (st_db st)"] unfolding upd rows_ok_def by fastforce
    ultimately show ?thesis using ok issue(1) by (auto simp: rows_ok_def)
  qed
next
  case (finish t failure)
  let ?db' = "snd (finish_observation (st_db st) t failure (st_now st))"
  have "hr_id ` set (db_health ?db') = hr_id ` set (db_health (st_db st))"
    using finish_row_ids(1) by (metis set_map)
  moreover have "\<forall>r \<in> set (db_health ?db'). \<forall>u \<in> set_option (hr_cooldown_until r). bson_time u = u"
  proof (cases rule: finish_cases [of "st_db st" t failure "st_now st"])
    case ignored
    then show ?thesis using ok by (simp add: rows_ok_def)
  next
    case (applied current)
    have "\<forall>u \<in> set_option (hr_cooldown_until current). bson_time u = u"
      using ok find_SomeD [OF applied(1)] unfolding rows_ok_def by blast
    then have "\<forall>u \<in> set_option (hr_cooldown_until (finished_row t failure (st_now st) current)). bson_time u = u"
      using after_failure_advances(2) by (cases failure) (simp_all add: finished_row_def after_success_def)
    then show ?thesis using ok unfolding applied(5) rows_ok_def by (auto dest: update_first_cases)
  qed
  ultimately show ?thesis using ok finish(1) finish_row_ids [of "st_db st" t failure "st_now st"]
    by (simp add: rows_ok_def)
next
  case (expire_health i)
  then show ?thesis using ok by (auto simp: rows_ok_def distinct_map_filter)
qed (use ok in \<open>auto simp: rows_ok_def\<close>)

lemma step_observations_ok:
  assumes ok: "observations_ok st" and step: "health_step st st'" shows "observations_ok st'"
  using step
proof (cases rule: health_step.cases)
  case (issue scope oid hid t db')
  from issue(2) obtain ob where "db_observations db' = db_observations (st_db st) @ [ob]" "ho_id ob = oid"
    by (rule issue_Ok) blast
  then show ?thesis using ok issue(1,3) by (auto simp: observations_ok_def)
next
  case (finish t failure)
  let ?db' = "snd (finish_observation (st_db st) t failure (st_now st))"
  have ids: "map ho_id (db_observations ?db') = map ho_id (db_observations (st_db st))"
    using finish_observations [of "st_db st" t failure "st_now st"]
    by (auto simp: complete_observation_def intro!: map_update_first)
  then have "ho_id ` set (db_observations ?db') = ho_id ` set (db_observations (st_db st))"
    by (metis set_map)
  with ids show ?thesis using ok finish(1) by (simp add: observations_ok_def)
next
  case (expire_observation i)
  then show ?thesis using ok by (auto simp: observations_ok_def distinct_map_filter)
qed (use ok in \<open>auto simp: observations_ok_def\<close>)

lemma step_state_ok: "state_ok st \<Longrightarrow> health_step st st' \<Longrightarrow> state_ok st'"
  unfolding state_ok_def using step_pools_ok step_tickets_ok step_rows_ok step_observations_ok by blast

lemma reachable_ok: "reachable st \<Longrightarrow> state_ok st"
proof (induction rule: reachable.induct)
  case (start st)
  then show ?case
    by (simp add: initial_state_def state_ok_def pools_ok_def tickets_ok_def rows_ok_def observations_ok_def)
qed (rule step_state_ok)

section \<open>Facts that stay\<close>

text \<open>A property that one step keeps, under an invariant that one step keeps, holds ever after.\<close>

locale stays =
  fixes step :: "'s \<Rightarrow> 's \<Rightarrow> bool" and inv :: "'s \<Rightarrow> bool" and fact :: "'s \<Rightarrow> bool"
  assumes inv_step: "inv s \<Longrightarrow> step s s' \<Longrightarrow> inv s'"
    and fact_step: "inv s \<Longrightarrow> fact s \<Longrightarrow> step s s' \<Longrightarrow> fact s'"
begin

lemma ever_after:
  assumes "step\<^sup>*\<^sup>* s s'" "inv s" "fact s"
  shows "inv s' \<and> fact s'"
  using assms by (induction rule: rtranclp_induct) (auto intro: inv_step fact_step)

end

text \<open>A ticket is superseded where its pool has moved past it, or is gone.\<close>

definition superseded :: "service_pool list \<Rightarrow> observation_ticket \<Rightarrow> bool" where
  "superseded ps t \<longleftrightarrow> (\<forall>p \<in> set ps. sp_id p = ticket_pool t \<longrightarrow>
     ticket_revision t < sp_config_revision p
     \<or> ot_pool_reset_generation t < sp_health_reset_generation p
     \<or> (ticket_revision t = sp_config_revision p
        \<and> (\<exists>g. member_reset_generation p (ticket_member t) = Some g \<and> ot_member_reset_generation t < g)))"

lemma superseded_fence: "superseded (db_pools db) t \<Longrightarrow> \<not> fence_holds db t"
  by (auto simp: superseded_def fence_holds_def current_pool_def scope_pool_def dest!: find_SomeD
      split: option.splits)

lemma superseded_ignored:
  assumes "superseded (db_pools db) t"
  shows "db_health (snd (finish_observation db t failure now)) = db_health db"
    and "fst (fst (finish_observation db t failure now)) = False"
  using superseded_fence [OF assms]
  by (cases rule: finish_cases [of db t failure now]; simp)+

lemma superseded_advances:
  assumes "superseded ps t" "p \<in> set ps" "pool_advances p p'" "sp_id p' = ticket_pool t"
  shows "ticket_revision t < sp_config_revision p'
    \<or> ot_pool_reset_generation t < sp_health_reset_generation p'
    \<or> (ticket_revision t = sp_config_revision p'
       \<and> (\<exists>g. member_reset_generation p' (ticket_member t) = Some g \<and> ot_member_reset_generation t < g))"
proof -
  have id: "sp_id p = ticket_pool t" using assms(3,4) by (simp add: pool_advances_def)
  consider "ticket_revision t < sp_config_revision p" | "ot_pool_reset_generation t < sp_health_reset_generation p"
    | g where "ticket_revision t = sp_config_revision p" "member_reset_generation p (ticket_member t) = Some g"
      "ot_member_reset_generation t < g"
    using assms(1,2) id unfolding superseded_def by blast
  then show ?thesis
  proof cases
    case 3
    show ?thesis
    proof (cases "sp_config_revision p' = sp_config_revision p")
      case True
      then obtain g' where "member_reset_generation p' (ticket_member t) = Some g'" "g \<le> g'"
        using assms(3) 3(2) unfolding pool_advances_def by blast
      with 3 True show ?thesis by auto
    next
      case False
      then show ?thesis using assms(3) 3(1) by (simp add: pool_advances_def)
    qed
  qed (use assms(3) in \<open>auto simp: pool_advances_def\<close>)
qed

lemma superseded_step:
  assumes "ticket_pool t \<in> set (st_used st)" "superseded (db_pools (st_db st)) t" "health_step st st'"
  shows "superseded (db_pools (st_db st')) t"
  unfolding superseded_def
proof (intro ballI impI)
  fix p' assume p': "p' \<in> set (db_pools (st_db st'))" "sp_id p' = ticket_pool t"
  then obtain p where "p \<in> set (db_pools (st_db st))" "pool_advances p p'"
    using step_pools [OF assms(3) p'(1)] assms(1) by auto
  then show "ticket_revision t < sp_config_revision p'
      \<or> ot_pool_reset_generation t < sp_health_reset_generation p'
      \<or> (ticket_revision t = sp_config_revision p'
         \<and> (\<exists>g. member_reset_generation p' (ticket_member t) = Some g \<and> ot_member_reset_generation t < g))"
    using superseded_advances [OF assms(2)] p'(2) by blast
qed

interpretation superseded: stays health_step "\<lambda>st. ticket_pool t \<in> set (st_used st)"
    "\<lambda>st. superseded (db_pools (st_db st)) t" for t
  by unfold_locales (use used_grows superseded_step in blast)+

lemma reset_supersedes:
  assumes ok: "state_ok st" and t: "t \<in> set (st_tickets st)"
    and reset: "reset_pool (st_db st) (ticket_pool t) owner member = (Ok n, db')"
    and member: "member = None \<or> member = Some (ticket_member t)"
  shows "superseded (db_pools db') t"
  unfolding superseded_def
proof (intro ballI impI)
  fix p' assume p': "p' \<in> set (db_pools db')" "sp_id p' = ticket_pool t"
  have dist: "distinct (map sp_id (db_pools (st_db st)))" using ok by (simp add: state_ok_def pools_ok_def)
  have bound: "ticket_bound p t" if "p \<in> set (db_pools (st_db st))" for p
    using ok t that by (simp add: state_ok_def tickets_ok_def)
  let ?has = "\<lambda>p. owned_pool (ticket_pool t) owner p
      \<and> (case member of None \<Rightarrow> True | Some m \<Rightarrow> list_ex (\<lambda>x. pm_user_service_id x = m) (sp_members p))"
  let ?f = "\<lambda>p. case member of None \<Rightarrow> p\<lparr>sp_health_reset_generation := sp_health_reset_generation p + 1\<rparr>
      | Some m \<Rightarrow> p\<lparr>sp_members := map (bump_member m) (sp_members p)\<rparr>"
  have upd: "db_pools db' = update_first ?has ?f (db_pools (st_db st))" and ex: "list_ex ?has (db_pools (st_db st))"
    using reset by (auto simp: reset_pool_def Let_def split: option.splits if_splits)
  then obtain q where q: "List.find ?has (db_pools (st_db st)) = Some q"
    using find_None_iff [of ?has] by (auto simp: list_ex_iff)
  have qm: "q \<in> set (db_pools (st_db st))" "sp_id q = ticket_pool t"
    using find_SomeD [OF q] by (auto simp: owned_pool_def)
  have "?f q \<in> set (db_pools db')" unfolding upd by (rule update_first_mem [OF q])
  moreover have "distinct (map sp_id (db_pools db'))"
    unfolding upd using dist by (subst map_update_first) (auto split: option.splits)
  moreover have "sp_id (?f q) = sp_id p'" using qm p'(2) by (auto split: option.splits)
  ultimately have "p' = ?f q" using p'(1) inj_onD [of sp_id "set (db_pools db')" p' "?f q"]
    by (simp add: distinct_map)
  then show "ticket_revision t < sp_config_revision p'
      \<or> ot_pool_reset_generation t < sp_health_reset_generation p'
      \<or> (ticket_revision t = sp_config_revision p'
         \<and> (\<exists>g. member_reset_generation p' (ticket_member t) = Some g \<and> ot_member_reset_generation t < g))"
    using bound [OF qm(1)] qm(2) member
    by (auto simp: ticket_bound_def member_generation_bump)
qed

text \<open>
  C3. A reset cannot be undone by what was in flight. In every history, once a pool (or the
  ticket's member in it) has been reset, no outcome of a ticket issued before the reset, success
  or failure, whenever it arrives and whatever resets, configuration writes, expiry and other
  outcomes happen in between, changes any health row or is reported as applied.
\<close>

theorem reset_isolates_tickets:
  assumes "reachable st" "t \<in> set (st_tickets st)"
    and "reset_pool (st_db st) (ticket_pool t) owner member = (Ok n, db')"
    and "member = None \<or> member = Some (ticket_member t)"
    and "health_step\<^sup>*\<^sup>* (st\<lparr>st_db := db'\<rparr>) st'"
  shows "db_health (snd (finish_observation (st_db st') t failure now)) = db_health (st_db st')
    \<and> fst (fst (finish_observation (st_db st') t failure now)) = False"
proof -
  have ok: "state_ok st" by (rule reachable_ok [OF assms(1)])
  then have "ticket_pool t \<in> set (st_used (st\<lparr>st_db := db'\<rparr>))"
    using assms(2) by (simp add: state_ok_def tickets_ok_def)
  moreover have "superseded (db_pools (st_db (st\<lparr>st_db := db'\<rparr>))) t"
    using reset_supersedes [OF ok assms(2,3,4)] by simp
  ultimately have "superseded (db_pools (st_db st')) t"
    using superseded.ever_after [OF assms(5)] by blast
  then show ?thesis using superseded_ignored by blast
qed

section \<open>A ticket counts once\<close>

definition spent :: "health_state \<Rightarrow> observation_ticket \<Rightarrow> bool" where
  "spent st t \<longleftrightarrow> (\<forall>ob \<in> set (db_observations (st_db st)). ho_id ob = ot_observation_id t \<longrightarrow> ho_completed ob)"

lemma spent_ignored:
  assumes "spent st t"
  shows "snd (finish_observation (st_db st) t failure now) = st_db st"
    and "fst (fst (finish_observation (st_db st) t failure now)) = False"
proof -
  have "\<not> list_ex (claimable t now) (db_observations (st_db st))"
    using assms by (auto simp: spent_def claimable_def list_ex_iff)
  then show "snd (finish_observation (st_db st) t failure now) = st_db st"
    "fst (fst (finish_observation (st_db st) t failure now)) = False"
    by (simp_all add: finish_observation_def split: option.split)
qed

lemma complete_keeps: "ho_id (complete_observation failure ob) = ho_id ob" "ho_completed (complete_observation failure ob)"
  by (simp_all add: complete_observation_def)

lemma spent_step:
  assumes "ot_observation_id t \<in> set (st_used st)" "spent st t" "health_step st st'"
  shows "spent st' t"
  using assms(3)
proof (cases rule: health_step.cases)
  case (issue scope oid hid t' db')
  from issue(2) obtain ob where "db_observations db' = db_observations (st_db st) @ [ob]" "ho_id ob = oid"
    by (rule issue_Ok) blast
  then show ?thesis using assms(1,2) issue(1,3) by (auto simp: spent_def)
next
  case (finish t' failure)
  show ?thesis
    using assms(2) finish(1) finish_observations [of "st_db st" t' failure "st_now st"] complete_keeps
    by (auto simp: spent_def dest!: update_first_cases)
next
  case (expire_observation i)
  then show ?thesis using assms(2) by (auto simp: spent_def)
qed (use assms(2) in \<open>auto simp: spent_def\<close>)

interpretation spent: stays health_step "\<lambda>st. ot_observation_id t \<in> set (st_used st)" "\<lambda>st. spent st t" for t
  by unfold_locales (use used_grows spent_step in blast)+

lemma find_list_ex: "list_ex p xs \<Longrightarrow> \<exists>x. List.find p xs = Some x"
  by (induction xs) auto

lemma update_first_only:
  assumes "distinct (map g xs)" "List.find p xs = Some x" "g (f x) = g x" "y \<in> set (update_first p f xs)" "g y = g x"
  shows "y = f x"
  using assms
proof (induction xs)
  case (Cons z xs)
  show ?case
  proof (cases "p z")
    case True
    then show ?thesis using Cons.prems by (auto simp: image_iff)
  next
    case False
    then have fx: "List.find p xs = Some x" "y = z \<or> y \<in> set (update_first p f xs)" using Cons.prems by auto
    have "x \<in> set xs" using find_SomeD [OF fx(1)] by simp
    then have "g z \<noteq> g x" using Cons.prems(1) by (auto simp: image_iff)
    with fx Cons show ?thesis by auto
  qed
qed simp

lemma finish_spends:
  assumes "state_ok st" "fst (fst (finish_observation (st_db st) t failure now)) = True"
  shows "spent (st\<lparr>st_db := snd (finish_observation (st_db st) t failure now)\<rparr>) t"
proof (cases rule: finish_cases [of "st_db st" t failure now])
  case ignored
  then show ?thesis using assms(2) by simp
next
  case (applied current)
  obtain ob where ob: "List.find (claimable t now) (db_observations (st_db st)) = Some ob"
    using find_list_ex [OF applied(3)] by blast
  have obs: "db_observations (snd (finish_observation (st_db st) t failure now))
      = update_first (claimable t now) (complete_observation failure) (db_observations (st_db st))"
    using applied(1-4) by (auto simp: finish_observation_def Let_def split: option.splits)
  have "distinct (map ho_id (db_observations (st_db st)))"
    using assms(1) by (simp add: state_ok_def observations_ok_def)
  moreover have "ho_id ob = ot_observation_id t" using find_SomeD [OF ob] by (simp add: claimable_def)
  ultimately have "y = complete_observation failure ob"
    if "y \<in> set (update_first (claimable t now) (complete_observation failure) (db_observations (st_db st)))"
      "ho_id y = ot_observation_id t" for y
    using update_first_only [OF _ ob, of ho_id "complete_observation failure" y] that complete_keeps(1) by simp
  then show ?thesis using complete_keeps(2) by (auto simp: spent_def obs)
qed

text \<open>
  C33. A ticket counts once. In every history, once an outcome of a ticket has been applied, no
  further outcome of that ticket, however late, changes anything in the store or is reported as
  applied, even after the observation row or the health row has expired.
\<close>

theorem ticket_counts_once:
  assumes "reachable st" "t \<in> set (st_tickets st)"
    and "finish_observation (st_db st) t failure (st_now st) = ((True, row), db')"
    and "health_step\<^sup>*\<^sup>* (st\<lparr>st_db := db'\<rparr>) st'"
  shows "finish_observation (st_db st') t failure' now' = ((False, snd (fst (finish_observation (st_db st') t failure' now'))), st_db st')"
proof -
  have ok: "state_ok st" by (rule reachable_ok [OF assms(1)])
  then have "ot_observation_id t \<in> set (st_used (st\<lparr>st_db := db'\<rparr>))"
    using assms(2) by (simp add: state_ok_def tickets_ok_def)
  moreover have "spent (st\<lparr>st_db := db'\<rparr>) t"
    using finish_spends [OF ok, of t failure "st_now st"] assms(3) by simp
  ultimately have "spent st' t" using spent.ever_after [OF assms(4)] by blast
  from spent_ignored [OF this, of failure' now'] show ?thesis by (metis prod.collapse)
qed

section \<open>Rows never go back\<close>

lemma same_row:
  assumes "distinct (map hr_id rs)" "r \<in> set rs" "r' \<in> set rs" "hr_id r' = hr_id r"
  shows "r' = r"
  using assms by (auto simp: distinct_map dest: inj_onD)

lemma same_row_updated:
  assumes "distinct (map hr_id rs)" "r \<in> set rs" "r' \<in> set (update_first p f rs)" "hr_id r' = hr_id r"
    and "\<And>x. x \<in> set rs \<Longrightarrow> p x \<Longrightarrow> hr_id (f x) = hr_id x"
  shows "r' = r \<or> p r \<and> r' = f r"
proof -
  consider "r' \<in> set rs" | x where "x \<in> set rs" "p x" "r' = f x"
    using update_first_cases [OF assms(3)] by blast
  then show ?thesis
  proof cases
    case 1
    then show ?thesis using same_row [OF assms(1,2) 1 assms(4)] by simp
  next
    case 2
    then have "x = r" using same_row [OF assms(1,2) 2(1)] assms(4,5) by simp
    with 2 show ?thesis by simp
  qed
qed

lemma finished_row_advances:
  assumes "t \<in> set (st_tickets st)" "\<forall>u \<in> set_option (hr_cooldown_until row). bson_time u = u"
    and "failure = None \<longrightarrow> hr_observation_sequence row \<le> ot_observation_sequence t"
  shows "row_advances st row (finished_row t failure now row)"
proof (cases failure)
  case None
  have "cleared_by t (after_success t now row)" by (simp add: cleared_by_def after_success_def)
  then have "\<exists>u \<in> set (st_tickets st). cleared_by u (after_success t now row)" using assms(1) by blast
  moreover have "row_key (after_success t now row) = row_key row"
    "hr_observation_sequence row \<le> hr_observation_sequence (after_success t now row)"
    using assms(3) None by (simp_all add: after_success_def row_key_def)
  ultimately show ?thesis using None unfolding finished_row_def row_advances_def by auto
next
  case (Some f)
  then show ?thesis using after_failure_advances(1) [OF assms(2)] by (simp add: finished_row_def)
qed

lemma step_rows:
  assumes ok: "state_ok st" and step: "health_step st st'"
    and r: "r \<in> set (db_health (st_db st))" and r': "r' \<in> set (db_health (st_db st'))" "hr_id r' = hr_id r"
  shows "row_advances st r r'"
proof -
  have dist: "distinct (map hr_id (db_health (st_db st)))" and used: "hr_id r \<in> set (st_used st)"
    and cool: "\<forall>u \<in> set_option (hr_cooldown_until r). bson_time u = u"
    using ok r unfolding state_ok_def rows_ok_def by blast+
  have same: "row_advances st r r'" if "r' \<in> set (db_health (st_db st))"
    using same_row [OF dist r that r'(2)] by (simp add: row_advances_same)
  from step show ?thesis
  proof (cases rule: health_step.cases)
    case (issue scope oid hid t db')
    let ?p = "scope_filter scope (ot_pool_reset_generation t) (ot_member_reset_generation t)"
    show ?thesis
    proof (cases "List.find ?p (db_health (st_db st))")
      case None
      then have "r' \<in> set (db_health (st_db st)) \<or> hr_id r' = hid"
        using issue_health [OF issue(2)] issue(1) r'(1) by (auto simp: fresh_row_def)
      then show ?thesis using same used issue(4) r'(2) by auto
    next
      case (Some row)
      then have "r' \<in> set (update_first ?p (touch_row (ot_observation_sequence t) (st_now st)) (db_health (st_db st)))"
        using issue_health [OF issue(2)] issue(1) r'(1) by simp
      from same_row_updated [OF dist r this r'(2)]
      have "r' = r \<or> r' = touch_row (ot_observation_sequence t) (st_now st) r" by auto
      then show ?thesis by (auto intro!: row_advances_same)
    qed
  next
    case (finish t failure)
    show ?thesis
    proof (cases rule: finish_cases [of "st_db st" t failure "st_now st"])
      case ignored
      then show ?thesis using same finish(1) r'(1) by simp
    next
      case (applied current)
      have cur: "current \<in> set (db_health (st_db st))" "ticket_row t current" using find_SomeD [OF applied(1)] by auto
      have "r' \<in> set (update_first (ticket_row t) (\<lambda>_. finished_row t failure (st_now st) current) (db_health (st_db st)))"
        using applied(5) finish(1) r'(1) by simp
      from same_row_updated [OF dist r this r'(2)] ticket_row_keys [OF cur(2)]
      have "r' = r \<or> ticket_row t r \<and> r' = finished_row t failure (st_now st) current" by auto
      moreover have "current = r" if "ticket_row t r"
        using same_row [OF dist r cur(1)] ticket_row_keys [OF cur(2) that] by simp
      ultimately show ?thesis
        using finished_row_advances [OF finish(2) cool] applied(4) by (auto intro: row_advances_same)
    qed
  next
    case (expire_health i)
    then show ?thesis using same r'(1) by simp
  qed (use same r'(1) in auto)
qed

text \<open>
  Health never goes back. From every reachable state, whatever step is taken next, a health
  row that survives it keeps its scope and generations, and its observation sequence does not
  shrink. Its cooldown never ends earlier than before, unless the step is the success of a ticket
  that is at least as recent as every outcome the row has recorded, which clears it.
\<close>

theorem health_never_regresses:
  assumes "reachable st" "health_step st st'"
    and "r \<in> set (db_health (st_db st))" "r' \<in> set (db_health (st_db st'))" "hr_id r' = hr_id r"
  shows "row_key r' = row_key r \<and> hr_observation_sequence r \<le> hr_observation_sequence r'
    \<and> (cooldown_le (hr_cooldown_until r) (hr_cooldown_until r')
        \<or> (\<exists>t \<in> set (st_tickets st). cleared_by t r' \<and> hr_observation_sequence r \<le> ot_observation_sequence t))"
proof -
  have adv: "row_advances st r r'" by (rule step_rows [OF reachable_ok [OF assms(1)] assms(2-5)])
  then show ?thesis unfolding row_advances_def cleared_by_def by metis
qed

text \<open>
  One row per scope. In every reachable state no two health rows have the same scope and
  generations, so what the planner loads for a scope is the only current row; pools, rows and
  observations have distinct ids, and no ticket is ahead of its pool's revision, generations or
  observation sequence.
\<close>

theorem histories_are_consistent:
  assumes "reachable st"
  shows "distinct (map row_key (db_health (st_db st))) \<and> distinct (map hr_id (db_health (st_db st)))
    \<and> distinct (map sp_id (db_pools (st_db st))) \<and> distinct (map ho_id (db_observations (st_db st)))
    \<and> (\<forall>t \<in> set (st_tickets st). \<forall>p \<in> set (db_pools (st_db st)). ticket_bound p t)
    \<and> (load_for_scope (st_db st) scope = Some row \<longrightarrow>
        row \<in> set (db_health (st_db st)) \<and> hr_scope row = scope
        \<and> {r \<in> set (db_health (st_db st)). row_key r = row_key row} = {row})"
proof -
  have ok: "pools_ok st" "tickets_ok st" "rows_ok st" "observations_ok st"
    using reachable_ok [OF assms] by (simp_all add: state_ok_def)
  then have key: "distinct (map row_key (db_health (st_db st)))" by (simp add: rows_ok_def)
  have "row \<in> set (db_health (st_db st)) \<and> hr_scope row = scope
      \<and> {r \<in> set (db_health (st_db st)). row_key r = row_key row} = {row}"
    if "load_for_scope (st_db st) scope = Some row"
  proof -
    from that have "row \<in> set (db_health (st_db st))" "hr_scope row = scope"
      by (auto simp: load_for_scope_def scope_filter_def dest!: find_SomeD split: option.splits)
    with key show ?thesis by (auto simp: distinct_map dest: inj_onD)
  qed
  with ok key show ?thesis by (simp add: pools_ok_def tickets_ok_def rows_ok_def observations_ok_def)
qed

section \<open>A fresh ticket takes effect\<close>

lemma load_unique:
  assumes "distinct (map sp_id (db_pools db))" "distinct (map row_key (db_health db))"
    and "p \<in> set (db_pools db)" "scope_pool scope p"
    and "member_reset_generation p (hs_user_service_id scope) = Some g"
    and "r \<in> set (db_health db)" "row_key r = (scope, sp_health_reset_generation p, g)"
  shows "current_pool db scope = Some p \<and> load_for_scope db scope = Some r"
proof -
  have "current_pool db scope = Some p" unfolding current_pool_def
    using assms(1,3,4) by (rule find_distinct) (use assms(4) in \<open>auto simp: scope_pool_def\<close>)
  moreover have "List.find (scope_filter scope (sp_health_reset_generation p) g) (db_health db) = Some r"
    using assms(2,6) by (rule find_distinct) (use assms(7) in \<open>auto simp: scope_filter_def row_key_def\<close>)
  ultimately show ?thesis using assms(5) by (simp add: load_for_scope_def current_fences_def)
qed

lemma issue_row:
  assumes "issue_observation_ticket db scope now oid hid = (Ok t, db')"
  shows "\<exists>r \<in> set (db_health db'). ticket_row t r \<and> row_key r = (scope, ot_pool_reset_generation t, ot_member_reset_generation t)"
proof -
  have scope: "ot_scope t = scope" using assms by (rule issue_Ok)
  let ?p = "scope_filter scope (ot_pool_reset_generation t) (ot_member_reset_generation t)"
  show ?thesis
  proof (cases "List.find ?p (db_health db)")
    case None
    then show ?thesis using issue_health [OF assms] scope
      by (auto simp: ticket_row_def scope_filter_def row_key_def fresh_row_def)
  next
    case (Some row)
    have "?p row" using find_SomeD [OF Some] by simp
    then have "ticket_row t (touch_row (ot_observation_sequence t) now row)"
      "row_key (touch_row (ot_observation_sequence t) now row) = (scope, ot_pool_reset_generation t, ot_member_reset_generation t)"
      using issue_health [OF assms] Some scope
      by (auto simp: ticket_row_def scope_filter_def touch_row_def row_key_def)
    then show ?thesis using update_first_mem [OF Some] issue_health [OF assms] Some by auto
  qed
qed

text \<open>
  A failure that was just observed is what the planner sees next. From every reachable state,
  a ticket that is issued and whose failure arrives before the observation expires is applied;
  the row loaded for its scope then counts one failure more (at most the largest counter), and
  once the failures reach the policy's threshold its cooldown lasts at least until the policy's
  backoff from now, whatever it was before.
\<close>

theorem fresh_failure_takes_effect:
  assumes "reachable st"
    and issue: "issue_observation_ticket (st_db st) scope (st_now st) oid hid = (Ok t, db')"
    and fresh: "oid \<notin> set (st_used st)" "hid \<notin> set (st_used st)" "oid \<noteq> hid"
    and now: "bson_time now < bson_time (st_now st + HEALTH_RETENTION)"
  shows "\<exists>row row' db''. load_for_scope db' scope = Some row
    \<and> finish_observation db' t (Some f) now = ((True, Some row'), db'')
    \<and> load_for_scope db'' scope = Some row'
    \<and> hr_consecutive_failures row' = min (hr_consecutive_failures row + 1) u32_max
    \<and> (hr_consecutive_failures row' \<ge> max (cp_failures_to_open (fr_policy f)) 1 \<longrightarrow>
        (\<forall>u. checked_add_signed now (duration_from_std (cooldown_for (fr_policy f)
            (hr_consecutive_failures row') (fr_retry_after f))) = Some u \<longrightarrow>
          cooldown_le (Some (bson_time u)) (hr_cooldown_until row')))"
proof -
  let ?st' = "st\<lparr>st_db := db', st_tickets := t # st_tickets st, st_used := oid # hid # st_used st\<rparr>"
  have "health_step st ?st'" by (rule health_step.issue [OF issue fresh])
  then have ok': "state_ok ?st'" using reachable_ok [OF assms(1)] step_state_ok by blast
  then have dist: "distinct (map sp_id (db_pools db'))" "distinct (map row_key (db_health db'))"
      "distinct (map hr_id (db_health db'))"
    and cool: "\<forall>r \<in> set (db_health db'). \<forall>u \<in> set_option (hr_cooldown_until r). bson_time u = u"
    by (simp_all add: state_ok_def pools_ok_def rows_ok_def)
  from issue obtain admits found mr where found: "List.find admits (db_pools (st_db st)) = Some found"
      "scope_pool scope found" "member_reset_generation found (hs_user_service_id scope) = Some mr"
    and t: "ot_scope t = scope" "ot_pool_reset_generation t = sp_health_reset_generation found"
      "ot_member_reset_generation t = mr" "ot_observation_id t = oid"
    and pools: "db_pools db' = update_first admits
       (\<lambda>p. p\<lparr>sp_health_observation_sequence := sp_health_observation_sequence p + 1\<rparr>) (db_pools (st_db st))"
    and ob: "\<exists>ob. db_observations db' = db_observations (st_db st) @ [ob] \<and> ho_id ob = oid \<and> \<not> ho_completed ob
       \<and> ho_health_instance_id ob = ot_health_instance_id t
       \<and> ho_expires_at ob = bson_time (st_now st + HEALTH_RETENTION)"
    by (rule issue_Ok)
  let ?p = "found\<lparr>sp_health_observation_sequence := sp_health_observation_sequence found + 1\<rparr>"
  have p: "?p \<in> set (db_pools db')" "scope_pool scope ?p"
    "member_reset_generation ?p (hs_user_service_id scope) = Some mr"
    using update_first_mem [OF found(1)] found(2,3)
    by (simp_all add: pools scope_pool_def member_reset_generation_def)
  obtain row where row: "row \<in> set (db_health db')" "ticket_row t row"
    "row_key row = (scope, sp_health_reset_generation ?p, mr)"
    using issue_row [OF issue] t by auto
  have load: "current_pool db' scope = Some ?p" "load_for_scope db' scope = Some row"
    using load_unique [OF dist(1,2) p row(1,3)] by simp_all
  have find: "List.find (ticket_row t) (db_health db') = Some row"
    using dist(3) row(1,2) by (rule find_distinct) (use ticket_row_keys row(2) in blast)
  have claim: "list_ex (claimable t now) (db_observations db')"
    using ob now t by (auto simp: claimable_def)
  have fence: "fence_holds db' t" using load(1) p(3) t by (simp add: fence_holds_def)
  let ?row' = "after_failure t f now row" and ?db'' = "snd (finish_observation db' t (Some f) now)"
  have fin: "fst (finish_observation db' t (Some f) now) = (True, Some ?row')"
    and health: "db_health ?db'' = update_first (ticket_row t) (\<lambda>_. ?row') (db_health db')"
    using find claim fence by (simp_all add: finish_observation_def)
  have "row_key ?row' = row_key row"
    using finished_row_keeps(2) [of t "Some f" now row] by (simp add: finished_row_def)
  moreover have "distinct (map row_key (db_health ?db''))" using dist(2) finish_row_ids(2) by simp
  moreover have "?row' \<in> set (db_health ?db'')"
    unfolding health using update_first_mem [OF find, of "\<lambda>_. ?row'"] by simp
  ultimately have "load_for_scope ?db'' scope = Some ?row'"
    using load_unique [of ?db'' ?p scope mr ?row'] dist(1) p row(3) by simp
  moreover have count: "hr_consecutive_failures ?row' = min (hr_consecutive_failures row + 1) u32_max"
    by (simp add: after_failure_def Let_def)
  moreover have "cooldown_le (Some (bson_time u)) (hr_cooldown_until ?row')"
    if "hr_consecutive_failures ?row' \<ge> max (cp_failures_to_open (fr_policy f)) 1"
      "checked_add_signed now (duration_from_std (cooldown_for (fr_policy f)
        (hr_consecutive_failures ?row') (fr_retry_after f))) = Some u" for u
  proof -
    have "proposed_cooldown f (min (hr_consecutive_failures row + 1) u32_max) now = Some u"
      using that unfolding count by (simp add: proposed_cooldown_def)
    moreover have "hr_cooldown_until ?row' = map_option bson_time (later_cooldown (hr_cooldown_until row)
        (proposed_cooldown f (min (hr_consecutive_failures row + 1) u32_max) now))"
      by (simp add: after_failure_def Let_def)
    ultimately show ?thesis using later_cooldown_le(2) [of "hr_cooldown_until row"] cool row(1) by auto
  qed
  ultimately show ?thesis using load(2) fin by (metis prod.collapse)
qed

section \<open>An instance\<close>

definition demo_scope :: health_scope where
  "demo_scope = \<lparr>hs_pool_id = ''p'', hs_user_service_id = ''a'', hs_owner_id = ''u'',
     hs_pool_config_revision = 0, hs_credential_identity = ''k'', hs_credential_epoch = 1,
     hs_destination_fingerprint = ''d'', hs_config_fingerprint = ''c'', hs_model = None\<rparr>"

definition demo_new_pool :: service_pool where
  "demo_new_pool = demo_pool\<lparr>sp_members := [demo_member ''a'' 1 0 None, demo_member ''b'' 1 1 None],
     sp_config_revision := 0\<rparr>"

definition demo_start :: health_state where
  "demo_start = \<lparr>st_db = \<lparr>db_pools = [], db_health = [], db_observations = [],
     db_fence_closed = (\<lambda>_. False), db_owner_active = (\<lambda>_. True)\<rparr>,
     st_now = 1000000000, st_tickets = [], st_used = []\<rparr>"

definition demo_created :: health_state where
  "demo_created = demo_start\<lparr>st_db := (st_db demo_start)\<lparr>db_pools := [demo_new_pool]\<rparr>, st_used := [''p'']\<rparr>"

definition demo_issue :: "(app_error + observation_ticket) \<times> pool_db" where
  "demo_issue = issue_observation_ticket (st_db demo_created) demo_scope (st_now demo_created) ''o'' ''h''"

definition demo_ticket :: observation_ticket where
  "demo_ticket = projr (fst demo_issue)"

definition demo_issued :: health_state where
  "demo_issued = demo_created\<lparr>st_db := snd demo_issue, st_tickets := [demo_ticket], st_used := [''o'', ''h'', ''p'']\<rparr>"

definition demo_failure :: failure_report where
  "demo_failure = \<lparr>fr_policy = default_cooldown, fr_class = ''ambiguous'', fr_status = Some 503, fr_retry_after = None\<rparr>"

lemma demo_created_reachable: "reachable demo_created"
proof -
  have "reachable demo_start" by (rule start) (simp add: initial_state_def demo_start_def)
  moreover have "new_pool demo_new_pool" "sp_id demo_new_pool \<notin> set (st_used demo_start)" "sp_id demo_new_pool = ''p''"
    by code_simp+
  ultimately show ?thesis
    using step [OF _ create [of demo_new_pool demo_start]] by (simp add: demo_created_def demo_start_def)
qed

lemma demo_issue_ok: "issue_observation_ticket (st_db demo_created) demo_scope (st_now demo_created) ''o'' ''h''
    = (Ok demo_ticket, snd demo_issue)"
proof -
  have "is_ok (fst demo_issue)" by code_simp
  then have "demo_issue = (Ok demo_ticket, snd demo_issue)"
    by (auto simp: is_ok_iff demo_ticket_def prod_eq_iff)
  then show ?thesis by (simp add: demo_issue_def)
qed

lemma demo_issued_step: "health_step demo_created demo_issued"
  using health_step.issue [OF demo_issue_ok] by (simp add: demo_issued_def demo_created_def demo_start_def)

lemma demo_issued_reachable: "reachable demo_issued"
  by (rule step [OF demo_created_reachable demo_issued_step])

lemma demo_ticket_issued: "demo_ticket \<in> set (st_tickets demo_issued)"
  by (simp add: demo_issued_def)

lemma reset_isolates_tickets_witness:
  "\<exists>db'. reset_pool (st_db demo_issued) ''p'' ''u'' (Some ''a'') = (Ok 1, db')
    \<and> db_health (snd (finish_observation db' demo_ticket (Some demo_failure) 1000000001)) = db_health db'"
proof -
  let ?db = "snd (reset_pool (st_db demo_issued) ''p'' ''u'' (Some ''a''))"
  have "fst (reset_pool (st_db demo_issued) ''p'' ''u'' (Some ''a'')) = Ok 1" by code_simp
  then have reset: "reset_pool (st_db demo_issued) ''p'' ''u'' (Some ''a'') = (Ok 1, ?db)" by (simp add: prod_eq_iff)
  have "ticket_pool demo_ticket = ''p''" "ticket_member demo_ticket = ''a''" by code_simp+
  then have "reset_pool (st_db demo_issued) (ticket_pool demo_ticket) ''u'' (Some ''a'') = (Ok 1, ?db)"
      "Some ''a'' = None \<or> Some ''a'' = Some (ticket_member demo_ticket)"
    using reset by simp_all
  from reset_isolates_tickets [OF demo_issued_reachable demo_ticket_issued this rtranclp.rtrancl_refl]
  show ?thesis using reset by auto
qed

lemma demo_db_update: "st_db (st\<lparr>st_db := db\<rparr>) = db"
  by simp

lemma ticket_counts_once_witness:
  "\<exists>row db'. finish_observation (st_db demo_issued) demo_ticket (Some demo_failure) (st_now demo_issued) = ((True, row), db')
    \<and> snd (finish_observation db' demo_ticket None 1000000001) = db'"
proof -
  let ?r = "finish_observation (st_db demo_issued) demo_ticket (Some demo_failure) (st_now demo_issued)"
  have "fst (fst ?r) = True" by code_simp
  then have fin: "?r = ((True, snd (fst ?r)), snd ?r)" by (simp add: prod_eq_iff)
  from ticket_counts_once [OF demo_issued_reachable demo_ticket_issued fin rtranclp.rtrancl_refl, of None 1000000001]
  have "snd (finish_observation (snd ?r) demo_ticket None 1000000001) = snd ?r" by (metis snd_conv demo_db_update)
  then show ?thesis using fin by blast
qed

lemma health_never_regresses_witness:
  "\<exists>r r'. r \<in> set (db_health (st_db demo_issued)) \<and> hr_id r' = hr_id r
    \<and> r' \<in> set (db_health (snd (finish_observation (st_db demo_issued) demo_ticket (Some demo_failure) (st_now demo_issued))))
    \<and> hr_observation_sequence r \<le> hr_observation_sequence r'"
proof -
  let ?db = "snd (finish_observation (st_db demo_issued) demo_ticket (Some demo_failure) (st_now demo_issued))"
  have "map hr_id (db_health (st_db demo_issued)) = [''h''] \<and> map hr_id (db_health ?db) = [''h'']" by code_simp
  then obtain r r' where rows: "r \<in> set (db_health (st_db demo_issued))" "r' \<in> set (db_health ?db)" "hr_id r' = hr_id r"
    by (auto simp: map_eq_Cons_conv)
  have "health_step demo_issued (demo_issued\<lparr>st_db := ?db\<rparr>)" by (rule finish [OF demo_ticket_issued])
  from health_never_regresses [OF demo_issued_reachable this rows(1) _ rows(3)] rows show ?thesis by auto
qed

lemma histories_are_consistent_witness:
  "\<exists>row. load_for_scope (st_db demo_issued) demo_scope = Some row
    \<and> {r \<in> set (db_health (st_db demo_issued)). row_key r = row_key row} = {row}"
proof -
  have "load_for_scope (st_db demo_issued) demo_scope \<noteq> None" by code_simp
  then obtain row where "load_for_scope (st_db demo_issued) demo_scope = Some row" by blast
  with histories_are_consistent [OF demo_issued_reachable, of demo_scope row] show ?thesis by blast
qed

lemma fresh_failure_takes_effect_witness:
  "\<exists>row row' db''. load_for_scope (snd demo_issue) demo_scope = Some row
    \<and> finish_observation (snd demo_issue) demo_ticket (Some demo_failure) 1000000001 = ((True, Some row'), db'')
    \<and> load_for_scope db'' demo_scope = Some row'"
proof -
  have now: "bson_time 1000000001 < bson_time (st_now demo_created + HEALTH_RETENTION)" by code_simp
  have ids: "''o'' \<notin> set (st_used demo_created)" "''h'' \<notin> set (st_used demo_created)" "''o'' \<noteq> ''h''" by code_simp+
  from fresh_failure_takes_effect [OF demo_created_reachable demo_issue_ok ids now, of demo_failure]
  show ?thesis by blast
qed

end
