(* ===== verification/Credit_Amounts.thy ===== *)
theory Credit_Amounts
  imports Json "HOL-Library.Word" "HOL-Library.Signed_Division"
begin

unbundle bit_operations_syntax

text \<open>
  Money. \<open>models/credits.rs\<close>: credit amounts as a whole number of picocredits, their checked
  arithmetic, their text, and their stored form as IEEE 754 decimals.
  \<open>services/billing/amounts.rs\<close>: unit rates as 64-bit picocredits, and what a quantity costs.
\<close>

section \<open>Credits\<close>

definition SCALE :: int where "SCALE = 1000000000000"
definition MAX_PICO :: int where "MAX_PICO = 9999999999999999999999999999999999"

datatype credits = Credits (pico: int)

datatype credits_error = CreditsError

text \<open>\<open>derive(Ord)\<close> compares the picocredits.\<close>

instantiation credits :: linorder
begin

definition less_eq_credits :: "credits \<Rightarrow> credits \<Rightarrow> bool" where
  "less_eq_credits a b \<longleftrightarrow> pico a \<le> pico b"

definition less_credits :: "credits \<Rightarrow> credits \<Rightarrow> bool" where
  "less_credits a b \<longleftrightarrow> pico a < pico b"

instance
  by standard (auto simp: less_eq_credits_def less_credits_def intro: credits.expand)

end

definition ZERO :: credits where "ZERO = Credits 0"

definition from_pico :: "int \<Rightarrow> credits_error + credits" where
  "from_pico v = (if - MAX_PICO \<le> v \<and> v \<le> MAX_PICO then Ok (Credits v) else Err CreditsError)"

definition from_whole :: "int \<Rightarrow> credits" where
  "from_whole v = Credits (v * SCALE)"

definition from_micros :: "int \<Rightarrow> credits" where
  "from_micros v = Credits (v * 1000000)"

definition checked_add :: "credits \<Rightarrow> credits \<Rightarrow> credits_error + credits" where
  "checked_add a b = and_then (ok_or (checked_i128 (pico a + pico b)) CreditsError) from_pico"

definition checked_sub :: "credits \<Rightarrow> credits \<Rightarrow> credits_error + credits" where
  "checked_sub a b = and_then (ok_or (checked_i128 (pico a - pico b)) CreditsError) from_pico"

definition checked_mul :: "credits \<Rightarrow> int \<Rightarrow> credits_error + credits" where
  "checked_mul a quantity =
     and_then (ok_or (checked_i128 (pico a * quantity)) CreditsError) from_pico"

definition checked_sum :: "credits list \<Rightarrow> credits_error + credits" where
  "checked_sum xs = try_fold checked_add ZERO xs"

definition checked_neg :: "credits \<Rightarrow> credits_error + credits" where
  "checked_neg a = checked_sub ZERO a"

definition credits_neg :: "credits \<Rightarrow> credits" where
  "credits_neg a = Credits (- pico a)"

text \<open>Projections for display: \<open>sdiv\<close> truncates towards zero, as \<open>/\<close> does.\<close>

definition legacy_whole :: "credits \<Rightarrow> credits_error + int" where
  "legacy_whole a = ok_or (checked_i64 (pico a sdiv SCALE)) CreditsError"

definition legacy_micros :: "credits \<Rightarrow> credits_error + int" where
  "legacy_micros a = ok_or (checked_i64 (pico a sdiv 1000000)) CreditsError"

definition clamp_i64 :: "int \<Rightarrow> int" where
  "clamp_i64 x = (if x < i64_min then i64_min else if x > i64_max then i64_max else x)"

definition display_whole :: "credits \<Rightarrow> int" where
  "display_whole a = clamp_i64 (pico a sdiv SCALE)"

definition display_micros :: "credits \<Rightarrow> int" where
  "display_micros a = clamp_i64 (pico a sdiv 1000000)"

section \<open>Text\<close>

definition credits_fmt :: "credits \<Rightarrow> string" where
  "credits_fmt a =
     (let magnitude = nat \<bar>pico a\<bar>; fraction = magnitude mod nat SCALE
      in (if pico a < 0 then ''-'' else []) @ nat_str (magnitude div nat SCALE)
         @ (if fraction \<noteq> 0 then CHR ''.'' # trim_end_zeros (pad_zeros 12 fraction) else []))"

text \<open>The coefficient of \<open>digits * 10 powi shift\<close> picocredits, exact or refused.\<close>

definition credits_coefficient :: "string \<Rightarrow> int \<Rightarrow> credits_error + int" where
  "credits_coefficient digits shift =
     (if shift < 0
      then (let cut = nat (- shift) in
        if cut \<ge> length digits
           \<or> \<not> list_all (\<lambda>b. b = CHR ''0'') (drop (length digits - cut) digits)
        then Err CreditsError
        else ok_or (parse_int i128_min i128_max (take (length digits - cut) digits)) CreditsError)
      else if shift > 34 \<or> length digits + nat shift > 34 then Err CreditsError
      else and_then (ok_or (parse_int i128_min i128_max digits) CreditsError)
             (\<lambda>n. ok_or (checked_i128 (n * 10 ^ nat shift)) CreditsError))"

definition credits_from_str :: "string \<Rightarrow> credits_error + credits" where
  "credits_from_str input =
     (let m = takeWhile (\<lambda>c. c \<noteq> CHR ''e'' \<and> c \<noteq> CHR ''E'') input;
          r = dropWhile (\<lambda>c. c \<noteq> CHR ''e'' \<and> c \<noteq> CHR ''E'') input
      in and_then (case r of [] \<Rightarrow> Ok 0
                   | _ # e \<Rightarrow> ok_or (parse_int i32_min i32_max e) CreditsError) (\<lambda>exponent.
         let (negative, mantissa) = (case strip_prefix ''-'' m of
               Some v \<Rightarrow> (True, v)
             | None \<Rightarrow> (False, (case strip_prefix ''+'' m of Some v \<Rightarrow> v | None \<Rightarrow> m)));
             (whole, fraction) = (case split_once CHR ''.'' mantissa of
               Some p \<Rightarrow> p | None \<Rightarrow> (mantissa, []))
         in if (whole = [] \<and> fraction = []) \<or> \<not> all_digits (whole @ fraction)
            then Err CreditsError
            else (let digits = dropWhile (\<lambda>c. c = CHR ''0'') (whole @ fraction) in
              if digits = [] then Ok ZERO
              else and_then
                (credits_coefficient digits (12 + exponent - int (length fraction)))
                (\<lambda>p. from_pico (if negative then - p else p)))))"

definition credits_to_json :: "credits \<Rightarrow> json" where
  "credits_to_json a = JString (credits_fmt a)"

definition credits_of_json :: "json \<Rightarrow> credits_error + credits" where
  "credits_of_json j = (case as_str j of None \<Rightarrow> Err CreditsError | Some s \<Rightarrow> credits_from_str s)"

section \<open>Stored form\<close>

text \<open>
  A \<open>Decimal128\<close> is the word its 16 little-endian bytes spell: sign bit 127, biased exponent
  from bit 113, coefficient below.
\<close>

type_synonym decimal128 = "128 word"

definition DECIMAL_PICO_EXPONENT :: nat where "DECIMAL_PICO_EXPONENT = 6176 - 12"
definition DECIMAL_COEFFICIENT_MASK :: decimal128 where
  "DECIMAL_COEFFICIENT_MASK = push_bit 113 1 - 1"

function drop_tens :: "nat \<Rightarrow> nat \<Rightarrow> nat \<times> nat" where
  "drop_tens coefficient exponent =
     (if exponent < 6176 \<and> coefficient mod 10 = 0
      then drop_tens (coefficient div 10) (exponent + 1)
      else (coefficient, exponent))"
  by pat_completeness auto
termination by (relation "measure (\<lambda>(_, exponent). 6176 - exponent)") auto

declare drop_tens.simps [simp del]

definition decimal :: "credits \<Rightarrow> decimal128" where
  "decimal a =
     (let magnitude = nat \<bar>pico a\<bar>;
          (coefficient, exponent) =
            (if magnitude = 0 then (magnitude, 6176)
             else drop_tens magnitude DECIMAL_PICO_EXPONENT);
          sign = push_bit 127 (if pico a < 0 then 1 else 0)
      in sign OR push_bit 113 (of_nat exponent) OR of_nat coefficient)"

text \<open>The BSON variants the code reads; every other variant is refused alike.\<close>

datatype bson =
    BDecimal128 decimal128
  | BInt32 int
  | BInt64 int
  | BNull
  | BOther string

text \<open>
  \<open>decimal_str\<close> stands for \<open>Decimal128::to_string\<close> of the \<open>bson\<close> crate, which the code falls
  back on for exponents outside its own range.
\<close>

definition from_bson ::
  "(decimal128 \<Rightarrow> string) \<Rightarrow> bson \<Rightarrow> int \<Rightarrow> credits_error + credits" where
  "from_bson decimal_str v legacy_scale = (case v of
     BDecimal128 bits \<Rightarrow>
       (let exponent = unat (drop_bit 113 bits AND 0x3FFF) in
        if DECIMAL_PICO_EXPONENT \<le> exponent \<and> exponent \<le> 6176
        then and_then
          (ok_or (checked_i128 (uint (bits AND DECIMAL_COEFFICIENT_MASK)
                    * 10 ^ (exponent - DECIMAL_PICO_EXPONENT))) CreditsError)
          (\<lambda>p. from_pico (if drop_bit 127 bits = 0 then p else - p))
        else credits_from_str (decimal_str bits))
   | BInt32 n \<Rightarrow> from_pico (n * legacy_scale)
   | BInt64 n \<Rightarrow> from_pico (n * legacy_scale)
   | _ \<Rightarrow> Err CreditsError)"

definition bson_of_credits :: "credits \<Rightarrow> bson" where
  "bson_of_credits a = BDecimal128 (decimal a)"

text \<open>The adapter of an optional stored amount: no amount is a null.\<close>

definition optional_deserialize ::
  "(decimal128 \<Rightarrow> string) \<Rightarrow> int \<Rightarrow> bson \<Rightarrow> credits_error + credits option" where
  "optional_deserialize decimal_str scale v = (case v of
     BNull \<Rightarrow> Ok None
   | b \<Rightarrow> (case from_bson decimal_str b scale of Err e \<Rightarrow> Err e | Ok a \<Rightarrow> Ok (Some a)))"

definition optional_serialize :: "credits option \<Rightarrow> bson" where
  "optional_serialize v = (case v of None \<Rightarrow> BNull | Some a \<Rightarrow> bson_of_credits a)"

text \<open>
  A stored document, as the map from keys to values: the order of its keys is not read here.
\<close>

type_synonym bson_document = "string \<Rightarrow> bson option"

fun normalize_legacy_fields ::
  "(decimal128 \<Rightarrow> string) \<Rightarrow> (string \<times> string) list \<Rightarrow> bson_document
   \<Rightarrow> credits_error + bson_document"
where
  "normalize_legacy_fields decimal_str [] document = Ok document"
| "normalize_legacy_fields decimal_str ((new, old) # aliases) document =
     (let document' = document(old := None) in
      (case document old of
         None \<Rightarrow> normalize_legacy_fields decimal_str aliases document'
       | Some legacy \<Rightarrow>
           if document' new \<noteq> None then normalize_legacy_fields decimal_str aliases document'
           else if legacy = BNull
           then normalize_legacy_fields decimal_str aliases (document'(new := Some legacy))
           else (case from_bson decimal_str legacy 1000000 of
               Err e \<Rightarrow> Err e
             | Ok a \<Rightarrow> normalize_legacy_fields decimal_str aliases
                 (document'(new := Some (bson_of_credits a))))))"

section \<open>Rates\<close>

definition PRICE_FRACTIONAL_DIGITS :: nat where "PRICE_FRACTIONAL_DIGITS = 12"
definition PICO_PER_CREDIT :: int where "PICO_PER_CREDIT = 1000000000000"
definition PICO_PER_MICRO :: int where "PICO_PER_MICRO = 1000000"
definition MAX_PRICE_PICO :: int where "MAX_PRICE_PICO = 1000000000000000000"

definition rate_pico :: "int option \<Rightarrow> int \<Rightarrow> int" where
  "rate_pico precise micros = (case precise of
     Some v \<Rightarrow> max v 0 | None \<Rightarrow> max micros 0 * PICO_PER_MICRO)"

definition decimal_to_pico :: "string \<Rightarrow> int option" where
  "decimal_to_pico raw =
     (let v = trim raw;
          (whole, fraction) = (case split_once CHR ''.'' v of Some p \<Rightarrow> p | None \<Rightarrow> (v, []))
      in if whole = [] \<or> \<not> all_digits whole \<or> length fraction > PRICE_FRACTIONAL_DIGITS
            \<or> \<not> all_digits fraction
         then None
         else Option.bind (parse_int i64_min i64_max whole) (\<lambda>w.
           Option.bind
             (if fraction = [] then Some 0
              else Option.bind (parse_int i64_min i64_max fraction) (\<lambda>f.
                checked_i64 (f * 10 ^ (PRICE_FRACTIONAL_DIGITS - length fraction)))) (\<lambda>f.
             Option.bind (checked_i64 (w * PICO_PER_CREDIT)) (\<lambda>p. checked_i64 (p + f)))))"

text \<open>\<open>{n:012}\<close> of a negative number counts the sign among the 12 columns.\<close>

definition pad_zeros_int :: "nat \<Rightarrow> int \<Rightarrow> string" where
  "pad_zeros_int w n = (if n < 0 then CHR ''-'' # pad_zeros (w - 1) (nat (- n)) else pad_zeros w (nat n))"

definition format_pico :: "int \<Rightarrow> string" where
  "format_pico p =
     (let whole = p sdiv PICO_PER_CREDIT; fraction = p smod PICO_PER_CREDIT
      in if fraction = 0 then int_str whole
         else trim_end_zeros (int_str whole @ CHR ''.'' # pad_zeros_int 12 fraction))"

definition cost :: "int \<Rightarrow> int \<Rightarrow> credits_error + credits" where
  "cost rate quantity = and_then (from_pico rate) (\<lambda>r. checked_mul r (max quantity 0))"

end
