(* ===== verification/Credit_Properties.thy ===== *)
theory Credit_Properties
  imports Credit_Amounts Decimal_Text
begin

text \<open>
  What makes the money arithmetic right: the text of an amount is read without rounding and
  written so that it reads back, the stored decimal reads back, every operation is exact or
  refused, and a price survives its text.
\<close>

section \<open>Digits\<close>

lemma digits_val_less: "all_digits s \<Longrightarrow> digits_val s < 10 ^ length s"
proof (induction s rule: rev_induct)
  case (snoc c s)
  then have "digits_val s + 1 \<le> 10 ^ length s" "digit_val c < 10"
    using digit_val_less [of c] by auto
  then show ?case by simp
qed simp

lemma digit_val_0_iff: "is_ascii_digit c \<Longrightarrow> digit_val c = 0 \<longleftrightarrow> c = CHR ''0''"
proof -
  assume d: "is_ascii_digit c"
  have "c = CHR ''0''" if "byte c = 48"
  proof -
    from that have "(of_char c :: nat) = of_char CHR ''0''" by (simp add: byte_def)
    then show ?thesis by (simp only: of_char_eq_iff)
  qed
  with d show ?thesis by (auto simp: digit_val_def is_ascii_digit_def byte_def)
qed

lemma digits_val_Cons: "digits_val (c # s) = digit_val c * 10 ^ length s + digits_val s"
  using digits_val_append [of "[c]" s] digits_val_snoc [of "[]" c] by simp

lemma digits_val_ge:
  assumes "all_digits s" "s \<noteq> []" "hd s \<noteq> CHR ''0''"
  shows "10 ^ (length s - 1) \<le> digits_val s"
proof (cases s)
  case (Cons c t)
  with assms have "1 \<le> digit_val c" using digit_val_0_iff [of c] by fastforce
  then have "1 * 10 ^ length t \<le> digit_val c * 10 ^ length t" by (rule mult_le_mono1)
  with Cons show ?thesis by (simp add: digits_val_Cons trans_le_add1)
qed (use assms in simp)

lemma digits_val_0_iff: "all_digits s \<Longrightarrow> digits_val s = 0 \<longleftrightarrow> list_all (\<lambda>b. b = CHR ''0'') s"
  by (induction s) (auto simp: digits_val_Cons digit_val_0_iff)

lemma digits_val_drop_zeros: "digits_val (dropWhile (\<lambda>c. c = CHR ''0'') s) = digits_val s"
  by (induction s) (auto simp: digits_val_Cons digit_val_def byte_def)

lemma all_digits_dropWhile: "all_digits s \<Longrightarrow> all_digits (dropWhile P s)"
  by (metis all_digits_simps(3) takeWhile_dropWhile_id)

section \<open>The coefficient is exact\<close>

lemma max_pico: "MAX_PICO = 10 ^ 34 - 1" by (simp add: MAX_PICO_def)

lemma i128_covers: "x \<le> MAX_PICO \<Longrightarrow> x \<le> i128_max" "0 \<le> x \<Longrightarrow> i128_min \<le> x" "- MAX_PICO \<le> x \<Longrightarrow> i128_min \<le> x"
  by (simp_all add: MAX_PICO_def i128_max_def i128_min_def)

lemma coefficient_whole:
  assumes d: "all_digits d" "d \<noteq> []" "hd d \<noteq> CHR ''0''" and s: "0 \<le> shift"
  shows "credits_coefficient d shift = Ok n \<and> n \<le> MAX_PICO
    \<longleftrightarrow> n = int (digits_val d) * 10 ^ nat shift \<and> n \<le> MAX_PICO"
proof (cases "shift > 34 \<or> length d + nat shift > 34")
  case True
  then have "34 \<le> length d - 1 + nat shift" using d(2) s by (cases d) auto
  then have "(10::nat) ^ 34 \<le> 10 ^ (length d - 1 + nat shift)" by (rule power_increasing) simp
  also have "\<dots> \<le> digits_val d * 10 ^ nat shift"
    unfolding power_add by (rule mult_le_mono1 [OF digits_val_ge [OF d]])
  finally have "int (10 ^ 34) \<le> int (digits_val d * 10 ^ nat shift)" by (simp only: of_nat_le_iff)
  then have "\<not> int (digits_val d) * 10 ^ nat shift \<le> MAX_PICO" by (simp add: max_pico)
  with True s show ?thesis by (auto simp: credits_coefficient_def)
next
  case False
  have "digits_val d * 10 ^ nat shift < 10 ^ length d * 10 ^ nat shift"
    using digits_val_less [OF d(1)] by simp
  also have "\<dots> \<le> 10 ^ 34" unfolding power_add [symmetric] by (rule power_increasing) (use False in auto)
  finally have "int (digits_val d * 10 ^ nat shift) < int (10 ^ 34)" by (simp only: of_nat_less_iff)
  then have le: "int (digits_val d) * 10 ^ nat shift \<le> MAX_PICO" by (simp add: max_pico)
  moreover have "int (digits_val d) \<le> int (digits_val d) * 10 ^ nat shift"
    by (simp add: mult_le_cancel_left1)
  ultimately have "int (digits_val d) \<le> MAX_PICO" by linarith
  with le False s d show ?thesis
    by (auto simp: credits_coefficient_def parse_int_digits i128_covers)
qed

lemma coefficient_fraction:
  assumes d: "all_digits d" "d \<noteq> []" "hd d \<noteq> CHR ''0''" and s: "shift < 0"
  shows "credits_coefficient d shift = Ok n \<and> n \<le> MAX_PICO
    \<longleftrightarrow> n * 10 ^ nat (- shift) = int (digits_val d) \<and> n \<le> MAX_PICO"
proof -
  define k where "k = nat (- shift)"
  have pos: "0 < digits_val d" using digits_val_ge [OF d] by (meson less_le_trans zero_less_numeral zero_less_power)
  have code: "credits_coefficient d shift =
      (if k \<ge> length d \<or> \<not> list_all (\<lambda>b. b = CHR ''0'') (drop (length d - k) d) then Err CreditsError
       else ok_or (parse_int i128_min i128_max (take (length d - k) d)) CreditsError)"
    using s by (simp add: credits_coefficient_def k_def Let_def)
  show ?thesis
  proof (cases "length d \<le> k")
    case True
    have "n * 10 ^ k \<noteq> int (digits_val d)"
    proof
      assume n: "n * 10 ^ k = int (digits_val d)"
      have "digits_val d < 10 ^ k"
        using digits_val_less [OF d(1)] power_increasing [OF True, of "10::nat"] by linarith
      then have "int (digits_val d) < int (10 ^ k)" by (simp only: of_nat_less_iff)
      then have "n * 10 ^ k < 1 * 10 ^ k" using n by simp
      then have "n < 1" by (simp only: mult_less_cancel_right) simp
      moreover have "0 < n * 10 ^ k" using n pos by simp
      ultimately show False by (simp add: zero_less_mult_iff)
    qed
    with True show ?thesis unfolding code k_def [symmetric] by simp
  next
    case False
    define a b where "a = take (length d - k) d" and "b = drop (length d - k) d"
    have ab: "d = a @ b" "length b = k" "a \<noteq> []" using False d(2) by (auto simp: a_def b_def)
    have dig: "all_digits a" "all_digits b" using d(1) ab(1) by auto
    have val: "digits_val d = digits_val a * 10 ^ k + digits_val b"
      using ab by (simp add: digits_val_append)
    have b: "digits_val b < 10 ^ k" using digits_val_less [OF dig(2)] ab(2) by simp
    have exact: "n * 10 ^ k = int (digits_val d) \<longleftrightarrow> digits_val b = 0 \<and> n = int (digits_val a)"
    proof
      assume n: "n * 10 ^ k = int (digits_val d)"
      have "0 \<le> n"
      proof (rule ccontr)
        assume "\<not> 0 \<le> n"
        then have "n * 10 ^ k < 0" by (simp add: mult_neg_pos)
        with n show False by simp
      qed
      then obtain m where m: "n = int m" using nonneg_int_cases by blast
      have "int (m * 10 ^ k) = int (digits_val d)" using n m by simp
      then have "m * 10 ^ k = digits_val a * 10 ^ k + digits_val b" unfolding val by (simp only: of_nat_eq_iff)
      then have "digits_val b mod 10 ^ k = 0" "m = (digits_val a * 10 ^ k + digits_val b) div 10 ^ k"
        by (metis mod_mult_self3 mod_mult_self2_is_0) (metis nonzero_mult_div_cancel_right power_not_zero zero_neq_numeral \<open>m * 10 ^ k = _\<close>)
      with b m show "digits_val b = 0 \<and> n = int (digits_val a)" by simp
    qed (simp add: val)
    show ?thesis
      unfolding code k_def [symmetric] exact using False dig ab(3)
      by (auto simp: digits_val_0_iff parse_int_digits i128_covers simp flip: a_def b_def)
  qed
qed

lemma coefficient_exact:
  assumes "all_digits d" "d \<noteq> []" "hd d \<noteq> CHR ''0''"
  shows "credits_coefficient d shift = Ok n \<and> n \<le> MAX_PICO
    \<longleftrightarrow> real_of_int n = real (digits_val d) * 10 powi shift \<and> n \<le> MAX_PICO"
proof (cases "0 \<le> shift")
  case True
  then have "real_of_int n = real (digits_val d) * 10 powi shift
    \<longleftrightarrow> real_of_int n = real_of_int (int (digits_val d) * 10 ^ nat shift)"
    by (simp add: power_int_def)
  with coefficient_whole [OF assms True] show ?thesis by (simp only: of_int_eq_iff)
next
  case False
  then have "real_of_int n = real (digits_val d) * 10 powi shift
    \<longleftrightarrow> real_of_int (n * 10 ^ nat (- shift)) = real_of_int (int (digits_val d))"
    by (auto simp: power_int_def field_simps)
  with coefficient_fraction [OF assms, of shift n] False show ?thesis by (simp only: of_int_eq_iff)
qed

section \<open>The text of an amount\<close>

text \<open>
  What the parser accepts, as a grammar: an optional sign, digits with an optional point,
  and an optional exponent a 32-bit integer can hold. \<open>credit_text s v\<close> says \<open>s\<close> is such a
  text and \<open>v\<close> the number it denotes.
\<close>

inductive credit_shape :: "string \<Rightarrow> bool \<Rightarrow> string \<Rightarrow> string \<Rightarrow> int \<Rightarrow> bool" where
  "\<lbrakk>if neg then sign = ''-'' else sign = [] \<or> sign = ''+'';
    point = CHR ''.'' # fp \<or> point = [] \<and> fp = [];
    expo = [] \<and> ex = 0
      \<or> (\<exists>mark t. expo = mark # t \<and> (mark = CHR ''e'' \<or> mark = CHR ''E'')
          \<and> parse_int i32_min i32_max t = Some ex);
    all_digits (ip @ fp); ip @ fp \<noteq> []\<rbrakk>
   \<Longrightarrow> credit_shape (sign @ ip @ point @ expo) neg ip fp ex"

inductive credit_text :: "string \<Rightarrow> real \<Rightarrow> bool" where
  "credit_shape s neg ip fp ex \<Longrightarrow> credit_text s (decimal_value neg ip fp (Some ex))"

inductive_cases credit_textE: "credit_text s v"

text \<open>The three cuts the parser makes: exponent, sign, point.\<close>

definition exponent_part :: "string \<Rightarrow> int option" where
  "exponent_part r = (case r of [] \<Rightarrow> Some 0 | _ # e \<Rightarrow> parse_int i32_min i32_max e)"

definition sign_part :: "string \<Rightarrow> bool \<times> string" where
  "sign_part m = (case strip_prefix ''-'' m of Some v \<Rightarrow> (True, v)
     | None \<Rightarrow> (False, (case strip_prefix ''+'' m of Some v \<Rightarrow> v | None \<Rightarrow> m)))"

definition point_part :: "string \<Rightarrow> string \<times> string" where
  "point_part v = (case split_once CHR ''.'' v of Some p \<Rightarrow> p | None \<Rightarrow> (v, []))"

definition credits_of_parts :: "bool \<times> string \<times> string \<times> int \<Rightarrow> credits_error + credits" where
  "credits_of_parts = (\<lambda>(neg, ip, fp, ex).
     let digits = dropWhile (\<lambda>c. c = CHR ''0'') (ip @ fp) in
     if digits = [] then Ok ZERO
     else and_then (credits_coefficient digits (12 + ex - int (length fp)))
       (\<lambda>p. from_pico (if neg then - p else p)))"

definition credit_parts :: "string \<Rightarrow> (bool \<times> string \<times> string \<times> int) option" where
  "credit_parts input =
     (case exponent_part (dropWhile (\<lambda>c. c \<noteq> CHR ''e'' \<and> c \<noteq> CHR ''E'') input) of
        None \<Rightarrow> None
      | Some ex \<Rightarrow>
          (case sign_part (takeWhile (\<lambda>c. c \<noteq> CHR ''e'' \<and> c \<noteq> CHR ''E'') input) of (neg, v) \<Rightarrow>
            (case point_part v of (ip, fp) \<Rightarrow>
              if (ip = [] \<and> fp = []) \<or> \<not> all_digits (ip @ fp) then None
              else Some (neg, ip, fp, ex))))"

lemma exponent_ok_or:
  "(case r of [] \<Rightarrow> Ok 0 | _ # e \<Rightarrow> ok_or (parse_int i32_min i32_max e) x) = ok_or (exponent_part r) x"
  by (cases r) (simp_all add: exponent_part_def)

lemma from_str_parts:
  "credits_from_str s = (case credit_parts s of None \<Rightarrow> Err CreditsError | Some p \<Rightarrow> credits_of_parts p)"
proof -
  let ?r = "exponent_part (dropWhile (\<lambda>c. c \<noteq> CHR ''e'' \<and> c \<noteq> CHR ''E'') s)"
  let ?s = "sign_part (takeWhile (\<lambda>c. c \<noteq> CHR ''e'' \<and> c \<noteq> CHR ''E'') s)"
  obtain neg v where sp: "?s = (neg, v)" by force
  obtain ip fp where pp: "point_part v = (ip, fp)" by force
  show ?thesis
    unfolding credits_from_str_def credit_parts_def Let_def exponent_ok_or
      sign_part_def [symmetric] point_part_def [symmetric] sp prod.case pp credits_of_parts_def
    by (cases ?r) simp_all
qed

lemma no_mark:
  assumes "all_digits s"
  shows "CHR ''e'' \<notin> set s" "CHR ''E'' \<notin> set s" "CHR ''.'' \<notin> set s"
  using all_digits_notin [OF assms] not_digit_sign by blast+

lemma no_sign:
  assumes "all_digits ip" "point = CHR ''.'' # fp \<or> point = []"
  shows "strip_prefix ''-'' (ip @ point) = None" "strip_prefix ''+'' (ip @ point) = None"
  using assms not_digit_sign by (cases ip; auto)+

lemma sign_part_shape:
  assumes "if neg then sign = ''-'' else sign = [] \<or> sign = ''+''"
    and "strip_prefix ''-'' v = None" "strip_prefix ''+'' v = None"
  shows "sign_part (sign @ v) = (neg, v)"
  using assms by (cases neg) (auto simp: sign_part_def)

lemma sign_part_D:
  assumes "sign_part m = (neg, v)"
  shows "\<exists>sign. m = sign @ v \<and> (if neg then sign = ''-'' else sign = [] \<or> sign = ''+'')"
  using assms by (auto simp: sign_part_def strip_prefix_iff split: option.splits)

lemma point_part_shape:
  assumes "all_digits ip" "point = CHR ''.'' # fp \<or> point = [] \<and> fp = []"
  shows "point_part (ip @ point) = (ip, fp)"
proof -
  have dot: "CHR ''.'' \<notin> set ip" by (rule no_mark [OF assms(1)])
  with assms(2) split_once_None_iff [of "CHR ''.''" ip] show ?thesis by (auto simp: point_part_def)
qed

lemma point_part_D:
  assumes "point_part v = (ip, fp)"
  shows "\<exists>point. v = ip @ point \<and> (point = CHR ''.'' # fp \<or> point = [] \<and> fp = [])"
  using assms by (auto simp: point_part_def split_once_Some_iff split: option.splits)

lemma credit_parts_shape:
  assumes "credit_shape s neg ip fp ex"
  shows "credit_parts s = Some (neg, ip, fp, ex)"
  using assms
proof cases
  case (1 sign point expo)
  let ?P = "\<lambda>c. c \<noteq> CHR ''e'' \<and> c \<noteq> CHR ''E''"
  let ?m = "sign @ ip @ point"
  have dig: "all_digits ip" "all_digits fp" using 1 by auto
  have P: "\<forall>c \<in> set ?m. ?P c" using 1(2,3) no_mark [OF dig(1)] no_mark [OF dig(2)] by (auto split: if_splits)
  have e0: "takeWhile ?P expo = []" "dropWhile ?P expo = expo" "exponent_part expo = Some ex"
    using 1(4) by (auto simp: exponent_part_def)
  have "takeWhile ?P (?m @ expo) = ?m @ takeWhile ?P expo" "dropWhile ?P (?m @ expo) = dropWhile ?P expo"
    by (rule takeWhile_append2 dropWhile_append2; use P in blast)+
  then have split: "takeWhile ?P s = ?m" "dropWhile ?P s = expo" using 1(1) e0 by auto
  have sign: "sign_part ?m = (neg, ip @ point)"
    using sign_part_shape [OF 1(2)] no_sign [OF dig(1), of point fp] 1(3) by blast
  show ?thesis
    unfolding credit_parts_def split e0 option.case sign prod.case point_part_shape [OF dig(1) 1(3)]
    using 1(5,6) by simp
qed

lemma credit_shape_parts:
  assumes "credit_parts s = Some (neg, ip, fp, ex)"
  shows "credit_shape s neg ip fp ex"
proof -
  let ?P = "\<lambda>c. c \<noteq> CHR ''e'' \<and> c \<noteq> CHR ''E''"
  define m r where "m = takeWhile ?P s" and "r = dropWhile ?P s"
  have s: "s = m @ r" by (simp add: m_def r_def)
  from assms obtain v where ex: "exponent_part r = Some ex" and sp: "sign_part m = (neg, v)"
    and pp: "point_part v = (ip, fp)" and ok: "all_digits (ip @ fp)" "ip @ fp \<noteq> []"
    unfolding credit_parts_def m_def [symmetric] r_def [symmetric]
    by (auto split: option.splits prod.splits if_splits)
  obtain sign where sign: "m = sign @ v" "if neg then sign = ''-'' else sign = [] \<or> sign = ''+''"
    using sign_part_D [OF sp] by blast
  obtain point where point: "v = ip @ point" "point = CHR ''.'' # fp \<or> point = [] \<and> fp = []"
    using point_part_D [OF pp] by blast
  have expo: "r = [] \<and> ex = 0 \<or> (\<exists>mark t. r = mark # t \<and> (mark = CHR ''e'' \<or> mark = CHR ''E'')
      \<and> parse_int i32_min i32_max t = Some ex)"
  proof (cases r)
    case (Cons mark t)
    then have "\<not> ?P mark" using hd_dropWhile [of ?P s] by (auto simp: r_def)
    with Cons ex show ?thesis by (auto simp: exponent_part_def)
  qed (use ex in \<open>auto simp: exponent_part_def\<close>)
  have "s = sign @ ip @ point @ r" using s sign(1) point(1) by simp
  then show ?thesis using credit_shape.intros [OF sign(2) point(2) expo ok] by simp
qed

lemma from_pico_Ok_iff: "from_pico v = Ok c \<longleftrightarrow> pico c = v \<and> \<bar>v\<bar> \<le> MAX_PICO"
  by (cases c) (auto simp: from_pico_def)

lemma from_pico_signed:
  "from_pico (if neg then - n else n) = Ok c
   \<longleftrightarrow> n \<le> MAX_PICO \<and> pico c = (if neg then - 1 else 1) * n \<and> \<bar>(if neg then - 1 else 1) * n\<bar> \<le> MAX_PICO"
  by (auto simp: from_pico_Ok_iff)

lemma signed_witness:
  fixes p M sg :: int and x :: real
  assumes "sg = 1 \<or> sg = - 1"
  shows "(\<exists>n. real_of_int n = x \<and> n \<le> M \<and> p = sg * n \<and> \<bar>sg * n\<bar> \<le> M)
    \<longleftrightarrow> real_of_int p = real_of_int sg * x \<and> \<bar>p\<bar> \<le> M"
proof -
  have "p = sg * n \<longleftrightarrow> n = sg * p" for n using assms by auto
  moreover have "real_of_int (sg * p) = x \<longleftrightarrow> real_of_int p = real_of_int sg * x" using assms by auto
  moreover have "\<bar>sg * (sg * p)\<bar> = \<bar>p\<bar>" "sg * p \<le> \<bar>p\<bar>" using assms by auto
  ultimately show ?thesis by (metis order_trans)
qed

lemma credits_of_parts_exact:
  assumes "all_digits (ip @ fp)"
  shows "credits_of_parts (neg, ip, fp, ex) = Ok c
    \<longleftrightarrow> real_of_int (pico c) = decimal_value neg ip fp (Some ex) * 10 ^ 12 \<and> \<bar>pico c\<bar> \<le> MAX_PICO"
proof -
  define d where "d = dropWhile (\<lambda>c. c = CHR ''0'') (ip @ fp)"
  define shift where "shift = 12 + ex - int (length fp)"
  define sg :: int where "sg = (if neg then - 1 else 1)"
  have dig: "all_digits d" using assms unfolding d_def by (rule all_digits_dropWhile)
  have dv: "digits_val (ip @ fp) = digits_val d" by (simp add: d_def digits_val_drop_zeros)
  have "(10::real) powi shift = 10 powi (ex - int (length fp)) * 10 ^ 12"
    using power_int_add [of "10::real" "ex - int (length fp)" 12] by (simp add: shift_def algebra_simps)
  then have v: "decimal_value neg ip fp (Some ex) * 10 ^ 12 = real_of_int sg * (real (digits_val d) * 10 powi shift)"
    by (simp add: decimal_value_def exponent_of_def sg_def dv del: digits_val_append)
  have code: "credits_of_parts (neg, ip, fp, ex) = (if d = [] then Ok ZERO
      else and_then (credits_coefficient d shift) (\<lambda>p. from_pico (if neg then - p else p)))"
    by (simp only: credits_of_parts_def prod.case Let_def d_def shift_def)
  show ?thesis
  proof (cases "d = []")
    case True
    have "(Ok ZERO :: credits_error + credits) = Ok c \<longleftrightarrow> pico c = 0" by (cases c) (auto simp: ZERO_def)
    then show ?thesis unfolding v code using True by (auto simp: MAX_PICO_def)
  next
    case False
    then have hd: "hd d \<noteq> CHR ''0''" using hd_dropWhile [of "\<lambda>c. c = CHR ''0''" "ip @ fp"] by (simp add: d_def)
    have "credits_of_parts (neg, ip, fp, ex) = Ok c
      \<longleftrightarrow> (\<exists>n. credits_coefficient d shift = Ok n \<and> n \<le> MAX_PICO \<and> pico c = sg * n \<and> \<bar>sg * n\<bar> \<le> MAX_PICO)"
      unfolding code if_not_P [OF False] and_then_Ok_iff from_pico_signed sg_def [symmetric] by (rule refl)
    also have "\<dots> \<longleftrightarrow> (\<exists>n. real_of_int n = real (digits_val d) * 10 powi shift \<and> n \<le> MAX_PICO
        \<and> pico c = sg * n \<and> \<bar>sg * n\<bar> \<le> MAX_PICO)"
      using coefficient_exact [OF dig False hd] by blast
    also have "\<dots> \<longleftrightarrow> real_of_int (pico c) = real_of_int sg * (real (digits_val d) * 10 powi shift) \<and> \<bar>pico c\<bar> \<le> MAX_PICO"
      by (rule signed_witness) (simp add: sg_def)
    finally show ?thesis unfolding v .
  qed
qed

lemma from_str_exact:
  "credits_from_str s = Ok c \<longleftrightarrow>
     (\<exists>v. credit_text s v \<and> real_of_int (pico c) = v * 10 ^ 12 \<and> \<bar>pico c\<bar> \<le> MAX_PICO)"
proof
  assume "credits_from_str s = Ok c"
  then obtain neg ip fp ex where p: "credit_parts s = Some (neg, ip, fp, ex)" "credits_of_parts (neg, ip, fp, ex) = Ok c"
    by (auto simp: from_str_parts split: option.splits)
  note shape = credit_shape_parts [OF p(1)]
  then have "all_digits (ip @ fp)" by cases
  then show "\<exists>v. credit_text s v \<and> real_of_int (pico c) = v * 10 ^ 12 \<and> \<bar>pico c\<bar> \<le> MAX_PICO"
    using p(2) shape credits_of_parts_exact credit_text.intros by blast
next
  assume "\<exists>v. credit_text s v \<and> real_of_int (pico c) = v * 10 ^ 12 \<and> \<bar>pico c\<bar> \<le> MAX_PICO"
  then obtain v where v: "credit_text s v" "real_of_int (pico c) = v * 10 ^ 12" "\<bar>pico c\<bar> \<le> MAX_PICO" by blast
  from v(1) show "credits_from_str s = Ok c"
  proof (rule credit_textE)
    fix neg ip fp ex
    assume vv: "v = decimal_value neg ip fp (Some ex)" and shape: "credit_shape s neg ip fp ex"
    from shape have "all_digits (ip @ fp)" by cases
    then have "credits_of_parts (neg, ip, fp, ex) = Ok c" using credits_of_parts_exact v(2,3) vv by blast
    then show ?thesis using credit_parts_shape [OF shape] by (simp add: from_str_parts)
  qed
qed

text \<open>
  C37. Amounts are read exactly: the parser returns an amount precisely when the input is a
  signed decimal, with or without exponent, whose value is a whole number of picocredits
  within the supported range, and then it is that number. Nothing is rounded, truncated or
  wrapped; every other input is refused.
\<close>

theorem credits_from_str_exact:
  "credits_from_str s = Ok c \<longleftrightarrow>
     (\<exists>v. credit_text s v \<and> real_of_int (pico c) = v * 10 ^ 12 \<and> \<bar>pico c\<bar> \<le> MAX_PICO)"
  by (rule from_str_exact)

section \<open>Writing an amount\<close>

lemma pad_zeros_props:
  shows "all_digits (pad_zeros w n)" and "digits_val (pad_zeros w n) = n"
    and "0 < w \<Longrightarrow> n < 10 ^ w \<Longrightarrow> length (pad_zeros w n) = w"
proof -
  have z: "all_digits (replicate k CHR ''0'')" for k
    by (induction k) (auto simp: is_ascii_digit_def byte_def)
  show "all_digits (pad_zeros w n)" by (simp add: pad_zeros_def z)
  show "digits_val (pad_zeros w n) = n" by (simp add: pad_zeros_def digits_val_append digits_val_zeros)
  show "length (pad_zeros w n) = w" if "0 < w" "n < 10 ^ w"
    using nat_str_length [of n "w - 1"] that by (simp add: pad_zeros_def)
qed

text \<open>A whole part and a zero-padded fraction with its trailing zeros cut denote their sum.\<close>

lemma trimmed_fraction:
  assumes "f < 10 ^ w" "0 < w"
  defines "fp \<equiv> trim_end_zeros (pad_zeros w f)"
  shows "length fp \<le> w" "all_digits fp" "digits_val (ip @ fp) * 10 ^ (w - length fp) = digits_val ip * 10 ^ w + f"
    "f \<noteq> 0 \<Longrightarrow> fp \<noteq> []"
proof -
  note pad = pad_zeros_props(1,2) [of w f] pad_zeros_props(3) [OF assms(2,1)]
  have split: "pad_zeros w f = fp @ replicate (w - length fp) CHR ''0''"
    using trim_end_zeros_split [of "pad_zeros w f"] by (simp add: fp_def pad(3))
  have "length (pad_zeros w f) = length fp + (w - length fp)" by (subst split) simp
  then show len: "length fp \<le> w" using pad(3) by simp
  show "all_digits fp" using pad(1) split by (metis all_digits_simps(3))
  have "digits_val ip * 10 ^ w + f = digits_val (ip @ pad_zeros w f)"
    by (simp add: digits_val_append pad)
  also have "\<dots> = digits_val ((ip @ fp) @ replicate (w - length fp) CHR ''0'')" by (subst split) simp
  also have "\<dots> = digits_val (ip @ fp) * 10 ^ (w - length fp)"
    by (subst digits_val_append) (simp add: digits_val_zeros)
  finally show "digits_val (ip @ fp) * 10 ^ (w - length fp) = digits_val ip * 10 ^ w + f" by simp
  show "fp \<noteq> []" if "f \<noteq> 0"
  proof
    assume "fp = []"
    with split have "pad_zeros w f = replicate w CHR ''0''" by simp
    with pad(2) that show False by (metis digits_val_zeros)
  qed
qed

lemma fmt_text:
  "credit_text (credits_fmt c) (real_of_int (pico c) / 10 ^ 12)"
proof -
  define m f where "m = nat \<bar>pico c\<bar>" and "f = m mod 10 ^ 12"
  define ip where "ip = nat_str (m div 10 ^ 12)"
  define fp where "fp = (if f = 0 then [] else trim_end_zeros (pad_zeros 12 f))"
  have f: "f < 10 ^ 12" by (simp add: f_def)
  note fr = trimmed_fraction(1,2) [OF f] trimmed_fraction(3) [OF f, of ip] trimmed_fraction(4) [OF f]
  have scale: "nat SCALE = 10 ^ 12" by (simp add: SCALE_def)
  have s: "credits_fmt c = (if pico c < 0 then ''-'' else []) @ ip @ (if fp = [] then [] else CHR ''.'' # fp) @ []"
  proof -
    have "credits_fmt c = (if pico c < 0 then ''-'' else []) @ ip
        @ (if f \<noteq> 0 then CHR ''.'' # trim_end_zeros (pad_zeros 12 f) else [])"
      by (simp only: credits_fmt_def Let_def scale ip_def f_def m_def)
    then show ?thesis using fr(4) by (simp add: fp_def)
  qed
  have dig: "all_digits (ip @ fp)" "ip @ fp \<noteq> []" "length fp \<le> 12"
    using fr by (auto simp: ip_def fp_def)
  have "credit_shape (credits_fmt c) (pico c < 0) ip fp 0"
    unfolding s by (rule credit_shape.intros) (use dig in auto)
  then have ct: "credit_text (credits_fmt c) (decimal_value (pico c < 0) ip fp (Some 0))"
    by (rule credit_text.intros)
  have "digits_val (ip @ fp) * 10 ^ (12 - length fp) = digits_val ip * 10 ^ 12 + f"
    using fr(3) by (cases "f = 0") (auto simp: fp_def)
  also have "\<dots> = m" by (simp add: ip_def f_def)
  finally have "real (digits_val (ip @ fp)) * 10 ^ (12 - length fp) = real m" by (metis of_nat_mult of_nat_numeral of_nat_power)
  moreover have "(10::real) powi (- int (length fp)) * 10 ^ 12 = 10 ^ (12 - length fp)"
    using power_int_add [of "10::real" "- int (length fp)" 12] dig(3) by (simp add: power_int_def nat_diff_distrib)
  ultimately have "real (digits_val (ip @ fp)) * 10 powi (- int (length fp)) * 10 ^ 12 = real m"
    by (simp add: mult.assoc)
  moreover have "real_of_int (pico c) = (if pico c < 0 then -1 else 1) * real m" by (simp add: m_def)
  ultimately have "decimal_value (pico c < 0) ip fp (Some 0) = real_of_int (pico c) / 10 ^ 12"
    by (simp add: decimal_value_def exponent_of_def)
  with ct show ?thesis by simp
qed

definition credit_ok :: "credits \<Rightarrow> bool" where
  "credit_ok c \<longleftrightarrow> \<bar>pico c\<bar> \<le> MAX_PICO"

lemma from_str_fmt: "credit_ok c \<Longrightarrow> credits_from_str (credits_fmt c) = Ok c"
  using fmt_text [of c] by (subst from_str_exact) (auto simp: credit_ok_def intro!: exI)

section \<open>The stored decimal\<close>

lemma drop_tens_props:
  assumes "drop_tens c e = (c', e')" "c > 0" "e \<le> 6176"
  shows "c' * 10 ^ (e' - e) = c \<and> e \<le> e' \<and> e' \<le> 6176 \<and> c' \<le> c"
  using assms
proof (induction c e rule: drop_tens.induct)
  case (1 c e)
  show ?case
  proof (cases "e < 6176 \<and> c mod 10 = 0")
    case True
    then have "drop_tens (c div 10) (e + 1) = (c', e')" using "1.prems"(1) by (subst (asm) drop_tens.simps) simp
    moreover have "c div 10 > 0" using True "1.prems"(2) by (auto simp: div_greater_zero_iff dest: mod_less)
    ultimately have ih: "c' * 10 ^ (e' - (e + 1)) = c div 10" "e + 1 \<le> e'" "e' \<le> 6176" "c' \<le> c div 10"
      using "1.IH" [OF True] True by auto
    have "c' * 10 ^ (e' - e) = c' * 10 ^ (e' - (e + 1)) * 10"
      using ih(2) by (metis Suc_diff_Suc Suc_eq_plus1 Suc_le_lessD mult.assoc power_Suc2)
    also have "\<dots> = c" using ih(1) True by auto
    finally show ?thesis using ih(2-4) by (auto intro: order_trans)
  next
    case False
    then have "(c', e') = (c, e)" using "1.prems"(1) by (subst (asm) drop_tens.simps) auto
    then show ?thesis using "1.prems"(3) by simp
  qed
qed

lemma bit_of_small: "c < 2 ^ k \<Longrightarrow> bit (c::nat) n \<Longrightarrow> n < k"
  by (metis bit_take_bit_iff take_bit_nat_eq_self)

lemma fields_of_decimal:
  fixes s :: decimal128
  assumes "c < 2 ^ 113" "e < 2 ^ 14" "s = 0 \<or> s = 1"
  defines "w \<equiv> push_bit 127 s OR push_bit 113 (of_nat e) OR of_nat c"
  shows "drop_bit 113 w AND 0x3FFF = of_nat e" "w AND DECIMAL_COEFFICIENT_MASK = of_nat c"
    and "drop_bit 127 w = s"
proof -
  note c = bit_of_small [OF assms(1)] and e = bit_of_small [OF assms(2)]
  have s: "bit s n \<longleftrightarrow> s = 1 \<and> n = 0" for n using assms(3) by (auto simp: bit_1_iff)
  have m: "(0x3FFF :: decimal128) = mask 14" "DECIMAL_COEFFICIENT_MASK = mask 113"
    by (simp_all add: mask_eq_decr_exp DECIMAL_COEFFICIENT_MASK_def push_bit_eq_mult mask_numeral)
  show "drop_bit 113 w AND 0x3FFF = of_nat e"
    unfolding m w_def by (rule bit_word_eqI) (auto simp: bit_simps s dest: c e)
  show "w AND DECIMAL_COEFFICIENT_MASK = of_nat c"
    unfolding m w_def by (rule bit_word_eqI) (auto simp: bit_simps s dest: c e)
  show "drop_bit 127 w = s"
    unfolding w_def by (rule bit_word_eqI) (auto simp: bit_simps s dest: c e)
qed

lemma from_bson_decimal:
  assumes "credit_ok a"
  shows "from_bson decimal_str (BDecimal128 (decimal a)) scale = Ok a"
proof -
  define m where "m = nat \<bar>pico a\<bar>"
  obtain c e where ce: "(if m = 0 then (m, 6176) else drop_tens m DECIMAL_PICO_EXPONENT) = (c, e)" by force
  have p: "c * 10 ^ (e - DECIMAL_PICO_EXPONENT) = m \<and> DECIMAL_PICO_EXPONENT \<le> e \<and> e \<le> 6176 \<and> c \<le> m"
    using ce drop_tens_props [of m DECIMAL_PICO_EXPONENT c e]
    by (auto simp: DECIMAL_PICO_EXPONENT_def split: if_splits)
  have "int m \<le> MAX_PICO" using assms by (simp add: m_def credit_ok_def)
  then have m: "m < 2 ^ 113" by (simp add: MAX_PICO_def)
  then have bounds: "c < 2 ^ 113" "e < 2 ^ 14" using p by auto
  define s :: decimal128 where "s = (if pico a < 0 then 1 else 0)"
  have s01: "s = 0 \<or> s = 1" by (simp add: s_def)
  note fields = fields_of_decimal [OF bounds s01]
  have w: "decimal a = push_bit 127 s OR push_bit 113 (of_nat e) OR of_nat c"
    by (simp only: decimal_def Let_def m_def [symmetric] ce prod.case s_def)
  have e: "unat (of_nat e :: decimal128) = e" using bounds(2) by (simp add: unat_of_nat take_bit_nat_eq_self)
  have c: "uint (of_nat c :: decimal128) = int c"
    using bounds(1) by (simp add: uint_nat unat_of_nat take_bit_nat_eq_self)
  have "int c * 10 ^ (e - DECIMAL_PICO_EXPONENT) = int m" using p by (metis of_nat_mult of_nat_numeral of_nat_power)
  moreover have "checked_i128 (int m) = Some (int m)"
    using \<open>int m \<le> MAX_PICO\<close> by (simp add: i128_covers)
  moreover have "from_pico (if s = 0 then int m else - int m) = Ok a"
    using assms by (auto simp: s_def m_def from_pico_Ok_iff credit_ok_def)
  ultimately show ?thesis
    unfolding from_bson_def bson.case w fields e c Let_def using p by simp
qed

section \<open>Checked arithmetic\<close>

lemma checked_ops_Ok_iff:
  "checked_add a b = Ok c \<longleftrightarrow> pico c = pico a + pico b \<and> credit_ok c"
  "checked_sub a b = Ok c \<longleftrightarrow> pico c = pico a - pico b \<and> credit_ok c"
  "checked_mul a q = Ok c \<longleftrightarrow> pico c = pico a * q \<and> credit_ok c"
  by (auto simp: checked_add_def checked_sub_def checked_mul_def from_pico_Ok_iff credit_ok_def
      intro: i128_covers)

lemma try_fold_add:
  "credit_ok acc \<Longrightarrow> try_fold checked_add acc xs = Ok c
    \<longleftrightarrow> list_all (\<lambda>ys. \<bar>pico acc + sum_list (map pico ys)\<bar> \<le> MAX_PICO) (prefixes xs)
        \<and> pico c = pico acc + sum_list (map pico xs)"
proof (induction xs arbitrary: acc)
  case Nil
  then show ?case by (cases acc; cases c) (auto simp: credit_ok_def)
next
  case (Cons x xs)
  show ?case
  proof (cases "checked_add acc x")
    case (Inl e)
    have "\<not> \<bar>pico acc + pico x\<bar> \<le> MAX_PICO"
      using Inl checked_ops_Ok_iff(1) [of acc x "Credits (pico acc + pico x)"] by (auto simp: credit_ok_def)
    then have "\<not> list_all (\<lambda>ys. \<bar>pico acc + sum_list (map pico ys)\<bar> \<le> MAX_PICO) (prefixes (x # xs))"
      by (cases xs) (auto simp: list_all_iff)
    with Inl show ?thesis by (simp only: try_fold.simps sum.case) simp
  next
    case (Inr y)
    then have y: "pico y = pico acc + pico x" "credit_ok y" by (auto simp: checked_ops_Ok_iff)
    then show ?thesis using Cons.IH [OF y(2)] Inr Cons.prems
      by (simp add: list.pred_map o_def add.assoc credit_ok_def)
  qed
qed

text \<open>
  Every checked operation on amounts is exact or refused: it returns an amount precisely
  when the true integer result lies in the supported range, and the amount is that result. A
  sum is returned precisely when every running total is in range. The 128-bit intermediate
  arithmetic never refuses a result that fits.
\<close>

theorem checked_arithmetic_exact:
  "(checked_add a b = Ok c \<longleftrightarrow> pico c = pico a + pico b \<and> \<bar>pico c\<bar> \<le> MAX_PICO)
   \<and> (checked_sub a b = Ok c \<longleftrightarrow> pico c = pico a - pico b \<and> \<bar>pico c\<bar> \<le> MAX_PICO)
   \<and> (checked_mul a q = Ok c \<longleftrightarrow> pico c = pico a * q \<and> \<bar>pico c\<bar> \<le> MAX_PICO)
   \<and> (checked_sum xs = Ok c \<longleftrightarrow> pico c = sum_list (map pico xs)
        \<and> list_all (\<lambda>ys. \<bar>sum_list (map pico ys)\<bar> \<le> MAX_PICO) (prefixes xs))"
proof -
  have "credit_ok ZERO" "pico ZERO = 0" by (simp_all add: credit_ok_def ZERO_def MAX_PICO_def)
  then show ?thesis
    using try_fold_add [of ZERO xs c] unfolding checked_ops_Ok_iff checked_sum_def credit_ok_def by auto
qed

text \<open>
  C16. An amount survives both of its representations: the text the code prints parses back to
  it, and the IEEE decimal the code stores reads back to it, bit fields and all, for every
  amount in the supported range.
\<close>

theorem amount_roundtrip:
  assumes "\<bar>pico a\<bar> \<le> MAX_PICO"
  shows "credits_of_json (credits_to_json a) = Ok a \<and> from_bson decimal_str (bson_of_credits a) scale = Ok a"
  using assms from_str_fmt [of a] from_bson_decimal [of a]
  by (simp add: credit_ok_def credits_of_json_def credits_to_json_def bson_of_credits_def)

lemma amount_roundtrip_witness:
  "from_bson (\<lambda>_. '''') (bson_of_credits (Credits (-9999999999200000))) 1 = Ok (Credits (-9999999999200000))"
  using amount_roundtrip [of "Credits (-9999999999200000)" "\<lambda>_. ''''" 1] by (simp add: MAX_PICO_def)

section \<open>Legacy documents\<close>

lemma normalize_frame:
  "normalize_legacy_fields ds al doc = Ok doc' \<Longrightarrow> k \<notin> set (map fst al @ map snd al) \<Longrightarrow> doc' k = doc k"
  by (induction ds al doc rule: normalize_legacy_fields.induct)
    (auto simp: Let_def split: option.splits if_splits sum.splits)

definition migrated :: "(decimal128 \<Rightarrow> string) \<Rightarrow> bson option \<Rightarrow> bson option \<Rightarrow> bson option" where
  "migrated ds present legacy = (case present of Some v \<Rightarrow> Some v
     | None \<Rightarrow> (case legacy of None \<Rightarrow> None
         | Some l \<Rightarrow> if l = BNull then Some BNull
             else (case from_bson ds l 1000000 of Err _ \<Rightarrow> None | Ok a \<Rightarrow> Some (bson_of_credits a))))"

lemma normalize_step:
  assumes "normalize_legacy_fields ds ((n, old) # al) doc = Ok doc'" "n \<noteq> old"
  shows "normalize_legacy_fields ds al (doc(old := None, n := migrated ds (doc n) (doc old))) = Ok doc'"
proof -
  have same: "doc(old := None, n := doc n) = doc(old := None)" using assms(2) by auto
  show ?thesis
    using assms same by (auto simp: migrated_def Let_def split: option.splits if_splits sum.splits)
qed

text \<open>
  A legacy document is migrated key by key: after a successful normalization no old key is
  left, a document that already had the new key keeps exactly what it had under it, and
  otherwise the new key holds the old amount, converted at the scale of microcredits (a null
  stays a null, an absent amount stays absent).
\<close>

theorem legacy_fields_migrate:
  assumes "normalize_legacy_fields ds aliases doc = Ok doc'"
    and "distinct (map fst aliases @ map snd aliases)" and "(new, old) \<in> set aliases"
  shows "doc' old = None \<and> doc' new = migrated ds (doc new) (doc old)"
  using assms
proof (induction aliases arbitrary: doc)
  case (Cons pr aliases)
  obtain n old' where pr: "pr = (n, old')" by force
  show ?case
  proof (cases "(new, old) = (n, old')")
    case True
    have new: "new \<notin> set (map fst aliases @ map snd aliases)"
      and old: "old \<notin> set (map fst aliases @ map snd aliases)" and neq: "n \<noteq> old'"
      using Cons.prems(2) True pr by auto
    note step = normalize_step [OF Cons.prems(1) [unfolded pr] neq]
    show ?thesis
      using normalize_frame [OF step new] normalize_frame [OF step old] True neq by simp
  next
    case False
    then have mem: "(new, old) \<in> set aliases" "distinct (map fst aliases @ map snd aliases)" "n \<noteq> old'"
      using Cons.prems pr by auto
    have other: "new \<noteq> n" "new \<noteq> old'" "old \<noteq> n" "old \<noteq> old'"
      using Cons.prems(2) mem(1) pr by (auto simp: image_iff)
    show ?thesis
      using Cons.IH [OF normalize_step [OF Cons.prems(1) [unfolded pr] mem(3)] mem(2,1)] other by simp
  qed
qed simp

lemma legacy_fields_migrate_witness:
  "\<exists>doc'. normalize_legacy_fields (\<lambda>_. '''') [(''amount'', ''amount_micros'')] [''amount_micros'' \<mapsto> BInt64 472] = Ok doc'
     \<and> doc' ''amount'' = Some (bson_of_credits (Credits 472000000))"
proof -
  obtain doc' where d: "normalize_legacy_fields (\<lambda>_. '''') [(''amount'', ''amount_micros'')] [''amount_micros'' \<mapsto> BInt64 472] = Ok doc'"
    by (simp add: Let_def from_bson_def from_pico_def MAX_PICO_def)
  from legacy_fields_migrate [OF d, of "''amount''" "''amount_micros''"] d show ?thesis
    by (auto simp: migrated_def from_bson_def from_pico_def MAX_PICO_def)
qed

section \<open>Prices\<close>

lemma decimal_to_pico_parts:
  "decimal_to_pico raw =
     (let (ip, fp) = point_part (trim raw) in
      if ip = [] \<or> \<not> all_digits ip \<or> length fp > 12 \<or> \<not> all_digits fp then None
      else let p = int (digits_val ip) * 10 ^ 12 + int (digits_val fp) * 10 ^ (12 - length fp)
           in if p \<le> i64_max then Some p else None)"
proof -
  obtain ip fp where pp: "point_part (trim raw) = (ip, fp)" by force
  show ?thesis
  proof (cases "ip = [] \<or> \<not> all_digits ip \<or> length fp > 12 \<or> \<not> all_digits fp")
    case True
    then show ?thesis
      unfolding decimal_to_pico_def Let_def point_part_def [symmetric] pp prod.case PRICE_FRACTIONAL_DIGITS_def
      by (simp only: if_True)
  next
    case False
    define w f where "w = int (digits_val ip)" and "f = int (digits_val fp) * 10 ^ (12 - length fp)"
    have "digits_val fp < 10 ^ length fp" using False by (simp add: digits_val_less)
    then have "digits_val fp * 10 ^ (12 - length fp) < 10 ^ length fp * 10 ^ (12 - length fp)" by simp
    also have "\<dots> = 10 ^ 12" unfolding power_add [symmetric] using False by simp
    finally have "int (digits_val fp * 10 ^ (12 - length fp)) < int (10 ^ 12)" by (simp only: of_nat_less_iff)
    then have f: "f < 10 ^ 12" "0 \<le> f" by (simp_all add: f_def)
    have "int (digits_val fp) \<le> f" by (simp add: f_def mult_le_cancel_left1)
    with f have fp: "int (digits_val fp) \<le> i64_max" "f \<le> i64_max" by (simp_all add: i64_max_def)
    have frac: "(if fp = [] then Some 0 else Option.bind (parse_int i64_min i64_max fp)
        (\<lambda>f. checked_i64 (f * 10 ^ (12 - length fp)))) = Some f"
    proof -
      have "checked_i64 f = Some f" using fp f by (simp add: i64_min_def)
      moreover have "fp \<noteq> [] \<Longrightarrow> parse_int i64_min i64_max fp = Some (int (digits_val fp))"
        using False fp by (simp add: parse_int_digits i64_min_def)
      ultimately show ?thesis by (auto simp flip: f_def) (simp add: f_def)
    qed
    have whole: "parse_int i64_min i64_max ip = (if w \<le> i64_max then Some w else None)"
      using False by (simp add: parse_int_digits w_def i64_min_def)
    have w: "0 \<le> w" by (simp add: w_def)
    have sum: "(if w * 10 ^ 12 + f \<le> i64_max then Some (w * 10 ^ 12 + f) else None)
      = Option.bind (if w \<le> i64_max then Some w else None) (\<lambda>w. Option.bind (Some f)
          (\<lambda>f. Option.bind (checked_i64 (w * PICO_PER_CREDIT)) (\<lambda>p. checked_i64 (p + f))))"
      using w f by (auto simp: checked_i64_def PICO_PER_CREDIT_def i64_min_def i64_max_def)
    show ?thesis
      unfolding decimal_to_pico_def Let_def point_part_def [symmetric] pp prod.case PRICE_FRACTIONAL_DIGITS_def
        if_not_P [OF False] frac whole w_def [symmetric] f_def [symmetric] sum ..
  qed
qed

lemma trim_end_zeros_append:
  assumes "trim_end_zeros t \<noteq> []"
  shows "trim_end_zeros (s @ t) = s @ trim_end_zeros t"
proof -
  let ?P = "\<lambda>c. c = CHR ''0''"
  from assms obtain c where "c \<in> set (rev t)" "\<not> ?P c" by (auto simp: trim_end_zeros_def dropWhile_eq_Nil_conv)
  then have "dropWhile ?P (rev t @ rev s) = dropWhile ?P (rev t) @ rev s" by (rule dropWhile_append1)
  then show ?thesis by (simp add: trim_end_zeros_def)
qed

lemma trim_end_zeros_keep: "c \<noteq> CHR ''0'' \<Longrightarrow> trim_end_zeros (s @ [c]) = s @ [c]"
  by (simp add: trim_end_zeros_def)

lemma digit_not_ws: "is_ascii_digit c \<Longrightarrow> \<not> ws_byte c"
  by (auto simp: is_ascii_digit_def ws_byte_def ws_codes_def byte_def)

lemma dot_not_ws: "\<not> ws_byte CHR ''.''"
  by code_simp

text \<open>
  Prices are read exactly: \<open>decimal_to_pico\<close> returns a rate precisely when the trimmed text
  is a plain decimal with at most 12 fraction digits, and the rate is then its value in
  picocredits, refused when it does not fit 64 bits.
\<close>

theorem decimal_to_pico_exact:
  "decimal_to_pico raw = Some p \<longleftrightarrow>
     (\<exists>ip point fp. trim raw = ip @ point \<and> (point = CHR ''.'' # fp \<or> point = [] \<and> fp = [])
        \<and> ip \<noteq> [] \<and> all_digits (ip @ fp) \<and> length fp \<le> 12
        \<and> real_of_int p = decimal_value False ip fp None * 10 ^ 12 \<and> p \<le> i64_max)"
proof -
  have v: "real_of_int p = decimal_value False ip fp None * 10 ^ 12
      \<longleftrightarrow> p = int (digits_val ip) * 10 ^ 12 + int (digits_val fp) * 10 ^ (12 - length fp)"
    if "length fp \<le> 12" for ip fp
  proof -
    have s: "(10::real) powi (- int (length fp)) * 10 ^ 12 = 10 ^ (12 - length fp)"
      using power_int_add [of "10::real" "- int (length fp)" 12] that by (simp add: power_int_def nat_diff_distrib)
    have e: "(10::int) ^ length fp * 10 ^ (12 - length fp) = 10 ^ 12"
      using that by (simp flip: power_add)
    have "decimal_value False ip fp None * 10 ^ 12 = real (digits_val (ip @ fp)) * (10 powi (- int (length fp)) * 10 ^ 12)"
      by (simp add: decimal_value_def exponent_of_def)
    also have "\<dots> = real_of_int (int (digits_val (ip @ fp)) * 10 ^ (12 - length fp))"
      unfolding s by simp
    also have "int (digits_val (ip @ fp)) * 10 ^ (12 - length fp)
        = int (digits_val ip) * 10 ^ 12 + int (digits_val fp) * 10 ^ (12 - length fp)"
      by (simp add: digits_val_append distrib_right mult.assoc e)
    finally show ?thesis by (simp only: of_int_eq_iff)
  qed
  show ?thesis (is "?L = ?R")
  proof
    assume ?L
    then obtain ip fp where pp: "point_part (trim raw) = (ip, fp)" and ok: "ip \<noteq> []" "all_digits (ip @ fp)" "length fp \<le> 12"
      and p: "p = int (digits_val ip) * 10 ^ 12 + int (digits_val fp) * 10 ^ (12 - length fp)" "p \<le> i64_max"
      by (auto simp: decimal_to_pico_parts Let_def split: prod.splits if_splits)
    with point_part_D [OF pp] v [OF ok(3)] show ?R by blast
  next
    assume ?R
    then obtain ip point fp where t: "trim raw = ip @ point" "point = CHR ''.'' # fp \<or> point = [] \<and> fp = []"
      and ok: "ip \<noteq> []" "all_digits ip" "all_digits fp" "length fp \<le> 12"
      and p: "real_of_int p = decimal_value False ip fp None * 10 ^ 12" "p \<le> i64_max"
      unfolding all_digits_simps by blast
    have "p = int (digits_val ip) * 10 ^ 12 + int (digits_val fp) * 10 ^ (12 - length fp)"
      using p(1) v [OF ok(4)] by blast
    with t ok p(2) show ?L by (simp add: decimal_to_pico_parts point_part_shape [OF ok(2) t(2)])
  qed
qed

text \<open>
  A stored price survives its text: printing any non-negative 64-bit rate and reading it
  back gives the same rate.
\<close>

theorem price_roundtrip:
  assumes "0 \<le> p" and "p \<le> i64_max"
  shows "decimal_to_pico (format_pico p) = Some p"
proof -
  define m where "m = nat p"
  define ip f where "ip = nat_str (m div 10 ^ 12)" and "f = m mod 10 ^ 12"
  define fp where "fp = (if f = 0 then [] else trim_end_zeros (pad_zeros 12 f))"
  have p: "p = int m" using assms(1) by (simp add: m_def)
  have f: "f < 10 ^ 12" by (simp add: f_def)
  note fr = trimmed_fraction(1,2) [OF f] trimmed_fraction(3) [OF f, of ip] trimmed_fraction(4) [OF f]
  have parts: "p sdiv PICO_PER_CREDIT = int (m div 10 ^ 12)" "p smod PICO_PER_CREDIT = int f"
    by (cases "m = 0"; simp add: p f_def PICO_PER_CREDIT_def signed_divide_int_def signed_modulo_int_def
        zdiv_int zmod_int minus_mult_div_eq_mod mult.commute)+
  have fmt: "format_pico p = ip @ (if fp = [] then [] else CHR ''.'' # fp)"
  proof (cases "f = 0")
    case True
    then show ?thesis by (simp add: format_pico_def Let_def parts fp_def ip_def int_str_def)
  next
    case False
    then have "trim_end_zeros (pad_zeros 12 f) \<noteq> []" using fr(4) by simp
    then have "trim_end_zeros ((ip @ ''.'') @ pad_zeros 12 f) = (ip @ ''.'') @ trim_end_zeros (pad_zeros 12 f)"
      by (rule trim_end_zeros_append)
    with False fr(4) show ?thesis
      by (simp add: format_pico_def Let_def parts fp_def ip_def int_str_def pad_zeros_int_def)
  qed
  have dig: "all_digits ip" "all_digits fp" "ip \<noteq> []" "length fp \<le> 12" using fr(1,2) by (auto simp: ip_def fp_def)
  have "\<forall>c \<in> set (format_pico p). \<not> ws_byte c"
    using dig(1,2) digit_not_ws dot_not_ws by (auto simp: fmt all_digits_def list_all_iff)
  then have trim: "trim (format_pico p) = ip @ (if fp = [] then [] else CHR ''.'' # fp)"
    using trim_id_if_no_ws_byte fmt by simp
  have "point_part (trim (format_pico p)) = (ip, fp)"
    unfolding trim by (rule point_part_shape [OF dig(1)]) simp
  moreover have "int (digits_val ip) * 10 ^ 12 + int (digits_val fp) * 10 ^ (12 - length fp) = p"
  proof -
    have "digits_val fp * 10 ^ (12 - length fp) = f"
    proof (cases "f = 0")
      case False
      then show ?thesis using trimmed_fraction(3) [OF f, of "[]"] by (simp add: fp_def)
    qed (simp add: fp_def)
    then have "int (digits_val fp) * 10 ^ (12 - length fp) = int f" by (metis of_nat_mult of_nat_numeral of_nat_power)
    then show ?thesis by (simp add: ip_def f_def p zdiv_int zmod_int)
  qed
  ultimately show ?thesis using dig assms(2) by (simp add: decimal_to_pico_parts)
qed

lemma price_roundtrip_witness: "decimal_to_pico (format_pico 250001) = Some 250001"
  using price_roundtrip [of 250001] by (simp add: i64_max_def)

text \<open>
  What a quantity costs is exact: \<open>cost\<close> charges rate times quantity (nothing for a negative
  quantity), to the picocredit, precisely when rate and charge lie in the supported range, and
  otherwise refuses; it never saturates.
\<close>

theorem cost_is_exact:
  "cost rate quantity = Ok c \<longleftrightarrow>
     pico c = rate * max quantity 0 \<and> \<bar>rate\<bar> \<le> MAX_PICO \<and> \<bar>pico c\<bar> \<le> MAX_PICO"
  unfolding cost_def and_then_Ok_iff from_pico_Ok_iff checked_ops_Ok_iff(3) credit_ok_def
  by (metis credits.sel)

end
