(* ===== verification/Runtime_Billing.thy ===== *)
theory Runtime_Billing
  imports Json
begin

text \<open>
  What metered running time costs: the evidence check of a funded sandbox window
  (\<open>services/billing/sandbox_runtime_math.rs\<close>) and the second carry of machine runtime
  (\<open>services/billing/machine_runtime_math.rs\<close>).
\<close>

section \<open>Sandbox windows\<close>

definition MAX_WINDOW_SECONDS :: int where "MAX_WINDOW_SECONDS = 300"
definition MAX_EVIDENCE_INTERVALS :: nat where "MAX_EVIDENCE_INTERVALS = 1024"

text \<open>
  \<open>[i64; 3]\<close>: CPU millicores, RAM MiB and retained disk GiB, as a list of length three.
\<close>

type_synonym quantities = "int list"

record interval_evidence =
  iv_revision :: int
  iv_started_at :: int
  iv_ended_at :: int
  iv_allocation :: quantities
  iv_quantity :: quantities

definition allocation_quantities :: "quantities \<Rightarrow> int \<Rightarrow> string + quantities" where
  "allocation_quantities allocation seconds =
     (if seconds < 0 \<or> list_ex (\<lambda>quantity. quantity < 0) allocation
      then Err ''Sandbox quantities must be non-negative integers''
      else try_map (\<lambda>a. ok_or (checked_i64 (a * seconds)) ''Sandbox allocation quantity overflow'')
             allocation)"

definition finite_quantities :: "quantities \<Rightarrow> int \<Rightarrow> string + quantities" where
  "finite_quantities allocation seconds =
     (if \<not> (1 \<le> seconds \<and> seconds \<le> MAX_WINDOW_SECONDS)
      then Err ''Sandbox funding requires a finite window of at most 300 seconds''
      else allocation_quantities allocation seconds)"

definition add_quantities :: "quantities \<Rightarrow> quantities \<Rightarrow> string + quantities" where
  "add_quantities totals quantity =
     try_map (\<lambda>(t, q). ok_or (checked_i64 (t + q)) ''Sandbox evidence quantity overflow'')
       (zip totals quantity)"

definition exceeds :: "quantities \<Rightarrow> quantities \<Rightarrow> bool" where
  "exceeds xs ys \<longleftrightarrow> list_ex (\<lambda>(used, reserved). used > reserved) (zip xs ys)"

text \<open>The loop over the intervals, with its three variables \<open>totals\<close>, \<open>cursor\<close>, \<open>previous\<close>.\<close>

fun evidence_loop ::
  "int \<Rightarrow> int \<Rightarrow> quantities \<Rightarrow> interval_evidence list \<Rightarrow> quantities \<Rightarrow> int \<Rightarrow> interval_evidence option
   \<Rightarrow> string + (quantities \<times> int)"
where
  "evidence_loop from until allocation [] totals cursor previous = Ok (totals, cursor)"
| "evidence_loop from until allocation (interval # intervals) totals cursor previous =
     (if iv_revision interval \<le> 0 \<or> iv_started_at interval < 0
         \<or> iv_ended_at interval < iv_started_at interval
      then Err ''Invalid Sandbox ledger interval''
      else if (case previous of None \<Rightarrow> False
               | Some prev \<Rightarrow> checked_i64 (iv_revision prev + 1) \<noteq> Some (iv_revision interval)
                   \<or> iv_ended_at prev \<noteq> iv_started_at interval)
      then Err ''Sandbox ledger revisions or intervals are not contiguous''
      else and_then (allocation_quantities (iv_allocation interval)
                       (iv_ended_at interval - iv_started_at interval)) (\<lambda>recorded.
        if recorded \<noteq> iv_quantity interval
        then Err ''Sandbox ledger arithmetic does not match its allocation''
        else if iv_ended_at interval < from \<or> iv_started_at interval > until
        then Err ''Sandbox ledger interval is outside funded coverage''
        else (let start = max (iv_started_at interval) from;
                  end' = min (iv_ended_at interval) until
              in if start \<noteq> cursor \<or> end' < start
                 then Err ''Sandbox ledger has a gap or overlap in funded coverage''
                 else and_then
                   (if end' > start
                    then if exceeds (iv_allocation interval) allocation
                         then Err ''Sandbox allocation exceeds the accepted reservation''
                         else and_then (allocation_quantities (iv_allocation interval) (end' - start))
                                (\<lambda>quantity. add_quantities totals quantity)
                    else Ok totals)
                   (\<lambda>totals'. evidence_loop from until allocation intervals totals' end' (Some interval)))))"

definition evidenced_quantities ::
  "int \<Rightarrow> int \<Rightarrow> quantities \<Rightarrow> interval_evidence list \<Rightarrow> string + quantities" where
  "evidenced_quantities from until allocation intervals =
     (if from < 0 \<or> until \<le> from \<or> until - from > MAX_WINDOW_SECONDS
      then Err ''Invalid funded Sandbox interval''
      else and_then (finite_quantities allocation (until - from)) (\<lambda>maximum.
        if intervals = [] \<or> length intervals > MAX_EVIDENCE_INTERVALS
        then Err ''Sandbox evidence must be a bounded nonempty ledger range''
        else and_then (evidence_loop from until allocation intervals [0, 0, 0] from None)
          (\<lambda>(totals, cursor).
            if cursor \<noteq> until \<or> exceeds totals maximum
            then Err ''Sandbox evidence does not close the funded window''
            else Ok totals)))"

section \<open>Machine runtime\<close>

definition SECOND_NS :: int where "SECOND_NS = 1000000000"

definition cumulative_seconds :: "int \<Rightarrow> int \<Rightarrow> (int \<times> int) option" where
  "cumulative_seconds previous_ns additional_ns =
     (if previous_ns < 0 \<or> additional_ns < 0 then None
      else map_option (\<lambda>totals. (totals, totals div SECOND_NS - previous_ns div SECOND_NS))
             (checked_i64 (previous_ns + additional_ns)))"

definition quote_is_live :: "int \<Rightarrow> int \<Rightarrow> bool" where
  "quote_is_live created_ms now_ms \<longleftrightarrow>
     now_ms \<ge> created_ms \<and> now_ms < min (created_ms + 15 * 60 * 1000) i64_max"

end
