(* ===== verification/Runtime_Billing_Properties.thy ===== *)
theory Runtime_Billing_Properties
  imports Runtime_Billing
begin

text \<open>
  Sandbox evidence against the ledger it stands for: what is charged is the sum, over the
  seconds of the funded window, of what was allocated in that second.
\<close>

section \<open>The ledger second by second\<close>

definition covers :: "int \<Rightarrow> interval_evidence \<Rightarrow> bool" where
  "covers t v \<longleftrightarrow> iv_started_at v \<le> t \<and> t < iv_ended_at v"

text \<open>What the intervals that cover second \<open>t\<close> allocate of resource \<open>i\<close>.\<close>

definition allocated_at :: "interval_evidence list \<Rightarrow> int \<Rightarrow> nat \<Rightarrow> int" where
  "allocated_at ivs t i = sum_list (map (\<lambda>v. iv_allocation v ! i) (filter (covers t) ivs))"

lemma allocated_at_simps:
  "allocated_at [] t i = 0"
  "allocated_at (v # vs) t i = (if covers t v then iv_allocation v ! i else 0) + allocated_at vs t i"
  by (simp_all add: allocated_at_def)

lemma allocated_at_none: "filter (covers t) ivs = [] \<Longrightarrow> allocated_at ivs t i = 0"
  by (simp add: allocated_at_def)

lemma allocation_quantities_Ok:
  assumes "allocation_quantities a s = Ok q"
  shows "q = map (\<lambda>x. x * s) a" "0 \<le> s" "\<forall>x \<in> set a. 0 \<le> x"
proof -
  from assms show "0 \<le> s" "\<forall>x \<in> set a. 0 \<le> x"
    by (auto simp: allocation_quantities_def list_ex_iff not_less split: if_splits)
  from assms have "list_all2 (\<lambda>x y. ok_or (checked_i64 (x * s)) ''Sandbox allocation quantity overflow'' = Ok y) a q"
    by (simp add: allocation_quantities_def try_map_Ok_iff split: if_splits)
  then show "q = map (\<lambda>x. x * s) a"
    by (induction rule: list_all2_induct) auto
qed

lemma add_quantities_Ok:
  "add_quantities t q = Ok r \<Longrightarrow> length t = length q \<Longrightarrow> length r = length t \<and> (\<forall>i < length t. r ! i = t ! i + q ! i)"
  by (auto simp: add_quantities_def try_map_Ok_iff list_all2_conv_all_nth)

lemma exceeds_iff: "length xs = length ys \<Longrightarrow> exceeds xs ys \<longleftrightarrow> (\<exists>i < length xs. ys ! i < xs ! i)"
  by (auto simp: exceeds_def list_ex_iff set_zip) 

text \<open>One turn of the loop.\<close>

lemma evidence_loop_step:
  assumes "evidence_loop from until alloc (v # vs) totals cursor prev = Ok out"
    and "length totals = 3" "length (iv_allocation v) = 3" "length alloc = 3" "from \<le> until"
  obtains totals' where
    "evidence_loop from until alloc vs totals' (min (iv_ended_at v) until) (Some v) = Ok out"
    and "cursor = max (iv_started_at v) from" "cursor \<le> min (iv_ended_at v) until" "length totals' = 3"
    and "\<forall>i<3. totals' ! i = totals ! i + (min (iv_ended_at v) until - cursor) * iv_allocation v ! i"
    and "cursor < min (iv_ended_at v) until \<Longrightarrow> \<forall>i<3. 0 \<le> iv_allocation v ! i \<and> iv_allocation v ! i \<le> alloc ! i"
proof -
  let ?s = "max (iv_started_at v) from" and ?e = "min (iv_ended_at v) until"
  from assms(1) obtain totals' where c: "?s = cursor" "?s \<le> ?e"
    and t: "(if ?e > ?s then if exceeds (iv_allocation v) alloc
               then Err ''Sandbox allocation exceeds the accepted reservation''
               else and_then (allocation_quantities (iv_allocation v) (?e - ?s)) (\<lambda>q. add_quantities totals q)
             else Ok totals) = Ok totals'"
    and rest: "evidence_loop from until alloc vs totals' ?e (Some v) = Ok out"
    by (auto simp: Let_def simp del: max_less_iff_conj min_less_iff_conj split: if_split_asm)
  show ?thesis
  proof (cases "?s < ?e")
    case True
    with t obtain q where q: "allocation_quantities (iv_allocation v) (?e - ?s) = Ok q"
      "add_quantities totals q = Ok totals'" "\<not> exceeds (iv_allocation v) alloc"
      by (auto split: if_split_asm)
    note aq = allocation_quantities_Ok [OF q(1)]
    have len: "length q = 3" using aq(1) assms(3) by simp
    note add = add_quantities_Ok [OF q(2), unfolded assms(2) len]
    have "\<forall>i<3. totals' ! i = totals ! i + (?e - cursor) * iv_allocation v ! i"
      using add aq(1) assms(3) c(1) by (auto simp: mult.commute)
    moreover have "\<forall>i<3. 0 \<le> iv_allocation v ! i \<and> iv_allocation v ! i \<le> alloc ! i"
      using aq(3) q(3) assms(3,4) by (simp add: exceeds_iff not_less) (metis not_le)
    ultimately show ?thesis using that rest c add by simp
  next
    case False
    with t c have "totals' = totals" "?e = cursor" by auto
    with that [OF rest] c False assms(2) show ?thesis by simp
  qed
qed

lemma evidence_loop_covers:
  assumes "evidence_loop from until alloc vs totals cursor prev = Ok (totals', until)"
    and "length totals = 3" "length alloc = 3" "from \<le> until" "\<forall>v \<in> set vs. length (iv_allocation v) = 3"
    and "from \<le> cursor"
  shows "(\<forall>t. from \<le> t \<and> t < cursor \<longrightarrow> filter (covers t) vs = [])
    \<and> (\<forall>t. cursor \<le> t \<and> t < until \<longrightarrow> length (filter (covers t) vs) = 1
         \<and> (\<forall>i<3. 0 \<le> allocated_at vs t i \<and> allocated_at vs t i \<le> alloc ! i))
    \<and> (\<forall>i<3. totals' ! i = totals ! i + (\<Sum>t \<in> {cursor..<until}. allocated_at vs t i))"
  using assms
proof (induction vs arbitrary: totals cursor prev)
  case Nil
  then show ?case by simp
next
  case (Cons v vs)
  let ?e = "min (iv_ended_at v) until"
  obtain totals1 where step: "evidence_loop from until alloc vs totals1 ?e (Some v) = Ok (totals', until)"
    "cursor = max (iv_started_at v) from" "cursor \<le> ?e" "length totals1 = 3"
    "\<forall>i<3. totals1 ! i = totals ! i + (?e - cursor) * iv_allocation v ! i"
    "cursor < ?e \<Longrightarrow> \<forall>i<3. 0 \<le> iv_allocation v ! i \<and> iv_allocation v ! i \<le> alloc ! i"
    using evidence_loop_step [OF Cons.prems(1,2) _ Cons.prems(3,4)] Cons.prems(5) by (metis list.set_intros(1))
  have e: "from \<le> ?e" using step(3) Cons.prems(6) by simp
  note ih = Cons.IH [OF step(1,4) Cons.prems(3,4) _ e]
  have ih1: "filter (covers t) vs = []" if "from \<le> t" "t < ?e" for t
    using ih Cons.prems(5) that by simp
  have ih2: "length (filter (covers t) vs) = 1" "\<forall>i<3. 0 \<le> allocated_at vs t i \<and> allocated_at vs t i \<le> alloc ! i"
    if "?e \<le> t" "t < until" for t
    using ih Cons.prems(5) that by simp_all
  have ih3: "\<forall>i<3. totals' ! i = totals1 ! i + (\<Sum>t \<in> {?e..<until}. allocated_at vs t i)"
    using ih Cons.prems(5) by simp
  have in_v: "covers t v" if "cursor \<le> t" "t < ?e" for t
    using that step(2) by (simp add: covers_def)
  have out_v: "\<not> covers t v" if "from \<le> t" "t < cursor \<or> ?e \<le> t" "t < until" for t
    using that step(2) by (auto simp: covers_def max_def min_def split: if_splits)
  have cov: "length (filter (covers t) (v # vs)) = 1
      \<and> (\<forall>i<3. 0 \<le> allocated_at (v # vs) t i \<and> allocated_at (v # vs) t i \<le> alloc ! i)"
    if "cursor \<le> t" "t < until" for t
  proof (cases "t < ?e")
    case True
    then show ?thesis using in_v [OF that(1)] ih1 [of t] that Cons.prems(6) step(6)
      by (simp add: allocated_at_simps allocated_at_none)
  next
    case False
    then show ?thesis using out_v [of t] ih2 [of t] that Cons.prems(6)
      by (simp add: allocated_at_simps)
  qed
  have none: "filter (covers t) (v # vs) = []" if "from \<le> t" "t < cursor" for t
    using out_v [of t] ih1 [of t] that step(3) by (auto simp: min_def split: if_splits)
  have sum: "totals' ! i = totals ! i + (\<Sum>t \<in> {cursor..<until}. allocated_at (v # vs) t i)" if "i < 3" for i
  proof -
    have split: "{cursor..<until} = {cursor..<?e} \<union> {?e..<until}" using step(3) by auto
    have "(\<Sum>t \<in> {cursor..<?e}. allocated_at (v # vs) t i) = (\<Sum>t \<in> {cursor..<?e}. iv_allocation v ! i)"
      by (rule sum.cong) (use in_v ih1 Cons.prems(6) in \<open>auto simp: allocated_at_simps allocated_at_none\<close>)
    also have "\<dots> = (?e - cursor) * iv_allocation v ! i" using step(3) by simp
    finally have a: "(\<Sum>t \<in> {cursor..<?e}. allocated_at (v # vs) t i) = (?e - cursor) * iv_allocation v ! i" .
    have b: "(\<Sum>t \<in> {?e..<until}. allocated_at (v # vs) t i) = (\<Sum>t \<in> {?e..<until}. allocated_at vs t i)"
    proof (rule sum.cong)
      fix t assume "t \<in> {?e..<until}"
      then have t: "?e \<le> t" "t < until" by simp_all
      with out_v [OF order_trans [OF e t(1)] disjI2 [OF t(1)]] show "allocated_at (v # vs) t i = allocated_at vs t i"
        by (simp add: allocated_at_simps)
    qed simp
    have "(\<Sum>t \<in> {cursor..<until}. allocated_at (v # vs) t i)
        = (?e - cursor) * iv_allocation v ! i + (\<Sum>t \<in> {?e..<until}. allocated_at vs t i)"
      unfolding split by (subst sum.union_disjoint) (auto simp: a b simp del: min.bounded_iff)
    with ih3 step(5) that show ?thesis by simp
  qed
  show ?case using cov none sum by blast
qed

text \<open>
  C17. A sandbox is charged for exactly what its ledger shows, second by second: when the
  evidence is accepted, every second of the funded window is covered by exactly one interval,
  no second used more than was reserved, and each resource's total is the sum over the window's
  seconds of what was allocated in that second. Time outside the window is never charged.
\<close>

theorem evidence_charges_each_second_once:
  assumes "evidenced_quantities from until allocation intervals = Ok totals"
    and "length allocation = 3" and "\<forall>v \<in> set intervals. length (iv_allocation v) = 3"
  shows "(\<forall>t. from \<le> t \<and> t < until \<longrightarrow> length (filter (covers t) intervals) = 1
       \<and> (\<forall>i<3. allocated_at intervals t i \<le> allocation ! i))
    \<and> (\<forall>i<3. totals ! i = (\<Sum>t \<in> {from..<until}. allocated_at intervals t i)
         \<and> 0 \<le> totals ! i \<and> totals ! i \<le> allocation ! i * (until - from))"
proof -
  from assms(1) have w: "from \<le> until"
    and loop: "evidence_loop from until allocation intervals [0, 0, 0] from None = Ok (totals, until)"
    by (auto simp: evidenced_quantities_def split: if_split_asm)
  have "[0, 0, 0::int] ! i = 0" if "i < 3" for i
    using that by (auto simp: less_Suc_eq numeral_3_eq_3)
  then have main: "(\<forall>t. from \<le> t \<and> t < until \<longrightarrow> length (filter (covers t) intervals) = 1
         \<and> (\<forall>i<3. 0 \<le> allocated_at intervals t i \<and> allocated_at intervals t i \<le> allocation ! i))"
    "\<forall>i<3. totals ! i = (\<Sum>t \<in> {from..<until}. allocated_at intervals t i)"
    using evidence_loop_covers [OF loop _ assms(2) w assms(3)] by simp_all
  have "0 \<le> totals ! i \<and> totals ! i \<le> allocation ! i * (until - from)" if i: "i < 3" for i
  proof -
    have "0 \<le> (\<Sum>t \<in> {from..<until}. allocated_at intervals t i)"
      by (rule sum_nonneg) (use main(1) i in auto)
    moreover have "(\<Sum>t \<in> {from..<until}. allocated_at intervals t i) \<le> (\<Sum>t \<in> {from..<until}. allocation ! i)"
      by (rule sum_mono) (use main(1) i in auto)
    ultimately show ?thesis using main(2) i w by (simp add: mult.commute)
  qed
  with main show ?thesis by blast
qed

definition demo_ledger :: "interval_evidence list" where
  "demo_ledger =
     [\<lparr>iv_revision = 10, iv_started_at = 100, iv_ended_at = 110, iv_allocation = [2, 8, 64],
       iv_quantity = [20, 80, 640]\<rparr>,
      \<lparr>iv_revision = 11, iv_started_at = 110, iv_ended_at = 130, iv_allocation = [0, 0, 64],
       iv_quantity = [0, 0, 1280]\<rparr>]"

lemma evidence_charges_each_second_once_witness:
  "(\<Sum>t \<in> {105..<120}. allocated_at demo_ledger t 0) = 10"
proof -
  have ok: "evidenced_quantities 105 120 [2, 8, 64] demo_ledger = Ok [10, 40, 960]" by code_simp
  have len: "\<forall>v \<in> set demo_ledger. length (iv_allocation v) = 3" by (simp add: demo_ledger_def)
  have "length [2, 8, 64::int] = 3" by simp
  from evidence_charges_each_second_once [OF ok this len]
  have "\<forall>i<3. [10, 40, 960] ! i = (\<Sum>t \<in> {105..<120}. allocated_at demo_ledger t i)" by blast
  from this [rule_format, of 0] show ?thesis by simp
qed

section \<open>Machine seconds\<close>

text \<open>Settling window after window, with the nanoseconds of the last second carried on.\<close>

fun settle_windows :: "int \<Rightarrow> int list \<Rightarrow> (int \<times> int) option" where
  "settle_windows totals [] = Some (totals, 0)"
| "settle_windows totals (w # ws) = (case cumulative_seconds totals w of
     None \<Rightarrow> None
   | Some (totals', seconds) \<Rightarrow> map_option (\<lambda>(t, s). (t, seconds + s)) (settle_windows totals' ws))"

lemma settle_windows_total:
  "settle_windows totals ws = Some (t, s) \<Longrightarrow>
   t = totals + sum_list ws \<and> s = t div SECOND_NS - totals div SECOND_NS \<and> list_all (\<lambda>w. 0 \<le> w) ws"
proof (induction ws arbitrary: totals t s)
  case (Cons w ws)
  then obtain totals' sec s' where c: "cumulative_seconds totals w = Some (totals', sec)"
    "settle_windows totals' ws = Some (t, s')" "s = sec + s'"
    by (auto split: option.splits prod.splits)
  with Cons.IH [OF c(2)] show ?case by (auto simp: cumulative_seconds_def split: if_splits)
qed simp

text \<open>
  Splitting running time into windows costs nothing and gains nothing: the seconds charged
  over any sequence of windows add up to the whole seconds of the total running time, the
  fraction of the last second stays uncharged, and what is left over is below one second.
\<close>

theorem machine_seconds_are_exact:
  assumes "settle_windows 0 windows = Some (totals, seconds)"
  shows "totals = sum_list windows \<and> seconds = totals div SECOND_NS
    \<and> SECOND_NS * seconds \<le> totals \<and> totals < SECOND_NS * (seconds + 1)"
proof -
  have "totals = sum_list windows \<and> seconds = totals div SECOND_NS"
    using settle_windows_total [OF assms] by simp
  then show ?thesis by (auto simp: SECOND_NS_def)
qed

lemma machine_seconds_are_exact_witness:
  "settle_windows 0 [600000000, 600000000, 799999999] = Some (1999999999, 1)
   \<and> SECOND_NS * 1 \<le> 1999999999"
proof -
  have *: "settle_windows 0 [600000000, 600000000, 799999999] = Some (1999999999, 1)" by code_simp
  from machine_seconds_are_exact [OF *] have "SECOND_NS * 1 \<le> 1999999999" by blast
  with * show ?thesis by blast
qed

end
