(* ===== verification/Schedule.thy ===== *)
theory Schedule
  imports App_Error Rust_Int Rust_Time
begin

text \<open>
  When a scheduled trigger fires (\<open>services/trigger_schedule/compute.rs\<close> over the types of
  \<open>models/trigger_schedule.rs\<close>): validation, the next and the latest occurrence, the grace
  period, the count of missed occurrences. Instants are nanoseconds since the Unix epoch, wall
  times are seconds since local midnight of the epoch day, days are numbered from that day.
\<close>

section \<open>The schedule\<close>

datatype interval_unit = Minutes | Hours | Days

datatype schedule_kind =
    Cron string string
  | Every nat interval_unit int
  | At int

record schedule_spec =
  ss_timing :: schedule_kind
  ss_start :: "int option"
  ss_end :: "int option"
  ss_max_runs :: "nat option"
  ss_grace_seconds :: "nat option"

text \<open>
  What the code takes from \<open>chrono\<close>, \<open>chrono-tz\<close> and \<open>croner\<close>: zone names, the local day of
  an instant and the earliest instant of a wall time (none inside a gap); the calendar, with its
  first and last supported day and instant; cron expressions and their field tests; the text of
  an instant, in a zone and in universal time.
\<close>

record ('z, 'p) time_lib =
  tl_zone :: "string \<Rightarrow> 'z option"
  tl_local_day :: "'z \<Rightarrow> int \<Rightarrow> int"
  tl_earliest :: "'z \<Rightarrow> int \<Rightarrow> int option"
  tl_civil :: "int \<Rightarrow> int \<times> nat \<times> nat"
  tl_weekday :: "int \<Rightarrow> nat"
  tl_min_day :: int
  tl_max_day :: int
  tl_min_instant :: int
  tl_max_instant :: int
  tl_cron :: "string \<Rightarrow> 'p option"
  tl_hour_match :: "'p \<Rightarrow> nat \<Rightarrow> bool"
  tl_minute_match :: "'p \<Rightarrow> nat \<Rightarrow> bool"
  tl_month_match :: "'p \<Rightarrow> nat \<Rightarrow> bool"
  tl_day_match :: "'p \<Rightarrow> int \<Rightarrow> nat \<Rightarrow> nat \<Rightarrow> nat \<Rightarrow> bool"
  tl_rfc3339 :: "'z \<Rightarrow> int \<Rightarrow> string"
  tl_display :: "int \<Rightarrow> string"

definition NS_PER_S :: int where "NS_PER_S = 1000000000"

definition invalid :: "string \<Rightarrow> app_error" where
  "invalid message = ValidationError message"

definition timezone :: "('z, 'p) time_lib \<Rightarrow> string \<Rightarrow> app_error + 'z" where
  "timezone lib name = ok_or (tl_zone lib name) (invalid ''Unknown IANA timezone'')"

definition cron :: "('z, 'p) time_lib \<Rightarrow> string \<Rightarrow> app_error + 'p" where
  "cron lib expression =
     (if length expression > 256 \<or> length (split_whitespace expression) \<noteq> 5
      then Err (invalid ''Cron must have five fields: minute hour day month weekday'')
      else ok_or (tl_cron lib expression) (invalid ''Invalid five-field cron expression''))"

definition interval_seconds :: "nat \<Rightarrow> interval_unit \<Rightarrow> int" where
  "interval_seconds amount u =
     int amount * (case u of Minutes \<Rightarrow> 60 | Hours \<Rightarrow> 3600 | Days \<Rightarrow> 86400)"

definition DEFAULT_SCHEDULE_MINIMUM_MINUTES :: int where
  "DEFAULT_SCHEDULE_MINIMUM_MINUTES = 5"

section \<open>Calendar matches\<close>

text \<open>The hours and minutes a pattern selects, in the order of the two nested loops.\<close>

definition day_times :: "('z, 'p) time_lib \<Rightarrow> 'p \<Rightarrow> (nat \<times> nat) list" where
  "day_times lib p =
     concat (map (\<lambda>hour. if tl_hour_match lib p hour
                          then map (\<lambda>minute. (hour, minute)) (filter (tl_minute_match lib p) [0..<60])
                          else []) [0..<24])"

definition date_matches :: "('z, 'p) time_lib \<Rightarrow> 'p \<Rightarrow> int \<Rightarrow> bool" where
  "date_matches lib p day =
     (case tl_civil lib day of (year, month, mday) \<Rightarrow>
        tl_month_match lib p month \<and> tl_day_match lib p year month mday (tl_weekday lib day))"

definition succ_day :: "('z, 'p) time_lib \<Rightarrow> int \<Rightarrow> int option" where
  "succ_day lib day = (if day + 1 \<le> tl_max_day lib then Some (day + 1) else None)"

definition pred_day :: "('z, 'p) time_lib \<Rightarrow> int \<Rightarrow> int option" where
  "pred_day lib day = (if tl_min_day lib \<le> day - 1 then Some (day - 1) else None)"

text \<open>2000-01-01, and the 146,097 days of the Gregorian cycle.\<close>

definition DAY_2000_01_01 :: int where "DAY_2000_01_01 = 10957"
definition CYCLE_DAYS :: nat where "CYCLE_DAYS = 146097"

fun adjacent_loop :: "('z, 'p) time_lib \<Rightarrow> 'p \<Rightarrow> nat \<Rightarrow> int \<Rightarrow> bool \<Rightarrow> bool" where
  "adjacent_loop lib p n day previous =
     (if n = 0 then False
      else (let matched = date_matches lib p day in
        if previous \<and> matched then True else adjacent_loop lib p (n - 1) (day + 1) matched))"

declare adjacent_loop.simps [simp del]

definition matches_adjacent_dates :: "('z, 'p) time_lib \<Rightarrow> 'p \<Rightarrow> bool" where
  "matches_adjacent_dates lib p = adjacent_loop lib p (CYCLE_DAYS + 1) DAY_2000_01_01 False"

fun windows2 :: "'a list \<Rightarrow> ('a \<times> 'a) list" where
  "windows2 (a # b # xs) = (a, b) # windows2 (b # xs)"
| "windows2 _ = []"

section \<open>Validation\<close>

definition validate_timing :: "('z, 'p) time_lib \<Rightarrow> schedule_kind \<Rightarrow> int \<Rightarrow> app_error + unit" where
  "validate_timing lib timing minimum = (case timing of
     Cron expression zone \<Rightarrow>
       and_then (timezone lib zone) (\<lambda>_.
       and_then (cron lib expression) (\<lambda>pattern.
         let minutes = map (\<lambda>(hour, minute). int (hour * 60 + minute)) (day_times lib pattern) in
         if minutes = [] then Err (invalid ''Cron has no matching time'')
         else if list_ex (\<lambda>(a, b). (b - a) * 60 < minimum) (windows2 minutes)
              \<or> (length minutes > 1 \<and> (1440 + hd minutes - last minutes) * 60 < minimum
                  \<and> matches_adjacent_dates lib pattern)
         then Err (invalid ''Cron cadence is below the owner's minimum interval'')
         else Ok ()))
   | Every amount u _ \<Rightarrow>
       if amount = 0 \<or> interval_seconds amount u < minimum
       then Err (invalid ''Interval must meet the owner's minimum'') else Ok ()
   | At _ \<Rightarrow> Ok ())"

definition schedule_validate :: "('z, 'p) time_lib \<Rightarrow> schedule_spec \<Rightarrow> int \<Rightarrow> app_error + unit" where
  "schedule_validate lib spec minimum_minutes =
     and_then (validate_timing lib (ss_timing spec)
                 (max minimum_minutes DEFAULT_SCHEDULE_MINIMUM_MINUTES * 60)) (\<lambda>_.
       if (case (ss_start spec, ss_end spec) of (Some s, Some e) \<Rightarrow> e \<le> s | _ \<Rightarrow> False)
       then Err (invalid ''Schedule end must be after start'')
       else if (case ss_max_runs spec of Some n \<Rightarrow> n = 0 \<or> n > 1000000 | None \<Rightarrow> False)
       then Err (invalid ''max_runs must be between 1 and 1000000'')
       else if (case ss_grace_seconds spec of Some n \<Rightarrow> n = 0 \<or> n > 86400 | None \<Rightarrow> False)
       then Err (invalid ''grace_seconds must be between 1 and 86400'')
       else Ok ())"

section \<open>Wall time to instant\<close>

text \<open>
  A wall time inside a gap of its zone becomes the first instant after the gap. The search
  doubles \<open>high\<close> from 1 second, so \<open>high\<close> is \<open>2 ^ doublings\<close>, until a wall time that exists is
  found or the doubled value exceeds two days.
\<close>

function gap_high :: "('z, 'p) time_lib \<Rightarrow> 'z \<Rightarrow> int \<Rightarrow> nat \<Rightarrow> app_error + int" where
  "gap_high lib zone wall doublings =
     (if tl_earliest lib zone (wall + 2 ^ doublings) \<noteq> None then Ok (2 ^ doublings)
      else if (2::int) ^ (doublings + 1) > 172800 then Err (invalid ''Timezone gap exceeds two days'')
      else gap_high lib zone wall (doublings + 1))"
  by pat_completeness auto
termination
proof (relation "measure (\<lambda>(_, _, _, doublings). 18 - doublings)", goal_cases)
  case (2 lib zone wall doublings)
  have "doublings < 18"
  proof (rule ccontr)
    assume "\<not> doublings < 18"
    then have "(2::int) ^ 18 \<le> 2 ^ (doublings + 1)" by (intro power_increasing) auto
    with 2 show False by simp
  qed
  then show ?case by simp
qed simp

function gap_search :: "('z, 'p) time_lib \<Rightarrow> 'z \<Rightarrow> int \<Rightarrow> int \<Rightarrow> int \<Rightarrow> int" where
  "gap_search lib zone wall low high =
     (if high - low > 1
      then (let mid = (low + high) div 2 in
        if tl_earliest lib zone (wall + mid) \<noteq> None then gap_search lib zone wall low mid
        else gap_search lib zone wall mid high)
      else high)"
  by pat_completeness auto
termination by (relation "measure (\<lambda>(_, _, _, low, high). nat (high - low))") auto

declare gap_high.simps [simp del] gap_search.simps [simp del]

definition resolve_wall_time :: "('z, 'p) time_lib \<Rightarrow> 'z \<Rightarrow> int \<Rightarrow> app_error + int" where
  "resolve_wall_time lib zone wall = (case tl_earliest lib zone wall of
     Some t \<Rightarrow> Ok t
   | None \<Rightarrow> and_then (gap_high lib zone wall 0) (\<lambda>high.
       ok_or (tl_earliest lib zone (wall + gap_search lib zone wall 0 high))
         (invalid ''Unresolvable timezone gap'')))"

definition wall_of :: "int \<Rightarrow> nat \<times> nat \<Rightarrow> int" where
  "wall_of day = (\<lambda>(hour, minute). day * 86400 + int hour * 3600 + int minute * 60)"

section \<open>Occurrences\<close>

text \<open>One day of the scan: the best candidate on the wanted side of the pivot.\<close>

definition day_best ::
  "('z, 'p) time_lib \<Rightarrow> 'p \<Rightarrow> 'z \<Rightarrow> int \<Rightarrow> bool \<Rightarrow> int \<Rightarrow> app_error + int option" where
  "day_best lib pattern zone pivot forward day =
     (if date_matches lib pattern day
      then and_then (try_map (\<lambda>hm. resolve_wall_time lib zone (wall_of day hm)) (day_times lib pattern))
        (\<lambda>candidates. Ok (fold (\<lambda>candidate best.
            if (forward \<and> candidate > pivot) \<or> (\<not> forward \<and> candidate < pivot)
            then Some (case best of None \<Rightarrow> candidate
                       | Some old \<Rightarrow> if forward then min old candidate else max old candidate)
            else best) candidates None))
      else Ok None)"

fun occurrence_scan ::
  "('z, 'p) time_lib \<Rightarrow> 'p \<Rightarrow> 'z \<Rightarrow> int \<Rightarrow> bool \<Rightarrow> nat \<Rightarrow> int \<Rightarrow> app_error + int option" where
  "occurrence_scan lib pattern zone pivot forward n day =
     (if n = 0 then Ok None
      else (case day_best lib pattern zone pivot forward day of
          Err e \<Rightarrow> Err e
        | Ok (Some t) \<Rightarrow> Ok (Some t)
        | Ok None \<Rightarrow> (case (if forward then succ_day lib day else pred_day lib day) of
              None \<Rightarrow> Err (invalid ''Schedule exceeds supported calendar'')
            | Some day' \<Rightarrow> occurrence_scan lib pattern zone pivot forward (n - 1) day')))"

declare occurrence_scan.simps [simp del]

definition cron_occurrence ::
  "('z, 'p) time_lib \<Rightarrow> string \<Rightarrow> string \<Rightarrow> int \<Rightarrow> bool \<Rightarrow> app_error + int option" where
  "cron_occurrence lib expression zone_name pivot forward =
     and_then (cron lib expression) (\<lambda>pattern.
     and_then (timezone lib zone_name) (\<lambda>zone.
       occurrence_scan lib pattern zone pivot forward (CYCLE_DAYS + 1) (tl_local_day lib zone pivot)))"

definition saturating_i64 :: "int \<Rightarrow> int" where
  "saturating_i64 x = max i64_min (min i64_max x)"

definition checked_instant :: "('z, 'p) time_lib \<Rightarrow> int \<Rightarrow> int option" where
  "checked_instant lib t = (if tl_min_instant lib \<le> t \<and> t \<le> tl_max_instant lib then Some t else None)"

definition raw_occurrence ::
  "('z, 'p) time_lib \<Rightarrow> schedule_spec \<Rightarrow> int \<Rightarrow> bool \<Rightarrow> app_error + int option" where
  "raw_occurrence lib spec pivot forward = (case ss_timing spec of
     Cron expression zone_name \<Rightarrow> cron_occurrence lib expression zone_name pivot forward
   | At at \<Rightarrow> Ok (if (forward \<and> at > pivot) \<or> (\<not> forward \<and> at < pivot) then Some at else None)
   | Every amount u anchor \<Rightarrow>
       (let step = interval_seconds amount u * 1000 in
        if step = 0 then Err (invalid ''Interval cannot be zero'')
        else (let delta = timestamp_millis pivot - timestamp_millis anchor;
                  periods = (if forward then delta div step + 1 else (delta - 1) div step)
              in Ok (if periods < 0 then (if forward then Some anchor else None)
                     else checked_instant lib (anchor + saturating_i64 (periods * step) * NS_PER_MS)))))"

definition next_occurrence ::
  "('z, 'p) time_lib \<Rightarrow> schedule_spec \<Rightarrow> int \<Rightarrow> app_error + int option" where
  "next_occurrence lib spec after =
     (let pivot = (case ss_start spec of None \<Rightarrow> after | Some s \<Rightarrow> max after (s - NS_PER_MS)) in
      and_then (raw_occurrence lib spec pivot True) (\<lambda>t. Ok (case t of
          None \<Rightarrow> None
        | Some v \<Rightarrow> if (case ss_end spec of None \<Rightarrow> True | Some e \<Rightarrow> v \<le> e) then Some v else None)))"

definition latest_occurrence ::
  "('z, 'p) time_lib \<Rightarrow> schedule_spec \<Rightarrow> int \<Rightarrow> app_error + int option" where
  "latest_occurrence lib spec now =
     (let pivot = (case ss_end spec of None \<Rightarrow> now | Some e \<Rightarrow> min now e) in
      and_then (raw_occurrence lib spec (pivot + NS_PER_MS) False) (\<lambda>t. Ok (case t of
          None \<Rightarrow> None
        | Some v \<Rightarrow> if (case ss_start spec of None \<Rightarrow> True | Some s \<Rightarrow> s \<le> v) then Some v else None)))"

definition grace :: "('z, 'p) time_lib \<Rightarrow> schedule_spec \<Rightarrow> int \<Rightarrow> app_error + int" where
  "grace lib spec at = (case ss_grace_seconds spec of
     Some seconds \<Rightarrow> Ok (int seconds * NS_PER_S)
   | None \<Rightarrow>
       and_then (case ss_timing spec of
           Every amount u _ \<Rightarrow> Ok (interval_seconds amount u * NS_PER_S)
         | _ \<Rightarrow> and_then (raw_occurrence lib spec at True) (\<lambda>t. Ok (case t of
               None \<Rightarrow> 3600 * NS_PER_S | Some n \<Rightarrow> n - at)))
         (\<lambda>cadence. Ok (min cadence (3600 * NS_PER_S))))"

fun preview_loop :: "('z, 'p) time_lib \<Rightarrow> schedule_spec \<Rightarrow> nat \<Rightarrow> int \<Rightarrow> app_error + int list" where
  "preview_loop lib spec 0 cursor = Ok []"
| "preview_loop lib spec (Suc n) cursor = (case next_occurrence lib spec cursor of
     Err e \<Rightarrow> Err e
   | Ok None \<Rightarrow> Ok []
   | Ok (Some t) \<Rightarrow> (case preview_loop lib spec n t of Err e \<Rightarrow> Err e | Ok ts \<Rightarrow> Ok (t # ts)))"

definition preview :: "('z, 'p) time_lib \<Rightarrow> schedule_spec \<Rightarrow> int \<Rightarrow> string \<Rightarrow> nat \<Rightarrow> app_error + string list" where
  "preview lib spec after zone_name remaining =
     and_then (timezone lib zone_name) (\<lambda>zone.
     and_then (preview_loop lib spec (min 3 remaining) after) (\<lambda>instants.
       Ok (map (tl_rfc3339 lib zone) instants)))"

section \<open>Missed occurrences\<close>

text \<open>The candidates of one day, counted unless equal to the candidate counted before.\<close>

fun count_day :: "int \<Rightarrow> int \<Rightarrow> int list \<Rightarrow> nat \<times> int option \<Rightarrow> nat \<times> int option" where
  "count_day from until [] acc = acc"
| "count_day from until (at # ats) (count, previous) =
     count_day from until ats
       (if at \<ge> from \<and> at < until \<and> previous \<noteq> Some at then (count + 1, Some at) else (count, previous))"

function count_loop ::
  "('z, 'p) time_lib \<Rightarrow> 'p \<Rightarrow> 'z \<Rightarrow> int \<Rightarrow> int \<Rightarrow> int \<Rightarrow> int \<Rightarrow> nat \<times> int option \<Rightarrow> app_error + nat" where
  "count_loop lib pattern zone from until day final acc =
     (if day \<le> final
      then (case (if date_matches lib pattern day
                  then try_map (\<lambda>hm. resolve_wall_time lib zone (wall_of day hm)) (day_times lib pattern)
                  else Ok []) of
          Err e \<Rightarrow> Err e
        | Ok ats \<Rightarrow> (case succ_day lib day of
              None \<Rightarrow> Err (invalid ''Schedule exceeds supported calendar'')
            | Some day' \<Rightarrow> count_loop lib pattern zone from until day' final (count_day from until ats acc)))
      else Ok (fst acc))"
  by pat_completeness auto
termination
  by (relation "measure (\<lambda>(_, _, _, _, _, day, final, _). nat (final + 1 - day))")
    (auto simp: succ_day_def split: if_splits)

declare count_loop.simps [simp del]

text \<open>\<open>None\<close> is the panic of the division by a zero step.\<close>

definition missed_count ::
  "('z, 'p) time_lib \<Rightarrow> schedule_spec \<Rightarrow> int \<Rightarrow> int \<Rightarrow> (app_error + nat) option" where
  "missed_count lib spec from until =
     (if until \<le> from then Some (Ok 0)
      else (case ss_timing spec of
          Every amount u _ \<Rightarrow>
            (let step = interval_seconds amount u * 1000 in
             if step = 0 then None else Some (Ok (nat ((until - from) div NS_PER_MS div step))))
        | At _ \<Rightarrow> Some (Ok 1)
        | Cron expression zone_name \<Rightarrow>
            Some (and_then (cron lib expression) (\<lambda>pattern.
              and_then (timezone lib zone_name) (\<lambda>zone.
                count_loop lib pattern zone from until (tl_local_day lib zone from)
                  (tl_local_day lib zone until) (0, None))))))"

section \<open>Description\<close>

text \<open>\<open>en_dash\<close> is the UTF-8 encoding of U+2013.\<close>

definition en_dash :: string where
  "en_dash = [CHR 0xE2, CHR 0x80, CHR 0x93]"

definition cron_day_text :: "string \<Rightarrow> string" where
  "cron_day_text field =
     (if field = ''1-5'' then ''Monday'' @ en_dash @ ''Friday''
      else if field = ''*'' then ''every day''
      else if field = ''5'' then ''every Friday''
      else ''weekday '' @ field)"

definition schedule_description :: "('z, 'p) time_lib \<Rightarrow> schedule_spec \<Rightarrow> string" where
  "schedule_description lib spec = (case ss_timing spec of
     Every amount u anchor \<Rightarrow>
       ''Every '' @ nat_str amount @ '' ''
       @ (case u of Minutes \<Rightarrow> ''minutes'' | Hours \<Rightarrow> ''hours'' | Days \<Rightarrow> ''days'')
       @ '', anchored at '' @ tl_display lib anchor @ '' (elapsed time)''
   | At at \<Rightarrow> ''Once at '' @ tl_display lib at
   | Cron expression zone \<Rightarrow>
       (let fields' = split_whitespace expression in
        if length fields' \<noteq> 5 then ''Calendar schedule in '' @ zone
        else (let day = cron_day_text (fields' ! 4);
                  general = ''Minutes '' @ fields' ! 0 @ ''; hours '' @ fields' ! 1
                    @ ''; day of month '' @ fields' ! 2 @ ''; month '' @ fields' ! 3
                    @ ''; '' @ day @ '', '' @ zone
              in (case (parse_uint 255 (fields' ! 1), parse_uint 255 (fields' ! 0)) of
                    (Some hour, Some minute) \<Rightarrow>
                      if fields' ! 2 = ''*'' \<and> fields' ! 3 = ''*''
                      then ''At '' @ pad_zeros 2 hour @ '':'' @ pad_zeros 2 minute @ '' '' @ day @ '', '' @ zone
                      else general
                  | _ \<Rightarrow> general))))"

end
