(* ===== verification/Schedule_Properties.thy ===== *)
theory Schedule_Properties
  imports Schedule
begin

text \<open>
  When triggers fire, against what a schedule means: intervals and cron expressions as sets of
  instants, of which the code must return the next and the latest; the minimum cadence; gaps of
  the wall clock.
\<close>

section \<open>Intervals\<close>

definition step_ns :: "nat \<Rightarrow> interval_unit \<Rightarrow> int" where
  "step_ns amount u = interval_seconds amount u * NS_PER_S"

text \<open>The limits of a schedule, and the occurrences of an interval schedule within them.\<close>

definition started :: "schedule_spec \<Rightarrow> int \<Rightarrow> bool" where
  "started spec t \<longleftrightarrow> (case ss_start spec of None \<Rightarrow> True | Some s \<Rightarrow> s \<le> t)"

definition not_ended :: "schedule_spec \<Rightarrow> int \<Rightarrow> bool" where
  "not_ended spec t \<longleftrightarrow> (case ss_end spec of None \<Rightarrow> True | Some e \<Rightarrow> t \<le> e)"

definition every_occurs :: "schedule_spec \<Rightarrow> int \<Rightarrow> bool" where
  "every_occurs spec t \<longleftrightarrow> (case ss_timing spec of
     Every amount u anchor \<Rightarrow>
       (\<exists>k. 0 \<le> k \<and> t = anchor + k * step_ns amount u) \<and> started spec t \<and> not_ended spec t
   | _ \<Rightarrow> False)"

definition first_after :: "(int \<Rightarrow> bool) \<Rightarrow> int \<Rightarrow> int option \<Rightarrow> bool" where
  "first_after occurs t r \<longleftrightarrow> (case r of
     None \<Rightarrow> (\<forall>u. occurs u \<longrightarrow> u \<le> t)
   | Some v \<Rightarrow> occurs v \<and> t < v \<and> (\<forall>u. occurs u \<and> t < u \<longrightarrow> v \<le> u))"

definition last_until :: "(int \<Rightarrow> bool) \<Rightarrow> int \<Rightarrow> int option \<Rightarrow> bool" where
  "last_until occurs t r \<longleftrightarrow> (case r of
     None \<Rightarrow> (\<forall>u. occurs u \<longrightarrow> t < u)
   | Some v \<Rightarrow> occurs v \<and> v \<le> t \<and> (\<forall>u. occurs u \<and> u \<le> t \<longrightarrow> u \<le> v))"

text \<open>
  Stored instants have millisecond precision, and the instants of one library fit a 64-bit count
  of milliseconds; both hold of every schedule read from the database.
\<close>

definition whole_ms :: "int \<Rightarrow> bool" where
  "whole_ms t \<longleftrightarrow> NS_PER_MS dvd t"

definition lib_ok :: "('z, 'p) time_lib \<Rightarrow> bool" where
  "lib_ok lib \<longleftrightarrow> tl_max_instant lib - tl_min_instant lib < i64_max * NS_PER_MS"

lemma step_ms: "0 < amount \<Longrightarrow> 0 < interval_seconds amount u"
  by (simp add: interval_seconds_def split: interval_unit.split)

lemma step_ns_ms: "step_ns amount u = interval_seconds amount u * 1000 * NS_PER_MS"
  by (simp add: step_ns_def NS_PER_S_def NS_PER_MS_def)

lemma whole_ms_iff: "whole_ms t \<Longrightarrow> t = timestamp_millis t * NS_PER_MS"
  by (simp add: whole_ms_def timestamp_millis_def)

text \<open>On the grid of whole milliseconds, comparing with an instant is comparing its millisecond.\<close>

lemma grid_less: "p < m * NS_PER_MS \<longleftrightarrow> timestamp_millis p < m"
  unfolding timestamp_millis_def NS_PER_MS_def by linarith

lemma grid_le: "m * NS_PER_MS \<le> p \<longleftrightarrow> m \<le> timestamp_millis p"
  unfolding timestamp_millis_def NS_PER_MS_def by linarith

lemma period_after:
  fixes step :: int
  assumes "0 < step"
  shows "delta < k * step \<longleftrightarrow> delta div step + 1 \<le> k"
proof -
  have "(delta + (- k) * step) div step = delta div step - k"
    using assms by (subst div_mult_self1) simp_all
  then have "delta < k * step \<longleftrightarrow> delta div step < k"
    using pos_imp_zdiv_neg_iff [OF assms, of "delta + (- k) * step"] by simp
  then show ?thesis by linarith
qed

lemma period_before:
  fixes step :: int
  assumes "0 < step"
  shows "k * step < delta \<longleftrightarrow> k \<le> (delta - 1) div step"
  using period_after [OF assms, of "delta - 1" k] by linarith

text \<open>What the code computes for an interval: the first or last grid point past the pivot.\<close>

lemma raw_every_forward:
  assumes "ss_timing spec = Every amount u anchor" "0 < amount" "whole_ms anchor" "lib_ok lib"
    and "tl_min_instant lib \<le> anchor" "max pivot anchor + step_ns amount u \<le> tl_max_instant lib"
  defines "k \<equiv> max 0 ((timestamp_millis pivot - timestamp_millis anchor) div (interval_seconds amount u * 1000) + 1)"
  shows "raw_occurrence lib spec pivot True = Ok (Some (anchor + k * step_ns amount u))"
    and "\<And>j. 0 \<le> j \<Longrightarrow> pivot < anchor + j * step_ns amount u \<longleftrightarrow> k \<le> j"
proof -
  define a s where "a = timestamp_millis anchor" and "s = interval_seconds amount u * 1000"
  have s: "0 < s" using step_ms [OF assms(2)] by (simp add: s_def)
  have anchor: "anchor = a * NS_PER_MS" using whole_ms_iff [OF assms(3)] by (simp add: a_def)
  have grid: "anchor + j * step_ns amount u = (a + j * s) * NS_PER_MS" for j
    by (simp add: anchor step_ns_ms s_def algebra_simps)
  show after: "pivot < anchor + j * step_ns amount u \<longleftrightarrow> k \<le> j" if "0 \<le> j" for j
    unfolding grid grid_less k_def a_def [symmetric] s_def [symmetric]
    using period_after [OF s, of "timestamp_millis pivot - a" j] that by (auto simp: algebra_simps)
  have le: "anchor + k * step_ns amount u \<le> tl_max_instant lib"
  proof (cases "k = 0")
    case True
    have "0 \<le> step_ns amount u"
      using step_ms [OF assms(2), of u] by (simp add: step_ns_ms NS_PER_MS_def)
    with True assms(6) show ?thesis by simp
  next
    case False
    then have "\<not> pivot < anchor + (k - 1) * step_ns amount u"
      using after [of "k - 1"] by (auto simp: k_def)
    then have "anchor + k * step_ns amount u \<le> pivot + step_ns amount u" by (simp add: left_diff_distrib)
    with assms(6) show ?thesis by linarith
  qed
  have ge: "anchor \<le> anchor + k * step_ns amount u"
    using s by (simp add: k_def step_ns_ms s_def NS_PER_MS_def)
  have "k * s * NS_PER_MS \<le> tl_max_instant lib - tl_min_instant lib"
    using le assms(5) by (simp add: step_ns_ms s_def algebra_simps)
  then have "k * s * NS_PER_MS \<le> i64_max * NS_PER_MS" using assms(4) unfolding lib_ok_def by linarith
  then have "k * s \<le> i64_max" by (simp add: NS_PER_MS_def)
  moreover have "0 \<le> k * s" using s by (simp add: k_def)
  ultimately have sat: "saturating_i64 (k * s) = k * s" by (simp add: saturating_i64_def i64_min_def)
  have ok: "checked_instant lib (anchor + k * s * NS_PER_MS) = Some (anchor + k * s * NS_PER_MS)"
    using le ge assms(5) by (simp add: checked_instant_def step_ns_ms s_def algebra_simps)
  show "raw_occurrence lib spec pivot True = Ok (Some (anchor + k * step_ns amount u))"
  proof (cases "(timestamp_millis pivot - a) div s + 1 < 0")
    case True
    then have "k = 0" by (simp add: k_def a_def s_def)
    with True s show ?thesis
      by (simp add: raw_occurrence_def assms(1) Let_def a_def s_def)
  next
    case False
    then have "k = (timestamp_millis pivot - a) div s + 1" by (simp add: k_def a_def s_def)
    with False s sat ok show ?thesis
      by (simp add: raw_occurrence_def assms(1) Let_def step_ns_ms a_def s_def algebra_simps)
  qed
qed

lemma raw_every_backward:
  assumes "ss_timing spec = Every amount u anchor" "0 < amount" "whole_ms anchor" "lib_ok lib"
    and "tl_min_instant lib \<le> anchor" "pivot \<le> tl_max_instant lib"
  defines "k \<equiv> (timestamp_millis pivot - timestamp_millis anchor - 1) div (interval_seconds amount u * 1000)"
  shows "raw_occurrence lib spec pivot False = Ok (if k < 0 then None else Some (anchor + k * step_ns amount u))"
    and "\<And>j. anchor + j * step_ns amount u < timestamp_millis pivot * NS_PER_MS \<longleftrightarrow> j \<le> k"
proof -
  define a s where "a = timestamp_millis anchor" and "s = interval_seconds amount u * 1000"
  have s: "0 < s" using step_ms [OF assms(2)] by (simp add: s_def)
  have anchor: "anchor = a * NS_PER_MS" using whole_ms_iff [OF assms(3)] by (simp add: a_def)
  have grid: "anchor + j * step_ns amount u = (a + j * s) * NS_PER_MS" for j
    by (simp add: anchor step_ns_ms s_def algebra_simps)
  show before: "anchor + j * step_ns amount u < timestamp_millis pivot * NS_PER_MS \<longleftrightarrow> j \<le> k" for j
  proof -
    have "anchor + j * step_ns amount u < timestamp_millis pivot * NS_PER_MS \<longleftrightarrow> j * s < timestamp_millis pivot - a"
      unfolding grid by (auto simp: NS_PER_MS_def)
    then show ?thesis unfolding period_before [OF s] k_def a_def [symmetric] s_def [symmetric] .
  qed
  show "raw_occurrence lib spec pivot False = Ok (if k < 0 then None else Some (anchor + k * step_ns amount u))"
  proof (cases "k < 0")
    case True
    with s show ?thesis by (simp add: raw_occurrence_def assms(1) Let_def k_def a_def s_def)
  next
    case False
    have "timestamp_millis pivot * NS_PER_MS \<le> pivot" by (simp add: grid_le)
    then have le: "anchor + k * step_ns amount u \<le> tl_max_instant lib"
      using before [of k] assms(6) by linarith
    have ge: "anchor \<le> anchor + k * step_ns amount u"
      using s False by (simp add: step_ns_ms s_def NS_PER_MS_def)
    have "k * s * NS_PER_MS \<le> tl_max_instant lib - tl_min_instant lib"
      using le assms(5) by (simp add: step_ns_ms s_def algebra_simps)
    then have "k * s * NS_PER_MS \<le> i64_max * NS_PER_MS" using assms(4) unfolding lib_ok_def by linarith
    then have "k * s \<le> i64_max" by (simp add: NS_PER_MS_def)
    moreover have "0 \<le> k * s" using s False by simp
    ultimately have sat: "saturating_i64 (k * s) = k * s" by (simp add: saturating_i64_def i64_min_def)
    have ok: "checked_instant lib (anchor + k * s * NS_PER_MS) = Some (anchor + k * s * NS_PER_MS)"
      using le ge assms(5) by (simp add: checked_instant_def step_ns_ms s_def algebra_simps)
    with False s sat show ?thesis
      by (simp add: raw_occurrence_def assms(1) Let_def step_ns_ms k_def a_def s_def algebra_simps)
  qed
qed

text \<open>
  An interval schedule the library can compute with from \<open>t\<close>: a positive amount, instants in
  whole milliseconds, and one step of room before the last supported instant.
\<close>

definition every_ready :: "('z, 'p) time_lib \<Rightarrow> schedule_spec \<Rightarrow> int \<Rightarrow> bool" where
  "every_ready lib spec t \<longleftrightarrow> lib_ok lib \<and> (case ss_timing spec of
     Every amount u anchor \<Rightarrow>
       0 < amount \<and> whole_ms anchor \<and> tl_min_instant lib \<le> anchor
       \<and> max t anchor + step_ns amount u \<le> tl_max_instant lib
       \<and> (case ss_start spec of None \<Rightarrow> True
          | Some s \<Rightarrow> whole_ms s \<and> s + step_ns amount u \<le> tl_max_instant lib)
   | _ \<Rightarrow> False)"

lemma whole_ms_add: "whole_ms a \<Longrightarrow> whole_ms (a + k * step_ns amount u)"
  by (simp add: whole_ms_def step_ns_ms)

lemma start_limit:
  assumes "whole_ms s" "whole_ms t"
  shows "s - NS_PER_MS < t \<longleftrightarrow> s \<le> t"
proof -
  obtain a b where "s = a * NS_PER_MS" "t = b * NS_PER_MS" using whole_ms_iff assms by blast
  then show ?thesis unfolding NS_PER_MS_def by auto
qed

lemma next_every:
  assumes "every_ready lib spec after"
  shows "\<exists>r. next_occurrence lib spec after = Ok r \<and> first_after (every_occurs spec) after r"
proof -
  from assms obtain amount u anchor where
    spec: "ss_timing spec = Every amount u anchor" "0 < amount" "whole_ms anchor" "lib_ok lib"
      "tl_min_instant lib \<le> anchor"
    and room: "max after anchor + step_ns amount u \<le> tl_max_instant lib"
    and start: "case ss_start spec of None \<Rightarrow> True
      | Some s \<Rightarrow> whole_ms s \<and> s + step_ns amount u \<le> tl_max_instant lib"
    by (auto simp: every_ready_def split: schedule_kind.splits)
  define pivot where "pivot = (case ss_start spec of None \<Rightarrow> after | Some s \<Rightarrow> max after (s - NS_PER_MS))"
  have room': "max pivot anchor + step_ns amount u \<le> tl_max_instant lib"
    using room start by (auto simp: pivot_def NS_PER_MS_def split: option.splits)
  define k where "k = max 0 ((timestamp_millis pivot - timestamp_millis anchor) div (interval_seconds amount u * 1000) + 1)"
  define t where "t = (\<lambda>j. anchor + j * step_ns amount u)"
  note raw = raw_every_forward [OF spec room', folded k_def]
  have le: "t k \<le> t j" if "k \<le> j" for j
    using that step_ms [OF spec(2), of u] by (simp add: t_def step_ns_ms NS_PER_MS_def)
  have pivot: "pivot < t j \<longleftrightarrow> after < t j \<and> started spec (t j)" for j
    using start start_limit whole_ms_add [OF spec(3)] by (auto simp: pivot_def t_def started_def split: option.splits)
  have occ: "every_occurs spec x \<longleftrightarrow> (\<exists>j. 0 \<le> j \<and> x = t j
      \<and> started spec (t j)
      \<and> not_ended spec (t j))" for x
    by (auto simp: every_occurs_def spec(1) t_def)
  define r where "r = (if not_ended spec (t k) then Some (t k) else None)"
  have code: "next_occurrence lib spec after = Ok r"
    by (simp add: next_occurrence_def Let_def pivot_def [symmetric] raw(1) r_def t_def started_def not_ended_def)
  have k: "0 \<le> k" by (simp add: k_def)
  have past: "k \<le> j" if "0 \<le> j" "after < t j" "started spec (t j)" for j
    using raw(2) [OF that(1)] pivot [of j] that by (simp add: t_def)
  have here: "after < t k" "started spec (t k)"
    using raw(2) [OF k] pivot [of k] by (simp_all add: t_def)
  have "first_after (every_occurs spec) after r"
  proof (cases "not_ended spec (t k)")
    case True
    then have "every_occurs spec (t k)" using k here occ by blast
    moreover have "t k \<le> x" if "every_occurs spec x" "after < x" for x
      using that past le unfolding occ by blast
    ultimately show ?thesis using True here(1) by (simp add: first_after_def r_def)
  next
    case False
    then obtain e where e: "ss_end spec = Some e" "e < t k" by (auto simp: not_ended_def split: option.splits)
    have "x \<le> after" if x: "every_occurs spec x" for x
    proof (rule ccontr)
      assume "\<not> x \<le> after"
      with x obtain j where "0 \<le> j" "x = t j" "after < t j" "t j \<le> e"
        "started spec (t j)" unfolding occ by (auto simp: not_ended_def e(1))
      with past [of j] le [of j] e(2) show False by simp
    qed
    with False show ?thesis by (simp add: first_after_def r_def)
  qed
  with code show ?thesis by blast
qed

text \<open>
  C31. An interval schedule fires next at the first of its instants: for every stored schedule
  and every moment, the computation succeeds and returns the least instant of the grid anchored
  at the anchor that is strictly later and within the start and end limits, and nothing exactly
  when there is none. Arbitrarily old anchors are computed in one step.
\<close>

theorem next_interval_is_first:
  assumes "every_ready lib spec after"
  shows "\<exists>r. next_occurrence lib spec after = Ok r \<and> first_after (every_occurs spec) after r"
  by (rule next_every [OF assms])

lemma latest_every:
  assumes "every_ready lib spec (now + NS_PER_MS)"
  shows "\<exists>r. latest_occurrence lib spec now = Ok r \<and> last_until (every_occurs spec) now r"
proof -
  from assms obtain amount u anchor where
    spec: "ss_timing spec = Every amount u anchor" "0 < amount" "whole_ms anchor" "lib_ok lib"
      "tl_min_instant lib \<le> anchor"
    and room: "max (now + NS_PER_MS) anchor + step_ns amount u \<le> tl_max_instant lib"
    by (auto simp: every_ready_def split: schedule_kind.splits)
  define pivot where "pivot = (case ss_end spec of None \<Rightarrow> now | Some e \<Rightarrow> min now e)"
  have "0 < step_ns amount u" using step_ms [OF spec(2), of u] by (simp add: step_ns_ms NS_PER_MS_def)
  then have room': "pivot + NS_PER_MS \<le> tl_max_instant lib"
    using room by (auto simp: pivot_def split: option.splits)
  define k where "k = (timestamp_millis (pivot + NS_PER_MS) - timestamp_millis anchor - 1) div (interval_seconds amount u * 1000)"
  define t where "t = (\<lambda>j. anchor + j * step_ns amount u)"
  note raw = raw_every_backward [OF spec room', folded k_def]
  have le: "t j \<le> t k" if "j \<le> k" for j
    using that step_ms [OF spec(2), of u] by (simp add: t_def step_ns_ms NS_PER_MS_def)
  have tm: "timestamp_millis (pivot + NS_PER_MS) = timestamp_millis pivot + 1"
    by (simp add: timestamp_millis_def NS_PER_MS_def)
  have reach: "j \<le> k \<longleftrightarrow> t j \<le> pivot" for j
  proof -
    obtain m where m: "t j = m * NS_PER_MS" using whole_ms_iff whole_ms_add [OF spec(3)] t_def by blast
    have "j \<le> k \<longleftrightarrow> m * NS_PER_MS < (timestamp_millis pivot + 1) * NS_PER_MS"
      using raw(2) [of j] m unfolding t_def tm by simp
    also have "\<dots> \<longleftrightarrow> m \<le> timestamp_millis pivot" by (auto simp: NS_PER_MS_def)
    also have "\<dots> \<longleftrightarrow> t j \<le> pivot" unfolding m grid_le ..
    finally show ?thesis .
  qed
  have pivot: "t j \<le> pivot \<longleftrightarrow> t j \<le> now \<and> not_ended spec (t j)" for j
    by (auto simp: pivot_def not_ended_def split: option.splits)
  have occ: "every_occurs spec x \<longleftrightarrow> (\<exists>j. 0 \<le> j \<and> x = t j
      \<and> started spec (t j)
      \<and> not_ended spec (t j))" for x
    by (auto simp: every_occurs_def spec(1) t_def)
  define r where "r = (if k < 0 then None
    else if started spec (t k) then Some (t k) else None)"
  have code: "latest_occurrence lib spec now = Ok r"
    by (simp add: latest_occurrence_def Let_def pivot_def [symmetric] raw(1) r_def t_def started_def not_ended_def)
  have at: "t k \<le> now" "not_ended spec (t k)"
    using reach [of k] pivot [of k] by auto
  have upto: "j \<le> k" if "t j \<le> now" "not_ended spec (t j)" for j
    using that reach pivot by blast
  have "last_until (every_occurs spec) now r"
  proof (cases "k < 0 \<or> \<not> started spec (t k)")
    case True
    have "now < x" if x: "every_occurs spec x" for x
    proof (rule ccontr)
      assume "\<not> now < x"
      with x obtain j where j: "0 \<le> j" "t j \<le> now" "not_ended spec (t j)"
        "started spec (t j)" unfolding occ by auto
      have "j \<le> k" using upto j by blast
      with le [of j] j True show False by (auto simp: started_def split: option.splits)
    qed
    with True show ?thesis by (auto simp: last_until_def r_def)
  next
    case False
    then have "every_occurs spec (t k)" unfolding occ using at by (intro exI [of _ k]) simp
    moreover have "x \<le> t k" if "every_occurs spec x" "x \<le> now" for x
      using that upto le unfolding occ by blast
    ultimately show ?thesis using False at(1) by (auto simp: last_until_def r_def)
  qed
  with code show ?thesis by blast
qed

text \<open>
  After an outage an interval schedule resumes at the right instant: the latest occurrence
  the code finds is the greatest instant of the schedule, within its limits, that is not in the
  future, and nothing exactly when there is none, without enumerating what was missed.
\<close>

theorem latest_interval_is_last:
  assumes "every_ready lib spec (now + NS_PER_MS)"
  shows "\<exists>r. latest_occurrence lib spec now = Ok r \<and> last_until (every_occurs spec) now r"
  by (rule latest_every [OF assms])

section \<open>Gaps of the wall clock\<close>

lemma gap_high_finds:
  assumes "tl_earliest lib zone (wall + 2 ^ n) \<noteq> None" "n \<le> 17" "m \<le> n"
    and "\<And>i. m \<le> i \<Longrightarrow> i < n \<Longrightarrow> tl_earliest lib zone (wall + 2 ^ i) = None"
  shows "gap_high lib zone wall m = Ok (2 ^ n)"
  using assms(3,4)
proof (induction "n - m" arbitrary: m)
  case 0
  then show ?case using assms(1) by (subst gap_high.simps) auto
next
  case (Suc d)
  then have m: "m < n" by simp
  then have "(2::int) ^ (m + 1) \<le> 2 ^ 17" using assms(2) by (intro power_increasing) auto
  then have "\<not> (2::int) ^ (m + 1) > 172800" by simp
  moreover have "tl_earliest lib zone (wall + 2 ^ m) = None" using Suc.prems(2) m by simp
  moreover have "gap_high lib zone wall (m + 1) = Ok (2 ^ n)"
    by (rule Suc.hyps(1)) (use Suc.hyps(2) Suc.prems m in auto)
  ultimately show ?case by (subst gap_high.simps) auto
qed

lemma gap_high_gives_up:
  assumes "\<And>i. i \<le> 17 \<Longrightarrow> tl_earliest lib zone (wall + 2 ^ i) = None" "m \<le> 17"
  shows "gap_high lib zone wall m = Err (invalid ''Timezone gap exceeds two days'')"
  using assms(2)
proof (induction "17 - m" arbitrary: m)
  case 0
  then have "m = 17" by simp
  with assms(1) [of 17] show ?case by (subst gap_high.simps) simp
next
  case (Suc d)
  then have m: "m < 17" by simp
  have "gap_high lib zone wall (m + 1) = Err (invalid ''Timezone gap exceeds two days'')"
    by (rule Suc.hyps(1)) (use Suc.hyps(2) m in auto)
  then show ?case using assms(1) [of m] m by (subst gap_high.simps) auto
qed

lemma gap_search_finds:
  assumes "low < g" "g \<le> high"
    and "\<And>x. low \<le> x \<Longrightarrow> x < g \<Longrightarrow> tl_earliest lib zone (wall + x) = None"
    and "\<And>x. g \<le> x \<Longrightarrow> x \<le> high \<Longrightarrow> tl_earliest lib zone (wall + x) \<noteq> None"
  shows "gap_search lib zone wall low high = g"
  using assms
proof (induction lib zone wall low high rule: gap_search.induct)
  case (1 lib zone wall low high)
  let ?mid = "(low + high) div 2"
  show ?case
  proof (cases "high - low > 1")
    case True
    then have mid: "low < ?mid" "?mid < high" by auto
    show ?thesis
    proof (cases "?mid < g")
      case below: True
      then have "tl_earliest lib zone (wall + ?mid) = None" using "1.prems"(3) mid by simp
      moreover have "gap_search lib zone wall ?mid high = g"
        using "1.IH"(2) [OF True refl] calculation below "1.prems" mid by auto
      ultimately show ?thesis using True by (subst gap_search.simps) (simp add: Let_def)
    next
      case False
      then have "tl_earliest lib zone (wall + ?mid) \<noteq> None" using "1.prems"(4) mid by simp
      moreover have "gap_search lib zone wall low ?mid = g"
        using "1.IH"(1) [OF True refl] calculation False "1.prems" mid by auto
      ultimately show ?thesis using True by (subst gap_search.simps) (simp add: Let_def)
    qed
  next
    case False
    with "1.prems"(1,2) show ?thesis by (subst gap_search.simps) auto
  qed
qed

text \<open>
  A wall time that a daylight-saving change or a skipped date removes is resolved to the
  first instant after the gap, found by at most 18 doublings and a binary search: for every gap
  of at most \<open>2 ^ 17\<close> seconds (36 hours), and only those; a longer gap is refused, although the
  limit in the code and its message say two days.
\<close>

theorem gap_resolves_to_its_end:
  assumes "0 < g" and "\<forall>x. 0 \<le> x \<and> x < g \<longrightarrow> tl_earliest lib zone (wall + x) = None"
    and "\<forall>x. g \<le> x \<and> x \<le> 2 ^ 18 \<longrightarrow> tl_earliest lib zone (wall + x) \<noteq> None"
  shows "resolve_wall_time lib zone wall =
    (if g \<le> 2 ^ 17 then Ok (the (tl_earliest lib zone (wall + g)))
     else Err (invalid ''Timezone gap exceeds two days''))"
proof -
  have start: "tl_earliest lib zone wall = None" using assms(1) assms(2) [rule_format, of 0] by simp
  show ?thesis
  proof (cases "g \<le> 2 ^ 17")
    case True
    define n where "n = (LEAST n. g \<le> 2 ^ n)"
    have n: "g \<le> 2 ^ n" "n \<le> 17" unfolding n_def using True by (rule LeastI, rule Least_le)
    have less: "2 ^ i < g" if "i < n" for i using not_less_Least [of i "\<lambda>n. g \<le> 2 ^ n"] that by (simp add: n_def)
    have "(2::int) ^ n \<le> 2 ^ 18" using n(2) by (intro power_increasing) auto
    then have hit: "tl_earliest lib zone (wall + 2 ^ n) \<noteq> None" using assms(3) n(1) by blast
    have high: "gap_high lib zone wall 0 = Ok (2 ^ n)"
      by (rule gap_high_finds [OF hit n(2)]) (use less assms(2) in auto)
    have search: "gap_search lib zone wall 0 (2 ^ n) = g"
      by (rule gap_search_finds) (use assms n \<open>2 ^ n \<le> 2 ^ 18\<close> in auto)
    obtain t where "tl_earliest lib zone (wall + g) = Some t" using assms(3) True by fastforce
    with high search start True show ?thesis by (simp add: resolve_wall_time_def)
  next
    case False
    have "gap_high lib zone wall 0 = Err (invalid ''Timezone gap exceeds two days'')"
    proof (rule gap_high_gives_up)
      fix i :: nat assume "i \<le> 17"
      then have "(2::int) ^ i \<le> 2 ^ 17" by (intro power_increasing) auto
      then show "tl_earliest lib zone (wall + 2 ^ i) = None" using False assms(2) by simp
    qed simp
    with start False show ?thesis by (simp add: resolve_wall_time_def)
  qed
qed

section \<open>The minimum cadence\<close>

lemma sorted_day_times:
  "sorted_wrt (<) (map (\<lambda>(hour, minute). int (hour * 60 + minute)) (day_times lib p))"
proof -
  have "sorted_wrt (<) (map (\<lambda>(hour, minute). int (hour * 60 + minute))
      (concat (map (\<lambda>hour. if tl_hour_match lib p hour
         then map (\<lambda>minute. (hour, minute)) (filter (tl_minute_match lib p) [0..<60]) else []) [0..<n])))
      \<and> (\<forall>(h, m) \<in> set (concat (map (\<lambda>hour. if tl_hour_match lib p hour
         then map (\<lambda>minute. (hour, minute)) (filter (tl_minute_match lib p) [0..<60]) else []) [0..<n])). h < n \<and> m < 60)" for n
  proof (induction n)
    case (Suc n)
    have "sorted_wrt (<) (map (\<lambda>m. int (n * 60 + m)) (filter (tl_minute_match lib p) [0..<60]))"
      unfolding sorted_wrt_map by (rule sorted_wrt_filter) (simp add: sorted_wrt_mono_rel [OF _ sorted_wrt_upt])
    with Suc show ?case
      by (auto simp: sorted_wrt_append o_def split_beta)
  qed simp
  from this [of 24] show ?thesis by (simp add: day_times_def)
qed

lemma windows2_gaps:
  assumes "\<forall>(a, b) \<in> set (windows2 xs). d \<le> b - a" "sorted_wrt (<) xs" "x \<in> set xs" "y \<in> set xs" "x < (y::int)"
  shows "d \<le> y - x"
  using assms
proof (induction xs rule: windows2.induct)
  case (1 a b xs)
  show ?case
  proof (cases "x = a")
    case True
    then have "y \<in> set (b # xs)" using "1.prems" by auto
    then have "b \<le> y" using "1.prems"(2) by auto
    moreover have "d \<le> b - a" using "1.prems"(1) by simp
    ultimately show ?thesis using True by simp
  next
    case False
    then have x: "x \<in> set (b # xs)" using "1.prems"(3) by simp
    moreover have "y \<noteq> a" using "1.prems"(2,5) x by auto
    ultimately show ?thesis using "1.IH" "1.prems" by simp
  qed
qed auto

lemma adjacent_loop_iff:
  "adjacent_loop lib p n day prev \<longleftrightarrow>
     (\<exists>i < n. date_matches lib p (day + int i)
        \<and> (if i = 0 then prev else date_matches lib p (day + int i - 1)))"
proof (induction n arbitrary: day prev)
  case 0
  then show ?case by (subst adjacent_loop.simps) simp
next
  case (Suc n)
  let ?m = "date_matches lib p"
  have "adjacent_loop lib p (Suc n) day prev \<longleftrightarrow> prev \<and> ?m day \<or> adjacent_loop lib p n (day + 1) (?m day)"
    by (subst adjacent_loop.simps) (simp add: Let_def, blast)
  also have "adjacent_loop lib p n (day + 1) (?m day)
      \<longleftrightarrow> (\<exists>i < n. ?m (day + int (Suc i)) \<and> ?m (day + int (Suc i) - 1))"
  proof -
    have shift: "(if i = 0 then ?m day else ?m (day + 1 + int i - 1)) = ?m (day + int (Suc i) - 1)"
      "day + 1 + int i = day + int (Suc i)" for i by simp_all
    then show ?thesis unfolding Suc.IH by (simp only: shift)
  qed
  finally show ?case unfolding Ex_less_Suc2 by (simp add: conj_commute)
qed

text \<open>The Gregorian calendar repeats after 146,097 days, so a pattern's dates do.\<close>

definition dates_repeat :: "('z, 'p) time_lib \<Rightarrow> 'p \<Rightarrow> bool" where
  "dates_repeat lib p \<longleftrightarrow> (\<forall>day. date_matches lib p (day + int CYCLE_DAYS) = date_matches lib p day)"

lemma dates_repeat_mult:
  assumes "dates_repeat lib p"
  shows "date_matches lib p (day + k * int CYCLE_DAYS) = date_matches lib p day"
proof (induction k rule: int_induct [where k = 0])
  case (step1 i)
  have "day + (i + 1) * int CYCLE_DAYS = (day + i * int CYCLE_DAYS) + int CYCLE_DAYS" by (simp add: algebra_simps)
  with step1 assms show ?case unfolding dates_repeat_def by metis
next
  case (step2 i)
  have "day + i * int CYCLE_DAYS = (day + (i - 1) * int CYCLE_DAYS) + int CYCLE_DAYS" by (simp add: algebra_simps)
  with step2 assms show ?case unfolding dates_repeat_def by metis
qed simp

lemma matches_adjacent_complete:
  assumes "dates_repeat lib p" "date_matches lib p day" "date_matches lib p (day + 1)"
  shows "matches_adjacent_dates lib p"
proof -
  define r where "r = (day - DAY_2000_01_01) mod int CYCLE_DAYS"
  have pos: "0 < int CYCLE_DAYS" by (simp add: CYCLE_DAYS_def)
  then have r: "0 \<le> r" "r < int CYCLE_DAYS" by (simp_all add: r_def)
  have day: "day = (DAY_2000_01_01 + r) + ((day - DAY_2000_01_01) div int CYCLE_DAYS) * int CYCLE_DAYS"
    unfolding r_def by (metis add.assoc add.commute diff_add_cancel mod_div_mult_eq)
  have "date_matches lib p (DAY_2000_01_01 + r)" "date_matches lib p (DAY_2000_01_01 + r + 1)"
    using assms(2,3) dates_repeat_mult [OF assms(1)] day by (metis, metis add.assoc add.commute)
  then have "adjacent_loop lib p (CYCLE_DAYS + 1) DAY_2000_01_01 False"
    unfolding adjacent_loop_iff using r by (intro exI [of _ "nat r + 1"]) (simp add: algebra_simps)
  then show ?thesis by (simp add: matches_adjacent_dates_def)
qed

text \<open>The wall-clock minutes a pattern fires at, counted from the epoch day.\<close>

definition fires_at :: "('z, 'p) time_lib \<Rightarrow> 'p \<Rightarrow> int \<Rightarrow> bool" where
  "fires_at lib p minute \<longleftrightarrow> (\<exists>day. \<exists>(h, m) \<in> set (day_times lib p).
     date_matches lib p day \<and> minute = day * 1440 + int (h * 60 + m))"

lemma day_times_range: "(h, m) \<in> set (day_times lib p) \<Longrightarrow> h < 24 \<and> m < 60"
  by (auto simp: day_times_def split: if_splits)

lemma list_last_hd:
  assumes "sorted_wrt (<) xs" "x \<in> set xs"
  shows "hd xs \<le> x" "x \<le> last (xs :: int list)"
proof -
  have s: "sorted xs" using assms(1) by (rule strict_sorted_imp_sorted)
  show "hd xs \<le> x" using s assms(2) by (cases xs) auto
  have xs: "xs = butlast xs @ [last xs]" using assms(2) by (metis append_butlast_last_id empty_iff list.set(1))
  then have "sorted (butlast xs @ [last xs])" "x \<in> set (butlast xs @ [last xs])" using s assms(2) by simp_all
  then show "x \<le> last xs" by (auto simp: sorted_append)
qed

text \<open>
  A cron schedule that passes validation never fires more often than its owner allows: any
  two wall-clock minutes it fires at, on whatever dates, across midnight or not, are at least the
  minimum interval apart (which owners set to at most 1440 minutes). One cycle of the calendar,
  which the check scans, decides it for all dates.
\<close>

theorem cron_cadence_respects_minimum:
  assumes "schedule_validate lib spec minimum_minutes = Ok ()" "minimum_minutes \<le> 1440"
    and "ss_timing spec = Cron expression zone" "tl_cron lib expression = Some p" "dates_repeat lib p"
    and "fires_at lib p a" "fires_at lib p b" "a < b"
  shows "max minimum_minutes DEFAULT_SCHEDULE_MINIMUM_MINUTES \<le> b - a"
proof -
  define minimum where "minimum = max minimum_minutes DEFAULT_SCHEDULE_MINIMUM_MINUTES"
  define ms where "ms = map (\<lambda>(hour, minute). int (hour * 60 + minute)) (day_times lib p)"
  have v: "validate_timing lib (Cron expression zone) (minimum * 60) = Ok ()"
    using assms(1,3) by (auto simp: schedule_validate_def minimum_def)
  then obtain t where z: "timezone lib zone = Ok t" "cron lib expression = Ok p"
    using assms(4) by (auto simp: validate_timing_def cron_def split: if_splits)
  have "(if ms = [] then Err (invalid ''Cron has no matching time'')
      else if list_ex (\<lambda>(a, b). (b - a) * 60 < minimum * 60) (windows2 ms)
           \<or> (length ms > 1 \<and> (1440 + hd ms - last ms) * 60 < minimum * 60 \<and> matches_adjacent_dates lib p)
      then Err (invalid ''Cron cadence is below the owner's minimum interval'') else Ok ()) = Ok ()"
    using v unfolding validate_timing_def schedule_kind.case z and_then_simps Let_def ms_def [symmetric] .
  then have gaps: "\<forall>(x, y) \<in> set (windows2 ms). minimum \<le> y - x"
    and midnight: "length ms > 1 \<longrightarrow> minimum \<le> 1440 + hd ms - last ms \<or> \<not> matches_adjacent_dates lib p"
    by (auto simp: list_ex_iff not_less split: if_split_asm)
  have sorted: "sorted_wrt (<) ms" unfolding ms_def by (rule sorted_day_times)
  have small: "minimum \<le> 1440" using assms(2) by (simp add: minimum_def DEFAULT_SCHEDULE_MINIMUM_MINUTES_def)
  obtain d1 x d2 y where x: "x \<in> set ms" "date_matches lib p d1" "a = d1 * 1440 + x"
    and y: "y \<in> set ms" "date_matches lib p d2" "b = d2 * 1440 + y"
    using assms(6,7) by (force simp: fires_at_def ms_def)
  have range: "0 \<le> v \<and> v < 1440" if "v \<in> set ms" for v
    using that day_times_range by (fastforce simp: ms_def)
  consider "d1 = d2" | "d2 = d1 + 1" | "d1 + 2 \<le> d2" | "d2 < d1" by linarith
  then have "minimum \<le> b - a"
  proof cases
    case 1
    with windows2_gaps [OF gaps sorted x(1) y(1)] x(3) y(3) assms(8) show ?thesis by linarith
  next
    case 2
    then have adj: "matches_adjacent_dates lib p" using matches_adjacent_complete [OF assms(5) x(2)] y(2) by simp
    show ?thesis
    proof (cases "length ms > 1")
      case True
      with adj midnight have "minimum \<le> 1440 + hd ms - last ms" by blast
      with 2 x y list_last_hd [OF sorted x(1)] list_last_hd [OF sorted y(1)] show ?thesis by simp
    next
      case False
      with x(1) y(1) have "x = y" by (cases ms) auto
      with 2 x(3) y(3) small show ?thesis by simp
    qed
  next
    case 3
    then have "d1 * 1440 + 2880 \<le> d2 * 1440" by simp
    with range [OF x(1)] range [OF y(1)] x(3) y(3) small show ?thesis by linarith
  next
    case 4
    then have "d2 * 1440 + 1440 \<le> d1 * 1440" by simp
    with range [OF x(1)] range [OF y(1)] x(3) y(3) assms(8) show ?thesis by linarith
  qed
  then show ?thesis by (simp only: minimum_def)
qed

section \<open>Cron occurrences\<close>

definition beyond :: "bool \<Rightarrow> int \<Rightarrow> int \<Rightarrow> bool" where
  "beyond forward pivot t \<longleftrightarrow> (if forward then pivot < t else t < pivot)"

definition nearer :: "bool \<Rightarrow> int \<Rightarrow> int \<Rightarrow> bool" where
  "nearer forward t u \<longleftrightarrow> (if forward then t \<le> u else u \<le> t)"

text \<open>\<open>best\<close> is the nearest element of \<open>S\<close> beyond the pivot.\<close>

definition nearest :: "bool \<Rightarrow> int \<Rightarrow> int set \<Rightarrow> int option \<Rightarrow> bool" where
  "nearest forward pivot S best \<longleftrightarrow> (case best of
     None \<Rightarrow> (\<forall>u \<in> S. \<not> beyond forward pivot u)
   | Some t \<Rightarrow> t \<in> S \<and> beyond forward pivot t \<and> (\<forall>u \<in> S. beyond forward pivot u \<longrightarrow> nearer forward t u))"

lemma nearest_fold:
  assumes "nearest forward pivot S best"
  shows "nearest forward pivot (S \<union> set ts)
    (fold (\<lambda>candidate best.
        if (forward \<and> candidate > pivot) \<or> (\<not> forward \<and> candidate < pivot)
        then Some (case best of None \<Rightarrow> candidate
                   | Some old \<Rightarrow> if forward then min old candidate else max old candidate)
        else best) ts best)"
  using assms
proof (induction ts arbitrary: S best)
  case (Cons t ts)
  let ?b = "if (forward \<and> t > pivot) \<or> (\<not> forward \<and> t < pivot)
        then Some (case best of None \<Rightarrow> t | Some old \<Rightarrow> if forward then min old t else max old t) else best"
  have "nearest forward pivot (insert t S) ?b"
    using Cons.prems by (cases best; cases forward) (auto simp: nearest_def beyond_def nearer_def min_def max_def)
  from Cons.IH [OF this] show ?case by simp
qed simp

definition cron_on :: "('z, 'p) time_lib \<Rightarrow> 'p \<Rightarrow> 'z \<Rightarrow> int \<Rightarrow> int set" where
  "cron_on lib p zone day = {t. date_matches lib p day
     \<and> (\<exists>hm \<in> set (day_times lib p). resolve_wall_time lib zone (wall_of day hm) = Ok t)}"

lemma try_map_set: "try_map f xs = Ok ys \<Longrightarrow> set ys = {y. \<exists>x \<in> set xs. f x = Ok y}"
proof (induction xs arbitrary: ys)
  case (Cons x xs)
  then obtain y ys' where "f x = Ok y" "try_map f xs = Ok ys'" "ys = y # ys'" by (auto split: sum.splits)
  with Cons.IH show ?case by auto
qed simp

lemma day_best_nearest:
  assumes "day_best lib p zone pivot forward day = Ok r"
  shows "nearest forward pivot (cron_on lib p zone day) r"
proof (cases "date_matches lib p day")
  case True
  with assms obtain ts where ts: "try_map (\<lambda>hm. resolve_wall_time lib zone (wall_of day hm)) (day_times lib p) = Ok ts"
    and r: "r = fold (\<lambda>candidate best.
            if (forward \<and> candidate > pivot) \<or> (\<not> forward \<and> candidate < pivot)
            then Some (case best of None \<Rightarrow> candidate
                       | Some old \<Rightarrow> if forward then min old candidate else max old candidate)
            else best) ts None"
    by (auto simp: day_best_def)
  have "set ts = cron_on lib p zone day"
    using try_map_set [OF ts] True by (simp add: cron_on_def)
  moreover have "nearest forward pivot {} None" by (simp add: nearest_def)
  ultimately show ?thesis using nearest_fold [of forward pivot "{}" None ts] r by simp
next
  case False
  with assms show ?thesis by (auto simp: day_best_def cron_on_def nearest_def)
qed

text \<open>The days the scan has seen when it stops at \<open>d\<close>.\<close>

definition passed :: "bool \<Rightarrow> int \<Rightarrow> int \<Rightarrow> int \<Rightarrow> bool" where
  "passed forward day d d' \<longleftrightarrow> (if forward then day \<le> d' \<and> d' < d else d < d' \<and> d' \<le> day)"

lemma scan_Some:
  assumes "occurrence_scan lib p zone pivot forward n day = Ok (Some t)"
  shows "\<exists>d. nearer forward day d \<and> nearest forward pivot (cron_on lib p zone d) (Some t)
    \<and> (\<forall>d'. passed forward day d d' \<longrightarrow> nearest forward pivot (cron_on lib p zone d') None)"
  using assms
proof (induction n arbitrary: day)
  case 0
  then show ?case by (subst (asm) occurrence_scan.simps) simp
next
  case (Suc n)
  let ?next = "if forward then succ_day lib day else pred_day lib day"
  consider (here) "day_best lib p zone pivot forward day = Ok (Some t)"
    | (on) day' where "day_best lib p zone pivot forward day = Ok None" "?next = Some day'"
        "occurrence_scan lib p zone pivot forward n day' = Ok (Some t)"
    using Suc.prems by (subst (asm) occurrence_scan.simps) (auto split: sum.splits option.splits)
  then show ?case
  proof cases
    case here
    then show ?thesis using day_best_nearest [OF here]
      by (intro exI [of _ day]) (auto simp: nearer_def passed_def)
  next
    case on
    then have day': "day' = (if forward then day + 1 else day - 1)"
      by (auto simp: succ_day_def pred_day_def split: if_splits)
    from Suc.IH [OF on(3)] obtain d where d: "nearer forward day' d"
      "nearest forward pivot (cron_on lib p zone d) (Some t)"
      "\<forall>d'. passed forward day' d d' \<longrightarrow> nearest forward pivot (cron_on lib p zone d') None" by blast
    have "nearest forward pivot (cron_on lib p zone d') None" if "passed forward day d d'" for d'
    proof (cases "d' = day")
      case True
      then show ?thesis using day_best_nearest [OF on(1)] by simp
    next
      case False
      then have "passed forward day' d d'" using that day' by (auto simp: passed_def split: if_splits)
      with d(3) show ?thesis by blast
    qed
    with d(1,2) day' show ?thesis by (intro exI [of _ d]) (auto simp: nearer_def split: if_splits)
  qed
qed

text \<open>Under a calendar with room for the whole scan, a scan whose days all resolve returns.\<close>

lemma scan_total:
  assumes "\<And>d. is_ok (day_best lib p zone pivot forward d)"
    and "if forward then day + int n \<le> tl_max_day lib else tl_min_day lib \<le> day - int n"
  shows "\<exists>r. occurrence_scan lib p zone pivot forward n day = Ok r
    \<and> (r = None \<longrightarrow> (\<forall>d'. passed forward day (if forward then day + int n else day - int n) d' \<longrightarrow>
         nearest forward pivot (cron_on lib p zone d') None))"
  using assms(2)
proof (induction n arbitrary: day)
  case 0
  then show ?case by (subst occurrence_scan.simps) (auto simp: passed_def)
next
  case (Suc n)
  let ?next = "if forward then day + 1 else day - 1"
  have step: "(if forward then succ_day lib day else pred_day lib day) = Some ?next"
    using Suc.prems by (auto simp: succ_day_def pred_day_def split: if_splits)
  obtain b where b: "day_best lib p zone pivot forward day = Ok b" using assms(1) [of day] by (auto simp: is_ok_iff)
  show ?case
  proof (cases b)
    case (Some t)
    then show ?thesis using b by (subst occurrence_scan.simps) simp
  next
    case None
    have "if forward then ?next + int n \<le> tl_max_day lib else tl_min_day lib \<le> ?next - int n"
      using Suc.prems by (auto split: if_splits)
    from Suc.IH [OF this] obtain r where r: "occurrence_scan lib p zone pivot forward n ?next = Ok r"
      "r = None \<Longrightarrow> passed forward ?next (if forward then ?next + int n else ?next - int n) d' \<Longrightarrow>
         nearest forward pivot (cron_on lib p zone d') None" for d' by blast
    have "occurrence_scan lib p zone pivot forward (Suc n) day = Ok r"
      using b None step r(1) by (subst occurrence_scan.simps) simp
    moreover have "nearest forward pivot (cron_on lib p zone d') None"
      if "r = None" "passed forward day (if forward then day + int (Suc n) else day - int (Suc n)) d'" for d'
    proof (cases "d' = day")
      case True
      then show ?thesis using day_best_nearest [OF b] None by simp
    next
      case False
      with that(2) have "passed forward ?next (if forward then ?next + int n else ?next - int n) d'"
        by (auto simp: passed_def split: if_splits)
      with r(2) that(1) show ?thesis by blast
    qed
    ultimately show ?thesis by blast
  qed
qed

text \<open>
  What the calendar library promises of a zone, over the zone's own clock: \<open>clock t\<close> is the wall
  time the zone shows at the instant \<open>t\<close>, both in nanoseconds. The day of an instant is the day
  its clock shows; the earliest instant of a wall time is the first at which the clock shows it, and
  the clock has not been ahead of it before; a wall time without an instant is one the clock never
  shows, in a gap of at most \<open>2 ^ 17\<close> seconds with no second gap in the three days after its start;
  and the clock is not set back over midnight. The clocks of the time zone database satisfy this, but
  for the zones that were set back just after midnight.
\<close>

definition zone_clock :: "('z, 'p) time_lib \<Rightarrow> 'z \<Rightarrow> (int \<Rightarrow> int) \<Rightarrow> bool" where
  "zone_clock lib zone clock \<longleftrightarrow>
     (\<forall>t. tl_local_day lib zone t = clock t div (86400 * NS_PER_S))
     \<and> (\<forall>w t. tl_earliest lib zone w = Some t \<longrightarrow>
          clock t = w * NS_PER_S \<and> (\<forall>u. w * NS_PER_S \<le> clock u \<longrightarrow> t \<le> u))
     \<and> (\<forall>w. tl_earliest lib zone w = None \<longrightarrow> (\<forall>u. clock u div NS_PER_S \<noteq> w)
          \<and> (\<exists>g. 0 < g \<and> g \<le> 2 ^ 17 \<and> (\<forall>x. 0 \<le> x \<and> x < g \<longrightarrow> tl_earliest lib zone (w + x) = None)
               \<and> (\<forall>x. g \<le> x \<and> x \<le> 2 ^ 18 \<longrightarrow> tl_earliest lib zone (w + x) \<noteq> None)))
     \<and> (\<forall>t u. t \<le> u \<longrightarrow> tl_local_day lib zone t \<le> tl_local_day lib zone u)"

text \<open>The first instant at which a clock has reached a wall time, in seconds.\<close>

definition first_showing :: "(int \<Rightarrow> int) \<Rightarrow> int \<Rightarrow> int \<Rightarrow> bool" where
  "first_showing clock wall t \<longleftrightarrow> wall * NS_PER_S \<le> clock t \<and> (\<forall>u. wall * NS_PER_S \<le> clock u \<longrightarrow> t \<le> u)"

text \<open>The instants of an expression in a zone, from the fields it matches and the zone's clock.\<close>

definition cron_instants :: "('z, 'p) time_lib \<Rightarrow> 'p \<Rightarrow> (int \<Rightarrow> int) \<Rightarrow> int set" where
  "cron_instants lib p clock = {t. \<exists>day hour minute year month mday.
     tl_civil lib day = (year, month, mday) \<and> tl_month_match lib p month
     \<and> tl_day_match lib p year month mday (tl_weekday lib day)
     \<and> hour < 24 \<and> tl_hour_match lib p hour \<and> minute < 60 \<and> tl_minute_match lib p minute
     \<and> first_showing clock (day * 86400 + int hour * 3600 + int minute * 60) t}"

lemma zone_clock_day:
  assumes "zone_clock lib zone clock"
  shows "tl_local_day lib zone t = clock t div (86400 * NS_PER_S)"
    and "t \<le> u \<Longrightarrow> tl_local_day lib zone t \<le> tl_local_day lib zone u"
  using assms unfolding zone_clock_def by blast+

lemma first_showing_unique: "first_showing clock w t \<Longrightarrow> first_showing clock w u \<Longrightarrow> t = u"
  by (force simp: first_showing_def)

lemma first_showing_mono: "first_showing clock w t \<Longrightarrow> first_showing clock w' u \<Longrightarrow> w \<le> w' \<Longrightarrow> t \<le> u"
  by (force simp: first_showing_def NS_PER_S_def)

lemma resolve_first_showing:
  assumes "zone_clock lib zone clock"
  shows "\<exists>t. resolve_wall_time lib zone w = Ok t \<and> first_showing clock w t"
proof (cases "tl_earliest lib zone w")
  case (Some t)
  then show ?thesis using assms by (auto simp: resolve_wall_time_def zone_clock_def first_showing_def)
next
  case None
  with assms obtain g where g: "0 < g" "g \<le> 2 ^ 17" "\<forall>x. 0 \<le> x \<and> x < g \<longrightarrow> tl_earliest lib zone (w + x) = None"
    "\<forall>x. g \<le> x \<and> x \<le> 2 ^ 18 \<longrightarrow> tl_earliest lib zone (w + x) \<noteq> None"
    unfolding zone_clock_def by blast
  have "tl_earliest lib zone (w + g) \<noteq> None" using g(2,4) by simp
  then obtain t where t: "tl_earliest lib zone (w + g) = Some t" by blast
  then have reached: "clock t = (w + g) * NS_PER_S" "\<And>u. (w + g) * NS_PER_S \<le> clock u \<Longrightarrow> t \<le> u"
    using assms unfolding zone_clock_def by blast+
  have "t \<le> u" if "w * NS_PER_S \<le> clock u" for u
  proof -
    have "\<not> clock u div NS_PER_S < w + g"
    proof
      assume "clock u div NS_PER_S < w + g"
      moreover have "w \<le> clock u div NS_PER_S" using that unfolding NS_PER_S_def by linarith
      ultimately have "tl_earliest lib zone (clock u div NS_PER_S) = None"
        using g(3) [rule_format, of "clock u div NS_PER_S - w"] by simp
      then show False using assms unfolding zone_clock_def by blast
    qed
    then have "(w + g) * NS_PER_S \<le> clock u" unfolding NS_PER_S_def distrib_right by linarith
    then show ?thesis by (rule reached(2))
  qed
  moreover have "w * NS_PER_S \<le> clock t" using g(1) unfolding reached NS_PER_S_def distrib_right by linarith
  ultimately have "first_showing clock w t" by (simp add: first_showing_def)
  moreover have "resolve_wall_time lib zone w = Ok t"
    unfolding gap_resolves_to_its_end [OF g(1,3,4)] using g(2) t by simp
  ultimately show ?thesis by blast
qed

lemma in_day_times:
  "(h, m) \<in> set (day_times lib p) \<longleftrightarrow> h < 24 \<and> tl_hour_match lib p h \<and> m < 60 \<and> tl_minute_match lib p m"
  by (auto simp: day_times_def split: if_splits)

lemma cron_on_iff:
  assumes "zone_clock lib zone clock"
  shows "t \<in> cron_on lib p zone day \<longleftrightarrow> date_matches lib p day
     \<and> (\<exists>hm\<in>set (day_times lib p). first_showing clock (wall_of day hm) t)"
proof -
  have "resolve_wall_time lib zone w = Ok t \<longleftrightarrow> first_showing clock w t" for w
    using resolve_first_showing [OF assms, of w] first_showing_unique by fastforce
  then show ?thesis by (simp add: cron_on_def)
qed

lemma cron_instants_days:
  assumes "zone_clock lib zone clock"
  shows "cron_instants lib p clock = (\<Union>day. cron_on lib p zone day)"
proof -
  have "t \<in> cron_instants lib p clock \<longleftrightarrow> (\<exists>day. t \<in> cron_on lib p zone day)" for t
    unfolding cron_instants_def cron_on_iff [OF assms] date_matches_def wall_of_def Bex_def split_paired_Ex in_day_times
      mem_Collect_eq prod.case
    by (intro arg_cong [where f = Ex] ext) (auto split: prod.split)
  then show ?thesis by auto
qed

lemma day_best_ok:
  assumes "zone_clock lib zone clock"
  shows "is_ok (day_best lib p zone pivot forward day)"
proof -
  have "is_ok (try_map (\<lambda>hm. resolve_wall_time lib zone (wall_of day hm)) hms)" for hms
  proof (induction hms)
    case (Cons hm hms)
    obtain t where "resolve_wall_time lib zone (wall_of day hm) = Ok t" using resolve_first_showing [OF assms] by blast
    with Cons show ?case by (auto simp: is_ok_iff)
  qed simp
  then show ?thesis by (auto simp: day_best_def is_ok_iff Let_def)
qed

lemma wall_of_day: "hm \<in> set (day_times lib p) \<Longrightarrow> day * 86400 \<le> wall_of day hm \<and> wall_of day hm < (day + 1) * 86400"
  using day_times_range [of "fst hm" "snd hm" lib p] by (cases hm) (simp add: wall_of_def)

lemma wall_of_mono:
  assumes "d < d'" "hm \<in> set (day_times lib p)" "hm' \<in> set (day_times lib p)"
  shows "wall_of d hm \<le> wall_of d' hm'"
proof -
  have "(d + 1) * 86400 \<le> d' * 86400" using assms(1) by simp
  then show ?thesis using wall_of_day [OF assms(2), of d] wall_of_day [OF assms(3), of d'] by linarith
qed

text \<open>Where the instants of other days lie: after the pivot for later days, not after it for earlier ones.\<close>

lemma later_day_beyond:
  assumes "zone_clock lib zone clock" "t \<in> cron_on lib p zone day" "tl_local_day lib zone pivot < day"
  shows "pivot < t"
proof (rule ccontr)
  assume "\<not> pivot < t"
  then have "tl_local_day lib zone t \<le> tl_local_day lib zone pivot" by (intro zone_clock_day(2) [OF assms(1)]) simp
  moreover obtain hm where hm: "hm \<in> set (day_times lib p)" "wall_of day hm * NS_PER_S \<le> clock t"
    using assms(2) unfolding cron_on_iff [OF assms(1)] first_showing_def by blast
  have "day * (86400 * NS_PER_S) \<le> clock t" using wall_of_day [OF hm(1), of day] hm(2) unfolding NS_PER_S_def by simp
  then have "day \<le> tl_local_day lib zone t"
    unfolding zone_clock_day(1) [OF assms(1)] by (simp add: NS_PER_S_def)
  ultimately show False using assms(3) by simp
qed

lemma earlier_day_reached:
  assumes "zone_clock lib zone clock" "t \<in> cron_on lib p zone day" "day < tl_local_day lib zone pivot"
  shows "t \<le> pivot" and "clock pivot \<le> clock (pivot - 1) + 1 \<Longrightarrow> t < pivot"
proof -
  obtain hm where hm: "hm \<in> set (day_times lib p)" "first_showing clock (wall_of day hm) t"
    using assms(2) unfolding cron_on_iff [OF assms(1)] by blast
  have "day + 1 \<le> clock pivot div (86400 * NS_PER_S)" using assms(3) unfolding zone_clock_day(1) [OF assms(1)] by simp
  then have "(day + 1) * (86400 * NS_PER_S) \<le> clock pivot div (86400 * NS_PER_S) * (86400 * NS_PER_S)"
    by (rule mult_right_mono) (simp add: NS_PER_S_def)
  also have "\<dots> \<le> clock pivot" by (simp add: NS_PER_S_def)
  finally have wall: "wall_of day hm * NS_PER_S < clock pivot"
    using wall_of_day [OF hm(1), of day] unfolding NS_PER_S_def by simp
  then show "t \<le> pivot" using hm(2) by (simp add: first_showing_def)
  show "t < pivot" if "clock pivot \<le> clock (pivot - 1) + 1"
  proof -
    have "wall_of day hm * NS_PER_S \<le> clock (pivot - 1)" using wall that by linarith
    then have "t \<le> pivot - 1" using hm(2) unfolding first_showing_def by blast
    then show ?thesis by simp
  qed
qed

lemma cron_days_ordered:
  assumes "zone_clock lib zone clock" "t \<in> cron_on lib p zone d" "u \<in> cron_on lib p zone d'" "d < d'"
  shows "t \<le> u"
proof -
  obtain hm hm' where "hm \<in> set (day_times lib p)" "hm' \<in> set (day_times lib p)"
    "first_showing clock (wall_of d hm) t" "first_showing clock (wall_of d' hm') u"
    using assms(2,3) unfolding cron_on_iff [OF assms(1)] by blast
  then show ?thesis using first_showing_mono wall_of_mono [OF assms(4)] by metis
qed

text \<open>When the days of one cycle hold no instant beyond the pivot, no day does.\<close>

lemma no_instant_beyond:
  assumes zone: "zone_clock lib zone clock" and repeat: "dates_repeat lib p"
    and room: "if forward then lo else lo' \<and> clock pivot \<le> clock (pivot - 1) + 1"
    and none: "\<And>d'. if forward then tl_local_day lib zone pivot \<le> d' \<and> d' \<le> tl_local_day lib zone pivot + int CYCLE_DAYS
        else tl_local_day lib zone pivot - int CYCLE_DAYS \<le> d' \<and> d' \<le> tl_local_day lib zone pivot
      \<Longrightarrow> nearest forward pivot (cron_on lib p zone d') None"
    and u: "u \<in> cron_on lib p zone d"
  shows "\<not> beyond forward pivot u"
proof
  let ?day = "tl_local_day lib zone pivot"
  assume beyond: "beyond forward pivot u"
  define r where "r = (d - ?day) mod int CYCLE_DAYS"
  define d' where "d' = (if forward then ?day + (if r = 0 then int CYCLE_DAYS else r) else ?day + r - int CYCLE_DAYS)"
  have pos: "0 < int CYCLE_DAYS" by (simp add: CYCLE_DAYS_def)
  then have range: "if forward then ?day < d' \<and> d' \<le> ?day + int CYCLE_DAYS else ?day - int CYCLE_DAYS \<le> d' \<and> d' < ?day"
    using pos_mod_bound [OF pos, of "d - ?day"] pos_mod_sign [OF pos, of "d - ?day"] by (auto simp: d'_def r_def)
  have "\<exists>k. d' = d + k * int CYCLE_DAYS"
  proof -
    have "d - ?day = (d - ?day) div int CYCLE_DAYS * int CYCLE_DAYS + r" by (simp add: r_def)
    then have "\<exists>k. ?day + r = d + k * int CYCLE_DAYS"
      by (intro exI [of _ "- ((d - ?day) div int CYCLE_DAYS)"]) simp
    then obtain k where "?day + r = d + k * int CYCLE_DAYS" by blast
    then show ?thesis
      by (intro exI [of _ "if forward then (if r = 0 then k + 1 else k) else k - 1"]) (auto simp: d'_def algebra_simps)
  qed
  then have "date_matches lib p d' = date_matches lib p d" using dates_repeat_mult [OF repeat] by blast
  moreover obtain hm where hm: "date_matches lib p d" "hm \<in> set (day_times lib p)"
    using u unfolding cron_on_iff [OF zone] by blast
  moreover obtain t where t: "first_showing clock (wall_of d' hm) t" using resolve_first_showing [OF zone] by blast
  ultimately have on: "t \<in> cron_on lib p zone d'" unfolding cron_on_iff [OF zone] by blast
  have "beyond forward pivot t"
    using range room later_day_beyond [OF zone on] earlier_day_reached(2) [OF zone on]
    by (auto simp: beyond_def split: if_splits)
  moreover have "nearest forward pivot (cron_on lib p zone d') None" by (rule none) (use range in \<open>auto split: if_splits\<close>)
  ultimately show False using on by (auto simp: nearest_def)
qed

lemma scan_nearest:
  assumes zone: "zone_clock lib zone clock" and repeat: "dates_repeat lib p"
    and room: "if forward then tl_local_day lib zone pivot + 146098 \<le> tl_max_day lib
      else tl_min_day lib \<le> tl_local_day lib zone pivot - 146098 \<and> clock pivot \<le> clock (pivot - 1) + 1"
    and scan: "occurrence_scan lib p zone pivot forward (CYCLE_DAYS + 1) (tl_local_day lib zone pivot) = Ok r"
    and none: "\<And>d'. r = None \<Longrightarrow> passed forward (tl_local_day lib zone pivot)
        (if forward then tl_local_day lib zone pivot + int (CYCLE_DAYS + 1)
         else tl_local_day lib zone pivot - int (CYCLE_DAYS + 1)) d'
      \<Longrightarrow> nearest forward pivot (cron_on lib p zone d') None"
  shows "nearest forward pivot (\<Union>day. cron_on lib p zone day) r"
proof -
  let ?day = "tl_local_day lib zone pivot"
  let ?on = "cron_on lib p zone"
  have wrong: "\<not> beyond forward pivot u" if "u \<in> ?on d" "if forward then d < ?day else ?day < d" for u d
    using that earlier_day_reached(1) [OF zone] later_day_beyond [OF zone]
    by (fastforce simp: beyond_def split: if_splits)
  show ?thesis
  proof (cases r)
    case None
    have "\<not> beyond forward pivot u" if u: "u \<in> ?on d" for u d
    proof (rule no_instant_beyond [OF zone repeat room _ u])
      show "nearest forward pivot (?on d') None"
        if "if forward then ?day \<le> d' \<and> d' \<le> ?day + int CYCLE_DAYS else ?day - int CYCLE_DAYS \<le> d' \<and> d' \<le> ?day" for d'
        using none [OF None, of d'] that by (auto simp: passed_def split: if_splits)
    qed
    then show ?thesis by (auto simp: None nearest_def)
  next
    case (Some t)
    from scan_Some [OF scan [unfolded Some]] obtain d where d: "nearer forward ?day d"
      "nearest forward pivot (?on d) (Some t)"
      "\<And>d'. passed forward ?day d d' \<Longrightarrow> nearest forward pivot (?on d') None" by blast
    have "nearer forward t u" if u: "u \<in> ?on d'" "beyond forward pivot u" for d' u
    proof -
      have "(if forward then d' < ?day else ?day < d') \<or> passed forward ?day d d' \<or> d' = d
          \<or> (if forward then d < d' else d' < d)"
        using d(1) by (auto simp: passed_def nearer_def)
      then consider "if forward then d' < ?day else ?day < d'" | "passed forward ?day d d'" | "d' = d"
        | "if forward then d < d' else d' < d"
        by blast
      then show ?thesis
        using wrong [OF u(1)] u d(2,3) cron_days_ordered [OF zone]
        by cases (auto simp: nearest_def nearer_def split: if_splits)
    qed
    with d(2) show ?thesis by (auto simp: Some nearest_def)
  qed
qed

text \<open>
  C32. A cron schedule fires at the nearest instant its expression allows, and the search finds it. In a
  zone whose clock obeys the library's laws, and with a 400-year cycle and a day of supported calendar
  ahead, the search returns, and returns the nearest of all the instants of the expression strictly
  after (or, searching back, strictly before) the pivot; it returns none only when there is none on
  any day of the calendar. The instants are those at which the zone's clock first reaches a wall time
  the expression matches: a repeated wall time fires once, the first time, and a skipped one at the
  end of its gap. Searching back, the pivot is not the very instant at which a gap ends.
\<close>

theorem cron_occurrence_is_nearest:
  assumes expression: "length expression \<le> 256" "length (split_whitespace expression) = 5"
      "tl_cron lib expression = Some p"
    and zone: "tl_zone lib zone_name = Some zone" "zone_clock lib zone clock" and repeat: "dates_repeat lib p"
    and room: "if forward then tl_local_day lib zone pivot + 146098 \<le> tl_max_day lib
      else tl_min_day lib \<le> tl_local_day lib zone pivot - 146098 \<and> clock pivot \<le> clock (pivot - 1) + 1"
  shows "\<exists>occurrence. cron_occurrence lib expression zone_name pivot forward = Ok occurrence
    \<and> nearest forward pivot (cron_instants lib p clock) occurrence"
proof -
  let ?day = "tl_local_day lib zone pivot"
  let ?on = "cron_on lib p zone"
  let ?scan = "occurrence_scan lib p zone pivot forward (CYCLE_DAYS + 1) ?day"
  have scan: "cron_occurrence lib expression zone_name pivot forward = ?scan"
    using expression zone(1) by (simp add: cron_occurrence_def cron_def timezone_def)
  have "if forward then ?day + int (CYCLE_DAYS + 1) \<le> tl_max_day lib else tl_min_day lib \<le> ?day - int (CYCLE_DAYS + 1)"
    using room by (simp add: CYCLE_DAYS_def split: if_splits)
  from scan_total [OF day_best_ok [OF zone(2)] this] obtain r where r: "?scan = Ok r"
    "\<And>d'. r = None \<Longrightarrow> passed forward ?day (if forward then ?day + int (CYCLE_DAYS + 1) else ?day - int (CYCLE_DAYS + 1)) d'
       \<Longrightarrow> nearest forward pivot (?on d') None" by blast
  have "nearest forward pivot (\<Union>day. ?on day) r" by (rule scan_nearest [OF zone(2) repeat room r])
  then show ?thesis unfolding scan cron_instants_days [OF zone(2)] using r(1) by blast
qed

lemma scan_beyond:
  assumes "cron_occurrence lib expression zone_name pivot forward = Ok (Some t)"
  shows "beyond forward pivot t"
proof -
  from assms obtain p zone where
    "occurrence_scan lib p zone pivot forward (CYCLE_DAYS + 1) (tl_local_day lib zone pivot) = Ok (Some t)"
    by (auto simp: cron_occurrence_def)
  from scan_Some [OF this] show ?thesis by (auto simp: nearest_def)
qed

section \<open>Repeated firing\<close>

text \<open>A schedule whose interval, if it is one, is positive and anchored at a stored instant.\<close>

definition schedule_ok :: "('z, 'p) time_lib \<Rightarrow> schedule_spec \<Rightarrow> bool" where
  "schedule_ok lib spec \<longleftrightarrow> lib_ok lib \<and> (case ss_timing spec of
     Every amount u anchor \<Rightarrow> 0 < amount \<and> whole_ms anchor \<and> tl_min_instant lib \<le> anchor
   | _ \<Rightarrow> True)"

lemma raw_every_beyond:
  assumes "raw_occurrence lib spec pivot True = Ok (Some t)" "ss_timing spec = Every amount u anchor" "schedule_ok lib spec"
  shows "pivot < t"
proof -
  define a s where "a = timestamp_millis anchor" and "s = interval_seconds amount u * 1000"
  define k where "k = (timestamp_millis pivot - a) div s + 1"
  from assms(2,3) have ok: "0 < amount" "whole_ms anchor" "tl_min_instant lib \<le> anchor" "lib_ok lib"
    by (simp_all add: schedule_ok_def)
  have s: "0 < s" using step_ms [OF ok(1)] by (simp add: s_def)
  have anchor: "anchor = a * NS_PER_MS" using whole_ms_iff [OF ok(2)] by (simp add: a_def)
  have raw: "(if k < 0 then Some anchor else checked_instant lib (anchor + saturating_i64 (k * s) * NS_PER_MS)) = Some t"
    using assms(1,2) s by (simp add: raw_occurrence_def Let_def k_def a_def s_def split: if_splits)
  have after: "pivot < (a + j * s) * NS_PER_MS \<longleftrightarrow> k \<le> j" for j
    unfolding grid_less k_def using period_after [OF s, of "timestamp_millis pivot - a" j] by (auto simp: algebra_simps)
  show ?thesis
  proof (cases "k < 0")
    case True
    with raw after [of 0] anchor show ?thesis by simp
  next
    case False
    with raw have t: "t = anchor + saturating_i64 (k * s) * NS_PER_MS" "t \<le> tl_max_instant lib"
      by (auto simp: checked_instant_def split: if_splits)
    have "k * s \<le> i64_max"
    proof (rule ccontr)
      assume "\<not> k * s \<le> i64_max"
      then have "saturating_i64 (k * s) = i64_max" by (simp add: saturating_i64_def i64_min_def i64_max_def)
      with t ok(3,4) show False by (simp add: lib_ok_def)
    qed
    moreover have "0 \<le> k * s" using False s by simp
    ultimately have "saturating_i64 (k * s) = k * s" by (simp add: saturating_i64_def i64_min_def)
    with t(1) after [of k] anchor show ?thesis by (simp add: algebra_simps)
  qed
qed

lemma next_strictly_later:
  assumes "next_occurrence lib spec after = Ok (Some t)" "schedule_ok lib spec"
  shows "after < t \<and> not_ended spec t"
proof -
  define pivot where "pivot = (case ss_start spec of None \<Rightarrow> after | Some s \<Rightarrow> max after (s - NS_PER_MS))"
  have le: "after \<le> pivot" by (auto simp: pivot_def split: option.splits)
  from assms(1) have raw: "raw_occurrence lib spec pivot True = Ok (Some t)" and e: "not_ended spec t"
    unfolding next_occurrence_def Let_def pivot_def [symmetric]
    by (auto simp: not_ended_def split: option.splits if_splits)
  have "pivot < t"
  proof (cases "ss_timing spec")
    case (Cron expression zone_name)
    with raw have "cron_occurrence lib expression zone_name pivot True = Ok (Some t)"
      by (simp add: raw_occurrence_def)
    from scan_beyond [OF this] show ?thesis by (simp add: beyond_def)
  next
    case (Every amount u anchor)
    with raw_every_beyond raw assms(2) show ?thesis by blast
  next
    case (At at)
    with raw show ?thesis by (auto simp: raw_occurrence_def split: if_splits)
  qed
  with le e show ?thesis by simp
qed

lemma preview_loop_increasing:
  "preview_loop lib spec n cursor = Ok ts \<Longrightarrow> schedule_ok lib spec
   \<Longrightarrow> sorted_wrt (<) (cursor # ts) \<and> length ts \<le> n \<and> (\<forall>t \<in> set ts. not_ended spec t)"
proof (induction n arbitrary: cursor ts)
  case (Suc n)
  show ?case
  proof (cases "next_occurrence lib spec cursor")
    case (Inl e)
    with Suc.prems(1) show ?thesis by simp
  next
    case (Inr r)
    show ?thesis
    proof (cases r)
      case None
      with Inr Suc.prems(1) show ?thesis by simp
    next
      case (Some t)
      with Inr Suc.prems(1) obtain ts' where ts: "ts = t # ts'" "preview_loop lib spec n t = Ok ts'"
        by (auto split: sum.splits)
      have "cursor < t \<and> not_ended spec t" using next_strictly_later Inr Some Suc.prems(2) by blast
      with Suc.IH [OF ts(2) Suc.prems(2)] ts(1) show ?thesis by auto
    qed
  qed
qed simp

text \<open>
  Firing again and again always moves forward: from any moment the instants of a schedule of
  any kind (cron, interval or one-off), computed one from the other, are strictly increasing,
  all strictly after that moment and none past the end. So no instant fires twice, the
  computation never stands still, and a schedule with an end is exhausted after finitely many
  firings.
\<close>

theorem firings_advance:
  assumes "preview_loop lib spec n after = Ok instants" and "schedule_ok lib spec"
  shows "sorted_wrt (<) (after # instants) \<and> length instants \<le> n
    \<and> (\<forall>t \<in> set instants. not_ended spec t)
    \<and> (\<forall>e. ss_end spec = Some e \<longrightarrow> int (length instants) \<le> max 0 (e - after))"
proof -
  note main = preview_loop_increasing [OF assms]
  have "int (length instants) \<le> max 0 (e - after)" if "ss_end spec = Some e" for e
  proof -
    have "distinct instants" "set instants \<subseteq> {after <.. e}"
      using main that by (auto simp: not_ended_def strict_sorted_iff)
    then have "length instants \<le> card {after <.. e}" by (metis card_mono distinct_card finite_greaterThanAtMost_int)
    then show ?thesis by simp
  qed
  with main show ?thesis by blast
qed

section \<open>What was missed\<close>

text \<open>
  The number reported for an interval schedule's missed window is the number of its instants
  in it: between two instants of the schedule, the code's division counts exactly the instants
  from the first up to, not including, the second.
\<close>

theorem missed_intervals_counted:
  assumes "ss_timing spec = Every amount u anchor" "0 < amount" "i \<le> j"
    and "from = anchor + i * step_ns amount u" and "until = anchor + j * step_ns amount u"
  shows "missed_count lib spec from until
    = Some (Ok (card {t. (\<exists>k. t = anchor + k * step_ns amount u) \<and> from \<le> t \<and> t < until}))"
proof -
  define s where "s = interval_seconds amount u * 1000"
  have s: "0 < s" using step_ms [OF assms(2)] by (simp add: s_def)
  have ns: "step_ns amount u = s * NS_PER_MS" by (simp add: step_ns_ms s_def)
  have pos: "0 < step_ns amount u" using s by (simp add: ns NS_PER_MS_def)
  have "{t. (\<exists>k. t = anchor + k * step_ns amount u) \<and> from \<le> t \<and> t < until}
      = (\<lambda>k. anchor + k * step_ns amount u) ` {i..<j}"
    using pos unfolding assms(4,5) by (auto simp: mult_le_cancel_right mult_less_cancel_right)
  moreover have "inj_on (\<lambda>k. anchor + k * step_ns amount u) {i..<j}" using pos by (auto intro: inj_onI)
  ultimately have card: "card {t. (\<exists>k. t = anchor + k * step_ns amount u) \<and> from \<le> t \<and> t < until} = nat (j - i)"
    by (simp add: card_image)
  have diff: "until - from = (j - i) * s * NS_PER_MS" by (simp add: assms(4,5) ns algebra_simps)
  have "(until - from) div NS_PER_MS = (j - i) * s" unfolding diff by (simp add: NS_PER_MS_def)
  then have count: "(until - from) div NS_PER_MS div s = j - i" using s by simp
  show ?thesis
  proof (cases "until \<le> from")
    case True
    then have "i = j" using assms(3) pos unfolding assms(4,5) by (simp add: mult_le_cancel_right)
    with True card show ?thesis by (simp add: missed_count_def)
  next
    case False
    have "s \<noteq> 0" using s by simp
    with False show ?thesis
      unfolding card missed_count_def assms(1) schedule_kind.case Let_def s_def [symmetric] count by simp
  qed
qed

section \<open>Witnesses\<close>

text \<open>Universal time, and the one cron expression \<open>0 8 * * *\<close> (hour 8, minute 0, every date).\<close>

definition utc_lib :: "(unit, nat \<times> nat) time_lib" where
  "utc_lib = \<lparr>
     tl_zone = (\<lambda>name. if name = ''UTC'' then Some () else None),
     tl_local_day = (\<lambda>_ t. t div (86400 * NS_PER_S)),
     tl_earliest = (\<lambda>_ wall. Some (wall * NS_PER_S)),
     tl_civil = (\<lambda>day. (day, 1, 1)),
     tl_weekday = (\<lambda>day. nat ((day + 4) mod 7)),
     tl_min_day = - 96465292, tl_max_day = 95026236,
     tl_min_instant = - 8334601228800 * NS_PER_S, tl_max_instant = 8210266876799 * NS_PER_S,
     tl_cron = (\<lambda>e. if e = ''0 8 * * *'' then Some (8, 0) else None),
     tl_hour_match = (\<lambda>p hour. hour = fst p),
     tl_minute_match = (\<lambda>p minute. minute = snd p),
     tl_month_match = (\<lambda>_ _. True),
     tl_day_match = (\<lambda>_ _ _ _ _. True),
     tl_rfc3339 = (\<lambda>_ t. int_str t), tl_display = int_str\<rparr>"

definition demo_every :: schedule_spec where
  "demo_every = \<lparr>ss_timing = Every 5 Minutes 0, ss_start = None, ss_end = Some (600 * NS_PER_S),
     ss_max_runs = None, ss_grace_seconds = None\<rparr>"

definition demo_cron :: schedule_spec where
  "demo_cron = \<lparr>ss_timing = Cron ''0 8 * * *'' ''UTC'', ss_start = None, ss_end = None,
     ss_max_runs = None, ss_grace_seconds = None\<rparr>"

lemma demo_every_ready: "every_ready utc_lib demo_every (600 * NS_PER_S + NS_PER_MS)" "every_ready utc_lib demo_every 0"
  by (simp_all add: every_ready_def demo_every_def utc_lib_def lib_ok_def whole_ms_def step_ns_def
      interval_seconds_def NS_PER_S_def NS_PER_MS_def i64_max_def)

lemma next_interval_is_first_witness:
  "next_occurrence utc_lib demo_every 0 = Ok (Some (300 * NS_PER_S))
   \<and> first_after (every_occurs demo_every) 0 (Some (300 * NS_PER_S))"
proof -
  have "next_occurrence utc_lib demo_every 0 = Ok (Some (300 * NS_PER_S))" by code_simp
  with next_interval_is_first [OF demo_every_ready(2)] show ?thesis by auto
qed

lemma latest_interval_is_last_witness:
  "latest_occurrence utc_lib demo_every (600 * NS_PER_S) = Ok (Some (600 * NS_PER_S))
   \<and> last_until (every_occurs demo_every) (600 * NS_PER_S) (Some (600 * NS_PER_S))"
proof -
  have "latest_occurrence utc_lib demo_every (600 * NS_PER_S) = Ok (Some (600 * NS_PER_S))" by code_simp
  with latest_interval_is_last [OF demo_every_ready(1)] show ?thesis by auto
qed

lemma firings_advance_witness:
  "preview_loop utc_lib demo_every 3 0 = Ok [300 * NS_PER_S, 600 * NS_PER_S]
   \<and> sorted_wrt (<) [0, 300 * NS_PER_S, 600 * NS_PER_S]"
proof -
  have *: "preview_loop utc_lib demo_every 3 0 = Ok [300 * NS_PER_S, 600 * NS_PER_S]" by code_simp
  have "schedule_ok utc_lib demo_every"
    by (simp add: schedule_ok_def demo_every_def utc_lib_def lib_ok_def whole_ms_def NS_PER_S_def NS_PER_MS_def i64_max_def)
  from firings_advance [OF * this] * show ?thesis by blast
qed

lemma missed_intervals_counted_witness:
  "missed_count utc_lib demo_every 0 (600 * NS_PER_S) = Some (Ok (card {t. (\<exists>k. t = k * (300 * NS_PER_S)) \<and> 0 \<le> t \<and> t < 600 * NS_PER_S}))"
  using missed_intervals_counted [of demo_every 5 Minutes 0 0 2 0 "600 * NS_PER_S" utc_lib]
  by (simp add: demo_every_def step_ns_def interval_seconds_def NS_PER_S_def)

text \<open>
  A zone with summer time: from 01:00 on the epoch day its clock is an hour ahead, until it is set back
  from 02:00 to 01:00 on the 200th day; and the expression \<open>30 1 * * *\<close>, skipped on the first of
  these days and repeated on the other.
\<close>

definition summer_clock :: "int \<Rightarrow> int" where
  "summer_clock t = (if 3600 * NS_PER_S \<le> t \<and> t < 17283600 * NS_PER_S then t + 3600 * NS_PER_S else t)"

definition summer_lib :: "(unit, nat \<times> nat) time_lib" where
  "summer_lib = utc_lib\<lparr>
     tl_zone := (\<lambda>name. if name = ''Demo'' then Some () else None),
     tl_cron := (\<lambda>e. if e = ''30 1 * * *'' then Some (1, 30) else None),
     tl_local_day := (\<lambda>_ t. summer_clock t div (86400 * NS_PER_S)),
     tl_earliest := (\<lambda>_ wall. if 3600 \<le> wall \<and> wall < 7200 then None
       else Some ((if 7200 \<le> wall \<and> wall < 17287200 then wall - 3600 else wall) * NS_PER_S))\<rparr>"

lemma summer_zone: "zone_clock summer_lib () summer_clock"
  unfolding zone_clock_def
proof (intro conjI allI impI)
  show "tl_local_day summer_lib () t = summer_clock t div (86400 * NS_PER_S)" for t by (simp add: summer_lib_def)
  show "summer_clock t = w * NS_PER_S" if "tl_earliest summer_lib () w = Some t" for w t
    using that by (auto simp: summer_lib_def summer_clock_def NS_PER_S_def split: if_splits)
  show "t \<le> u" if "tl_earliest summer_lib () w = Some t" "w * NS_PER_S \<le> summer_clock u" for w t u
    using that by (auto simp: summer_lib_def summer_clock_def NS_PER_S_def split: if_splits)
  show "summer_clock u div NS_PER_S \<noteq> w" if "tl_earliest summer_lib () w = None" for w u
    using that by (auto simp: summer_lib_def summer_clock_def NS_PER_S_def split: if_splits)
  show "\<exists>g. 0 < g \<and> g \<le> 2 ^ 17 \<and> (\<forall>x. 0 \<le> x \<and> x < g \<longrightarrow> tl_earliest summer_lib () (w + x) = None)
      \<and> (\<forall>x. g \<le> x \<and> x \<le> 2 ^ 18 \<longrightarrow> tl_earliest summer_lib () (w + x) \<noteq> None)"
    if "tl_earliest summer_lib () w = None" for w
    using that by (intro exI [of _ "7200 - w"]) (auto simp: summer_lib_def split: if_splits)
  show "tl_local_day summer_lib () t \<le> tl_local_day summer_lib () u" if "t \<le> u" for t u
  proof (cases "t < 17283600 * NS_PER_S \<and> 17283600 * NS_PER_S \<le> u")
    case True
    then have "summer_clock t \<le> 17287199 * NS_PER_S + 999999999" "17280000 * NS_PER_S \<le> summer_clock u"
      by (auto simp: summer_clock_def NS_PER_S_def)
    then have "summer_clock t div (86400 * NS_PER_S) \<le> 200" "200 \<le> summer_clock u div (86400 * NS_PER_S)"
      by (simp_all add: NS_PER_S_def)
    then show ?thesis by (simp add: summer_lib_def)
  next
    case False
    then have "summer_clock t \<le> summer_clock u" using that by (auto simp: summer_clock_def NS_PER_S_def)
    then show ?thesis by (simp add: summer_lib_def zdiv_mono1 NS_PER_S_def)
  qed
qed

lemma cron_occurrence_is_nearest_witness:
  "nearest True 0 (cron_instants summer_lib (1, 30) summer_clock) (Some (3600 * NS_PER_S))
   \<and> nearest True (17281800 * NS_PER_S) (cron_instants summer_lib (1, 30) summer_clock) (Some (17371800 * NS_PER_S))"
proof -
  have at: "nearest True pivot (cron_instants summer_lib (1, 30) summer_clock) (Some t)"
    if "cron_occurrence summer_lib ''30 1 * * *'' ''Demo'' pivot True = Ok (Some t)" "pivot \<le> 17283599 * NS_PER_S"
    for pivot t
  proof -
    have "tl_local_day summer_lib () pivot \<le> tl_local_day summer_lib () (17283599 * NS_PER_S)"
      by (rule zone_clock_day(2) [OF summer_zone that(2)])
    also have "\<dots> = 200" by code_simp
    finally have "tl_local_day summer_lib () pivot + 146098 \<le> tl_max_day summer_lib"
      by (simp add: summer_lib_def utc_lib_def)
    moreover have "length ''30 1 * * *'' \<le> 256" "length (split_whitespace ''30 1 * * *'') = 5" by code_simp+
    moreover have "tl_cron summer_lib ''30 1 * * *'' = Some (1, 30)" "tl_zone summer_lib ''Demo'' = Some ()"
      by (simp_all add: summer_lib_def)
    moreover have "dates_repeat summer_lib (1, 30)"
      by (simp add: dates_repeat_def date_matches_def summer_lib_def utc_lib_def)
    ultimately have "\<exists>occurrence. cron_occurrence summer_lib ''30 1 * * *'' ''Demo'' pivot True = Ok occurrence
        \<and> nearest True pivot (cron_instants summer_lib (1, 30) summer_clock) occurrence"
      using summer_zone by (intro cron_occurrence_is_nearest [of _ summer_lib "(1, 30)" _ "()"]) simp_all
    with that(1) show ?thesis by auto
  qed
  have *: "cron_occurrence summer_lib ''30 1 * * *'' ''Demo'' 0 True = Ok (Some (3600 * NS_PER_S))"
    "cron_occurrence summer_lib ''30 1 * * *'' ''Demo'' (17281800 * NS_PER_S) True = Ok (Some (17371800 * NS_PER_S))"
    by code_simp+
  show ?thesis by (intro conjI at *) (simp_all add: NS_PER_S_def)
qed

lemma cron_cadence_respects_minimum_witness: "5 \<le> (1920::int) - 480"
proof -
  have "schedule_validate utc_lib demo_cron 5 = Ok ()" by code_simp
  moreover have "fires_at utc_lib (8, 0) 480" "fires_at utc_lib (8, 0) 1920"
    unfolding fires_at_def by (intro exI [of _ 0] exI [of _ 1]; code_simp)+
  moreover have "dates_repeat utc_lib (8, 0)" by (simp add: dates_repeat_def date_matches_def utc_lib_def)
  moreover have "ss_timing demo_cron = Cron ''0 8 * * *'' ''UTC''" "tl_cron utc_lib ''0 8 * * *'' = Some (8, 0)"
    by (simp_all add: demo_cron_def utc_lib_def)
  ultimately have "max 5 DEFAULT_SCHEDULE_MINIMUM_MINUTES \<le> (1920::int) - 480"
    by (intro cron_cadence_respects_minimum [of utc_lib demo_cron 5]) simp_all
  then show ?thesis by (simp add: DEFAULT_SCHEDULE_MINIMUM_MINUTES_def)
qed

text \<open>A clock that skips the hour from 01:00 on the epoch day.\<close>

definition spring_lib :: "(unit, nat \<times> nat) time_lib" where
  "spring_lib = utc_lib\<lparr>tl_earliest := (\<lambda>_ wall.
     if 3600 \<le> wall \<and> wall < 7200 then None
     else Some ((if wall < 3600 then wall else wall - 3600) * NS_PER_S))\<rparr>"

lemma gap_resolves_to_its_end_witness:
  "resolve_wall_time spring_lib () 5400 = Ok (3600 * NS_PER_S)"
  using gap_resolves_to_its_end [of 1800 spring_lib "()" 5400] by (auto simp: spring_lib_def)

end
