(* ===== verification/Service_Billing.thy ===== *)
theory Service_Billing
  imports Json App_Error
begin

text \<open>
  The billing configuration of a service (\<open>models/service_billing.rs\<close>, with the price bindings
  of \<open>models/platform_model_tariff.rs\<close>, the credential classes of \<open>models/usage_meter.rs\<close> and
  the lanes of \<open>services/billing/route_context.rs\<close>): metrics and their metadata, lane prices,
  what an active legacy price or resale looks like, and the usage a metered request reports.
\<close>

section \<open>Metrics\<close>

datatype billing_metric =
    Tokens | Requests | Bytes | InputTokens | OutputTokens | CacheReadTokens | CacheWriteTokens
  | ReasoningTokens | ImageInputTokens | ImageOutputTokens | AudioInputTokens | AudioOutputTokens
  | Images | VoiceSeconds | MachineRunningSeconds | SandboxCpuMillisSeconds
  | SandboxMemoryMibSeconds | SandboxDiskGibSeconds

definition BILLING_METRICS :: "billing_metric list" where
  "BILLING_METRICS =
     [Tokens, Requests, Bytes, InputTokens, OutputTokens, CacheReadTokens, CacheWriteTokens,
      ReasoningTokens, ImageInputTokens, ImageOutputTokens, AudioInputTokens, AudioOutputTokens,
      Images, VoiceSeconds, MachineRunningSeconds, SandboxCpuMillisSeconds,
      SandboxMemoryMibSeconds, SandboxDiskGibSeconds]"

fun metric_metadata :: "billing_metric \<Rightarrow> string \<times> string \<times> bool" where
  "metric_metadata Tokens = (''tokens'', ''Tokens'', True)"
| "metric_metadata Requests = (''requests'', ''Requests'', False)"
| "metric_metadata Bytes = (''bytes'', ''Bytes'', False)"
| "metric_metadata InputTokens = (''input_tokens'', ''Input tokens'', True)"
| "metric_metadata OutputTokens = (''output_tokens'', ''Output tokens'', True)"
| "metric_metadata CacheReadTokens = (''cache_read_tokens'', ''Cache-read tokens'', True)"
| "metric_metadata CacheWriteTokens = (''cache_write_tokens'', ''Cache-write tokens'', True)"
| "metric_metadata ReasoningTokens = (''reasoning_tokens'', ''Reasoning tokens'', True)"
| "metric_metadata ImageInputTokens = (''image_input_tokens'', ''Image input tokens'', True)"
| "metric_metadata ImageOutputTokens = (''image_output_tokens'', ''Image output tokens'', True)"
| "metric_metadata AudioInputTokens = (''audio_input_tokens'', ''Audio input tokens'', True)"
| "metric_metadata AudioOutputTokens = (''audio_output_tokens'', ''Audio output tokens'', True)"
| "metric_metadata Images = (''images'', ''Images'', False)"
| "metric_metadata VoiceSeconds = (''voice_seconds'', ''Voice seconds'', False)"
| "metric_metadata MachineRunningSeconds = (''machine_running_seconds'', ''Machine running seconds'', False)"
| "metric_metadata SandboxCpuMillisSeconds = (''sandbox_cpu_millis_seconds'', ''Sandbox CPU millicore-seconds'', False)"
| "metric_metadata SandboxMemoryMibSeconds = (''sandbox_memory_mib_seconds'', ''Sandbox RAM MiB-seconds'', False)"
| "metric_metadata SandboxDiskGibSeconds = (''sandbox_disk_gib_seconds'', ''Sandbox disk GiB-seconds'', False)"

definition metric_str :: "billing_metric \<Rightarrow> string" where
  "metric_str m = fst (metric_metadata m)"

definition metric_label :: "billing_metric \<Rightarrow> string" where
  "metric_label m = fst (snd (metric_metadata m))"

definition is_token_family :: "billing_metric \<Rightarrow> bool" where
  "is_token_family m = snd (snd (metric_metadata m))"

definition is_legacy :: "billing_metric \<Rightarrow> bool" where
  "is_legacy m \<longleftrightarrow> m \<in> {Tokens, Requests, Bytes}"

definition requires_model_evidence :: "billing_metric \<Rightarrow> bool" where
  "requires_model_evidence m \<longleftrightarrow>
     m \<in> {ReasoningTokens, ImageInputTokens, ImageOutputTokens, AudioInputTokens, AudioOutputTokens}"

definition is_runtime_allocation :: "billing_metric \<Rightarrow> bool" where
  "is_runtime_allocation m \<longleftrightarrow>
     m \<in> {MachineRunningSeconds, SandboxCpuMillisSeconds, SandboxMemoryMibSeconds, SandboxDiskGibSeconds}"

section \<open>Prices\<close>

datatype sync_status = SyncPending | SyncSynced | SyncFailed

record service_platform_pricing =
  sp_credits_per_unit :: string
  sp_lago_metric_code :: string
  sp_sync_status :: sync_status
  sp_sync_error :: "string option"

record lane_price_component =
  lc_metric :: billing_metric
  lc_credits_per_unit :: string
  lc_lago_metric_code :: string
  lc_sync_status :: sync_status
  lc_sync_error :: "string option"

record operation_price =
  op_operation :: string
  op_credits_per_unit :: string
  op_lago_metric_code :: string
  op_sync_status :: sync_status
  op_sync_error :: "string option"

record price_binding =
  pb_model_id :: string
  pb_allowance_metrics :: "billing_metric list"
  pb_variant :: "(string, string) btree_map"
  pb_active_tariff_id :: "string option"
  pb_pending_tariff_id :: "string option"

record lane_pricing =
  lp_metric :: billing_metric
  lp_credits_per_unit :: string
  lp_lago_metric_code :: string
  lp_sync_status :: sync_status
  lp_sync_error :: "string option"
  lp_components :: "lane_price_component list"
  lp_operations :: "operation_price list"
  lp_model_prices :: "price_binding list"

record managed_execution =
  mx_model :: string
  mx_max_input_tokens :: nat
  mx_max_output_tokens :: nat
  mx_max_request_bytes :: nat
  mx_max_response_bytes :: nat
  mx_tariff_version :: string
  mx_tariff_source :: string
  mx_tariff_verified_at :: int

record service_billing =
  sb_managed_execution :: "managed_execution option"
  sb_platform_billable :: bool
  sb_nyxid_credentials_only :: bool
  sb_platform_metric :: "billing_metric option"
  sb_platform_pricing :: "service_platform_pricing option"
  sb_platform_cleanup :: "string option"
  sb_byok_pricing :: "lane_pricing option"
  sb_platform_key_pricing :: "lane_pricing option"
  sb_byok_cleanup :: "string option"
  sb_platform_key_cleanup :: "string option"
  sb_resale_billable :: bool
  sb_component_cleanup :: "string list"
  sb_resale_metric :: billing_metric
  sb_lago_resale_metric_code :: "string option"

definition service_billing_default :: service_billing where
  "service_billing_default = \<lparr>sb_managed_execution = None, sb_platform_billable = False,
     sb_nyxid_credentials_only = False, sb_platform_metric = None, sb_platform_pricing = None,
     sb_platform_cleanup = None, sb_byok_pricing = None, sb_platform_key_pricing = None,
     sb_byok_cleanup = None, sb_platform_key_cleanup = None, sb_resale_billable = False,
     sb_component_cleanup = [], sb_resale_metric = Tokens, sb_lago_resale_metric_code = None\<rparr>"

record resale_spec =
  rs_metric :: billing_metric
  rs_lago_metric_code :: string

definition active_platform_metric_code :: "service_billing \<Rightarrow> string \<Rightarrow> string" where
  "active_platform_metric_code b legacy_code = (case sb_platform_pricing b of
     Some p \<Rightarrow> if sp_sync_status p = SyncSynced then sp_lago_metric_code p else legacy_code
   | None \<Rightarrow> legacy_code)"

definition active_resale_spec :: "service_billing \<Rightarrow> resale_spec option" where
  "active_resale_spec b =
     (if \<not> sb_resale_billable b then None
      else Option.bind (sb_lago_resale_metric_code b) (\<lambda>raw.
        let code = trim raw in
        if code = [] then None
        else Some \<lparr>rs_metric = sb_resale_metric b, rs_lago_metric_code = code\<rparr>))"

section \<open>Credential classes and lanes\<close>

datatype credential_class =
    NyxidManagedMaster | NyxidPlatformOauthApp | UserOwned | AgentOverrideUserOwned
  | NodeManaged | NoAuth

datatype billing_lane = Byok | PlatformKey

fun for_credential :: "credential_class \<Rightarrow> billing_lane option" where
  "for_credential NyxidPlatformOauthApp = Some Byok"
| "for_credential UserOwned = Some Byok"
| "for_credential AgentOverrideUserOwned = Some Byok"
| "for_credential NodeManaged = Some Byok"
| "for_credential NyxidManagedMaster = Some PlatformKey"
| "for_credential NoAuth = None"

fun lane_label :: "billing_lane \<Rightarrow> string" where
  "lane_label Byok = ''Your own key (BYOK)''"
| "lane_label PlatformKey = ''NyxID platform key''"

fun lane_pricing_of :: "billing_lane \<Rightarrow> service_billing \<Rightarrow> lane_pricing option" where
  "lane_pricing_of Byok b = sb_byok_pricing b"
| "lane_pricing_of PlatformKey b = sb_platform_key_pricing b"

section \<open>Services\<close>

datatype key_purpose = OrdinaryKey | ModelRoute | ModelOffering

text \<open>The fields of \<open>DownstreamService\<close> and \<open>PlatformKeyConfig\<close> that billing reads.\<close>

record downstream_service =
  ds_id :: string
  ds_slug :: string
  ds_is_active :: bool
  ds_platform_key :: "key_purpose option"
  ds_billing :: "service_billing option"

end
