(* ===== verification/Model_Usage.thy ===== *)
theory Model_Usage
  imports Service_Billing
begin

text \<open>
  What a model call is charged for (\<open>services/billing/model_usage.rs\<close> over the types of
  \<open>models/platform_model_tariff.rs\<close>): the provider's usage report is read strictly, checked
  for consistency against the contract of its family, and split into the quantities the tariff
  prices.
\<close>

section \<open>Tariffs and evidence\<close>

datatype cache_ttl = FiveMinutes | OneHour | ThirtyMinutes | TwelveHours

datatype modality = ImageModality | AudioModality

datatype selector =
    SInput | SOutput | SReasoning | SCacheRead
  | SCacheWrite cache_ttl
  | SImageInput | SImageOutput | SAudioInput | SAudioOutput
  | SCachedModality modality
  | SImages | SRequests

text \<open>\<open>derive(Ord)\<close>: variants in their order, then their fields.\<close>

fun ttl_rank :: "cache_ttl \<Rightarrow> nat" where
  "ttl_rank FiveMinutes = 0" | "ttl_rank OneHour = 1"
| "ttl_rank ThirtyMinutes = 2" | "ttl_rank TwelveHours = 3"

fun selector_rank :: "selector \<Rightarrow> nat" where
  "selector_rank SInput = 0" | "selector_rank SOutput = 1" | "selector_rank SReasoning = 2"
| "selector_rank SCacheRead = 3"
| "selector_rank (SCacheWrite FiveMinutes) = 4" | "selector_rank (SCacheWrite OneHour) = 5"
| "selector_rank (SCacheWrite ThirtyMinutes) = 6" | "selector_rank (SCacheWrite TwelveHours) = 7"
| "selector_rank SImageInput = 8" | "selector_rank SImageOutput = 9"
| "selector_rank SAudioInput = 10" | "selector_rank SAudioOutput = 11"
| "selector_rank (SCachedModality ImageModality) = 12" | "selector_rank (SCachedModality AudioModality) = 13"
| "selector_rank SImages = 14" | "selector_rank SRequests = 15"

lemma ttl_rank_inj: "ttl_rank a = ttl_rank b \<Longrightarrow> a = b"
  by (cases a; cases b) auto

lemma selector_rank_inj: "selector_rank a = selector_rank b \<Longrightarrow> a = b"
  by (cases a rule: selector_rank.cases; cases b rule: selector_rank.cases) simp_all

instantiation cache_ttl :: linorder
begin

definition less_eq_cache_ttl :: "cache_ttl \<Rightarrow> cache_ttl \<Rightarrow> bool" where
  "less_eq_cache_ttl a b \<longleftrightarrow> ttl_rank a \<le> ttl_rank b"

definition less_cache_ttl :: "cache_ttl \<Rightarrow> cache_ttl \<Rightarrow> bool" where
  "less_cache_ttl a b \<longleftrightarrow> ttl_rank a < ttl_rank b"

instance
  by standard (auto simp: less_eq_cache_ttl_def less_cache_ttl_def intro: ttl_rank_inj)

end

instantiation selector :: linorder
begin

definition less_eq_selector :: "selector \<Rightarrow> selector \<Rightarrow> bool" where
  "less_eq_selector a b \<longleftrightarrow> selector_rank a \<le> selector_rank b"

definition less_selector :: "selector \<Rightarrow> selector \<Rightarrow> bool" where
  "less_selector a b \<longleftrightarrow> selector_rank a < selector_rank b"

instance
  by standard (auto simp: less_eq_selector_def less_selector_def intro: selector_rank_inj)

end

datatype usage_family = Openai | Claude | Gemini | OpenMaas

record usage_contract =
  uc_version :: string
  uc_fixture_sha256 :: string
  uc_family :: usage_family
  uc_tokens :: bool
  uc_cache_read :: bool
  uc_cache_write_ttls :: "cache_ttl list"
  uc_split_reasoning :: bool
  uc_input_modalities :: "modality list"
  uc_output_modalities :: "modality list"
  uc_bill_tool_input :: bool
  uc_images :: bool
  uc_requests :: bool

record tariff_component =
  tc_key :: string
  tc_metric :: billing_metric
  tc_selector :: selector
  tc_credits_per_unit :: string
  tc_explicit_free :: bool
  tc_max_quantity :: int
  tc_lago_metric_code :: string

record request_bounds =
  rb_max_input_tokens :: int
  rb_max_output_tokens :: int
  rb_max_candidates :: int
  rb_max_tool_iterations :: int
  rb_max_images :: int
  rb_max_request_bytes :: int
  rb_max_response_bytes :: int

datatype tariff_lane = ByokTariff | PlatformKeyTariff

datatype tariff_status = TariffPending | TariffSynced | TariffRetired

text \<open>Instants are milliseconds, as BSON stores them.\<close>

record model_tariff =
  mt_id :: string
  mt_revision :: int
  mt_service_id :: string
  mt_model_id :: string
  mt_public_model :: string
  mt_lane :: tariff_lane
  mt_variant :: "(string, string) btree_map"
  mt_contract :: usage_contract
  mt_bounds :: request_bounds
  mt_components :: "tariff_component list"
  mt_source :: string
  mt_status :: tariff_status
  mt_sync_error :: "string option"
  mt_created_at :: int
  mt_updated_at :: int

record evidence =
  ev_input :: "int option"
  ev_output :: "int option"
  ev_total :: "int option"
  ev_cache_read :: "int option"
  ev_cache_write :: "int option"
  ev_writes :: "(cache_ttl, int) btree_map"
  ev_reasoning :: "int option"
  ev_tool_input :: "int option"
  ev_input_image :: "int option"
  ev_input_audio :: "int option"
  ev_output_image :: "int option"
  ev_output_audio :: "int option"
  ev_cached_image :: "int option"
  ev_cached_audio :: "int option"
  ev_images :: "int option"
  ev_requests :: "int option"

definition evidence_default :: evidence where
  "evidence_default = \<lparr>ev_input = None, ev_output = None, ev_total = None, ev_cache_read = None,
     ev_cache_write = None, ev_writes = [], ev_reasoning = None, ev_tool_input = None,
     ev_input_image = None, ev_input_audio = None, ev_output_image = None, ev_output_audio = None,
     ev_cached_image = None, ev_cached_audio = None, ev_images = None, ev_requests = None\<rparr>"

section \<open>Checked counting\<close>

definition usage_invalid :: app_error where
  "usage_invalid = ValidationError ''Model usage evidence is missing, inconsistent, unsupported or outside its admitted bound''"

definition usage_add :: "int \<Rightarrow> int \<Rightarrow> app_error + int" where
  "usage_add a b = ok_or (checked_i64 (a + b)) usage_invalid"

definition usage_sub :: "int \<Rightarrow> int \<Rightarrow> app_error + int" where
  "usage_sub a b = (case checked_i64 (a - b) of
     Some v \<Rightarrow> if v \<ge> 0 then Ok v else Err usage_invalid
   | None \<Rightarrow> Err usage_invalid)"

definition usage_count :: "int option \<Rightarrow> app_error + int" where
  "usage_count n = (case n of Some v \<Rightarrow> if v \<ge> 0 then Ok v else Err usage_invalid | None \<Rightarrow> Err usage_invalid)"

definition applicable :: "int option \<Rightarrow> bool \<Rightarrow> app_error + int" where
  "applicable n enabled =
     (if enabled then usage_count n
      else if n = None \<or> n = Some 0 then Ok 0 else Err usage_invalid)"

definition unwrap0 :: "int option \<Rightarrow> int" where
  "unwrap0 n = (case n of None \<Rightarrow> 0 | Some v \<Rightarrow> v)"

fun selector_metric :: "selector \<Rightarrow> billing_metric" where
  "selector_metric SInput = InputTokens"
| "selector_metric SOutput = OutputTokens"
| "selector_metric SReasoning = ReasoningTokens"
| "selector_metric SCacheRead = CacheReadTokens"
| "selector_metric (SCachedModality _) = CacheReadTokens"
| "selector_metric (SCacheWrite _) = CacheWriteTokens"
| "selector_metric SImageInput = ImageInputTokens"
| "selector_metric SImageOutput = ImageOutputTokens"
| "selector_metric SAudioInput = AudioInputTokens"
| "selector_metric SAudioOutput = AudioOutputTokens"
| "selector_metric SImages = Images"
| "selector_metric SRequests = Requests"

section \<open>The partition a contract asks for\<close>

fun family_version :: "usage_family \<Rightarrow> string" where
  "family_version Openai = ''openai.responses.v1''"
| "family_version Claude = ''anthropic.messages.v1''"
| "family_version Gemini = ''gemini.generate.v1''"
| "family_version OpenMaas = ''open_maas.certified.v1''"

fun ttl_supported :: "usage_family \<Rightarrow> cache_ttl \<Rightarrow> bool" where
  "ttl_supported Claude ttl = (ttl = FiveMinutes \<or> ttl = OneHour)"
| "ttl_supported Openai ttl = (ttl = ThirtyMinutes \<or> ttl = TwelveHours)"
| "ttl_supported OpenMaas ttl = True"
| "ttl_supported Gemini ttl = False"

definition contract_refused :: "usage_contract \<Rightarrow> bool" where
  "contract_refused c \<longleftrightarrow>
     uc_version c \<noteq> family_version (uc_family c)
     \<or> length (uc_version c) > 80
     \<or> length (uc_fixture_sha256 c) \<noteq> 64
     \<or> \<not> list_all is_ascii_hexdigit (uc_fixture_sha256 c)
     \<or> length (uc_cache_write_ttls c) > 2
     \<or> \<not> distinct (uc_cache_write_ttls c)
     \<or> \<not> distinct (uc_input_modalities c)
     \<or> \<not> distinct (uc_output_modalities c)
     \<or> (\<not> uc_tokens c
         \<and> (uc_cache_read c \<or> uc_cache_write_ttls c \<noteq> [] \<or> uc_split_reasoning c
             \<or> uc_bill_tool_input c \<or> uc_input_modalities c \<noteq> [] \<or> uc_output_modalities c \<noteq> []))
     \<or> (uc_images c \<and> uc_tokens c)
     \<or> (uc_cache_write_ttls c \<noteq> [] \<and> uc_input_modalities c \<noteq> [])
     \<or> (uc_split_reasoning c \<and> uc_output_modalities c \<noteq> [])
     \<or> (uc_bill_tool_input c \<and> (uc_family c \<noteq> Gemini \<or> uc_input_modalities c \<noteq> []))
     \<or> (uc_family c = Claude
         \<and> (uc_split_reasoning c \<or> uc_input_modalities c \<noteq> [] \<or> uc_output_modalities c \<noteq> []))"

fun input_selector :: "modality \<Rightarrow> selector" where
  "input_selector ImageModality = SImageInput" | "input_selector AudioModality = SAudioInput"

fun output_selector :: "modality \<Rightarrow> selector" where
  "output_selector ImageModality = SImageOutput" | "output_selector AudioModality = SAudioOutput"

definition selectors :: "usage_contract \<Rightarrow> app_error + selector set" where
  "selectors c =
     (if contract_refused c \<or> list_ex (\<lambda>ttl. \<not> ttl_supported (uc_family c) ttl) (uc_cache_write_ttls c)
      then Err usage_invalid
      else (let out =
          (if uc_tokens c then [SInput, SOutput] else [])
          @ (if uc_cache_read c then [SCacheRead] else [])
          @ map SCacheWrite (uc_cache_write_ttls c)
          @ (if uc_split_reasoning c then [SReasoning] else [])
          @ concat (map (\<lambda>m. input_selector m # (if uc_cache_read c then [SCachedModality m] else []))
                      (uc_input_modalities c))
          @ map output_selector (uc_output_modalities c)
          @ (if uc_images c then [SImages] else [])
          @ (if uc_requests c then [SRequests] else [])
        in if out = [] then Err usage_invalid else Ok (set out)))"

section \<open>Normalization\<close>

type_synonym quantity_map = "(selector, int) btree_map"

definition negative_evidence :: "evidence \<Rightarrow> bool" where
  "negative_evidence e \<longleftrightarrow>
     list_ex (\<lambda>n. case n of None \<Rightarrow> False | Some v \<Rightarrow> v < 0)
       [ev_input e, ev_output e, ev_total e, ev_cache_read e, ev_cache_write e, ev_reasoning e,
        ev_tool_input e, ev_input_image e, ev_input_audio e, ev_output_image e, ev_output_audio e,
        ev_cached_image e, ev_cached_audio e, ev_images e, ev_requests e]
     \<or> list_ex (\<lambda>(_, n). n < 0) (ev_writes e)"

fun writes_loop :: "evidence \<Rightarrow> cache_ttl list \<Rightarrow> int \<Rightarrow> quantity_map \<Rightarrow> app_error + (int \<times> quantity_map)" where
  "writes_loop e [] writes v = Ok (writes, v)"
| "writes_loop e (ttl # ttls) writes v =
     and_then (usage_count (btm_get (ev_writes e) ttl)) (\<lambda>n.
     and_then (usage_add writes n) (\<lambda>writes'.
       writes_loop e ttls writes' (btm_insert (SCacheWrite ttl) n v)))"

definition over :: "int option \<Rightarrow> int \<Rightarrow> bool" where
  "over n bound \<longleftrightarrow> (case n of None \<Rightarrow> False | Some v \<Rightarrow> v > bound)"

text \<open>
  One turn of the loop over the input modalities, on \<open>ordinary\<close>, \<open>cache\<close>, \<open>input_modalities\<close>,
  \<open>cache_modalities\<close> and the quantities.
\<close>

definition input_step ::
  "usage_contract \<Rightarrow> int \<Rightarrow> int \<Rightarrow> modality \<Rightarrow> int option \<Rightarrow> int option
   \<Rightarrow> int \<times> int \<times> int \<times> int \<times> quantity_map \<Rightarrow> app_error + (int \<times> int \<times> int \<times> int \<times> quantity_map)"
where
  "input_step c input read modality n intersection = (\<lambda>(ordinary, cache, input_modalities, cache_modalities, v).
     if over n input \<or> over intersection read then Err usage_invalid
     else if modality \<in> set (uc_input_modalities c)
     then and_then (usage_count n) (\<lambda>n.
       and_then (if uc_cache_read c then usage_count intersection else applicable intersection False) (\<lambda>cached.
       and_then (usage_sub n cached) (\<lambda>uncached.
       and_then (usage_sub ordinary uncached) (\<lambda>ordinary.
       and_then (usage_sub cache cached) (\<lambda>cache.
       and_then (usage_add input_modalities n) (\<lambda>input_modalities.
       and_then (usage_add cache_modalities cached) (\<lambda>cache_modalities.
         let v = btm_insert (input_selector modality) uncached v in
         Ok (ordinary, cache, input_modalities, cache_modalities,
             if uc_cache_read c then btm_insert (SCachedModality modality) cached v else v))))))))
     else Ok (ordinary, cache, input_modalities, cache_modalities, v))"

definition output_step ::
  "usage_contract \<Rightarrow> int \<Rightarrow> int \<Rightarrow> modality \<Rightarrow> int option \<Rightarrow> int \<times> quantity_map
   \<Rightarrow> app_error + (int \<times> quantity_map)"
where
  "output_step c total_output reasoning modality n = (\<lambda>(ordinary_output, v).
     if over n total_output then Err usage_invalid
     else if modality \<in> set (uc_output_modalities c)
     then if reasoning \<noteq> 0 then Err usage_invalid
       else and_then (usage_count n) (\<lambda>n.
         and_then (usage_sub ordinary_output n) (\<lambda>ordinary_output.
           Ok (ordinary_output, btm_insert (output_selector modality) n v)))
     else Ok (ordinary_output, v))"

text \<open>The provider's own totals: Claude counts caches apart, Gemini counts thoughts apart.\<close>

definition native_input :: "usage_family \<Rightarrow> int \<Rightarrow> int \<Rightarrow> int \<Rightarrow> app_error + int" where
  "native_input family input read write =
     (if family = Claude then and_then (usage_add input read) (\<lambda>n. usage_add n write) else Ok input)"

definition native_output :: "usage_family \<Rightarrow> int \<Rightarrow> int \<Rightarrow> app_error + int" where
  "native_output family output reasoning =
     (if family = Gemini then usage_add output reasoning else Ok output)"

text \<open>The checks on sub-counters that precede the partition.\<close>

definition subsets_refused :: "evidence \<Rightarrow> int \<Rightarrow> int \<Rightarrow> int \<Rightarrow> app_error + bool" where
  "subsets_refused e input total_output read =
     and_then (usage_add (unwrap0 (ev_input_image e)) (unwrap0 (ev_input_audio e))) (\<lambda>i.
     if i > input then Ok True else
     and_then (usage_add (unwrap0 (ev_output_image e)) (unwrap0 (ev_output_audio e))) (\<lambda>x.
     if x > total_output then Ok True else
     and_then (usage_add (unwrap0 (ev_cached_image e)) (unwrap0 (ev_cached_audio e))) (\<lambda>k.
     if k > read then Ok True else
     Ok (list_ex (\<lambda>(cached, all). case (cached, all) of (Some a, Some b) \<Rightarrow> a > b | _ \<Rightarrow> False)
           [(ev_cached_image e, ev_input_image e), (ev_cached_audio e, ev_input_audio e)]))))"

definition normalize_input ::
  "usage_contract \<Rightarrow> evidence \<Rightarrow> int \<Rightarrow> int \<Rightarrow> int \<Rightarrow> int \<Rightarrow> quantity_map \<Rightarrow> app_error + quantity_map" where
  "normalize_input c e input read write tool v =
     and_then (if uc_family c = Claude then Ok input
               else and_then (usage_sub input read) (\<lambda>n. usage_sub n write)) (\<lambda>ordinary.
     and_then (if uc_bill_tool_input c then usage_add ordinary tool else Ok ordinary) (\<lambda>ordinary.
     and_then (input_step c input read ImageModality (ev_input_image e) (ev_cached_image e)
                 (ordinary, read, 0, 0, v)) (\<lambda>state.
     and_then (input_step c input read AudioModality (ev_input_audio e) (ev_cached_audio e) state)
       (\<lambda>(ordinary, cache, input_modalities, cache_modalities, v).
       if input_modalities > input \<or> cache_modalities > read then Err usage_invalid
       else (let v = btm_insert SInput ordinary v in
             Ok (if uc_cache_read c then btm_insert SCacheRead cache v else v))))))"

definition normalize_output ::
  "usage_contract \<Rightarrow> evidence \<Rightarrow> int \<Rightarrow> int \<Rightarrow> quantity_map \<Rightarrow> app_error + quantity_map" where
  "normalize_output c e total_output reasoning v =
     and_then (if uc_split_reasoning c then usage_sub total_output reasoning else Ok total_output)
       (\<lambda>ordinary_output.
     let v = (if uc_split_reasoning c then btm_insert SReasoning reasoning v else v) in
     and_then (output_step c total_output reasoning ImageModality (ev_output_image e) (ordinary_output, v)) (\<lambda>state.
     and_then (output_step c total_output reasoning AudioModality (ev_output_audio e) state)
       (\<lambda>(ordinary_output, v). Ok (btm_insert SOutput ordinary_output v))))"

definition normalize_tokens :: "usage_contract \<Rightarrow> evidence \<Rightarrow> app_error + quantity_map" where
  "normalize_tokens c e =
     and_then (usage_count (ev_input e)) (\<lambda>input.
     and_then (usage_count (ev_output e)) (\<lambda>output.
     and_then (applicable (ev_cache_read e) (uc_cache_read c)) (\<lambda>read.
     and_then (applicable (ev_cache_write e) (uc_cache_write_ttls c \<noteq> [])) (\<lambda>write.
     if list_ex (\<lambda>ttl. ttl \<notin> set (uc_cache_write_ttls c)) (btm_keys (ev_writes e)) then Err usage_invalid else
     and_then (writes_loop e (uc_cache_write_ttls c) 0 []) (\<lambda>(writes, v).
     if writes \<noteq> write then Err usage_invalid else
     and_then (if uc_family c = Gemini \<or> uc_split_reasoning c then usage_count (ev_reasoning e)
               else Ok (unwrap0 (ev_reasoning e))) (\<lambda>reasoning.
     if uc_family c \<noteq> Gemini \<and> reasoning > output then Err usage_invalid else
     and_then (applicable (ev_tool_input e) (uc_family c = Gemini)) (\<lambda>tool.
     and_then (native_input (uc_family c) input read write) (\<lambda>total_input.
     and_then (native_output (uc_family c) output reasoning) (\<lambda>total_output.
     and_then (case ev_total e of None \<Rightarrow> Ok False
               | Some reported \<Rightarrow> and_then (and_then (usage_add total_input total_output) (\<lambda>n. usage_add n tool))
                                  (\<lambda>n. Ok (reported \<noteq> n))) (\<lambda>wrong_total.
     if wrong_total then Err usage_invalid else
     and_then (subsets_refused e input total_output read) (\<lambda>refused.
     if refused then Err usage_invalid else
     and_then (normalize_input c e input read write tool v) (\<lambda>v.
       normalize_output c e total_output reasoning v))))))))))))"

definition token_evidence :: "evidence \<Rightarrow> bool" where
  "token_evidence e \<longleftrightarrow>
     list_ex (\<lambda>n. case n of None \<Rightarrow> False | Some v \<Rightarrow> v \<noteq> 0)
       [ev_input e, ev_output e, ev_cache_read e, ev_cache_write e, ev_reasoning e, ev_tool_input e,
        ev_input_image e, ev_input_audio e, ev_output_image e, ev_output_audio e,
        ev_cached_image e, ev_cached_audio e, ev_total e]
     \<or> ev_writes e \<noteq> []"

definition normalize_usage :: "usage_contract \<Rightarrow> evidence \<Rightarrow> app_error + quantity_map" where
  "normalize_usage c e =
     and_then (selectors c) (\<lambda>expected.
     if negative_evidence e then Err usage_invalid else
     and_then (if uc_tokens c then normalize_tokens c e
               else if token_evidence e then Err usage_invalid else Ok []) (\<lambda>v.
     and_then (applicable (ev_images e) (uc_images c)) (\<lambda>images.
     let v = (if uc_images c then btm_insert SImages images v else v) in
     if (case ev_requests e of None \<Rightarrow> False | Some n \<Rightarrow> n \<noteq> 1) then Err usage_invalid else
     and_then (if uc_requests c
               then and_then (usage_count (ev_requests e)) (\<lambda>requests.
                 if requests \<noteq> 1 then Err usage_invalid else Ok (btm_insert SRequests requests v))
               else Ok v) (\<lambda>v.
       if set (btm_keys v) \<noteq> expected then Err usage_invalid else Ok v))))"

section \<open>The charge\<close>

record token_breakdown =
  tb_prompt_tokens :: int
  tb_completion_tokens :: int
  tb_cached_tokens :: int
  tb_cache_creation_tokens :: int

text \<open>\<open>AudioTokens\<close> and \<open>ImageTokens\<close>: input and output.\<close>

record modality_tokens =
  mk_input_tokens :: int
  mk_output_tokens :: int

record charge_vector_doc =
  cv_native_usage :: evidence
  cv_tariff_id :: string
  cv_public_model :: string
  cv_quantities :: "(string, int) btree_map"

record platform_usage =
  pu_model_charges :: "charge_vector_doc option"
  pu_requests :: int
  pu_bytes :: int
  pu_tokens :: int
  pu_input_tokens :: int
  pu_output_tokens :: int
  pu_cache_read_tokens :: int
  pu_cache_write_tokens :: int
  pu_images :: int
  pu_voice_seconds :: int
  pu_token_breakdown :: "token_breakdown option"
  pu_audio_tokens :: "modality_tokens option"
  pu_image_tokens :: "modality_tokens option"
  pu_reported_model :: "string option"

definition platform_usage_default :: platform_usage where
  "platform_usage_default = \<lparr>pu_model_charges = None, pu_requests = 0, pu_bytes = 0, pu_tokens = 0,
     pu_input_tokens = 0, pu_output_tokens = 0, pu_cache_read_tokens = 0, pu_cache_write_tokens = 0,
     pu_images = 0, pu_voice_seconds = 0, pu_token_breakdown = None, pu_audio_tokens = None,
     pu_image_tokens = None, pu_reported_model = None\<rparr>"

fun quantities_loop ::
  "quantity_map \<Rightarrow> tariff_component list \<Rightarrow> (string, int) btree_map \<Rightarrow> app_error + (string, int) btree_map"
where
  "quantities_loop normalized [] quantities = Ok quantities"
| "quantities_loop normalized (c # cs) quantities =
     and_then (ok_or (btm_get normalized (tc_selector c)) usage_invalid) (\<lambda>n.
       if n > tc_max_quantity c \<or> btm_contains quantities (tc_lago_metric_code c) then Err usage_invalid
       else quantities_loop normalized cs (btm_insert (tc_lago_metric_code c) n quantities))"

definition checked_product :: "int \<Rightarrow> int \<Rightarrow> app_error + int" where
  "checked_product a b = ok_or (checked_i64 (a * b)) usage_invalid"

definition charge_vector :: "model_tariff \<Rightarrow> evidence \<Rightarrow> app_error + platform_usage" where
  "charge_vector t e =
     and_then (normalize_usage (mt_contract t) e) (\<lambda>normalized.
     and_then (quantities_loop normalized (mt_components t) []) (\<lambda>quantities.
     if length quantities \<noteq> length normalized then Err usage_invalid else
     and_then (native_input (uc_family (mt_contract t)) (unwrap0 (ev_input e)) (unwrap0 (ev_cache_read e))
                 (unwrap0 (ev_cache_write e))) (\<lambda>total_input.
     and_then (native_output (uc_family (mt_contract t)) (unwrap0 (ev_output e)) (unwrap0 (ev_reasoning e))) (\<lambda>total_output.
     and_then (checked_product (rb_max_input_tokens (mt_bounds t)) (rb_max_tool_iterations (mt_bounds t))) (\<lambda>input_bound.
     and_then (and_then (checked_product (rb_max_output_tokens (mt_bounds t)) (rb_max_candidates (mt_bounds t)))
                 (\<lambda>n. checked_product n (rb_max_tool_iterations (mt_bounds t)))) (\<lambda>output_bound.
     and_then (usage_add total_input (unwrap0 (ev_tool_input e))) (\<lambda>all_input.
     if all_input > input_bound \<or> total_output > output_bound
        \<or> unwrap0 (ev_images e) > rb_max_images (mt_bounds t)
     then Err usage_invalid else
     and_then (and_then (usage_add total_input total_output) (\<lambda>n. usage_add n (unwrap0 (ev_tool_input e)))) (\<lambda>tokens.
       Ok (platform_usage_default\<lparr>pu_model_charges := Some \<lparr>cv_native_usage = e, cv_tariff_id = mt_id t,
               cv_public_model = mt_public_model t, cv_quantities = quantities\<rparr>,
           pu_requests := 1,
           pu_tokens := tokens,
           pu_token_breakdown := (if uc_tokens (mt_contract t)
             then Some \<lparr>tb_prompt_tokens = unwrap0 (ev_input e),
                        tb_completion_tokens = unwrap0 (ev_output e),
                        tb_cached_tokens = unwrap0 (ev_cache_read e),
                        tb_cache_creation_tokens = unwrap0 (ev_cache_write e)\<rparr> else None),
           pu_audio_tokens := (if ev_input_audio e \<noteq> None \<or> ev_output_audio e \<noteq> None
             then Some \<lparr>mk_input_tokens = unwrap0 (ev_input_audio e),
                        mk_output_tokens = unwrap0 (ev_output_audio e)\<rparr> else None),
           pu_image_tokens := (if ev_input_image e \<noteq> None \<or> ev_output_image e \<noteq> None
             then Some \<lparr>mk_input_tokens = unwrap0 (ev_input_image e),
                        mk_output_tokens = unwrap0 (ev_output_image e)\<rparr> else None)\<rparr>)))))))))"

section \<open>Reading the provider's report\<close>

text \<open>
  \<open>Value::pointer\<close> on a literal pointer whose tokens are plain names: the keys in turn.
\<close>

fun json_path :: "json \<Rightarrow> string list \<Rightarrow> json option" where
  "json_path v [] = Some v"
| "json_path v (k # ks) = (case jget v k of None \<Rightarrow> None | Some w \<Rightarrow> json_path w ks)"

definition usage_get :: "json \<Rightarrow> string list \<Rightarrow> app_error + int option" where
  "usage_get v path = (case json_path v path of
     None \<Rightarrow> Ok None
   | Some n \<Rightarrow> (case as_i64 n of
        None \<Rightarrow> Err usage_invalid
      | Some i \<Rightarrow> if i \<ge> 0 then Ok (Some i) else Err usage_invalid))"

text \<open>The paths of input, output, total, cache read, cache write and reasoning, in this order.\<close>

fun usage_paths :: "usage_family \<Rightarrow> string list list" where
  "usage_paths Openai =
     [[''input_tokens''], [''output_tokens''], [''total_tokens''],
      [''input_tokens_details'', ''cached_tokens''],
      [''input_tokens_details'', ''cache_write_tokens''],
      [''output_tokens_details'', ''reasoning_tokens'']]"
| "usage_paths Claude =
     [[''input_tokens''], [''output_tokens''], [''total_tokens''],
      [''cache_read_input_tokens''], [''cache_creation_input_tokens''], [''reasoning_tokens'']]"
| "usage_paths Gemini =
     [[''promptTokenCount''], [''candidatesTokenCount''], [''totalTokenCount''],
      [''cachedContentTokenCount''], [''cacheWriteTokenCount''], [''thoughtsTokenCount'']]"
| "usage_paths OpenMaas = []"

fun write_paths :: "usage_family \<Rightarrow> (cache_ttl \<times> string list) list" where
  "write_paths Openai =
     [(ThirtyMinutes, [''input_tokens_details'', ''cache_write_tokens_details'', ''ttl_30m_tokens'']),
      (TwelveHours, [''input_tokens_details'', ''cache_write_tokens_details'', ''ttl_12h_tokens''])]"
| "write_paths Claude =
     [(FiveMinutes, [''cache_creation'', ''ephemeral_5m_input_tokens'']),
      (OneHour, [''cache_creation'', ''ephemeral_1h_input_tokens''])]"
| "write_paths _ = []"

fun read_writes :: "json \<Rightarrow> (cache_ttl \<times> string list) list \<Rightarrow> evidence \<Rightarrow> app_error + evidence" where
  "read_writes v [] e = Ok e"
| "read_writes v ((ttl, path) # ps) e = and_then (usage_get v path) (\<lambda>n.
     read_writes v ps (case n of None \<Rightarrow> e | Some i \<Rightarrow> e\<lparr>ev_writes := btm_insert ttl i (ev_writes e)\<rparr>))"

text \<open>Gemini's modality details: which field an entry of the list of one kind sets.\<close>

datatype detail_kind = PromptDetails | CandidatesDetails | CacheDetails

definition set_detail :: "detail_kind \<Rightarrow> string \<Rightarrow> int option \<Rightarrow> evidence \<Rightarrow> app_error + evidence" where
  "set_detail kind modality n e =
     (if modality = ''IMAGE'' then Ok (case kind of
          PromptDetails \<Rightarrow> e\<lparr>ev_input_image := n\<rparr>
        | CandidatesDetails \<Rightarrow> e\<lparr>ev_output_image := n\<rparr>
        | CacheDetails \<Rightarrow> e\<lparr>ev_cached_image := n\<rparr>)
      else if modality = ''AUDIO'' then Ok (case kind of
          PromptDetails \<Rightarrow> e\<lparr>ev_input_audio := n\<rparr>
        | CandidatesDetails \<Rightarrow> e\<lparr>ev_output_audio := n\<rparr>
        | CacheDetails \<Rightarrow> e\<lparr>ev_cached_audio := n\<rparr>)
      else if modality = ''TEXT'' then and_then (usage_count n) (\<lambda>_. Ok e)
      else Err usage_invalid)"

fun details_loop ::
  "detail_kind \<Rightarrow> json list \<Rightarrow> string list \<Rightarrow> int \<Rightarrow> evidence \<Rightarrow> app_error + (int \<times> evidence)" where
  "details_loop kind [] seen counted e = Ok (counted, e)"
| "details_loop kind (detail # details) seen counted e =
     and_then (ok_or (as_str (jindex detail ''modality'')) usage_invalid) (\<lambda>modality.
     if modality \<in> set seen then Err usage_invalid else
     and_then (usage_get detail [''tokenCount'']) (\<lambda>n.
     and_then (usage_count n) (\<lambda>i.
     and_then (usage_add counted i) (\<lambda>counted'.
     and_then (set_detail kind modality n e) (\<lambda>e'.
       details_loop kind details (modality # seen) counted' e')))))"

definition read_details :: "json \<Rightarrow> detail_kind \<Rightarrow> string \<Rightarrow> evidence \<Rightarrow> app_error + evidence" where
  "read_details v kind key e = (case json_path v [key] of
     None \<Rightarrow> Ok e
   | Some details \<Rightarrow>
       and_then (ok_or (as_array details) usage_invalid) (\<lambda>xs.
       and_then (details_loop kind xs [] 0 e) (\<lambda>(counted, e).
       and_then (usage_count (case kind of PromptDetails \<Rightarrow> ev_input e
                   | CandidatesDetails \<Rightarrow> ev_output e | CacheDetails \<Rightarrow> ev_cache_read e)) (\<lambda>aggregate.
         if counted \<noteq> aggregate then Err usage_invalid else Ok e))))"

definition read_openai :: "json \<Rightarrow> evidence \<Rightarrow> app_error + evidence" where
  "read_openai v e =
     and_then (usage_get v [''input_tokens_details'', ''image_tokens'']) (\<lambda>input_image.
     and_then (usage_get v [''input_tokens_details'', ''audio_tokens'']) (\<lambda>input_audio.
     and_then (usage_get v [''output_tokens_details'', ''image_tokens'']) (\<lambda>output_image.
     and_then (usage_get v [''output_tokens_details'', ''audio_tokens'']) (\<lambda>output_audio.
     and_then (usage_get v [''input_tokens_details'', ''cached_tokens_details'', ''image_tokens'']) (\<lambda>cached_image.
     and_then (usage_get v [''input_tokens_details'', ''cached_tokens_details'', ''audio_tokens'']) (\<lambda>cached_audio.
       Ok (e\<lparr>ev_input_image := input_image, ev_input_audio := input_audio,
             ev_output_image := output_image, ev_output_audio := output_audio,
             ev_cached_image := cached_image, ev_cached_audio := cached_audio\<rparr>)))))))"

definition parse_usage :: "usage_family \<Rightarrow> json \<Rightarrow> app_error + evidence" where
  "parse_usage family v =
     (if family = OpenMaas then Err usage_invalid
      else and_then (try_map (usage_get v) (usage_paths family)) (\<lambda>ns.
        let e = evidence_default\<lparr>ev_input := ns ! 0, ev_output := ns ! 1, ev_total := ns ! 2,
              ev_cache_read := ns ! 3, ev_cache_write := ns ! 4, ev_reasoning := ns ! 5\<rparr>
        in and_then (read_writes v (write_paths family) e) (\<lambda>e.
          if family = Gemini
          then and_then (usage_get v [''toolUsePromptTokenCount'']) (\<lambda>tool.
            and_then (read_details v PromptDetails ''promptTokensDetails'' (e\<lparr>ev_tool_input := tool\<rparr>)) (\<lambda>e.
            and_then (read_details v CandidatesDetails ''candidatesTokensDetails'' e) (\<lambda>e.
              read_details v CacheDetails ''cacheTokensDetails'' e)))
          else if family = Openai then read_openai v e
          else Ok e)))"

end
