(* ===== verification/Pricing.thy ===== *)
theory Pricing
  imports Service_Billing Credit_Amounts
begin

text \<open>
  Authored service prices (\<open>services/billing/pricing.rs\<close>): the canonical decimal of a price, the
  metric codes prices are billed under, and the normalization of an edited billing configuration
  against the stored one: what keeps its sync state, what becomes pending, and which metric codes
  are queued for cleanup. The database writes and the Lago calls that follow are not modelled.
\<close>

section \<open>One price\<close>

definition price_required :: app_error where
  "price_required = ValidationError ''billing.platform_pricing.credits_per_unit is required''"

definition price_syntax :: app_error where
  "price_syntax = ValidationError
     ''billing.platform_pricing.credits_per_unit must be a non-negative decimal with at most 12 fractional digits''"

definition price_cap :: app_error where
  "price_cap = ValidationError ''billing.platform_pricing.credits_per_unit must not exceed 1,000,000 credits''"

definition normalize_price :: "string \<Rightarrow> app_error + string" where
  "normalize_price raw =
     (let text = trim raw in
      if text = [] then Err price_required
      else (let parts = split_on CHR ''.'' text; whole = hd parts;
                fraction = (if length parts > 1 then Some (parts ! 1) else None)
            in if length parts > 2 \<or> whole = [] \<or> \<not> all_digits whole
                  \<or> (case fraction of None \<Rightarrow> False
                     | Some part \<Rightarrow> part = [] \<or> length part > PRICE_FRACTIONAL_DIGITS \<or> \<not> all_digits part)
               then Err price_syntax
               else (case decimal_to_pico text of
                   Some p \<Rightarrow> if p \<le> MAX_PRICE_PICO then Ok (format_pico p) else Err price_cap
                 | None \<Rightarrow> Err price_cap)))"

definition metric_code_for_service :: "string \<Rightarrow> string" where
  "metric_code_for_service service_slug = ''platform_svc_'' @ service_slug"

definition MAX_LAGO_METRIC_CODE_LEN :: nat where "MAX_LAGO_METRIC_CODE_LEN = 255"

text \<open>
  \<open>chars().map\<close>: a multi-byte character is one \<open>_\<close>; its continuation bytes add nothing.
\<close>

definition operation_code_char :: "char \<Rightarrow> char" where
  "operation_code_char c = (let c = to_lower c in
     if is_ascii_lowercase c \<or> is_ascii_digit c \<or> c = CHR ''_'' then c else CHR ''_'')"

definition operation_metric_code :: "string \<Rightarrow> string \<Rightarrow> string \<Rightarrow> app_error + string" where
  "operation_metric_code slug lane_tag operation =
     (let normalized = map operation_code_char (filter (\<lambda>c. \<not> (128 \<le> byte c \<and> byte c < 192)) operation);
          code = ''platform_svc_'' @ slug @ ''_'' @ lane_tag @ ''_op_'' @ normalized
      in if length code > MAX_LAGO_METRIC_CODE_LEN
         then Err (ValidationError ''Operation price key is too long for a Lago metric code'')
         else Ok code)"

section \<open>The platform price\<close>

text \<open>\<open>filter(|code| !code.trim().is_empty())\<close> on the code of the stored platform price.\<close>

definition stored_platform_code :: "service_billing option \<Rightarrow> string option" where
  "stored_platform_code current =
     Option.bind current (\<lambda>b. Option.bind (sb_platform_pricing b) (\<lambda>p.
       if trim (sp_lago_metric_code p) \<noteq> [] then Some (sp_lago_metric_code p) else None))"

definition or_else :: "'a option \<Rightarrow> 'a option \<Rightarrow> 'a option" where
  "or_else a b = (case a of None \<Rightarrow> b | Some _ \<Rightarrow> a)"

definition normalize_platform_pricing ::
  "string \<Rightarrow> service_billing option \<Rightarrow> service_billing \<Rightarrow> app_error + service_billing" where
  "normalize_platform_pricing slug current requested = (case sb_platform_pricing requested of
     None \<Rightarrow> Ok (requested\<lparr>sb_platform_cleanup :=
       or_else (stored_platform_code current) (Option.bind current sb_platform_cleanup)\<rparr>)
   | Some pricing \<Rightarrow>
       and_then (normalize_price (sp_credits_per_unit pricing)) (\<lambda>price.
         Ok (requested\<lparr>sb_platform_pricing := Some \<lparr>sp_credits_per_unit = price,
               sp_lago_metric_code = (case stored_platform_code current of
                   Some code \<Rightarrow> code | None \<Rightarrow> metric_code_for_service slug),
               sp_sync_status = SyncPending, sp_sync_error = None\<rparr>,
             sb_platform_cleanup := None\<rparr>)))"

section \<open>The credential lanes\<close>

definition push_new :: "string list \<Rightarrow> string \<Rightarrow> string list" where
  "push_new queue code = (if code \<in> set queue then queue else queue @ [code])"

text \<open>The primary price of a lane: an unchanged price keeps its sync state.\<close>

definition normalize_primary :: "string \<Rightarrow> string \<Rightarrow> lane_pricing option \<Rightarrow> lane_pricing \<Rightarrow> lane_pricing" where
  "normalize_primary slug lane_tag previous lane =
     (case previous of
        Some p \<Rightarrow>
          if lp_metric p = lp_metric lane \<and> lp_credits_per_unit p = lp_credits_per_unit lane
             \<and> lp_lago_metric_code p \<noteq> []
          then lane\<lparr>lp_lago_metric_code := lp_lago_metric_code p, lp_sync_status := lp_sync_status p,
                    lp_sync_error := lp_sync_error p\<rparr>
          else lane\<lparr>lp_lago_metric_code := (if lp_lago_metric_code p \<noteq> [] then lp_lago_metric_code p
                      else ''platform_svc_'' @ slug @ ''_'' @ lane_tag),
                    lp_sync_status := SyncPending, lp_sync_error := None\<rparr>
      | None \<Rightarrow>
          lane\<lparr>lp_lago_metric_code := ''platform_svc_'' @ slug @ ''_'' @ lane_tag,
               lp_sync_status := SyncPending, lp_sync_error := None\<rparr>)"

text \<open>A price that stands as it was keeps the stored entry, sync state included.\<close>

definition retained_component :: "lane_price_component list \<Rightarrow> lane_price_component \<Rightarrow> lane_price_component" where
  "retained_component olds c = (case find (\<lambda>q. lc_metric q = lc_metric c) olds of
     None \<Rightarrow> c
   | Some old \<Rightarrow> if lc_credits_per_unit old = lc_credits_per_unit c
                  \<and> lc_lago_metric_code old = lc_lago_metric_code c then old else c)"

fun normalize_components ::
  "string \<Rightarrow> string \<Rightarrow> lane_price_component list \<Rightarrow> billing_metric list \<Rightarrow> lane_price_component list
   \<Rightarrow> app_error + lane_price_component list"
where
  "normalize_components slug lane_tag olds metrics [] = Ok []"
| "normalize_components slug lane_tag olds metrics (c # cs) =
     (if lc_metric c \<in> set metrics
      then Err (ValidationError ''Billing metrics must be unique within each lane'')
      else and_then (normalize_price (lc_credits_per_unit c)) (\<lambda>price.
        and_then (normalize_components slug lane_tag olds (metrics @ [lc_metric c]) cs) (\<lambda>cs'.
          Ok (retained_component olds \<lparr>lc_metric = lc_metric c, lc_credits_per_unit = price,
                lc_lago_metric_code = ''platform_svc_'' @ slug @ ''_'' @ lane_tag @ ''_'' @ metric_str (lc_metric c),
                lc_sync_status = SyncPending, lc_sync_error = None\<rparr> # cs'))))"

definition retained_operation :: "operation_price list \<Rightarrow> operation_price \<Rightarrow> operation_price" where
  "retained_operation olds p = (case find (\<lambda>q. op_operation q = op_operation p) olds of
     None \<Rightarrow> p
   | Some old \<Rightarrow> if op_credits_per_unit old = op_credits_per_unit p
                  \<and> op_lago_metric_code old = op_lago_metric_code p then old else p)"

fun normalize_operations ::
  "string \<Rightarrow> string \<Rightarrow> operation_price list \<Rightarrow> string list \<Rightarrow> string list \<Rightarrow> operation_price list
   \<Rightarrow> app_error + operation_price list"
where
  "normalize_operations slug lane_tag olds keys codes [] = Ok []"
| "normalize_operations slug lane_tag olds keys codes (p # ps) =
     (let key = trim (op_operation p) in
      if key = [] \<or> key \<in> set keys
      then Err (ValidationError ''Operation prices must have unique operation keys'')
      else and_then (normalize_price (op_credits_per_unit p)) (\<lambda>price.
        and_then (operation_metric_code slug lane_tag key) (\<lambda>code.
        if code \<in> set codes
        then Err (ValidationError ''Operation prices must have unique metric codes'')
        else and_then (normalize_operations slug lane_tag olds (key # keys) (code # codes) ps) (\<lambda>ps'.
          Ok (retained_operation olds \<lparr>op_operation = key, op_credits_per_unit = price,
                op_lago_metric_code = code, op_sync_status = SyncPending, op_sync_error = None\<rparr> # ps')))))"

text \<open>
  One turn of the loop over the two lanes: the lane, its cleanup marker and the shared queue of
  component codes.
\<close>

definition queue_operations :: "operation_price list \<Rightarrow> operation_price list \<Rightarrow> string list \<Rightarrow> string list" where
  "queue_operations olds kept queue = foldl
     (\<lambda>queue old. if op_lago_metric_code old \<noteq> []
          \<and> op_lago_metric_code old \<notin> op_lago_metric_code ` set kept
        then push_new queue (op_lago_metric_code old) else queue) queue olds"

definition queue_components ::
  "lane_price_component list \<Rightarrow> lane_price_component list \<Rightarrow> string list \<Rightarrow> string list" where
  "queue_components olds kept queue = foldl
     (\<lambda>queue old. if lc_lago_metric_code old \<notin> lc_lago_metric_code ` set kept
        then push_new queue (lc_lago_metric_code old) else queue) queue olds"

definition list_of_option :: "('a \<Rightarrow> 'b list) \<Rightarrow> 'a option \<Rightarrow> 'b list" where
  "list_of_option f previous = (case previous of None \<Rightarrow> [] | Some p \<Rightarrow> f p)"

definition lane_refusal :: "lane_pricing option \<Rightarrow> lane_pricing \<Rightarrow> string option" where
  "lane_refusal previous lane =
     (if lp_model_prices lane \<noteq> [] \<and> lp_model_prices lane \<noteq> list_of_option lp_model_prices previous
      then Some ''Model prices are published through the model tariff API''
      else if requires_model_evidence (lp_metric lane)
           \<or> list_ex (\<lambda>c. requires_model_evidence (lc_metric c)) (lp_components lane)
      then Some ''This unit requires a certified model tariff''
      else if lp_metric lane = MachineRunningSeconds
           \<or> list_ex (\<lambda>c. lc_metric c = MachineRunningSeconds) (lp_components lane)
      then Some ''Machine runtime prices use the accepted runtime contract, not service credential lanes''
      else if lp_operations lane \<noteq> [] \<and> lp_metric lane \<noteq> Requests
      then Some ''Operation prices require a requests primary metric''
      else None)"

definition normalize_lane ::
  "string \<Rightarrow> string \<Rightarrow> lane_pricing option \<Rightarrow> lane_pricing \<Rightarrow> app_error + lane_pricing" where
  "normalize_lane slug lane_tag previous lane = (case lane_refusal previous lane of
     Some reason \<Rightarrow> Err (ValidationError reason)
   | None \<Rightarrow>
       and_then (normalize_price (lp_credits_per_unit lane)) (\<lambda>price.
       let lane = normalize_primary slug lane_tag previous
             (lane\<lparr>lp_model_prices := list_of_option lp_model_prices previous, lp_credits_per_unit := price\<rparr>) in
       and_then (normalize_components slug lane_tag (list_of_option lp_components previous)
                   [lp_metric lane] (lp_components lane)) (\<lambda>components.
       and_then (normalize_operations slug lane_tag (list_of_option lp_operations previous) [] []
                   (lp_operations lane)) (\<lambda>operations.
         Ok (lane\<lparr>lp_components := components, lp_operations := operations\<rparr>)))))"

definition lane_turn ::
  "string \<Rightarrow> string \<Rightarrow> lane_pricing option \<Rightarrow> string option \<Rightarrow> lane_pricing option \<Rightarrow> string list
   \<Rightarrow> app_error + (lane_pricing option \<times> string option \<times> string list)"
where
  "lane_turn slug lane_tag previous previous_cleanup lane queue =
     (let old_components = list_of_option lp_components previous;
          old_operations = list_of_option lp_operations previous
      in case lane of
        Some lane \<Rightarrow>
          and_then (normalize_lane slug lane_tag previous lane) (\<lambda>lane.
            Ok (Some lane, None,
                queue_components old_components (lp_components lane)
                  (queue_operations old_operations (lp_operations lane) queue)))
      | None \<Rightarrow>
          if list_of_option lp_model_prices previous \<noteq> []
          then Err (ValidationError ''Model tariff billing lanes cannot be removed by ordinary catalog edits'')
          else Ok (None,
            or_else (Option.bind previous (\<lambda>p.
                if lp_lago_metric_code p \<noteq> [] then Some (lp_lago_metric_code p) else None)) previous_cleanup,
            queue_components old_components [] (queue_operations old_operations [] queue)))"

definition normalize_lane_pricing ::
  "string \<Rightarrow> service_billing option \<Rightarrow> service_billing \<Rightarrow> app_error + service_billing" where
  "normalize_lane_pricing slug current requested =
     (let queue = list_of_option sb_component_cleanup current in
      if (case sb_platform_metric requested of None \<Rightarrow> False | Some m \<Rightarrow> \<not> is_legacy m)
         \<or> \<not> is_legacy (sb_resale_metric requested)
      then Err (ValidationError ''Legacy platform_metric and resale_metric support only tokens, requests and bytes'')
      else
        and_then (lane_turn slug ''byok'' (Option.bind current sb_byok_pricing) (Option.bind current sb_byok_cleanup)
                    (sb_byok_pricing requested) queue) (\<lambda>(byok, byok_cleanup, queue).
        and_then (lane_turn slug ''pk'' (Option.bind current sb_platform_key_pricing)
                    (Option.bind current sb_platform_key_cleanup) (sb_platform_key_pricing requested) queue)
          (\<lambda>(pk, pk_cleanup, queue).
            Ok (requested\<lparr>sb_byok_pricing := byok, sb_byok_cleanup := byok_cleanup,
                          sb_platform_key_pricing := pk, sb_platform_key_cleanup := pk_cleanup,
                          sb_component_cleanup := queue\<rparr>))))"

section \<open>Operation keys\<close>

text \<open>
  \<open>validate_operation_keys\<close>: the endpoints of the service and the channel operations declared
  for its slug are arguments, read by the code only when a key was added.
\<close>

definition billing_lanes :: "service_billing option \<Rightarrow> lane_pricing option list" where
  "billing_lanes billing = [Option.bind billing sb_byok_pricing, Option.bind billing sb_platform_key_pricing]"

definition added_operation_keys :: "service_billing option \<Rightarrow> service_billing \<Rightarrow> string list" where
  "added_operation_keys current billing = concat (map (\<lambda>(lane, previous).
     map op_operation (filter (\<lambda>price. op_operation price
            \<notin> op_operation ` set (list_of_option lp_operations previous))
       (list_of_option lp_operations lane)))
     (zip (billing_lanes (Some billing)) (billing_lanes current)))"

definition validate_operation_keys ::
  "string list \<Rightarrow> string list \<Rightarrow> service_billing option \<Rightarrow> service_billing \<Rightarrow> app_error + unit" where
  "validate_operation_keys endpoints declared current billing =
     (let keys = added_operation_keys current billing in
      if keys = [] then Ok ()
      else if list_all (\<lambda>key. key \<in> set endpoints \<or> key \<in> set declared) keys then Ok ()
      else Err (ValidationError
        ''Operation prices must reference an active endpoint or a declared channel operation of this service''))"

end
