(* ===== verification/Model_Tariff.thy ===== *)
theory Model_Tariff
  imports Model_Usage Pricing
begin

text \<open>
  Price revisions of a model (\<open>services/billing/model_tariffs.rs\<close>): the validation that a tariff
  prices every usage class of its contract within a bounded reservation, and the selection of
  the one synced tariff a request is charged by. Parsing a UUID is the \<open>uuid\<close> crate's: it is the
  argument \<open>uuid_simple\<close>, the 32 hexadecimal digits of a well-formed UUID. Instants are
  nanoseconds.
\<close>

definition tariff_invalid :: "string \<Rightarrow> app_error" where
  "tariff_invalid s = ValidationError s"

definition unavailable :: "string \<Rightarrow> app_error" where
  "unavailable reason = BillingProviderUnavailable (''Model tariff unavailable: '' @ reason)"

definition credits_app_error :: "credits_error \<Rightarrow> app_error" where
  "credits_app_error e = Internal ''invalid or unrepresentable credit amount''"

definition tariff_identifier :: "string \<Rightarrow> nat \<Rightarrow> bool" where
  "tariff_identifier s mx \<longleftrightarrow>
     s \<noteq> [] \<and> length s \<le> mx \<and> list_all (\<lambda>b. is_ascii_lowercase b \<or> is_ascii_digit b \<or> b = CHR ''_'') s"

fun tariff_lane_pricing :: "service_billing \<Rightarrow> tariff_lane \<Rightarrow> lane_pricing option" where
  "tariff_lane_pricing b ByokTariff = sb_byok_pricing b"
| "tariff_lane_pricing b PlatformKeyTariff = sb_platform_key_pricing b"

fun tariff_lane_field :: "tariff_lane \<Rightarrow> string" where
  "tariff_lane_field ByokTariff = ''byok_pricing''"
| "tariff_lane_field PlatformKeyTariff = ''platform_key_pricing''"

section \<open>Metric codes\<close>

definition metric_code ::
  "(string \<Rightarrow> string option) \<Rightarrow> string \<Rightarrow> string \<Rightarrow> tariff_lane \<Rightarrow> int \<Rightarrow> string \<Rightarrow> app_error + string"
where
  "metric_code uuid_simple slug model lane revision key =
     and_then (ok_or (uuid_simple model) (tariff_invalid ''Invalid model ID'')) (\<lambda>id.
     if \<not> tariff_identifier key 48 \<or> revision \<le> 0 \<or> slug = []
        \<or> \<not> list_all (\<lambda>b. is_ascii_alphanumeric b \<or> b = CHR ''_'' \<or> b = CHR ''-'') slug
     then Err (tariff_invalid ''Invalid tariff metric identity'')
     else (let lane_tag = (if lane = ByokTariff then ''byok'' else ''pk'');
               code = ''platform_svc_'' @ slug @ ''_'' @ lane_tag @ ''_mdl_'' @ id @ ''_t'' @ int_str revision
                      @ ''_'' @ key
           in if length code > 255
              then Err (tariff_invalid ''Model tariff metric code exceeds 255 characters'')
              else Ok code))"

section \<open>Validation\<close>

definition variant_invalid :: "(string, string) btree_map \<Rightarrow> bool" where
  "variant_invalid variant \<longleftrightarrow>
     length variant > 8
     \<or> list_ex (\<lambda>(k, v). \<not> tariff_identifier k 40 \<or> v = [] \<or> length v > 80
          \<or> \<not> list_all (\<lambda>b. is_ascii_alphanumeric b \<or> b \<in> set ''-._'') v) variant"

definition bounds_invalid :: "usage_contract \<Rightarrow> request_bounds \<Rightarrow> bool" where
  "bounds_invalid c b \<longleftrightarrow>
     \<not> (1 \<le> rb_max_candidates b \<and> rb_max_candidates b \<le> 16)
     \<or> \<not> (1 \<le> rb_max_tool_iterations b \<and> rb_max_tool_iterations b \<le> 64)
     \<or> \<not> (0 \<le> rb_max_input_tokens b \<and> rb_max_input_tokens b \<le> 100000000)
     \<or> \<not> (0 \<le> rb_max_output_tokens b \<and> rb_max_output_tokens b \<le> 100000000)
     \<or> \<not> (0 \<le> rb_max_images b \<and> rb_max_images b \<le> 100)
     \<or> \<not> (1 \<le> rb_max_request_bytes b \<and> rb_max_request_bytes b \<le> 33554432)
     \<or> \<not> (1 \<le> rb_max_response_bytes b \<and> rb_max_response_bytes b \<le> 33554432)
     \<or> (uc_tokens c \<and> rb_max_input_tokens b = 0)
     \<or> (uc_images c \<and> rb_max_images b = 0)"

fun required_quantity :: "request_bounds \<Rightarrow> int \<Rightarrow> int \<Rightarrow> selector \<Rightarrow> int" where
  "required_quantity b input_bound output_bound SOutput = output_bound"
| "required_quantity b input_bound output_bound SReasoning = output_bound"
| "required_quantity b input_bound output_bound SImageOutput = output_bound"
| "required_quantity b input_bound output_bound SAudioOutput = output_bound"
| "required_quantity b input_bound output_bound SImages = rb_max_images b"
| "required_quantity b input_bound output_bound SRequests = 1"
| "required_quantity b input_bound output_bound _ = input_bound"

text \<open>
  One component, after the selectors \<open>found\<close>, the keys and the largest charge \<open>spent\<close> so far: the
  component with its canonical price and its metric code, and the largest charge with it.
\<close>

definition validate_component ::
  "(string \<Rightarrow> string option) \<Rightarrow> string \<Rightarrow> model_tariff \<Rightarrow> selector set \<Rightarrow> int \<Rightarrow> int
   \<Rightarrow> selector list \<Rightarrow> string list \<Rightarrow> credits \<Rightarrow> tariff_component \<Rightarrow> app_error + (tariff_component \<times> credits)"
where
  "validate_component uuid_simple slug t sels input_bound output_bound found keys spent c =
     (let required = required_quantity (mt_bounds t) input_bound output_bound (tc_selector c) in
      if tc_selector c \<in> set found \<or> tc_key c \<in> set keys \<or> tc_selector c \<notin> sels
         \<or> tc_metric c \<noteq> selector_metric (tc_selector c)
         \<or> tc_max_quantity c \<le> 0 \<or> tc_max_quantity c > 1000000000
      then Err (tariff_invalid ''Invalid, overlapping or unbounded tariff component'')
      else if tc_max_quantity c < required \<or> (tc_selector c = SRequests \<and> tc_max_quantity c \<noteq> 1)
      then Err (tariff_invalid ''Component reservation does not cover all candidates and tool iterations'')
      else and_then (normalize_price (tc_credits_per_unit c)) (\<lambda>price.
        and_then (ok_or (decimal_to_pico price) (tariff_invalid ''Invalid price'')) (\<lambda>rate.
        if (rate = 0) \<noteq> tc_explicit_free c
        then Err (tariff_invalid ''Zero components must be explicitly free'')
        else and_then (map_err credits_app_error (cost rate (tc_max_quantity c))) (\<lambda>charge.
          and_then (map_err credits_app_error (checked_add spent charge)) (\<lambda>spent.
          and_then (metric_code uuid_simple slug (mt_model_id t) (mt_lane t) (mt_revision t) (tc_key c)) (\<lambda>code.
            Ok (c\<lparr>tc_credits_per_unit := price, tc_lago_metric_code := code\<rparr>, spent)))))))"

fun validate_components ::
  "(string \<Rightarrow> string option) \<Rightarrow> string \<Rightarrow> model_tariff \<Rightarrow> selector set \<Rightarrow> int \<Rightarrow> int
   \<Rightarrow> selector list \<Rightarrow> string list \<Rightarrow> credits \<Rightarrow> tariff_component list \<Rightarrow> app_error + tariff_component list"
where
  "validate_components uuid_simple slug t sels ib ob found keys spent [] = Ok []"
| "validate_components uuid_simple slug t sels ib ob found keys spent (c # cs) =
     and_then (validate_component uuid_simple slug t sels ib ob found keys spent c) (\<lambda>(c', spent).
     and_then (validate_components uuid_simple slug t sels ib ob
                 (tc_selector c # found) (tc_key c # keys) spent cs) (\<lambda>cs'.
       Ok (c' # cs')))"

definition tariff_product :: "int \<Rightarrow> int \<Rightarrow> string \<Rightarrow> app_error + int" where
  "tariff_product a b reason = ok_or (checked_i64 (a * b)) (tariff_invalid reason)"

definition validate_tariff ::
  "(string \<Rightarrow> string option) \<Rightarrow> model_tariff \<Rightarrow> string \<Rightarrow> app_error + model_tariff" where
  "validate_tariff uuid_simple t slug =
     (if variant_invalid (mt_variant t) then Err (tariff_invalid ''Invalid finite tariff variant'')
      else if trim (mt_source t) = [] \<or> length (mt_source t) > 1000 \<or> has_control (mt_source t)
      then Err (tariff_invalid ''Tariff verification source is required'')
      else and_then (selectors (mt_contract t)) (\<lambda>sels.
      let b = mt_bounds t in
      if bounds_invalid (mt_contract t) b then Err (tariff_invalid ''Invalid model request bounds'')
      else and_then (tariff_product (rb_max_input_tokens b) (rb_max_tool_iterations b) ''Input bound overflow'') (\<lambda>ib.
        and_then (and_then (tariff_product (rb_max_output_tokens b) (rb_max_candidates b) ''Output bound overflow'')
                    (\<lambda>n. tariff_product n (rb_max_tool_iterations b) ''Output bound overflow'')) (\<lambda>ob.
        if length (mt_components t) \<noteq> card sels
        then Err (tariff_invalid ''Every usage class requires an explicit price or free component'')
        else and_then (validate_components uuid_simple slug t sels ib ob [] [] ZERO
                         (sort_key tc_key (mt_components t))) (\<lambda>components.
          Ok (t\<lparr>mt_components := components\<rparr>))))))"

section \<open>Selection\<close>

record rate_cache =
  rc_id :: string
  rc_lago_metric_code :: string
  rc_model :: "string option"
  rc_credits_per_unit_micros :: int
  rc_credits_per_unit_pico :: "int option"
  rc_synced_at :: int
  rc_retired_at :: "int option"

definition cache_id :: "string \<Rightarrow> string option \<Rightarrow> string" where
  "cache_id code model = code @ '':'' @ (case model of None \<Rightarrow> ''*'' | Some m \<Rightarrow> m)"

datatype selected_tariff = SelectedTariff (selected: model_tariff)

definition tariff_paid :: "selected_tariff \<Rightarrow> bool" where
  "tariff_paid s \<longleftrightarrow> list_ex (\<lambda>c. \<not> tc_explicit_free c) (mt_components (selected s))"

definition tariff_usage :: "selected_tariff \<Rightarrow> evidence \<Rightarrow> app_error + platform_usage" where
  "tariff_usage s e = charge_vector (selected s) e"

text \<open>The rate of one paid component: fresh, live, and the very price of the tariff.\<close>

definition check_rate ::
  "(string \<Rightarrow> rate_cache option) \<Rightarrow> int \<Rightarrow> nat \<Rightarrow> tariff_component \<Rightarrow> string + unit" where
  "check_rate rates now ttl c =
     (if tc_explicit_free c then Ok ()
      else and_then (ok_or (rates (tc_lago_metric_code c)) ''rate_missing'') (\<lambda>rate.
      if rc_model rate \<noteq> None \<or> rc_lago_metric_code rate \<noteq> tc_lago_metric_code c
         \<or> rc_retired_at rate \<noteq> None \<or> rc_synced_at rate > now
         \<or> (now - rc_synced_at rate) div 1000000000 > min (int ttl) i64_max
      then Err ''rate_stale_or_retired''
      else and_then (ok_or (decimal_to_pico (tc_credits_per_unit c)) ''invalid_price'') (\<lambda>price.
        if rate_pico (rc_credits_per_unit_pico rate) (rc_credits_per_unit_micros rate) \<noteq> price
        then Err ''rate_mismatch'' else Ok ())))"

fun selected_lane :: "credential_class \<Rightarrow> string + tariff_lane" where
  "selected_lane cls = (case for_credential cls of
     Some Byok \<Rightarrow> Ok ByokTariff
   | Some PlatformKey \<Rightarrow> Ok PlatformKeyTariff
   | None \<Rightarrow> Err ''credential_ineligible'')"

definition select_tariff ::
  "(string \<Rightarrow> string option) \<Rightarrow> downstream_service \<Rightarrow> string \<Rightarrow> credential_class
   \<Rightarrow> (string, string) btree_map \<Rightarrow> model_tariff list \<Rightarrow> (string \<Rightarrow> rate_cache option) \<Rightarrow> int \<Rightarrow> nat
   \<Rightarrow> string + selected_tariff"
where
  "select_tariff uuid_simple service model_id cls variant tariffs rates now ttl =
     (if \<not> ds_is_active service then Err ''service_disabled''
      else if ds_platform_key service \<noteq> Some ModelOffering then Err ''not_model_offering''
      else and_then (ok_or (ds_billing service) ''missing_tariff'') (\<lambda>billing.
      if sb_resale_billable billing \<or> sb_managed_execution billing \<noteq> None then Err ''incompatible_billing''
      else and_then (selected_lane cls) (\<lambda>lane.
      and_then (ok_or (tariff_lane_pricing billing lane) ''missing_tariff'') (\<lambda>pricing.
      let binding = filter (\<lambda>b. pb_model_id b = model_id \<and> pb_variant b = variant) (lp_model_prices pricing) in
      if length binding \<noteq> 1 then Err ''missing_or_ambiguous_variant''
      else and_then (ok_or (pb_active_tariff_id (hd binding)) ''tariff_pending'') (\<lambda>id.
      and_then (ok_or (find (\<lambda>t. mt_id t = id) tariffs) ''missing_tariff'') (\<lambda>t.
      if mt_service_id t \<noteq> ds_id service \<or> mt_model_id t \<noteq> model_id \<or> mt_lane t \<noteq> lane
         \<or> mt_variant t \<noteq> variant \<or> mt_status t \<noteq> TariffSynced
      then Err ''tariff_inactive''
      else if (case validate_tariff uuid_simple t (ds_slug service) of
                 Err _ \<Rightarrow> True | Ok validated \<Rightarrow> mt_components validated \<noteq> mt_components t)
      then Err ''invalid_tariff''
      else and_then (for_each (check_rate rates now ttl) (mt_components t)) (\<lambda>_.
        Ok (SelectedTariff t))))))))"

end
