(* ===== verification/Route_Context.thy ===== *)
theory Route_Context
  imports Model_Tariff
begin

text \<open>
  What a metered request is charged for (\<open>services/billing/route_context.rs\<close> with the metric codes
  and quantities of \<open>services/billing/meter.rs\<close>): the credential class picks a lane, the lane's
  synced prices replace the legacy metric, an operation or a model tariff replaces those, and a
  quantity is estimated for the reservation.

  Parsing a request body is \<open>serde_json\<close>'s and an argument. The guest payer of an organization
  channel and the pool attempt of a retried call are carried by the code without being read here;
  the latter is kept as a flag.
\<close>

section \<open>Ingress, metric codes, quantities\<close>

datatype billing_ingress =
    LlmGateway | LlmProvider | ProxyIngress | Mcp | SshExec | SshTunnel | SshWebTerminal
  | ChannelInbound | ChannelOutbound

fun ingress_str :: "billing_ingress \<Rightarrow> string" where
  "ingress_str LlmGateway = ''llm_gateway''"
| "ingress_str LlmProvider = ''llm_provider''"
| "ingress_str ProxyIngress = ''proxy''"
| "ingress_str Mcp = ''mcp''"
| "ingress_str SshExec = ''ssh_exec''"
| "ingress_str SshTunnel = ''ssh_tunnel''"
| "ingress_str SshWebTerminal = ''ssh_web_terminal''"
| "ingress_str ChannelInbound = ''channel_inbound''"
| "ingress_str ChannelOutbound = ''channel_outbound''"

fun platform_metric_code :: "billing_metric \<Rightarrow> string" where
  "platform_metric_code Requests = ''platform_requests''"
| "platform_metric_code Bytes = ''platform_bytes''"
| "platform_metric_code Tokens = ''platform_tokens''"
| "platform_metric_code InputTokens = ''platform_input_tokens''"
| "platform_metric_code OutputTokens = ''platform_output_tokens''"
| "platform_metric_code CacheReadTokens = ''platform_cache_read_tokens''"
| "platform_metric_code CacheWriteTokens = ''platform_cache_write_tokens''"
| "platform_metric_code ReasoningTokens = ''platform_reasoning_tokens''"
| "platform_metric_code ImageInputTokens = ''platform_image_input_tokens''"
| "platform_metric_code ImageOutputTokens = ''platform_image_output_tokens''"
| "platform_metric_code AudioInputTokens = ''platform_audio_input_tokens''"
| "platform_metric_code AudioOutputTokens = ''platform_audio_output_tokens''"
| "platform_metric_code Images = ''platform_images''"
| "platform_metric_code VoiceSeconds = ''platform_voice_seconds''"
| "platform_metric_code MachineRunningSeconds = ''remote_machine_running_seconds''"
| "platform_metric_code SandboxCpuMillisSeconds = ''cma_sandbox_cpu_millis_seconds''"
| "platform_metric_code SandboxMemoryMibSeconds = ''cma_sandbox_memory_mib_seconds''"
| "platform_metric_code SandboxDiskGibSeconds = ''cma_sandbox_disk_gib_seconds''"

fun platform_quantity :: "billing_metric \<Rightarrow> platform_usage \<Rightarrow> int" where
  "platform_quantity Bytes u = max (pu_bytes u) 0"
| "platform_quantity Requests u = max (pu_requests u) 0"
| "platform_quantity Tokens u = max (pu_tokens u) 0"
| "platform_quantity InputTokens u = max (pu_input_tokens u) 0"
| "platform_quantity OutputTokens u = max (pu_output_tokens u) 0"
| "platform_quantity CacheReadTokens u = max (pu_cache_read_tokens u) 0"
| "platform_quantity CacheWriteTokens u = max (pu_cache_write_tokens u) 0"
| "platform_quantity Images u = max (pu_images u) 0"
| "platform_quantity VoiceSeconds u = max (pu_voice_seconds u) 0"
| "platform_quantity _ u = 0"

definition sat_i64 :: "int \<Rightarrow> int" where
  "sat_i64 x = (if x > i64_max then i64_max else if x < i64_min then i64_min else x)"

definition FALLBACK_BYTES_PER_TOKEN :: int where "FALLBACK_BYTES_PER_TOKEN = 4"

definition estimate_tokens_from_bytes :: "int \<Rightarrow> int" where
  "estimate_tokens_from_bytes total_bytes =
     (let bytes = max total_bytes 0;
          estimated = sat_i64 (bytes + (FALLBACK_BYTES_PER_TOKEN - 1)) div FALLBACK_BYTES_PER_TOKEN
      in max estimated 1)"

section \<open>The context\<close>

datatype node_intent = DirectRoute | NodeRoute | NodeWithFallback

record public_admission =
  pa_call_id :: string
  pa_model_id :: string
  pa_expires_at :: int

record managed_admission =
  ma_execution_id :: string
  ma_route_digest :: string
  ma_expires_at :: int

record route_context =
  rx_model_tariff :: "selected_tariff option"
  rx_ingress :: billing_ingress
  rx_pool_attempt :: bool
  rx_public_admission :: "public_admission option"
  rx_public_probe :: bool
  rx_managed_admission :: "managed_admission option"
  rx_managed_billing :: "service_billing option"
  rx_billing_request_id :: string
  rx_billing_owner_id :: string
  rx_actor_user_id :: string
  rx_api_key_id :: "string option"
  rx_assistant_source :: "string option"
  rx_user_service_id :: "string option"
  rx_catalog_service_id :: "string option"
  rx_service_slug :: "string option"
  rx_node_intent :: node_intent
  rx_auth_method :: string
  rx_credential_class :: credential_class
  rx_platform_metric :: billing_metric
  rx_platform_lago_metric_code :: string
  rx_operation :: "string option"
  rx_operation_prices :: "(string \<times> string) list"
  rx_resale :: "resale_spec option"
  rx_platform_components :: "resale_spec list"
  rx_capture_tokens :: bool
  rx_request_bytes :: int
  rx_native_text_bound :: "(int \<times> int \<times> int) option"
  rx_requested_images :: int
  rx_requested_voice_seconds :: int
  rx_voice_initial_window :: bool
  rx_service_platform_billable :: bool
  rx_lane_pricing_configured :: bool
  rx_platform_metered :: bool
  rx_platform_billable :: bool

record request_identity =
  ri_ingress :: billing_ingress
  ri_billing_request_id :: string
  ri_billing_owner_id :: string
  ri_actor_user_id :: string
  ri_api_key_id :: "string option"
  ri_user_service_id :: "string option"
  ri_catalog_service_id :: "string option"
  ri_service_slug :: "string option"
  ri_node_intent :: node_intent
  ri_auth_method :: string

text \<open>What the selection of a price yields: the five variables the constructor computes.\<close>

record priced =
  pr_billable :: bool
  pr_metric :: billing_metric
  pr_code :: string
  pr_components :: "resale_spec list"
  pr_operations :: "(string \<times> string) list"

definition lanes_configured :: "service_billing option \<Rightarrow> bool" where
  "lanes_configured billing \<longleftrightarrow> (case billing of None \<Rightarrow> False
     | Some b \<Rightarrow> sb_byok_pricing b \<noteq> None \<or> sb_platform_key_pricing b \<noteq> None)"

definition legacy_priced :: "billing_metric \<Rightarrow> service_billing option \<Rightarrow> priced" where
  "legacy_priced metric billing =
     \<lparr>pr_billable = (case billing of None \<Rightarrow> False | Some b \<Rightarrow> sb_platform_billable b),
      pr_metric = metric,
      pr_code = (case billing of None \<Rightarrow> platform_metric_code metric
                 | Some b \<Rightarrow> active_platform_metric_code b (platform_metric_code metric)),
      pr_components = [], pr_operations = []\<rparr>"

definition lane_priced :: "lane_pricing \<Rightarrow> priced" where
  "lane_priced lane =
     \<lparr>pr_billable = True, pr_metric = lp_metric lane, pr_code = lp_lago_metric_code lane,
      pr_components = map (\<lambda>c. \<lparr>rs_metric = lc_metric c, rs_lago_metric_code = lc_lago_metric_code c\<rparr>)
        (filter (\<lambda>c. lc_sync_status c = SyncSynced) (lp_components lane)),
      pr_operations = (if lp_metric lane = Requests
        then map (\<lambda>p. (op_operation p, op_lago_metric_code p))
               (filter (\<lambda>p. op_sync_status p = SyncSynced) (lp_operations lane))
        else [])\<rparr>"

definition select_price :: "credential_class \<Rightarrow> billing_metric \<Rightarrow> service_billing option \<Rightarrow> priced" where
  "select_price cls metric billing =
     (let legacy = legacy_priced metric billing;
          p = (case billing of None \<Rightarrow> legacy
             | Some b \<Rightarrow>
                 if lanes_configured billing
                 then (case Option.bind (for_credential cls) (\<lambda>lane. lane_pricing_of lane b) of
                     Some lane \<Rightarrow> if lp_sync_status lane = SyncSynced then lane_priced lane else legacy
                   | None \<Rightarrow> legacy\<lparr>pr_billable := False\<rparr>)
                 else legacy)
      in if (case billing of None \<Rightarrow> False | Some b \<Rightarrow> sb_nyxid_credentials_only b)
            \<and> cls \<noteq> NyxidManagedMaster \<and> cls \<noteq> NyxidPlatformOauthApp
         then p\<lparr>pr_billable := False\<rparr> else p)"

definition counts_tokens :: "billing_metric \<Rightarrow> bool" where
  "counts_tokens m \<longleftrightarrow> is_token_family m \<or> m = Images"

definition lane_counts_tokens :: "lane_pricing \<Rightarrow> bool" where
  "lane_counts_tokens lane \<longleftrightarrow> counts_tokens (lp_metric lane) \<or> list_ex (\<lambda>c. counts_tokens (lc_metric c)) (lp_components lane)"

definition context_new ::
  "request_identity \<Rightarrow> credential_class \<Rightarrow> billing_metric \<Rightarrow> service_billing option \<Rightarrow> bool \<Rightarrow> route_context"
where
  "context_new i cls metric billing resale_enabled =
     (let p = select_price cls metric billing in
      \<lparr>rx_model_tariff = None, rx_ingress = ri_ingress i, rx_pool_attempt = False,
       rx_public_admission = None, rx_public_probe = False, rx_managed_admission = None,
       rx_managed_billing = (case billing of None \<Rightarrow> None
         | Some b \<Rightarrow> if sb_managed_execution b \<noteq> None then Some b else None),
       rx_billing_request_id = ri_billing_request_id i, rx_billing_owner_id = ri_billing_owner_id i,
       rx_actor_user_id = ri_actor_user_id i, rx_api_key_id = ri_api_key_id i,
       rx_assistant_source = Some ''other'', rx_user_service_id = ri_user_service_id i,
       rx_catalog_service_id = ri_catalog_service_id i, rx_service_slug = ri_service_slug i,
       rx_node_intent = ri_node_intent i, rx_auth_method = ri_auth_method i,
       rx_credential_class = cls,
       rx_platform_metric = pr_metric p, rx_platform_lago_metric_code = pr_code p,
       rx_operation = None, rx_operation_prices = pr_operations p,
       rx_resale = (if resale_enabled \<and> cls = NyxidManagedMaster then Option.bind billing active_resale_spec else None),
       rx_platform_components = pr_components p,
       rx_capture_tokens = (counts_tokens (pr_metric p)
         \<or> (case billing of None \<Rightarrow> False
           | Some b \<Rightarrow> list_ex (\<lambda>lane. case lane of None \<Rightarrow> False | Some lane \<Rightarrow> lane_counts_tokens lane)
                        [sb_byok_pricing b, sb_platform_key_pricing b])),
       rx_request_bytes = 0, rx_native_text_bound = None, rx_requested_images = 1,
       rx_requested_voice_seconds = 0, rx_voice_initial_window = False,
       rx_service_platform_billable = pr_billable p, rx_lane_pricing_configured = lanes_configured billing,
       rx_platform_metered = False, rx_platform_billable = False\<rparr>)"

section \<open>Refining the context\<close>

definition with_assistant_provenance :: "route_context \<Rightarrow> bool \<Rightarrow> bool \<Rightarrow> bool \<Rightarrow> route_context" where
  "with_assistant_provenance x verified orchestration model_execution = x\<lparr>rx_assistant_source := Some
     (if orchestration then ''orchestration''
      else if verified then (if model_execution then ''model'' else ''tool'')
      else ''other'')\<rparr>"

fun tariff_lane_of :: "billing_lane \<Rightarrow> tariff_lane" where
  "tariff_lane_of Byok = ByokTariff"
| "tariff_lane_of PlatformKey = PlatformKeyTariff"

definition component_spec :: "tariff_component \<Rightarrow> resale_spec" where
  "component_spec c = \<lparr>rs_metric = tc_metric c, rs_lago_metric_code = tc_lago_metric_code c\<rparr>"

definition with_model_tariff :: "route_context \<Rightarrow> selected_tariff \<Rightarrow> app_error + route_context" where
  "with_model_tariff x s =
     (let t = selected s in
      if rx_catalog_service_id x \<noteq> Some (mt_service_id t) \<or> rx_resale x \<noteq> None \<or> rx_pool_attempt x
         \<or> rx_public_admission x \<noteq> None \<or> rx_managed_admission x \<noteq> None
         \<or> map_option tariff_lane_of (for_credential (rx_credential_class x)) \<noteq> Some (mt_lane t)
      then Err (unavailable ''incompatible_route'')
      else (case mt_components t of
          [] \<Rightarrow> Err (unavailable ''empty_tariff'')
        | c # cs \<Rightarrow> Ok (x\<lparr>
            rx_platform_metric := tc_metric c, rx_platform_lago_metric_code := tc_lago_metric_code c,
            rx_platform_components := map component_spec cs,
            rx_operation := None, rx_operation_prices := [],
            rx_capture_tokens := uc_tokens (mt_contract t),
            rx_service_platform_billable := tariff_paid s, rx_lane_pricing_configured := True,
            rx_platform_metered := True, rx_platform_billable := tariff_paid s,
            rx_model_tariff := Some s\<rparr>)))"

definition prices_operations :: "route_context \<Rightarrow> bool" where
  "prices_operations x \<longleftrightarrow> rx_operation_prices x \<noteq> []"

definition with_operation :: "route_context \<Rightarrow> string option \<Rightarrow> route_context" where
  "with_operation x operation = (case operation of None \<Rightarrow> x
     | Some operation \<Rightarrow> (case find (\<lambda>(key, _). key = operation) (rx_operation_prices x) of
          None \<Rightarrow> x
        | Some (key, code) \<Rightarrow> x\<lparr>rx_platform_lago_metric_code := code, rx_operation := Some key\<rparr>))"

definition require_platform_price :: "route_context \<Rightarrow> app_error + unit" where
  "require_platform_price x =
     (if rx_service_platform_billable x then Ok ()
      else (let slug = (case rx_service_slug x of None \<Rightarrow> ''unknown'' | Some s \<Rightarrow> s);
                lane = (case for_credential (rx_credential_class x) of
                    None \<Rightarrow> ''None (meter only)'' | Some l \<Rightarrow> lane_label l);
                traffic = (if rx_credential_class x = NyxidPlatformOauthApp
                  then '' used by shared-app channel traffic'' else []);
                cause = (if rx_lane_pricing_configured x
                  then ''has no synced price on the '' @ lane @ '' lane'' @ traffic
                       @ ''; configure a Requests price there''
                  else ''has no lane prices and legacy platform billing is disabled; enable legacy Requests billing or configure a synced Requests price on the ''
                       @ lane @ '' lane'' @ traffic)
            in Err (BillingNotConfigured (''The service ('' @ slug @ '') '' @ cause))))"

definition platform_specs :: "route_context \<Rightarrow> (billing_metric \<times> string) list" where
  "platform_specs x = (rx_platform_metric x, rx_platform_lago_metric_code x)
     # map (\<lambda>c. (rs_metric c, rs_lago_metric_code c)) (rx_platform_components x)"

definition with_request_body :: "(string \<Rightarrow> json option) \<Rightarrow> route_context \<Rightarrow> string option \<Rightarrow> route_context" where
  "with_request_body parse x body =
     x\<lparr>rx_request_bytes := (case body of None \<Rightarrow> 0 | Some b \<Rightarrow> min (int (length b)) i64_max),
       rx_requested_images :=
         (if list_ex (\<lambda>(metric, _). metric = Images) (platform_specs x)
          then max 1 (case Option.bind body (\<lambda>b. Option.bind (parse b) (\<lambda>v. Option.bind (jget v ''n'') as_i64)) of
              None \<Rightarrow> 1 | Some n \<Rightarrow> n)
          else 1)\<rparr>"

definition with_native_text_bound :: "route_context \<Rightarrow> int \<Rightarrow> int \<Rightarrow> int \<Rightarrow> route_context" where
  "with_native_text_bound x input out response_bytes =
     x\<lparr>rx_native_text_bound := Some (max input 1, max out 1, max response_bytes 1)\<rparr>"

definition has_native_text_bound :: "route_context \<Rightarrow> bool" where
  "has_native_text_bound x \<longleftrightarrow> rx_native_text_bound x \<noteq> None"

definition native_estimate :: "int \<Rightarrow> int \<times> int \<times> int \<Rightarrow> billing_metric \<Rightarrow> int" where
  "native_estimate request_bytes bound metric = (case bound of (input, out, response_bytes) \<Rightarrow>
     (case metric of
        Tokens \<Rightarrow> sat_i64 (input + out)
      | InputTokens \<Rightarrow> input | CacheReadTokens \<Rightarrow> input | CacheWriteTokens \<Rightarrow> input
      | OutputTokens \<Rightarrow> out
      | Requests \<Rightarrow> 1
      | Bytes \<Rightarrow> sat_i64 (request_bytes + response_bytes)
      | _ \<Rightarrow> 0))"

definition estimated_quantity :: "route_context \<Rightarrow> billing_metric \<Rightarrow> int" where
  "estimated_quantity x metric = (case rx_native_text_bound x of
     Some bound \<Rightarrow> native_estimate (rx_request_bytes x) bound metric
   | None \<Rightarrow>
       if rx_requested_voice_seconds x > 0
       then (case metric of
           VoiceSeconds \<Rightarrow> rx_requested_voice_seconds x
         | Requests \<Rightarrow> (if rx_voice_initial_window x then 1 else 0)
         | _ \<Rightarrow> 0)
       else (case metric of
           Tokens \<Rightarrow> estimate_tokens_from_bytes (rx_request_bytes x)
         | InputTokens \<Rightarrow> estimate_tokens_from_bytes (rx_request_bytes x)
         | OutputTokens \<Rightarrow> estimate_tokens_from_bytes (rx_request_bytes x)
         | Images \<Rightarrow> rx_requested_images x
         | VoiceSeconds \<Rightarrow> max (rx_requested_voice_seconds x) 0
         | CacheReadTokens \<Rightarrow> 1 | CacheWriteTokens \<Rightarrow> 1 | Requests \<Rightarrow> 1 | Bytes \<Rightarrow> 1
         | _ \<Rightarrow> 0))"

definition with_platform_metering :: "route_context \<Rightarrow> bool \<Rightarrow> route_context" where
  "with_platform_metering x billable = x\<lparr>rx_platform_metered := True, rx_platform_billable := billable\<rparr>"

definition has_billable_layers :: "route_context \<Rightarrow> bool" where
  "has_billable_layers x \<longleftrightarrow> rx_platform_billable x \<or> rx_resale x \<noteq> None"

definition is_metered :: "route_context \<Rightarrow> bool" where
  "is_metered x \<longleftrightarrow> rx_platform_metered x \<or> rx_resale x \<noteq> None"

end
