(* ===== verification/Settlement_Rows.thy ===== *)
theory Settlement_Rows
  imports Route_Context
begin

text \<open>
  The platform rows of a request (\<open>services/billing/meter.rs\<close>): the rows \<open>open\<close> inserts, the check of
  a model tariff's charges before the settlement intent is persisted, and, when the intent is
  materialized into the forwarded rows, the check of those rows and the quantity each row is finalized
  with. Of a row the metric, the code, the operation and the binding to a model tariff are kept; the
  inserts and updates themselves are the database's and not modelled here.
\<close>

section \<open>Rows\<close>

record model_meter_binding =
  mb_tariff_id :: string
  mb_public_model :: string
  mb_max_quantity :: int

record meter_row =
  me_metric :: billing_metric
  me_lago_metric_code :: string
  me_operation :: "string option"
  me_model_tariff :: "model_meter_binding option"

definition reserved_row :: "route_context \<Rightarrow> billing_metric \<times> string \<Rightarrow> meter_row" where
  "reserved_row x = (\<lambda>(metric, code).
     \<lparr>me_metric = metric, me_lago_metric_code = code,
      me_operation = (if code = rx_platform_lago_metric_code x then rx_operation x else None),
      me_model_tariff = Option.bind (rx_model_tariff x) (\<lambda>s.
        map_option (\<lambda>c. \<lparr>mb_tariff_id = mt_id (selected s), mb_public_model = mt_public_model (selected s),
            mb_max_quantity = tc_max_quantity c\<rparr>)
          (find (\<lambda>c. tc_lago_metric_code c = code) (mt_components (selected s))))\<rparr>)"

definition opened_rows :: "route_context \<Rightarrow> meter_row list" where
  "opened_rows x = (if rx_platform_metered x then map (reserved_row x) (platform_specs x) else [])"

section \<open>The intent\<close>

definition charges_fit :: "tariff_component list \<Rightarrow> (string, int) btree_map \<Rightarrow> bool" where
  "charges_fit components quantities \<longleftrightarrow> \<not> list_ex (\<lambda>c. case btm_get quantities (tc_lago_metric_code c) of
     None \<Rightarrow> True | Some n \<Rightarrow> n < 0 \<or> n > tc_max_quantity c) components"

definition settlement_check :: "selected_tariff option \<Rightarrow> platform_usage \<Rightarrow> app_error + unit" where
  "settlement_check model_tariff platform = (case model_tariff of
     Some s \<Rightarrow>
       and_then (ok_or (pu_model_charges platform) (unavailable ''missing_usage_evidence'')) (\<lambda>vector.
       and_then (tariff_usage s (cv_native_usage vector)) (\<lambda>again.
       if pu_model_charges again \<noteq> Some vector then Err (unavailable ''invalid_normalized_usage'')
       else if cv_tariff_id vector \<noteq> mt_id (selected s)
          \<or> cv_public_model vector \<noteq> mt_public_model (selected s)
          \<or> length (cv_quantities vector) \<noteq> length (mt_components (selected s))
          \<or> \<not> charges_fit (mt_components (selected s)) (cv_quantities vector)
          \<or> pu_reported_model platform \<noteq> None
       then Err (unavailable ''invalid_usage_evidence'')
       else Ok ()))
   | None \<Rightarrow> if pu_model_charges platform \<noteq> None then Err (unavailable ''unexpected_model_usage'') else Ok ())"

section \<open>Materialized rows\<close>

definition row_mismatch :: "charge_vector_doc \<Rightarrow> meter_row \<Rightarrow> bool" where
  "row_mismatch vector row \<longleftrightarrow> (case me_model_tariff row of
     None \<Rightarrow> True
   | Some t \<Rightarrow> mb_tariff_id t \<noteq> cv_tariff_id vector
       \<or> mb_public_model t \<noteq> cv_public_model vector
       \<or> (case btm_get (cv_quantities vector) (me_lago_metric_code row) of
            None \<Rightarrow> True | Some n \<Rightarrow> n < 0 \<or> n > mb_max_quantity t))"

definition rows_check :: "platform_usage \<Rightarrow> meter_row list \<Rightarrow> app_error + unit" where
  "rows_check usage rows = (case pu_model_charges usage of
     Some vector \<Rightarrow>
       if length rows \<noteq> length (cv_quantities vector) \<or> list_ex (row_mismatch vector) rows
       then Err (unavailable ''durable_usage_identity_mismatch'') else Ok ()
   | None \<Rightarrow>
       if list_ex (\<lambda>row. me_model_tariff row \<noteq> None) rows
       then Err (unavailable ''missing_durable_usage'') else Ok ())"

text \<open>Indexing a map without the key panics; here that is \<open>None\<close>.\<close>

definition row_quantity :: "platform_usage \<Rightarrow> meter_row \<Rightarrow> int option" where
  "row_quantity usage row = (case pu_model_charges usage of
     Some vector \<Rightarrow> btm_get (cv_quantities vector) (me_lago_metric_code row)
   | None \<Rightarrow> Some (platform_quantity (me_metric row) usage))"

end
