(* ===== verification/Model_Usage_Properties.thy ===== *)
theory Model_Usage_Properties
  imports Model_Usage
begin

text \<open>
  What the normalization of a usage report guarantees: the priced quantities are a partition of
  the provider's own totals over exactly the selectors of the contract.
\<close>

section \<open>Accumulating disjoint quantities\<close>

definition total_of :: "quantity_map \<Rightarrow> int" where
  "total_of v = sum_list (map snd v)"

text \<open>\<open>holds v n K\<close>: the quantities \<open>v\<close> are non-negative, add up to \<open>n\<close>, and have the keys \<open>K\<close>.\<close>

definition holds :: "quantity_map \<Rightarrow> int \<Rightarrow> selector set \<Rightarrow> bool" where
  "holds v n K \<longleftrightarrow> btm_wf v \<and> total_of v = n \<and> fst ` set v = K \<and> (\<forall>(k, q)\<in>set v. 0 \<le> q)"

lemma total_insert: "k \<notin> fst ` set v \<Longrightarrow> total_of (btm_insert k q v) = total_of v + q"
  by (induction k q v rule: btm_insert.induct) (auto simp: total_of_def)

lemma set_insert_subset: "set (btm_insert k q v) \<subseteq> insert (k, q) (set v)"
  by (induction k q v rule: btm_insert.induct) auto

lemma holds_Nil [simp]: "holds [] 0 {}"
  by (simp add: holds_def total_of_def)

lemma holds_insert:
  "holds v n K \<Longrightarrow> k \<notin> K \<Longrightarrow> 0 \<le> q \<Longrightarrow> holds (btm_insert k q v) (n + q) (insert k K)"
  using set_insert_subset [of k q v] by (auto simp: holds_def total_insert)

lemma holds_cong: "holds v n K \<Longrightarrow> n = n' \<Longrightarrow> K = K' \<Longrightarrow> holds v n' K'"
  by simp

lemma holds_le: "holds v n K \<Longrightarrow> (k, q) \<in> set v \<Longrightarrow> 0 \<le> q \<and> q \<le> n"
proof -
  assume h: "holds v n K" and m: "(k, q) \<in> set v"
  have "\<forall>x\<in>set (map snd v). 0 \<le> x" and s: "n = sum_list (map snd v)"
    using h by (auto simp: holds_def total_of_def)
  moreover have "q \<in> set (map snd v)" using m by force
  ultimately show ?thesis using member_le_sum_list [of q "map snd v"] by (auto simp del: set_map)
qed

section \<open>The operations of the normalization\<close>

lemma usage_add_Ok_iff [simp]: "usage_add a b = Ok n \<longleftrightarrow> n = a + b \<and> i64_min \<le> n \<and> n \<le> i64_max"
  by (auto simp: usage_add_def ok_or_Ok_iff checked_Some_iff)

lemma usage_sub_Ok_iff [simp]:
  "usage_sub a b = Ok n \<longleftrightarrow> n = a - b \<and> 0 \<le> n \<and> n \<le> i64_max"
  by (auto simp: usage_sub_def checked_i64_def i64_min_def split: option.splits if_splits)

lemma usage_count_Ok_iff [simp]: "usage_count n = Ok q \<longleftrightarrow> n = Some q \<and> 0 \<le> q"
  by (auto simp: usage_count_def split: option.splits)

lemma applicable_Ok_iff [simp]:
  "applicable n b = Ok q \<longleftrightarrow> (if b then n = Some q \<and> 0 \<le> q else q = 0 \<and> (n = None \<or> n = Some 0))"
  by (auto simp: applicable_def)

lemma writes_loop_holds:
  "writes_loop e ttls w v = Ok (w', v') \<Longrightarrow> holds v n K \<Longrightarrow> distinct ttls
   \<Longrightarrow> \<forall>ttl\<in>set ttls. SCacheWrite ttl \<notin> K
   \<Longrightarrow> holds v' (n + w' - w) (K \<union> SCacheWrite ` set ttls)"
proof (induction e ttls w v arbitrary: n K rule: writes_loop.induct)
  case (2 e ttl ttls w v)
  from "2.prems"(1) obtain q where q: "btm_get (ev_writes e) ttl = Some q" "0 \<le> q"
    and r: "writes_loop e ttls (w + q) (btm_insert (SCacheWrite ttl) q v) = Ok (w', v')"
    by (auto simp: and_then_Ok_iff)
  have "holds (btm_insert (SCacheWrite ttl) q v) (n + q) (insert (SCacheWrite ttl) K)"
    using "2.prems" q by (auto intro: holds_insert)
  then have "holds v' (n + q + w' - (w + q)) (insert (SCacheWrite ttl) K \<union> SCacheWrite ` set ttls)"
    using "2.prems" by (intro "2.IH" [OF r]) auto
  then show ?case by (rule holds_cong) auto
qed simp

definition modal_keys :: "usage_contract \<Rightarrow> modality \<Rightarrow> selector set" where
  "modal_keys c m = (if m \<in> set (uc_input_modalities c)
     then {input_selector m} \<union> (if uc_cache_read c then {SCachedModality m} else {}) else {})"

lemma input_step_holds:
  assumes "input_step c input read m n i (ordinary, cache, im, cm, v) = Ok (ordinary', cache', im', cm', v')"
    and v: "holds v s K" "input_selector m \<notin> K" "SCachedModality m \<notin> K" "0 \<le> ordinary" "0 \<le> cache"
  shows "holds v' (s + (ordinary + cache) - (ordinary' + cache'))
           (K \<union> modal_keys c m)
         \<and> 0 \<le> ordinary' \<and> 0 \<le> cache' \<and> (\<not> uc_cache_read c \<longrightarrow> cache' = cache)"
proof (cases "m \<in> set (uc_input_modalities c)")
  case True
  have d: "SCachedModality m \<noteq> input_selector m" by (cases m) auto
  obtain a k where "n = Some a" "0 \<le> k" "k \<le> a" "uc_cache_read c \<or> k = 0"
    and eqs: "ordinary' = ordinary - (a - k)" "cache' = cache - k" "0 \<le> ordinary'" "0 \<le> cache'"
      "v' = (if uc_cache_read c then btm_insert (SCachedModality m) k (btm_insert (input_selector m) (a - k) v)
             else btm_insert (input_selector m) (a - k) v)"
    using assms(1) True
    by (auto simp: input_step_def and_then_Ok_iff Let_def split: if_splits)
  have one: "holds (btm_insert (input_selector m) (a - k) v) (s + (a - k)) (insert (input_selector m) K)"
    using assms(2,3) \<open>k \<le> a\<close> by (simp add: holds_insert)
  then have "holds (btm_insert (SCachedModality m) k (btm_insert (input_selector m) (a - k) v)) (s + a)
      (insert (SCachedModality m) (insert (input_selector m) K))"
    using holds_insert [OF one, of "SCachedModality m" k] assms(4) d \<open>0 \<le> k\<close> by simp
  then have "holds v' (s + (if uc_cache_read c then a else a - k))
      (if uc_cache_read c then insert (SCachedModality m) (insert (input_selector m) K) else insert (input_selector m) K)"
    using one eqs(5) by simp
  then have "holds v' (s + (ordinary + cache) - (ordinary' + cache'))
           (K \<union> modal_keys c m)"
    by (rule holds_cong) (use eqs \<open>uc_cache_read c \<or> k = 0\<close> True in \<open>auto simp: modal_keys_def\<close>)
  then show ?thesis using eqs(2-4) \<open>uc_cache_read c \<or> k = 0\<close> by auto
next
  case False
  then show ?thesis using assms by (auto simp: input_step_def modal_keys_def split: if_splits)
qed

lemma output_step_holds:
  assumes "output_step c total_output reasoning m n (ordinary, v) = Ok (ordinary', v')"
    and "holds v s K" "output_selector m \<notin> K" "0 \<le> ordinary"
  shows "holds v' (s + ordinary - ordinary')
           (K \<union> (if m \<in> set (uc_output_modalities c) then {output_selector m} else {})) \<and> 0 \<le> ordinary'"
proof (cases "m \<in> set (uc_output_modalities c)")
  case True
  then obtain a where "0 \<le> a" "ordinary' = ordinary - a" "0 \<le> ordinary'" "v' = btm_insert (output_selector m) a v"
    using assms(1) by (auto simp: output_step_def and_then_Ok_iff split: if_splits)
  then show ?thesis using holds_insert [OF assms(2,3), of a] True by simp
next
  case False
  then show ?thesis using assms by (auto simp: output_step_def split: if_splits)
qed

text \<open>The selectors of a contract's input and output side.\<close>

definition input_keys :: "usage_contract \<Rightarrow> selector set" where
  "input_keys c = {SInput} \<union> (if uc_cache_read c then {SCacheRead} else {})
     \<union> input_selector ` set (uc_input_modalities c)
     \<union> (if uc_cache_read c then SCachedModality ` set (uc_input_modalities c) else {})"

definition output_keys :: "usage_contract \<Rightarrow> selector set" where
  "output_keys c = {SOutput} \<union> (if uc_split_reasoning c then {SReasoning} else {})
     \<union> output_selector ` set (uc_output_modalities c)"

lemma image_modality:
  "f ` set ms = (if ImageModality \<in> set ms then {f ImageModality} else {})
     \<union> (if AudioModality \<in> set ms then {f AudioModality} else {})"
proof -
  have x: "x = ImageModality \<or> x = AudioModality" for x :: modality by (cases x) auto
  show ?thesis
  proof (intro set_eqI iffI)
    fix y assume "y \<in> f ` set ms"
    then obtain m where "y = f m" "m \<in> set ms" by auto
    then show "y \<in> (if ImageModality \<in> set ms then {f ImageModality} else {})
                 \<union> (if AudioModality \<in> set ms then {f AudioModality} else {})"
      using x [of m] by auto
  qed (auto split: if_splits)
qed

lemma range_output_selector: "range output_selector = {SImageOutput, SAudioOutput}"
proof -
  have "output_selector m \<in> {SImageOutput, SAudioOutput}" for m by (cases m) auto
  then show ?thesis by (auto intro: output_selector.simps [symmetric] range_eqI)
qed

lemma normalize_input_holds:
  assumes ok: "normalize_input c e input read write tool v = Ok v'"
    and v: "holds v s (SCacheWrite ` T)" and nn: "0 \<le> input" "0 \<le> read" "0 \<le> tool"
    and no_read: "\<not> uc_cache_read c \<longrightarrow> read = 0"
  shows "holds v' (s + read + (if uc_family c = Claude then input else input - read - write)
                     + (if uc_bill_tool_input c then tool else 0)) (SCacheWrite ` T \<union> input_keys c)"
proof -
  obtain o1 o2 k2 a2 b2 v2 o3 k3 a3 b3 v3
    where o1: "o1 = (if uc_family c = Claude then input else input - read - write)
                     + (if uc_bill_tool_input c then tool else 0)" "0 \<le> o1"
      and img: "input_step c input read ImageModality (ev_input_image e) (ev_cached_image e)
                  (o1, read, 0, 0, v) = Ok (o2, k2, a2, b2, v2)"
      and aud: "input_step c input read AudioModality (ev_input_audio e) (ev_cached_audio e)
                  (o2, k2, a2, b2, v2) = Ok (o3, k3, a3, b3, v3)"
      and res: "v' = (if uc_cache_read c then btm_insert SCacheRead k3 (btm_insert SInput o3 v3)
                      else btm_insert SInput o3 v3)"
    using ok nn
    by (auto simp: normalize_input_def and_then_Ok_iff Let_def split: if_splits)
  have s1: "holds v2 (s + (o1 + read) - (o2 + k2)) (SCacheWrite ` T \<union> modal_keys c ImageModality)
      \<and> 0 \<le> o2 \<and> 0 \<le> k2 \<and> (\<not> uc_cache_read c \<longrightarrow> k2 = read)"
    by (rule input_step_holds [OF img v _ _ o1(2) nn(2)]) auto
  moreover have "SAudioInput \<notin> SCacheWrite ` T \<union> modal_keys c ImageModality"
      "SCachedModality AudioModality \<notin> SCacheWrite ` T \<union> modal_keys c ImageModality"
    by (auto simp: modal_keys_def)
  ultimately have "holds v3 (s + (o1 + read) - (o2 + k2) + (o2 + k2) - (o3 + k3))
      ((SCacheWrite ` T \<union> modal_keys c ImageModality) \<union> modal_keys c AudioModality)
      \<and> 0 \<le> o3 \<and> 0 \<le> k3 \<and> (\<not> uc_cache_read c \<longrightarrow> k3 = k2)"
    by (intro input_step_holds [OF aud]) auto
  moreover have "input_keys c - {SInput, SCacheRead} = modal_keys c ImageModality \<union> modal_keys c AudioModality"
    by (auto simp: input_keys_def modal_keys_def image_modality split: if_splits)
  ultimately have s2: "holds v3 (s + (o1 + read) - (o3 + k3)) (SCacheWrite ` T \<union> (input_keys c - {SInput, SCacheRead}))
      \<and> 0 \<le> o3 \<and> 0 \<le> k3 \<and> (\<not> uc_cache_read c \<longrightarrow> k3 = read)"
    using s1 by (simp add: Un_assoc)
  let ?K = "SCacheWrite ` T \<union> (input_keys c - {SInput, SCacheRead})"
  have "holds (btm_insert SInput o3 v3) (s + (o1 + read) - (o3 + k3) + o3) (insert SInput ?K)"
    using s2 by (intro holds_insert) auto
  then have ins: "holds (btm_insert SInput o3 v3) (s + (o1 + read) - k3) (insert SInput ?K)"
    by (rule holds_cong) simp_all
  then have "holds (btm_insert SCacheRead k3 (btm_insert SInput o3 v3)) (s + (o1 + read) - k3 + k3)
      (insert SCacheRead (insert SInput ?K))"
    using s2 by (intro holds_insert) auto
  then have "holds v' (s + (o1 + read))
      ((if uc_cache_read c then {SCacheRead} else {}) \<union> {SInput} \<union> (SCacheWrite ` T \<union> (input_keys c - {SInput, SCacheRead})))"
    using ins res s2 no_read by (cases "uc_cache_read c") (simp_all add: insert_commute)
  then show ?thesis by (rule holds_cong) (auto simp: o1(1) input_keys_def image_modality split: if_splits)
qed

lemma normalize_output_holds:
  assumes ok: "normalize_output c e total_output reasoning v = Ok v'"
    and v: "holds v s K" and K: "K \<inter> ({SOutput, SReasoning} \<union> range output_selector) = {}"
    and nn: "0 \<le> total_output" "uc_split_reasoning c \<longrightarrow> 0 \<le> reasoning"
  shows "holds v' (s + total_output) (K \<union> output_keys c)"
proof -
  let ?r = "if uc_split_reasoning c then reasoning else 0"
  let ?v1 = "if uc_split_reasoning c then btm_insert SReasoning reasoning v else v"
  let ?m = "\<lambda>m. if m \<in> set (uc_output_modalities c) then {output_selector m} else {}"
  let ?K1 = "K \<union> (if uc_split_reasoning c then {SReasoning} else {})"
  obtain o2 v2 o3 v3
    where o1: "0 \<le> total_output - ?r"
      and img: "output_step c total_output reasoning ImageModality (ev_output_image e) (total_output - ?r, ?v1) = Ok (o2, v2)"
      and aud: "output_step c total_output reasoning AudioModality (ev_output_audio e) (o2, v2) = Ok (o3, v3)"
      and res: "v' = btm_insert SOutput o3 v3"
    using ok nn by (auto simp: normalize_output_def and_then_Ok_iff Let_def split: if_splits)
  have K': "SOutput \<notin> K" "SReasoning \<notin> K" "output_selector m \<notin> K"
    "SImageOutput \<notin> K" "SAudioOutput \<notin> K" for m
    using K range_output_selector by blast+
  have out: "output_selector m \<noteq> SReasoning" "output_selector m \<noteq> SOutput" for m by (cases m; simp)+
  have "holds ?v1 (s + ?r) ?K1" using v K'(2) nn(2) holds_insert [OF v, of SReasoning reasoning] by auto
  then have "holds v2 (s + ?r + (total_output - ?r) - o2) (?K1 \<union> ?m ImageModality) \<and> 0 \<le> o2"
    using K' out o1 by (intro output_step_holds [OF img]) (auto simp: out(1) split: if_splits)
  moreover from this have "holds v3 (s + ?r + (total_output - ?r) - o2 + o2 - o3) ((?K1 \<union> ?m ImageModality) \<union> ?m AudioModality) \<and> 0 \<le> o3"
    using K' out by (intro output_step_holds [OF aud]) (auto split: if_splits)
  moreover have "SOutput \<notin> (?K1 \<union> ?m ImageModality) \<union> ?m AudioModality" using K' by auto
  ultimately have "holds v' (s + ?r + (total_output - ?r) - o2 + o2 - o3 + o3)
      (insert SOutput ((?K1 \<union> ?m ImageModality) \<union> ?m AudioModality))"
    unfolding res by (intro holds_insert) auto
  then show ?thesis by (rule holds_cong) (auto simp: output_keys_def image_modality split: if_splits)
qed

section \<open>Every token is billed exactly once\<close>

text \<open>
  What the provider says it served: Claude reports cached input beside the input, Gemini reports
  thoughts beside the output, and tool input counts where the contract bills it.
\<close>

definition native_in :: "usage_contract \<Rightarrow> evidence \<Rightarrow> int" where
  "native_in c e = unwrap0 (ev_input e)
     + (if uc_family c = Claude then unwrap0 (ev_cache_read e) + unwrap0 (ev_cache_write e) else 0)"

definition native_out :: "usage_contract \<Rightarrow> evidence \<Rightarrow> int" where
  "native_out c e = unwrap0 (ev_output e) + (if uc_family c = Gemini then unwrap0 (ev_reasoning e) else 0)"

definition native_tokens :: "usage_contract \<Rightarrow> evidence \<Rightarrow> int" where
  "native_tokens c e = native_in c e + native_out c e
     + (if uc_bill_tool_input c then unwrap0 (ev_tool_input e) else 0)"

lemma unwrap0_simps [simp]: "unwrap0 (Some n) = n" "unwrap0 None = 0"
  by (simp_all add: unwrap0_def)

lemma applicable_unwrap: "applicable n b = Ok q \<Longrightarrow> unwrap0 n = q" "applicable n b = Ok q \<Longrightarrow> 0 \<le> q"
  by (auto split: if_splits)

lemma applicable_off: "applicable n False = Ok q \<Longrightarrow> q = 0"
  by simp

lemma nonneg_reasoning: "\<not> negative_evidence e \<Longrightarrow> 0 \<le> unwrap0 (ev_reasoning e)"
  by (cases "ev_reasoning e") (simp_all add: negative_evidence_def)

lemma normalize_tokens_parts:
  assumes ok: "normalize_tokens c e = Ok v" and d: "distinct (uc_cache_write_ttls c)"
    and nonneg: "\<not> negative_evidence e"
  shows "\<exists>v2 reasoning. holds v2 (native_in c e + (if uc_bill_tool_input c then unwrap0 (ev_tool_input e) else 0))
            (SCacheWrite ` set (uc_cache_write_ttls c) \<union> input_keys c)
      \<and> normalize_output c e (native_out c e) reasoning v2 = Ok v \<and> 0 \<le> native_out c e \<and> 0 \<le> reasoning"
proof -
  let ?W = "SCacheWrite ` set (uc_cache_write_ttls c)"
  obtain input out read wrote v1 v2 reasoning tool total_output
    where counts: "ev_input e = Some input" "ev_output e = Some out" "0 \<le> input" "0 \<le> out"
      "applicable (ev_cache_read e) (uc_cache_read c) = Ok read"
      "applicable (ev_cache_write e) (uc_cache_write_ttls c \<noteq> []) = Ok wrote"
      "applicable (ev_tool_input e) (uc_family c = Gemini) = Ok tool"
      "(if uc_family c = Gemini \<or> uc_split_reasoning c then usage_count (ev_reasoning e)
        else Ok (unwrap0 (ev_reasoning e))) = Ok reasoning"
    and loop: "writes_loop e (uc_cache_write_ttls c) 0 [] = Ok (wrote, v1)"
    and outp: "native_output (uc_family c) out reasoning = Ok total_output"
    and parts: "normalize_input c e input read wrote tool v1 = Ok v2"
      "normalize_output c e total_output reasoning v2 = Ok v"
    using ok unfolding normalize_tokens_def
    by (elim and_then_OkE guard_OkE case_prod_OkE) (simp only: usage_count_Ok_iff, blast)
  have facts: "unwrap0 (ev_cache_read e) = read" "0 \<le> read" "unwrap0 (ev_cache_write e) = wrote"
    "unwrap0 (ev_tool_input e) = tool" "0 \<le> tool"
    using counts(5-7) by (blast intro: applicable_unwrap)+
  have off: "\<not> uc_cache_read c \<longrightarrow> read = 0"
    using counts(5) applicable_off by metis
  have r: "unwrap0 (ev_reasoning e) = reasoning" "0 \<le> reasoning"
    using counts(8) nonneg_reasoning [OF nonneg] by (auto split: if_splits)
  have w: "holds v1 wrote ?W"
    using writes_loop_holds [OF loop holds_Nil d] by simp
  have "holds v2 (wrote + read + (if uc_family c = Claude then input else input - read - wrote)
      + (if uc_bill_tool_input c then tool else 0)) (?W \<union> input_keys c)"
    by (rule normalize_input_holds [OF parts(1) w counts(3) facts(2,5) off])
  then have "holds v2 (native_in c e + (if uc_bill_tool_input c then unwrap0 (ev_tool_input e) else 0)) (?W \<union> input_keys c)"
    unfolding native_in_def counts(1) facts(1,3,4) unwrap0_simps by (rule holds_cong) auto
  moreover have "total_output = native_out c e"
    using outp unfolding native_out_def counts(2) r(1) unwrap0_simps by (auto simp: native_output_def split: if_splits)
  moreover have "0 \<le> native_out c e"
    using counts(4) r(2) unfolding native_out_def counts(2) r(1) unwrap0_simps by simp
  ultimately show ?thesis using parts(2) r(2) by blast
qed

lemma normalize_tokens_holds:
  assumes ok: "normalize_tokens c e = Ok v" and d: "distinct (uc_cache_write_ttls c)"
    and nonneg: "\<not> negative_evidence e"
  shows "holds v (native_tokens c e) (SCacheWrite ` set (uc_cache_write_ttls c) \<union> input_keys c \<union> output_keys c)"
proof -
  let ?K = "SCacheWrite ` set (uc_cache_write_ttls c) \<union> input_keys c"
  obtain v2 reasoning
    where v2: "holds v2 (native_in c e + (if uc_bill_tool_input c then unwrap0 (ev_tool_input e) else 0)) ?K"
      "normalize_output c e (native_out c e) reasoning v2 = Ok v" "0 \<le> native_out c e" "0 \<le> reasoning"
    using normalize_tokens_parts [OF assms] by blast
  have "?K \<inter> ({SOutput, SReasoning} \<union> range output_selector) = {}"
    by (auto simp: input_keys_def image_modality range_output_selector)
  with v2 have "holds v (native_in c e + (if uc_bill_tool_input c then unwrap0 (ev_tool_input e) else 0) + native_out c e)
      (?K \<union> output_keys c)"
    by (intro normalize_output_holds [OF v2(2,1)]) simp_all
  then show ?thesis by (rule holds_cong) (simp_all add: native_tokens_def)
qed

lemma normalize_tokens_total:
  assumes ok: "normalize_tokens c e = Ok v" and nonneg: "\<not> negative_evidence e"
  shows "ev_total e \<in> {None, Some (native_tokens c e + (if uc_bill_tool_input c then 0 else unwrap0 (ev_tool_input e)))}"
proof -
  obtain input out read wrote tool reasoning total_input total_output
    where counts: "ev_input e = Some input" "ev_output e = Some out"
      "applicable (ev_cache_read e) (uc_cache_read c) = Ok read"
      "applicable (ev_cache_write e) (uc_cache_write_ttls c \<noteq> []) = Ok wrote"
      "applicable (ev_tool_input e) (uc_family c = Gemini) = Ok tool"
      "(if uc_family c = Gemini \<or> uc_split_reasoning c then usage_count (ev_reasoning e)
        else Ok (unwrap0 (ev_reasoning e))) = Ok reasoning"
    and natives: "native_input (uc_family c) input read wrote = Ok total_input"
      "native_output (uc_family c) out reasoning = Ok total_output"
    and check: "(case ev_total e of None \<Rightarrow> Ok False
               | Some reported \<Rightarrow> and_then (and_then (usage_add total_input total_output) (\<lambda>n. usage_add n tool))
                                  (\<lambda>n. Ok (reported \<noteq> n))) = Ok False"
    using ok unfolding normalize_tokens_def
    by (elim and_then_OkE guard_OkE case_prod_OkE) (simp only: usage_count_Ok_iff)
  have facts: "unwrap0 (ev_cache_read e) = read" "unwrap0 (ev_cache_write e) = wrote" "unwrap0 (ev_tool_input e) = tool"
    using counts(3-5) by (blast intro: applicable_unwrap)+
  have r: "unwrap0 (ev_reasoning e) = reasoning"
    using counts(6) by (auto split: if_splits)
  have "native_tokens c e + (if uc_bill_tool_input c then 0 else unwrap0 (ev_tool_input e)) = total_input + total_output + tool"
    using natives unfolding native_tokens_def native_in_def native_out_def counts(1,2) facts r unwrap0_simps
    by (auto simp: native_input_def native_output_def split: if_splits)
  then show ?thesis using check by (auto split: option.splits)
qed

section \<open>No quantity exceeds its side's total\<close>

lemma total_sum: "btm_wf v \<Longrightarrow> total_of v = (\<Sum>k\<in>fst ` set v. unwrap0 (btm_get v k))"
proof -
  assume wf: "btm_wf v"
  have "map snd v = map (\<lambda>k. unwrap0 (btm_get v k)) (map fst v)"
    by (auto simp: unwrap0_def btm_get_iff [OF wf, THEN iffD2])
  then have "total_of v = sum_list (map (\<lambda>k. unwrap0 (btm_get v k)) (map fst v))"
    by (simp add: total_of_def del: map_map)
  also have "\<dots> = (\<Sum>k\<in>set (map fst v). unwrap0 (btm_get v k))"
    by (rule sum_list_distinct_conv_sum_set [OF btm_wf_distinct [OF wf]])
  finally show ?thesis by simp
qed

definition output_side :: "selector set" where
  "output_side = {SOutput, SReasoning, SImageOutput, SAudioOutput}"

lemma output_step_frame:
  "output_step c total_output reasoning m n (ordinary, v) = Ok (ordinary', v') \<Longrightarrow> k \<notin> output_side
   \<Longrightarrow> btm_get v' k = btm_get v k"
  by (cases m) (auto simp: output_step_def output_side_def split: if_splits)

lemma normalize_output_frame:
  assumes "normalize_output c e total_output reasoning v = Ok v'" "k \<notin> output_side"
  shows "btm_get v' k = btm_get v k"
  using assms unfolding normalize_output_def Let_def
  by (elim and_then_OkE case_prod_OkE) (auto dest!: output_step_frame [OF _ assms(2)] simp: output_side_def split: if_splits)

lemma holds_frame_le:
  assumes v: "holds v (n + m) K" and v2: "holds v2 n K2" and K: "K = K2 \<union> X" "K2 \<inter> X = {}"
    and frame: "\<And>k. k \<in> K2 \<Longrightarrow> btm_get v k = btm_get v2 k" and kq: "(k, q) \<in> set v"
  shows "q \<le> (if k \<in> X then m else n)"
proof -
  have wf: "btm_wf v" "btm_wf v2" and keys: "fst ` set v = K" "fst ` set v2 = K2" using v v2 by (auto simp: holds_def)
  have fin: "finite K2" "finite X" using keys K(1) by (metis List.finite_set finite_Un finite_imageI)+
  have get: "btm_get v k = Some q" using kq wf(1) by (simp add: btm_get_iff)
  have nn: "0 \<le> unwrap0 (btm_get v j)" for j
    using v btm_get_iff [OF wf(1)] by (fastforce simp: holds_def unwrap0_def split: option.splits)
  have "n + m = (\<Sum>k\<in>K. unwrap0 (btm_get v k))" using v total_sum [OF wf(1)] keys by (simp add: holds_def)
  also have "\<dots> = (\<Sum>k\<in>K2. unwrap0 (btm_get v k)) + (\<Sum>k\<in>X. unwrap0 (btm_get v k))"
    unfolding K(1) by (rule sum.union_disjoint [OF fin K(2)])
  also have "(\<Sum>k\<in>K2. unwrap0 (btm_get v k)) = n"
    using v2 total_sum [OF wf(2)] keys frame by (simp add: holds_def)
  finally have m: "m = (\<Sum>k\<in>X. unwrap0 (btm_get v k))" by simp
  show ?thesis
  proof (cases "k \<in> X")
    case True
    then have "unwrap0 (btm_get v k) \<le> m" unfolding m using fin nn by (intro member_le_sum) auto
    then show ?thesis using True get by simp
  next
    case False
    then have "k \<in> K2" using kq keys K(1) by force
    then have "(k, q) \<in> set v2" using frame get wf(2) by (simp add: btm_get_iff)
    then show ?thesis using holds_le [OF v2] False by simp
  qed
qed

lemma keys_of_sides: "input_keys c \<inter> output_side = {}" "output_keys c \<subseteq> output_side"
  "SCacheWrite ` T \<inter> output_side = {}"
  by (auto simp: input_keys_def output_keys_def output_side_def image_modality)

lemma normalize_tokens_sides:
  assumes ok: "normalize_tokens c e = Ok v" and d: "distinct (uc_cache_write_ttls c)"
    and nonneg: "\<not> negative_evidence e" and kq: "(k, q) \<in> set v"
  shows "q \<le> (if k \<in> output_side then native_out c e
               else native_in c e + (if uc_bill_tool_input c then unwrap0 (ev_tool_input e) else 0))"
proof -
  let ?K2 = "SCacheWrite ` set (uc_cache_write_ttls c) \<union> input_keys c"
  let ?in = "native_in c e + (if uc_bill_tool_input c then unwrap0 (ev_tool_input e) else 0)"
  obtain v2 reasoning where v2: "holds v2 ?in ?K2" and out: "normalize_output c e (native_out c e) reasoning v2 = Ok v"
    using normalize_tokens_parts [OF ok d nonneg] by blast
  have v: "holds v (?in + native_out c e) (?K2 \<union> output_keys c)"
    using normalize_tokens_holds [OF ok d nonneg] by (rule holds_cong) (simp_all add: native_tokens_def)
  have sep: "?K2 \<inter> output_side = {}" using keys_of_sides by blast
  have "q \<le> (if k \<in> output_keys c then native_out c e else ?in)"
  proof (rule holds_frame_le [OF v v2 refl _ _ kq])
    show "?K2 \<inter> output_keys c = {}" using sep keys_of_sides(2) by blast
    show "btm_get v j = btm_get v2 j" if "j \<in> ?K2" for j
      using sep that by (intro normalize_output_frame [OF out]) blast
  qed
  moreover have "k \<in> output_keys c \<longleftrightarrow> k \<in> output_side"
  proof -
    have "k \<in> fst ` set v" using kq by force
    then have "k \<in> ?K2 \<union> output_keys c" using v unfolding holds_def by blast
    then show ?thesis using sep keys_of_sides(2) by blast
  qed
  ultimately show ?thesis by simp
qed

section \<open>The whole report\<close>

lemma selectors_Ok:
  assumes "selectors c = Ok K"
  shows "distinct (uc_cache_write_ttls c)" "uc_tokens c \<Longrightarrow> \<not> uc_images c"
    "K = (if uc_tokens c then {SInput, SOutput} else {}) \<union> (if uc_cache_read c then {SCacheRead} else {})
       \<union> SCacheWrite ` set (uc_cache_write_ttls c) \<union> (if uc_split_reasoning c then {SReasoning} else {})
       \<union> (\<Union>m\<in>set (uc_input_modalities c). insert (input_selector m) (if uc_cache_read c then {SCachedModality m} else {}))
       \<union> output_selector ` set (uc_output_modalities c)
       \<union> (if uc_images c then {SImages} else {}) \<union> (if uc_requests c then {SRequests} else {})"
  using assms by (auto simp: selectors_def contract_refused_def Let_def split: if_splits)

lemma normalize_usage_Ok:
  assumes "normalize_usage c e = Ok v"
  obtains w images where "selectors c = Ok (fst ` set v)" "\<not> negative_evidence e"
    "(if uc_tokens c then normalize_tokens c e else Ok []) = Ok w"
    "applicable (ev_images e) (uc_images c) = Ok images"
    "v = (let w = (if uc_images c then btm_insert SImages images w else w)
          in if uc_requests c then btm_insert SRequests 1 w else w)"
  using assms unfolding normalize_usage_def
  by (elim and_then_OkE guard_OkE)
     (auto simp: Let_def btm_keys_def split: if_splits)

lemma normalize_usage_D:
  assumes "normalize_usage c e = Ok v"
  shows "selectors c = Ok (fst ` set v)" and "\<not> negative_evidence e"
  by (rule normalize_usage_Ok [OF assms], assumption)+

lemma input_keys_no_counter: "SImages \<notin> input_keys c" "SRequests \<notin> input_keys c"
  by (auto simp: input_keys_def image_modality)

lemma output_keys_no_counter: "SImages \<notin> output_keys c" "SRequests \<notin> output_keys c"
  by (auto simp: output_keys_def image_modality)

lemma normalize_usage_holds:
  assumes ok: "normalize_usage c e = Ok v"
  shows "holds v ((if uc_tokens c then native_tokens c e else 0) + (if uc_images c then unwrap0 (ev_images e) else 0)
             + (if uc_requests c then 1 else 0)) (fst ` set v)"
proof -
  obtain w images where parts: "selectors c = Ok (fst ` set v)" "\<not> negative_evidence e"
      "(if uc_tokens c then normalize_tokens c e else Ok []) = Ok w"
    and im: "applicable (ev_images e) (uc_images c) = Ok images"
    and v: "v = (let w = (if uc_images c then btm_insert SImages images w else w)
          in if uc_requests c then btm_insert SRequests 1 w else w)"
    using ok by (rule normalize_usage_Ok)
  let ?K = "if uc_tokens c then SCacheWrite ` set (uc_cache_write_ttls c) \<union> input_keys c \<union> output_keys c else {}"
  have "holds w (if uc_tokens c then native_tokens c e else 0) ?K"
    using parts normalize_tokens_holds [OF _ selectors_Ok(1) [OF parts(1)] parts(2)] by (auto split: if_splits)
  moreover have K: "SImages \<notin> ?K" "SRequests \<notin> ?K"
    using input_keys_no_counter output_keys_no_counter by auto
  ultimately have "holds (if uc_images c then btm_insert SImages images w else w)
      ((if uc_tokens c then native_tokens c e else 0) + (if uc_images c then unwrap0 (ev_images e) else 0))
      (?K \<union> (if uc_images c then {SImages} else {}))"
    using im holds_insert [of w _ ?K SImages images] by (auto split: if_splits)
  moreover have "SRequests \<notin> ?K \<union> (if uc_images c then {SImages} else {})" using K by auto
  ultimately have "holds v ((if uc_tokens c then native_tokens c e else 0)
      + (if uc_images c then unwrap0 (ev_images e) else 0) + (if uc_requests c then 1 else 0))
      (?K \<union> (if uc_images c then {SImages} else {}) \<union> (if uc_requests c then {SRequests} else {}))"
    unfolding v Let_def by (cases "uc_requests c") (auto dest: holds_insert [where q = 1])
  then show ?thesis by (simp add: holds_def)
qed


definition demo_contract :: usage_contract where
  "demo_contract = \<lparr>uc_version = ''anthropic.messages.v1'', uc_fixture_sha256 = replicate 64 CHR ''a'',
     uc_family = Claude, uc_tokens = True, uc_cache_read = True, uc_cache_write_ttls = [FiveMinutes, OneHour],
     uc_split_reasoning = False, uc_input_modalities = [], uc_output_modalities = [],
     uc_bill_tool_input = False, uc_images = False, uc_requests = False\<rparr>"

definition demo_report :: evidence where
  "demo_report = evidence_default\<lparr>ev_input := Some 100, ev_output := Some 10, ev_cache_read := Some 800,
     ev_cache_write := Some 200, ev_writes := [(FiveMinutes, 150), (OneHour, 50)]\<rparr>"

definition demo_quantities :: quantity_map where
  "demo_quantities = [(SInput, 100), (SOutput, 10), (SCacheRead, 800),
     (SCacheWrite FiveMinutes, 150), (SCacheWrite OneHour, 50)]"

lemma demo_normalized: "normalize_usage demo_contract demo_report = Ok demo_quantities"
  by code_simp


section \<open>Bounds for the charge\<close>

lemma nonneg_evidence:
  assumes "\<not> negative_evidence e"
  shows "0 \<le> unwrap0 (ev_input e)" "0 \<le> unwrap0 (ev_output e)" "0 \<le> unwrap0 (ev_cache_read e)"
    "0 \<le> unwrap0 (ev_cache_write e)" "0 \<le> unwrap0 (ev_reasoning e)" "0 \<le> unwrap0 (ev_tool_input e)"
  using assms
       apply (cases "ev_input e"; simp add: negative_evidence_def)
      apply (use assms in \<open>cases "ev_output e"; simp add: negative_evidence_def\<close>)
     apply (use assms in \<open>cases "ev_cache_read e"; simp add: negative_evidence_def\<close>)
    apply (use assms in \<open>cases "ev_cache_write e"; simp add: negative_evidence_def\<close>)
   apply (use assms in \<open>cases "ev_reasoning e"; simp add: negative_evidence_def\<close>)
  apply (use assms in \<open>cases "ev_tool_input e"; simp add: negative_evidence_def\<close>)
  done

lemma normalize_usage_sides:
  assumes ok: "normalize_usage c e = Ok v" and get: "btm_get v k = Some q"
  shows "q \<le> (if k = SImages then unwrap0 (ev_images e) else if k = SRequests then 1
               else if k \<in> output_side then native_out c e
               else native_in c e + (if uc_bill_tool_input c then unwrap0 (ev_tool_input e) else 0))"
proof -
  obtain w images where parts: "selectors c = Ok (fst ` set v)" "\<not> negative_evidence e"
      "(if uc_tokens c then normalize_tokens c e else Ok []) = Ok w"
      "applicable (ev_images e) (uc_images c) = Ok images"
      "v = (let w = (if uc_images c then btm_insert SImages images w else w)
          in if uc_requests c then btm_insert SRequests 1 w else w)"
    using ok by (rule normalize_usage_Ok)
  show ?thesis
  proof (cases "btm_get w k = Some q \<and> k \<noteq> SImages \<and> k \<noteq> SRequests")
    case True
    then have t: "normalize_tokens c e = Ok w" "(k, q) \<in> set w"
      using parts(3) btm_get_in_set by (fastforce split: if_splits)+
    then show ?thesis
      using normalize_tokens_sides [OF t(1) selectors_Ok(1) [OF parts(1)] parts(2) t(2)] True by simp
  next
    case False
    have w: "btm_get w SImages = None" "btm_get w SRequests = None"
    proof -
      have "fst ` set w \<subseteq> SCacheWrite ` set (uc_cache_write_ttls c) \<union> input_keys c \<union> output_keys c"
        using parts(3) normalize_tokens_holds [OF _ selectors_Ok(1) [OF parts(1)] parts(2)]
        by (auto simp: holds_def split: if_splits)
      then show "btm_get w SImages = None" "btm_get w SRequests = None"
        using input_keys_no_counter output_keys_no_counter btm_keys_get [of _ w] by (fastforce simp: btm_keys_def)+
    qed
    show ?thesis using parts(4,5) get False w by (auto simp: Let_def split: if_splits)
  qed
qed

end
