(* ===== verification/Model_Tariff_Properties.thy ===== *)
theory Model_Tariff_Properties
  imports Model_Tariff Model_Usage_Properties Credit_Properties
begin

text \<open>
  What a validated tariff guarantees: its components price every selector of the contract once,
  within a reservation that covers any usage inside the request bounds.
\<close>

section \<open>Metric codes\<close>

lemma metric_code_Ok_D:
  assumes "metric_code us slug m lane r key = Ok code"
  obtains id where "us m = Some id" "tariff_identifier key 48" "0 < r"
    "code = (''platform_svc_'' @ slug @ ''_'') @ (if lane = ByokTariff then ''byok'' else ''pk'') @ ''_mdl_'' @ id
       @ ''_t'' @ int_str r @ ''_'' @ key"
  using assms unfolding metric_code_def Let_def
  by (elim and_then_OkE guard_OkE) (auto simp: ok_or_Ok_iff)

lemma metric_code_key:
  assumes "metric_code us slug m lane r key = Ok code" "metric_code us slug m lane r key' = Ok code"
  shows "key = key'"
  by (rule metric_code_Ok_D [OF assms(1)], rule metric_code_Ok_D [OF assms(2)]) simp

section \<open>Validated components\<close>

text \<open>A component as validation leaves it, and the largest charge it stands for.\<close>

definition component_ok ::
  "(string \<Rightarrow> string option) \<Rightarrow> string \<Rightarrow> model_tariff \<Rightarrow> selector set \<Rightarrow> int \<Rightarrow> int \<Rightarrow> tariff_component \<Rightarrow> bool"
where
  "component_ok us slug t sels ib ob c \<longleftrightarrow>
     tc_selector c \<in> sels \<and> tc_metric c = selector_metric (tc_selector c)
     \<and> required_quantity (mt_bounds t) ib ob (tc_selector c) \<le> tc_max_quantity c
     \<and> 0 < tc_max_quantity c \<and> tc_max_quantity c \<le> 1000000000
     \<and> metric_code us slug (mt_model_id t) (mt_lane t) (mt_revision t) (tc_key c) = Ok (tc_lago_metric_code c)
     \<and> (\<exists>rate. decimal_to_pico (tc_credits_per_unit c) = Some rate \<and> (rate = 0 \<longleftrightarrow> tc_explicit_free c))"

definition component_rate :: "tariff_component \<Rightarrow> int" where
  "component_rate c = unwrap0 (decimal_to_pico (tc_credits_per_unit c))"

lemma decimal_to_pico_nonneg: "decimal_to_pico s = Some p \<Longrightarrow> 0 \<le> p"
  by (auto simp: decimal_to_pico_parts Let_def split: prod.splits if_splits)

lemma component_rate_nonneg: "0 \<le> component_rate c"
  unfolding component_rate_def unwrap0_def using decimal_to_pico_nonneg by (auto split: option.splits)

lemma map_err_Ok_D: "map_err f r = Ok x \<Longrightarrow> r = Ok x"
  by (cases r) auto

lemma validate_component_Ok:
  assumes "validate_component us slug t sels ib ob found keys spent c = Ok (c', spent')"
  shows "component_ok us slug t sels ib ob c'
    \<and> tc_selector c' = tc_selector c \<and> tc_key c' = tc_key c \<and> tc_selector c \<notin> set found \<and> tc_key c \<notin> set keys
    \<and> pico spent' = pico spent + component_rate c' * tc_max_quantity c' \<and> \<bar>pico spent'\<bar> \<le> MAX_PICO"
  using assms unfolding validate_component_def Let_def
  apply (elim guard_OkE and_then_OkE)
  apply (auto dest!: map_err_Ok_D simp: component_ok_def component_rate_def cost_def and_then_Ok_iff from_pico_Ok_iff
      checked_ops_Ok_iff credit_ok_def ok_or_Ok_iff not_less not_le)
  done

lemma validate_components_Ok:
  "validate_components us slug t sels ib ob found keys spent cs = Ok cs' \<Longrightarrow>
     map tc_selector cs' = map tc_selector cs \<and> map tc_key cs' = map tc_key cs
     \<and> list_all (component_ok us slug t sels ib ob) cs'
     \<and> distinct (map tc_selector cs) \<and> distinct (map tc_key cs)
     \<and> tc_selector ` set cs \<inter> set found = {} \<and> tc_key ` set cs \<inter> set keys = {}
     \<and> (cs = [] \<or> pico spent + (\<Sum>c\<leftarrow>cs'. component_rate c * tc_max_quantity c) \<le> MAX_PICO)"
proof (induction us slug t sels ib ob found keys spent cs arbitrary: cs' rule: validate_components.induct)
  case (2 us slug t sels ib ob found keys spent c cs)
  obtain c' spent' cs'' where c: "validate_component us slug t sels ib ob found keys spent c = Ok (c', spent')"
    and r: "validate_components us slug t sels ib ob (tc_selector c # found) (tc_key c # keys) spent' cs = Ok cs''"
    and cs': "cs' = c' # cs''"
    using "2.prems" by (auto elim!: and_then_OkE)
  note C = validate_component_Ok [OF c]
  note R = "2.IH" [OF r]
  show ?case
    using C R cs' by (cases "cs = []") auto
qed simp

section \<open>Validated tariffs\<close>

definition input_bound :: "model_tariff \<Rightarrow> int" where
  "input_bound t = rb_max_input_tokens (mt_bounds t) * rb_max_tool_iterations (mt_bounds t)"

definition output_bound :: "model_tariff \<Rightarrow> int" where
  "output_bound t = rb_max_output_tokens (mt_bounds t) * rb_max_candidates (mt_bounds t)
     * rb_max_tool_iterations (mt_bounds t)"

text \<open>The largest charge of a tariff, in picocredits: what is reserved before the call.\<close>

definition reservation_pico :: "model_tariff \<Rightarrow> int" where
  "reservation_pico t = (\<Sum>c\<leftarrow>mt_components t. component_rate c * tc_max_quantity c)"

definition tariff_valid :: "(string \<Rightarrow> string option) \<Rightarrow> string \<Rightarrow> model_tariff \<Rightarrow> selector set \<Rightarrow> bool" where
  "tariff_valid us slug t sels \<longleftrightarrow>
     selectors (mt_contract t) = Ok sels \<and> \<not> bounds_invalid (mt_contract t) (mt_bounds t)
     \<and> list_all (component_ok us slug t sels (input_bound t) (output_bound t)) (mt_components t)
     \<and> distinct (map tc_selector (mt_components t)) \<and> distinct (map tc_key (mt_components t))
     \<and> tc_selector ` set (mt_components t) = sels \<and> length (mt_components t) = card sels
     \<and> reservation_pico t \<le> MAX_PICO"

lemma selectors_finite: "selectors c = Ok K \<Longrightarrow> finite K"
  by (auto simp: selectors_def Let_def split: if_splits)

lemma component_ok_components [simp]:
  "component_ok us slug (t\<lparr>mt_components := cs\<rparr>) sels ib ob = component_ok us slug t sels ib ob"
  by (simp add: component_ok_def fun_eq_iff)

lemma validate_tariff_valid:
  assumes ok: "validate_tariff us t0 slug = Ok t"
  obtains sels where "tariff_valid us slug t sels"
proof -
  let ?b = "mt_bounds t0" and ?cs = "sort_key tc_key (mt_components t0)"
  obtain sels ib ob n cs where s: "selectors (mt_contract t0) = Ok sels" "\<not> bounds_invalid (mt_contract t0) ?b"
    and ib: "tariff_product (rb_max_input_tokens ?b) (rb_max_tool_iterations ?b) ''Input bound overflow'' = Ok ib"
    and ob: "tariff_product (rb_max_output_tokens ?b) (rb_max_candidates ?b) ''Output bound overflow'' = Ok n"
      "tariff_product n (rb_max_tool_iterations ?b) ''Output bound overflow'' = Ok ob"
    and len: "length (mt_components t0) = card sels"
    and cs: "validate_components us slug t0 sels ib ob [] [] ZERO ?cs = Ok cs" "t = t0\<lparr>mt_components := cs\<rparr>"
    using ok unfolding validate_tariff_def Let_def
    by (elim guard_OkE and_then_OkE) simp
  have bounds: "ib = input_bound t" "ob = output_bound t"
    using ib ob cs(2) by (auto simp: tariff_product_def ok_or_Ok_iff input_bound_def output_bound_def)
  note C = validate_components_Ok [OF cs(1)]
  have l: "length cs = card sels" using C len by (metis length_map length_sort)
  have sub: "tc_selector ` set cs \<subseteq> sels" using C by (auto simp: list_all_iff component_ok_def)
  have dist: "distinct (map tc_selector cs)" "distinct (map tc_key cs)"
    using C by metis+
  then have "card (tc_selector ` set cs) = card sels"
    using l distinct_card [of "map tc_selector cs"] by simp
  with sub have eq: "tc_selector ` set cs = sels"
    using selectors_finite [OF s(1)] by (simp add: card_subset_eq)
  have "sels \<noteq> {}" using s(1) by (auto simp: selectors_def Let_def split: if_splits)
  then have "?cs \<noteq> []" using len selectors_finite [OF s(1)] by (metis card_eq_0_iff length_sort list.size(3))
  then have "reservation_pico t \<le> MAX_PICO"
    using C cs(2) by (simp add: reservation_pico_def ZERO_def)
  then have "tariff_valid us slug t sels"
    using s C dist cs(2) bounds l eq by (simp add: tariff_valid_def)
  then show ?thesis by (rule that)
qed

section \<open>The charge of a valid tariff\<close>

lemma quantities_loop_Ok_iff:
  "quantities_loop v cs qs = Ok qs' \<longleftrightarrow>
     (\<forall>c\<in>set cs. \<exists>n. btm_get v (tc_selector c) = Some n \<and> n \<le> tc_max_quantity c)
     \<and> distinct (map tc_lago_metric_code cs) \<and> (\<forall>c\<in>set cs. btm_get qs (tc_lago_metric_code c) = None)
     \<and> qs' = foldl (\<lambda>m c. btm_insert (tc_lago_metric_code c) (unwrap0 (btm_get v (tc_selector c))) m) qs cs"
proof (induction v cs qs rule: quantities_loop.induct)
  case (2 v c cs qs)
  show ?case
  proof (cases "btm_get v (tc_selector c)")
    case None
    then show ?thesis by simp
  next
    case (Some n)
    show ?thesis
    proof (cases "n \<le> tc_max_quantity c \<and> btm_get qs (tc_lago_metric_code c) = None")
      case True
      let ?code = "tc_lago_metric_code"
      have ins: "(\<forall>d\<in>set cs. btm_get (btm_insert (?code c) n qs) (?code d) = None)
          \<longleftrightarrow> ?code c \<notin> ?code ` set cs \<and> (\<forall>d\<in>set cs. btm_get qs (?code d) = None)"
        by (auto simp: image_iff)
      have "\<not> (tc_max_quantity c < n \<or> btm_contains qs (?code c))" using True by (simp add: btm_contains_def)
      with True Some "2.IH" [of n] show ?thesis
        unfolding ins by (simp del: btm_get_insert) blast
    next
      case False
      with Some show ?thesis by (auto simp: btm_contains_def)
    qed
  qed
qed auto

lemma foldl_insert_props:
  fixes f :: "'a \<Rightarrow> 'k::linorder"
  assumes "distinct (map f cs)"
  shows "btm_wf m \<Longrightarrow> btm_wf (foldl (\<lambda>m c. btm_insert (f c) (g c) m) m cs)"
    and "fst ` set (foldl (\<lambda>m c. btm_insert (f c) (g c) m) m cs) = fst ` set m \<union> f ` set cs"
    and "c \<in> set cs \<Longrightarrow> btm_get (foldl (\<lambda>m c. btm_insert (f c) (g c) m) m cs) (f c) = Some (g c)"
proof -
  show "btm_wf m \<Longrightarrow> btm_wf (foldl (\<lambda>m c. btm_insert (f c) (g c) m) m cs)"
    by (induction cs arbitrary: m) simp_all
  show "fst ` set (foldl (\<lambda>m c. btm_insert (f c) (g c) m) m cs) = fst ` set m \<union> f ` set cs"
    by (induction cs arbitrary: m) simp_all
  have keep: "k \<notin> f ` set cs \<Longrightarrow> btm_get (foldl (\<lambda>m c. btm_insert (f c) (g c) m) m cs) k = btm_get m k" for k cs m
    by (induction cs arbitrary: m) simp_all
  show "c \<in> set cs \<Longrightarrow> btm_get (foldl (\<lambda>m c. btm_insert (f c) (g c) m) m cs) (f c) = Some (g c)"
    using assms by (induction cs arbitrary: m) (auto simp: keep)
qed

lemma btm_length: "btm_wf m \<Longrightarrow> length m = card (fst ` set m)"
  using distinct_card [OF btm_wf_distinct] by fastforce

lemma foldl_insert_length:
  fixes f :: "'a \<Rightarrow> 'k::linorder"
  assumes "distinct (map f cs)"
  shows "length (foldl (\<lambda>m c. btm_insert (f c) (g c) m) [] cs) = length cs"
proof -
  have "length (foldl (\<lambda>m c. btm_insert (f c) (g c) m) [] cs) = card (f ` set cs)"
    by (simp add: btm_length [OF foldl_insert_props(1) [OF assms btm_wf_Nil]] foldl_insert_props(2) [OF assms])
  also have "\<dots> = length cs" using distinct_card [OF assms] by simp
  finally show ?thesis .
qed

lemma valid_codes_distinct: "tariff_valid us slug t sels \<Longrightarrow> distinct (map tc_lago_metric_code (mt_components t))"
proof -
  assume v: "tariff_valid us slug t sels"
  have "inj_on tc_lago_metric_code (set (mt_components t))"
  proof (rule inj_onI)
    fix c d assume cd: "c \<in> set (mt_components t)" "d \<in> set (mt_components t)" "tc_lago_metric_code c = tc_lago_metric_code d"
    have "metric_code us slug (mt_model_id t) (mt_lane t) (mt_revision t) (tc_key x) = Ok (tc_lago_metric_code x)"
      if "x \<in> set (mt_components t)" for x
      using v that unfolding tariff_valid_def list_all_iff component_ok_def by blast
    then have "tc_key c = tc_key d" using cd metric_code_key by metis
    then show "c = d" using v cd by (auto simp: tariff_valid_def distinct_map dest: inj_onD)
  qed
  moreover have "distinct (mt_components t)" using v by (simp add: tariff_valid_def distinct_map)
  ultimately show ?thesis by (simp add: distinct_map)
qed

lemma charge_vector_Ok_D:
  assumes "charge_vector t e = Ok u"
  obtains v qs where "normalize_usage (mt_contract t) e = Ok v" "quantities_loop v (mt_components t) [] = Ok qs"
    "pu_model_charges u = Some \<lparr>cv_native_usage = e, cv_tariff_id = mt_id t, cv_public_model = mt_public_model t, cv_quantities = qs\<rparr>"
    "pu_requests u = 1" "pu_tokens u = native_in (mt_contract t) e + native_out (mt_contract t) e + unwrap0 (ev_tool_input e)"
    "native_in (mt_contract t) e + unwrap0 (ev_tool_input e) \<le> input_bound t" "native_out (mt_contract t) e \<le> output_bound t"
    "unwrap0 (ev_images e) \<le> rb_max_images (mt_bounds t)"
proof -
  have in_eq: "native_input (uc_family (mt_contract t)) (unwrap0 (ev_input e)) (unwrap0 (ev_cache_read e))
      (unwrap0 (ev_cache_write e)) = Ok n \<Longrightarrow> n = native_in (mt_contract t) e" for n
    by (auto simp: native_input_def native_in_def split: if_splits)
  have out_eq: "native_output (uc_family (mt_contract t)) (unwrap0 (ev_output e)) (unwrap0 (ev_reasoning e)) = Ok n
      \<Longrightarrow> n = native_out (mt_contract t) e" for n
    by (auto simp: native_output_def native_out_def split: if_splits)
  have prod: "checked_product a b = Ok n \<Longrightarrow> n = a * b" for a b n
    by (auto simp: checked_product_def ok_or_Ok_iff)
  show ?thesis
    using assms unfolding charge_vector_def
    by (elim and_then_OkE guard_OkE)
       (rule that, assumption, assumption,
        auto dest!: in_eq out_eq prod simp: input_bound_def output_bound_def)
qed

text \<open>
  C19. A call on a validated tariff is charged exactly as priced. Every selector of the contract is
  priced by exactly one component and every component has a metric code of its own; each is
  charged the quantity the report yields for its selector, within its bound; the counters carry
  the provider's own total; and the price of the call never exceeds the reservation the
  validation computed, nor the largest representable amount.
\<close>

theorem charged_exactly_as_priced:
  assumes "validate_tariff uuid_simple t0 slug = Ok t" and "charge_vector t e = Ok u"
  shows "\<exists>v qs. normalize_usage (mt_contract t) e = Ok v
      \<and> map_option cv_quantities (pu_model_charges u) = Some qs
      \<and> (\<forall>c\<in>set (mt_components t). \<exists>n. btm_get v (tc_selector c) = Some n
            \<and> btm_get qs (tc_lago_metric_code c) = Some n \<and> n \<le> tc_max_quantity c)
      \<and> bij_betw tc_selector (set (mt_components t)) (set (btm_keys v))
      \<and> bij_betw tc_lago_metric_code (set (mt_components t)) (set (btm_keys qs))
      \<and> pu_tokens u = native_in (mt_contract t) e + native_out (mt_contract t) e + unwrap0 (ev_tool_input e)
      \<and> (\<Sum>c\<leftarrow>mt_components t. component_rate c * unwrap0 (btm_get qs (tc_lago_metric_code c))) \<le> reservation_pico t
      \<and> reservation_pico t \<le> MAX_PICO"
proof -
  let ?cs = "mt_components t"
  obtain sels where valid: "tariff_valid uuid_simple slug t sels"
    using assms(1) by (rule validate_tariff_valid)
  obtain v qs where v: "normalize_usage (mt_contract t) e = Ok v" and loop: "quantities_loop v ?cs [] = Ok qs"
    and u: "map_option cv_quantities (pu_model_charges u) = Some qs"
      "pu_tokens u = native_in (mt_contract t) e + native_out (mt_contract t) e + unwrap0 (ev_tool_input e)"
    by (rule charge_vector_Ok_D [OF assms(2)]) (rule that, simp_all)
  note Q = loop [unfolded quantities_loop_Ok_iff]
  have codes: "distinct (map tc_lago_metric_code ?cs)" using Q by blast
  have each: "\<forall>c\<in>set ?cs. \<exists>n. btm_get v (tc_selector c) = Some n
      \<and> btm_get qs (tc_lago_metric_code c) = Some n \<and> n \<le> tc_max_quantity c"
  proof
    fix c assume c: "c \<in> set ?cs"
    then obtain n where n: "btm_get v (tc_selector c) = Some n" "n \<le> tc_max_quantity c" using Q by blast
    moreover have "btm_get qs (tc_lago_metric_code c) = Some (unwrap0 (btm_get v (tc_selector c)))"
      using Q by (simp add: foldl_insert_props(3) [OF codes c])
    ultimately show "\<exists>n. btm_get v (tc_selector c) = Some n
        \<and> btm_get qs (tc_lago_metric_code c) = Some n \<and> n \<le> tc_max_quantity c" by simp
  qed
  have keys: "fst ` set qs = tc_lago_metric_code ` set ?cs"
    using Q by (simp add: foldl_insert_props(2) [OF codes])
  have "fst ` set v = sels"
    using normalize_usage_D(1) [OF v] valid by (simp add: tariff_valid_def)
  then have "bij_betw tc_selector (set ?cs) (fst ` set v)"
    using valid by (simp add: tariff_valid_def bij_betw_def distinct_map)
  moreover have "bij_betw tc_lago_metric_code (set ?cs) (fst ` set qs)"
    using codes keys by (simp add: bij_betw_def distinct_map)
  moreover have "(\<Sum>c\<leftarrow>?cs. component_rate c * unwrap0 (btm_get qs (tc_lago_metric_code c))) \<le> reservation_pico t"
    unfolding reservation_pico_def
    by (rule sum_list_mono) (use each component_rate_nonneg in \<open>fastforce intro: mult_left_mono\<close>)
  ultimately show ?thesis
    using v u each valid unfolding tariff_valid_def btm_keys_def set_map by blast
qed

lemma bounds_small:
  assumes "\<not> bounds_invalid c b"
  shows "0 \<le> rb_max_input_tokens b * rb_max_tool_iterations b \<and> rb_max_input_tokens b * rb_max_tool_iterations b \<le> 6400000000"
    and "0 \<le> rb_max_output_tokens b * rb_max_candidates b \<and> rb_max_output_tokens b * rb_max_candidates b \<le> 1600000000"
    and "0 \<le> rb_max_output_tokens b * rb_max_candidates b * rb_max_tool_iterations b
      \<and> rb_max_output_tokens b * rb_max_candidates b * rb_max_tool_iterations b \<le> 102400000000"
proof -
  have r: "0 \<le> rb_max_input_tokens b" "rb_max_input_tokens b \<le> 100000000" "0 \<le> rb_max_output_tokens b"
    "rb_max_output_tokens b \<le> 100000000" "0 \<le> rb_max_candidates b" "rb_max_candidates b \<le> 16"
    "0 \<le> rb_max_tool_iterations b" "rb_max_tool_iterations b \<le> 64"
    using assms by (auto simp: bounds_invalid_def)
  have le: "0 \<le> x * y \<and> x * y \<le> m * n" if "0 \<le> x" "x \<le> m" "0 \<le> y" "y \<le> n" for x y m n :: int
    using that by (simp add: mult_mono)
  show "0 \<le> rb_max_input_tokens b * rb_max_tool_iterations b \<and> rb_max_input_tokens b * rb_max_tool_iterations b \<le> 6400000000"
    using le [OF r(1,2,7,8)] by simp
  show o: "0 \<le> rb_max_output_tokens b * rb_max_candidates b \<and> rb_max_output_tokens b * rb_max_candidates b \<le> 1600000000"
    using le [OF r(3,4,5,6)] by simp
  show "0 \<le> rb_max_output_tokens b * rb_max_candidates b * rb_max_tool_iterations b
      \<and> rb_max_output_tokens b * rb_max_candidates b * rb_max_tool_iterations b \<le> 102400000000"
    using le [of "rb_max_output_tokens b * rb_max_candidates b" 1600000000, OF _ _ r(7,8)] o by simp
qed

lemma covered_quantity:
  assumes valid: "tariff_valid us slug t sels" and v: "normalize_usage (mt_contract t) e = Ok v"
    and fits: "native_in (mt_contract t) e + unwrap0 (ev_tool_input e) \<le> input_bound t"
      "native_out (mt_contract t) e \<le> output_bound t" "unwrap0 (ev_images e) \<le> rb_max_images (mt_bounds t)"
    and c: "c \<in> set (mt_components t)"
  shows "\<exists>n. btm_get v (tc_selector c) = Some n \<and> n \<le> tc_max_quantity c"
proof -
  have keys: "fst ` set v = sels" using normalize_usage_D(1) [OF v] valid by (simp add: tariff_valid_def)
  note nn = normalize_usage_D(2) [OF v]
  have ok: "component_ok us slug t sels (input_bound t) (output_bound t) c"
    using valid c by (simp add: tariff_valid_def list_all_iff)
  have "tc_selector c \<in> set (btm_keys v)"
    using c valid keys by (auto simp: tariff_valid_def btm_keys_def)
  then obtain n where n: "btm_get v (tc_selector c) = Some n" using btm_keys_get [of _ v] by blast
  have "0 \<le> unwrap0 (ev_tool_input e)" using nonneg_evidence [OF nn] by simp
  then have "n \<le> required_quantity (mt_bounds t) (input_bound t) (output_bound t) (tc_selector c)"
    using normalize_usage_sides [OF v n] fits
    by (cases "tc_selector c") (auto simp: output_side_def split: if_splits)
  with n ok show ?thesis by (auto simp: component_ok_def)
qed

lemma valid_tariff_charges:
  assumes "validate_tariff uuid_simple t0 slug = Ok t" and "normalize_usage (mt_contract t) e = Ok v"
    and "native_in (mt_contract t) e + unwrap0 (ev_tool_input e) \<le> input_bound t"
    and "native_out (mt_contract t) e \<le> output_bound t"
    and "unwrap0 (ev_images e) \<le> rb_max_images (mt_bounds t)"
  shows "\<exists>u. charge_vector t e = Ok u"
proof -
  let ?c = "mt_contract t" and ?b = "mt_bounds t" and ?cs = "mt_components t"
  obtain sels where valid: "tariff_valid uuid_simple slug t sels"
    using assms(1) by (rule validate_tariff_valid)
  note cover = covered_quantity [OF valid assms(2-5)]
  note codes = valid_codes_distinct [OF valid]
  let ?qs = "foldl (\<lambda>m c. btm_insert (tc_lago_metric_code c) (unwrap0 (btm_get v (tc_selector c))) m) [] ?cs"
  have loop: "quantities_loop v ?cs [] = Ok ?qs"
    unfolding quantities_loop_Ok_iff using cover codes by simp
  note s = normalize_usage_D(1) [OF assms(2)] and nn = normalize_usage_D(2) [OF assms(2)]
  have "btm_wf v" using normalize_usage_holds [OF assms(2)] by (simp add: holds_def)
  then have "length v = length ?cs"
    using btm_length [of v] s valid by (simp add: tariff_valid_def)
  then have len: "length ?qs = length v"
    by (simp add: foldl_insert_length [OF codes])
  note small = bounds_small [of ?c ?b]
  have b: "\<not> bounds_invalid ?c ?b" using valid by (simp add: tariff_valid_def)
  note e = nonneg_evidence [OF nn]
  have ib: "checked_product (rb_max_input_tokens ?b) (rb_max_tool_iterations ?b) = Ok (input_bound t)"
    "input_bound t \<le> 6400000000"
    using small(1) [OF b] by (simp_all add: checked_product_def checked_i64_def i64_min_def i64_max_def input_bound_def)
  have ob: "checked_product (rb_max_output_tokens ?b) (rb_max_candidates ?b) = Ok (rb_max_output_tokens ?b * rb_max_candidates ?b)"
    "checked_product (rb_max_output_tokens ?b * rb_max_candidates ?b) (rb_max_tool_iterations ?b) = Ok (output_bound t)"
    "output_bound t \<le> 102400000000"
    using small(2,3) [OF b] by (simp_all add: checked_product_def checked_i64_def i64_min_def i64_max_def output_bound_def)
  have n: "0 \<le> native_in ?c e" "0 \<le> native_out ?c e"
    using e by (simp_all add: native_in_def native_out_def)
  have adds: "native_input (uc_family ?c) (unwrap0 (ev_input e)) (unwrap0 (ev_cache_read e)) (unwrap0 (ev_cache_write e)) = Ok (native_in ?c e)"
    "native_output (uc_family ?c) (unwrap0 (ev_output e)) (unwrap0 (ev_reasoning e)) = Ok (native_out ?c e)"
    "usage_add (native_in ?c e) (unwrap0 (ev_tool_input e)) = Ok (native_in ?c e + unwrap0 (ev_tool_input e))"
    "usage_add (native_in ?c e) (native_out ?c e) = Ok (native_in ?c e + native_out ?c e)"
    "usage_add (native_in ?c e + native_out ?c e) (unwrap0 (ev_tool_input e))
       = Ok (native_in ?c e + native_out ?c e + unwrap0 (ev_tool_input e))"
    using e n assms(3,4) ib(2) ob(3)
    by (auto simp: native_input_def native_output_def native_in_def native_out_def i64_min_def i64_max_def split: if_splits)
  show ?thesis
    unfolding charge_vector_def assms(2) and_then_simps loop len adds ib ob
    using assms(3-5) by simp
qed

text \<open>
  C5. Admission is honest: a validated tariff can charge every consistent report inside its request
  bounds. No component's reservation is too small for any cache, modality, tool or candidate
  split the provider may report, no two components collide, and nothing overflows, so a call
  admitted within the bounds is never left unbillable.
\<close>

theorem valid_tariff_always_charges:
  assumes "validate_tariff uuid_simple t0 slug = Ok t" and "normalize_usage (mt_contract t) e = Ok v"
    and "native_in (mt_contract t) e + unwrap0 (ev_tool_input e) \<le> input_bound t"
    and "native_out (mt_contract t) e \<le> output_bound t"
    and "unwrap0 (ev_images e) \<le> rb_max_images (mt_bounds t)"
  shows "\<exists>u. charge_vector t e = Ok u"
  by (rule valid_tariff_charges [OF assms])

section \<open>Selection\<close>

lemma validate_keeps_the_rest: "validate_tariff us t0 slug = Ok t \<Longrightarrow> \<exists>cs. t = t0\<lparr>mt_components := cs\<rparr>"
  unfolding validate_tariff_def Let_def by (elim guard_OkE and_then_OkE) auto

lemma selected_lane_Ok_iff:
  "selected_lane cls = Ok lane \<longleftrightarrow>
     for_credential cls = Some (case lane of ByokTariff \<Rightarrow> Byok | PlatformKeyTariff \<Rightarrow> PlatformKey)"
  by (cases cls; cases lane) simp_all

text \<open>
  C23. A request is charged only by a live, unambiguous price. A selected tariff is a synced
  revision of this service, model and variant, on the lane of the credential that was used, bound
  by exactly one binding; it passes validation unchanged; and each of its paid components has a
  cached rate under its own code that is not retired, not from the future, no older than the
  allowed age and equal to the picocredit to the authored price.
\<close>

theorem selected_tariff_is_live:
  assumes "select_tariff uuid_simple service model_id cls variant tariffs rates now ttl = Ok s"
  shows "ds_is_active service \<and> ds_platform_key service = Some ModelOffering
    \<and> selected s \<in> set tariffs \<and> mt_service_id (selected s) = ds_id service
    \<and> mt_model_id (selected s) = model_id \<and> mt_variant (selected s) = variant
    \<and> mt_status (selected s) = TariffSynced \<and> selected_lane cls = Ok (mt_lane (selected s))
    \<and> (\<exists>billing pricing binding. ds_billing service = Some billing
         \<and> \<not> sb_resale_billable billing \<and> sb_managed_execution billing = None
         \<and> tariff_lane_pricing billing (mt_lane (selected s)) = Some pricing
         \<and> filter (\<lambda>b. pb_model_id b = model_id \<and> pb_variant b = variant) (lp_model_prices pricing) = [binding]
         \<and> pb_active_tariff_id binding = Some (mt_id (selected s)))
    \<and> validate_tariff uuid_simple (selected s) (ds_slug service) = Ok (selected s)
    \<and> (\<forall>c\<in>set (mt_components (selected s)). \<not> tc_explicit_free c \<longrightarrow>
         (\<exists>rate. rates (tc_lago_metric_code c) = Some rate \<and> rc_lago_metric_code rate = tc_lago_metric_code c
            \<and> rc_model rate = None \<and> rc_retired_at rate = None
            \<and> rc_synced_at rate \<le> now \<and> (now - rc_synced_at rate) div 1000000000 \<le> int ttl
            \<and> decimal_to_pico (tc_credits_per_unit c)
                = Some (rate_pico (rc_credits_per_unit_pico rate) (rc_credits_per_unit_micros rate))))"
proof -
  obtain billing lane pricing id t
    where live: "ds_is_active service" "ds_platform_key service = Some ModelOffering"
      and b: "ds_billing service = Some billing" "\<not> sb_resale_billable billing" "sb_managed_execution billing = None"
      and l: "selected_lane cls = Ok lane" "tariff_lane_pricing billing lane = Some pricing"
      and one: "length (filter (\<lambda>b. pb_model_id b = model_id \<and> pb_variant b = variant) (lp_model_prices pricing)) = 1"
      and id: "pb_active_tariff_id (hd (filter (\<lambda>b. pb_model_id b = model_id \<and> pb_variant b = variant) (lp_model_prices pricing))) = Some id"
      and t: "find (\<lambda>t. mt_id t = id) tariffs = Some t"
        "mt_service_id t = ds_id service" "mt_model_id t = model_id" "mt_lane t = lane" "mt_variant t = variant"
        "mt_status t = TariffSynced"
      and valid: "\<not> (case validate_tariff uuid_simple t (ds_slug service) of
                 Err _ \<Rightarrow> True | Ok validated \<Rightarrow> mt_components validated \<noteq> mt_components t)"
      and rate: "for_each (check_rate rates now ttl) (mt_components t) = Ok ()" and s: "s = SelectedTariff t"
    using assms unfolding select_tariff_def Let_def
    by (elim guard_OkE and_then_OkE) (simp add: ok_or_Ok_iff del: selected_lane.simps)
  obtain t' where t': "validate_tariff uuid_simple t (ds_slug service) = Ok t'" "mt_components t' = mt_components t"
    using valid by (auto split: sum.splits)
  have "t' = t" using validate_keeps_the_rest [OF t'(1)] t'(2) by auto
  moreover have "\<exists>rate. rates (tc_lago_metric_code c) = Some rate \<and> rc_lago_metric_code rate = tc_lago_metric_code c
            \<and> rc_model rate = None \<and> rc_retired_at rate = None
            \<and> rc_synced_at rate \<le> now \<and> (now - rc_synced_at rate) div 1000000000 \<le> int ttl
            \<and> decimal_to_pico (tc_credits_per_unit c)
                = Some (rate_pico (rc_credits_per_unit_pico rate) (rc_credits_per_unit_micros rate))"
    if "c \<in> set (mt_components t)" "\<not> tc_explicit_free c" for c
  proof -
    have "check_rate rates now ttl c = Ok ()" using rate that(1) by (simp add: for_each_Ok_iff)
    then show ?thesis unfolding check_rate_def if_not_P [OF that(2)]
      by (elim guard_OkE and_then_OkE) (simp add: ok_or_Ok_iff not_less)
  qed
  moreover obtain binding where "filter (\<lambda>b. pb_model_id b = model_id \<and> pb_variant b = variant) (lp_model_prices pricing) = [binding]"
    using one by (auto simp: length_Suc_conv)
  moreover have "t \<in> set tariffs" "mt_id t = id" using t(1) by (auto simp: find_Some_iff)
  ultimately show ?thesis
    using live b l id t t' s by (simp del: selected_lane.simps)
qed

section \<open>Metric codes identify their price\<close>

lemma digits_then_underscore:
  assumes "int_str r @ ''_'' @ key = int_str r' @ ''_'' @ key'" "0 < r" "0 < r'"
  shows "r = r' \<and> key = key'"
proof -
  have "takeWhile is_ascii_digit (nat_str n @ ''_'' @ k) = nat_str n" for n k
    using nat_str_digits(1) [of n] by (simp add: all_digits_def list_all_iff is_ascii_digit_def byte_def)
  then have "nat_str (nat r) = nat_str (nat r')"
    using assms by (metis int_str_def not_less_iff_gr_or_eq)
  then have "nat r = nat r'" using digits_val_nat_str by metis
  then have "r = r'" using assms(2,3) by simp
  then show ?thesis using assms(1) by simp
qed

text \<open>
  A metric code identifies its price. Within one service, two prices are billed under the same
  code only if they are the same component of the same revision of the same model on the same
  lane: a new revision never accumulates on the meter of an old one. (A UUID prints as 32 digits.)
\<close>

theorem metric_codes_identify:
  assumes "\<And>m id. uuid_simple m = Some id \<Longrightarrow> length id = 32"
    and "metric_code uuid_simple slug m lane r key = Ok code"
    and "metric_code uuid_simple slug m' lane' r' key' = Ok code"
  shows "uuid_simple m = uuid_simple m' \<and> lane = lane' \<and> r = r' \<and> key = key'"
proof (rule metric_code_Ok_D [OF assms(2)], rule metric_code_Ok_D [OF assms(3)])
  fix id id'
  assume ids: "uuid_simple m = Some id" "uuid_simple m' = Some id'" and r: "0 < r" "0 < r'"
    and code: "code = (''platform_svc_'' @ slug @ ''_'') @ (if lane = ByokTariff then ''byok'' else ''pk'') @ ''_mdl_'' @ id
       @ ''_t'' @ int_str r @ ''_'' @ key"
    "code = (''platform_svc_'' @ slug @ ''_'') @ (if lane' = ByokTariff then ''byok'' else ''pk'') @ ''_mdl_'' @ id'
       @ ''_t'' @ int_str r' @ ''_'' @ key'"
  have len: "length id = length id'" using assms(1) ids by simp
  have "(if lane = ByokTariff then ''byok'' else ''pk'') @ ''_mdl_'' @ id @ ''_t'' @ int_str r @ ''_'' @ key
      = (if lane' = ByokTariff then ''byok'' else ''pk'') @ ''_mdl_'' @ id' @ ''_t'' @ int_str r' @ ''_'' @ key'"
    using code by (metis append_same_eq same_append_eq)
  then have "lane = lane'" and "id @ ''_t'' @ int_str r @ ''_'' @ key = id' @ ''_t'' @ int_str r' @ ''_'' @ key'"
    by (cases lane; cases lane'; simp)+
  moreover from this(2) have "id = id'" "int_str r @ ''_'' @ key = int_str r' @ ''_'' @ key'"
    using len by (simp_all add: append_eq_append_conv)
  ultimately show ?thesis
    using digits_then_underscore [OF _ r] ids by metis
qed

section \<open>A concrete tariff\<close>

definition demo_uuid :: "string \<Rightarrow> string option" where
  "demo_uuid m = (if m = ''m'' then Some (replicate 32 CHR ''0'') else None)"

definition demo_component :: "string \<Rightarrow> selector \<Rightarrow> tariff_component" where
  "demo_component key sel = \<lparr>tc_key = key, tc_metric = selector_metric sel, tc_selector = sel,
     tc_credits_per_unit = ''0.000003'', tc_explicit_free = False, tc_max_quantity = 4000,
     tc_lago_metric_code = ''platform_svc_llm_pk_mdl_'' @ replicate 32 CHR ''0'' @ ''_t3_'' @ key\<rparr>"

definition demo_tariff :: model_tariff where
  "demo_tariff = \<lparr>mt_id = ''t1'', mt_revision = 3, mt_service_id = ''s'', mt_model_id = ''m'',
     mt_public_model = ''claude'', mt_lane = PlatformKeyTariff, mt_variant = [],
     mt_contract = demo_contract\<lparr>uc_cache_read := False, uc_cache_write_ttls := []\<rparr>,
     mt_bounds = \<lparr>rb_max_input_tokens = 2000, rb_max_output_tokens = 500, rb_max_candidates = 1,
        rb_max_tool_iterations = 2, rb_max_images = 0, rb_max_request_bytes = 1000, rb_max_response_bytes = 1000\<rparr>,
     mt_components = [demo_component ''in'' SInput, demo_component ''out'' SOutput],
     mt_source = ''list'', mt_status = TariffSynced, mt_sync_error = None, mt_created_at = 0, mt_updated_at = 0\<rparr>"

lemma demo_validated: "validate_tariff demo_uuid demo_tariff ''llm'' = Ok demo_tariff"
  by code_simp

definition demo_use :: evidence where
  "demo_use = evidence_default\<lparr>ev_input := Some 100, ev_output := Some 10\<rparr>"

lemma demo_used: "normalize_usage (mt_contract demo_tariff) demo_use = Ok [(SInput, 100), (SOutput, 10)]"
  by code_simp

lemma demo_fits:
  "native_in (mt_contract demo_tariff) demo_use + unwrap0 (ev_tool_input demo_use) \<le> input_bound demo_tariff"
  "native_out (mt_contract demo_tariff) demo_use \<le> output_bound demo_tariff"
  "unwrap0 (ev_images demo_use) \<le> rb_max_images (mt_bounds demo_tariff)"
  by code_simp+

lemma valid_tariff_always_charges_witness: "\<exists>u. charge_vector demo_tariff demo_use = Ok u"
  by (rule valid_tariff_always_charges [OF demo_validated demo_used demo_fits])

lemma charged_exactly_as_priced_witness:
  "\<exists>u. charge_vector demo_tariff demo_use = Ok u \<and> pu_tokens u = 110"
proof -
  obtain u where u: "charge_vector demo_tariff demo_use = Ok u"
    using valid_tariff_charges [OF demo_validated demo_used demo_fits] ..
  have "pu_tokens u = native_in (mt_contract demo_tariff) demo_use + native_out (mt_contract demo_tariff) demo_use
      + unwrap0 (ev_tool_input demo_use)"
    using charged_exactly_as_priced [OF demo_validated u] by blast
  also have "\<dots> = 110" by code_simp
  finally show ?thesis using u by blast
qed

definition demo_rates :: "string \<Rightarrow> rate_cache option" where
  "demo_rates code = Some \<lparr>rc_id = code, rc_lago_metric_code = code, rc_model = None,
     rc_credits_per_unit_micros = 3, rc_credits_per_unit_pico = Some 3000000, rc_synced_at = 0, rc_retired_at = None\<rparr>"

definition demo_binding :: price_binding where
  "demo_binding = \<lparr>pb_model_id = ''m'', pb_allowance_metrics = [], pb_variant = [],
     pb_active_tariff_id = Some ''t1'', pb_pending_tariff_id = None\<rparr>"

definition demo_service :: downstream_service where
  "demo_service = \<lparr>ds_id = ''s'', ds_slug = ''llm'', ds_is_active = True, ds_platform_key = Some ModelOffering,
     ds_billing = Some (service_billing_default\<lparr>sb_platform_key_pricing := Some \<lparr>lp_metric = Requests,
       lp_credits_per_unit = ''1'', lp_lago_metric_code = [], lp_sync_status = SyncSynced, lp_sync_error = None,
       lp_components = [], lp_operations = [], lp_model_prices = [demo_binding]\<rparr>\<rparr>)\<rparr>"

lemma demo_rates_ok: "for_each (check_rate demo_rates 1000 60) (mt_components demo_tariff) = Ok ()"
  by code_simp

lemma demo_fields: "mt_id demo_tariff = ''t1''" "mt_service_id demo_tariff = ''s''" "mt_model_id demo_tariff = ''m''"
  "mt_lane demo_tariff = PlatformKeyTariff" "mt_variant demo_tariff = []" "mt_status demo_tariff = TariffSynced"
  by (simp_all add: demo_tariff_def)

lemma demo_selected:
  "select_tariff demo_uuid demo_service ''m'' NyxidManagedMaster [] [demo_tariff] demo_rates 1000 60
     = Ok (SelectedTariff demo_tariff)"
  using demo_rates_ok demo_validated unfolding select_tariff_def
  by (simp add: demo_service_def service_billing_default_def demo_binding_def Let_def ok_or_def
      demo_fields)

lemma selected_tariff_is_live_witness:
  "selected (SelectedTariff demo_tariff) \<in> set [demo_tariff] \<and> mt_status demo_tariff = TariffSynced"
  using selected_tariff_is_live [OF demo_selected] by simp

lemma demo_code:
  "metric_code demo_uuid ''llm'' ''m'' ByokTariff 7 ''in''
     = Ok (''platform_svc_llm_byok_mdl_'' @ replicate 32 CHR ''0'' @ ''_t7_in'')"
  by code_simp

lemma metric_codes_identify_witness:
  "metric_code demo_uuid ''llm'' ''m'' ByokTariff 8 ''in''
     \<noteq> Ok (''platform_svc_llm_byok_mdl_'' @ replicate 32 CHR ''0'' @ ''_t7_in'')"
proof
  assume "metric_code demo_uuid ''llm'' ''m'' ByokTariff 8 ''in''
     = Ok (''platform_svc_llm_byok_mdl_'' @ replicate 32 CHR ''0'' @ ''_t7_in'')"
  moreover have "length id = 32" if "demo_uuid m = Some id" for m id
    using that by (auto simp: demo_uuid_def split: if_splits)
  ultimately show False using metric_codes_identify [OF _ demo_code] by fastforce
qed

end
