(* ===== verification/Route_Context_Properties.thy ===== *)
theory Route_Context_Properties
  imports Settlement_Rows Model_Tariff_Properties
begin

text \<open>
  Which prices a request is charged by: only configured ones, only for the credentials the
  service charges, and, once a model tariff is selected, exactly the components of that tariff.
\<close>

section \<open>Lane and legacy prices\<close>

text \<open>The lane a credential is charged on, where the service prices lanes at all.\<close>

definition credential_lane :: "credential_class \<Rightarrow> service_billing \<Rightarrow> lane_pricing option" where
  "credential_lane cls b = Option.bind (for_credential cls) (\<lambda>lane. lane_pricing_of lane b)"

definition credential_charged :: "credential_class \<Rightarrow> service_billing \<Rightarrow> bool" where
  "credential_charged cls b \<longleftrightarrow> sb_nyxid_credentials_only b \<longrightarrow> cls \<in> {NyxidManagedMaster, NyxidPlatformOauthApp}"

lemma context_fields:
  "rx_service_platform_billable (context_new i cls metric billing resale) = pr_billable (select_price cls metric billing)"
  "platform_specs (context_new i cls metric billing resale)
     = (pr_metric (select_price cls metric billing), pr_code (select_price cls metric billing))
       # map (\<lambda>c. (rs_metric c, rs_lago_metric_code c)) (pr_components (select_price cls metric billing))"
  "rx_resale (context_new i cls metric billing resale)
     = (if resale \<and> cls = NyxidManagedMaster then Option.bind billing active_resale_spec else None)"
  by (simp_all add: context_new_def platform_specs_def Let_def)

text \<open>
  C26. A request is charged only as configured. It is charged by the platform exactly when the
  service charges its credential class and either the class's own lane has a price that is synced
  or the legacy opt-in is set (and the class has a lane, where lanes are priced); it is billed
  under the synced lane prices and nothing else when the lane is synced, and under the one legacy
  metric otherwise. Resale is charged only for NyxID's own credentials, when enabled.
\<close>

theorem charged_only_as_configured:
  "(rx_service_platform_billable (context_new i cls metric (Some b) resale) \<longleftrightarrow>
      credential_charged cls b
      \<and> (if lanes_configured (Some b)
         then (case credential_lane cls b of None \<Rightarrow> False
               | Some lane \<Rightarrow> lp_sync_status lane = SyncSynced \<or> sb_platform_billable b)
         else sb_platform_billable b))
   \<and> platform_specs (context_new i cls metric (Some b) resale) =
      (case credential_lane cls b of
         Some lane \<Rightarrow>
           if lp_sync_status lane = SyncSynced
           then (lp_metric lane, lp_lago_metric_code lane)
             # map (\<lambda>c. (lc_metric c, lc_lago_metric_code c))
                 (filter (\<lambda>c. lc_sync_status c = SyncSynced) (lp_components lane))
           else [(metric, active_platform_metric_code b (platform_metric_code metric))]
       | None \<Rightarrow> [(metric, active_platform_metric_code b (platform_metric_code metric))])
   \<and> rx_resale (context_new i cls metric (Some b) resale)
      = (if resale \<and> cls = NyxidManagedMaster then active_resale_spec b else None)
   \<and> \<not> rx_service_platform_billable (context_new i cls metric None resale)"
proof -
  have conf: "credential_lane cls b = Some lane \<Longrightarrow> lanes_configured (Some b)" for lane
    by (cases "for_credential cls"; cases "the (for_credential cls)")
      (auto simp: credential_lane_def lanes_configured_def)
  have restricted: "select_price cls metric (Some b) = (let p =
      (if lanes_configured (Some b)
       then (case credential_lane cls b of
           Some lane \<Rightarrow> if lp_sync_status lane = SyncSynced then lane_priced lane else legacy_priced metric (Some b)
         | None \<Rightarrow> (legacy_priced metric (Some b))\<lparr>pr_billable := False\<rparr>)
       else legacy_priced metric (Some b))
     in if credential_charged cls b then p else p\<lparr>pr_billable := False\<rparr>)"
    unfolding select_price_def Let_def credential_lane_def credential_charged_def by simp
  show ?thesis
  proof (cases "credential_lane cls b")
    case None
    then show ?thesis unfolding context_fields restricted Let_def
      by (intro conjI) (simp_all add: legacy_priced_def select_price_def)
  next
    case (Some lane)
    then show ?thesis
      unfolding context_fields restricted Let_def using conf [OF Some]
      by (intro conjI) (simp_all add: legacy_priced_def lane_priced_def select_price_def)
  qed
qed

section \<open>Model tariffs\<close>

lemma with_model_tariff_Ok:
  assumes "with_model_tariff x s = Ok y"
  obtains c cs where "mt_components (selected s) = c # cs" "rx_catalog_service_id x = Some (mt_service_id (selected s))"
    "rx_resale x = None" "map_option tariff_lane_of (for_credential (rx_credential_class x)) = Some (mt_lane (selected s))"
    "y = x\<lparr>rx_platform_metric := tc_metric c, rx_platform_lago_metric_code := tc_lago_metric_code c,
            rx_platform_components := map component_spec cs,
            rx_operation := None, rx_operation_prices := [],
            rx_capture_tokens := uc_tokens (mt_contract (selected s)),
            rx_service_platform_billable := tariff_paid s, rx_lane_pricing_configured := True,
            rx_platform_metered := True, rx_platform_billable := tariff_paid s,
            rx_model_tariff := Some s\<rparr>"
  using assms unfolding with_model_tariff_def Let_def
  by (elim guard_OkE) (auto split: list.splits)

lemma with_model_tariff_selected: "with_model_tariff x s = Ok y \<Longrightarrow> rx_model_tariff y = Some s"
  by (erule with_model_tariff_Ok) simp

lemma model_tariff_specs:
  assumes "with_model_tariff x s = Ok y"
  shows "platform_specs y = map (\<lambda>c. (tc_metric c, tc_lago_metric_code c)) (mt_components (selected s))"
  by (rule with_model_tariff_Ok [OF assms]) (simp add: platform_specs_def component_spec_def)

lemma charge_vector_no_model: "charge_vector t e = Ok u \<Longrightarrow> pu_reported_model u = None"
  unfolding charge_vector_def by (elim and_then_OkE guard_OkE) (auto simp: platform_usage_default_def)

lemma find_code:
  assumes "distinct (map tc_lago_metric_code cs)" "c \<in> set cs"
  shows "find (\<lambda>d. tc_lago_metric_code d = tc_lago_metric_code c) cs = Some c"
  using assms by (induction cs) auto

lemma model_tariff_opened:
  assumes "with_model_tariff x s = Ok y" and "distinct (map tc_lago_metric_code (mt_components (selected s)))"
  shows "opened_rows y = map (\<lambda>c. \<lparr>me_metric = tc_metric c, me_lago_metric_code = tc_lago_metric_code c, me_operation = None,
      me_model_tariff = Some \<lparr>mb_tariff_id = mt_id (selected s), mb_public_model = mt_public_model (selected s),
        mb_max_quantity = tc_max_quantity c\<rparr>\<rparr>) (mt_components (selected s))"
proof -
  have y: "rx_platform_metered y" "rx_operation y = None" "rx_model_tariff y = Some s"
    by (rule with_model_tariff_Ok [OF assms(1)]; simp)+
  show ?thesis
    by (simp add: opened_rows_def model_tariff_specs [OF assms(1)] y reserved_row_def find_code [OF assms(2)])
qed

text \<open>
  C24. A model tariff replaces every other price, and its rows are charged what it charges. Once a
  validated tariff is installed, no lane, operation or resale price survives and no operation can
  bring one back; the request opens one row for each component of the tariff, in its order, under
  that component's metric and code. The charges the tariff computes from a usage report pass
  the checks of the settlement, and each row is then finalized with the quantity the report yields for
  the selector of its component.
\<close>

theorem model_tariff_rows_match_charges:
  assumes "with_model_tariff x s = Ok y" and "validate_tariff uuid_simple t0 slug = Ok (selected s)"
    and "tariff_usage s e = Ok u"
  shows "with_operation y operation = y \<and> rx_resale y = None \<and> rx_platform_billable y = tariff_paid s
    \<and> distinct (map me_lago_metric_code (opened_rows y))
    \<and> settlement_check (rx_model_tariff y) u = Ok () \<and> rows_check u (opened_rows y) = Ok ()
    \<and> (\<exists>v. normalize_usage (mt_contract (selected s)) e = Ok v
         \<and> list_all2 (\<lambda>c row. me_metric row = tc_metric c \<and> me_lago_metric_code row = tc_lago_metric_code c
               \<and> me_operation row = None
               \<and> (\<exists>n. btm_get v (tc_selector c) = Some n \<and> row_quantity u row = Some n))
             (mt_components (selected s)) (opened_rows y))"
proof -
  let ?cs = "mt_components (selected s)"
  obtain sels where valid: "tariff_valid uuid_simple slug (selected s) sels"
    using assms(2) by (rule validate_tariff_valid)
  note codes = valid_codes_distinct [OF valid]
  note rows = model_tariff_opened [OF assms(1) codes]
  obtain v qs where v: "normalize_usage (mt_contract (selected s)) e = Ok v" and loop: "quantities_loop v ?cs [] = Ok qs"
    and u: "pu_model_charges u = Some \<lparr>cv_native_usage = e, cv_tariff_id = mt_id (selected s),
        cv_public_model = mt_public_model (selected s), cv_quantities = qs\<rparr>" and r: "pu_reported_model u = None"
    using charge_vector_Ok_D [OF assms(3) [unfolded tariff_usage_def]]
      charge_vector_no_model [OF assms(3) [unfolded tariff_usage_def]] by metis
  have quantity: "\<exists>n. btm_get v (tc_selector c) = Some n \<and> btm_get qs (tc_lago_metric_code c) = Some n
      \<and> 0 \<le> n \<and> n \<le> tc_max_quantity c" if c: "c \<in> set ?cs" for c
  proof -
    obtain n where n: "btm_get v (tc_selector c) = Some n" "n \<le> tc_max_quantity c"
      using loop c unfolding quantities_loop_Ok_iff by blast
    moreover have "btm_get qs (tc_lago_metric_code c) = Some n"
      using loop n unfolding quantities_loop_Ok_iff by (simp add: foldl_insert_props(3) [OF codes c])
    moreover have "0 \<le> n" using normalize_usage_holds [OF v] btm_get_in_set [OF n(1)] by (auto simp: holds_def)
    ultimately show ?thesis by blast
  qed
  have len: "length qs = length ?cs" using loop unfolding quantities_loop_Ok_iff by (simp add: foldl_insert_length [OF codes])
  have fit: "charges_fit ?cs qs" using quantity by (fastforce simp: charges_fit_def list_ex_iff)
  have "settlement_check (Some s) u = Ok ()" by (simp add: settlement_check_def u r assms(3) len fit)
  moreover have "rx_model_tariff y = Some s" "with_operation y operation = y" "rx_resale y = None"
    "rx_platform_billable y = tariff_paid s"
    by (rule with_model_tariff_Ok [OF assms(1)]; simp add: with_operation_def split: option.splits)+
  moreover have "rows_check u (opened_rows y) = Ok ()"
    using quantity by (fastforce simp: rows_check_def u rows len row_mismatch_def list_ex_iff)
  moreover have "distinct (map me_lago_metric_code (opened_rows y))" using codes by (simp add: rows comp_def)
  moreover have "list_all2 (\<lambda>c row. me_metric row = tc_metric c \<and> me_lago_metric_code row = tc_lago_metric_code c
      \<and> me_operation row = None \<and> (\<exists>n. btm_get v (tc_selector c) = Some n \<and> row_quantity u row = Some n))
      ?cs (opened_rows y)"
    using quantity unfolding rows by (fastforce simp: list.rel_map row_quantity_def u intro!: list.rel_refl_strong)
  ultimately show ?thesis using v by simp
qed

definition demo_identity :: request_identity where
  "demo_identity = \<lparr>ri_ingress = LlmGateway, ri_billing_request_id = ''r'', ri_billing_owner_id = ''o'',
     ri_actor_user_id = ''a'', ri_api_key_id = None, ri_user_service_id = None, ri_catalog_service_id = Some ''s'',
     ri_service_slug = Some ''llm'', ri_node_intent = DirectRoute, ri_auth_method = ''session''\<rparr>"

definition demo_route :: route_context where
  "demo_route = context_new demo_identity NyxidManagedMaster Tokens (ds_billing demo_service) True"

definition demo_tariff_route :: route_context where
  "demo_tariff_route = (case with_model_tariff demo_route (SelectedTariff demo_tariff) of Ok y \<Rightarrow> y | Err _ \<Rightarrow> demo_route)"

lemma demo_route_ok: "with_model_tariff demo_route (SelectedTariff demo_tariff) = Ok demo_tariff_route"
proof -
  have "is_ok (with_model_tariff demo_route (SelectedTariff demo_tariff))" by code_simp
  then show ?thesis by (auto simp: demo_tariff_route_def is_ok_iff)
qed

lemma model_tariff_rows_match_charges_witness:
  "with_operation demo_tariff_route (Some ''ask'') = demo_tariff_route
   \<and> (\<exists>u. tariff_usage (SelectedTariff demo_tariff) demo_use = Ok u
        \<and> settlement_check (Some (SelectedTariff demo_tariff)) u = Ok ()
        \<and> map (row_quantity u) (opened_rows demo_tariff_route) = [Some 100, Some 10])"
proof -
  obtain u where u: "tariff_usage (SelectedTariff demo_tariff) demo_use = Ok u"
    using valid_tariff_charges [OF demo_validated demo_used demo_fits] by (auto simp: tariff_usage_def)
  have "validate_tariff demo_uuid demo_tariff ''llm'' = Ok (selected (SelectedTariff demo_tariff))"
    using demo_validated by simp
  note rows = model_tariff_rows_match_charges [OF demo_route_ok this u, of "Some ''ask''"]
  have "rx_model_tariff demo_tariff_route = Some (SelectedTariff demo_tariff)"
    by (rule with_model_tariff_selected [OF demo_route_ok])
  moreover have "mt_components (selected (SelectedTariff demo_tariff)) = [demo_component ''in'' SInput, demo_component ''out'' SOutput]"
    "tc_selector (demo_component k t) = t" for k t by (simp_all add: demo_tariff_def demo_component_def)
  ultimately show ?thesis using rows u demo_used by (auto simp: list_all2_Cons1 btm_get_def)
qed

end
