(* ===== verification/Pricing_Properties.thy ===== *)
theory Pricing_Properties
  imports Pricing Credit_Properties
begin

text \<open>
  What an edit of a billing configuration guarantees: no metric code that was charged is lost
  before its charge is removed, and no price counts as synced that was not synced as it stands.
\<close>

section \<open>Cleanup queues\<close>

lemma set_push_new [simp]: "set (push_new queue code) = insert code (set queue)"
  by (auto simp: push_new_def)

lemma distinct_push_new [simp]: "distinct (push_new queue code) \<longleftrightarrow> distinct queue"
  by (simp add: push_new_def)

lemma queue_operations_Cons:
  "queue_operations (old # olds) kept queue = queue_operations olds kept
     (if op_lago_metric_code old \<noteq> [] \<and> op_lago_metric_code old \<notin> op_lago_metric_code ` set kept
      then push_new queue (op_lago_metric_code old) else queue)"
  by (simp add: queue_operations_def)

lemma queue_components_Cons:
  "queue_components (old # olds) kept queue = queue_components olds kept
     (if lc_lago_metric_code old \<notin> lc_lago_metric_code ` set kept
      then push_new queue (lc_lago_metric_code old) else queue)"
  by (simp add: queue_components_def)

lemma queue_operations_set:
  "set (queue_operations olds kept queue) = set queue
     \<union> (op_lago_metric_code ` set olds - op_lago_metric_code ` set kept - {[]})"
  by (induction olds arbitrary: queue) (auto simp: queue_operations_Cons, simp_all add: queue_operations_def)

lemma queue_components_set:
  "set (queue_components olds kept queue) = set queue \<union> (lc_lago_metric_code ` set olds - lc_lago_metric_code ` set kept)"
  by (induction olds arbitrary: queue) (auto simp: queue_components_Cons, simp_all add: queue_components_def)

lemma queue_operations_distinct: "distinct queue \<Longrightarrow> distinct (queue_operations olds kept queue)"
  by (induction olds arbitrary: queue) (simp_all add: queue_operations_def)

lemma queue_components_distinct: "distinct queue \<Longrightarrow> distinct (queue_components olds kept queue)"
  by (induction olds arbitrary: queue) (simp_all add: queue_components_def)

lemmas queue_facts = queue_operations_set queue_components_set queue_operations_distinct queue_components_distinct

section \<open>The metric codes of a lane\<close>

definition lane_codes :: "lane_pricing option \<Rightarrow> string set" where
  "lane_codes lane = (case lane of None \<Rightarrow> {} | Some p \<Rightarrow>
     insert (lp_lago_metric_code p)
       (lc_lago_metric_code ` set (lp_components p) \<union> op_lago_metric_code ` set (lp_operations p)))"

lemma normalize_lane_Ok:
  assumes "normalize_lane slug tag previous lane = Ok lane'"
  obtains cs ps price where
    "lane' = (normalize_primary slug tag previous
        (lane\<lparr>lp_model_prices := list_of_option lp_model_prices previous, lp_credits_per_unit := price\<rparr>))
        \<lparr>lp_components := cs, lp_operations := ps\<rparr>"
    "normalize_price (lp_credits_per_unit lane) = Ok price"
    "normalize_components slug tag (list_of_option lp_components previous) [lp_metric lane] (lp_components lane) = Ok cs"
    "normalize_operations slug tag (list_of_option lp_operations previous) [] [] (lp_operations lane) = Ok ps"
proof -
  have keeps: "lp_metric (normalize_primary slug tag previous l) = lp_metric l"
    "lp_components (normalize_primary slug tag previous l) = lp_components l"
    "lp_operations (normalize_primary slug tag previous l) = lp_operations l" for l
    by (simp_all add: normalize_primary_def split: option.splits)
  show ?thesis
    using assms that unfolding normalize_lane_def Let_def
    by (auto simp: keeps split: option.splits)
qed

lemma normalized_code: "previous = Some p \<Longrightarrow> lp_lago_metric_code p \<noteq> []
  \<Longrightarrow> lp_lago_metric_code (normalize_primary slug tag previous lane) = lp_lago_metric_code p"
  by (simp add: normalize_primary_def)

lemma lane_turn_keeps:
  assumes "lane_turn slug tag previous marker lane queue = Ok (lane', marker', queue')"
  shows "lane_codes previous - {[]} \<subseteq> lane_codes lane' \<union> set queue' \<union> set_option marker'
    \<and> set queue \<subseteq> set queue' \<and> (distinct queue \<longrightarrow> distinct queue')
    \<and> (lane = None \<and> previous = None \<longrightarrow> marker' = marker)"
proof (cases lane)
  case None
  with assms show ?thesis
    by (cases previous)
       (auto simp: lane_turn_def Let_def lane_codes_def list_of_option_def or_else_def queue_facts split: if_splits option.splits)
next
  case (Some l)
  then obtain l' where l': "normalize_lane slug tag previous l = Ok l'" "lane' = Some l'" "marker' = None"
    and q: "queue' = queue_components (list_of_option lp_components previous) (lp_components l')
                  (queue_operations (list_of_option lp_operations previous) (lp_operations l') queue)"
    using assms by (auto simp: lane_turn_def Let_def)
  have "lp_lago_metric_code p \<noteq> [] \<Longrightarrow> lp_lago_metric_code l' = lp_lago_metric_code p" if "previous = Some p" for p
    using l'(1) that by (elim normalize_lane_Ok) (simp add: normalized_code)
  then show ?thesis
    using l' q Some by (cases previous)
       (auto simp: lane_codes_def list_of_option_def queue_facts)
qed
section \<open>Synced prices\<close>

lemma retained_component_cases:
  "retained_component olds c = c
   \<or> retained_component olds c \<in> set olds \<and> lc_credits_per_unit (retained_component olds c) = lc_credits_per_unit c"
  by (auto simp: retained_component_def find_Some_iff split: option.splits)

lemma retained_operation_cases:
  "retained_operation olds p = p
   \<or> retained_operation olds p \<in> set olds \<and> op_credits_per_unit (retained_operation olds p) = op_credits_per_unit p"
  by (auto simp: retained_operation_def find_Some_iff split: option.splits)

lemma synced_components:
  "normalize_components slug tag olds metrics cs = Ok cs' \<Longrightarrow>
     \<forall>c\<in>set cs'. (lc_sync_status c = SyncPending \<or> c \<in> set olds) \<and> (\<exists>raw. normalize_price raw = Ok (lc_credits_per_unit c))"
proof (induction slug tag olds metrics cs arbitrary: cs' rule: normalize_components.induct)
  case (2 slug tag olds metrics d ds)
  let ?e = "\<lambda>price. \<lparr>lc_metric = lc_metric d, lc_credits_per_unit = price,
      lc_lago_metric_code = ''platform_svc_'' @ slug @ ''_'' @ tag @ ''_'' @ metric_str (lc_metric d),
      lc_sync_status = SyncPending, lc_sync_error = None\<rparr>"
  from "2.prems" obtain price ds' where p: "normalize_price (lc_credits_per_unit d) = Ok price"
    and r: "normalize_components slug tag olds (metrics @ [lc_metric d]) ds = Ok ds'" "\<not> lc_metric d \<in> set metrics"
    and e: "cs' = retained_component olds (?e price) # ds'"
    by (auto split: if_splits)
  from p have "\<exists>raw. normalize_price raw = Ok price" ..
  then show ?case
    using retained_component_cases [of olds "?e price"] "2.IH" [OF r(2) r(1)] e by (auto simp del: append.simps)
qed simp

lemma synced_operations:
  "normalize_operations slug tag olds keys codes ps = Ok ps' \<Longrightarrow>
     \<forall>p\<in>set ps'. (op_sync_status p = SyncPending \<or> p \<in> set olds) \<and> (\<exists>raw. normalize_price raw = Ok (op_credits_per_unit p))"
proof (induction slug tag olds keys codes ps arbitrary: ps' rule: normalize_operations.induct)
  case (2 slug tag olds keys codes d ds)
  let ?e = "\<lambda>price code. \<lparr>op_operation = trim (op_operation d), op_credits_per_unit = price,
      op_lago_metric_code = code, op_sync_status = SyncPending, op_sync_error = None\<rparr>"
  from "2.prems" obtain price code ds' where p: "normalize_price (op_credits_per_unit d) = Ok price"
    and r: "normalize_operations slug tag olds (trim (op_operation d) # keys) (code # codes) ds = Ok ds'"
    and e: "ps' = retained_operation olds (?e price code) # ds'"
    and g: "\<not> (trim (op_operation d) = [] \<or> trim (op_operation d) \<in> set keys)" "code \<notin> set codes"
    by (auto simp: Let_def split: if_splits)
  from p have "\<exists>raw. normalize_price raw = Ok price" ..
  then show ?case
    using retained_operation_cases [of olds "?e price code"] "2.IH" [OF refl g(1) g(2) r] e by auto
qed simp

lemma normalize_lane_pricing_Ok:
  assumes "normalize_lane_pricing slug (Some current) requested = Ok b"
  obtains queue1 where
    "lane_turn slug ''byok'' (sb_byok_pricing current) (sb_byok_cleanup current) (sb_byok_pricing requested)
       (sb_component_cleanup current) = Ok (sb_byok_pricing b, sb_byok_cleanup b, queue1)"
    "lane_turn slug ''pk'' (sb_platform_key_pricing current) (sb_platform_key_cleanup current)
       (sb_platform_key_pricing requested) queue1
     = Ok (sb_platform_key_pricing b, sb_platform_key_cleanup b, sb_component_cleanup b)"
  using assms unfolding normalize_lane_pricing_def Let_def
  by (elim guard_OkE and_then_OkE case_prod_OkE) (auto simp: list_of_option_def)

text \<open>
  C40. No charge is orphaned. Every metric code that a stored lane charges (its primary price, its
  components, its operations) is, after an accepted edit, still charged by that lane or queued
  for removal; what was queued before stays queued; and nothing is queued twice.
\<close>

theorem no_charge_is_orphaned:
  assumes "normalize_lane_pricing slug (Some current) requested = Ok b"
  shows "lane_codes (sb_byok_pricing current) - {[]}
           \<subseteq> lane_codes (sb_byok_pricing b) \<union> set (sb_component_cleanup b) \<union> set_option (sb_byok_cleanup b)
       \<and> lane_codes (sb_platform_key_pricing current) - {[]}
           \<subseteq> lane_codes (sb_platform_key_pricing b) \<union> set (sb_component_cleanup b) \<union> set_option (sb_platform_key_cleanup b)
       \<and> set (sb_component_cleanup current) \<subseteq> set (sb_component_cleanup b)
       \<and> (distinct (sb_component_cleanup current) \<longrightarrow> distinct (sb_component_cleanup b))"
proof -
  obtain queue1 where
    turns: "lane_turn slug ''byok'' (sb_byok_pricing current) (sb_byok_cleanup current) (sb_byok_pricing requested)
       (sb_component_cleanup current) = Ok (sb_byok_pricing b, sb_byok_cleanup b, queue1)"
    "lane_turn slug ''pk'' (sb_platform_key_pricing current) (sb_platform_key_cleanup current)
       (sb_platform_key_pricing requested) queue1
     = Ok (sb_platform_key_pricing b, sb_platform_key_cleanup b, sb_component_cleanup b)"
    using assms by (rule normalize_lane_pricing_Ok)
  show ?thesis
    using lane_turn_keeps [OF turns(1)] lane_turn_keeps [OF turns(2)] by blast
qed

definition synced_as_stored :: "lane_pricing option \<Rightarrow> lane_pricing option \<Rightarrow> bool" where
  "synced_as_stored previous lane \<longleftrightarrow> (case lane of None \<Rightarrow> True | Some p \<Rightarrow>
     (lp_sync_status p = SyncPending
      \<or> (\<exists>q. previous = Some q \<and> lp_metric q = lp_metric p \<and> lp_credits_per_unit q = lp_credits_per_unit p
            \<and> lp_lago_metric_code q = lp_lago_metric_code p \<and> lp_sync_status q = lp_sync_status p))
     \<and> (\<forall>c\<in>set (lp_components p). lc_sync_status c = SyncPending \<or> c \<in> set (list_of_option lp_components previous))
     \<and> (\<forall>c\<in>set (lp_operations p). op_sync_status c = SyncPending \<or> c \<in> set (list_of_option lp_operations previous))
     \<and> lp_model_prices p = list_of_option lp_model_prices previous)"

lemma lane_turn_synced:
  assumes "lane_turn slug tag previous marker lane queue = Ok (lane', marker', queue')"
  shows "synced_as_stored previous lane'"
proof (cases lane)
  case None
  with assms show ?thesis by (auto simp: lane_turn_def Let_def synced_as_stored_def split: if_splits)
next
  case (Some l)
  then obtain l' where l': "normalize_lane slug tag previous l = Ok l'" "lane' = Some l'"
    using assms by (auto simp: lane_turn_def Let_def)
  show ?thesis
    using l'(1)
  proof (rule normalize_lane_Ok)
    fix cs ps price
    let ?l = "l\<lparr>lp_model_prices := list_of_option lp_model_prices previous, lp_credits_per_unit := price\<rparr>"
    assume l'': "l' = (normalize_primary slug tag previous ?l)\<lparr>lp_components := cs, lp_operations := ps\<rparr>"
      and parts: "normalize_components slug tag (list_of_option lp_components previous) [lp_metric l] (lp_components l) = Ok cs"
        "normalize_operations slug tag (list_of_option lp_operations previous) [] [] (lp_operations l) = Ok ps"
    note synced = synced_components [OF parts(1)] synced_operations [OF parts(2)]
    show ?thesis
      unfolding l'(2) l'' using synced
      by (auto simp: synced_as_stored_def normalize_primary_def split: option.splits)
  qed
qed

text \<open>
  An edit never makes a price look synced. After an accepted edit, every lane, component and
  operation price that is not pending is the stored one, with the very price and metric code it
  was synced with; anything new or changed is pending. Model price bindings cannot be edited
  this way at all.
\<close>

theorem edited_prices_are_pending:
  assumes "normalize_lane_pricing slug (Some current) requested = Ok b"
  shows "synced_as_stored (sb_byok_pricing current) (sb_byok_pricing b)
       \<and> synced_as_stored (sb_platform_key_pricing current) (sb_platform_key_pricing b)"
  by (rule normalize_lane_pricing_Ok [OF assms]) (blast intro: lane_turn_synced)

section \<open>A concrete edit\<close>

definition demo_component_price :: "billing_metric \<Rightarrow> string \<Rightarrow> string \<Rightarrow> sync_status \<Rightarrow> lane_price_component" where
  "demo_component_price m price code st = \<lparr>lc_metric = m, lc_credits_per_unit = price, lc_lago_metric_code = code,
     lc_sync_status = st, lc_sync_error = None\<rparr>"

definition demo_lane :: "lane_price_component list \<Rightarrow> lane_pricing" where
  "demo_lane cs = \<lparr>lp_metric = Requests, lp_credits_per_unit = ''2'', lp_lago_metric_code = ''platform_svc_x_byok'',
     lp_sync_status = SyncSynced, lp_sync_error = None, lp_components = cs, lp_operations = [], lp_model_prices = []\<rparr>"

definition demo_stored :: service_billing where
  "demo_stored = service_billing_default\<lparr>sb_byok_pricing := Some (demo_lane
     [demo_component_price Images ''1'' ''platform_svc_x_byok_images'' SyncSynced])\<rparr>"

definition demo_edit :: service_billing where
  "demo_edit = service_billing_default\<lparr>sb_byok_pricing := Some (demo_lane
     [demo_component_price Bytes '' 3.50'' [] SyncSynced])\<rparr>"

definition demo_edited :: service_billing where
  "demo_edited = service_billing_default\<lparr>sb_byok_pricing := Some (demo_lane
     [demo_component_price Bytes ''3.5'' ''platform_svc_x_byok_bytes'' SyncPending]),
     sb_component_cleanup := [''platform_svc_x_byok_images'']\<rparr>"

lemma demo_edit_ok: "normalize_lane_pricing ''x'' (Some demo_stored) demo_edit = Ok demo_edited"
  by code_simp

lemma no_charge_is_orphaned_witness:
  "lane_codes (sb_byok_pricing demo_stored) - {[]}
     \<subseteq> lane_codes (sb_byok_pricing demo_edited) \<union> {''platform_svc_x_byok_images''}"
  using no_charge_is_orphaned [OF demo_edit_ok] by (simp add: demo_edited_def service_billing_default_def)

lemma edited_prices_are_pending_witness:
  "synced_as_stored (sb_byok_pricing demo_stored) (sb_byok_pricing demo_edited)"
  using edited_prices_are_pending [OF demo_edit_ok] by blast

end
