(* ===== verification/Sse_Parser.thy ===== *)
theory Sse_Parser
  imports Json Rust_Utf8
begin

text \<open>
  Server-sent events (\<open>services/sse_parser.rs\<close>): the parser that takes the next event off a
  buffer, and the bounded decoder that frames a byte stream for it. Parsing JSON is
  \<open>serde_json\<close>'s and an argument, \<open>parse\<close>.
\<close>

section \<open>Lines\<close>

definition NL :: char where "NL = char_of (10::nat)"
definition CR :: char where "CR = char_of (13::nat)"

text \<open>
  \<open>str::lines\<close>: the pieces a newline ends, without the carriage return before it, and what is
  left after the last newline as it is.
\<close>

definition strip_cr :: "string \<Rightarrow> string" where
  "strip_cr l = (case strip_suffix [CR] l of None \<Rightarrow> l | Some k \<Rightarrow> k)"

definition str_lines :: "string \<Rightarrow> string list" where
  "str_lines s = (let pieces = split_on NL s
     in map strip_cr (butlast pieces) @ (if last pieces = [] then [] else [last pieces]))"

section \<open>The parser\<close>

record sse_event =
  se_type :: "string option"
  se_data :: string

text \<open>The fields of one frame: the last \<open>event:\<close> and every \<open>data:\<close>.\<close>

definition frame_line :: "string option \<times> string list \<Rightarrow> string \<Rightarrow> string option \<times> string list" where
  "frame_line = (\<lambda>(event_type, data_parts) line.
     case strip_prefix ''event:'' line of
       Some rest \<Rightarrow> (Some (trim_start rest), data_parts)
     | None \<Rightarrow> (case strip_prefix ''data:'' line of
         Some rest \<Rightarrow> (event_type, data_parts @ [trim_start rest])
       | None \<Rightarrow> (event_type, data_parts)))"

definition event_of :: "(string \<Rightarrow> json option) \<Rightarrow> string \<Rightarrow> sse_event option" where
  "event_of parse frame =
     (let (event_type, data_parts) = foldl frame_line (None, []) (str_lines frame) in
      if data_parts = [] \<and> event_type = None then None
      else (let content = join [NL] data_parts;
                event_type = (case event_type of Some t \<Rightarrow> Some t
                  | None \<Rightarrow> Option.bind (parse content) (\<lambda>v. Option.bind (jget v ''type'') as_str))
            in Some \<lparr>se_type = event_type, se_data = content\<rparr>))"

text \<open>\<open>buffer.find("\n\n")\<close>: what precedes the first empty line, and what follows it.\<close>

fun find_blank :: "string \<Rightarrow> (string \<times> string) option" where
  "find_blank [] = None"
| "find_blank (c # s) =
     (if c = NL \<and> s \<noteq> [] \<and> hd s = NL then Some ([], tl s)
      else map_option (\<lambda>(frame, rest). (c # frame, rest)) (find_blank s))"

lemma find_blank_length: "find_blank s = Some (f, r) \<Longrightarrow> length r < length s"
  by (induction s arbitrary: f) (auto split: if_splits)

function parse_next_event :: "(string \<Rightarrow> json option) \<Rightarrow> string \<Rightarrow> sse_event option \<times> string" where
  "parse_next_event parse buffer = (case find_blank buffer of
     None \<Rightarrow> (None, buffer)
   | Some (frame, rest) \<Rightarrow> (case event_of parse frame of
       Some e \<Rightarrow> (Some e, rest)
     | None \<Rightarrow> parse_next_event parse rest))"
  by auto

termination
  by (relation "measure (\<lambda>(_, b). length b)") (auto dest: find_blank_length)

declare parse_next_event.simps [simp del]

lemma parse_next_event_shrinks:
  "parse_next_event parse b = (Some e, r) \<Longrightarrow> length r < length b"
proof (induction parse b arbitrary: r rule: parse_next_event.induct)
  case (1 parse b)
  obtain f t where b: "find_blank b = Some (f, t)"
    using "1.prems" by (subst (asm) parse_next_event.simps) (auto split: option.splits)
  show ?case
  proof (cases "event_of parse f")
    case None
    then have "parse_next_event parse t = (Some e, r)"
      using "1.prems" b by (subst (asm) parse_next_event.simps) simp
    then show ?thesis using "1.IH" [OF b refl None] find_blank_length [OF b] by simp
  next
    case (Some e')
    then have "r = t" using "1.prems" b by (subst (asm) parse_next_event.simps) simp
    then show ?thesis using find_blank_length [OF b] by simp
  qed
qed

text \<open>\<open>while let Some(event) = parse_next_event(&mut buffer)\<close>.\<close>

function parse_events :: "(string \<Rightarrow> json option) \<Rightarrow> string \<Rightarrow> sse_event list" where
  "parse_events parse buffer = (case parse_next_event parse buffer of
     (None, _) \<Rightarrow> []
   | (Some e, rest) \<Rightarrow> e # parse_events parse rest)"
  by auto

termination
  by (relation "measure (\<lambda>(_, b). length b)") (auto dest: parse_next_event_shrinks [OF sym])

declare parse_events.simps [simp del]

section \<open>The bounded decoder\<close>

datatype decode_error = TooLarge | InvalidUtf8

record decoder =
  dc_buffer :: string
  dc_previous_cr :: bool
  dc_line_has_content :: bool
  dc_discarding :: bool
  dc_max_bytes :: "nat option"

definition decoder_default :: decoder where
  "decoder_default = \<lparr>dc_buffer = [], dc_previous_cr = False, dc_line_has_content = False,
     dc_discarding = False, dc_max_bytes = None\<rparr>"

definition with_max_bytes :: "nat \<Rightarrow> decoder" where
  "with_max_bytes n = decoder_default\<lparr>dc_max_bytes := Some n\<rparr>"

text \<open>\<open>u8::is_ascii_whitespace\<close>: space, tab, line feed, form feed and carriage return.\<close>

definition is_ascii_whitespace :: "char \<Rightarrow> bool" where
  "is_ascii_whitespace c \<longleftrightarrow> byte c \<in> {32, 9, 10, 12, 13}"

definition has_incomplete_event :: "decoder \<Rightarrow> bool" where
  "has_incomplete_event d \<longleftrightarrow> dc_discarding d \<or> list_ex (\<lambda>c. \<not> is_ascii_whitespace c) (dc_buffer d)"

definition max_bytes :: "decoder \<Rightarrow> nat" where
  "max_bytes d = (case dc_max_bytes d of None \<Rightarrow> 512 * 1024 | Some n \<Rightarrow> n)"

text \<open>The check that ends every step that is not a boundary.\<close>

definition check_size :: "decoder \<Rightarrow> (decode_error + sse_event) option \<times> decoder" where
  "check_size d = (if length (dc_buffer d) \<ge> max_bytes d
     then (Some (Err TooLarge), d\<lparr>dc_buffer := [], dc_discarding := True\<rparr>)
     else (None, d))"

definition close_frame :: "(string \<Rightarrow> json option) \<Rightarrow> decoder \<Rightarrow> (decode_error + sse_event) option \<times> decoder" where
  "close_frame parse d =
     (if dc_discarding d then (None, d\<lparr>dc_discarding := False\<rparr>)
      else (let frame = dc_buffer d @ [NL]
            in (if utf8_valid frame then map_option Ok (fst (parse_next_event parse frame))
                else Some (Err InvalidUtf8),
                d\<lparr>dc_buffer := []\<rparr>)))"

definition push_byte ::
  "(string \<Rightarrow> json option) \<Rightarrow> decoder \<Rightarrow> char \<Rightarrow> (decode_error + sse_event) option \<times> decoder" where
  "push_byte parse d c =
     (if dc_previous_cr d \<and> c = NL then (None, d\<lparr>dc_previous_cr := False\<rparr>)
      else (let d = d\<lparr>dc_previous_cr := (c = CR)\<rparr> in
        if c = CR \<or> c = NL then
          (let boundary = \<not> dc_line_has_content d; d = d\<lparr>dc_line_has_content := False\<rparr> in
           if boundary then close_frame parse d
           else check_size (if dc_discarding d then d else d\<lparr>dc_buffer := dc_buffer d @ [NL]\<rparr>))
        else
          (let d = d\<lparr>dc_line_has_content := True\<rparr>
           in check_size (if dc_discarding d then d else d\<lparr>dc_buffer := dc_buffer d @ [c]\<rparr>))))"

text \<open>What pushing a stream byte by byte reports, in order, and the decoder it leaves.\<close>

fun push_bytes ::
  "(string \<Rightarrow> json option) \<Rightarrow> decoder \<Rightarrow> string \<Rightarrow> (decode_error + sse_event) list \<times> decoder" where
  "push_bytes parse d [] = ([], d)"
| "push_bytes parse d (c # s) =
     (let (out, d) = push_byte parse d c; (outs, d) = push_bytes parse d s
      in (case out of None \<Rightarrow> outs | Some x \<Rightarrow> x # outs, d))"

end
