(* ===== verification/Sse_Properties.thy ===== *)
theory Sse_Properties
  imports Sse_Parser
begin

text \<open>
  The bounded decoder reports the very events the parser finds in the whole text, however the
  bytes arrive and whatever line endings they use; and it recovers after a frame it refuses.
\<close>

section \<open>The parser, frame by frame\<close>

lemma parse_events_frames:
  "parse_events parse b = (case find_blank b of
     None \<Rightarrow> []
   | Some (f, r) \<Rightarrow> (case event_of parse f of None \<Rightarrow> parse_events parse r | Some e \<Rightarrow> e # parse_events parse r))"
  by (subst parse_events.simps, subst parse_next_event.simps)
     (auto split: option.splits simp: parse_events.simps [of parse "_ :: string"])

lemma find_blank_append:
  "find_blank (b @ [NL]) = None \<Longrightarrow> find_blank (b @ NL # NL # r) = Some (b, r)"
proof (induction b)
  case (Cons c b)
  then show ?case by (cases b) (auto split: if_splits)
qed simp

lemma find_blank_snoc:
  "find_blank b = None \<Longrightarrow> c \<noteq> NL \<or> b = [] \<or> last b \<noteq> NL \<Longrightarrow> find_blank (b @ [c]) = None"
proof (induction b)
  case (Cons d b)
  then show ?case by (cases b) (auto split: if_splits)
qed simp

lemma find_blank_NL: "find_blank (NL # x) = (case x of
    [] \<Rightarrow> None
  | c # y \<Rightarrow> if c = NL then Some ([], y) else map_option (\<lambda>(f, r). (NL # f, r)) (find_blank x))"
  by (cases x) auto

lemma frame_line_empty: "frame_line st [] = st"
  by (cases st) (simp add: frame_line_def)

lemma strip_cr_Nil: "strip_cr [] = []"
  by (simp add: strip_cr_def strip_suffix_def)

lemma event_of_NL: "event_of parse (NL # f) = event_of parse f"
proof -
  have "foldl frame_line st (str_lines (NL # f)) = foldl frame_line st (str_lines f)" for st
    by (auto simp: str_lines_def Let_def frame_line_empty strip_cr_Nil)
  then show ?thesis by (simp add: event_of_def)
qed

lemma event_of_Nil: "event_of parse [] = None"
  by (simp add: event_of_def str_lines_def)

lemma parse_events_NL: "parse_events parse (NL # x) = parse_events parse x"
proof (induction "length x" arbitrary: x rule: less_induct)
  case less
  show ?case
  proof (cases x)
    case Nil
    then show ?thesis by (simp add: parse_events_frames [of parse "[NL]"] parse_events_frames [of parse "[]"])
  next
    case (Cons c y)
    show ?thesis
    proof (cases "c = NL")
      case True
      then have "parse_events parse (NL # x) = parse_events parse y"
        by (subst parse_events_frames) (simp add: Cons event_of_Nil)
      also have "\<dots> = parse_events parse x" using less [of y] Cons True by simp
      finally show ?thesis .
    next
      case False
      then have "find_blank (NL # x) = map_option (\<lambda>(f, r). (NL # f, r)) (find_blank x)"
        using Cons by (simp add: find_blank_NL)
      then show ?thesis
        by (subst (1 2) parse_events_frames) (auto simp: event_of_NL split: option.splits)
    qed
  qed
qed

section \<open>The decoder\<close>

text \<open>Line endings as the decoder reads them: CR, LF and CRLF each end one line.\<close>

fun norm_eol :: "bool \<Rightarrow> string \<Rightarrow> string" where
  "norm_eol previous_cr [] = []"
| "norm_eol previous_cr (c # s) =
     (if previous_cr \<and> c = NL then norm_eol False s
      else (if c = CR then NL else c) # norm_eol (c = CR) s)"

text \<open>The decoder between two boundaries, as long as it refused nothing.\<close>

definition framing :: "decoder \<Rightarrow> bool" where
  "framing d \<longleftrightarrow> \<not> dc_discarding d \<and> find_blank (dc_buffer d) = None
     \<and> (dc_line_has_content d \<longleftrightarrow> dc_buffer d \<noteq> [] \<and> last (dc_buffer d) \<noteq> NL)"

lemma framing_default: "framing decoder_default"
  by (simp add: framing_def decoder_default_def)

lemma CR_NL: "CR \<noteq> NL"
  by (simp add: CR_def NL_def)

text \<open>Closing a frame reports what the parser finds up to the blank line.\<close>

lemma close_frame_event:
  assumes d: "framing d" "\<not> dc_line_has_content d" and out: "close_frame parse d = (out, d')"
    and ok: "\<forall>x\<in>set_option out. is_ok x"
  shows "parse_events parse (dc_buffer d @ NL # r) = (case out of Some (Ok e) \<Rightarrow> [e] | _ \<Rightarrow> []) @ parse_events parse r"
    and "d' = d\<lparr>dc_buffer := []\<rparr>"
proof -
  show "d' = d\<lparr>dc_buffer := []\<rparr>" using out d(1) by (auto simp: close_frame_def framing_def Let_def)
  have o: "out = map_option Ok (fst (parse_next_event parse (dc_buffer d @ [NL])))"
    using out ok d(1) by (auto simp: close_frame_def framing_def Let_def split: if_splits)
  show "parse_events parse (dc_buffer d @ NL # r) = (case out of Some (Ok e) \<Rightarrow> [e] | _ \<Rightarrow> []) @ parse_events parse r"
  proof (cases "dc_buffer d = []")
    case True
    then have "out = None" using o by (subst (asm) parse_next_event.simps) simp
    then show ?thesis using True by (simp add: parse_events_NL)
  next
    case False
    with d obtain b where b: "dc_buffer d = b @ [NL]" unfolding framing_def by (metis append_butlast_last_id)
    have none: "find_blank (b @ [NL]) = None" using d(1) b by (simp add: framing_def)
    have "fst (parse_next_event parse (b @ [NL, NL])) = event_of parse b"
      using find_blank_append [OF none, of "[]"]
      by (subst parse_next_event.simps) (auto simp: parse_next_event.simps [of parse "[]"] split: option.splits)
    then have "out = map_option Ok (event_of parse b)" using o b by simp
    then show ?thesis
      using find_blank_append [OF none, of r] b
      by (subst parse_events_frames) (auto split: option.splits)
  qed
qed

lemma framing_append:
  assumes "framing d" "c = NL \<longrightarrow> dc_line_has_content d"
  shows "framing (d\<lparr>dc_line_has_content := (c \<noteq> NL), dc_buffer := dc_buffer d @ [c]\<rparr>)"
  using assms find_blank_snoc [of "dc_buffer d" c] by (auto simp: framing_def)

text \<open>One byte: what is reported, and what stays to be parsed.\<close>

lemma push_byte_step:
  assumes d: "framing d" and out: "push_byte parse d c = (out, d')" and ok: "\<forall>x\<in>set_option out. is_ok x"
  shows "framing d' \<and> parse_events parse (dc_buffer d @ norm_eol (dc_previous_cr d) (c # s))
    = (case out of Some (Ok e) \<Rightarrow> [e] | _ \<Rightarrow> []) @ parse_events parse (dc_buffer d' @ norm_eol (dc_previous_cr d') s)"
proof (cases "dc_previous_cr d \<and> c = NL")
  case True
  then show ?thesis using d out by (auto simp: push_byte_def framing_def)
next
  case False
  let ?d = "d\<lparr>dc_previous_cr := (c = CR)\<rparr>"
  let ?n = "if c = CR then NL else c"
  have norm: "norm_eol (dc_previous_cr d) (c # s) = ?n # norm_eol (c = CR) s" using False CR_NL by auto
  show ?thesis
  proof (cases "?n = NL \<and> \<not> dc_line_has_content d")
    case True
    then have nl: "c = CR \<or> c = NL" by (auto split: if_splits)
    let ?e = "?d\<lparr>dc_line_has_content := False\<rparr>"
    have e: "framing ?e" "\<not> dc_line_has_content ?e" using d True by (auto simp: framing_def)
    have "close_frame parse ?e = (out, d')"
      using out False nl True by (auto simp: push_byte_def Let_def)
    from close_frame_event [OF e this ok] show ?thesis
      using norm True d by (auto simp: framing_def)
  next
    case False2: False
    let ?e = "?d\<lparr>dc_line_has_content := (?n \<noteq> NL), dc_buffer := dc_buffer d @ [?n]\<rparr>"
    have "framing ?d" using d by (auto simp: framing_def)
    then have e: "framing ?e" using framing_append [of ?d ?n] False2 by auto
    have "push_byte parse d c = check_size ?e"
      using False False2 d CR_NL by (auto simp: push_byte_def Let_def framing_def)
    then have "out = None \<and> d' = ?e"
      using out ok by (auto simp: check_size_def is_ok_iff split: if_splits)
    then show ?thesis using e norm by auto
  qed
qed

text \<open>From any framing state on, the reports are the events of what is held and what comes.\<close>

lemma push_bytes_events:
  "framing d \<Longrightarrow> list_all is_ok (fst (push_bytes parse d s)) \<Longrightarrow>
     fst (push_bytes parse d s) = map Ok (parse_events parse (dc_buffer d @ norm_eol (dc_previous_cr d) s))"
proof (induction s arbitrary: d)
  case Nil
  then show ?case by (subst parse_events_frames) (simp add: framing_def)
next
  case (Cons c s)
  obtain out d' where step: "push_byte parse d c = (out, d')" by force
  obtain outs d'' where rest: "push_bytes parse d' s = (outs, d'')" by force
  have ok: "\<forall>x\<in>set_option out. is_ok x" "list_all is_ok outs"
    using Cons.prems(2) step rest by (auto split: option.splits)
  note one = push_byte_step [OF Cons.prems(1) step ok(1), of s]
  have "outs = map Ok (parse_events parse (dc_buffer d' @ norm_eol (dc_previous_cr d') s))"
    using Cons.IH [of d'] one ok(2) rest by simp
  then show ?case
    using one ok(1) step rest by (cases out) (auto simp: is_ok_iff simp del: norm_eol.simps)
qed

text \<open>
  C36. The decoder is the parser. Pushing a stream byte by byte, if no frame is refused, reports
  exactly the events, in order, that the parser finds in the whole text with its line endings
  normalized: how the bytes were chunked, a CRLF split across chunks and runs of blank lines make
  no difference, and no event is lost or reported twice.
\<close>

theorem decoder_is_the_parser:
  assumes "list_all is_ok (fst (push_bytes parse decoder_default s))"
  shows "fst (push_bytes parse decoder_default s) = map Ok (parse_events parse (norm_eol False s))"
  using push_bytes_events [OF framing_default assms] by (simp add: decoder_default_def)

definition demo_stream :: string where
  "demo_stream = ''event: a'' @ [CR, NL] @ ''data: 1'' @ [CR, NL, CR, NL, NL] @ ''data:2'' @ [NL] @ ''data: 3'' @ [NL, NL, CHR ''x'']"

lemma demo_stream_ok: "list_all is_ok (fst (push_bytes (\<lambda>_. None) decoder_default demo_stream))"
  by code_simp

lemma decoder_is_the_parser_witness:
  "fst (push_bytes (\<lambda>_. None) decoder_default demo_stream)
     = [Ok \<lparr>se_type = Some ''a'', se_data = ''1''\<rparr>, Ok \<lparr>se_type = None, se_data = ''2'' @ [NL] @ ''3''\<rparr>]"
proof -
  have "parse_events (\<lambda>_. None) (norm_eol False demo_stream)
      = [\<lparr>se_type = Some ''a'', se_data = ''1''\<rparr>, \<lparr>se_type = None, se_data = ''2'' @ [NL] @ ''3''\<rparr>]"
    by code_simp
  then show ?thesis using decoder_is_the_parser [OF demo_stream_ok] by simp
qed

section \<open>Refused frames\<close>

text \<open>What a decoder with a limit keeps: a buffer below it, and nothing while it discards.\<close>

definition bounded :: "decoder \<Rightarrow> bool" where
  "bounded d \<longleftrightarrow> length (dc_buffer d) < max_bytes d \<and> (dc_discarding d \<longrightarrow> dc_buffer d = [])"

lemma check_size_bounded:
  assumes "check_size e = (out, d')" "0 < max_bytes e" "dc_discarding e \<longrightarrow> dc_buffer e = []"
  shows "bounded d' \<and> dc_max_bytes d' = dc_max_bytes e"
  using assms by (auto simp: check_size_def bounded_def max_bytes_def not_le split: if_splits)

lemma push_byte_bounded:
  assumes "bounded d" "push_byte parse d c = (out, d')"
  shows "bounded d' \<and> dc_max_bytes d' = dc_max_bytes d"
proof -
  have check: "bounded d' \<and> dc_max_bytes d' = dc_max_bytes d"
    if "check_size e = (out, d')" "dc_max_bytes e = dc_max_bytes d" "dc_discarding e \<longrightarrow> dc_buffer e = []" for e
    using check_size_bounded [OF that(1) _ that(3)] that(2) assms(1) by (auto simp: bounded_def max_bytes_def)
  show ?thesis
  proof (cases "dc_previous_cr d \<and> c = NL \<or> (c = CR \<or> c = NL) \<and> \<not> dc_line_has_content d")
    case True
    then show ?thesis
      using assms by (auto simp: push_byte_def close_frame_def Let_def bounded_def max_bytes_def split: if_splits)
  next
    case False
    then obtain e where "check_size e = (out, d')" "dc_max_bytes e = dc_max_bytes d" "dc_discarding e \<longrightarrow> dc_buffer e = []"
      using assms by (auto simp: push_byte_def Let_def bounded_def split: if_splits)
    then show ?thesis by (rule check)
  qed
qed

lemma push_bytes_bounded: "bounded d \<Longrightarrow> bounded (snd (push_bytes parse d s)) \<and> dc_max_bytes (snd (push_bytes parse d s)) = dc_max_bytes d"
proof (induction s arbitrary: d)
  case (Cons c s)
  obtain out d' where step: "push_byte parse d c = (out, d')" by force
  from push_byte_bounded [OF Cons.prems step] Cons.IH [of d'] step show ?case
    by (auto split: prod.splits)
qed simp

text \<open>
  The decoder is bounded and isolates what it refuses. Whatever the stream, it never holds as
  many bytes as its limit; while it discards a refused frame it reports nothing, and it stops
  discarding only at a blank line, where it stands exactly as a fresh decoder would.
\<close>

theorem decoder_isolates_refused_frames:
  assumes "0 < n" and "d = snd (push_bytes parse (with_max_bytes n) s)"
  shows "length (dc_buffer d) < n
    \<and> (dc_discarding d \<longrightarrow> fst (push_byte parse d c) = None
         \<and> (dc_discarding (snd (push_byte parse d c))
            \<or> (c = CR \<or> c = NL) \<and> snd (push_byte parse d c) = (with_max_bytes n)\<lparr>dc_previous_cr := (c = CR)\<rparr>))"
proof -
  have "bounded (with_max_bytes n)" "dc_max_bytes (with_max_bytes n) = Some n"
    using assms(1) by (simp_all add: bounded_def with_max_bytes_def decoder_default_def max_bytes_def)
  then have b: "bounded d" "dc_max_bytes d = Some n" unfolding assms(2) using push_bytes_bounded by metis+
  then have "length (dc_buffer d) < n" by (simp add: bounded_def max_bytes_def)
  moreover have "fst (push_byte parse d c) = None
         \<and> (dc_discarding (snd (push_byte parse d c))
            \<or> (c = CR \<or> c = NL) \<and> snd (push_byte parse d c) = (with_max_bytes n)\<lparr>dc_previous_cr := (c = CR)\<rparr>)"
    if disc: "dc_discarding d"
  proof -
    have "dc_buffer d = []" using b(1) disc by (simp add: bounded_def)
    then show ?thesis
      using disc b(2) assms(1)
      by (cases d) (auto simp: push_byte_def close_frame_def check_size_def Let_def max_bytes_def with_max_bytes_def decoder_default_def)
  qed
  ultimately show ?thesis by blast
qed

lemma decoder_isolates_refused_frames_witness:
  "dc_discarding (snd (push_bytes (\<lambda>_. None) (with_max_bytes 4) ''data: long''))
   \<and> fst (push_byte (\<lambda>_. None) (snd (push_bytes (\<lambda>_. None) (with_max_bytes 4) ''data: long'')) NL) = None"
proof -
  have "dc_discarding (snd (push_bytes (\<lambda>_. None) (with_max_bytes 4) ''data: long''))" by code_simp
  then show ?thesis using decoder_isolates_refused_frames [of 4 _ "\<lambda>_. None" "''data: long''" NL] by simp
qed

end
