(* ===== verification/Rust_F64.thy ===== *)
theory Rust_F64
  imports Json Complex_Main
begin

text \<open>
  Rust's \<open>f64\<close> as the usage readers use it: IEEE 754 doubles as exact rationals, rounded to
  nearest with ties to even; addition, \<open>max\<close>, the saturating cast to \<open>u64\<close> and \<open>str::parse::<f64>\<close>.
\<close>

section \<open>Doubles\<close>

text \<open>A finite double is its sign and magnitude, so that the two zeros differ.\<close>

datatype f64 = NaN | Infinite bool | Finite bool rat

fun bit_len :: "nat \<Rightarrow> nat" where
  "bit_len n = (if n = 0 then 0 else Suc (bit_len (n div 2)))"

declare bit_len.simps [simp del]

text \<open>The exponent of the last place of \<open>p / q\<close>: 53 significant bits, no less than \<open>-1074\<close>.\<close>

definition ulp_exponent :: "nat \<Rightarrow> nat \<Rightarrow> int" where
  "ulp_exponent p q =
     (let l = int (bit_len p) - int (bit_len q);
          below = (if l \<ge> 0 then p < q * 2 ^ nat l else p * 2 ^ nat (- l) < q)
      in max (- 1074) ((if below then l - 1 else l) - 52))"

definition round_half_even :: "nat \<Rightarrow> nat \<Rightarrow> nat" where
  "round_half_even p q =
     (let m = p div q; r = p mod q in if 2 * r > q \<or> 2 * r = q \<and> odd m then m + 1 else m)"

definition round_f64 :: "bool \<Rightarrow> nat \<Rightarrow> nat \<Rightarrow> f64" where
  "round_f64 neg p q =
     (let e = ulp_exponent p q;
          m = (if e \<ge> 0 then round_half_even p (q * 2 ^ nat e) else round_half_even (p * 2 ^ nat (- e)) q)
      in if p = 0 then Finite neg 0
         else if e \<ge> 0 \<and> m * 2 ^ nat e \<ge> 2 ^ 1024 then Infinite neg
         else Finite neg (if e \<ge> 0 then of_nat (m * 2 ^ nat e) else of_nat m / 2 ^ nat (- e)))"

definition signed :: "bool \<Rightarrow> rat \<Rightarrow> rat" where
  "signed neg x = (if neg then - x else x)"

definition round_rat :: "rat \<Rightarrow> f64" where
  "round_rat x = (let (p, q) = quotient_of x in round_f64 (p < 0) (nat \<bar>p\<bar>) (nat q))"

section \<open>Operations\<close>

fun f64_add :: "f64 \<Rightarrow> f64 \<Rightarrow> f64" where
  "f64_add NaN _ = NaN"
| "f64_add _ NaN = NaN"
| "f64_add (Infinite a) (Infinite b) = (if a = b then Infinite a else NaN)"
| "f64_add (Infinite a) _ = Infinite a"
| "f64_add _ (Infinite b) = Infinite b"
| "f64_add (Finite a x) (Finite b y) =
     (if x = 0 \<and> y = 0 then Finite (a \<and> b) 0 else round_rat (signed a x + signed b y))"

fun f64_less :: "f64 \<Rightarrow> f64 \<Rightarrow> bool" where
  "f64_less NaN _ = False"
| "f64_less _ NaN = False"
| "f64_less (Infinite a) (Infinite b) = (a \<and> \<not> b)"
| "f64_less (Infinite a) (Finite _ _) = a"
| "f64_less (Finite _ _) (Infinite b) = (\<not> b)"
| "f64_less (Finite a x) (Finite b y) = (signed a x < signed b y)"

text \<open>
  \<open>f64::max\<close> ignores a NaN. Which zero it returns for two zeros of different sign is not
  specified; here the first argument.
\<close>

definition f64_max :: "f64 \<Rightarrow> f64 \<Rightarrow> f64" where
  "f64_max x y = (if x = NaN then y else if f64_less x y then y else x)"

text \<open>\<open>count.max(0.0).trunc() as u64\<close>: towards zero, saturating, NaN is zero.\<close>

fun f64_to_u64 :: "f64 \<Rightarrow> nat" where
  "f64_to_u64 NaN = 0"
| "f64_to_u64 (Infinite neg) = (if neg then 0 else u64_max)"
| "f64_to_u64 (Finite neg x) = (if neg then 0 else min (nat \<lfloor>x\<rfloor>) u64_max)"

section \<open>Text\<close>

text \<open>
  The grammar of \<open>f64::from_str\<close>: a sign; then \<open>inf\<close>, \<open>infinity\<close> or \<open>nan\<close> in any case, or
  digits with an optional point, at least one digit, and an optional exponent.
\<close>

definition split_sign :: "string \<Rightarrow> bool \<times> string" where
  "split_sign s = (case s of [] \<Rightarrow> (False, [])
     | c # r \<Rightarrow> if c = CHR ''-'' then (True, r) else if c = CHR ''+'' then (False, r) else (False, s))"

definition parse_exponent :: "string option \<Rightarrow> int option" where
  "parse_exponent ex = (case ex of None \<Rightarrow> Some 0
     | Some t \<Rightarrow> (let (neg, d) = split_sign t in
         if d = [] \<or> \<not> all_digits d then None
         else Some (if neg then - int (digits_val d) else int (digits_val d))))"

definition parse_f64 :: "string \<Rightarrow> f64 option" where
  "parse_f64 s =
     (let (neg, r) = split_sign s; l = to_ascii_lowercase r in
      if l = ''inf'' \<or> l = ''infinity'' then Some (Infinite neg)
      else if l = ''nan'' then Some NaN
      else (let (mantissa, ex) = (case split_once CHR ''e'' l of Some (m, t) \<Rightarrow> (m, Some t) | None \<Rightarrow> (l, None));
                (ip, fp) = (case split_once CHR ''.'' mantissa of Some p \<Rightarrow> p | None \<Rightarrow> (mantissa, []))
            in if ip @ fp = [] \<or> \<not> all_digits (ip @ fp) then None
               else map_option (\<lambda>x. let k = x - int (length fp); n = digits_val (ip @ fp)
                     in if k \<ge> 0 then round_f64 neg (n * 10 ^ nat k) 1 else round_f64 neg n (10 ^ nat (- k)))
                   (parse_exponent ex)))"

text \<open>\<open>Value::as_f64\<close>: an integer rounds, a double is what its text denotes.\<close>

fun as_f64 :: "json \<Rightarrow> f64 option" where
  "as_f64 (JNumber (PosInt n)) = Some (round_f64 False n 1)"
| "as_f64 (JNumber (NegInt i)) = Some (round_f64 True (nat \<bar>i\<bar>) 1)"
| "as_f64 (JNumber (Float t)) = parse_f64 t"
| "as_f64 _ = None"

section \<open>Facts\<close>

lemma bit_len_bounds: "n > 0 \<Longrightarrow> 2 ^ (bit_len n - 1) \<le> n \<and> n < 2 ^ bit_len n \<and> 0 < bit_len n"
proof (induction n rule: bit_len.induct)
  case (1 n)
  show ?case
  proof (cases "n div 2 = 0")
    case True
    then have "n = 1" using "1.prems" by simp
    then show ?thesis by (simp add: bit_len.simps)
  next
    case False
    then have IH: "2 ^ (bit_len (n div 2) - 1) \<le> n div 2" "n div 2 < 2 ^ bit_len (n div 2)" "0 < bit_len (n div 2)"
      using 1 by auto
    have b: "bit_len n = Suc (bit_len (n div 2))" using "1.prems" by (subst bit_len.simps) simp
    obtain k where k: "bit_len (n div 2) = Suc k" using IH(3) by (cases "bit_len (n div 2)") auto
    have "2 * 2 ^ k \<le> n" using IH(1) k by simp
    moreover have "n < 2 * (2 * 2 ^ k)" using IH(2) k by simp
    ultimately show ?thesis by (simp add: b k)
  qed
qed

text \<open>Integers of at most 53 bits are exact, so a count below \<open>2 ^ 53\<close> reads back from its double.\<close>

lemma round_f64_small:
  assumes "n < 2 ^ 53"
  shows "round_f64 neg n 1 = Finite neg (of_nat n)"
proof (cases "n = 0")
  case False
  then have b: "2 ^ (bit_len n - 1) \<le> n" "n < 2 ^ bit_len n" "0 < bit_len n" using bit_len_bounds [of n] by auto
  have one: "bit_len 1 = 1" by (simp add: bit_len.simps)
  have "bit_len n \<le> 53"
  proof (rule ccontr)
    assume "\<not> bit_len n \<le> 53"
    then have "(2::nat) ^ 53 \<le> 2 ^ (bit_len n - 1)" by (intro power_increasing) auto
    then show False using b(1) assms by linarith
  qed
  then have e: "ulp_exponent n 1 \<le> 0" using b(3) one by (auto simp: ulp_exponent_def Let_def)
  have r: "round_half_even m (Suc 0) = m" for m by (simp add: round_half_even_def)
  show ?thesis
  proof (cases "ulp_exponent n 1 = 0")
    case True
    then show ?thesis using False r assms by (simp add: round_f64_def Let_def)
  next
    case neg: False
    then have "\<not> 0 \<le> ulp_exponent n 1" using e by linarith
    then show ?thesis using False r by (simp add: round_f64_def Let_def)
  qed
qed (simp add: round_f64_def)

end
