(* ===== verification/Llm_Usage.thy ===== *)
theory Llm_Usage
  imports Route_Context Sse_Parser Rust_F64
begin

text \<open>
  What a provider's response says about its token usage (\<open>services/llm_usage_service.rs\<close>): reading
  a JSON body or a stream of events, adding reports up, the realtime session collector, and the
  usage a metered row gets from it (with the \<open>with_*\<close> builders of \<open>models/service_billing.rs\<close>).

  Parsing JSON is \<open>serde_json\<close>'s and an argument, \<open>parse\<close>. A hash set of seen keys is a list.
\<close>

section \<open>Reports\<close>

datatype aggregation_mode = Snapshot | Delta

record reported_usage =
  ru_prompt_tokens :: nat
  ru_completion_tokens :: nat
  ru_total_tokens :: nat
  ru_cached_tokens :: nat
  ru_cache_creation_tokens :: nat
  ru_audio_input_tokens :: nat
  ru_audio_output_tokens :: nat
  ru_image_input_tokens :: nat
  ru_image_output_tokens :: nat
  ru_reported_cost :: "f64 option"
  ru_cached_tokens_included_in_prompt :: bool
  ru_images :: nat
  ru_completed_image_index :: "nat option"
  ru_model :: "string option"

definition usage_default :: reported_usage where
  "usage_default = \<lparr>ru_prompt_tokens = 0, ru_completion_tokens = 0, ru_total_tokens = 0,
     ru_cached_tokens = 0, ru_cache_creation_tokens = 0, ru_audio_input_tokens = 0,
     ru_audio_output_tokens = 0, ru_image_input_tokens = 0, ru_image_output_tokens = 0,
     ru_reported_cost = None, ru_cached_tokens_included_in_prompt = False, ru_images = 0,
     ru_completed_image_index = None, ru_model = None\<rparr>"

definition usage_is_empty :: "reported_usage \<Rightarrow> bool" where
  "usage_is_empty u \<longleftrightarrow>
     ru_prompt_tokens u = 0 \<and> ru_completion_tokens u = 0 \<and> ru_total_tokens u = 0
     \<and> ru_cached_tokens u = 0 \<and> ru_cache_creation_tokens u = 0
     \<and> ru_audio_input_tokens u = 0 \<and> ru_audio_output_tokens u = 0
     \<and> ru_image_input_tokens u = 0 \<and> ru_image_output_tokens u = 0
     \<and> ru_reported_cost u = None \<and> ru_images u = 0"

definition non_empty :: "reported_usage \<Rightarrow> reported_usage option" where
  "non_empty u = (if usage_is_empty u then None else Some u)"

section \<open>The usage of a metered row\<close>

definition clamp_usage :: "nat \<Rightarrow> int" where
  "clamp_usage n = min (int n) i64_max"

definition llm_completion :: "int \<Rightarrow> int \<Rightarrow> platform_usage" where
  "llm_completion bytes tokens = platform_usage_default\<lparr>pu_requests := 1, pu_bytes := bytes, pu_tokens := tokens\<rparr>"

definition single_request :: "int \<Rightarrow> platform_usage" where
  "single_request bytes = platform_usage_default\<lparr>pu_requests := 1, pu_bytes := bytes, pu_tokens := 0\<rparr>"

definition breakdown_is_empty :: "token_breakdown \<Rightarrow> bool" where
  "breakdown_is_empty b \<longleftrightarrow> tb_prompt_tokens b = 0 \<and> tb_completion_tokens b = 0
     \<and> tb_cached_tokens b = 0 \<and> tb_cache_creation_tokens b = 0"

definition modality_is_empty :: "modality_tokens \<Rightarrow> bool" where
  "modality_is_empty m \<longleftrightarrow> mk_input_tokens m = 0 \<and> mk_output_tokens m = 0"

definition keep_unless :: "('a \<Rightarrow> bool) \<Rightarrow> 'a option \<Rightarrow> 'a option" where
  "keep_unless vacant x = (case x of None \<Rightarrow> None | Some y \<Rightarrow> if vacant y then None else Some y)"

definition with_token_breakdown :: "platform_usage \<Rightarrow> token_breakdown option \<Rightarrow> platform_usage" where
  "with_token_breakdown u b = u\<lparr>pu_token_breakdown := keep_unless breakdown_is_empty b\<rparr>"

definition with_audio_tokens :: "platform_usage \<Rightarrow> modality_tokens option \<Rightarrow> platform_usage" where
  "with_audio_tokens u a = u\<lparr>pu_audio_tokens := keep_unless modality_is_empty a\<rparr>"

definition with_image_tokens :: "platform_usage \<Rightarrow> modality_tokens option \<Rightarrow> platform_usage" where
  "with_image_tokens u i = u\<lparr>pu_image_tokens := keep_unless modality_is_empty i\<rparr>"

definition with_reported_model :: "platform_usage \<Rightarrow> string option \<Rightarrow> platform_usage" where
  "with_reported_model u m = u\<lparr>pu_reported_model := m\<rparr>"

definition token_breakdown_of :: "reported_usage \<Rightarrow> token_breakdown" where
  "token_breakdown_of r =
     \<lparr>tb_prompt_tokens = clamp_usage (ru_prompt_tokens r),
      tb_completion_tokens = clamp_usage (ru_completion_tokens r),
      tb_cached_tokens = clamp_usage (ru_cached_tokens r),
      tb_cache_creation_tokens = clamp_usage (ru_cache_creation_tokens r)\<rparr>"

text \<open>\<open>saturating_sub\<close> on \<open>u64\<close> is the subtraction of \<^typ>\<open>nat\<close>.\<close>

definition apply_to :: "reported_usage \<Rightarrow> platform_usage \<Rightarrow> platform_usage" where
  "apply_to r u =
     (let u = u\<lparr>pu_input_tokens := clamp_usage
             (if ru_cached_tokens_included_in_prompt r
              then ru_prompt_tokens r - ru_cached_tokens r - ru_cache_creation_tokens r
              else ru_prompt_tokens r),
           pu_output_tokens := clamp_usage (ru_completion_tokens r),
           pu_cache_read_tokens := clamp_usage (ru_cached_tokens r),
           pu_cache_write_tokens := clamp_usage (ru_cache_creation_tokens r),
           pu_images := clamp_usage (ru_images r)\<rparr>;
         u = with_token_breakdown u (Some (token_breakdown_of r));
         u = with_audio_tokens u (Some \<lparr>mk_input_tokens = clamp_usage (ru_audio_input_tokens r),
               mk_output_tokens = clamp_usage (ru_audio_output_tokens r)\<rparr>);
         u = with_image_tokens u (Some \<lparr>mk_input_tokens = clamp_usage (ru_image_input_tokens r),
               mk_output_tokens = clamp_usage (ru_image_output_tokens r)\<rparr>)
      in with_reported_model u (ru_model r))"

definition token_quantity_or_estimate :: "reported_usage option \<Rightarrow> int \<Rightarrow> int" where
  "token_quantity_or_estimate r fallback_bytes =
     (case Option.bind r (\<lambda>u. if ru_total_tokens u > 0 then Some (clamp_usage (ru_total_tokens u)) else None) of
        Some n \<Rightarrow> n | None \<Rightarrow> estimate_tokens_from_bytes fallback_bytes)"

definition platform_usage_of :: "reported_usage option \<Rightarrow> int \<Rightarrow> bool \<Rightarrow> platform_usage" where
  "platform_usage_of r bytes estimate =
     (let tokens = (if estimate then token_quantity_or_estimate r bytes
            else case r of None \<Rightarrow> 0 | Some u \<Rightarrow> clamp_usage (ru_total_tokens u));
          platform = llm_completion bytes tokens
      in case r of None \<Rightarrow> platform | Some u \<Rightarrow> apply_to u platform)"

section \<open>Adding reports up\<close>

record accumulator =
  ac_prompt_tokens :: nat
  ac_completion_tokens :: nat
  ac_total_tokens :: nat
  ac_cached_tokens :: nat
  ac_cache_creation_tokens :: nat
  ac_audio_input_tokens :: nat
  ac_audio_output_tokens :: nat
  ac_image_input_tokens :: nat
  ac_image_output_tokens :: nat
  ac_reported_cost :: "f64 option"
  ac_cached_tokens_included_in_prompt :: bool
  ac_images :: nat
  ac_seen_image_indexes :: "nat list"
  ac_model :: "string option"

definition accumulator_default :: accumulator where
  "accumulator_default = \<lparr>ac_prompt_tokens = 0, ac_completion_tokens = 0, ac_total_tokens = 0,
     ac_cached_tokens = 0, ac_cache_creation_tokens = 0, ac_audio_input_tokens = 0,
     ac_audio_output_tokens = 0, ac_image_input_tokens = 0, ac_image_output_tokens = 0,
     ac_reported_cost = None, ac_cached_tokens_included_in_prompt = False, ac_images = 0,
     ac_seen_image_indexes = [], ac_model = None\<rparr>"

definition sat_u64 :: "nat \<Rightarrow> nat \<Rightarrow> nat" where
  "sat_u64 a b = min (a + b) u64_max"

definition observe_model :: "accumulator \<Rightarrow> reported_usage \<Rightarrow> accumulator" where
  "observe_model a u = (if ac_model a = None then a\<lparr>ac_model := ru_model u\<rparr> else a)"

text \<open>The start both modes share; \<open>None\<close> when an image seen before ends the observation.\<close>

definition observe_images :: "accumulator \<Rightarrow> reported_usage \<Rightarrow> bool \<times> accumulator" where
  "observe_images a u =
     (let a = observe_model a u;
          a = a\<lparr>ac_cached_tokens_included_in_prompt :=
                  ac_cached_tokens_included_in_prompt a \<or> ru_cached_tokens_included_in_prompt u\<rparr>
      in case ru_completed_image_index u of
           Some i \<Rightarrow> if i \<in> set (ac_seen_image_indexes a) then (False, a)
             else (True, a\<lparr>ac_images := sat_u64 (ac_images a) (ru_images u),
                           ac_seen_image_indexes := i # ac_seen_image_indexes a\<rparr>)
         | None \<Rightarrow> (True, a\<lparr>ac_images := max (ac_images a) (ru_images u)\<rparr>))"

definition merge_tokens :: "(nat \<Rightarrow> nat \<Rightarrow> nat) \<Rightarrow> accumulator \<Rightarrow> reported_usage \<Rightarrow> accumulator" where
  "merge_tokens f a u = a
     \<lparr>ac_prompt_tokens := f (ac_prompt_tokens a) (ru_prompt_tokens u),
      ac_completion_tokens := f (ac_completion_tokens a) (ru_completion_tokens u),
      ac_total_tokens := f (ac_total_tokens a) (ru_total_tokens u),
      ac_cached_tokens := f (ac_cached_tokens a) (ru_cached_tokens u),
      ac_cache_creation_tokens := f (ac_cache_creation_tokens a) (ru_cache_creation_tokens u),
      ac_audio_input_tokens := f (ac_audio_input_tokens a) (ru_audio_input_tokens u),
      ac_audio_output_tokens := f (ac_audio_output_tokens a) (ru_audio_output_tokens u),
      ac_image_input_tokens := f (ac_image_input_tokens a) (ru_image_input_tokens u),
      ac_image_output_tokens := f (ac_image_output_tokens a) (ru_image_output_tokens u)\<rparr>"

definition merge_cost :: "(f64 option \<Rightarrow> f64 \<Rightarrow> f64) \<Rightarrow> accumulator \<Rightarrow> reported_usage \<Rightarrow> accumulator" where
  "merge_cost f a u = (case ru_reported_cost u of None \<Rightarrow> a
     | Some paid \<Rightarrow> a\<lparr>ac_reported_cost := Some (f (ac_reported_cost a) paid)\<rparr>)"

definition observe_snapshot :: "accumulator \<Rightarrow> reported_usage \<Rightarrow> accumulator" where
  "observe_snapshot a u =
     (let (continue, a) = observe_images a u
      in if \<not> continue then a
         else merge_cost (\<lambda>current paid. case current of None \<Rightarrow> paid | Some c \<Rightarrow> f64_max c paid)
                (merge_tokens max a u) u)"

definition observe_delta :: "accumulator \<Rightarrow> reported_usage \<Rightarrow> accumulator" where
  "observe_delta a u =
     (let (continue, a) = observe_images a u
      in if \<not> continue then a
         else merge_cost (\<lambda>current paid. f64_add (case current of None \<Rightarrow> Finite False 0 | Some c \<Rightarrow> c) paid)
                (merge_tokens sat_u64 a u) u)"

fun observe :: "accumulator \<Rightarrow> reported_usage \<Rightarrow> aggregation_mode \<Rightarrow> accumulator" where
  "observe a u Snapshot = observe_snapshot a u"
| "observe a u Delta = observe_delta a u"

definition finalize_usage :: "accumulator \<Rightarrow> reported_usage option" where
  "finalize_usage a =
     non_empty \<lparr>ru_prompt_tokens = ac_prompt_tokens a, ru_completion_tokens = ac_completion_tokens a,
       ru_total_tokens = max (ac_total_tokens a) (sat_u64 (ac_prompt_tokens a) (ac_completion_tokens a)),
       ru_cached_tokens = ac_cached_tokens a, ru_cache_creation_tokens = ac_cache_creation_tokens a,
       ru_audio_input_tokens = ac_audio_input_tokens a, ru_audio_output_tokens = ac_audio_output_tokens a,
       ru_image_input_tokens = ac_image_input_tokens a, ru_image_output_tokens = ac_image_output_tokens a,
       ru_reported_cost = ac_reported_cost a,
       ru_cached_tokens_included_in_prompt = ac_cached_tokens_included_in_prompt a,
       ru_images = ac_images a, ru_completed_image_index = None, ru_model = ac_model a\<rparr>"

section \<open>Reading a JSON report\<close>

text \<open>
  \<open>Value::pointer\<close> on the literal pointers of this file: a slash and plain names between slashes.
\<close>

definition pointer_at :: "json \<Rightarrow> string \<Rightarrow> json option" where
  "pointer_at v p = json_path v (tl (split_on CHR ''/'' p))"

definition number_at :: "json \<Rightarrow> string \<Rightarrow> f64 option" where
  "number_at v p = Option.bind (pointer_at v p) (\<lambda>raw. case raw of
     JNumber n \<Rightarrow> as_f64 raw | JString s \<Rightarrow> parse_f64 s | _ \<Rightarrow> None)"

definition token_of :: "json \<Rightarrow> nat option" where
  "token_of raw = (case as_u64 raw of Some n \<Rightarrow> Some n
     | None \<Rightarrow> (case as_f64 raw of Some x \<Rightarrow> Some (f64_to_u64 x)
        | None \<Rightarrow> Option.bind (as_str raw) (parse_uint u64_max)))"

definition token_at :: "json \<Rightarrow> string list \<Rightarrow> nat option" where
  "token_at v ps = find_map (\<lambda>p. Option.bind (pointer_at v p) token_of) ps"

definition MAX_REPORTED_MODEL_LEN :: nat where "MAX_REPORTED_MODEL_LEN = 128"

definition model_byte :: "char \<Rightarrow> bool" where
  "model_byte c \<longleftrightarrow> is_ascii_alphanumeric c \<or> c \<in> set ''-._:/@+''"

definition reported_model :: "json \<Rightarrow> string option" where
  "reported_model v =
     Option.bind (find_map (\<lambda>p. Option.bind (pointer_at v p) as_str)
        [''/model'', ''/response/model'', ''/message/model'', ''/modelVersion''])
     (\<lambda>m. if m \<noteq> [] \<and> length m \<le> MAX_REPORTED_MODEL_LEN \<and> list_all model_byte m then Some m else None)"

definition gemini_entry :: "bool \<times> nat \<Rightarrow> json \<Rightarrow> bool \<times> nat" where
  "gemini_entry = (\<lambda>(found, n) entry.
     if Option.bind (jget entry ''modality'') as_str = Some ''IMAGE''
     then (case Option.bind (jget entry ''tokenCount'') as_u64 of
             Some count \<Rightarrow> (True, sat_u64 n count) | None \<Rightarrow> (found, n))
     else (found, n))"

definition gemini_image_tokens :: "json \<Rightarrow> string \<Rightarrow> nat option" where
  "gemini_image_tokens v details =
     Option.bind (jget v ''usageMetadata'') (\<lambda>m. Option.bind (jget m details) (\<lambda>d. Option.bind (as_array d)
       (\<lambda>tokens. let (found, n) = foldl gemini_entry (False, 0) tokens in if found then Some n else None)))"

definition PROMPT_PATHS :: "string list" where
  "PROMPT_PATHS =
     [''/usageMetadata/promptTokenCount'', ''/prompt_tokens'', ''/usage/prompt_tokens'',
      ''/usage/input_tokens'', ''/input_tokens'', ''/response/usage/prompt_tokens'',
      ''/response/usage/input_tokens'', ''/message/usage/prompt_tokens'', ''/message/usage/input_tokens'']"

definition COMPLETION_PATHS :: "string list" where
  "COMPLETION_PATHS =
     [''/usageMetadata/candidatesTokenCount'', ''/completion_tokens'', ''/usage/completion_tokens'',
      ''/usage/output_tokens'', ''/output_tokens'', ''/response/usage/completion_tokens'',
      ''/response/usage/output_tokens'', ''/message/usage/completion_tokens'', ''/message/usage/output_tokens'']"

definition TOTAL_PATHS :: "string list" where
  "TOTAL_PATHS =
     [''/usageMetadata/totalTokenCount'', ''/total_tokens'', ''/usage/total_tokens'',
      ''/response/usage/total_tokens'', ''/message/usage/total_tokens'']"

definition CACHED_PATHS :: "string list" where
  "CACHED_PATHS =
     [''/usageMetadata/cachedContentTokenCount'',
      ''/prompt_tokens_details/cached_tokens'',
      ''/input_tokens_details/cached_tokens'',
      ''/usage/prompt_tokens_details/cached_tokens'',
      ''/usage/input_tokens_details/cached_tokens'',
      ''/input_token_details/cached_tokens'',
      ''/usage/input_token_details/cached_tokens'',
      ''/response/usage/input_token_details/cached_tokens'',
      ''/usage/cache_read_input_tokens'',
      ''/cache_read_input_tokens'',
      ''/response/usage/prompt_tokens_details/cached_tokens'',
      ''/response/usage/input_tokens_details/cached_tokens'',
      ''/response/usage/cache_read_input_tokens'',
      ''/message/usage/cache_read_input_tokens'']"

definition CACHE_CREATION_PATHS :: "string list" where
  "CACHE_CREATION_PATHS =
     [''/usage/cache_creation_input_tokens'', ''/cache_creation_input_tokens'',
      ''/response/usage/cache_creation_input_tokens'', ''/message/usage/cache_creation_input_tokens'']"

definition AUDIO_INPUT_PATHS :: "string list" where
  "AUDIO_INPUT_PATHS =
     [''/input_token_details/audio_tokens'',
      ''/usage/input_token_details/audio_tokens'',
      ''/response/usage/input_token_details/audio_tokens'',
      ''/prompt_tokens_details/audio_tokens'',
      ''/usage/prompt_tokens_details/audio_tokens'',
      ''/response/usage/prompt_tokens_details/audio_tokens'']"

definition AUDIO_OUTPUT_PATHS :: "string list" where
  "AUDIO_OUTPUT_PATHS =
     [''/output_token_details/audio_tokens'',
      ''/usage/output_token_details/audio_tokens'',
      ''/response/usage/output_token_details/audio_tokens'',
      ''/completion_tokens_details/audio_tokens'',
      ''/usage/completion_tokens_details/audio_tokens'',
      ''/response/usage/completion_tokens_details/audio_tokens'']"

definition IMAGE_INPUT_PATHS :: "string list" where
  "IMAGE_INPUT_PATHS =
     [''/input_tokens_details/image_tokens'',
      ''/usage/input_tokens_details/image_tokens'',
      ''/response/usage/input_tokens_details/image_tokens'',
      ''/input_token_details/image_tokens'',
      ''/usage/input_token_details/image_tokens'',
      ''/response/usage/input_token_details/image_tokens'',
      ''/prompt_tokens_details/image_tokens'',
      ''/usage/prompt_tokens_details/image_tokens'',
      ''/response/usage/prompt_tokens_details/image_tokens'']"

definition IMAGE_OUTPUT_PATHS :: "string list" where
  "IMAGE_OUTPUT_PATHS =
     [''/output_tokens_details/image_tokens'',
      ''/usage/output_tokens_details/image_tokens'',
      ''/response/usage/output_tokens_details/image_tokens'',
      ''/output_token_details/image_tokens'',
      ''/usage/output_token_details/image_tokens'',
      ''/response/usage/output_token_details/image_tokens'',
      ''/completion_tokens_details/image_tokens'',
      ''/usage/completion_tokens_details/image_tokens'',
      ''/response/usage/completion_tokens_details/image_tokens'']"

definition COST_PATHS :: "string list" where
  "COST_PATHS =
     [''/usage/reported_cost'', ''/usage/cost_usd'', ''/usage/total_cost_usd'', ''/usage/cost'',
      ''/usage/total_cost'', ''/response/usage/reported_cost'', ''/response/usage/cost_usd'',
      ''/response/usage/total_cost_usd'', ''/response/usage/cost'', ''/response/usage/total_cost'',
      ''/reported_cost'', ''/cost_usd'', ''/total_cost_usd'', ''/cost'', ''/total_cost'']"

definition INCLUDED_PATHS :: "string list" where
  "INCLUDED_PATHS =
     [''/prompt_tokens_details/cached_tokens'',
      ''/input_tokens_details/cached_tokens'',
      ''/input_token_details/cached_tokens'',
      ''/usage/input_token_details/cached_tokens'',
      ''/response/usage/input_token_details/cached_tokens'',
      ''/usage/prompt_tokens_details/cached_tokens'',
      ''/usage/input_tokens_details/cached_tokens'',
      ''/response/usage/prompt_tokens_details/cached_tokens'',
      ''/response/usage/input_tokens_details/cached_tokens'',
      ''/usageMetadata/cachedContentTokenCount'']"

definition or_zero :: "nat option \<Rightarrow> nat" where
  "or_zero n = (case n of None \<Rightarrow> 0 | Some i \<Rightarrow> i)"

definition or_else :: "'a option \<Rightarrow> 'a option \<Rightarrow> 'a option" where
  "or_else x y = (case x of None \<Rightarrow> y | Some _ \<Rightarrow> x)"

definition extract_reported_usage :: "json \<Rightarrow> reported_usage option" where
  "extract_reported_usage v =
     (let prompt = or_zero (token_at v PROMPT_PATHS); completion = or_zero (token_at v COMPLETION_PATHS)
      in non_empty \<lparr>ru_prompt_tokens = prompt, ru_completion_tokens = completion,
        ru_total_tokens = (case token_at v TOTAL_PATHS of Some n \<Rightarrow> n | None \<Rightarrow> sat_u64 prompt completion),
        ru_cached_tokens = or_zero (token_at v CACHED_PATHS),
        ru_cache_creation_tokens = or_zero (token_at v CACHE_CREATION_PATHS),
        ru_audio_input_tokens = or_zero (token_at v AUDIO_INPUT_PATHS),
        ru_audio_output_tokens = or_zero (token_at v AUDIO_OUTPUT_PATHS),
        ru_image_input_tokens = or_zero (or_else (token_at v IMAGE_INPUT_PATHS)
           (gemini_image_tokens v ''promptTokensDetails'')),
        ru_image_output_tokens = or_zero (or_else (token_at v IMAGE_OUTPUT_PATHS)
           (gemini_image_tokens v ''candidatesTokensDetails'')),
        ru_reported_cost = find_map (number_at v) COST_PATHS,
        ru_cached_tokens_included_in_prompt = list_ex (\<lambda>p. pointer_at v p \<noteq> None) INCLUDED_PATHS,
        ru_images = 0, ru_completed_image_index = None, ru_model = reported_model v\<rparr>)"

definition trim_end_slashes :: "string \<Rightarrow> string" where
  "trim_end_slashes s = rev (dropWhile (\<lambda>c. c = CHR ''/'') (rev s))"

definition is_image_generation_path :: "string \<Rightarrow> bool" where
  "is_image_generation_path path =
     (let path = trim_end_slashes (hd (split_on CHR ''?'' path))
      in list_ex (\<lambda>q. ends_with q path) [''/images/generations'', ''/images/edits'', ''/images/variations''])"

definition or_default :: "reported_usage option \<Rightarrow> reported_usage" where
  "or_default u = (case u of None \<Rightarrow> usage_default | Some u \<Rightarrow> u)"

definition extract_reported_usage_for_path :: "json \<Rightarrow> string \<Rightarrow> bool \<Rightarrow> reported_usage option" where
  "extract_reported_usage_for_path v path successful =
     (let u = or_default (extract_reported_usage v)
      in non_empty (if successful \<and> is_image_generation_path path
           then u\<lparr>ru_image_output_tokens := ru_completion_tokens u,
                  ru_images := (case Option.bind (jget v ''data'') as_array of None \<Rightarrow> 0 | Some xs \<Rightarrow> length xs)\<rparr>
           else u))"

section \<open>Reading a stream of events\<close>

definition has_explicit_total :: "json \<Rightarrow> bool" where
  "has_explicit_total v = list_ex (\<lambda>p. number_at v p \<noteq> None)
     [''/total_tokens'', ''/usage/total_tokens'', ''/response/usage/total_tokens'', ''/message/usage/total_tokens'']"

definition image_completed :: "json \<Rightarrow> reported_usage" where
  "image_completed v =
     (let u = or_default (extract_reported_usage v)
      in u\<lparr>ru_image_output_tokens := ru_completion_tokens u, ru_images := 1,
           ru_completed_image_index := Some (or_zero
             (Option.bind (or_else (jget v ''image_index'') (jget v ''index'')) as_u64))\<rparr>)"

definition sse_event_mode :: "string option \<Rightarrow> json \<Rightarrow> aggregation_mode option" where
  "sse_event_mode event_type v =
     (if event_type \<in> {Some ''message_start'', Some ''message_delta'', Some ''response.completed'',
           Some ''response.incomplete''} then Some Snapshot
      else if event_type \<in> {Some ''usage.delta'', Some ''response.usage.delta''} then Some Delta
      else if has_explicit_total v then Some Snapshot
      else None)"

definition extract_from_sse_event ::
  "(string \<Rightarrow> json option) \<Rightarrow> string option \<Rightarrow> string \<Rightarrow> (reported_usage \<times> aggregation_mode) option" where
  "extract_from_sse_event parse event_type content =
     (if trim content = ''[DONE]'' then None
      else Option.bind (parse content) (\<lambda>v.
        let image_event = or_else event_type (Option.bind (jget v ''type'') as_str) in
        if image_event \<in> {Some ''image_generation.completed'', Some ''image_edit.completed''}
        then Some (image_completed v, Delta)
        else Option.bind (extract_reported_usage v) (\<lambda>u.
          map_option (\<lambda>mode. (u, mode)) (sse_event_mode event_type v))))"

definition observe_event :: "(string \<Rightarrow> json option) \<Rightarrow> accumulator \<Rightarrow> sse_event \<Rightarrow> accumulator" where
  "observe_event parse a e = (case extract_from_sse_event parse (se_type e) (se_data e) of
     None \<Rightarrow> a | Some (u, mode) \<Rightarrow> observe a u mode)"

record bounded_events =
  be_decoder :: decoder
  be_accumulator :: accumulator

definition bounded_events_default :: bounded_events where
  "bounded_events_default = \<lparr>be_decoder = decoder_default, be_accumulator = accumulator_default\<rparr>"

definition bounded_push_byte :: "(string \<Rightarrow> json option) \<Rightarrow> bounded_events \<Rightarrow> char \<Rightarrow> bounded_events" where
  "bounded_push_byte parse b c =
     (let (out, d) = push_byte parse (be_decoder b) c
      in b\<lparr>be_decoder := d,
           be_accumulator := (case out of Some (Ok e) \<Rightarrow> observe_event parse (be_accumulator b) e
             | _ \<Rightarrow> be_accumulator b)\<rparr>)"

definition bounded_push :: "(string \<Rightarrow> json option) \<Rightarrow> bounded_events \<Rightarrow> string \<Rightarrow> bounded_events" where
  "bounded_push parse b bytes = foldl (bounded_push_byte parse) b bytes"

definition bounded_finalize :: "bounded_events \<Rightarrow> reported_usage option" where
  "bounded_finalize b = finalize_usage (be_accumulator b)"

definition bounded_finalize_success :: "bounded_events \<Rightarrow> bool \<Rightarrow> reported_usage option" where
  "bounded_finalize_success b successful =
     map_option (\<lambda>u. if \<not> successful then u\<lparr>ru_images := 0\<rparr> else u) (bounded_finalize b)"

definition observe_captured :: "(string \<Rightarrow> json option) \<Rightarrow> bool \<Rightarrow> accumulator \<Rightarrow> sse_event \<Rightarrow> accumulator" where
  "observe_captured parse successful a e = (case extract_from_sse_event parse (se_type e) (se_data e) of
     None \<Rightarrow> a
   | Some (u, mode) \<Rightarrow> observe a (if \<not> successful then u\<lparr>ru_images := 0\<rparr> else u) mode)"

definition usage_from_body :: "(string \<Rightarrow> json option) \<Rightarrow> string \<Rightarrow> string \<Rightarrow> bool \<Rightarrow> reported_usage option" where
  "usage_from_body parse body path successful = (case parse body of
     Some v \<Rightarrow> extract_reported_usage_for_path v path successful
   | None \<Rightarrow> finalize_usage
       (foldl (observe_captured parse successful) accumulator_default (parse_events parse (utf8_lossy body))))"

section \<open>Realtime sessions\<close>

definition MAX_REALTIME_RESPONSE_ID_LEN :: nat where "MAX_REALTIME_RESPONSE_ID_LEN = 256"

record response_done =
  rd_response_id :: string
  rd_usage :: "reported_usage option"

definition event_type_of :: "json \<Rightarrow> string option" where
  "event_type_of v = Option.bind (jget v ''type'') as_str"

definition extract_realtime_response_done :: "json \<Rightarrow> response_done option" where
  "extract_realtime_response_done v =
     (if event_type_of v \<noteq> Some ''response.done'' then None
      else Option.bind (jget v ''response'') (\<lambda>response.
        Option.bind (Option.bind (jget response ''id'') as_str) (\<lambda>response_id.
          if response_id = [] \<or> trim response_id \<noteq> response_id
             \<or> length response_id > MAX_REALTIME_RESPONSE_ID_LEN then None
          else Some \<lparr>rd_response_id = response_id, rd_usage = extract_reported_usage response\<rparr>)))"

record realtime_summary =
  rs_collection_enabled :: bool
  rs_reported_usage :: "reported_usage option"
  rs_uncovered_bytes :: int
  rs_reported_response_count :: nat
  rs_estimated_response_count :: nat

definition token_quantity :: "realtime_summary \<Rightarrow> int" where
  "token_quantity s =
     (let reported = (case rs_reported_usage s of None \<Rightarrow> 0 | Some u \<Rightarrow> clamp_usage (ru_total_tokens u));
          estimated = (if rs_uncovered_bytes s > 0 then estimate_tokens_from_bytes (rs_uncovered_bytes s) else 0)
      in sat_i64 (reported + estimated))"

record collector =
  co_enabled :: bool
  co_seen_response_ids :: "string list"
  co_reported_usage :: accumulator
  co_segment_bytes :: int
  co_segment_has_response_activity :: bool
  co_uncovered_bytes :: int
  co_reported_response_count :: nat
  co_estimated_response_count :: nat

definition collector_new :: "bool \<Rightarrow> collector" where
  "collector_new enabled = \<lparr>co_enabled = enabled, co_seen_response_ids = [],
     co_reported_usage = accumulator_default, co_segment_bytes = 0,
     co_segment_has_response_activity = False, co_uncovered_bytes = 0,
     co_reported_response_count = 0, co_estimated_response_count = 0\<rparr>"

text \<open>\<open>i64::try_from(bytes).unwrap_or(i64::MAX)\<close> is \<open>clamp_usage\<close>.\<close>

definition add_segment_bytes :: "collector \<Rightarrow> nat \<Rightarrow> collector" where
  "add_segment_bytes c n = c\<lparr>co_segment_bytes := sat_i64 (co_segment_bytes c + clamp_usage n)\<rparr>"

definition observe_client_text :: "(string \<Rightarrow> json option) \<Rightarrow> collector \<Rightarrow> string \<Rightarrow> collector" where
  "observe_client_text parse c s =
     (if \<not> co_enabled c then c
      else (let c = add_segment_bytes c (length s)
            in case parse s of
                 None \<Rightarrow> c
               | Some v \<Rightarrow> if event_type_of v = Some ''response.create''
                   then c\<lparr>co_segment_has_response_activity := True\<rparr> else c))"

text \<open>\<open>observe_client_binary\<close> and \<open>observe_downstream_binary\<close> have the same body.\<close>

definition observe_binary :: "collector \<Rightarrow> nat \<Rightarrow> collector" where
  "observe_binary c n = (if co_enabled c then add_segment_bytes c n else c)"

definition record_done :: "collector \<Rightarrow> response_done \<Rightarrow> collector" where
  "record_done c dn =
     (let c = (case rd_usage dn of
          Some u \<Rightarrow> if ru_total_tokens u > 0
            then c\<lparr>co_reported_usage := observe_delta (co_reported_usage c) u,
                   co_reported_response_count := sat_u64 (co_reported_response_count c) 1\<rparr>
            else c\<lparr>co_uncovered_bytes := sat_i64 (co_uncovered_bytes c + co_segment_bytes c),
                   co_estimated_response_count := sat_u64 (co_estimated_response_count c) 1\<rparr>
        | None \<Rightarrow> c\<lparr>co_uncovered_bytes := sat_i64 (co_uncovered_bytes c + co_segment_bytes c),
                   co_estimated_response_count := sat_u64 (co_estimated_response_count c) 1\<rparr>)
      in c\<lparr>co_segment_bytes := 0, co_segment_has_response_activity := False\<rparr>)"

definition observe_downstream_text :: "(string \<Rightarrow> json option) \<Rightarrow> collector \<Rightarrow> string \<Rightarrow> collector" where
  "observe_downstream_text parse c s =
     (if \<not> co_enabled c then c
      else (let c = add_segment_bytes c (length s)
            in case parse s of
                 None \<Rightarrow> c
               | Some v \<Rightarrow> (case event_type_of v of
                   None \<Rightarrow> c
                 | Some event_type \<Rightarrow>
                     if event_type \<noteq> ''response.done''
                     then (if starts_with ''response.'' event_type
                           then c\<lparr>co_segment_has_response_activity := True\<rparr> else c)
                     else (let segment_was_active = co_segment_has_response_activity c;
                               c = c\<lparr>co_segment_has_response_activity := True\<rparr>
                           in case extract_realtime_response_done v of
                                None \<Rightarrow> c
                              | Some dn \<Rightarrow>
                                  if rd_response_id dn \<in> set (co_seen_response_ids c)
                                  then c\<lparr>co_segment_bytes := sat_i64 (co_segment_bytes c - clamp_usage (length s)),
                                         co_segment_has_response_activity := segment_was_active\<rparr>
                                  else record_done (c\<lparr>co_seen_response_ids :=
                                         rd_response_id dn # co_seen_response_ids c\<rparr>) dn))))"

definition collector_finalize :: "collector \<Rightarrow> realtime_summary" where
  "collector_finalize c =
     (let c = (if co_enabled c \<and> co_segment_has_response_activity c
          then c\<lparr>co_uncovered_bytes := sat_i64 (co_uncovered_bytes c + co_segment_bytes c),
                 co_estimated_response_count := sat_u64 (co_estimated_response_count c) 1\<rparr>
          else c)
      in \<lparr>rs_collection_enabled = co_enabled c, rs_reported_usage = finalize_usage (co_reported_usage c),
          rs_uncovered_bytes = co_uncovered_bytes c,
          rs_reported_response_count = co_reported_response_count c,
          rs_estimated_response_count = co_estimated_response_count c\<rparr>)"

text \<open>A session as its messages, in the order the bridge sees them.\<close>

datatype realtime_message =
    ClientText string | ClientBinary nat | DownstreamText string | DownstreamBinary nat

fun observe_message :: "(string \<Rightarrow> json option) \<Rightarrow> collector \<Rightarrow> realtime_message \<Rightarrow> collector" where
  "observe_message parse c (ClientText s) = observe_client_text parse c s"
| "observe_message parse c (ClientBinary n) = observe_binary c n"
| "observe_message parse c (DownstreamText s) = observe_downstream_text parse c s"
| "observe_message parse c (DownstreamBinary n) = observe_binary c n"

section \<open>Requests\<close>

definition service_supports_stream_options_include_usage :: "string \<Rightarrow> bool" where
  "service_supports_stream_options_include_usage slug \<longleftrightarrow>
     slug \<in> {''llm-openai'', ''llm-deepseek'', ''llm-xai'', ''chrono-llm'', ''chrono-llm-public''}"

text \<open>\<open>Map::insert\<close>: in place when the key is there, at the end otherwise.\<close>

fun object_insert :: "string \<Rightarrow> json \<Rightarrow> (string \<times> json) list \<Rightarrow> (string \<times> json) list" where
  "object_insert k v [] = [(k, v)]"
| "object_insert k v ((k', w) # es) = (if k' = k then (k, v) # es else (k', w) # object_insert k v es)"

definition force_stream_options_include_usage :: "json \<Rightarrow> bool \<times> json" where
  "force_stream_options_include_usage body = (case as_object body of
     None \<Rightarrow> (False, body)
   | Some es \<Rightarrow>
       if Option.bind (map_of es ''stream'') as_bool \<noteq> Some True then (False, body)
       else (case map_of es ''stream_options'' of
         Some (JObject options) \<Rightarrow>
           if Option.bind (map_of options ''include_usage'') as_bool = Some True then (False, body)
           else (True, JObject (object_insert ''stream_options''
                  (JObject (object_insert ''include_usage'' (JBool True) options)) es))
       | _ \<Rightarrow> (True, JObject (object_insert ''stream_options''
                  (JObject [(''include_usage'', JBool True)]) es))))"

definition inference_service :: "bool \<Rightarrow> string \<Rightarrow> bool \<Rightarrow> bool" where
  "inference_service has_inference slug has_provider_config \<longleftrightarrow>
     has_inference \<or> starts_with ''llm-'' slug \<and> has_provider_config"

definition trim_start_slashes :: "string \<Rightarrow> string" where
  "trim_start_slashes s = dropWhile (\<lambda>c. c = CHR ''/'') s"

definition MODEL_PATHS :: "string list" where
  "MODEL_PATHS = [''chat/completions'', ''completions'', ''responses'', ''responses/compact'', ''messages'',
     ''embeddings'', ''images/generations'', ''images/edits'', ''images/variations'',
     ''audio/transcriptions'', ''audio/translations'', ''audio/speech'']"

definition MODEL_METHODS :: "string list" where
  "MODEL_METHODS = ['':generateContent'', '':streamGenerateContent'', '':predict'', '':embedContent'',
     '':batchEmbedContents'']"

definition model_execution :: "bool \<Rightarrow> string \<Rightarrow> string \<Rightarrow> bool \<Rightarrow> bool" where
  "model_execution inference http_method path websocket_upgrade =
     (let path = trim_start_slashes (hd (split_on CHR ''?'' path)) in
      if inference \<and> http_method = ''GET'' \<and> websocket_upgrade
         \<and> (path = ''realtime'' \<or> ends_with ''/realtime'' path) then True
      else if \<not> inference \<or> http_method \<noteq> ''POST'' then False
      else (let path = trim_start_slashes path in
        list_ex (\<lambda>q. path = q \<or> ends_with (CHR ''/'' # q) path) MODEL_PATHS
        \<or> list_ex (\<lambda>q. ends_with q path) MODEL_METHODS))"

end
