(* ===== verification/Llm_Usage_Properties.thy ===== *)
theory Llm_Usage_Properties
  imports Llm_Usage Sse_Properties
begin

text \<open>
  What holds of reported usage: streaming and capturing a response read the same usage, repeated
  reports count once, a failed call bills no image, and the priced classes partition the prompt.
\<close>

section \<open>Streams and captured bodies\<close>

lemma utf8_lossy_valid: "utf8_valid s \<Longrightarrow> utf8_lossy s = s"
proof (induction s rule: utf8_valid.induct)
  case (1 s)
  show ?case
  proof (cases "s = []")
    case False
    then have "fst (utf8_step s)" "utf8_valid (drop (snd (utf8_step s)) s)"
      using "1.prems" by (subst (asm) utf8_valid.simps, simp)+
    then show ?thesis using "1.IH" False by (subst utf8_lossy.simps) simp
  qed (simp add: utf8_lossy.simps)
qed

lemma norm_eol_no_CR: "CR \<notin> set s \<Longrightarrow> norm_eol False s = s"
  by (induction s) auto

definition observe_result :: "(string \<Rightarrow> json option) \<Rightarrow> accumulator \<Rightarrow> decode_error + sse_event \<Rightarrow> accumulator" where
  "observe_result parse a x = (case x of Ok e \<Rightarrow> observe_event parse a e | Err _ \<Rightarrow> a)"

lemma bounded_push_result:
  "be_decoder (bounded_push parse b s) = snd (push_bytes parse (be_decoder b) s)"
  "be_accumulator (bounded_push parse b s) = foldl (observe_result parse) (be_accumulator b) (fst (push_bytes parse (be_decoder b) s))"
proof (induction s arbitrary: b)
  case (Cons c s)
  have step: "bounded_push parse b (c # s) = bounded_push parse (bounded_push_byte parse b c) s" for b
    by (simp add: bounded_push_def)
  obtain out d where out: "push_byte parse (be_decoder b) c = (out, d)" by force
  {
    case 1
    show ?case using Cons.IH(1) [of "bounded_push_byte parse b c"] out
      by (simp add: step bounded_push_byte_def split: prod.splits)
  next
    case 2
    show ?case using Cons.IH(2) [of "bounded_push_byte parse b c"] out
      by (auto simp: step bounded_push_byte_def observe_result_def split: prod.splits option.splits sum.splits)
  }
qed (simp_all add: bounded_push_def)

lemma bounded_push_concat: "foldl (bounded_push parse) b chunks = bounded_push parse b (concat chunks)"
  by (induction chunks arbitrary: b) (simp_all add: bounded_push_def)

lemma observe_captured_successful: "observe_captured parse True = observe_event parse"
  by (auto simp: observe_captured_def observe_event_def fun_eq_iff split: option.splits)

text \<open>
  C27. Streaming reads what capturing reads, under these conditions: the call succeeded, its body is
  valid UTF-8 without a carriage return, it is not itself one JSON document, and no frame of it is
  over the decoder's cap. Then the usage observed while its bytes pass, in whatever chunks, is the
  usage read from the captured body afterwards.
\<close>

theorem streamed_usage_is_captured_usage:
  assumes "utf8_valid (concat chunks)" and "CR \<notin> set (concat chunks)" and "parse (concat chunks) = None"
    and "list_all is_ok (fst (push_bytes parse decoder_default (concat chunks)))"
  shows "bounded_finalize_success (foldl (bounded_push parse) bounded_events_default chunks) True
    = usage_from_body parse (concat chunks) path True"
proof -
  let ?s = "concat chunks"
  have "fst (push_bytes parse decoder_default ?s) = map Ok (parse_events parse ?s)"
    using push_bytes_events [OF framing_default assms(4)] norm_eol_no_CR [OF assms(2)]
    by (simp add: decoder_default_def)
  then have "be_accumulator (bounded_push parse bounded_events_default ?s)
      = foldl (observe_event parse) accumulator_default (parse_events parse ?s)"
    by (simp add: bounded_push_result bounded_events_default_def foldl_map observe_result_def)
  then show ?thesis
    using assms(1,3)
    by (simp add: bounded_finalize_success_def bounded_finalize_def bounded_push_concat usage_from_body_def
        utf8_lossy_valid observe_captured_successful option.map_ident)
qed

section \<open>Failed calls\<close>

lemma observe_images_zero:
  assumes "ac_images a = 0" "ru_images u = 0"
  shows "ac_images (observe a u mode) = 0"
  using assms
  by (cases mode) (auto simp: observe_snapshot_def observe_delta_def observe_images_def observe_model_def
      merge_tokens_def merge_cost_def sat_u64_def Let_def split: option.splits prod.splits)

lemma captured_images_zero:
  "ac_images a = 0 \<Longrightarrow> ac_images (foldl (observe_captured parse False) a es) = 0"
proof (induction es arbitrary: a)
  case (Cons e es)
  have "ac_images (observe_captured parse False a e) = 0"
    using Cons.prems by (auto simp: observe_captured_def observe_images_zero split: option.splits)
  then show ?case using Cons.IH by simp
qed simp

lemma or_default_simps [simp]: "or_default None = usage_default" "or_default (Some u) = u"
  by (simp_all add: or_default_def)

lemma non_empty_cases: "or_default (non_empty u) = u \<or> or_default (non_empty u) = usage_default \<and> usage_is_empty u"
  by (simp add: non_empty_def)

lemma finalize_images: "ru_images (or_default (finalize_usage a)) = ac_images a"
  unfolding finalize_usage_def by (simp add: non_empty_def usage_default_def usage_is_empty_def)

lemma extracted_images: "ru_images (or_default (extract_reported_usage v)) = 0"
  unfolding extract_reported_usage_def by (simp add: non_empty_def usage_default_def Let_def)

lemma failed_body_images: "ru_images (or_default (usage_from_body parse body path False)) = 0"
proof (cases "parse body")
  case None
  then show ?thesis by (simp add: usage_from_body_def finalize_images captured_images_zero accumulator_default_def)
next
  case (Some v)
  then show ?thesis using extracted_images [of v]
    by (simp add: usage_from_body_def extract_reported_usage_for_path_def Let_def non_empty_def) (simp add: usage_default_def)
qed

lemma platform_images: "pu_images (platform_usage_of r bytes estimate) = clamp_usage (ru_images (or_default r))"
  by (cases r) (simp_all add: platform_usage_of_def llm_completion_def platform_usage_default_def apply_to_def
      usage_default_def clamp_usage_def i64_max_def with_token_breakdown_def with_audio_tokens_def
      with_image_tokens_def with_reported_model_def Let_def)

text \<open>
  A failed call bills no image. Whatever the response holds, streamed or captured, the metered
  row of an unsuccessful call counts zero images.
\<close>

theorem failed_calls_bill_no_image:
  "pu_images (platform_usage_of (usage_from_body parse body path False) bytes estimate) = 0
   \<and> pu_images (platform_usage_of (bounded_finalize_success b False) bytes estimate) = 0"
proof
  show "pu_images (platform_usage_of (usage_from_body parse body path False) bytes estimate) = 0"
    by (simp add: platform_images failed_body_images clamp_usage_def i64_max_def)
  show "pu_images (platform_usage_of (bounded_finalize_success b False) bytes estimate) = 0"
    by (cases "bounded_finalize b")
       (simp_all add: platform_images bounded_finalize_success_def usage_default_def clamp_usage_def i64_max_def)
qed

section \<open>Repeated reports\<close>

lemma Max_insert_max: "finite S \<Longrightarrow> Max (insert (max a b) S) = max a (Max (insert b S))" for a :: "'a::linorder"
  by (cases "S = {}") (simp_all add: max.assoc)

text \<open>A field that every snapshot without an image index maximizes ends at the largest report.\<close>

lemma snapshots_max:
  fixes f :: "accumulator \<Rightarrow> nat"
  assumes "\<And>a u. ru_completed_image_index u = None \<Longrightarrow> f (observe_snapshot a u) = max (f a) (g u)"
    and "\<forall>u\<in>set us. ru_completed_image_index u = None"
  shows "f (foldl observe_snapshot a us) = Max (insert (f a) (g ` set us))"
  using assms(2)
proof (induction us arbitrary: a)
  case (Cons u us)
  then show ?case using assms(1) [of u a] by (simp add: Max_insert_max insert_commute)
qed simp

lemmas snapshot_defs = observe_snapshot_def observe_images_def observe_model_def merge_tokens_def
  merge_cost_def Let_def

lemma snapshot_fields:
  assumes "ru_completed_image_index u = None"
  shows "ac_prompt_tokens (observe_snapshot a u) = max (ac_prompt_tokens a) (ru_prompt_tokens u)"
    "ac_completion_tokens (observe_snapshot a u) = max (ac_completion_tokens a) (ru_completion_tokens u)"
    "ac_total_tokens (observe_snapshot a u) = max (ac_total_tokens a) (ru_total_tokens u)"
    "ac_cached_tokens (observe_snapshot a u) = max (ac_cached_tokens a) (ru_cached_tokens u)"
    "ac_cache_creation_tokens (observe_snapshot a u) = max (ac_cache_creation_tokens a) (ru_cache_creation_tokens u)"
    "ac_images (observe_snapshot a u) = max (ac_images a) (ru_images u)"
  using assms by (simp_all add: snapshot_defs split: option.splits)

lemma finalize_fields:
  "ru_prompt_tokens (or_default (finalize_usage a)) = ac_prompt_tokens a"
  "ru_completion_tokens (or_default (finalize_usage a)) = ac_completion_tokens a"
  "ru_total_tokens (or_default (finalize_usage a)) = max (ac_total_tokens a) (sat_u64 (ac_prompt_tokens a) (ac_completion_tokens a))"
  "ru_cached_tokens (or_default (finalize_usage a)) = ac_cached_tokens a"
  "ru_cache_creation_tokens (or_default (finalize_usage a)) = ac_cache_creation_tokens a"
  unfolding finalize_usage_def by (auto simp: non_empty_def usage_default_def usage_is_empty_def sat_u64_def)

definition largest :: "(reported_usage \<Rightarrow> nat) \<Rightarrow> reported_usage list \<Rightarrow> nat" where
  "largest f us = Max (insert 0 (f ` set us))"

text \<open>
  Cumulative reports count once. A stream of snapshot reports, in any order and with any
  repetition, is billed the largest value of each class, and a total no smaller than prompt plus
  completion: re-sent or growing cumulative counts never add up.
\<close>

theorem snapshots_bill_the_largest:
  assumes "\<forall>u\<in>set us. ru_completed_image_index u = None"
    and "r = or_default (finalize_usage (foldl observe_snapshot accumulator_default us))"
  shows "ru_prompt_tokens r = largest ru_prompt_tokens us
    \<and> ru_completion_tokens r = largest ru_completion_tokens us
    \<and> ru_cached_tokens r = largest ru_cached_tokens us
    \<and> ru_cache_creation_tokens r = largest ru_cache_creation_tokens us
    \<and> ru_images r = largest ru_images us
    \<and> ru_total_tokens r = max (largest ru_total_tokens us)
         (min (largest ru_prompt_tokens us + largest ru_completion_tokens us) u64_max)"
  unfolding assms(2) largest_def finalize_fields finalize_images
  by (simp add: snapshots_max [OF snapshot_fields(1) assms(1)] snapshots_max [OF snapshot_fields(2) assms(1)]
      snapshots_max [OF snapshot_fields(3) assms(1)] snapshots_max [OF snapshot_fields(4) assms(1)]
      snapshots_max [OF snapshot_fields(5) assms(1)] snapshots_max [OF snapshot_fields(6) assms(1)]
      accumulator_default_def sat_u64_def)

definition demo_report :: "nat \<Rightarrow> nat \<Rightarrow> reported_usage" where
  "demo_report p q = usage_default\<lparr>ru_prompt_tokens := p, ru_completion_tokens := q, ru_total_tokens := p + q\<rparr>"

lemma snapshots_bill_the_largest_witness:
  "ru_total_tokens (or_default (finalize_usage (foldl observe_snapshot accumulator_default
     [demo_report 10 0, demo_report 10 7, demo_report 10 0, demo_report 10 7]))) = 17"
  using snapshots_bill_the_largest [of "[demo_report 10 0, demo_report 10 7, demo_report 10 0, demo_report 10 7]", OF _ refl]
  by (simp add: largest_def demo_report_def usage_default_def u64_max_def)

section \<open>Realtime sessions\<close>

text \<open>The completed responses of a session, and the first of each id.\<close>

fun done_of :: "(string \<Rightarrow> json option) \<Rightarrow> realtime_message \<Rightarrow> response_done option" where
  "done_of parse (DownstreamText s) = Option.bind (parse s) extract_realtime_response_done"
| "done_of parse _ = None"

fun first_of_each_id :: "string list \<Rightarrow> response_done list \<Rightarrow> response_done list" where
  "first_of_each_id seen [] = []"
| "first_of_each_id seen (d # ds) =
     (if rd_response_id d \<in> set seen then first_of_each_id seen ds
      else d # first_of_each_id (rd_response_id d # seen) ds)"

definition reported_tokens :: "response_done \<Rightarrow> reported_usage option" where
  "reported_tokens d = (case rd_usage d of None \<Rightarrow> None | Some u \<Rightarrow> if ru_total_tokens u > 0 then Some u else None)"

fun message_bytes :: "realtime_message \<Rightarrow> nat" where
  "message_bytes (ClientText s) = length s"
| "message_bytes (ClientBinary n) = n"
| "message_bytes (DownstreamText s) = length s"
| "message_bytes (DownstreamBinary n) = n"

lemma extract_done_type: "extract_realtime_response_done v = Some d \<Longrightarrow> event_type_of v = Some ''response.done''"
  by (simp add: extract_realtime_response_done_def split: if_splits)

text \<open>One message: what it does to the part of the collector that is billed.\<close>

lemma observe_message_done:
  assumes "co_enabled c" "done_of parse m = Some d" "rd_response_id d \<notin> set (co_seen_response_ids c)"
  defines "c' \<equiv> observe_message parse c m"
  shows "co_seen_response_ids c' = rd_response_id d # co_seen_response_ids c"
    "co_reported_usage c' = (case reported_tokens d of None \<Rightarrow> co_reported_usage c | Some u \<Rightarrow> observe_delta (co_reported_usage c) u)"
    "co_reported_response_count c' = (if reported_tokens d = None then co_reported_response_count c else sat_u64 (co_reported_response_count c) 1)"
    "co_enabled c'"
proof -
  obtain s v where s: "m = DownstreamText s" "parse s = Some v" "extract_realtime_response_done v = Some d"
    using assms(2) by (cases m) (auto simp: bind_eq_Some_conv)
  note t = extract_done_type [OF s(3)]
  show "co_seen_response_ids c' = rd_response_id d # co_seen_response_ids c"
    "co_reported_usage c' = (case reported_tokens d of None \<Rightarrow> co_reported_usage c | Some u \<Rightarrow> observe_delta (co_reported_usage c) u)"
    "co_reported_response_count c' = (if reported_tokens d = None then co_reported_response_count c else sat_u64 (co_reported_response_count c) 1)"
    "co_enabled c'"
    using assms(1,3) s t unfolding c'_def
    by (auto simp: observe_downstream_text_def add_segment_bytes_def record_done_def reported_tokens_def Let_def
        split: option.splits if_splits)
qed

lemma observe_message_other:
  assumes "co_enabled c" "\<forall>d. done_of parse m = Some d \<longrightarrow> rd_response_id d \<in> set (co_seen_response_ids c)"
  defines "c' \<equiv> observe_message parse c m"
  shows "co_seen_response_ids c' = co_seen_response_ids c \<and> co_reported_usage c' = co_reported_usage c
    \<and> co_reported_response_count c' = co_reported_response_count c \<and> co_enabled c'"
  using assms(1,2) unfolding c'_def
  by (cases m) (auto simp: observe_downstream_text_def observe_client_text_def observe_binary_def
      add_segment_bytes_def Let_def split: option.splits if_splits)

lemma observe_messages:
  "co_enabled c \<Longrightarrow>
     (let c' = foldl (observe_message parse) c ms;
          us = List.map_filter reported_tokens (first_of_each_id (co_seen_response_ids c) (List.map_filter (done_of parse) ms))
      in co_reported_usage c' = foldl observe_delta (co_reported_usage c) us
         \<and> (co_reported_response_count c \<le> u64_max \<longrightarrow>
              co_reported_response_count c' = sat_u64 (co_reported_response_count c) (length us)))"
proof (induction ms arbitrary: c)
  case Nil
  then show ?case by (simp add: map_filter_simps sat_u64_def)
next
  case (Cons m ms)
  let ?c = "observe_message parse c m"
  show ?case
  proof (cases "\<exists>d. done_of parse m = Some d \<and> rd_response_id d \<notin> set (co_seen_response_ids c)")
    case True
    then obtain d where d: "done_of parse m = Some d" "rd_response_id d \<notin> set (co_seen_response_ids c)" by blast
    note one = observe_message_done [OF Cons.prems d]
    show ?thesis
      using Cons.IH [OF one(4)] one d
      by (cases "reported_tokens d") (auto simp: map_filter_simps Let_def sat_u64_def)
  next
    case False
    then have other: "co_seen_response_ids ?c = co_seen_response_ids c \<and> co_reported_usage ?c = co_reported_usage c
        \<and> co_reported_response_count ?c = co_reported_response_count c \<and> co_enabled ?c"
      using observe_message_other [OF Cons.prems, of parse m] by blast
    have "first_of_each_id (co_seen_response_ids c) (List.map_filter (done_of parse) (m # ms))
        = first_of_each_id (co_seen_response_ids c) (List.map_filter (done_of parse) ms)"
      using False by (cases "done_of parse m") (auto simp: map_filter_simps)
    then show ?thesis using Cons.IH [of ?c] other by simp
  qed
qed

text \<open>The bytes of the open segment and the uncovered ones never exceed what was observed.\<close>

definition bytes_ok :: "int \<Rightarrow> collector \<Rightarrow> bool" where
  "bytes_ok n c \<longleftrightarrow> 0 \<le> co_segment_bytes c \<and> 0 \<le> co_uncovered_bytes c \<and> co_uncovered_bytes c \<le> i64_max
     \<and> co_uncovered_bytes c + co_segment_bytes c \<le> n"

lemma sat_i64_between: "0 \<le> x \<Longrightarrow> 0 \<le> sat_i64 x \<and> sat_i64 x \<le> x \<and> sat_i64 x \<le> i64_max"
  by (auto simp: sat_i64_def i64_max_def i64_min_def)

lemma sat_i64_id: "0 \<le> x \<Longrightarrow> x \<le> i64_max \<Longrightarrow> sat_i64 x = x"
  by (simp add: sat_i64_def i64_min_def)

lemma clamp_usage_between: "0 \<le> clamp_usage n \<and> clamp_usage n \<le> int n \<and> clamp_usage n \<le> i64_max"
  by (auto simp: clamp_usage_def i64_max_def)

lemma bytes_ok_flags [simp]:
  "bytes_ok n (c\<lparr>co_segment_has_response_activity := b\<rparr>) = bytes_ok n c"
  "bytes_ok n (c\<lparr>co_seen_response_ids := ids\<rparr>) = bytes_ok n c"
  by (simp_all add: bytes_ok_def)

lemma bytes_ok_add: "bytes_ok n c \<Longrightarrow> bytes_ok (n + int k) (add_segment_bytes c k)"
  using sat_i64_between [of "co_segment_bytes c + clamp_usage k"] clamp_usage_between [of k]
  by (auto simp: bytes_ok_def add_segment_bytes_def)

lemma bytes_ok_mono: "bytes_ok n c \<Longrightarrow> n \<le> n' \<Longrightarrow> bytes_ok n' c"
  by (simp add: bytes_ok_def)

lemma bytes_ok_close:
  assumes "bytes_ok n c"
  shows "bytes_ok n (c\<lparr>co_uncovered_bytes := sat_i64 (co_uncovered_bytes c + co_segment_bytes c), co_estimated_response_count := k,
      co_segment_bytes := 0, co_segment_has_response_activity := False\<rparr>)"
  using assms sat_i64_between [of "co_uncovered_bytes c + co_segment_bytes c"] by (auto simp: bytes_ok_def)

lemma bytes_ok_record: "bytes_ok n c \<Longrightarrow> bytes_ok n (record_done c d)"
  using sat_i64_between [of "co_uncovered_bytes c + co_segment_bytes c"]
  by (auto simp: record_done_def Let_def bytes_ok_def split: option.splits)

lemma bytes_ok_undo:
  assumes "0 \<le> co_segment_bytes c" "bytes_ok n (add_segment_bytes c k)"
  shows "bytes_ok n (add_segment_bytes c k\<lparr>co_segment_bytes :=
     sat_i64 (co_segment_bytes (add_segment_bytes c k) - clamp_usage k), co_segment_has_response_activity := b\<rparr>)"
proof -
  have "clamp_usage k \<le> co_segment_bytes (add_segment_bytes c k)"
    using assms(1) clamp_usage_between [of k] by (auto simp: add_segment_bytes_def sat_i64_def i64_min_def)
  then show ?thesis
    using assms(2) clamp_usage_between [of k] sat_i64_between [of "co_segment_bytes (add_segment_bytes c k) - clamp_usage k"]
    by (auto simp: bytes_ok_def)
qed

lemma bytes_ok_step:
  assumes "bytes_ok n c" "co_enabled c"
  shows "bytes_ok (n + int (message_bytes m)) (observe_message parse c m)"
proof (cases m)
  case (DownstreamText s)
  let ?c = "add_segment_bytes c (length s)"
  have ok: "bytes_ok (n + int (length s)) ?c" by (rule bytes_ok_add [OF assms(1)])
  have undo: "bytes_ok (n + int (length s)) (?c\<lparr>co_segment_bytes := sat_i64 (co_segment_bytes ?c - clamp_usage (length s)),
      co_segment_has_response_activity := b\<rparr>)" for b
    using bytes_ok_undo [OF _ ok] assms(1) by (simp add: bytes_ok_def)
  show ?thesis
    using ok undo assms(2) DownstreamText
    by (auto simp: observe_downstream_text_def Let_def bytes_ok_record split: option.splits)
qed (use assms in \<open>auto simp: observe_client_text_def observe_binary_def bytes_ok_add Let_def split: option.splits\<close>)

lemma observe_message_enabled: "co_enabled (observe_message parse c m) = co_enabled c"
  by (cases m) (auto simp: observe_downstream_text_def observe_client_text_def observe_binary_def
      add_segment_bytes_def record_done_def Let_def split: option.splits)

lemma bytes_ok_messages:
  "bytes_ok n c \<Longrightarrow> co_enabled c \<Longrightarrow>
     bytes_ok (n + int (sum_list (map message_bytes ms))) (foldl (observe_message parse) c ms)
     \<and> co_enabled (foldl (observe_message parse) c ms)"
proof (induction ms arbitrary: n c)
  case (Cons m ms)
  from Cons.IH [OF bytes_ok_step [OF Cons.prems, of m parse]] Cons.prems(2)
  show ?case by (simp add: observe_message_enabled add.assoc)
qed simp

lemma finalize_bytes:
  "bytes_ok n c \<Longrightarrow> 0 \<le> rs_uncovered_bytes (collector_finalize c) \<and> rs_uncovered_bytes (collector_finalize c) \<le> n"
  using sat_i64_between [of "co_uncovered_bytes c + co_segment_bytes c"]
  by (auto simp: collector_finalize_def Let_def bytes_ok_def)

text \<open>
  C28. A realtime session bills each response once. For every sequence of messages, the reported
  usage is the sum over the first completed response of each id that reports tokens, the reported
  count is their number, and the bytes left to estimate are not negative and never more than the
  bytes that passed.
\<close>

theorem realtime_responses_billed_once:
  "let s = collector_finalize (foldl (observe_message parse) (collector_new True) ms);
       us = List.map_filter reported_tokens (first_of_each_id [] (List.map_filter (done_of parse) ms))
   in rs_reported_usage s = finalize_usage (foldl observe_delta accumulator_default us)
      \<and> rs_reported_response_count s = min (length us) u64_max
      \<and> 0 \<le> rs_uncovered_bytes s \<and> rs_uncovered_bytes s \<le> int (sum_list (map message_bytes ms))"
proof -
  let ?c = "foldl (observe_message parse) (collector_new True) ms"
  have new: "co_enabled (collector_new True)" "bytes_ok 0 (collector_new True)"
    by (simp_all add: collector_new_def bytes_ok_def i64_max_def)
  have "bytes_ok (int (sum_list (map message_bytes ms))) ?c"
    using bytes_ok_messages [OF new(2,1)] by simp
  note bytes = finalize_bytes [OF this]
  have "rs_reported_usage (collector_finalize ?c) = finalize_usage (co_reported_usage ?c)"
    "rs_reported_response_count (collector_finalize ?c) = co_reported_response_count ?c"
    by (simp_all add: collector_finalize_def Let_def)
  then show ?thesis
    using observe_messages [OF new(1), of parse ms] bytes
    by (simp add: collector_new_def Let_def sat_u64_def)
qed

lemma seen_ids:
  "co_enabled c \<Longrightarrow> set (co_seen_response_ids (foldl (observe_message parse) c ms))
     = set (co_seen_response_ids c) \<union> rd_response_id ` set (List.map_filter (done_of parse) ms)"
proof (induction ms arbitrary: c)
  case Nil
  then show ?case by (simp add: map_filter_simps)
next
  case (Cons m ms)
  have "set (co_seen_response_ids (observe_message parse c m))
      = set (co_seen_response_ids c) \<union> rd_response_id ` set_option (done_of parse m)"
  proof (cases "\<exists>d. done_of parse m = Some d \<and> rd_response_id d \<notin> set (co_seen_response_ids c)")
    case True
    then show ?thesis using observe_message_done(1) [OF Cons.prems] by force
  next
    case False
    then show ?thesis using observe_message_other [OF Cons.prems, of parse m]
      by (cases "done_of parse m") auto
  qed
  then show ?case
    using Cons.IH [of "observe_message parse c m"] Cons.prems
    by (cases "done_of parse m") (auto simp: observe_message_enabled map_filter_simps)
qed

text \<open>
  A replayed completion changes nothing. In a session of fewer than \<open>2 ^ 63\<close> bytes, a further
  completion of a response already seen leaves the whole collector as it was: neither the bill nor
  the bytes to estimate nor the activity of the open segment.
\<close>

theorem replayed_response_changes_nothing:
  assumes c: "c = foldl (observe_message parse) (collector_new True) ms"
    and d: "done_of parse m = Some d" "d' \<in> set (List.map_filter (done_of parse) ms)" "rd_response_id d = rd_response_id d'"
    and bytes: "int (sum_list (map message_bytes ms) + message_bytes m) \<le> i64_max"
  shows "observe_message parse c m = c"
proof -
  have new: "co_enabled (collector_new True)" "bytes_ok 0 (collector_new True)"
    by (simp_all add: collector_new_def bytes_ok_def i64_max_def)
  have ok: "bytes_ok (int (sum_list (map message_bytes ms))) c" "co_enabled c"
    unfolding c using bytes_ok_messages [OF new(2,1), of ms parse] by simp_all
  have seen: "rd_response_id d \<in> set (co_seen_response_ids c)"
    unfolding c seen_ids [OF new(1)] using d(2,3) by auto
  obtain s v where s: "m = DownstreamText s" "parse s = Some v" "extract_realtime_response_done v = Some d"
    using d(1) by (cases m) (auto simp: bind_eq_Some_conv)
  have len: "clamp_usage (length s) = int (length s)"
    using bytes s(1) by (simp add: clamp_usage_def)
  have seg: "0 \<le> co_segment_bytes c" "co_segment_bytes c + int (length s) \<le> i64_max"
    using ok(1) bytes s(1) by (auto simp: bytes_ok_def)
  show ?thesis
    using s seen ok(2) extract_done_type [OF s(3)] seg len
    by (simp add: observe_downstream_text_def add_segment_bytes_def Let_def sat_i64_id)
qed

definition demo_done :: json where
  "demo_done = JObject [(''type'', JString ''response.done''),
     (''response'', JObject [(''id'', JString ''r1''), (''usage'', JObject [(''total_tokens'', JNumber (PosInt 9))])])]"

definition demo_parse :: "string \<Rightarrow> json option" where
  "demo_parse s = (if s = ''done'' then Some demo_done else None)"

lemma demo_done_of:
  "map_option rd_response_id (done_of demo_parse (DownstreamText ''done'')) = Some ''r1''"
  by code_simp

lemma replayed_response_changes_nothing_witness:
  "observe_message demo_parse (foldl (observe_message demo_parse) (collector_new True) [ClientBinary 5, DownstreamText ''done''])
     (DownstreamText ''done'')
   = foldl (observe_message demo_parse) (collector_new True) [ClientBinary 5, DownstreamText ''done'']"
proof -
  obtain d where d: "done_of demo_parse (DownstreamText ''done'') = Some d" using demo_done_of by auto
  show ?thesis
    by (rule replayed_response_changes_nothing [OF refl d, of d])
       (use d in \<open>simp_all add: map_filter_simps i64_max_def\<close>)
qed

section \<open>What is priced\<close>

text \<open>
  The priced classes partition the prompt. A report whose cached tokens are part of the prompt
  is metered with input, cache-read and cache-write quantities that add up to the prompt, and
  otherwise with the whole prompt as input; every quantity fits a signed 64-bit row.
\<close>

theorem priced_classes_partition_the_prompt:
  assumes "ru_cached_tokens_included_in_prompt r \<longrightarrow> ru_cached_tokens r + ru_cache_creation_tokens r \<le> ru_prompt_tokens r"
    and "int (ru_prompt_tokens r) \<le> i64_max"
  shows "let u = platform_usage_of (Some r) bytes estimate in
    (if ru_cached_tokens_included_in_prompt r
     then platform_quantity InputTokens u + platform_quantity CacheReadTokens u + platform_quantity CacheWriteTokens u
        = int (ru_prompt_tokens r)
     else platform_quantity InputTokens u = int (ru_prompt_tokens r))
    \<and> list_all (\<lambda>m. 0 \<le> platform_quantity m u \<and> platform_quantity m u \<le> i64_max)
        [InputTokens, OutputTokens, CacheReadTokens, CacheWriteTokens, Images]"
proof -
  let ?u = "platform_usage_of (Some r) bytes estimate"
  let ?input = "if ru_cached_tokens_included_in_prompt r
     then ru_prompt_tokens r - ru_cached_tokens r - ru_cache_creation_tokens r else ru_prompt_tokens r"
  have q: "platform_quantity InputTokens ?u = clamp_usage ?input"
    "platform_quantity CacheReadTokens ?u = clamp_usage (ru_cached_tokens r)"
    "platform_quantity CacheWriteTokens ?u = clamp_usage (ru_cache_creation_tokens r)"
    "platform_quantity OutputTokens ?u = clamp_usage (ru_completion_tokens r)"
    "platform_quantity Images ?u = clamp_usage (ru_images r)"
    by (simp_all add: platform_usage_of_def apply_to_def Let_def with_token_breakdown_def with_audio_tokens_def
        with_image_tokens_def with_reported_model_def max_absorb1 clamp_usage_between)
  have "n \<le> ru_prompt_tokens r \<Longrightarrow> clamp_usage n = int n" for n using assms(2) by (simp add: clamp_usage_def)
  then show ?thesis using assms(1) clamp_usage_between assms(2) by (auto simp add: q Let_def simp del: platform_quantity.simps)
qed

lemma priced_classes_partition_the_prompt_witness:
  "platform_quantity InputTokens (platform_usage_of (Some (usage_default\<lparr>ru_prompt_tokens := 100, ru_cached_tokens := 60,
      ru_cached_tokens_included_in_prompt := True\<rparr>)) 0 False)
   + platform_quantity CacheReadTokens (platform_usage_of (Some (usage_default\<lparr>ru_prompt_tokens := 100, ru_cached_tokens := 60,
      ru_cached_tokens_included_in_prompt := True\<rparr>)) 0 False)
   + platform_quantity CacheWriteTokens (platform_usage_of (Some (usage_default\<lparr>ru_prompt_tokens := 100, ru_cached_tokens := 60,
      ru_cached_tokens_included_in_prompt := True\<rparr>)) 0 False) = 100"
  using priced_classes_partition_the_prompt [of "usage_default\<lparr>ru_prompt_tokens := 100, ru_cached_tokens := 60,
      ru_cached_tokens_included_in_prompt := True\<rparr>" 0 False]
  by (simp add: usage_default_def i64_max_def Let_def del: platform_quantity.simps)

section \<open>What is stored as a model\<close>

definition plain_model :: "string option \<Rightarrow> bool" where
  "plain_model m = (case m of None \<Rightarrow> True | Some s \<Rightarrow> s \<noteq> [] \<and> length s \<le> 128 \<and> list_all model_byte s)"

lemma plain_reported: "plain_model (reported_model v)"
  by (auto simp: plain_model_def reported_model_def MAX_REPORTED_MODEL_LEN_def bind_eq_Some_conv
      split: option.splits if_splits)

lemma plain_extracted: "plain_model (ru_model (or_default (extract_reported_usage v)))"
proof -
  have "ru_model (or_default (extract_reported_usage v)) = reported_model v
      \<or> ru_model (or_default (extract_reported_usage v)) = None"
    by (simp add: extract_reported_usage_def Let_def non_empty_def) (simp add: usage_default_def)
  then show ?thesis using plain_reported [of v] by (auto simp: plain_model_def)
qed

lemma plain_event:
  "extract_from_sse_event parse t s = Some (u, mode) \<Longrightarrow> plain_model (ru_model u)"
  using plain_extracted
  by (auto simp: extract_from_sse_event_def image_completed_def Let_def bind_eq_Some_conv split: if_splits)
     (metis or_default_simps(2))

lemma plain_observe: "plain_model (ac_model a) \<Longrightarrow> plain_model (ru_model u) \<Longrightarrow> plain_model (ac_model (observe a u mode))"
  by (cases mode) (auto simp: observe_snapshot_def observe_delta_def observe_images_def observe_model_def
      merge_tokens_def merge_cost_def Let_def split: option.splits prod.splits if_splits)

lemma plain_captured:
  "plain_model (ac_model a) \<Longrightarrow> plain_model (ac_model (foldl (observe_captured parse b) a es))"
proof (induction es arbitrary: a)
  case (Cons e es)
  have "plain_model (ac_model (observe_captured parse b a e))"
    using Cons.prems plain_event plain_observe by (fastforce simp: observe_captured_def split: option.splits)
  then show ?case using Cons.IH by simp
qed simp

lemma finalize_model: "plain_model (ac_model a) \<Longrightarrow> plain_model (ru_model (or_default (finalize_usage a)))"
  unfolding finalize_usage_def by (simp add: non_empty_def usage_default_def plain_model_def)

text \<open>
  Response content never becomes a model name. Whatever the body, the model stored with a
  metered row is absent or a non-empty identifier of at most 128 ASCII letters, digits and
  \<open>-._:/@+\<close>.
\<close>

theorem stored_model_is_plain:
  "plain_model (pu_reported_model (platform_usage_of (usage_from_body parse body path successful) bytes estimate))"
proof -
  have "plain_model (ru_model (or_default (usage_from_body parse body path successful)))"
  proof (cases "parse body")
    case None
    have "plain_model (ac_model accumulator_default)" by (simp add: accumulator_default_def plain_model_def)
    then show ?thesis using None by (simp add: usage_from_body_def finalize_model plain_captured)
  next
    case (Some v)
    then show ?thesis using plain_extracted [of v]
      by (simp add: usage_from_body_def extract_reported_usage_for_path_def Let_def non_empty_def)
         (simp add: usage_default_def plain_model_def)
  qed
  then show ?thesis
    by (cases "usage_from_body parse body path successful")
       (simp_all add: platform_usage_of_def llm_completion_def platform_usage_default_def plain_model_def
        apply_to_def with_reported_model_def Let_def)
qed

section \<open>A stream read both ways\<close>

definition demo_event :: json where
  "demo_event = JObject [(''usage'', JObject [(''prompt_tokens'', JNumber (PosInt 10)),
     (''completion_tokens'', JNumber (PosInt 5)), (''total_tokens'', JNumber (PosInt 15))])]"

definition demo_event_parse :: "string \<Rightarrow> json option" where
  "demo_event_parse s = (if s = ''u'' then Some demo_event else None)"

definition demo_chunks :: "string list" where
  "demo_chunks = [''data'', '': u'' @ [NL], [NL] @ ''data: [DONE]'' @ [NL, NL]]"

lemma streamed_usage_is_captured_usage_witness:
  "bounded_finalize_success (foldl (bounded_push demo_event_parse) bounded_events_default demo_chunks) True
     = usage_from_body demo_event_parse (concat demo_chunks) ''/chat/completions'' True
   \<and> map_option ru_total_tokens (usage_from_body demo_event_parse (concat demo_chunks) ''/chat/completions'' True) = Some 15"
proof
  have "utf8_valid (concat demo_chunks)" "CR \<notin> set (concat demo_chunks)" "demo_event_parse (concat demo_chunks) = None"
    "list_all is_ok (fst (push_bytes demo_event_parse decoder_default (concat demo_chunks)))"
    by code_simp+
  then show "bounded_finalize_success (foldl (bounded_push demo_event_parse) bounded_events_default demo_chunks) True
     = usage_from_body demo_event_parse (concat demo_chunks) ''/chat/completions'' True"
    by (rule streamed_usage_is_captured_usage)
  show "map_option ru_total_tokens (usage_from_body demo_event_parse (concat demo_chunks) ''/chat/completions'' True) = Some 15"
    by code_simp
qed

end
