(* ===== verification/Agent_Scope.thy ===== *)
theory Agent_Scope
  imports Proxy_Authorization Perm_Inputs Operation_Descriptor
begin

text \<open>
  The operation scopes of specialist agents and agent keys
  (\<open>services/agent_operation_scope_service.rs\<close>, \<open>models/agent_operation_scope.rs\<close>): which saved
  scopes apply to a route, the authorization of a call and of its inputs, the refusal's text and the
  test that a new scope does not widen the old one.
\<close>

section \<open>Scopes\<close>

record scoped_operation =
  so_endpoint_id :: "string option"
  so_rule :: proxy_rule
  so_risk :: "endpoint_risk option"
  so_destructive :: bool
  so_changes_existing :: "bool option"
  so_inputs :: "input_rules option"

record operation_scope =
  os_revision :: int
  os_catalog_service_id :: "string option"
  os_operations :: "scoped_operation list"

type_synonym operation_scopes = "(string, operation_scope) btree_map"

record operation_selection =
  sel_expected_revision :: int
  sel_all_operations :: bool
  sel_endpoint_ids :: "string list"
  sel_rules :: "proxy_rule list"
  sel_contract_digest :: "string option"
  sel_inputs :: "(string, input_rules) btree_map"

section \<open>Equality\<close>

text \<open>The derived equality of stored limits: values compare as \<open>serde_json\<close> values do.\<close>

fun value_rule_eq :: "value_rule \<Rightarrow> value_rule \<Rightarrow> bool" where
  "value_rule_eq (Exact a) (Exact b) = json_eq a b"
| "value_rule_eq (OneOf xs) (OneOf ys) = json_eq_list xs ys"
| "value_rule_eq (MaxInteger a) (MaxInteger b) = (a = b)"
| "value_rule_eq (MaxLength a) (MaxLength b) = (a = b)"
| "value_rule_eq _ _ = False"

fun shape_eq :: "json_shape \<Rightarrow> json_shape \<Rightarrow> bool"
  and properties_eq :: "(string \<times> json_shape) list \<Rightarrow> (string \<times> json_shape) list \<Rightarrow> bool" where
  "shape_eq (SObject ps required) (SObject qs required') = (properties_eq ps qs \<and> required = required')"
| "shape_eq (SArray items n) (SArray items' n') = (shape_eq items items' \<and> n = n')"
| "shape_eq (SString n) (SString n') = (n = n')"
| "shape_eq (SInteger a b) (SInteger a' b') = (a = a' \<and> b = b')"
| "shape_eq (SNumber a b k) (SNumber a' b' k') = (a = a' \<and> b = b' \<and> k = k')"
| "shape_eq SBoolean SBoolean = True"
| "shape_eq (SExact a) (SExact b) = json_eq a b"
| "shape_eq (SOneOf xs) (SOneOf ys) = json_eq_list xs ys"
| "shape_eq _ _ = False"
| "properties_eq [] [] = True"
| "properties_eq ((k, p) # ps) ((l, q) # qs) = (k = l \<and> shape_eq p q \<and> properties_eq ps qs)"
| "properties_eq _ _ = False"

fun option_eq :: "('a \<Rightarrow> 'a \<Rightarrow> bool) \<Rightarrow> 'a option \<Rightarrow> 'a option \<Rightarrow> bool" where
  "option_eq f None None = True"
| "option_eq f (Some x) (Some y) = f x y"
| "option_eq f _ _ = False"

definition query_parameter_eq :: "query_parameter \<Rightarrow> query_parameter \<Rightarrow> bool" where
  "query_parameter_eq p q \<longleftrightarrow> qp_required p = qp_required q \<and> value_rule_eq (qp_rule p) (qp_rule q)"

definition entries_eq :: "('v \<Rightarrow> 'v \<Rightarrow> bool) \<Rightarrow> ('k \<times> 'v) list \<Rightarrow> ('k \<times> 'v) list \<Rightarrow> bool" where
  "entries_eq f = list_all2 (\<lambda>(k, v) (l, w). k = l \<and> f v w)"

definition input_rules_eq :: "input_rules \<Rightarrow> input_rules \<Rightarrow> bool" where
  "input_rules_eq a b \<longleftrightarrow>
     entries_eq value_rule_eq (ir_path a) (ir_path b)
     \<and> option_eq (entries_eq query_parameter_eq) (ir_query a) (ir_query b)
     \<and> option_eq shape_eq (ir_body a) (ir_body b)"

definition scoped_operation_eq :: "scoped_operation \<Rightarrow> scoped_operation \<Rightarrow> bool" where
  "scoped_operation_eq a b \<longleftrightarrow>
     so_endpoint_id a = so_endpoint_id b \<and> so_rule a = so_rule b \<and> so_risk a = so_risk b
     \<and> so_destructive a = so_destructive b \<and> so_changes_existing a = so_changes_existing b
     \<and> option_eq input_rules_eq (so_inputs a) (so_inputs b)"

section \<open>Authorization\<close>

definition applies_to :: "string \<Rightarrow> string option \<Rightarrow> string \<times> operation_scope \<Rightarrow> bool" where
  "applies_to service_id catalog_id = (\<lambda>(sid, scope).
     sid = service_id \<or> catalog_id = Some sid
     \<or> catalog_id = None \<and> os_catalog_service_id scope = Some service_id)"

definition applicable_scopes :: "operation_scopes \<Rightarrow> string \<Rightarrow> string option \<Rightarrow> operation_scope list" where
  "applicable_scopes scopes service_id catalog_id = map snd (filter (applies_to service_id catalog_id) scopes)"

definition is_scoped :: "operation_scopes \<Rightarrow> string \<Rightarrow> string option \<Rightarrow> bool" where
  "is_scoped scopes service_id catalog_id \<longleftrightarrow> applicable_scopes scopes service_id catalog_id \<noteq> []"

definition MAX_REFUSAL_BYTES :: nat where "MAX_REFUSAL_BYTES = 2048"
definition DISCOVERY :: string where
  "DISCOVERY = ''. Use nyx__search_tools for the full allowed list.''"

text \<open>The loop over the first twenty operations: the message and how many are shown.\<close>

fun refused_loop :: "string \<Rightarrow> nat \<Rightarrow> scoped_operation list \<Rightarrow> string \<times> nat" where
  "refused_loop message shown [] = (message, shown)"
| "refused_loop message shown (operation # operations) =
     (let eid = (case so_endpoint_id operation of None \<Rightarrow> [] | Some i \<Rightarrow> '' ('' @ i @ '')'');
          pre = (if shown = 0 then [] else '', '') @ pr_method (so_rule operation) @ '' '';
          remaining = MAX_REFUSAL_BYTES
            - (length message + length pre + length eid + length DISCOVERY + 48)
      in if remaining < 4 then (message, shown)
         else (let path = pr_path_template (so_rule operation);
                   text = (if length path \<le> remaining then path
                           else take (boundary_before path (remaining - 3)) path @ ''...'')
               in refused_loop (message @ pre @ text @ eid) (shown + 1) operations))"

definition refusal_text :: "operation_scope \<Rightarrow> string" where
  "refusal_text scope =
     (let operations = os_operations scope;
          (message, shown) = refused_loop
            ''Specialist operation scope denied this call. Allowed operations: '' 0 (take 20 operations);
          message = (if operations = [] then message @ ''none''
            else if shown < length operations
            then message @ (if shown = 0 then [] else ''; '') @ ''and ''
                   @ nat_str (length operations - shown) @ '' more''
            else message)
      in message @ DISCOVERY)"

definition refused :: "operation_scope \<Rightarrow> app_error" where
  "refused scope = ApiKeyScopeForbidden (refusal_text scope)"

definition endpoint_selected :: "string option \<Rightarrow> scoped_operation \<Rightarrow> bool" where
  "endpoint_selected endpoint_id operation = (case endpoint_id of None \<Rightarrow> True
     | Some eid \<Rightarrow> (case so_endpoint_id operation of None \<Rightarrow> True | Some selected \<Rightarrow> selected = eid))"

definition scope_operation_matches ::
  "proxy_externals \<Rightarrow> string option \<Rightarrow> string \<Rightarrow> canonical_path \<Rightarrow> scoped_operation \<Rightarrow> bool" where
  "scope_operation_matches px endpoint_id method path operation \<longleftrightarrow>
     endpoint_selected endpoint_id operation \<and> rule_matches px (so_rule operation) method path"

fun authorize_each ::
  "proxy_externals \<Rightarrow> string option \<Rightarrow> string \<Rightarrow> canonical_path \<Rightarrow> bool \<Rightarrow> bool
   \<Rightarrow> operation_scope list \<Rightarrow> string option \<Rightarrow> app_error + string option" where
  "authorize_each px endpoint_id method path method_override websocket [] forwarding = Ok forwarding"
| "authorize_each px endpoint_id method path method_override websocket (scope # scopes) forwarding =
     (if method_override \<or> websocket then Err (refused scope)
      else and_then (ok_or (find (scope_operation_matches px endpoint_id method path) (os_operations scope)) (refused scope))
        (\<lambda>operation. authorize_each px endpoint_id method path method_override websocket scopes
           (rule_forwarding_path px (so_rule operation) method path)))"

definition authorize_scopes ::
  "proxy_externals \<Rightarrow> operation_scopes \<Rightarrow> string \<Rightarrow> string option \<Rightarrow> string option \<Rightarrow> string
   \<Rightarrow> canonical_path \<Rightarrow> bool \<Rightarrow> bool \<Rightarrow> app_error + string option" where
  "authorize_scopes px scopes service_id catalog_id endpoint_id method path method_override websocket =
     authorize_each px endpoint_id method path method_override websocket
       (applicable_scopes scopes service_id catalog_id) None"

definition scope_variables :: "string \<Rightarrow> string list" where
  "scope_variables template =
     List.map_filter (\<lambda>segment. Option.bind (strip_prefix ''{'' segment)
        (\<lambda>r. map_option fst (split_once CHR ''}'' r))) (split_on CHR ''/'' template)"

text \<open>\<open>Error\<close> as \<open>thiserror\<close> prints it.\<close>

fun stage_text :: "hook_stage \<Rightarrow> string" where
  "stage_text BeforeExecute = ''before_execute''"
| "stage_text AfterResponse = ''after_response''"

fun perm_error_text :: "perm_error \<Rightarrow> string" where
  "perm_error_text (ApprovalPending _) = ''execution permission review pending''"
| "perm_error_text (Policy s) = ''invalid permission policy: '' @ s"
| "perm_error_text (Denied s) = ''request denied: '' @ s"
| "perm_error_text Verification = ''resource verification unavailable''"
| "perm_error_text Upstream = ''upstream request failed or was rejected''"
| "perm_error_text Timeout = ''permission request timed out''"
| "perm_error_text ResponseTooLarge = ''response exceeds the proof-of-concept byte limit''"
| "perm_error_text OutcomeUncertain = ''write outcome is uncertain; inspect the resource before retrying''"
| "perm_error_text Busy = ''permission evaluator is at capacity''"
| "perm_error_text (HookDenied hook stage) =
     ''request denied by '' @ stage_text stage @ '' hook '' @ [CHR 0x27] @ hook @ [CHR 0x27]"
| "perm_error_text (HookUnavailable hook stage) =
     stage_text stage @ '' hook '' @ [CHR 0x27] @ hook @ [CHR 0x27] @ '' failed or timed out''"
| "perm_error_text WriteAcceptedResponseWithheld =
     ''upstream accepted the write, but its response was withheld; inspect state before retrying''"

definition operation_inputs_check ::
  "proxy_externals \<Rightarrow> externals \<Rightarrow> canonical_path \<Rightarrow> string option \<Rightarrow> string \<Rightarrow> string option
   \<Rightarrow> scoped_operation \<Rightarrow> perm_error + unit" where
  "operation_inputs_check px ext path query body content_type operation = (case so_inputs operation of
     None \<Rightarrow> Ok ()
   | Some inputs \<Rightarrow>
       input_rules_check ext inputs
         (case match_path_arguments px (so_rule operation) path of None \<Rightarrow> [] | Some arguments \<Rightarrow> arguments)
         query body content_type)"

text \<open>\<open>filter(..).any(..)\<close> with the refusal it leaves: the first acceptance, or the last error.\<close>

fun any_accepts :: "('a \<Rightarrow> perm_error + unit) \<Rightarrow> 'a list \<Rightarrow> perm_error option \<Rightarrow> perm_error option + unit" where
  "any_accepts f [] refusal = Err refusal"
| "any_accepts f (x # xs) refusal = (case f x of Ok _ \<Rightarrow> Ok () | Err e \<Rightarrow> any_accepts f xs (Some e))"

definition check_scope_inputs ::
  "proxy_externals \<Rightarrow> externals \<Rightarrow> string option \<Rightarrow> string \<Rightarrow> canonical_path \<Rightarrow> string option \<Rightarrow> string
   \<Rightarrow> string option \<Rightarrow> operation_scope \<Rightarrow> app_error + unit" where
  "check_scope_inputs px ext endpoint_id method path query body content_type scope =
     map_err (\<lambda>refusal. ApiKeyScopeForbidden (case refusal of
         Some e \<Rightarrow> ''Operation scope input limit: '' @ perm_error_text e
       | None \<Rightarrow> ''Operation scope denied this call''))
     (any_accepts (operation_inputs_check px ext path query body content_type)
        (filter (scope_operation_matches px endpoint_id method path) (os_operations scope)) None)"

definition check_inputs ::
  "proxy_externals \<Rightarrow> externals \<Rightarrow> operation_scopes \<Rightarrow> string \<Rightarrow> string option \<Rightarrow> string option \<Rightarrow> string
   \<Rightarrow> canonical_path \<Rightarrow> string option \<Rightarrow> string \<Rightarrow> string option \<Rightarrow> app_error + unit" where
  "check_inputs px ext scopes service_id catalog_id endpoint_id method path query body content_type =
     for_each (check_scope_inputs px ext endpoint_id method path query body content_type)
       (applicable_scopes scopes service_id catalog_id)"

definition route_visible :: "operation_scopes \<Rightarrow> string \<Rightarrow> string option \<Rightarrow> string \<Rightarrow> string \<Rightarrow> bool" where
  "route_visible scopes sid catalog method path \<longleftrightarrow>
     list_all (\<lambda>scope. list_ex (\<lambda>operation.
        pr_method (so_rule operation) = method \<and> pr_path_template (so_rule operation) = path)
       (os_operations scope)) (applicable_scopes scopes sid catalog)"

section \<open>Widening\<close>

definition segment_uses :: "string list \<Rightarrow> string \<Rightarrow> nat" where
  "segment_uses old_segments segment = length (filter (\<lambda>s. s = segment) old_segments)"

definition segment_covers :: "proxy_externals \<Rightarrow> string \<Rightarrow> string list \<Rightarrow> string \<Rightarrow> string \<Rightarrow> bool" where
  "segment_covers px method old_segments previous next_segment \<longleftrightarrow>
     previous = next_segment
     \<or> starts_with ''{'' previous \<and> ends_with ''}'' previous
       \<and> segment_uses old_segments previous = 1
       \<and> \<not> (starts_with ''{'' next_segment \<and> ends_with ''}'' next_segment)
       \<and> (case from_mcp_literal next_segment of
            Err _ \<Rightarrow> False
          | Ok path \<Rightarrow> rule_matches px
              \<lparr>pr_method = method, pr_path_template = CHR ''/'' # previous, pr_target_id = None, pr_constraints = []\<rparr>
              method path)"

definition operation_covers :: "proxy_externals \<Rightarrow> scoped_operation \<Rightarrow> scoped_operation \<Rightarrow> bool" where
  "operation_covers px old new =
     (if scoped_operation_eq old new then True
      else if so_endpoint_id old \<noteq> so_endpoint_id new
         \<or> pr_method (so_rule old) \<noteq> pr_method (so_rule new)
         \<or> pr_target_id (so_rule old) \<noteq> pr_target_id (so_rule new)
         \<or> pr_constraints (so_rule old) \<noteq> []
         \<or> pr_constraints (so_rule new) \<noteq> []
         \<or> so_risk old \<noteq> so_risk new
         \<or> so_destructive old \<noteq> so_destructive new
         \<or> so_changes_existing old \<noteq> so_changes_existing new
         \<or> so_inputs old \<noteq> None \<and> \<not> option_eq input_rules_eq (so_inputs old) (so_inputs new)
      then False
      else (let old_segments = split_on CHR ''/'' (pr_path_template (so_rule old));
                new_segments = split_on CHR ''/'' (pr_path_template (so_rule new))
            in length old_segments = length new_segments
               \<and> list_all2 (segment_covers px (pr_method (so_rule old)) old_segments) old_segments new_segments))"

definition widens :: "proxy_externals \<Rightarrow> operation_scope option \<Rightarrow> operation_scope option \<Rightarrow> bool" where
  "widens px old new = (case old of
     None \<Rightarrow> False
   | Some old \<Rightarrow> (case new of
       None \<Rightarrow> True
     | Some new \<Rightarrow> list_ex (\<lambda>entry.
         os_catalog_service_id old \<noteq> os_catalog_service_id new
         \<or> \<not> list_ex (\<lambda>previous. operation_covers px previous entry) (os_operations old))
         (os_operations new)))"

end
