(* ===== verification/Execution_Permission.thy ===== *)
theory Execution_Permission
  imports Agent_Scope Perm_Mock
begin

text \<open>
  Explicit execution consent (\<open>services/execution_permission.rs\<close>, \<open>models/execution_permission.rs\<close>):
  the contract a grant may carry, the evidence a dispatcher resolves for one prepared effect, and the
  evaluator that decides whether a grant covers the effect, whether its owner may be asked, or
  whether it is prohibited.

  A \<open>DateTime<Utc>\<close> is its number of nanoseconds since the epoch. The derived serialization of a
  policy, SHA-256 in hexadecimal and the greatest date \<open>chrono\<close> represents are fields of
  \<open>execution_env\<close>, beside the libraries the operation scopes and the adapters use.
\<close>

record execution_env =
  ev_proxy :: proxy_externals
  ev_ext :: externals
  ev_policy_value :: "policy \<Rightarrow> json"
  ev_sha256_hex :: "string \<Rightarrow> string"
  ev_max_utc :: int

section \<open>The contract\<close>

definition VERSION :: nat where "VERSION = 1"
definition LEGACY_SCOPE :: string where "LEGACY_SCOPE = ''execution:v1''"
definition PERSISTENT_TTL_SECONDS :: int where "PERSISTENT_TTL_SECONDS = 253402300799"
definition TERMINAL_RETENTION_SECONDS :: int where "TERMINAL_RETENTION_SECONDS = 30 * 24 * 60 * 60"
definition NANOS_PER_SECOND :: int where "NANOS_PER_SECOND = 1000000000"

datatype principal = Agent string | ApiKey string | OauthClient string | ServiceAccount string
datatype execution_lane = LaneOwner | LaneOrgMember | LaneShared | LaneGuest

record subject =
  su_actor_user_id :: string
  su_principal :: principal
  su_lane :: execution_lane

record connection_binding =
  cb_connection_id :: string
  cb_owner_user_id :: string
  cb_credential_id :: "string option"
  cb_credential_epoch :: int
  cb_authority_digest :: string
  cb_behavior_digest :: "string option"

datatype audience = AudiencePrivate string | AudienceGroup string int | AudienceChannel string int
datatype conversation_scope = ExactConversation string | SameAudience

record execution_context =
  ec_audience :: audience
  ec_conversation :: conversation_scope

datatype task_root_kind = RootMessage | RootInvocation | RootGroupRequest

record task_ref =
  tk_root_kind :: task_root_kind
  tk_root_id :: string

datatype validity =
    ValidOperation (vo_operation_id: string) (vo_prepared_digest: string) (vo_expires_at: int)
  | ValidTask (vt_task: task_ref) (vt_hard_deadline: int)
  | ValidWindow (vw_starts_at: int) (vw_ends_at: int)
  | ValidPersistent

datatype execution_floor =
    AccessModeRisk | PersonalServiceApproval | SharedConnectionConsent | WebhookAutomation
  | MachineConfirm | SavedLoginEachSignIn | DelegationWidening | OrgServiceApproval | OrgInstruction
  | OrgMandatoryReview | ExactClaim | DurableClaim | FloorGuest

record execution_contract =
  ct_subject :: subject
  ct_binding :: connection_binding
  ct_context :: execution_context
  ct_operations :: operation_scope
  ct_resource_policy :: "policy option"
  ct_validity :: validity
  ct_satisfies :: "execution_floor list"
  ct_revision :: int

record execution_permission =
  ex_version :: nat
  ex_v1 :: "execution_contract option"

record approval_grant =
  gr_id :: string
  gr_execution :: "execution_permission option"
  gr_scope :: "string option"
  gr_expires_at :: int
  gr_revoked :: bool

section \<open>The request\<close>

datatype gap_reason =
    MissingPermission | GapSubject | GapBinding | GapContext | GapOperation | GapValidity
  | GapFloor execution_floor

datatype prohibition =
    Ceiling | ProhibitedGuest | UnsupportedVersion | InvalidContract | Revoked | ProhibitedTask
  | ClaimUsed | ProhibitedResource | IneligibleDecider

datatype decision = Covered bool | RequestableGap gap_reason | Prohibited prohibition
datatype evaluation_error = AuthorityUnavailable | ResourceVerificationRequired | OutcomeUncertain
datatype live_authority = AuthorityAllowed | AuthorityDenied | AuthorityDown
datatype claim_state = ClaimAvailable | ClaimSpent | ClaimUncertain

record task_evidence =
  te_task :: task_ref
  te_actor_user_id :: string
  te_audience :: audience
  te_hard_deadline :: int
  te_active :: bool
  te_admitted_descendant :: bool

record resource_evidence =
  re_policy_digest :: string
  re_prepared_digest :: string
  re_authority_digest :: string
  re_allowed :: bool

record prepared_operation =
  prep_id :: string
  prep_digest :: string
  prep_catalog_service_id :: "string option"
  prep_endpoint_id :: "string option"
  prep_method :: string
  prep_path :: canonical_path
  prep_query :: "string option"
  prep_body :: string
  prep_content_type :: "string option"

record execution_request =
  er_now :: int
  er_subject :: subject
  er_binding :: connection_binding
  er_audience :: audience
  er_conversation_id :: string
  er_operation :: prepared_operation
  er_task :: "task_evidence option"
  er_resource :: "resource_evidence option"
  er_floors :: "execution_floor list"
  er_authority :: live_authority
  er_eligible_decider :: bool
  er_claim :: claim_state
  er_delegation_ceilings :: "operation_scope list"

section \<open>Helpers\<close>

definition satisfiable :: "execution_floor \<Rightarrow> bool" where
  "satisfiable floor \<longleftrightarrow> floor = AccessModeRisk \<or> floor = PersonalServiceApproval \<or> floor = SharedConnectionConsent"

fun legacy_expiry :: "validity \<Rightarrow> int" where
  "legacy_expiry (ValidOperation oid digest expires_at) = expires_at"
| "legacy_expiry (ValidTask task hard_deadline) = hard_deadline"
| "legacy_expiry (ValidWindow starts_at ends_at) = ends_at"
| "legacy_expiry ValidPersistent = PERSISTENT_TTL_SECONDS * NANOS_PER_SECOND"

definition terminal_expiry :: "execution_env \<Rightarrow> int \<Rightarrow> int" where
  "terminal_expiry env now =
     (let t = now + TERMINAL_RETENTION_SECONDS * NANOS_PER_SECOND in if t \<le> ev_max_utc env then t else ev_max_utc env)"

text \<open>The objects of a \<open>serde_json::Value\<close> repeat no key, so the sorted entries are the object.\<close>

fun canonical_json :: "json \<Rightarrow> json"
  and canonical_values :: "json list \<Rightarrow> json list"
  and canonical_entries :: "(string \<times> json) list \<Rightarrow> (string \<times> json) list" where
  "canonical_json (JArray vs) = JArray (canonical_values vs)"
| "canonical_json (JObject es) = JObject (canonical_entries es)"
| "canonical_json JNull = JNull"
| "canonical_json (JBool b) = JBool b"
| "canonical_json (JNumber n) = JNumber n"
| "canonical_json (JString s) = JString s"
| "canonical_values [] = []"
| "canonical_values (v # vs) = canonical_json v # canonical_values vs"
| "canonical_entries [] = []"
| "canonical_entries ((k, v) # es) = insort_key fst (k, canonical_json v) (canonical_entries es)"

definition canonical_sha256 :: "execution_env \<Rightarrow> json \<Rightarrow> string" where
  "canonical_sha256 env v = ''sha256:'' @ ev_sha256_hex env (to_vec (ev_ext env) (canonical_json v))"

definition gap :: "execution_request \<Rightarrow> gap_reason \<Rightarrow> decision" where
  "gap request reason =
     (if er_eligible_decider request then RequestableGap reason else Prohibited IneligibleDecider)"

definition operation_covered :: "execution_env \<Rightarrow> operation_scope \<Rightarrow> execution_request \<Rightarrow> bool" where
  "operation_covered env scope request =
     (let op = er_operation request in
      if os_catalog_service_id scope \<noteq> prep_catalog_service_id op \<or> os_operations scope = [] then False
      else (let sid = cb_connection_id (er_binding request); scopes = [(sid, scope)]
            in is_ok (authorize_scopes (ev_proxy env) scopes sid (prep_catalog_service_id op) (prep_endpoint_id op)
                 (prep_method op) (prep_path op) False False)
               \<and> is_ok (check_inputs (ev_proxy env) (ev_ext env) scopes sid (prep_catalog_service_id op)
                 (prep_endpoint_id op) (prep_method op) (prep_path op) (prep_query op) (prep_body op) (prep_content_type op))))"

definition preflight :: "execution_env \<Rightarrow> execution_request \<Rightarrow> evaluation_error + decision option" where
  "preflight env request =
     (if su_lane (er_subject request) = LaneGuest then Ok (Some (Prohibited ProhibitedGuest))
      else case er_authority request of
        AuthorityDenied \<Rightarrow> Ok (Some (Prohibited Ceiling))
      | AuthorityDown \<Rightarrow> Err AuthorityUnavailable
      | AuthorityAllowed \<Rightarrow>
          if list_ex (\<lambda>scope. \<not> operation_covered env scope request) (er_delegation_ceilings request)
          then Ok (Some (Prohibited Ceiling)) else Ok None)"

fun principal_id :: "principal \<Rightarrow> string" where
  "principal_id (Agent i) = i"
| "principal_id (ApiKey i) = i"
| "principal_id (OauthClient i) = i"
| "principal_id (ServiceAccount i) = i"

fun audience_valid :: "string \<Rightarrow> audience \<Rightarrow> bool" where
  "audience_valid actor (AudiencePrivate user_id) = (user_id = actor)"
| "audience_valid actor (AudienceGroup group_id revision) = (group_id \<noteq> [] \<and> revision > 0)"
| "audience_valid actor (AudienceChannel binding_id revision) = (binding_id \<noteq> [] \<and> revision > 0)"

fun validity_valid :: "validity \<Rightarrow> bool" where
  "validity_valid (ValidOperation oid digest expires_at) = (oid \<noteq> [] \<and> digest \<noteq> [])"
| "validity_valid (ValidTask task hard_deadline) = (tk_root_id task \<noteq> [])"
| "validity_valid (ValidWindow starts_at ends_at) = (starts_at < ends_at)"
| "validity_valid ValidPersistent = True"

definition valid_contract :: "execution_contract \<Rightarrow> bool" where
  "valid_contract c \<longleftrightarrow>
     principal_id (su_principal (ct_subject c)) \<noteq> []
     \<and> audience_valid (su_actor_user_id (ct_subject c)) (ec_audience (ct_context c))
     \<and> validity_valid (ct_validity c)
     \<and> os_revision (ct_operations c) > 0
     \<and> cb_credential_id (ct_binding c) \<noteq> Some []
     \<and> ec_conversation (ct_context c) \<noteq> ExactConversation []"

section \<open>The evaluator\<close>

text \<open>The guards on the stored contract, after the version and the revocation.\<close>

definition contract_invalid :: "approval_grant \<Rightarrow> execution_contract \<Rightarrow> bool" where
  "contract_invalid grant p \<longleftrightarrow>
     \<not> valid_contract p
     \<or> gr_scope grant \<noteq> Some LEGACY_SCOPE
     \<or> ct_revision p < 1
     \<or> su_actor_user_id (ct_subject p) = []
     \<or> cb_connection_id (ct_binding p) = []
     \<or> cb_owner_user_id (ct_binding p) = []
     \<or> cb_authority_digest (ct_binding p) = []
     \<or> cb_credential_epoch (ct_binding p) < 0
     \<or> ct_satisfies p = []
     \<or> list_ex (\<lambda>floor. \<not> satisfiable floor) (ct_satisfies p)
     \<or> su_lane (ct_subject p) = LaneShared
        \<and> (case cb_behavior_digest (ct_binding p) of None \<Rightarrow> True | Some d \<Rightarrow> d = [])
     \<or> gr_expires_at grant \<noteq> legacy_expiry (ct_validity p)"

text \<open>The clock, the claim and the task; \<open>None\<close> goes on.\<close>

definition task_rejected :: "execution_request \<Rightarrow> task_ref \<Rightarrow> int \<Rightarrow> bool" where
  "task_rejected request task hard_deadline = (case er_task request of
     None \<Rightarrow> True
   | Some evidence \<Rightarrow>
       te_task evidence \<noteq> task
       \<or> \<not> te_active evidence
       \<or> \<not> te_admitted_descendant evidence
       \<or> te_actor_user_id evidence \<noteq> su_actor_user_id (er_subject request)
       \<or> te_audience evidence \<noteq> er_audience request
       \<or> hard_deadline > te_hard_deadline evidence
       \<or> er_now request \<ge> hard_deadline
       \<or> tk_root_id task = [])"

fun check_validity :: "execution_request \<Rightarrow> validity \<Rightarrow> evaluation_error + decision option" where
  "check_validity request (ValidOperation oid digest expires_at) =
     (if oid \<noteq> prep_id (er_operation request) \<or> digest \<noteq> prep_digest (er_operation request)
         \<or> er_now request \<ge> expires_at
      then Ok (Some (gap request GapValidity))
      else case er_claim request of
        ClaimAvailable \<Rightarrow> Ok None
      | ClaimSpent \<Rightarrow> Ok (Some (Prohibited ClaimUsed))
      | ClaimUncertain \<Rightarrow> Err OutcomeUncertain)"
| "check_validity request (ValidTask task hard_deadline) =
     (if task_rejected request task hard_deadline then Ok (Some (Prohibited ProhibitedTask)) else Ok None)"
| "check_validity request (ValidWindow starts_at ends_at) =
     (if ends_at \<le> starts_at \<or> er_now request < starts_at \<or> er_now request \<ge> ends_at
      then Ok (Some (gap request GapValidity)) else Ok None)"
| "check_validity request ValidPersistent = Ok None"

definition check_resource ::
  "execution_env \<Rightarrow> execution_request \<Rightarrow> policy option \<Rightarrow> evaluation_error + decision option" where
  "check_resource env request resource_policy = (case resource_policy of
     None \<Rightarrow> Ok None
   | Some policy \<Rightarrow>
       if po_version policy \<noteq> 1
          \<or> \<not> is_ok (and_then (adapter_for_policy (ev_ext env) policy :: perm_error + unit provider_adapter)
                      (\<lambda>adapter. pa_validate_policy adapter policy))
       then Ok (Some (Prohibited InvalidContract))
       else (let digest = canonical_sha256 env (ev_policy_value env policy) in
         case er_resource request of
           None \<Rightarrow> Err ResourceVerificationRequired
         | Some evidence \<Rightarrow>
             if \<not> re_allowed evidence
                \<or> re_policy_digest evidence \<noteq> digest
                \<or> re_prepared_digest evidence \<noteq> prep_digest (er_operation request)
                \<or> re_authority_digest evidence \<noteq> cb_authority_digest (er_binding request)
             then Ok (Some (Prohibited ProhibitedResource)) else Ok None))"

fun check_floors :: "execution_request \<Rightarrow> execution_floor list \<Rightarrow> execution_floor list \<Rightarrow> decision option" where
  "check_floors request satisfies [] = None"
| "check_floors request satisfies (floor # floors) =
     (let own = cb_owner_user_id (er_binding request) = su_actor_user_id (er_subject request) in
      if \<not> satisfiable floor \<or> floor \<notin> set satisfies then Some (gap request (GapFloor floor))
      else if floor = SharedConnectionConsent \<and> (su_lane (er_subject request) \<noteq> LaneShared \<or> \<not> own)
      then Some (Prohibited Ceiling)
      else if floor = PersonalServiceApproval \<and> \<not> own then Some (Prohibited Ceiling)
      else check_floors request satisfies floors)"

definition context_differs :: "execution_request \<Rightarrow> execution_context \<Rightarrow> bool" where
  "context_differs request context \<longleftrightarrow>
     ec_audience context \<noteq> er_audience request
     \<or> (case ec_conversation context of
          ExactConversation conversation_id \<Rightarrow> conversation_id \<noteq> er_conversation_id request
        | SameAudience \<Rightarrow> False)"

text \<open>A stage that decides ends the evaluation.\<close>

definition or_stage :: "evaluation_error + decision option \<Rightarrow> evaluation_error + decision \<Rightarrow> evaluation_error + decision" where
  "or_stage stage rest = and_then stage (\<lambda>d. case d of Some decision \<Rightarrow> Ok decision | None \<Rightarrow> rest)"

definition evaluate_contract ::
  "execution_env \<Rightarrow> execution_contract \<Rightarrow> execution_request \<Rightarrow> evaluation_error + decision" where
  "evaluate_contract env p request =
     (if ct_subject p \<noteq> er_subject request then Ok (gap request GapSubject)
      else if ct_binding p \<noteq> er_binding request then Ok (gap request GapBinding)
      else if context_differs request (ct_context p) then Ok (gap request GapContext)
      else if \<not> operation_covered env (ct_operations p) request then Ok (gap request GapOperation)
      else or_stage (check_validity request (ct_validity p))
        (or_stage (check_resource env request (ct_resource_policy p))
          (or_stage (Ok (check_floors request (ct_satisfies p) (er_floors request)))
            (Ok (Covered (case ct_validity p of ValidOperation _ _ _ \<Rightarrow> True | _ \<Rightarrow> False))))))"

definition evaluate_grant :: "execution_env \<Rightarrow> approval_grant \<Rightarrow> execution_request \<Rightarrow> evaluation_error + decision" where
  "evaluate_grant env grant request =
     or_stage (preflight env request)
       (case gr_execution grant of
          None \<Rightarrow> Ok (gap request MissingPermission)
        | Some extension \<Rightarrow>
            if ex_version extension \<noteq> VERSION then Ok (Prohibited UnsupportedVersion)
            else (case ex_v1 extension of
              None \<Rightarrow> Ok (Prohibited InvalidContract)
            | Some permission \<Rightarrow>
                if gr_revoked grant then Ok (Prohibited Revoked)
                else if contract_invalid grant permission then Ok (Prohibited InvalidContract)
                else evaluate_contract env permission request))"

section \<open>Candidates\<close>

definition candidate_rank :: "approval_grant \<Rightarrow> nat" where
  "candidate_rank grant =
     (case map_option ct_validity (Option.bind (gr_execution grant) ex_v1) of
        Some ValidPersistent \<Rightarrow> 0
      | Some (ValidWindow _ _) \<Rightarrow> 1
      | Some (ValidTask _ _) \<Rightarrow> 2
      | _ \<Rightarrow> 3)"

definition get_or_insert :: "'a option \<Rightarrow> 'a \<Rightarrow> 'a option" where
  "get_or_insert slot v = (case slot of None \<Rightarrow> Some v | Some _ \<Rightarrow> slot)"

fun candidate_loop ::
  "execution_env \<Rightarrow> execution_request \<Rightarrow> approval_grant list
   \<Rightarrow> evaluation_error option \<Rightarrow> decision option \<Rightarrow> decision option
   \<Rightarrow> evaluation_error + string option \<times> decision" where
  "candidate_loop env request [] error requestable prohibited = (case error of
     Some e \<Rightarrow> Err e
   | None \<Rightarrow> Ok (None, case requestable of Some d \<Rightarrow> d
       | None \<Rightarrow> (case prohibited of Some d \<Rightarrow> d | None \<Rightarrow> gap request MissingPermission)))"
| "candidate_loop env request (grant # grants) error requestable prohibited =
     (case evaluate_grant env grant request of
        Ok (Covered claim) \<Rightarrow> Ok (Some (gr_id grant), Covered claim)
      | Err e \<Rightarrow> candidate_loop env request grants (get_or_insert error e) requestable prohibited
      | Ok (RequestableGap g) \<Rightarrow>
          candidate_loop env request grants error (get_or_insert requestable (RequestableGap g)) prohibited
      | Ok (Prohibited x) \<Rightarrow>
          candidate_loop env request grants error requestable (get_or_insert prohibited (Prohibited x)))"

definition evaluate_candidates ::
  "execution_env \<Rightarrow> approval_grant list \<Rightarrow> execution_request \<Rightarrow> evaluation_error + string option \<times> decision" where
  "evaluate_candidates env grants request =
     and_then (preflight env request) (\<lambda>early. case early of
         Some decision \<Rightarrow> Ok (None, decision)
       | None \<Rightarrow> candidate_loop env request (sort_key candidate_rank grants) None None None)"

end
