(* ===== verification/Json_Equality.thy ===== *)
theory Json_Equality
  imports Json
begin

text \<open>
  \<open>serde_json\<close>'s value equality is an equivalence on values whose objects repeat no key, which is
  what the duplicate-refusing reader yields.
\<close>

lemma json_sub_obj_lookup:
  "json_sub_obj es fs \<Longrightarrow> map_of es k = Some v \<Longrightarrow> \<exists>w. map_of fs k = Some w \<and> json_eq v w"
  by (induction es) (auto split: if_splits option.splits)

lemma number_eq_sym: "number_eq a b \<Longrightarrow> number_eq b a"
  by (cases a; cases b) auto

lemma number_eq_trans: "number_eq a b \<Longrightarrow> number_eq b c \<Longrightarrow> number_eq a c"
  by (cases a; cases b; cases c) auto

lemma json_eq_trans_aux:
  "json_eq a b \<Longrightarrow> json_eq b c \<Longrightarrow> json_eq a c"
  "json_eq_list xs ys \<Longrightarrow> json_eq_list ys zs \<Longrightarrow> json_eq_list xs zs"
  "json_sub_obj es fs \<Longrightarrow> json_sub_obj fs gs \<Longrightarrow> json_sub_obj es gs"
proof (induction a b and xs ys and es fs arbitrary: c and zs and gs
    rule: json_eq_json_eq_list_json_sub_obj.induct)
  case (3 a b)
  then show ?case by (cases c) (auto dest: number_eq_trans)
next
  case (5 xs ys)
  then show ?case by (cases c) auto
next
  case (6 es fs)
  then show ?case by (cases c) auto
next
  case (9 x xs y ys)
  then show ?case by (cases zs) auto
next
  case (12 k v es fs)
  then obtain w where w: "map_of fs k = Some w" "json_eq v w" by (auto split: option.splits)
  obtain u where "map_of gs k = Some u" "json_eq w u"
    using json_sub_obj_lookup [OF "12.prems"(2) w(1)] by blast
  then show ?case using 12 w by auto
qed (auto split: json.splits)

lemmas json_eq_trans = json_eq_trans_aux(1)

lemma json_wf_obj_iff: "json_wf_obj es \<longleftrightarrow> (\<forall>(k, v)\<in>set es. json_wf v)"
  by (induction es) auto

lemma json_eq_sym_aux:
  "json_eq a b \<Longrightarrow> json_wf a \<Longrightarrow> json_wf b \<Longrightarrow> json_eq b a"
  "json_eq_list xs ys \<Longrightarrow> json_wf_list xs \<Longrightarrow> json_wf_list ys \<Longrightarrow> json_eq_list ys xs"
  "json_sub_obj es fs \<Longrightarrow> json_wf_obj es \<Longrightarrow> json_wf_obj fs \<Longrightarrow>
     \<forall>(k, v)\<in>set es. \<exists>w. map_of fs k = Some w \<and> json_eq w v"
proof (induction a b and xs ys and es fs rule: json_eq_json_eq_list_json_sub_obj.induct)
  case (3 a b)
  then show ?case by (auto dest: number_eq_sym)
next
  case (6 es fs)
  then have d: "distinct (map fst es)" "distinct (map fst fs)" "length es = length fs"
    "json_sub_obj es fs" and rev_eq: "\<forall>(k, v)\<in>set es. \<exists>w. map_of fs k = Some w \<and> json_eq w v"
    by auto
  have "fst ` set es \<subseteq> fst ` set fs" using rev_eq by (force dest: map_of_SomeD)
  moreover have "card (fst ` set es) = card (fst ` set fs)"
    using d(1-3) distinct_card [OF d(1)] distinct_card [OF d(2)] by simp
  ultimately have keys: "fst ` set es = fst ` set fs" by (simp add: card_subset_eq)
  have "json_sub_obj hs es" if "set hs \<subseteq> set fs" for hs
    using that
  proof (induction hs)
    case (Cons h hs)
    obtain k w where h: "h = (k, w)" by force
    then have fs: "map_of fs k = Some w" using Cons.prems d(2) by simp
    have "k \<in> fst ` set es" using keys Cons.prems h by force
    then obtain v where es: "map_of es k = Some v" by (cases "map_of es k") (auto simp: map_of_eq_None_iff)
    have "json_eq w v" using rev_eq fs map_of_SomeD [OF es] by fastforce
    then show ?case using Cons h es by simp
  qed simp
  then show ?case using d(3) by simp
next
  case (12 k v es fs)
  then obtain w where w: "map_of fs k = Some w" "json_eq v w" by (auto split: option.splits)
  have "json_wf w" using "12.prems"(3) map_of_SomeD [OF w(1)] by (force simp: json_wf_obj_iff)
  then have "json_eq w v" using "12.IH"(1) [OF w(1)] w(2) "12.prems"(2) by simp
  then show ?case using 12 w by (auto split: option.splits)
qed auto

lemmas json_eq_sym = json_eq_sym_aux(1)

lemma json_eq_refl_aux:
  "json_wf a \<Longrightarrow> json_eq a a" "json_wf_list xs \<Longrightarrow> json_eq_list xs xs"
  "json_wf_obj es \<Longrightarrow> (\<forall>(k, v)\<in>set es. json_eq v v)"
proof (induction a and xs and es rule: json_wf_json_wf_list_json_wf_obj.induct)
  case (1 n)
  then show ?case by (cases n) auto
next
  case (3 es)
  have "json_sub_obj hs es" if "set hs \<subseteq> set es" for hs
    using that
  proof (induction hs)
    case (Cons h hs)
    obtain k w where h: "h = (k, w)" by force
    then have "map_of es k = Some w" "json_eq w w" using Cons.prems 3 by auto
    then show ?case using Cons h by simp
  qed simp
  then show ?case by simp
qed auto

lemmas json_eq_refl = json_eq_refl_aux(1)

end
