(* ===== verification/Agent_Compile.thy ===== *)
theory Agent_Compile
  imports Agent_Scope
begin

text \<open>
  Saving an operation scope (\<open>services/agent_operation_scope_service.rs\<close>): a selection is compiled
  against the stored endpoints, its reviewed digest and the widening test guard the write, and the
  agent's scopes and revisions change together. Also the effect classes of a call
  (\<open>services/mcp_service.rs\<close>) and the visibility of catalog entries under a scope.

  The rows of the database, the marks of a catalog's compiled specification and the digest of a
  contract are arguments, the fields of \<open>scope_db\<close>.
\<close>

section \<open>Effects\<close>

definition append_query_allowed :: "externals \<Rightarrow> (string \<times> json) list option \<Rightarrow> string option \<Rightarrow> bool" where
  "append_query_allowed ext required query = (case required of
     None \<Rightarrow> True
   | Some required \<Rightarrow> (case parse_query ext (case query of None \<Rightarrow> [] | Some q \<Rightarrow> q) of
       Err _ \<Rightarrow> False
     | Ok pairs \<Rightarrow> list_all (\<lambda>(name, value). case as_str value of
         None \<Rightarrow> False | Some v \<Rightarrow> btm_get pairs name = Some v) required))"

definition intersect_effects :: "operation_effects option \<Rightarrow> operation_effects \<Rightarrow> operation_effects" where
  "intersect_effects current next_effects = (case current of
     None \<Rightarrow> next_effects
   | Some c \<Rightarrow> \<lparr>oe_reads = oe_reads c \<and> oe_reads next_effects,
                oe_uses = oe_uses c \<and> oe_uses next_effects,
                oe_destructive = oe_destructive c \<or> oe_destructive next_effects\<rparr>)"

text \<open>The effects of every operation a call matches, as \<open>check_non_mcp_chat_context\<close> folds them.\<close>

definition scoped_metadata :: "scoped_operation \<Rightarrow> endpoint_metadata" where
  "scoped_metadata op = \<lparr>em_risk = so_risk op, em_destructive = so_destructive op,
     em_changes_existing = so_changes_existing op, em_append_only = False,
     em_catalog_contract = (so_endpoint_id op \<noteq> None)\<rparr>"

definition matched_effects ::
  "proxy_externals \<Rightarrow> operation_scopes \<Rightarrow> string \<Rightarrow> string option \<Rightarrow> string \<Rightarrow> canonical_path
   \<Rightarrow> operation_effects option" where
  "matched_effects px scopes service catalog method path =
     foldl (\<lambda>matched op. Some (intersect_effects matched (operation_effects_of method (scoped_metadata op)))) None
       (filter (\<lambda>op. rule_matches px (so_rule op) method path)
          (concat (map os_operations (applicable_scopes scopes service catalog))))"

datatype guest_access = GuestRead | GuestUse | GuestAll

fun guest_allowed :: "guest_access \<Rightarrow> operation_effects \<Rightarrow> bool" where
  "guest_allowed GuestAll e = True"
| "guest_allowed GuestUse e = oe_uses e"
| "guest_allowed GuestRead e = (oe_reads e \<and> oe_uses e)"

section \<open>Visibility\<close>

record mcp_endpoint =
  me_endpoint_id :: string
  me_method :: string
  me_path :: string

record mcp_service =
  ms_service_id :: string
  ms_catalog_id :: "string option"
  ms_endpoints :: "mcp_endpoint list"
  ms_generations :: "(string, int) btree_map"
  ms_is_generic_proxy :: bool

definition producer_operation_generation :: "mcp_service \<Rightarrow> mcp_endpoint \<Rightarrow> int option" where
  "producer_operation_generation service endpoint =
     (case btm_get (ms_generations service) (me_endpoint_id endpoint) of
        None \<Rightarrow> None | Some g \<Rightarrow> if g > 0 then Some g else None)"

definition endpoint_visible :: "operation_scopes \<Rightarrow> mcp_service \<Rightarrow> mcp_endpoint \<Rightarrow> bool" where
  "endpoint_visible scopes service endpoint \<longleftrightarrow>
     list_all (\<lambda>scope. list_ex (\<lambda>op.
        if ms_is_generic_proxy service then True
        else (case so_endpoint_id op of
            Some eid \<Rightarrow>
              (eid = me_endpoint_id endpoint \<or> producer_operation_generation service endpoint = None)
              \<and> pr_method (so_rule op) = me_method endpoint \<and> pr_path_template (so_rule op) = me_path endpoint
          | None \<Rightarrow> pr_method (so_rule op) = me_method endpoint \<and> pr_path_template (so_rule op) = me_path endpoint))
       (os_operations scope)) (applicable_scopes scopes (ms_service_id service) (ms_catalog_id service))"

definition filter_catalog :: "operation_scopes \<Rightarrow> mcp_service list \<Rightarrow> mcp_service list" where
  "filter_catalog scopes services =
     (if scopes = [] then services
      else filter (\<lambda>s. ms_endpoints s \<noteq> [])
        (map (\<lambda>s. s\<lparr>ms_endpoints := filter (endpoint_visible scopes s) (ms_endpoints s)\<rparr>) services))"

section \<open>Compiling a selection\<close>

record service_endpoint =
  ep_id :: string
  ep_name :: string
  ep_method :: string
  ep_path :: string
  ep_parameters :: "json option"
  ep_is_active :: bool
  ep_risk :: "endpoint_risk option"

record operation_marks =
  mk_destructive :: bool
  mk_changes_existing :: "bool option"

record scope_db =
  sd_user_service_catalog :: "string \<Rightarrow> string option option"
  sd_endpoints :: "string list \<Rightarrow> service_endpoint list"
  sd_catalog_slug :: "string \<Rightarrow> string option"
  sd_marks :: "string \<Rightarrow> string \<Rightarrow> string \<Rightarrow> string \<Rightarrow> operation_marks"
  sd_digest :: "(string option \<times> scoped_operation list) option \<Rightarrow> string"

record scope_holder =
  sh_service_ids :: "string list"
  sh_platform_service_ids :: "string list"
  sh_revision :: int

definition compile_endpoint ::
  "scope_db \<Rightarrow> service_endpoint list \<Rightarrow> string option \<Rightarrow> (string, input_rules) btree_map \<Rightarrow> string
   \<Rightarrow> app_error + scoped_operation" where
  "compile_endpoint db endpoints slug inputs eid =
     and_then (ok_or (find (\<lambda>row. ep_id row = eid \<and> ep_is_active row) endpoints)
                (ValidationError ''Selected endpoint is unavailable for this service'')) (\<lambda>endpoint.
     and_then (rule_from_endpoint (ep_method endpoint) (ep_path endpoint) (ep_parameters endpoint)) (\<lambda>rule.
     and_then (normalize_policy [rule]) (\<lambda>rules.
     let rule = hd rules;
         marks = (case slug of None \<Rightarrow> \<lparr>mk_destructive = False, mk_changes_existing = None\<rparr>
           | Some s \<Rightarrow> sd_marks db s (ep_method endpoint) (ep_path endpoint) (ep_name endpoint))
     in and_then (case btm_get inputs eid of
            None \<Rightarrow> Ok None
          | Some r \<Rightarrow> if input_rules_is_empty r then Ok None
              else and_then (map_err (\<lambda>e. ValidationError (perm_error_text e))
                     (input_rules_validate r (pr_method rule) (scope_variables (pr_path_template rule))))
                   (\<lambda>_. Ok (Some r))) (\<lambda>limits.
        Ok \<lparr>so_endpoint_id = Some eid, so_rule = rule, so_risk = ep_risk endpoint,
            so_destructive = mk_destructive marks, so_changes_existing = mk_changes_existing marks,
            so_inputs = limits\<rparr>))))"

text \<open>The loop over the selected endpoints; a repeated id is skipped.\<close>

fun compile_endpoints ::
  "scope_db \<Rightarrow> service_endpoint list \<Rightarrow> string option \<Rightarrow> (string, input_rules) btree_map
   \<Rightarrow> string list \<Rightarrow> string list \<Rightarrow> scoped_operation list \<Rightarrow> app_error + scoped_operation list" where
  "compile_endpoints db endpoints slug inputs seen [] acc = Ok acc"
| "compile_endpoints db endpoints slug inputs seen (eid # eids) acc =
     (if eid \<in> set seen then compile_endpoints db endpoints slug inputs seen eids acc
      else and_then (compile_endpoint db endpoints slug inputs eid) (\<lambda>op.
        compile_endpoints db endpoints slug inputs (eid # seen) eids (acc @ [op])))"

fun append_rules :: "proxy_rule list \<Rightarrow> scoped_operation list \<Rightarrow> scoped_operation list" where
  "append_rules [] acc = acc"
| "append_rules (rule # rules) acc =
     (let op = \<lparr>so_endpoint_id = None, so_rule = rule, so_risk = None, so_destructive = False,
                so_changes_existing = None, so_inputs = None\<rparr>
      in append_rules rules (if list_ex (\<lambda>x. scoped_operation_eq x op) acc then acc else acc @ [op]))"

definition compile_catalog :: "scope_db \<Rightarrow> scope_holder \<Rightarrow> string \<Rightarrow> app_error + string option" where
  "compile_catalog db holder service =
     (if service \<in> set (sh_platform_service_ids holder) then Ok (Some service)
      else ok_or (sd_user_service_catalog db service) (NotFound ''Service not found''))"

definition compile_for ::
  "scope_db \<Rightarrow> scope_holder \<Rightarrow> string \<Rightarrow> operation_selection \<Rightarrow> app_error + operation_scope option" where
  "compile_for db holder service input =
     (if service \<notin> set (sh_service_ids holder @ sh_platform_service_ids holder)
      then Err (ValidationError ''Operation scopes require an existing service grant'')
      else if sel_expected_revision input \<noteq> sh_revision holder
      then Err (Conflict ''Operation scope changed; reload its revision'')
      else if length (sel_endpoint_ids input) + length (sel_rules input) > 256 \<or> sel_expected_revision input < 0
      then Err (ValidationError ''Select at most 256 operations and a valid revision'')
      else if sel_all_operations input
      then (if sel_endpoint_ids input \<noteq> [] \<or> sel_rules input \<noteq> []
            then Err (ValidationError ''All operations cannot include a selection'') else Ok None)
      else and_then (compile_catalog db holder service) (\<lambda>catalog.
      let endpoints = sd_endpoints db (service # (case catalog of None \<Rightarrow> [] | Some c \<Rightarrow> [c])) in
      if sel_rules input \<noteq> [] \<and> endpoints \<noteq> []
      then Err (ValidationError ''Select stable endpoint IDs when endpoint rows exist'')
      else and_then (compile_endpoints db endpoints (Option.bind catalog (sd_catalog_slug db))
                       (sel_inputs input) [] (sel_endpoint_ids input) []) (\<lambda>operations.
      if list_ex (\<lambda>eid. eid \<notin> set (sel_endpoint_ids input)) (btm_keys (sel_inputs input))
      then Err (ValidationError ''Input limits must name selected endpoint IDs'')
      else if list_ex (\<lambda>rule. pr_target_id rule \<noteq> None \<or> pr_constraints rule \<noteq> []) (sel_rules input)
      then Err (ValidationError ''Operation scope rules cannot select targets or parameter grammars'')
      else and_then (normalize_policy (sel_rules input)) (\<lambda>rules.
      and_then (ok_or (checked_i64 (sel_expected_revision input + 1)) (Conflict ''Operation revision exhausted'')) (\<lambda>revision.
        Ok (Some \<lparr>os_revision = revision, os_catalog_service_id = catalog,
                  os_operations = append_rules rules operations\<rparr>))))))"

section \<open>Saving it\<close>

definition contract_digest :: "scope_db \<Rightarrow> operation_scope option \<Rightarrow> string" where
  "contract_digest db scope = sd_digest db (map_option (\<lambda>s. (os_catalog_service_id s, os_operations s)) scope)"

definition ensure_reviewed :: "scope_db \<Rightarrow> operation_selection \<Rightarrow> operation_scope option \<Rightarrow> app_error + unit" where
  "ensure_reviewed db input scope = (case sel_contract_digest input of
     None \<Rightarrow> Ok ()
   | Some expected \<Rightarrow> if expected \<noteq> contract_digest db scope
       then Err (Conflict ''Operations changed since this selection was reviewed; review it again'') else Ok ())"

record scoped_agent =
  ag_service_ids :: "string list"
  ag_platform_service_ids :: "string list"
  ag_operation_scopes :: operation_scopes
  ag_operation_scope_revisions :: "(string, int) btree_map"

definition agent_revision :: "scoped_agent \<Rightarrow> string \<Rightarrow> int" where
  "agent_revision agent service = (case btm_get (ag_operation_scope_revisions agent) service of
     Some r \<Rightarrow> r
   | None \<Rightarrow> (case btm_get (ag_operation_scopes agent) service of Some s \<Rightarrow> os_revision s | None \<Rightarrow> 0))"

definition holder_of :: "scoped_agent \<Rightarrow> string \<Rightarrow> scope_holder" where
  "holder_of agent service = \<lparr>sh_service_ids = ag_service_ids agent,
     sh_platform_service_ids = ag_platform_service_ids agent, sh_revision = agent_revision agent service\<rparr>"

definition apply_selection ::
  "proxy_externals \<Rightarrow> scope_db \<Rightarrow> string \<Rightarrow> operation_selection \<Rightarrow> bool \<Rightarrow> scoped_agent \<Rightarrow> app_error + scoped_agent" where
  "apply_selection px db service input allow_widening agent =
     and_then (compile_for db (holder_of agent service) service input) (\<lambda>scope.
     and_then (ensure_reviewed db input scope) (\<lambda>_.
     if \<not> allow_widening \<and> widens px (btm_get (ag_operation_scopes agent) service) scope
     then Err (Forbidden ''Widening operation access requires an owner action card'')
     else and_then (ok_or (checked_i64 (sel_expected_revision input + 1)) (Conflict ''Operation revision exhausted'')) (\<lambda>next_revision.
       let agent = agent\<lparr>ag_operation_scope_revisions :=
                 btm_insert service next_revision (ag_operation_scope_revisions agent)\<rparr>;
           agent = (case scope of
               Some s \<Rightarrow> agent\<lparr>ag_operation_scopes := btm_insert service s (ag_operation_scopes agent)\<rparr>
             | None \<Rightarrow> agent\<lparr>ag_operation_scopes := btm_remove service (ag_operation_scopes agent)\<rparr>)
       in if length (ag_operation_scope_revisions agent) > 256
          then Err (ValidationError ''At most 256 scoped services per agent'')
          else Ok agent)))"

text \<open>An instance that was not granted keeps the catalog's identity.\<close>

definition execution_identity :: "string list \<Rightarrow> bool \<Rightarrow> string option \<Rightarrow> string \<Rightarrow> string \<times> string option" where
  "execution_identity allowed_service_ids allow_all_services inst catalog = (case inst of
     Some i \<Rightarrow> if i \<in> set allowed_service_ids \<or> allow_all_services then (i, Some catalog) else (catalog, None)
   | None \<Rightarrow> (catalog, None))"

end
