(* ===== verification/Agent_Scope_Properties.thy ===== *)
theory Agent_Scope_Properties
  imports Agent_Scope Json_Equality Proxy_Properties Reference_Codec
begin

text \<open>
  What holds of operation scopes: a change that is not flagged as widening admits no call the
  saved scope refused, an applicable scope admits exactly what one of its operations admits, and
  refusals stay within their budget.
\<close>

section \<open>Limits that compare equal accept the same\<close>

fun shape_wf :: "json_shape \<Rightarrow> bool"
  and properties_wf :: "(string \<times> json_shape) list \<Rightarrow> bool" where
  "shape_wf (SObject ps required) = properties_wf ps"
| "shape_wf (SArray items n) = shape_wf items"
| "shape_wf (SExact v) = json_wf v"
| "shape_wf _ = True"
| "properties_wf [] = True"
| "properties_wf ((k, p) # ps) = (shape_wf p \<and> properties_wf ps)"

lemma json_eq_list_witness:
  "json_eq_list xs ys \<Longrightarrow> y \<in> set ys \<Longrightarrow> \<exists>x\<in>set xs. json_eq x y"
proof (induction xs arbitrary: ys)
  case (Cons x xs)
  then show ?case by (cases ys) auto
qed (auto elim: json_eq_list.elims)

lemma value_rule_eq_string:
  "value_rule_eq r s \<Longrightarrow> matches_value s (JString v) \<Longrightarrow> matches_value r (JString v)"
proof (cases r; cases s)
  fix xs ys
  assume eq: "value_rule_eq r s" "matches_value s (JString v)" and r: "r = OneOf xs" "s = OneOf ys"
  then obtain y where y: "y \<in> set ys" "y = JString v" by (auto simp: matches_value_def list_ex_iff)
  obtain x where "x \<in> set xs" "json_eq x y" using json_eq_list_witness [of xs ys y] eq(1) r y(1) by auto
  then show "matches_value r (JString v)" using r y by (auto simp: matches_value_def list_ex_iff)
qed (auto simp: matches_value_def)

lemma properties_lookup:
  "properties_eq ps qs \<Longrightarrow> properties_wf ps \<Longrightarrow> properties_wf qs \<Longrightarrow> btm_get qs k = Some q \<Longrightarrow>
     \<exists>p. btm_get ps k = Some p \<and> shape_eq p q \<and> shape_wf p \<and> shape_wf q"
proof (induction ps arbitrary: qs)
  case (Cons e ps)
  then show ?case by (cases e; cases qs) (auto simp: btm_get_def split: if_splits)
qed (auto elim: properties_eq.elims simp: btm_get_def)

lemma shape_eq_accepts:
  "shape_eq s t \<Longrightarrow> shape_wf s \<Longrightarrow> shape_wf t \<Longrightarrow> accepts t v \<Longrightarrow> accepts s v"
  "shape_eq s t \<Longrightarrow> shape_wf s \<Longrightarrow> shape_wf t \<Longrightarrow> accepts_list t vs \<Longrightarrow> accepts_list s vs"
  "properties_eq ps qs \<Longrightarrow> properties_wf ps \<Longrightarrow> properties_wf qs \<Longrightarrow> accepts_entries qs es \<Longrightarrow> accepts_entries ps es"
proof (induction t v and t vs and qs es arbitrary: s and s and ps rule: accepts_accepts_list_accepts_entries.induct)
  case (1 properties required object)
  then show ?case by (cases s) auto
next
  case (2 items max_items array)
  then show ?case by (cases s) auto
next
  case (7 expected v)
  then obtain a where a: "s = SExact a" "json_eq a expected" by (cases s) auto
  then have "json_eq expected a" using 7 by (auto intro: json_eq_sym)
  then show ?case using 7 a by (auto intro: json_eq_trans)
next
  case (8 vals v)
  then obtain xs where xs: "s = SOneOf xs" "json_eq_list xs vals" by (cases s) auto
  obtain y where y: "y \<in> set vals" "json_eq y v" using 8 by (auto simp: list_ex_iff)
  then show ?case using json_eq_list_witness [OF xs(2) y(1)] xs by (auto simp: list_ex_iff intro: json_eq_trans)
qed (auto elim: shape_eq.elims dest!: properties_lookup split: option.splits)

definition inputs_wf :: "input_rules \<Rightarrow> bool" where
  "inputs_wf r \<longleftrightarrow> (case ir_body r of None \<Rightarrow> True | Some shape \<Rightarrow> shape_wf shape)"

lemma entries_eq_lookup:
  "entries_eq f xs ys \<Longrightarrow> btm_get ys k = Some w \<Longrightarrow> \<exists>v. btm_get xs k = Some v \<and> f v w"
  unfolding entries_eq_def by (induction rule: list_all2_induct) (auto simp: btm_get_def split: if_splits)

lemma entries_eq_keys: "entries_eq f xs ys \<Longrightarrow> map fst xs = map fst ys"
  unfolding entries_eq_def by (induction rule: list_all2_induct) auto

lemma entries_eq_each:
  "entries_eq f xs ys \<Longrightarrow> (k, v) \<in> set xs \<Longrightarrow> \<exists>w. (k, w) \<in> set ys \<and> f v w"
  unfolding entries_eq_def by (induction rule: list_all2_induct) auto

lemma check_query_eq:
  assumes "entries_eq query_parameter_eq rules rules'" "check_query rules' query = Ok ()"
  shows "check_query rules query = Ok ()"
proof -
  have keys: "btm_contains rules k = btm_contains rules' k" for k
    using entries_eq_keys [OF assms(1)] btm_keys_get unfolding btm_contains_def btm_keys_def by metis
  have each: "case btm_get query name of
        Some value \<Rightarrow> matches_value (qp_rule parameter) (JString value)
      | None \<Rightarrow> \<not> qp_required parameter" if entry: "(name, parameter) \<in> set rules" for name parameter
  proof -
    obtain q where q: "(name, q) \<in> set rules'" "query_parameter_eq parameter q"
      using entries_eq_each [OF assms(1) entry] by blast
    then show ?thesis
      using assms(2) by (fastforce simp: check_query_def query_parameter_eq_def
          intro: value_rule_eq_string split: if_splits option.splits)
  qed
  show ?thesis using assms(2) by (fastforce simp: check_query_def keys dest: each split: if_splits option.splits)
qed

lemma input_rules_check_eq:
  assumes eq: "input_rules_eq r r'" and wf: "inputs_wf r" "inputs_wf r'"
    and sub: "\<And>k v. btm_get arguments' k = Some v \<Longrightarrow> btm_get arguments k = Some v"
    and ok: "input_rules_check ext r' arguments' query body content_type = Ok ()"
  shows "input_rules_check ext r arguments query body content_type = Ok ()"
proof -
  have rules: "entries_eq value_rule_eq (ir_path r) (ir_path r')" using eq by (simp add: input_rules_eq_def)
  have path: "\<exists>v. btm_get arguments name = Some v \<and> matches_value rule (JString v)"
    if entry: "(name, rule) \<in> set (ir_path r)" for name rule
  proof -
    obtain rule' where rule': "(name, rule') \<in> set (ir_path r')" "value_rule_eq rule rule'"
      using entries_eq_each [OF rules entry] by blast
    then obtain v where "btm_get arguments' name = Some v" "matches_value rule' (JString v)"
      using ok by (fastforce simp: input_rules_check_def split: option.splits if_splits)
    then show ?thesis using sub value_rule_eq_string [OF rule'(2)] by blast
  qed
  have query: "case ir_query r of None \<Rightarrow> True | Some rules \<Rightarrow>
      and_then (parse_query ext (case query of None \<Rightarrow> [] | Some q \<Rightarrow> q)) (check_query rules) = Ok ()"
    using eq ok by (cases "ir_query r"; cases "ir_query r'")
      (auto simp: input_rules_eq_def input_rules_check_def intro: check_query_eq)
  have body: "case ir_body r of None \<Rightarrow> True | Some shape \<Rightarrow> check_json_body ext shape body content_type = Ok ()"
    using eq wf ok by (cases "ir_body r"; cases "ir_body r'")
      (auto simp: input_rules_eq_def input_rules_check_def check_json_body_def inputs_wf_def
        dest: shape_eq_accepts(1) split: if_splits)
  show ?thesis
    using query body by (auto simp: input_rules_check_def dest!: path split: option.splits)
qed

section \<open>Narrowing a template\<close>

text \<open>The name a segment binds.\<close>

definition segment_name :: "string \<Rightarrow> string option" where
  "segment_name segment = parameter_name (fst (split_template_segment segment))"

lemma parameter_name_iff: "parameter_name s = Some n \<longleftrightarrow> s = ''{'' @ n @ ''}''"
  by (auto simp: parameter_name_def strip_prefix_iff strip_suffix_iff split: option.splits)

lemma split_segment_no_colon: "CHR '':'' \<notin> set s \<Longrightarrow> split_template_segment s = (s, None)"
  by (simp add: split_template_segment_def split_once_None_iff [THEN iffD2])

text \<open>
  A segment a literal replaced: it is a variable without a verb, and the literal is a value the
  variable takes.
\<close>

lemma narrowed_segment:
  assumes piece: "CHR ''/'' \<notin> set previous" "CHR ''/'' \<notin> set next_segment"
    and cov: "segment_covers px method segs previous next_segment" and ne: "previous \<noteq> next_segment"
  obtains name where "split_template_segment previous = (previous, None)" "parameter_name previous = Some name"
    "parameter_matches px None next_segment" "split_template_segment next_segment = (next_segment, None)"
    "parameter_name next_segment = None" "next_segment \<noteq> []" "previous \<noteq> []"
proof -
  let ?rule = "\<lparr>pr_method = method, pr_path_template = CHR ''/'' # previous, pr_target_id = None, pr_constraints = []\<rparr>"
  from cov ne obtain path where brace: "starts_with ''{'' previous" "ends_with ''}'' previous"
    and lit: "\<not> (starts_with ''{'' next_segment \<and> ends_with ''}'' next_segment)"
    and path: "from_mcp_literal next_segment = Ok path" "rule_matches px ?rule method path"
    unfolding segment_covers_def by (auto split: sum.splits)
  have prev: "previous \<noteq> []" using brace(1) by (auto simp: starts_with_iff)
  have hd: "hd previous = CHR ''{''" using brace(1) by (auto simp: starts_with_iff)
  have template: "template_segments ?rule = [previous]"
    using piece(1) prev hd by (cases previous) (simp_all add: template_segments_def trim_slashes_def)
  have valid: "validate_rule ?rule = Ok ()"
    using path(2) by (auto simp: rule_matches_def match_path_arguments_def is_err_iff split: if_splits)
      (metis old.unit.exhaust sum.exhaust)
  then have vseg: "validate_template_segment previous = Ok ()"
    using piece(1) prev hd
    by (cases previous) (auto simp: validate_rule_def validate_template_def trim_slashes_def split: if_splits sum.splits)
  have "CHR '':'' \<notin> set previous"
  proof
    assume "CHR '':'' \<in> set previous"
    then obtain a b where s: "split_once CHR '':'' previous = Some (a, b)"
      by (cases "split_once CHR '':'' previous") (auto simp: split_once_None_iff)
    then have "b \<noteq> []" "list_all is_ascii_alphanumeric b"
      using vseg by (auto simp: validate_template_segment_def split_template_segment_def split: if_splits)
    moreover have "previous = a @ CHR '':'' # b" using s by (simp add: split_once_Some_iff)
    ultimately have "is_ascii_alphanumeric (last previous)" by (simp add: list_all_iff)
    moreover have "last previous = CHR ''}''" using brace(2) by (auto simp: ends_with_iff)
    ultimately show False by (simp add: is_ascii_alphanumeric_def is_ascii_alphabetic_def is_ascii_digit_def
        is_ascii_lowercase_def is_ascii_uppercase_def byte_def)
  qed
  note colon = split_segment_no_colon [OF this]
  have args: "match_segments px [] [previous] path [] \<noteq> None"
    using path(2) template by (auto simp: rule_matches_def match_path_arguments_def split: if_splits)
  have nx: "next_segment \<noteq> []"
  proof
    assume "next_segment = []"
    then have "path = []" using path(1) by (auto simp: from_mcp_literal_def from_decoded_def strip_slash_def)
    then show False using args colon by (auto simp: Let_def take_value_def split: option.splits)
  qed
  have "hd next_segment \<noteq> CHR ''/''" using piece(2) nx by (cases next_segment) auto
  then have "strip_slash next_segment = next_segment" by (cases next_segment) (auto simp: strip_slash_def)
  then have p: "path = [next_segment]"
    using path(1) piece(2) nx by (auto simp: from_mcp_literal_def from_decoded_def)
  have "parameter_name previous \<noteq> None"
  proof
    assume "parameter_name previous = None"
    then show False using args colon ne p by simp
  qed
  then obtain name where name: "parameter_name previous = Some name" by auto
  have pm: "parameter_matches px None next_segment"
    using args colon name p by (auto simp: Let_def take_value_def split: if_splits)
  then have nc: "CHR '':'' \<notin> set next_segment" by (auto simp: parameter_matches_def split: if_splits)
  have "parameter_name next_segment = None"
    using lit by (cases "parameter_name next_segment") (auto simp: parameter_name_iff starts_with_iff ends_with_iff)
  then show ?thesis using that name colon pm split_segment_no_colon [OF nc] nx prev by blast
qed

text \<open>One segment of a template without value grammars: what it takes, and the name it binds.\<close>

definition segment_binds :: "proxy_externals \<Rightarrow> string \<Rightarrow> string \<Rightarrow> (string \<times> string) option option" where
  "segment_binds px segment actual =
     (let (resource, verb) = split_template_segment segment in
      case parameter_name resource of
        None \<Rightarrow> if actual = segment then Some None else None
      | Some name \<Rightarrow> (case (case verb of None \<Rightarrow> Some actual | Some v \<Rightarrow> strip_custom_method actual v) of
          None \<Rightarrow> None
        | Some value \<Rightarrow> if parameter_matches px None value then Some (Some (name, value)) else None))"

declare match_segments.simps(2) [simp del]

lemma match_segments_Cons:
  "match_segments px [] (t # ts) rest arguments = (case rest of
     [] \<Rightarrow> None
   | actual # rest' \<Rightarrow> (case segment_binds px t actual of
       None \<Rightarrow> None
     | Some None \<Rightarrow> match_segments px [] ts rest' arguments
     | Some (Some (name, value)) \<Rightarrow> (case btm_get arguments name of
         Some previous \<Rightarrow> if previous = value then match_segments px [] ts rest' arguments else None
       | None \<Rightarrow> match_segments px [] ts rest' (btm_insert name value arguments))))"
proof -
  obtain resource verb where s: "split_template_segment t = (resource, verb)" by force
  show ?thesis
    unfolding match_segments.simps(2) segment_binds_def s Let_def take_value_def
    by (cases rest) (auto split: option.split)
qed

lemma segment_binds_name:
  "segment_binds px t actual = Some (Some (name, value)) \<Longrightarrow> segment_name t = Some name"
  by (auto simp: segment_binds_def segment_name_def split: option.splits prod.splits if_splits)

lemma segment_binds_unnamed:
  "segment_binds px t actual = Some None \<Longrightarrow> segment_name t = None"
  by (auto simp: segment_binds_def segment_name_def split: option.splits prod.splits if_splits)

lemma narrowed_binds:
  assumes "CHR ''/'' \<notin> set t" "CHR ''/'' \<notin> set t'" "segment_covers px method segs t t'" "t \<noteq> t'"
    "segment_binds px t' actual = Some b"
  obtains name where "b = None" "actual = t'" "segment_binds px t actual = Some (Some (name, t'))" "segment_name t = Some name"
proof (rule narrowed_segment [OF assms(1-4)])
  fix name
  assume n: "split_template_segment t = (t, None)" "parameter_name t = Some name" "parameter_matches px None t'"
    "split_template_segment t' = (t', None)" "parameter_name t' = None"
  have "b = None \<and> actual = t'" using assms(5) n by (simp add: segment_binds_def split: if_splits)
  moreover have "segment_binds px t t' = Some (Some (name, t'))" using n by (simp add: segment_binds_def)
  moreover have "segment_name t = Some name" using n by (simp add: segment_name_def)
  ultimately show thesis using that by blast
qed

text \<open>
  A replaced segment binds a name no other segment binds: none before it (\<open>seen\<close> holds their names)
  and none after.
\<close>

fun replaced_fresh :: "string set \<Rightarrow> string list \<Rightarrow> string list \<Rightarrow> bool" where
  "replaced_fresh seen (t # ts) (t' # ts') \<longleftrightarrow>
     (t \<noteq> t' \<longrightarrow> (\<forall>n. segment_name t = Some n \<longrightarrow> n \<notin> seen \<and> (\<forall>r\<in>set ts. segment_name r \<noteq> Some n)))
     \<and> replaced_fresh (seen \<union> {n. segment_name t = Some n}) ts ts'"
| "replaced_fresh seen _ _ \<longleftrightarrow> True"

lemma narrowed_match:
  assumes "list_all2 (segment_covers px method segs) ts ts'"
    and "\<forall>t\<in>set ts \<union> set ts'. CHR ''/'' \<notin> set t"
    and "replaced_fresh seen ts ts'"
    and "\<forall>n. btm_get arguments n \<noteq> None \<longrightarrow> n \<in> seen"
    and "\<forall>r\<in>set ts. \<forall>n. segment_name r = Some n \<longrightarrow> btm_get arguments n = btm_get arguments' n"
    and "\<forall>k v. btm_get arguments' k = Some v \<longrightarrow> btm_get arguments k = Some v"
    and "match_segments px [] ts' rest arguments' = Some final'"
  shows "\<exists>final. match_segments px [] ts rest arguments = Some final
    \<and> (\<forall>k v. btm_get final' k = Some v \<longrightarrow> btm_get final k = Some v)"
  using assms
proof (induction arbitrary: rest arguments arguments' seen rule: list_all2_induct)
  case Nil
  then show ?case by (auto split: if_splits)
next
  case (Cons t ts t' ts')
  obtain actual rest' b where r: "rest = actual # rest'" "segment_binds px t' actual = Some b"
    using Cons.prems(6) by (auto simp: match_segments_Cons split: list.splits option.splits)
  have pieces: "\<forall>t\<in>set ts \<union> set ts'. CHR ''/'' \<notin> set t" "CHR ''/'' \<notin> set t" "CHR ''/'' \<notin> set t'"
    using Cons.prems(1) by auto
  have fresh: "replaced_fresh (seen \<union> {n. segment_name t = Some n}) ts ts'" using Cons.prems(2) by simp
  have seen: "\<forall>n. btm_get arguments n \<noteq> None \<longrightarrow> n \<in> seen \<union> {n. segment_name t = Some n}" using Cons.prems(3) by simp
  have agree: "\<forall>r\<in>set ts. \<forall>n. segment_name r = Some n \<longrightarrow> btm_get arguments n = btm_get arguments' n"
    using Cons.prems(4) by simp
  note IH = Cons.IH [OF pieces(1) fresh]
  show ?case
  proof (cases "t = t'")
    case True
    show ?thesis
    proof (cases b)
      case None
      then have "match_segments px [] ts' rest' arguments' = Some final'"
        using Cons.prems(6) r by (simp add: match_segments_Cons)
      from IH [OF seen agree Cons.prems(5) this] show ?thesis using r None True by (simp add: match_segments_Cons)
    next
      case (Some nv)
      obtain name val where nv: "nv = (name, val)" by force
      have n: "segment_name t = Some name" using r(2) Some nv True segment_binds_name by simp
      have same: "btm_get arguments name = btm_get arguments' name" using Cons.prems(4) n by simp
      show ?thesis
      proof (cases "btm_get arguments' name")
        case (Some previous)
        then have m: "match_segments px [] ts' rest' arguments' = Some final'" "previous = val"
          using Cons.prems(6) r \<open>b = Some nv\<close> nv by (simp_all add: match_segments_Cons split: if_splits)
        from IH [OF seen agree Cons.prems(5) m(1)] show ?thesis
          using r \<open>b = Some nv\<close> nv True same Some m(2) by (simp add: match_segments_Cons)
      next
        case None
        then have m: "match_segments px [] ts' rest' (btm_insert name val arguments') = Some final'"
          using Cons.prems(6) r Some nv by (simp add: match_segments_Cons)
        have "\<exists>final. match_segments px [] ts rest' (btm_insert name val arguments) = Some final
            \<and> (\<forall>k v. btm_get final' k = Some v \<longrightarrow> btm_get final k = Some v)"
          by (rule IH [OF _ _ _ m]) (use seen agree Cons.prems(5) n in auto)
        then show ?thesis using r Some nv True same None by (simp add: match_segments_Cons)
      qed
    qed
  next
    case False
    obtain name where nm: "b = None" "segment_binds px t actual = Some (Some (name, t'))" "segment_name t = Some name"
      using narrowed_binds [OF pieces(2,3) Cons.hyps(1) False r(2)] by blast
    have new: "name \<notin> seen" "\<forall>r\<in>set ts. segment_name r \<noteq> Some name" using Cons.prems(2) False nm(3) by simp_all
    then have free: "btm_get arguments name = None" using Cons.prems(3) by blast
    have m: "match_segments px [] ts' rest' arguments' = Some final'"
      using Cons.prems(6) r nm by (simp add: match_segments_Cons)
    have "\<exists>final. match_segments px [] ts rest' (btm_insert name t' arguments) = Some final
        \<and> (\<forall>k v. btm_get final' k = Some v \<longrightarrow> btm_get final k = Some v)"
    proof (rule IH [OF _ _ _ m])
      show "\<forall>r\<in>set ts. \<forall>n. segment_name r = Some n \<longrightarrow> btm_get (btm_insert name t' arguments) n = btm_get arguments' n"
        using agree new(2) by auto
    qed (use seen Cons.prems(5) nm(3) free in auto)
    then show ?thesis using r nm free by (simp add: match_segments_Cons)
  qed
qed

text \<open>
  The templates the narrowing test is right for: a variable may be reused, but then each segment that
  binds it is the variable alone, without a verb.
\<close>

definition reused_plainly :: "proxy_rule \<Rightarrow> bool" where
  "reused_plainly rule \<longleftrightarrow> list_all (\<lambda>segment. case segment_name segment of
       None \<Rightarrow> True
     | Some n \<Rightarrow> segment = ''{'' @ n @ ''}''
         \<or> length (filter (\<lambda>r. segment_name r = Some n) (template_segments rule)) = 1) (template_segments rule)"

lemma reused_plainly_once:
  assumes "reused_plainly rule" "t \<in> set (template_segments rule)" "segment_name t = Some n" "t = ''{'' @ n @ ''}''"
    and "r \<in> set (template_segments rule)" "segment_name r = Some n"
  shows "r = t"
proof (rule ccontr)
  assume ne: "r \<noteq> t"
  then have "length (filter (\<lambda>r. segment_name r = Some n) (template_segments rule)) = 1"
    using assms by (auto simp: reused_plainly_def list_all_iff)
  then obtain c where "filter (\<lambda>r. segment_name r = Some n) (template_segments rule) = [c]"
    by (auto simp: length_Suc_conv)
  then have "set (filter (\<lambda>r. segment_name r = Some n) (template_segments rule)) = {c}" by simp
  then have "\<And>s. s \<in> set (template_segments rule) \<and> segment_name s = Some n \<Longrightarrow> s = c" by auto
  then show False using assms(2,3,5,6) ne by metis
qed

lemma filter_trim_slashes:
  "filter (\<lambda>s. s \<noteq> []) (split_on CHR ''/'' (trim_slashes s)) = filter (\<lambda>s. s \<noteq> []) (split_on CHR ''/'' s)"
  unfolding trim_slashes_def by (induction s) auto

lemma segment_covers_Nil:
  assumes "CHR ''/'' \<notin> set t" "CHR ''/'' \<notin> set t'" "segment_covers px method segs t t'"
  shows "t = [] \<longleftrightarrow> t' = []"
proof (cases "t = t'")
  case False
  show ?thesis by (rule narrowed_segment [OF assms False]) simp
qed simp

lemma list_all2_filter_nonempty:
  assumes "list_all2 P xs ys" "\<And>x y. (x, y) \<in> set (zip xs ys) \<Longrightarrow> P x y \<Longrightarrow> x = [] \<longleftrightarrow> y = []"
  shows "list_all2 P (filter (\<lambda>s. s \<noteq> []) xs) (filter (\<lambda>s. s \<noteq> []) ys)"
  using assms by (induction rule: list_all2_induct) auto

lemma covered_fresh:
  assumes l: "list_all2 (segment_covers px method segs) (template_segments old) (template_segments new)"
    and p: "\<forall>t\<in>set (template_segments old) \<union> set (template_segments new). CHR ''/'' \<notin> set t"
    and segs: "segs = split_on CHR ''/'' (pr_path_template old)" and plain: "reused_plainly old"
  shows "replaced_fresh {} (template_segments old) (template_segments new)"
proof -
  have "replaced_fresh {n. \<exists>r\<in>set before. segment_name r = Some n} ts ts'"
    if "template_segments old = before @ ts" "list_all2 (segment_covers px method segs) ts ts'"
      "\<forall>t\<in>set ts \<union> set ts'. CHR ''/'' \<notin> set t" for before ts ts'
    using that
  proof (induction ts arbitrary: before ts')
    case (Cons t ts)
    obtain t' ts'' where ts': "ts' = t' # ts''" "segment_covers px method segs t t'"
      "list_all2 (segment_covers px method segs) ts ts''" using Cons.prems(2) by (cases ts') auto
    have rest: "replaced_fresh {n. \<exists>r\<in>set (before @ [t]). segment_name r = Some n} ts ts''"
      by (rule Cons.IH) (use Cons.prems ts' in auto)
    have once: "n \<notin> {n. \<exists>r\<in>set before. segment_name r = Some n} \<and> (\<forall>r\<in>set ts. segment_name r \<noteq> Some n)"
      if ne: "t \<noteq> t'" and n: "segment_name t = Some n" for n
    proof -
      have pieces: "CHR ''/'' \<notin> set t" "CHR ''/'' \<notin> set t'" using Cons.prems(3) ts' by auto
      have t: "t = ''{'' @ n @ ''}''" "t \<noteq> []"
        by (rule narrowed_segment [OF pieces ts'(2) ne]; use n in \<open>simp add: segment_name_def parameter_name_iff\<close>)+
      have "length (filter (\<lambda>s. s = t) segs) = 1" using ts'(2) ne by (simp add: segment_covers_def segment_uses_def)
      moreover have "filter (\<lambda>s. s = t) segs = filter (\<lambda>s. s = t) (template_segments old)"
        unfolding segs template_segments_def filter_trim_slashes using t(2)
        by (auto intro!: filter_cong)
      ultimately have "length (filter (\<lambda>s. s = t) before) + length (filter (\<lambda>s. s = t) ts) = 0"
        using Cons.prems(1) by simp
      then have out: "t \<notin> set before" "t \<notin> set ts" by (auto simp: filter_empty_conv)
      have "r = t" if "r \<in> set before \<union> set ts" "segment_name r = Some n" for r
        using reused_plainly_once [OF plain _ n t(1) _ that(2)] that(1) unfolding Cons.prems(1) by simp
      then show ?thesis using out by blast
    qed
    have seen: "{n. \<exists>r\<in>set (before @ [t]). segment_name r = Some n} =
        {n. \<exists>r\<in>set before. segment_name r = Some n} \<union> {n. segment_name t = Some n}" by auto
    show ?case unfolding ts'(1) replaced_fresh.simps(1)
    proof (intro conjI impI allI)
      show "replaced_fresh ({n. \<exists>r\<in>set before. segment_name r = Some n} \<union> {n. segment_name t = Some n}) ts ts''"
        using rest unfolding seen .
    qed (use once in simp_all)
  qed simp
  from this [of "[]" "template_segments old" "template_segments new"] show ?thesis using l p by simp
qed

lemma covered_template_matches:
  assumes cov: "list_all2 (segment_covers px method segs) (split_on CHR ''/'' (pr_path_template old)) (split_on CHR ''/'' (pr_path_template new))"
    and none: "pr_constraints old = []" "pr_constraints new = []"
    and segs: "segs = split_on CHR ''/'' (pr_path_template old)"
    and old: "validate_rule old = Ok ()" "reused_plainly old"
    and new: "match_path_arguments px new path = Some arguments'"
  shows "\<exists>arguments. match_path_arguments px old path = Some arguments
    \<and> (\<forall>k v. btm_get arguments' k = Some v \<longrightarrow> btm_get arguments k = Some v)"
proof -
  have pieces: "\<forall>t\<in>set (split_on CHR ''/'' s). CHR ''/'' \<notin> set t" for s using split_on_pieces by blast
  have l: "list_all2 (segment_covers px method segs) (template_segments old) (template_segments new)"
    unfolding template_segments_def filter_trim_slashes
    by (rule list_all2_filter_nonempty [OF cov]) (meson segment_covers_Nil pieces set_zip_leftD set_zip_rightD)
  have p: "\<forall>t\<in>set (template_segments old) \<union> set (template_segments new). CHR ''/'' \<notin> set t"
    using pieces by (auto simp: template_segments_def)
  have m: "match_segments px [] (template_segments new) path [] = Some arguments'"
    using new none by (auto simp: match_path_arguments_def split: if_splits)
  have "\<exists>arguments. match_segments px [] (template_segments old) path [] = Some arguments
      \<and> (\<forall>k v. btm_get arguments' k = Some v \<longrightarrow> btm_get arguments k = Some v)"
    by (rule narrowed_match [OF l p _ _ _ _ m, of "{}"]) (use covered_fresh [OF l p segs old(2)] in simp_all)
  then show ?thesis using old none by (simp add: match_path_arguments_def)
qed

section \<open>Calls\<close>

definition compiled_operation :: "scoped_operation \<Rightarrow> bool" where
  "compiled_operation op \<longleftrightarrow> validate_rule (so_rule op) = Ok ()
     \<and> (case so_inputs op of None \<Rightarrow> True | Some r \<Rightarrow> inputs_wf r)"

text \<open>An operation admits a call when its rule matches and its limits accept the inputs.\<close>

definition operation_admits ::
  "proxy_externals \<Rightarrow> externals \<Rightarrow> string option \<Rightarrow> string \<Rightarrow> canonical_path \<Rightarrow> string option \<Rightarrow> string
   \<Rightarrow> string option \<Rightarrow> scoped_operation \<Rightarrow> bool" where
  "operation_admits px ext eid method path query body content_type op \<longleftrightarrow>
     scope_operation_matches px eid method path op
     \<and> operation_inputs_check px ext path query body content_type op = Ok ()"

definition scope_admits ::
  "proxy_externals \<Rightarrow> externals \<Rightarrow> string option \<Rightarrow> string \<Rightarrow> canonical_path \<Rightarrow> string option \<Rightarrow> string
   \<Rightarrow> string option \<Rightarrow> operation_scope \<Rightarrow> bool" where
  "scope_admits px ext eid method path query body content_type scope \<longleftrightarrow>
     (\<exists>op\<in>set (os_operations scope). operation_admits px ext eid method path query body content_type op)"

text \<open>What the two checks of a call decide together.\<close>

definition permitted ::
  "proxy_externals \<Rightarrow> externals \<Rightarrow> operation_scopes \<Rightarrow> string \<Rightarrow> string option \<Rightarrow> string option \<Rightarrow> string
   \<Rightarrow> canonical_path \<Rightarrow> bool \<Rightarrow> bool \<Rightarrow> string option \<Rightarrow> string \<Rightarrow> string option \<Rightarrow> bool" where
  "permitted px ext scopes sid cid eid method path method_override websocket query body content_type \<longleftrightarrow>
     is_ok (authorize_scopes px scopes sid cid eid method path method_override websocket)
     \<and> check_inputs px ext scopes sid cid eid method path query body content_type = Ok ()"

lemma any_accepts_Ok: "any_accepts f xs r = Ok () \<longleftrightarrow> (\<exists>x\<in>set xs. f x = Ok ())"
  by (induction xs arbitrary: r) (auto split: sum.splits)

lemma check_scope_inputs_Ok:
  "check_scope_inputs px ext eid method path query body content_type scope = Ok ()
     \<longleftrightarrow> scope_admits px ext eid method path query body content_type scope"
  by (auto simp: check_scope_inputs_def any_accepts_Ok scope_admits_def operation_admits_def)

lemma authorize_each_ok:
  "is_ok (authorize_each px eid method path method_override websocket scopes f) \<longleftrightarrow>
     scopes = [] \<or> \<not> method_override \<and> \<not> websocket
       \<and> (\<forall>scope\<in>set scopes. \<exists>op\<in>set (os_operations scope). scope_operation_matches px eid method path op)"
proof (induction scopes arbitrary: f)
  case (Cons scope scopes)
  show ?case
  proof (cases "find (scope_operation_matches px eid method path) (os_operations scope)")
    case None
    then have "\<forall>op\<in>set (os_operations scope). \<not> scope_operation_matches px eid method path op"
      by (auto simp: find_None_iff)
    then show ?thesis using None by simp
  next
    case (Some op)
    then have "\<exists>op\<in>set (os_operations scope). scope_operation_matches px eid method path op"
      by (metis find_Some_iff nth_mem)
    then show ?thesis using Some Cons.IH by (auto split: if_splits)
  qed
qed simp

lemma permitted_iff:
  "permitted px ext scopes sid cid eid method path method_override websocket query body content_type \<longleftrightarrow>
     applicable_scopes scopes sid cid = [] \<or> \<not> method_override \<and> \<not> websocket
     \<and> (\<forall>scope\<in>set (applicable_scopes scopes sid cid).
          scope_admits px ext eid method path query body content_type scope)"
  unfolding permitted_def authorize_scopes_def check_inputs_def authorize_each_ok for_each_Ok_iff check_scope_inputs_Ok
  by (auto simp: scope_admits_def operation_admits_def)

lemma operation_covers_admits:
  assumes cov: "operation_covers px old new"
    and old: "compiled_operation old" "reused_plainly (so_rule old)" and new: "compiled_operation new"
    and ad: "operation_admits px ext eid method path query body content_type new"
  shows "operation_admits px ext eid method path query body content_type old"
proof -
  obtain arguments' where args': "match_path_arguments px (so_rule new) path = Some arguments'"
    using ad by (auto simp: operation_admits_def scope_operation_matches_def rule_matches_def)
  have "so_endpoint_id old = so_endpoint_id new \<and> pr_method (so_rule old) = pr_method (so_rule new)
      \<and> (so_inputs old = None \<or> option_eq input_rules_eq (so_inputs old) (so_inputs new))
      \<and> (\<exists>arguments. match_path_arguments px (so_rule old) path = Some arguments
           \<and> (\<forall>k v. btm_get arguments' k = Some v \<longrightarrow> btm_get arguments k = Some v))"
  proof (cases "scoped_operation_eq old new")
    case True
    then show ?thesis using args' by (simp add: scoped_operation_eq_def)
  next
    case False
    then have "list_all2 (segment_covers px (pr_method (so_rule old)) (split_on CHR ''/'' (pr_path_template (so_rule old))))
        (split_on CHR ''/'' (pr_path_template (so_rule old))) (split_on CHR ''/'' (pr_path_template (so_rule new)))"
      "pr_constraints (so_rule old) = []" "pr_constraints (so_rule new) = []"
      using cov by (simp_all add: operation_covers_def Let_def split: if_splits)
    from covered_template_matches [OF this refl _ old(2) args'] old(1) False cov
    show ?thesis by (auto simp: compiled_operation_def operation_covers_def Let_def split: if_splits)
  qed
  then obtain arguments where same: "so_endpoint_id old = so_endpoint_id new" "pr_method (so_rule old) = pr_method (so_rule new)"
    and inputs: "so_inputs old = None \<or> option_eq input_rules_eq (so_inputs old) (so_inputs new)"
    and args: "match_path_arguments px (so_rule old) path = Some arguments"
    and sub: "\<And>k v. btm_get arguments' k = Some v \<Longrightarrow> btm_get arguments k = Some v" by blast
  have m: "scope_operation_matches px eid method path old"
    using ad args unfolding operation_admits_def scope_operation_matches_def endpoint_selected_def rule_matches_def same
    by simp
  have "operation_inputs_check px ext path query body content_type old = Ok ()"
  proof (cases "so_inputs old")
    case (Some r)
    then obtain r' where r': "so_inputs new = Some r'" "input_rules_eq r r'"
      using inputs by (cases "so_inputs new") auto
    have "input_rules_check ext r' arguments' query body content_type = Ok ()"
      using ad r' args' by (simp add: operation_admits_def operation_inputs_check_def)
    from input_rules_check_eq [OF r'(2) _ _ sub this] old(1) new r'(1) Some args
    show ?thesis by (simp add: operation_inputs_check_def compiled_operation_def)
  qed (simp add: operation_inputs_check_def)
  with m show ?thesis by (simp add: operation_admits_def)
qed

lemma in_btm_insert:
  assumes "btm_wf m"
  shows "(a, b) \<in> set (btm_insert k v m) \<longleftrightarrow> a = k \<and> b = v \<or> a \<noteq> k \<and> (a, b) \<in> set m"
  using btm_get_iff [OF btm_wf_insert [OF assms], of k v a b] btm_get_iff [OF assms, of a b] by (auto split: if_splits)

definition narrowable :: "operation_scope \<Rightarrow> bool" where
  "narrowable scope \<longleftrightarrow> list_all (\<lambda>op. compiled_operation op \<and> reused_plainly (so_rule op)) (os_operations scope)"

text \<open>
  Narrowing never widens: when a new scope for a service is not reported as widening the saved
  one, then whatever a call asks for, if it is permitted under the new scopes it was permitted under
  the old ones: an agent that may only narrow without its owner's card cannot gain a call. The saved
  operations are compiled and reuse no template variable behind a verb.
\<close>

lemma narrowing_monotone:
  assumes "\<not> widens px (btm_get scopes service) (Some new)" and "btm_wf scopes"
    and "pred_option (\<lambda>old. os_catalog_service_id old = os_catalog_service_id new \<and> narrowable old) (btm_get scopes service)"
    and "list_all compiled_operation (os_operations new)"
    and "permitted px ext (btm_insert service new scopes) sid cid eid method path method_override websocket query body content_type"
  shows "permitted px ext scopes sid cid eid method path method_override websocket query body content_type"
proof -
  have scope: "\<exists>scope'\<in>set (applicable_scopes (btm_insert service new scopes) sid cid).
      scope_admits px ext eid method path query body content_type scope' \<longrightarrow>
      scope_admits px ext eid method path query body content_type scope"
    if in_old: "scope \<in> set (applicable_scopes scopes sid cid)" for scope
  proof -
    obtain k where k: "(k, scope) \<in> set scopes" "applies_to sid cid (k, scope)"
      using in_old by (auto simp: applicable_scopes_def)
    show ?thesis
    proof (cases "k = service")
      case False
      then show ?thesis using k assms(2) by (force simp: applicable_scopes_def in_btm_insert)
    next
      case True
      then have got: "btm_get scopes service = Some scope" using k(1) by (simp add: btm_get_iff [OF assms(2)])
      have "(service, new) \<in> set (btm_insert service new scopes)" "applies_to sid cid (service, new)"
        using k(2) True assms(2,3) got by (auto simp: in_btm_insert applies_to_def)
      then have "new \<in> set (applicable_scopes (btm_insert service new scopes) sid cid)"
        by (force simp: applicable_scopes_def)
      moreover have "scope_admits px ext eid method path query body content_type scope"
        if ad: "scope_admits px ext eid method path query body content_type new"
      proof -
        obtain op where op: "op \<in> set (os_operations new)" "operation_admits px ext eid method path query body content_type op"
          using ad by (auto simp: scope_admits_def)
        then obtain previous where p: "previous \<in> set (os_operations scope)" "operation_covers px previous op"
          using assms(1) got by (auto simp: widens_def list_ex_iff)
        have "compiled_operation previous" "reused_plainly (so_rule previous)" "compiled_operation op"
          using assms(3,4) got p(1) op(1) by (simp_all add: narrowable_def list_all_iff)
        from operation_covers_admits [OF p(2) this op(2)] show ?thesis using p(1) by (auto simp: scope_admits_def)
      qed
      ultimately show ?thesis by blast
    qed
  qed
  show ?thesis
  proof (cases "applicable_scopes scopes sid cid = []")
    case False
    then obtain s where "s \<in> set (applicable_scopes scopes sid cid)" by (cases "applicable_scopes scopes sid cid") auto
    then have "applicable_scopes (btm_insert service new scopes) sid cid \<noteq> []" using scope by fastforce
    then have new: "\<not> method_override" "\<not> websocket" "\<forall>s\<in>set (applicable_scopes (btm_insert service new scopes) sid cid).
        scope_admits px ext eid method path query body content_type s"
      using assms(5) unfolding permitted_iff by simp_all
    have "scope_admits px ext eid method path query body content_type s"
      if "s \<in> set (applicable_scopes scopes sid cid)" for s
      using scope [OF that] new(3) by auto
    then show ?thesis using new unfolding permitted_iff by simp
  qed (simp add: permitted_iff)
qed

definition demo_scoped_operation :: "string \<Rightarrow> scoped_operation" where
  "demo_scoped_operation template = \<lparr>so_endpoint_id = None,
     so_rule = \<lparr>pr_method = ''GET'', pr_path_template = template, pr_target_id = None, pr_constraints = []\<rparr>,
     so_risk = None, so_destructive = False, so_changes_existing = None, so_inputs = None\<rparr>"

definition demo_agent_scope :: "string list \<Rightarrow> operation_scope" where
  "demo_agent_scope templates = \<lparr>os_revision = 1, os_catalog_service_id = None, os_operations = map demo_scoped_operation templates\<rparr>"

definition demo_permitted :: "operation_scope \<Rightarrow> canonical_path \<Rightarrow> bool" where
  "demo_permitted scope path =
     permitted ref_proxy_externals ref_externals [(''svc'', scope)] ''svc'' None None ''GET'' path False False None [] None"

text \<open>
  A variable reused behind a verb escapes the narrowing test. A template may name one variable in
  a plain segment and again in a segment with a verb, and both must then bind the same value; replacing
  the plain one by a literal is still reported as narrowing although it admits calls the saved
  operation refused.
\<close>

theorem reused_variable_escapes:
  "\<not> widens ref_proxy_externals (Some (demo_agent_scope [''/{id}/{id}:run''])) (Some (demo_agent_scope [''/abc/{id}:run'']))
   \<and> demo_permitted (demo_agent_scope [''/abc/{id}:run'']) [''abc'', ''xyz:run'']
   \<and> \<not> demo_permitted (demo_agent_scope [''/{id}/{id}:run'']) [''abc'', ''xyz:run'']"
  by code_simp

section \<open>Refusals\<close>

lemma refused_loop_bounds:
  "refused_loop message shown operations = (m, n) \<Longrightarrow> length message + length DISCOVERY + 48 \<le> MAX_REFUSAL_BYTES \<Longrightarrow>
     length m + length DISCOVERY + 48 \<le> MAX_REFUSAL_BYTES \<and> shown \<le> n \<and> n \<le> shown + length operations"
proof (induction message shown operations rule: refused_loop.induct)
  case (2 message shown operation operations)
  let ?id = "case so_endpoint_id operation of None \<Rightarrow> [] | Some i \<Rightarrow> '' ('' @ i @ '')''"
  let ?pre = "(if shown = 0 then [] else '', '') @ pr_method (so_rule operation) @ '' ''"
  let ?rem = "MAX_REFUSAL_BYTES - (length message + length ?pre + length ?id + length DISCOVERY + 48)"
  let ?path = "pr_path_template (so_rule operation)"
  let ?text = "if length ?path \<le> ?rem then ?path else take (boundary_before ?path (?rem - 3)) ?path @ ''...''"
  show ?case
  proof (cases "?rem < 4")
    case True
    then show ?thesis using "2.prems" by (simp add: Let_def)
  next
    case False
    have b: "boundary_before s i \<le> i" for s i
      by (induction s i rule: boundary_before.induct) (subst boundary_before.simps, auto)
    have "length ?text \<le> ?rem" using False b [of ?path "?rem - 3"] by auto
    then have len: "length (message @ ?pre @ ?text @ ?id) + length DISCOVERY + 48 \<le> MAX_REFUSAL_BYTES"
      using False by simp
    have "refused_loop (message @ ?pre @ ?text @ ?id) (shown + 1) operations = (m, n)"
      using "2.prems"(1) False by (simp add: Let_def)
    from "2.IH" [OF refl refl refl False refl refl this len] show ?thesis by simp
  qed
qed simp

text \<open>
  A refusal stays within its budget. Whatever operations a scope holds, however long their
  templates and identifiers, the message that refuses a call is at most 2048 bytes (for fewer than
  \<open>10 ^ 20\<close> operations, more than a \<open>usize\<close> counts).
\<close>

theorem refusal_is_bounded:
  assumes "length (os_operations scope) < 10 ^ 20"
  shows "length (refusal_text scope) \<le> MAX_REFUSAL_BYTES"
proof -
  let ?start = "''Specialist operation scope denied this call. Allowed operations: ''"
  obtain m n where mn: "refused_loop ?start 0 (take 20 (os_operations scope)) = (m, n)" by force
  have "length ?start + length DISCOVERY + 48 \<le> MAX_REFUSAL_BYTES"
    by (simp add: DISCOVERY_def MAX_REFUSAL_BYTES_def)
  from refused_loop_bounds [OF mn this] have m: "length m + length DISCOVERY + 48 \<le> MAX_REFUSAL_BYTES" by simp
  have "length (nat_str (length (os_operations scope) - n)) \<le> 20" using assms nat_str_length [of _ 19] by simp
  then show ?thesis using m mn by (cases "n = 0") (simp_all add: refusal_text_def Let_def)
qed

lemma refusal_is_bounded_witness:
  "length (refusal_text (demo_agent_scope (replicate 30 (replicate 500 CHR ''x'')))) \<le> 2048"
  using refusal_is_bounded [of "demo_agent_scope (replicate 30 (replicate 500 CHR ''x''))"]
  by (simp add: demo_agent_scope_def MAX_REFUSAL_BYTES_def del: replicate.simps)

end
