(* ===== verification/Agent_Compile_Properties.thy ===== *)
theory Agent_Compile_Properties
  imports Agent_Compile Agent_Scope_Properties
begin

text \<open>
  Saving operation scopes: what a compiled selection holds, that saves of one service are totally
  ordered by their revision, and that a save without the owner's card cannot give an agent a call it
  did not have.
\<close>

section \<open>Compiled selections\<close>

definition selection_wf :: "operation_selection \<Rightarrow> bool" where
  "selection_wf input \<longleftrightarrow> (\<forall>eid rules. btm_get (sel_inputs input) eid = Some rules \<longrightarrow> inputs_wf rules)"

lemma normalize_policy_valid:
  assumes "normalize_policy rules = Ok out" "r \<in> set out"
  shows "validate_rule r = Ok ()"
proof -
  from assms(1) have "normalize_rules [] rules = Ok out" by (auto simp: normalize_policy_def split: if_split_asm)
  with normalize_rules_Ok_iff [of "[]" rules out]
  have ok: "list_all rule_ok rules" and out: "out = map normal_rule rules" by auto
  from assms(2) out obtain q where q: "q \<in> set rules" "r = normal_rule q" by auto
  have "validate_rule (normal_rule q) = validate_rule q" by (simp add: validate_rule_def normal_rule_def)
  with ok q show ?thesis by (auto simp: list_all_iff rule_ok_def)
qed

lemma normalize_policy_single: "normalize_policy [rule] = Ok out \<Longrightarrow> out = [normal_rule rule]"
  using normalize_rules_Ok_iff [of "[]" "[rule]" out] by (auto simp: normalize_policy_def split: if_split_asm)

lemma compile_endpoint_compiled:
  assumes "compile_endpoint db endpoints slug inputs eid = Ok op"
    and "\<And>e r. btm_get inputs e = Some r \<Longrightarrow> inputs_wf r"
  shows "compiled_operation op"
proof -
  obtain rule rules where r: "normalize_policy [rule] = Ok rules" "so_rule op = hd rules"
    "so_inputs op = None \<or> so_inputs op = btm_get inputs eid"
    using assms(1) by (auto simp: compile_endpoint_def Let_def and_then_Ok_iff ok_or_def
        split: option.splits if_split_asm)
  have "rules \<noteq> []" using normalize_policy_single [OF r(1)] by simp
  then show ?thesis using normalize_policy_valid [OF r(1), of "hd rules"] r(2,3) assms(2)
    by (auto simp: compiled_operation_def split: option.splits)
qed

lemma compile_endpoints_compiled:
  assumes "compile_endpoints db endpoints slug inputs seen eids acc = Ok ops"
    and "list_all compiled_operation acc" and "\<And>e r. btm_get inputs e = Some r \<Longrightarrow> inputs_wf r"
  shows "list_all compiled_operation ops"
  using assms
  by (induction db endpoints slug inputs seen eids acc rule: compile_endpoints.induct)
    (auto simp: and_then_Ok_iff dest: compile_endpoint_compiled split: if_split_asm)

lemma append_rules_compiled:
  assumes "list_all compiled_operation acc" "\<forall>r\<in>set rules. validate_rule r = Ok ()"
  shows "list_all compiled_operation (append_rules rules acc)"
  using assms by (induction rules acc rule: append_rules.induct) (auto simp: Let_def compiled_operation_def)

lemma compile_for_review:
  assumes "compile_for db holder service input = Ok scope"
  shows "sel_expected_revision input = sh_revision holder" "0 \<le> sh_revision holder"
  using assms by (auto simp: compile_for_def split: if_split_asm)

lemma compile_for_Some:
  assumes "compile_for db holder service input = Ok (Some new)"
  obtains catalog endpoints slug operations rules where
    "compile_catalog db holder service = Ok catalog"
    "compile_endpoints db endpoints slug (sel_inputs input) [] (sel_endpoint_ids input) [] = Ok operations"
    "normalize_policy (sel_rules input) = Ok rules"
    "new = \<lparr>os_revision = sh_revision holder + 1, os_catalog_service_id = catalog,
       os_operations = append_rules rules operations\<rparr>"
  using assms that
  by (clarsimp simp: compile_for_def Let_def checked_i64_def split: if_split_asm)

lemma compile_for_compiled:
  assumes "compile_for db holder service input = Ok (Some new)"
  shows "os_revision new = sh_revision holder + 1"
    and "compile_catalog db holder service = Ok (os_catalog_service_id new)"
    and "selection_wf input \<Longrightarrow> list_all compiled_operation (os_operations new)"
proof -
  obtain catalog endpoints slug operations rules where n:
    "compile_catalog db holder service = Ok catalog"
    "compile_endpoints db endpoints slug (sel_inputs input) [] (sel_endpoint_ids input) [] = Ok operations"
    "normalize_policy (sel_rules input) = Ok rules"
    "new = \<lparr>os_revision = sh_revision holder + 1, os_catalog_service_id = catalog,
       os_operations = append_rules rules operations\<rparr>"
    by (rule compile_for_Some [OF assms])
  show "os_revision new = sh_revision holder + 1" using n by simp
  show "compile_catalog db holder service = Ok (os_catalog_service_id new)" using n by simp
  show "list_all compiled_operation (os_operations new)" if "selection_wf input"
    using that n(4) append_rules_compiled compile_endpoints_compiled [OF n(2)] normalize_policy_valid [OF n(3)]
    by (simp add: selection_wf_def)
qed

section \<open>Saves\<close>

text \<open>The rows of an agent: every saved scope is compiled and carries the service's revision.\<close>

definition agent_wf :: "scoped_agent \<Rightarrow> bool" where
  "agent_wf agent \<longleftrightarrow> btm_wf (ag_operation_scopes agent) \<and> btm_wf (ag_operation_scope_revisions agent)
     \<and> (\<forall>service scope. btm_get (ag_operation_scopes agent) service = Some scope \<longrightarrow>
          list_all compiled_operation (os_operations scope)
          \<and> btm_get (ag_operation_scope_revisions agent) service = Some (os_revision scope))"

lemma apply_selection_Ok:
  assumes "apply_selection px db service input allow agent = Ok agent'"
  obtains scope where
    "compile_for db (holder_of agent service) service input = Ok scope"
    "\<not> allow \<Longrightarrow> \<not> widens px (btm_get (ag_operation_scopes agent) service) scope"
    "agent' = agent\<lparr>ag_operation_scope_revisions :=
         btm_insert service (agent_revision agent service + 1) (ag_operation_scope_revisions agent),
       ag_operation_scopes := (case scope of
           Some s \<Rightarrow> btm_insert service s (ag_operation_scopes agent)
         | None \<Rightarrow> btm_remove service (ag_operation_scopes agent))\<rparr>"
proof -
  obtain scope where s: "compile_for db (holder_of agent service) service input = Ok scope"
    using assms by (auto simp: apply_selection_def)
  have "sel_expected_revision input = agent_revision agent service"
    using compile_for_review(1) [OF s] by (simp add: holder_of_def)
  then show ?thesis using assms s
    by (intro that [of scope])
      (auto simp: apply_selection_def Let_def checked_i64_def split: if_split_asm option.splits)
qed

lemma save_keeps_agent_rows:
  assumes "apply_selection px db service input allow agent = Ok agent'" and "agent_wf agent" and "selection_wf input"
  shows "agent_wf agent'
    \<and> agent_revision agent service = sel_expected_revision input
    \<and> agent_revision agent' service = sel_expected_revision input + 1
    \<and> (\<forall>other. other \<noteq> service \<longrightarrow>
         btm_get (ag_operation_scopes agent') other = btm_get (ag_operation_scopes agent) other
         \<and> agent_revision agent' other = agent_revision agent other)"
proof -
  obtain scope where s: "compile_for db (holder_of agent service) service input = Ok scope"
    and a: "agent' = agent\<lparr>ag_operation_scope_revisions :=
         btm_insert service (agent_revision agent service + 1) (ag_operation_scope_revisions agent),
       ag_operation_scopes := (case scope of
           Some s \<Rightarrow> btm_insert service s (ag_operation_scopes agent)
         | None \<Rightarrow> btm_remove service (ag_operation_scopes agent))\<rparr>"
    using apply_selection_Ok [OF assms(1)] by metis
  have r: "agent_revision agent service = sel_expected_revision input"
    using compile_for_review(1) [OF s] by (simp add: holder_of_def)
  have n: "os_revision new = agent_revision agent service + 1" "list_all compiled_operation (os_operations new)"
    if "scope = Some new" for new
    using compile_for_compiled [OF s [unfolded that]] assms(3) by (simp_all add: holder_of_def)
  have scopes: "btm_get (ag_operation_scopes agent') k = (if k = service then scope else btm_get (ag_operation_scopes agent) k)" for k
    unfolding a by (cases scope) simp_all
  have revs: "ag_operation_scope_revisions agent' =
      btm_insert service (agent_revision agent service + 1) (ag_operation_scope_revisions agent)"
    by (simp add: a)
  have "btm_wf (ag_operation_scopes agent')" using assms(2) unfolding a by (cases scope) (simp_all add: agent_wf_def)
  then have "agent_wf agent'" using assms(2) n unfolding agent_wf_def scopes revs by simp
  moreover have "agent_revision agent' k = (if k = service then agent_revision agent service + 1 else agent_revision agent k)" for k
    by (cases "k = service") (simp_all add: agent_revision_def scopes revs cong: option.case_cong)
  ultimately show ?thesis using r scopes by simp
qed

text \<open>
  A save keeps an agent's rows consistent and touches one service. From consistent rows every
  saved scope is again made of valid rules and limits and carries the revision recorded for its
  service; the saved service moves to the next revision, the one the selection was reviewed at plus
  one, and the scope and revision of every other service are what they were.
\<close>

theorem save_keeps_agent_consistent:
  assumes "apply_selection px db service input allow agent = Ok agent'" and "agent_wf agent" and "selection_wf input"
  shows "agent_wf agent'
    \<and> agent_revision agent service = sel_expected_revision input
    \<and> agent_revision agent' service = sel_expected_revision input + 1
    \<and> (\<forall>other. other \<noteq> service \<longrightarrow>
         btm_get (ag_operation_scopes agent') other = btm_get (ag_operation_scopes agent) other
         \<and> agent_revision agent' other = agent_revision agent other)"
  by (rule save_keeps_agent_rows [OF assms])

definition demo_db :: scope_db where
  "demo_db = \<lparr>sd_user_service_catalog = (\<lambda>_. Some None),
     sd_endpoints = (\<lambda>_. [\<lparr>ep_id = ''e1'', ep_name = ''get_file'', ep_method = ''get'', ep_path = ''/files/{id}'',
       ep_parameters = None, ep_is_active = True, ep_risk = Some RiskRead\<rparr>]),
     sd_catalog_slug = (\<lambda>_. None), sd_marks = (\<lambda>_ _ _ _. \<lparr>mk_destructive = False, mk_changes_existing = None\<rparr>),
     sd_digest = (\<lambda>_. ''sha256:0'')\<rparr>"

definition demo_selection :: operation_selection where
  "demo_selection = \<lparr>sel_expected_revision = 0, sel_all_operations = False, sel_endpoint_ids = [''e1''],
     sel_rules = [], sel_contract_digest = None, sel_inputs = []\<rparr>"

definition demo_agent :: scoped_agent where
  "demo_agent = \<lparr>ag_service_ids = [''svc''], ag_platform_service_ids = [], ag_operation_scopes = [],
     ag_operation_scope_revisions = []\<rparr>"

definition demo_save :: "app_error + scoped_agent" where
  "demo_save = apply_selection ref_proxy_externals demo_db ''svc'' demo_selection False demo_agent"

lemma demo_save_Ok: obtains agent where "demo_save = Ok agent"
proof -
  have "is_ok demo_save" by code_simp
  then show ?thesis using that by (auto simp: is_ok_iff)
qed

lemma demo_agent_wf: "agent_wf demo_agent" and demo_selection_wf: "selection_wf demo_selection"
  by (simp_all add: agent_wf_def selection_wf_def demo_agent_def demo_selection_def)

lemma save_keeps_agent_consistent_witness:
  "\<exists>agent. demo_save = Ok agent \<and> agent_wf agent \<and> agent_revision agent ''svc'' = 1"
proof -
  obtain agent where a: "demo_save = Ok agent" by (rule demo_save_Ok)
  from save_keeps_agent_consistent [OF a [unfolded demo_save_def] demo_agent_wf demo_selection_wf] a
  show ?thesis by (intro exI [of _ agent]) (simp add: demo_selection_def)
qed

text \<open>
  Of two saves reviewed at the same revision only one is applied. Once a selection is saved,
  every other selection for that service that was reviewed at the same revision is refused, whoever
  sends it and with or without the owner's card.
\<close>

theorem stale_review_is_refused:
  assumes "apply_selection px db service input allow agent = Ok agent'" and "agent_wf agent" and "selection_wf input"
    and "sel_expected_revision other = sel_expected_revision input"
  shows "apply_selection px db' service other allow' agent' = Err (Conflict ''Operation scope changed; reload its revision'')"
proof -
  obtain scope where s: "compile_for db (holder_of agent service) service input = Ok scope"
    and a: "agent' = agent\<lparr>ag_operation_scope_revisions :=
         btm_insert service (agent_revision agent service + 1) (ag_operation_scope_revisions agent),
       ag_operation_scopes := (case scope of
           Some s \<Rightarrow> btm_insert service s (ag_operation_scopes agent)
         | None \<Rightarrow> btm_remove service (ag_operation_scopes agent))\<rparr>"
    using apply_selection_Ok [OF assms(1)] by metis
  have "service \<in> set (ag_service_ids agent @ ag_platform_service_ids agent)"
    using s by (auto simp: compile_for_def holder_of_def split: if_split_asm)
  moreover have "agent_revision agent' service = sel_expected_revision input + 1"
    using compile_for_review(1) [OF s] by (simp add: a agent_revision_def holder_of_def)
  ultimately show ?thesis using assms(4)
    by (simp add: apply_selection_def compile_for_def holder_of_def a)
qed

lemma stale_review_is_refused_witness:
  "\<exists>agent. demo_save = Ok agent \<and>
     apply_selection ref_proxy_externals demo_db ''svc'' (demo_selection\<lparr>sel_endpoint_ids := []\<rparr>) True agent =
       Err (Conflict ''Operation scope changed; reload its revision'')"
proof -
  obtain agent where a: "demo_save = Ok agent" by (rule demo_save_Ok)
  have "apply_selection ref_proxy_externals demo_db ''svc'' (demo_selection\<lparr>sel_endpoint_ids := []\<rparr>) True agent =
      Err (Conflict ''Operation scope changed; reload its revision'')"
    by (rule stale_review_is_refused [OF a [unfolded demo_save_def] demo_agent_wf demo_selection_wf])
      (simp add: demo_selection_def)
  with a show ?thesis by blast
qed

text \<open>
  C14. Without the owner's card a save never widens. When a selection is saved with widening not
  allowed, whatever call the agent's new scopes permit, its old scopes permitted. This holds of
  consistent rows whose saved templates reuse no variable behind a verb (one that does escapes the
  test), also where a template uses one variable in several plain segments; and a save of no
  operation at all keeps the service's catalog entry.
\<close>

theorem save_without_card_never_widens:
  assumes "apply_selection px db service input False agent = Ok agent'" and "agent_wf agent" and "selection_wf input"
    and "pred_option (\<lambda>old. list_all (reused_plainly \<circ> so_rule) (os_operations old)
           \<and> pred_option (\<lambda>new. os_operations new = [] \<longrightarrow> os_catalog_service_id new = os_catalog_service_id old)
               (btm_get (ag_operation_scopes agent') service)) (btm_get (ag_operation_scopes agent) service)"
    and "permitted px ext (ag_operation_scopes agent') sid cid eid method path method_override websocket query body content_type"
  shows "permitted px ext (ag_operation_scopes agent) sid cid eid method path method_override websocket query body content_type"
proof -
  obtain scope where s: "compile_for db (holder_of agent service) service input = Ok scope"
    and narrow: "\<not> widens px (btm_get (ag_operation_scopes agent) service) scope"
    and a: "agent' = agent\<lparr>ag_operation_scope_revisions :=
         btm_insert service (agent_revision agent service + 1) (ag_operation_scope_revisions agent),
       ag_operation_scopes := (case scope of
           Some s \<Rightarrow> btm_insert service s (ag_operation_scopes agent)
         | None \<Rightarrow> btm_remove service (ag_operation_scopes agent))\<rparr>"
    using apply_selection_Ok [OF assms(1)] by metis
  have wf: "btm_wf (ag_operation_scopes agent)" using assms(2) by (simp add: agent_wf_def)
  show ?thesis
  proof (cases scope)
    case None
    with narrow have "btm_get (ag_operation_scopes agent) service = None"
      by (auto simp: widens_def split: option.splits)
    then have "btm_remove service (ag_operation_scopes agent) = ag_operation_scopes agent"
      by (intro btm_ext) (auto simp: wf)
    then show ?thesis using assms(5) None by (simp add: a)
  next
    case (Some new)
    have "os_catalog_service_id old = os_catalog_service_id new \<and> narrowable old"
      if old: "btm_get (ag_operation_scopes agent) service = Some old" for old
    proof
      show "os_catalog_service_id old = os_catalog_service_id new"
      proof (cases "os_operations new")
        case Nil
        then show ?thesis using assms(4) old Some by (simp add: a)
      next
        case (Cons entry entries)
        then show ?thesis using narrow old Some by (simp add: widens_def)
      qed
      show "narrowable old" using assms(2,4) old by (auto simp: narrowable_def agent_wf_def list_all_iff)
    qed
    then have old: "pred_option (\<lambda>old. os_catalog_service_id old = os_catalog_service_id new \<and> narrowable old)
        (btm_get (ag_operation_scopes agent) service)"
      by (cases "btm_get (ag_operation_scopes agent) service") simp_all
    show ?thesis
      by (rule narrowing_monotone [OF _ wf old compile_for_compiled(3) [OF s [unfolded Some] assms(3)]])
        (use narrow Some assms(5) in \<open>simp_all add: a\<close>)
  qed
qed

text \<open>
  An agent whose scope names a team twice in one path, narrowed to one file of it by rules alone.
\<close>

definition rules_db :: scope_db where
  "rules_db = demo_db\<lparr>sd_endpoints := (\<lambda>_. [])\<rparr>"

definition rule_selection :: "int \<Rightarrow> string \<Rightarrow> operation_selection" where
  "rule_selection revision template = demo_selection\<lparr>sel_expected_revision := revision, sel_endpoint_ids := [],
     sel_rules := [\<lparr>pr_method = ''GET'', pr_path_template = template, pr_target_id = None, pr_constraints = []\<rparr>]\<rparr>"

definition team_agent :: "app_error + scoped_agent" where
  "team_agent = apply_selection ref_proxy_externals rules_db ''svc''
     (rule_selection 0 ''/teams/{team}/of/{team}/files/{file}'') True demo_agent"

definition narrowed_agent :: "app_error + scoped_agent" where
  "narrowed_agent = and_then team_agent (apply_selection ref_proxy_externals rules_db ''svc''
     (rule_selection 1 ''/teams/{team}/of/{team}/files/report'') False)"

lemma save_without_card_never_widens_witness:
  "\<exists>team narrowed. team_agent = Ok team \<and> narrowed_agent = Ok narrowed
     \<and> permitted ref_proxy_externals ref_externals (ag_operation_scopes team) ''svc'' None None ''GET''
         [''teams'', ''a'', ''of'', ''a'', ''files'', ''report''] False False None [] None"
proof -
  let ?path = "[''teams'', ''a'', ''of'', ''a'', ''files'', ''report'']"
  have "is_ok narrowed_agent" by code_simp
  then obtain team narrowed where ok: "team_agent = Ok team" "narrowed_agent = Ok narrowed"
    by (auto simp: is_ok_iff narrowed_agent_def)
  have save: "apply_selection ref_proxy_externals rules_db ''svc''
      (rule_selection 1 ''/teams/{team}/of/{team}/files/report'') False team = Ok narrowed"
    using ok(2) by (simp add: narrowed_agent_def ok(1))
  have sel: "selection_wf (rule_selection n t)" for n t
    by (simp add: selection_wf_def rule_selection_def demo_selection_def)
  have wf: "agent_wf team"
    using save_keeps_agent_rows [OF ok(1) [unfolded team_agent_def] demo_agent_wf sel] by simp
  have "case and_then team_agent (\<lambda>team. and_then narrowed_agent (\<lambda>narrowed. Ok (team, narrowed))) of
      Err _ \<Rightarrow> False
    | Ok (team, narrowed) \<Rightarrow>
        (case btm_get (ag_operation_scopes team) ''svc'' of None \<Rightarrow> False
         | Some old \<Rightarrow> list_all (reused_plainly \<circ> so_rule) (os_operations old)
             \<and> (case btm_get (ag_operation_scopes narrowed) ''svc'' of None \<Rightarrow> False
                | Some new \<Rightarrow> os_operations new \<noteq> []))
        \<and> permitted ref_proxy_externals ref_externals (ag_operation_scopes narrowed) ''svc'' None None ''GET''
            ?path False False None [] None"
    by code_simp
  then have rows: "pred_option (\<lambda>old. list_all (reused_plainly \<circ> so_rule) (os_operations old)
           \<and> pred_option (\<lambda>new. os_operations new = [] \<longrightarrow> os_catalog_service_id new = os_catalog_service_id old)
               (btm_get (ag_operation_scopes narrowed) ''svc'')) (btm_get (ag_operation_scopes team) ''svc'')"
    and p: "permitted ref_proxy_externals ref_externals (ag_operation_scopes narrowed) ''svc'' None None ''GET''
      ?path False False None [] None"
    by (simp_all add: ok split: option.splits)
  from save_without_card_never_widens [OF save wf sel rows p] ok show ?thesis by blast
qed

end
