(* ===== verification/Execution_Permission_Properties.thy ===== *)
theory Execution_Permission_Properties
  imports Execution_Permission Json_Equality Agent_Compile_Properties Drive_Confinement
begin

text \<open>
  What the consent evaluator promises: a grant covers an effect exactly when every condition of its
  contract holds, rows are never spliced, an operational failure is never turned into a prompt, and
  the digest of a policy does not depend on the order of its keys.
\<close>

section \<open>Coverage\<close>

text \<open>
  The conditions of coverage, stated without the order in which the evaluator tests them and without
  its checks of contracts, scopes and inputs.
\<close>

fun in_force :: "execution_request \<Rightarrow> validity \<Rightarrow> bool" where
  "in_force request (ValidOperation oid digest expires_at) \<longleftrightarrow>
     oid = prep_id (er_operation request) \<and> digest = prep_digest (er_operation request)
     \<and> er_now request < expires_at \<and> er_claim request = ClaimAvailable"
| "in_force request (ValidTask task hard_deadline) \<longleftrightarrow>
     (\<exists>evidence. er_task request = Some evidence \<and> te_task evidence = task
        \<and> te_active evidence \<and> te_admitted_descendant evidence
        \<and> te_actor_user_id evidence = su_actor_user_id (er_subject request)
        \<and> te_audience evidence = er_audience request
        \<and> er_now request < hard_deadline \<and> hard_deadline \<le> te_hard_deadline evidence)
     \<and> tk_root_id task \<noteq> []"
| "in_force request (ValidWindow starts_at ends_at) \<longleftrightarrow> starts_at \<le> er_now request \<and> er_now request < ends_at"
| "in_force request ValidPersistent \<longleftrightarrow> True"

definition resource_verified :: "execution_env \<Rightarrow> execution_request \<Rightarrow> policy \<Rightarrow> bool" where
  "resource_verified env request policy \<longleftrightarrow>
     po_version policy = 1
     \<and> (\<exists>adapter :: unit provider_adapter. adapter_for_policy (ev_ext env) policy = Ok adapter
          \<and> pa_validate_policy adapter policy = Ok ())
     \<and> (\<exists>evidence. er_resource request = Some evidence \<and> re_allowed evidence
          \<and> re_policy_digest evidence = canonical_sha256 env (ev_policy_value env policy)
          \<and> re_prepared_digest evidence = prep_digest (er_operation request)
          \<and> re_authority_digest evidence = cb_authority_digest (er_binding request))"

definition floor_met :: "execution_request \<Rightarrow> execution_contract \<Rightarrow> execution_floor \<Rightarrow> bool" where
  "floor_met request p floor \<longleftrightarrow> floor \<in> {AccessModeRisk, PersonalServiceApproval, SharedConnectionConsent}
     \<and> floor \<in> set (ct_satisfies p)
     \<and> (floor \<noteq> AccessModeRisk \<longrightarrow> cb_owner_user_id (er_binding request) = su_actor_user_id (er_subject request))
     \<and> (floor = SharedConnectionConsent \<longrightarrow> su_lane (er_subject request) = LaneShared)"

text \<open>
  The limits of one saved operation on the prepared call: each limited path variable is bound to a
  value of its rule, a limited query is closed and complete, a limited body is JSON of its shape.
\<close>

definition limits_hold ::
  "externals \<Rightarrow> (string, string) btree_map \<Rightarrow> prepared_operation \<Rightarrow> input_rules \<Rightarrow> bool" where
  "limits_hold ext arguments call limits \<longleftrightarrow>
     (\<forall>(name, rule)\<in>set (ir_path limits). \<exists>v. btm_get arguments name = Some v \<and> matches_value rule (JString v))
     \<and> (\<forall>parameters. ir_query limits = Some parameters \<longrightarrow>
          (\<exists>query. parse_query ext (case prep_query call of None \<Rightarrow> [] | Some text \<Rightarrow> text) = Ok query
             \<and> fst ` set query \<subseteq> fst ` set parameters
             \<and> (\<forall>(name, parameter)\<in>set parameters. case btm_get query name of
                  None \<Rightarrow> \<not> qp_required parameter
                | Some v \<Rightarrow> matches_value (qp_rule parameter) (JString v))))
     \<and> (\<forall>shape. ir_body limits = Some shape \<longrightarrow>
          prep_body call \<noteq> [] \<and> (\<exists>kind. prep_content_type call = Some kind \<and> is_application_json kind)
          \<and> (\<exists>v. parse_json ext (prep_body call) = Ok v \<and> accepts shape v))"

definition call_allowed :: "execution_env \<Rightarrow> execution_request \<Rightarrow> operation_scope \<Rightarrow> bool" where
  "call_allowed env request scope \<longleftrightarrow> (let call = er_operation request in
     os_catalog_service_id scope = prep_catalog_service_id call
     \<and> (\<exists>saved\<in>set (os_operations scope).
          (prep_endpoint_id call = None \<or> so_endpoint_id saved = None \<or> so_endpoint_id saved = prep_endpoint_id call)
          \<and> pr_method (so_rule saved) = prep_method call
          \<and> (\<exists>arguments. match_path_arguments (ev_proxy env) (so_rule saved) (prep_path call) = Some arguments
               \<and> pred_option (limits_hold (ev_ext env) arguments call) (so_inputs saved))))"

text \<open>A contract that stands: its own fields, and the row that carries it.\<close>

fun audience_stands :: "string \<Rightarrow> audience \<Rightarrow> bool" where
  "audience_stands actor (AudiencePrivate user) \<longleftrightarrow> user = actor"
| "audience_stands actor (AudienceGroup team revision) \<longleftrightarrow> team \<noteq> [] \<and> 0 < revision"
| "audience_stands actor (AudienceChannel channel revision) \<longleftrightarrow> channel \<noteq> [] \<and> 0 < revision"

fun term_stands :: "int \<Rightarrow> validity \<Rightarrow> bool" where
  "term_stands row_expiry (ValidOperation operation digest expiry) \<longleftrightarrow>
     operation \<noteq> [] \<and> digest \<noteq> [] \<and> row_expiry = expiry"
| "term_stands row_expiry (ValidTask task deadline) \<longleftrightarrow> tk_root_id task \<noteq> [] \<and> row_expiry = deadline"
| "term_stands row_expiry (ValidWindow starts ends) \<longleftrightarrow> starts < ends \<and> row_expiry = ends"
| "term_stands row_expiry ValidPersistent \<longleftrightarrow> row_expiry = 253402300799 * 10 ^ 9"

definition contract_stands :: "approval_grant \<Rightarrow> execution_contract \<Rightarrow> bool" where
  "contract_stands grant p \<longleftrightarrow> gr_scope grant = Some ''execution:v1''
     \<and> 1 \<le> ct_revision p \<and> 1 \<le> os_revision (ct_operations p)
     \<and> su_actor_user_id (ct_subject p) \<noteq> []
     \<and> su_principal (ct_subject p) \<notin> {Agent [], ApiKey [], OauthClient [], ServiceAccount []}
     \<and> audience_stands (su_actor_user_id (ct_subject p)) (ec_audience (ct_context p))
     \<and> ec_conversation (ct_context p) \<noteq> ExactConversation []
     \<and> cb_connection_id (ct_binding p) \<noteq> [] \<and> cb_owner_user_id (ct_binding p) \<noteq> []
     \<and> cb_authority_digest (ct_binding p) \<noteq> [] \<and> cb_credential_id (ct_binding p) \<noteq> Some []
     \<and> 0 \<le> cb_credential_epoch (ct_binding p)
     \<and> (su_lane (ct_subject p) = LaneShared \<longrightarrow>
          (\<exists>digest. cb_behavior_digest (ct_binding p) = Some digest \<and> digest \<noteq> []))
     \<and> ct_satisfies p \<noteq> []
     \<and> set (ct_satisfies p) \<subseteq> {AccessModeRisk, PersonalServiceApproval, SharedConnectionConsent}
     \<and> term_stands (gr_expires_at grant) (ct_validity p)"

definition admissible :: "execution_env \<Rightarrow> execution_request \<Rightarrow> bool" where
  "admissible env request \<longleftrightarrow> su_lane (er_subject request) \<noteq> LaneGuest
     \<and> er_authority request = AuthorityAllowed
     \<and> (\<forall>scope\<in>set (er_delegation_ceilings request). call_allowed env request scope)"

definition consents :: "execution_env \<Rightarrow> approval_grant \<Rightarrow> execution_contract \<Rightarrow> execution_request \<Rightarrow> bool" where
  "consents env grant p request \<longleftrightarrow>
     admissible env request
     \<and> gr_execution grant = Some \<lparr>ex_version = 1, ex_v1 = Some p\<rparr>
     \<and> \<not> gr_revoked grant \<and> contract_stands grant p
     \<and> ct_subject p = er_subject request \<and> ct_binding p = er_binding request
     \<and> ec_audience (ct_context p) = er_audience request
     \<and> ec_conversation (ct_context p) \<in> {SameAudience, ExactConversation (er_conversation_id request)}
     \<and> call_allowed env request (ct_operations p)
     \<and> in_force request (ct_validity p)
     \<and> pred_option (resource_verified env request) (ct_resource_policy p)
     \<and> list_all (floor_met request p) (er_floors request)"

lemma check_query_hold:
  "check_query parameters query = Ok () \<longleftrightarrow> fst ` set query \<subseteq> fst ` set parameters
     \<and> (\<forall>(name, parameter)\<in>set parameters. case btm_get query name of
          None \<Rightarrow> \<not> qp_required parameter | Some v \<Rightarrow> matches_value (qp_rule parameter) (JString v))"
proof -
  have keys: "btm_contains parameters k \<longleftrightarrow> k \<in> fst ` set parameters" for k
    using btm_keys_get [of k parameters] by (simp add: btm_contains_def btm_keys_def)
  have each: "(case x of (name, parameter) \<Rightarrow> case btm_get query name of
        None \<Rightarrow> if \<not> qp_required parameter then Ok () else Err (Denied ''query parameter violates its rule'')
      | Some v \<Rightarrow> if matches_value (qp_rule parameter) (JString v) then Ok ()
          else Err (Denied ''query parameter violates its rule'')) = Ok ()
    \<longleftrightarrow> (case x of (name, parameter) \<Rightarrow> case btm_get query name of
        None \<Rightarrow> \<not> qp_required parameter | Some v \<Rightarrow> matches_value (qp_rule parameter) (JString v))" for x
    by (cases x) (simp split: option.split)
  show ?thesis
    unfolding check_query_def by (auto simp: list_ex_iff keys each)
qed

lemma input_rules_check_hold:
  "input_rules_check ext limits arguments (prep_query call) (prep_body call) (prep_content_type call) = Ok ()
     \<longleftrightarrow> limits_hold ext arguments call limits"
proof -
  have "for_each (\<lambda>(name, rule). case btm_get arguments name of
        None \<Rightarrow> Err (Denied ''path variable is missing'')
      | Some v \<Rightarrow> if matches_value rule (JString v) then Ok () else Err (Denied ''path variable violates its rule''))
        (ir_path limits) = Ok ()
      \<longleftrightarrow> (\<forall>(name, rule)\<in>set (ir_path limits). \<exists>v. btm_get arguments name = Some v \<and> matches_value rule (JString v))"
    by (auto split: option.splits if_splits)
  then show ?thesis
    by (auto simp: input_rules_check_def limits_hold_def check_query_hold check_json_body_def
        split: option.splits if_splits)
qed

lemma operation_covered_iff: "operation_covered env scope request \<longleftrightarrow> call_allowed env request scope"
proof -
  let ?call = "er_operation request"
  let ?sid = "cb_connection_id (er_binding request)"
  have one: "applicable_scopes [(?sid, scope)] ?sid cid = [scope]" for cid
    by (simp add: applicable_scopes_def applies_to_def)
  have inputs: "operation_inputs_check (ev_proxy env) (ev_ext env) (prep_path ?call) (prep_query ?call) (prep_body ?call)
      (prep_content_type ?call) saved = Ok () \<longleftrightarrow> pred_option (limits_hold (ev_ext env) arguments ?call) (so_inputs saved)"
    if "match_path_arguments (ev_proxy env) (so_rule saved) (prep_path ?call) = Some arguments" for saved arguments
    using that by (cases "so_inputs saved") (simp_all add: operation_inputs_check_def input_rules_check_hold)
  have endpoint: "endpoint_selected eid saved \<longleftrightarrow>
      eid = None \<or> so_endpoint_id saved = None \<or> so_endpoint_id saved = eid" for eid saved
    by (auto simp: endpoint_selected_def split: option.split)
  have "operation_covered env scope request \<longleftrightarrow> os_catalog_service_id scope = prep_catalog_service_id ?call
      \<and> os_operations scope \<noteq> []
      \<and> permitted (ev_proxy env) (ev_ext env) [(?sid, scope)] ?sid (prep_catalog_service_id ?call) (prep_endpoint_id ?call)
          (prep_method ?call) (prep_path ?call) False False (prep_query ?call) (prep_body ?call) (prep_content_type ?call)"
    by (auto simp: operation_covered_def permitted_def Let_def is_ok_iff)
  also have "\<dots> \<longleftrightarrow> os_catalog_service_id scope = prep_catalog_service_id ?call
      \<and> (\<exists>saved\<in>set (os_operations scope). operation_admits (ev_proxy env) (ev_ext env) (prep_endpoint_id ?call)
          (prep_method ?call) (prep_path ?call) (prep_query ?call) (prep_body ?call) (prep_content_type ?call) saved)"
    by (auto simp: permitted_iff one scope_admits_def)
  also have "\<dots> \<longleftrightarrow> call_allowed env request scope"
    unfolding call_allowed_def Let_def operation_admits_def scope_operation_matches_def endpoint rule_matches_def
    using inputs by (metis not_None_eq)
  finally show ?thesis .
qed

lemma contract_stands_iff: "contract_invalid grant p \<longleftrightarrow> \<not> contract_stands grant p"
proof -
  have principal: "principal_id i \<noteq> [] \<longleftrightarrow> i \<notin> {Agent [], ApiKey [], OauthClient [], ServiceAccount []}" for i by (cases i) auto
  have audience: "audience_valid actor a \<longleftrightarrow> audience_stands actor a" for actor a by (cases a) auto
  have validity: "term_stands row v \<longleftrightarrow> validity_valid v \<and> row = legacy_expiry v" for v row
    by (cases v) (auto simp: PERSISTENT_TTL_SECONDS_def NANOS_PER_SECOND_def)
  have floors: "list_ex (\<lambda>f. \<not> satisfiable f) fs
      \<longleftrightarrow> \<not> set fs \<subseteq> {AccessModeRisk, PersonalServiceApproval, SharedConnectionConsent}" for fs
    by (auto simp: list_ex_iff satisfiable_def)
  show ?thesis
    unfolding contract_invalid_def valid_contract_def contract_stands_def LEGACY_SCOPE_def
      principal audience validity floors
    by (auto split: option.splits)
qed

lemma gap_not_covered [simp]: "gap request reason \<noteq> Covered c" "Covered c \<noteq> gap request reason"
  by (simp_all add: gap_def)

lemma or_stage_covered:
  "or_stage stage rest = Ok (Covered c) \<longleftrightarrow>
     stage = Ok (Some (Covered c)) \<or> stage = Ok None \<and> rest = Ok (Covered c)"
  by (auto simp: or_stage_def split: option.splits)

lemma preflight_stage: "preflight env request \<noteq> Ok (Some (Covered c))"
    "preflight env request = Ok None \<longleftrightarrow> admissible env request"
  by (auto simp: preflight_def admissible_def operation_covered_iff list_ex_iff split: live_authority.splits)

lemma check_validity_stage: "check_validity request v \<noteq> Ok (Some (Covered c))"
    "check_validity request v = Ok None \<longleftrightarrow> in_force request v"
  by (cases v; auto simp: task_rejected_def split: claim_state.splits option.splits)+

lemma check_resource_stage: "check_resource env request p \<noteq> Ok (Some (Covered c))"
    "check_resource env request p = Ok None \<longleftrightarrow> pred_option (resource_verified env request) p"
  by (auto simp: check_resource_def resource_verified_def is_ok_iff Let_def split: option.splits if_split_asm)

lemma check_floors_stage: "check_floors request (ct_satisfies p) fs \<noteq> Some (Covered c)"
    "check_floors request (ct_satisfies p) fs = None \<longleftrightarrow> list_all (floor_met request p) fs"
  by (induction fs) (auto simp: Let_def floor_met_def satisfiable_def)

lemma context_differs_iff:
  "\<not> context_differs request context \<longleftrightarrow> ec_audience context = er_audience request
     \<and> ec_conversation context \<in> {SameAudience, ExactConversation (er_conversation_id request)}"
  by (auto simp: context_differs_def split: conversation_scope.splits)

lemma evaluate_contract_covered:
  "evaluate_contract env p request = Ok (Covered c) \<longleftrightarrow>
     ct_subject p = er_subject request \<and> ct_binding p = er_binding request
     \<and> \<not> context_differs request (ct_context p)
     \<and> call_allowed env request (ct_operations p)
     \<and> in_force request (ct_validity p)
     \<and> pred_option (resource_verified env request) (ct_resource_policy p)
     \<and> list_all (floor_met request p) (er_floors request)
     \<and> c = is_ValidOperation (ct_validity p)"
  by (simp add: evaluate_contract_def or_stage_covered check_validity_stage check_resource_stage
      check_floors_stage operation_covered_iff) (auto split: validity.splits)

lemma execution_permission_eq: "e = \<lparr>ex_version = n, ex_v1 = c\<rparr> \<longleftrightarrow> ex_version e = n \<and> ex_v1 e = c"
  by (cases e) simp

lemma evaluate_covered:
  "evaluate_grant env grant request = Ok (Covered c) \<longleftrightarrow>
     (\<exists>p. consents env grant p request \<and> c = is_ValidOperation (ct_validity p))"
  by (cases "gr_execution grant")
    (auto simp: evaluate_grant_def or_stage_covered preflight_stage consents_def evaluate_contract_covered
      context_differs_iff VERSION_def contract_stands_iff execution_permission_eq split: option.splits if_split_asm)

text \<open>
  C11. A grant covers an effect exactly when its contract consents to it. The evaluator answers that
  a grant covers an effect if and only if all of this holds at once: the caller is no guest, its
  authority is live and each delegation ceiling allows the call; the grant is not revoked and carries
  a version 1 contract that stands, for exactly this subject, binding, audience and conversation; one of
  the contract's operations has the call's endpoint, method and path, and its limits hold of the
  call's variables, query and body; it is in force; its resource policy is verified by evidence
  bound to this prepared effect; and every floor is met by it. A contract stands when each of its
  fields is in order and the row expires when its term ends (\<open>contract_stands\<close>). A claim is required
  exactly for a contract of one operation.
\<close>

theorem covered_iff_consented:
  "evaluate_grant env grant request = Ok (Covered c) \<longleftrightarrow>
     (\<exists>p. consents env grant p request \<and> c = is_ValidOperation (ct_validity p))"
  by (rule evaluate_covered)

definition demo_env :: execution_env where
  "demo_env = \<lparr>ev_proxy = ref_proxy_externals, ev_ext = ref_externals, ev_policy_value = (\<lambda>_. JNull),
     ev_sha256_hex = (\<lambda>s. s), ev_max_utc = 8210266876799999999999\<rparr>"

definition demo_subject :: subject where
  "demo_subject = \<lparr>su_actor_user_id = ''ada'', su_principal = Agent ''agent'', su_lane = LaneOwner\<rparr>"

definition demo_connection :: connection_binding where
  "demo_connection = \<lparr>cb_connection_id = ''svc'', cb_owner_user_id = ''ada'', cb_credential_id = None,
     cb_credential_epoch = 0, cb_authority_digest = ''sha256:1'', cb_behavior_digest = None\<rparr>"

definition demo_contract_of :: "validity \<Rightarrow> execution_contract" where
  "demo_contract_of v = \<lparr>ct_subject = demo_subject, ct_binding = demo_connection,
     ct_context = \<lparr>ec_audience = AudiencePrivate ''ada'', ec_conversation = SameAudience\<rparr>,
     ct_operations = demo_agent_scope [''/files/{id}''], ct_resource_policy = None, ct_validity = v,
     ct_satisfies = [AccessModeRisk], ct_revision = 1\<rparr>"

definition demo_grant :: "string \<Rightarrow> validity \<Rightarrow> approval_grant" where
  "demo_grant i v = \<lparr>gr_id = i, gr_execution = Some \<lparr>ex_version = 1, ex_v1 = Some (demo_contract_of v)\<rparr>,
     gr_scope = Some ''execution:v1'', gr_expires_at = legacy_expiry v, gr_revoked = False\<rparr>"

definition demo_execution_request :: execution_request where
  "demo_execution_request = \<lparr>er_now = 50, er_subject = demo_subject, er_binding = demo_connection,
     er_audience = AudiencePrivate ''ada'', er_conversation_id = ''c'',
     er_operation = \<lparr>prep_id = ''op'', prep_digest = ''sha256:2'', prep_catalog_service_id = None, prep_endpoint_id = None,
       prep_method = ''GET'', prep_path = [''files'', ''abc''], prep_query = None, prep_body = [], prep_content_type = None\<rparr>,
     er_task = None, er_resource = None, er_floors = [AccessModeRisk], er_authority = AuthorityAllowed,
     er_eligible_decider = True, er_claim = ClaimUncertain, er_delegation_ceilings = []\<rparr>"

lemma demo_covered: "evaluate_grant demo_env (demo_grant ''g'' (ValidWindow 10 90)) demo_execution_request = Ok (Covered False)"
  by code_simp

text \<open>
  Coverage ends with the row's expiry. A grant that covers an effect has an expiry later than the
  request, so the expiry the storage uses to collect rows never outlives or undercuts the contract:
  for a persistent contract it is the sentinel date, for every other the contract's own end.
\<close>

theorem covered_before_expiry:
  assumes "evaluate_grant env grant request = Ok (Covered c)"
    and "er_now request < PERSISTENT_TTL_SECONDS * NANOS_PER_SECOND"
  shows "er_now request < gr_expires_at grant"
proof -
  obtain p where "consents env grant p request" using assms(1) unfolding evaluate_covered by blast
  then have "term_stands (gr_expires_at grant) (ct_validity p)" "in_force request (ct_validity p)"
    by (simp_all add: consents_def contract_stands_def)
  then show ?thesis using assms(2)
    by (cases "ct_validity p") (auto simp: PERSISTENT_TTL_SECONDS_def NANOS_PER_SECOND_def)
qed

lemma covered_before_expiry_witness:
  "er_now demo_execution_request < gr_expires_at (demo_grant ''g'' (ValidWindow 10 90))"
  by (rule covered_before_expiry [OF demo_covered])
    (simp add: demo_execution_request_def PERSISTENT_TTL_SECONDS_def NANOS_PER_SECOND_def)

section \<open>Candidates\<close>

definition grant_covers :: "execution_env \<Rightarrow> execution_request \<Rightarrow> approval_grant \<Rightarrow> bool" where
  "grant_covers env request grant \<longleftrightarrow> (\<exists>c. evaluate_grant env grant request = Ok (Covered c))"

lemma candidate_loop_covered:
  "candidate_loop env request grants error requestable prohibited = Ok (Some i, d) \<longleftrightarrow>
     (\<exists>g. find (grant_covers env request) grants = Some g \<and> i = gr_id g \<and> evaluate_grant env g request = Ok d)"
proof (induction grants arbitrary: error requestable prohibited)
  case Nil
  then show ?case by (simp split: option.split)
next
  case (Cons g grants)
  show ?case
  proof (cases "evaluate_grant env g request")
    case (Inl e)
    then show ?thesis using Cons.IH by (simp add: grant_covers_def)
  next
    case (Inr d')
    then show ?thesis using Cons.IH by (cases d') (auto simp: grant_covers_def)
  qed
qed

text \<open>The first grant's error, gap and prohibition, when none covers.\<close>

fun first_some :: "('a \<Rightarrow> 'b option) \<Rightarrow> 'a list \<Rightarrow> 'b option" where
  "first_some f [] = None"
| "first_some f (x # xs) = (case f x of None \<Rightarrow> first_some f xs | Some y \<Rightarrow> Some y)"

lemma first_some_Some: "first_some f xs = Some y \<Longrightarrow> \<exists>x\<in>set xs. f x = Some y"
  by (induction xs) (auto split: option.splits)

lemma first_some_None: "first_some f xs = None \<longleftrightarrow> (\<forall>x\<in>set xs. f x = None)"
  by (induction xs) (auto split: option.splits)

definition error_of :: "execution_env \<Rightarrow> execution_request \<Rightarrow> approval_grant \<Rightarrow> evaluation_error option" where
  "error_of env request g = (case evaluate_grant env g request of Err e \<Rightarrow> Some e | Ok _ \<Rightarrow> None)"

definition gap_of :: "execution_env \<Rightarrow> execution_request \<Rightarrow> approval_grant \<Rightarrow> decision option" where
  "gap_of env request g = (case evaluate_grant env g request of Ok (RequestableGap r) \<Rightarrow> Some (RequestableGap r) | _ \<Rightarrow> None)"

definition prohibition_of :: "execution_env \<Rightarrow> execution_request \<Rightarrow> approval_grant \<Rightarrow> decision option" where
  "prohibition_of env request g = (case evaluate_grant env g request of Ok (Prohibited x) \<Rightarrow> Some (Prohibited x) | _ \<Rightarrow> None)"

definition slot_or :: "'a option \<Rightarrow> 'a option \<Rightarrow> 'a option" where
  "slot_or a b = (case a of None \<Rightarrow> b | Some x \<Rightarrow> Some x)"

lemma slot_or_simps [simp]: "slot_or None b = b" "slot_or (Some x) b = Some x" "slot_or a None = a"
    "slot_or (slot_or a b) c = slot_or a (slot_or b c)"
  by (simp_all add: slot_or_def split: option.split)

lemma get_or_insert_slot: "get_or_insert a x = slot_or a (Some x)"
  by (simp add: get_or_insert_def slot_or_def split: option.split)

lemma candidate_loop_uncovered:
  assumes "list_all (\<lambda>g. \<not> grant_covers env request g) grants"
  shows "candidate_loop env request grants error requestable prohibited =
    candidate_loop env request [] (slot_or error (first_some (error_of env request) grants))
      (slot_or requestable (first_some (gap_of env request) grants))
      (slot_or prohibited (first_some (prohibition_of env request) grants))"
  using assms
proof (induction grants arbitrary: error requestable prohibited)
  case (Cons g grants)
  have rest: "list_all (\<lambda>g. \<not> grant_covers env request g) grants" and g: "\<not> grant_covers env request g"
    using Cons.prems by simp_all
  note IH = Cons.IH [OF rest]
  consider e where "evaluate_grant env g request = Err e" | r where "evaluate_grant env g request = Ok (RequestableGap r)"
    | x where "evaluate_grant env g request = Ok (Prohibited x)"
    using g by (cases "evaluate_grant env g request") (auto simp: grant_covers_def intro: decision.exhaust)
  then show ?case
    by cases (simp_all del: candidate_loop.simps(1) add: IH get_or_insert_slot error_of_def gap_of_def prohibition_of_def)
qed simp

lemma find_sort_key_least:
  assumes "find P (sort_key f xs) = Some g"
  shows "g \<in> set xs \<and> P g \<and> (\<forall>h\<in>set xs. P h \<longrightarrow> f g \<le> f h)"
proof -
  obtain i where i: "i < length (sort_key f xs)" "P (sort_key f xs ! i)" "g = sort_key f xs ! i"
    "\<forall>j<i. \<not> P (sort_key f xs ! j)"
    using assms by (auto simp: find_Some_iff)
  have "f g \<le> f h" if "h \<in> set xs" "P h" for h
  proof -
    have "h \<in> set (sort_key f xs)" using that(1) by simp
    then obtain j where j: "j < length (sort_key f xs)" "h = sort_key f xs ! j" by (metis in_set_conv_nth)
    then have "i \<le> j" using i(4) that(2) by (metis not_le)
    moreover have "sorted (map f (sort_key f xs))" by simp
    ultimately show ?thesis using i j by (metis length_map nth_map sorted_nth_mono)
  qed
  moreover have "g \<in> set xs" using i by (metis nth_mem set_sort)
  ultimately show ?thesis using i by simp
qed

lemma covers_admissible: "grant_covers env request g \<Longrightarrow> admissible env request"
  by (auto simp: grant_covers_def evaluate_covered consents_def)

lemma evaluate_candidates_chosen:
  "evaluate_candidates env grants request = Ok (Some i, d) \<longleftrightarrow> admissible env request
     \<and> (\<exists>g. find (grant_covers env request) (sort_key candidate_rank grants) = Some g \<and> i = gr_id g
          \<and> evaluate_grant env g request = Ok d)"
  using preflight_stage(2) [of env request]
  by (auto simp: evaluate_candidates_def candidate_loop_covered split: option.splits)

lemma covered_candidates:
  assumes "g \<in> set grants" "grant_covers env request g"
  obtains i c where "evaluate_candidates env grants request = Ok (Some i, Covered c)"
proof -
  have "find (grant_covers env request) (sort_key candidate_rank grants) \<noteq> None" using assms by (auto simp: find_None_iff)
  then obtain h where h: "find (grant_covers env request) (sort_key candidate_rank grants) = Some h" by blast
  then have "grant_covers env request h" using find_sort_key_least [OF h] by simp
  then show ?thesis using h that evaluate_candidates_chosen covers_admissible [OF assms(2)]
    by (auto simp: grant_covers_def)
qed

text \<open>
  C35. Rows are never spliced and none is ignored. The candidates of an effect are covered exactly when
  one of the grants covers it on its own, whatever the other rows hold; the answer is that grant's own
  and names it, and no covering grant is more reusable than the chosen one: a persistent contract
  before a window, a window before a task, a task before the claim of one operation.
\<close>

theorem candidates_choose_one_grant:
  "((\<exists>g\<in>set grants. grant_covers env request g) \<longleftrightarrow>
      (\<exists>i d. evaluate_candidates env grants request = Ok (Some i, d)))
   \<and> (evaluate_candidates env grants request = Ok (Some i, d) \<longrightarrow>
      (\<exists>g\<in>set grants. i = gr_id g \<and> evaluate_grant env g request = Ok d \<and> grant_covers env request g
         \<and> (\<forall>h\<in>set grants. grant_covers env request h \<longrightarrow> candidate_rank g \<le> candidate_rank h)))"
proof (intro conjI impI iffI)
  show "\<exists>i d. evaluate_candidates env grants request = Ok (Some i, d)" if "\<exists>g\<in>set grants. grant_covers env request g"
    using that covered_candidates by metis
  note least = find_sort_key_least [of "grant_covers env request" candidate_rank grants]
  show "\<exists>g\<in>set grants. grant_covers env request g" if "\<exists>i d. evaluate_candidates env grants request = Ok (Some i, d)"
    using that least by (auto simp: evaluate_candidates_chosen)
  show "\<exists>g\<in>set grants. i = gr_id g \<and> evaluate_grant env g request = Ok d \<and> grant_covers env request g
      \<and> (\<forall>h\<in>set grants. grant_covers env request h \<longrightarrow> candidate_rank g \<le> candidate_rank h)"
    if "evaluate_candidates env grants request = Ok (Some i, d)"
    using that least by (auto simp: evaluate_candidates_chosen)
qed

definition demo_grants :: "approval_grant list" where
  "demo_grants = [demo_grant ''expired'' (ValidWindow 10 50), demo_grant ''once'' (ValidOperation ''op'' ''sha256:2'' 90),
     demo_grant ''window'' (ValidWindow 10 90)]"

lemma candidates_choose_one_grant_witness:
  "evaluate_candidates demo_env demo_grants demo_execution_request = Ok (Some ''window'', Covered False)
   \<and> (\<exists>g\<in>set demo_grants. gr_id g = ''window'' \<and> grant_covers demo_env demo_execution_request g)"
proof -
  have "evaluate_candidates demo_env demo_grants demo_execution_request = Ok (Some ''window'', Covered False)"
    by code_simp
  with candidates_choose_one_grant [of demo_grants demo_env demo_execution_request "''window''" "Covered False"]
  show ?thesis by auto
qed

lemma uncovered_candidates:
  assumes "admissible env request" "\<forall>g\<in>set grants. \<not> grant_covers env request g"
  shows "evaluate_candidates env grants request =
    candidate_loop env request [] (first_some (error_of env request) (sort_key candidate_rank grants))
      (first_some (gap_of env request) (sort_key candidate_rank grants))
      (first_some (prohibition_of env request) (sort_key candidate_rank grants))"
proof -
  have "preflight env request = Ok None" using assms(1) by (simp add: preflight_stage)
  have "list_all (\<lambda>g. \<not> grant_covers env request g) (sort_key candidate_rank grants)"
    using assms(2) by (simp add: list_all_iff)
  then have "candidate_loop env request (sort_key candidate_rank grants) None None None =
    candidate_loop env request [] (first_some (error_of env request) (sort_key candidate_rank grants))
      (first_some (gap_of env request) (sort_key candidate_rank grants))
      (first_some (prohibition_of env request) (sort_key candidate_rank grants))"
    by (subst candidate_loop_uncovered) (simp_all del: candidate_loop.simps)
  with \<open>preflight env request = Ok None\<close> show ?thesis by (simp del: candidate_loop.simps add: evaluate_candidates_def)
qed

lemma gap_eq_requestable [simp]: "gap request reason = RequestableGap r \<longleftrightarrow> r = reason \<and> er_eligible_decider request"
  by (auto simp: gap_def)

lemma stage_gaps:
  "preflight env request \<noteq> Ok (Some (RequestableGap r))"
  "check_validity request v = Ok (Some (RequestableGap r)) \<Longrightarrow> er_eligible_decider request"
  "check_resource env request p \<noteq> Ok (Some (RequestableGap r))"
  "check_floors request satisfies fs = Some (RequestableGap r) \<Longrightarrow> er_eligible_decider request"
     apply (auto simp: preflight_def split: live_authority.splits)[]
    apply (cases v; auto split: claim_state.splits if_split_asm)
   apply (auto simp: check_resource_def Let_def split: option.splits if_split_asm)[]
  apply (induction fs; auto simp: Let_def split: if_split_asm)
  done

lemma or_stage_gap:
  "or_stage stage rest = Ok (RequestableGap r) \<longleftrightarrow>
     stage = Ok (Some (RequestableGap r)) \<or> stage = Ok None \<and> rest = Ok (RequestableGap r)"
  by (auto simp: or_stage_def split: option.splits)

lemma evaluate_gap: "evaluate_grant env g request = Ok (RequestableGap r) \<Longrightarrow> er_eligible_decider request"
  by (auto simp: evaluate_grant_def evaluate_contract_def or_stage_gap stage_gaps split: option.splits if_split_asm
      dest: stage_gaps(2,4))

lemma gap_of_Some: "gap_of env request g = Some d \<Longrightarrow> er_eligible_decider request"
  by (auto simp: gap_of_def dest: evaluate_gap split: sum.splits decision.splits)

lemma not_is_ok: "\<not> is_ok r \<longleftrightarrow> is_err r"
  by (cases r) simp_all

lemma uncovered_answer:
  assumes "admissible env request" "\<forall>g\<in>set grants. \<not> grant_covers env request g"
  shows "case evaluate_candidates env grants request of
      Err e \<Rightarrow> \<exists>g\<in>set grants. evaluate_grant env g request = Err e
    | Ok (i, d) \<Rightarrow> i = None \<and> (\<forall>g\<in>set grants. is_ok (evaluate_grant env g request))
        \<and> (\<forall>r. d = RequestableGap r \<longrightarrow> er_eligible_decider request)"
proof (cases "first_some (error_of env request) (sort_key candidate_rank grants)")
  case None
  then have "\<forall>g\<in>set grants. is_ok (evaluate_grant env g request)"
    by (auto simp: first_some_None error_of_def is_ok_def split: sum.splits)
  moreover have "er_eligible_decider request" if "first_some (gap_of env request) xs = Some (RequestableGap r)" for xs r
    using first_some_Some [OF that] by (auto dest: gap_of_Some)
  moreover have "\<nexists>r. first_some (prohibition_of env request) xs = Some (RequestableGap r)" for xs
    by (auto dest!: first_some_Some simp: prohibition_of_def split: sum.splits decision.splits)
  moreover have "evaluate_candidates env grants request = Ok (None,
      case first_some (gap_of env request) (sort_key candidate_rank grants) of Some d \<Rightarrow> d
      | None \<Rightarrow> (case first_some (prohibition_of env request) (sort_key candidate_rank grants) of Some d \<Rightarrow> d
          | None \<Rightarrow> gap request MissingPermission))"
    by (simp add: uncovered_candidates [OF assms] None)
  ultimately show ?thesis
    by (cases "first_some (gap_of env request) (sort_key candidate_rank grants)";
        cases "first_some (prohibition_of env request) (sort_key candidate_rank grants)") auto
next
  case (Some e)
  then have "\<exists>g\<in>set grants. evaluate_grant env g request = Err e"
    by (auto dest!: first_some_Some simp: error_of_def split: sum.splits)
  then show ?thesis using Some uncovered_candidates [OF assms] by auto
qed

text \<open>
  An operational failure is never turned into a prompt. An answer that asks the owner to consent
  means that the owner may decide, that the gates before the rows passed, and that every row was
  evaluated without a failure and covers nothing. And when no row covers an admissible effect but the
  evaluation of some row failed, the answer is the failure of a row.
\<close>

theorem failure_is_never_a_prompt:
  "(\<forall>i r. evaluate_candidates env grants request = Ok (i, RequestableGap r) \<longrightarrow>
      er_eligible_decider request \<and> admissible env request
      \<and> (\<forall>g\<in>set grants. is_ok (evaluate_grant env g request) \<and> \<not> grant_covers env request g))
   \<and> (admissible env request \<and> (\<forall>g\<in>set grants. \<not> grant_covers env request g)
        \<and> (\<exists>g\<in>set grants. is_err (evaluate_grant env g request)) \<longrightarrow>
      (\<exists>e. evaluate_candidates env grants request = Err e \<and> (\<exists>g\<in>set grants. evaluate_grant env g request = Err e)))"
proof (intro conjI allI impI)
  note answer = uncovered_answer [of env request grants]
  show "er_eligible_decider request" "admissible env request"
    and "\<forall>g\<in>set grants. is_ok (evaluate_grant env g request) \<and> \<not> grant_covers env request g"
    if "evaluate_candidates env grants request = Ok (i, RequestableGap r)" for i r
  proof -
    have adm: "admissible env request"
      using that preflight_stage(2) [of env request] stage_gaps(1) [of env request r]
      by (auto simp: evaluate_candidates_def split: option.splits)
    have none: "\<forall>g\<in>set grants. \<not> grant_covers env request g"
      using that covered_candidates by (metis decision.distinct(1) prod.inject sum.inject(2))
    show "er_eligible_decider request" "admissible env request"
      "\<forall>g\<in>set grants. is_ok (evaluate_grant env g request) \<and> \<not> grant_covers env request g"
      using answer [OF adm none] that adm none by auto
  qed
  show "\<exists>e. evaluate_candidates env grants request = Err e \<and> (\<exists>g\<in>set grants. evaluate_grant env g request = Err e)"
    if "admissible env request \<and> (\<forall>g\<in>set grants. \<not> grant_covers env request g)
        \<and> (\<exists>g\<in>set grants. is_err (evaluate_grant env g request))"
    using answer that by (auto split: sum.splits simp: not_is_ok [symmetric])
qed

lemma failure_is_never_a_prompt_witness:
  "evaluate_candidates demo_env (take 1 demo_grants) demo_execution_request = Ok (None, RequestableGap GapValidity)
   \<and> er_eligible_decider demo_execution_request
   \<and> evaluate_candidates demo_env (take 2 demo_grants) demo_execution_request = Err OutcomeUncertain"
proof -
  have "evaluate_candidates demo_env (take 1 demo_grants) demo_execution_request = Ok (None, RequestableGap GapValidity)"
    "evaluate_candidates demo_env (take 2 demo_grants) demo_execution_request = Err OutcomeUncertain"
    by code_simp+
  with failure_is_never_a_prompt [of demo_env "take 1 demo_grants" demo_execution_request] show ?thesis by blast
qed

section \<open>Digests\<close>

fun sorted_json :: "json \<Rightarrow> bool"
  and sorted_values :: "json list \<Rightarrow> bool"
  and sorted_entries :: "(string \<times> json) list \<Rightarrow> bool" where
  "sorted_json (JArray vs) = sorted_values vs"
| "sorted_json (JObject es) = (sorted (map fst es) \<and> sorted_entries es)"
| "sorted_json JNull = True"
| "sorted_json (JBool b) = True"
| "sorted_json (JNumber n) = True"
| "sorted_json (JString s) = True"
| "sorted_values [] = True"
| "sorted_values (v # vs) = (sorted_json v \<and> sorted_values vs)"
| "sorted_entries [] = True"
| "sorted_entries ((k, v) # es) = (sorted_json v \<and> sorted_entries es)"

lemma sorted_entries_iff: "sorted_entries es \<longleftrightarrow> (\<forall>(k, v)\<in>set es. sorted_json v)"
  by (induction es) auto

lemma set_canonical_entries: "set (canonical_entries es) = (\<lambda>(k, v). (k, canonical_json v)) ` set es"
  by (induction es) (auto simp: set_insort_key)

lemma canonical_entries_keys: "sorted (map fst (canonical_entries es))"
  by (induction es) (auto simp: sorted_insort_key)

lemma keys_canonical_entries: "fst ` set (canonical_entries es) = fst ` set es"
  unfolding set_canonical_entries by force

lemma canonical_entries_distinct:
  "distinct (map fst (canonical_entries es)) \<longleftrightarrow> distinct (map fst es)"
proof (induction es)
  case (Cons e es)
  obtain k v where e: "e = (k, v)" by force
  have "distinct (map fst (canonical_entries (e # es))) \<longleftrightarrow>
      k \<notin> fst ` set (canonical_entries es) \<and> distinct (map fst (canonical_entries es))"
    by (simp add: e distinct_insort_key)
  then show ?case using Cons.IH by (simp only: keys_canonical_entries) (simp add: e)
qed simp

lemma length_canonical_entries [simp]: "length (canonical_entries es) = length es"
  by (induction es) auto

lemma canonical_sorted:
  "sorted_json (canonical_json v)" "sorted_values (canonical_values vs)" "sorted_entries (canonical_entries es)"
  by (induction v and vs and es rule: canonical_json_canonical_values_canonical_entries.induct)
    (auto simp: canonical_entries_keys sorted_entries_iff set_insort_key)

lemma canonical_wf:
  "json_wf v \<Longrightarrow> json_wf (canonical_json v)" "json_wf_list vs \<Longrightarrow> json_wf_list (canonical_values vs)"
  "json_wf_obj es \<Longrightarrow> json_wf_obj (canonical_entries es)"
  by (induction v and vs and es rule: canonical_json_canonical_values_canonical_entries.induct)
    (auto simp: canonical_entries_distinct json_wf_obj_iff set_insort_key)

fun number_strict :: "json_number \<Rightarrow> bool" where
  "number_strict (Float t) = (\<not> f64_zero_text t)"
| "number_strict n = True"

fun strict_json :: "json \<Rightarrow> bool"
  and strict_values :: "json list \<Rightarrow> bool"
  and strict_entries :: "(string \<times> json) list \<Rightarrow> bool" where
  "strict_json (JNumber n) = number_strict n"
| "strict_json (JArray vs) = strict_values vs"
| "strict_json (JObject es) = strict_entries es"
| "strict_json JNull = True"
| "strict_json (JBool b) = True"
| "strict_json (JString s) = True"
| "strict_values [] = True"
| "strict_values (v # vs) = (strict_json v \<and> strict_values vs)"
| "strict_entries [] = True"
| "strict_entries ((k, v) # es) = (strict_json v \<and> strict_entries es)"

lemma number_eq_strict: "number_eq a b \<Longrightarrow> number_strict a \<Longrightarrow> a = b"
  by (cases a; cases b) auto

lemma canonical_eq:
  "json_eq v w \<Longrightarrow> json_wf v \<Longrightarrow> json_wf w \<Longrightarrow> strict_json v \<Longrightarrow> canonical_json v = canonical_json w"
  "json_eq_list vs ws \<Longrightarrow> json_wf_list vs \<Longrightarrow> json_wf_list ws \<Longrightarrow> strict_values vs \<Longrightarrow>
     canonical_values vs = canonical_values ws"
  "json_sub_obj es fs \<Longrightarrow> json_wf_obj es \<Longrightarrow> json_wf_obj fs \<Longrightarrow> strict_entries es \<Longrightarrow>
     set (canonical_entries es) \<subseteq> set (canonical_entries fs)"
proof (induction v w and vs ws and es fs rule: json_eq_json_eq_list_json_sub_obj.induct)
  case (3 a b)
  then show ?case by (auto dest: number_eq_strict)
next
  case (6 es fs)
  then have d: "distinct (map fst (canonical_entries es))" "distinct (map fst (canonical_entries fs))"
    and sub: "set (canonical_entries es) \<subseteq> set (canonical_entries fs)" and l: "length es = length fs"
    by (simp_all add: canonical_entries_distinct)
  have "card (set (canonical_entries es)) = card (set (canonical_entries fs))"
    using d [THEN distinct_map [THEN iffD1, THEN conjunct1], THEN distinct_card] l by simp
  then have "set (canonical_entries es) = set (canonical_entries fs)" using sub by (simp add: card_subset_eq)
  then have "canonical_entries es = canonical_entries fs"
    using d canonical_entries_keys
    by (intro map_sorted_distinct_set_unique [where f = fst]) (auto simp: distinct_map)
  then show ?case by simp
next
  case (12 k v es fs)
  then obtain w where w: "map_of fs k = Some w" "json_eq v w" by (auto split: option.splits)
  have "json_wf w" using "12.prems"(3) map_of_SomeD [OF w(1)] by (force simp: json_wf_obj_iff)
  then have "canonical_json v = canonical_json w" using "12.IH"(1) [OF w(1)] w(2) "12.prems" by simp
  moreover have "(k, canonical_json w) \<in> set (canonical_entries fs)"
    using map_of_SomeD [OF w(1)] by (force simp: set_canonical_entries)
  ultimately show ?case using 12 w by (auto simp: set_insort_key split: option.splits)
qed auto

lemma json_eq_canonical:
  "json_wf v \<Longrightarrow> json_eq v (canonical_json v)"
  "json_wf_list vs \<Longrightarrow> json_eq_list vs (canonical_values vs)"
  "json_wf_obj es \<Longrightarrow> \<forall>(k, v)\<in>set es. json_eq v (canonical_json v)"
proof (induction v and vs and es rule: canonical_json_canonical_values_canonical_entries.induct)
  case (2 es)
  then have d: "distinct (map fst (canonical_entries es))" and e: "\<forall>(k, v)\<in>set es. json_eq v (canonical_json v)"
    by (simp_all add: canonical_entries_distinct)
  have "json_sub_obj hs (canonical_entries es)" if "set hs \<subseteq> set es" for hs
    using that
  proof (induction hs)
    case (Cons h hs)
    obtain k v where h: "h = (k, v)" by force
    then have "(k, canonical_json v) \<in> set (canonical_entries es)" using Cons.prems by (force simp: set_canonical_entries)
    then have "map_of (canonical_entries es) k = Some (canonical_json v)" using d by simp
    then show ?case using Cons h e by auto
  qed simp
  then show ?case by simp
next
  case (5 n)
  then show ?case by (cases n) auto
qed auto

text \<open>
  The digest of a value is the digest of its meaning. Canonicalization gives a value whose keys
  are sorted at every depth and that equals the original; two values canonicalize alike exactly when
  they are equal, whatever the order of their keys, and so have one digest. The values repeat no key
  and hold no floating-point zero, whose sign equality ignores.
\<close>

theorem canonical_form_decides_equality:
  assumes "json_wf v" "json_wf w" "strict_json v"
  shows "sorted_json (canonical_json v) \<and> json_wf (canonical_json v) \<and> json_eq v (canonical_json v)
    \<and> (canonical_json v = canonical_json w \<longleftrightarrow> json_eq v w)
    \<and> (json_eq v w \<longrightarrow> canonical_sha256 env v = canonical_sha256 env w)"
proof -
  have "json_eq v w" if "canonical_json v = canonical_json w"
  proof (rule json_eq_trans)
    show "json_eq v (canonical_json v)" using json_eq_canonical(1) assms(1) .
    show "json_eq (canonical_json v) w" unfolding that
      by (rule json_eq_sym [OF json_eq_canonical(1)]) (use assms(2) in \<open>simp_all add: canonical_wf\<close>)
  qed
  then have "canonical_json v = canonical_json w \<longleftrightarrow> json_eq v w"
    using canonical_eq(1) [OF _ assms] by blast
  then show ?thesis using assms canonical_sorted(1) canonical_wf(1) json_eq_canonical(1)
    by (auto simp: canonical_sha256_def)
qed

lemma canonical_form_decides_equality_witness:
  "canonical_json (JObject [(''b'', JNull), (''a'', JBool True)]) = canonical_json (JObject [(''a'', JBool True), (''b'', JNull)])
   \<and> canonical_json (JObject [(''b'', JNull)]) \<noteq> canonical_json (JObject [(''b'', JBool True)])"
  using canonical_form_decides_equality [of "JObject [(''b'', JNull), (''a'', JBool True)]" "JObject [(''a'', JBool True), (''b'', JNull)]"]
    canonical_form_decides_equality [of "JObject [(''b'', JNull)]" "JObject [(''b'', JBool True)]"]
  by simp

end
