(* ===== verification/Ip_Address.thy ===== *)
theory Ip_Address
  imports Rust_Str "HOL-Library.Word"
begin

unbundle bit_operations_syntax

text \<open>
  What the services use of Rust's \<open>std::net\<close>: addresses as machine words, their classification
  and the reader of \<open>IpAddr\<close> (\<open>core::net::parser\<close>), which takes a dotted quad without leading
  zeros or an IPv6 address with at most one \<open>::\<close> and an optional trailing dotted quad.
\<close>

type_synonym ipv4 = "32 word"
type_synonym ipv6 = "128 word"
datatype ip_addr = V4 ipv4 | V6 ipv6

definition octet :: "nat \<Rightarrow> ipv4 \<Rightarrow> 8 word" where
  "octet i a = ucast (drop_bit (8 * (3 - i)) a)"

definition segment :: "nat \<Rightarrow> ipv6 \<Rightarrow> 16 word" where
  "segment i a = ucast (drop_bit (16 * (7 - i)) a)"

definition ipv4_of :: "nat list \<Rightarrow> ipv4" where
  "ipv4_of octets = of_nat (foldl (\<lambda>a b. 256 * a + b) 0 octets)"

definition ipv6_of :: "nat list \<Rightarrow> ipv6" where
  "ipv6_of segments = of_nat (foldl (\<lambda>a b. 65536 * a + b) 0 segments)"

section \<open>Classification\<close>

definition v4_is_loopback :: "ipv4 \<Rightarrow> bool" where
  "v4_is_loopback a \<longleftrightarrow> octet 0 a = 127"

definition v4_is_private :: "ipv4 \<Rightarrow> bool" where
  "v4_is_private a \<longleftrightarrow> octet 0 a = 10
     \<or> octet 0 a = 172 \<and> octet 1 a \<ge> 16 \<and> octet 1 a \<le> 31
     \<or> octet 0 a = 192 \<and> octet 1 a = 168"

definition v4_is_link_local :: "ipv4 \<Rightarrow> bool" where
  "v4_is_link_local a \<longleftrightarrow> octet 0 a = 169 \<and> octet 1 a = 254"

definition v4_is_unspecified :: "ipv4 \<Rightarrow> bool" where
  "v4_is_unspecified a \<longleftrightarrow> a = 0"

definition v4_is_broadcast :: "ipv4 \<Rightarrow> bool" where
  "v4_is_broadcast a \<longleftrightarrow> a = 0xFFFFFFFF"

definition v6_is_loopback :: "ipv6 \<Rightarrow> bool" where
  "v6_is_loopback a \<longleftrightarrow> a = 1"

definition v6_is_unspecified :: "ipv6 \<Rightarrow> bool" where
  "v6_is_unspecified a \<longleftrightarrow> a = 0"

definition to_ipv4_mapped :: "ipv6 \<Rightarrow> ipv4 option" where
  "to_ipv4_mapped a = (if drop_bit 32 a = 0xFFFF then Some (ucast a) else None)"

section \<open>The reader\<close>

definition hex_val :: "char \<Rightarrow> nat option" where
  "hex_val c =
     (if is_ascii_digit c then Some (digit_val c)
      else let l = to_lower c in if l \<in> {CHR ''a'', CHR ''b'', CHR ''c'', CHR ''d'', CHR ''e'', CHR ''f''}
        then Some (byte l - 87) else None)"

definition dec_val :: "char \<Rightarrow> nat option" where
  "dec_val c = (if is_ascii_digit c then Some (digit_val c) else None)"

text \<open>\<open>read_number\<close>: at most \<open>max_digits\<close> digits below \<open>limit\<close>; a further digit fails.\<close>

fun read_digits :: "(char \<Rightarrow> nat option) \<Rightarrow> nat \<Rightarrow> nat \<Rightarrow> nat \<Rightarrow> nat \<Rightarrow> nat \<Rightarrow> string \<Rightarrow> (nat \<times> nat \<times> string) option" where
  "read_digits val radix limit max_digits result count [] = Some (result, count, [])"
| "read_digits val radix limit max_digits result count (c # cs) =
     (case val c of
        None \<Rightarrow> Some (result, count, c # cs)
      | Some d \<Rightarrow>
          if limit \<le> radix * result + d \<or> max_digits \<le> count then None
          else read_digits val radix limit max_digits (radix * result + d) (count + 1) cs)"

definition read_number ::
  "(char \<Rightarrow> nat option) \<Rightarrow> nat \<Rightarrow> nat \<Rightarrow> nat \<Rightarrow> bool \<Rightarrow> string \<Rightarrow> (nat \<times> string) option" where
  "read_number val radix limit max_digits allow_zero_prefix s =
     (case read_digits val radix limit max_digits 0 0 s of
        None \<Rightarrow> None
      | Some (result, count, rest) \<Rightarrow>
          if count = 0 \<or> \<not> allow_zero_prefix \<and> starts_with ''0'' s \<and> count > 1 then None
          else Some (result, rest))"

definition after_separator :: "char \<Rightarrow> nat \<Rightarrow> string \<Rightarrow> string option" where
  "after_separator sep i s = (if i = 0 then Some s else strip_prefix [sep] s)"

definition read_octet :: "nat \<Rightarrow> string \<Rightarrow> (nat \<times> string) option" where
  "read_octet i s = Option.bind (after_separator CHR ''.'' i s) (read_number dec_val 10 256 3 False)"

definition read_ipv4 :: "string \<Rightarrow> (nat list \<times> string) option" where
  "read_ipv4 s =
     Option.bind (read_octet 0 s) (\<lambda>(a, s). Option.bind (read_octet 1 s) (\<lambda>(b, s).
     Option.bind (read_octet 2 s) (\<lambda>(c, s). Option.bind (read_octet 3 s) (\<lambda>(d, s). Some ([a, b, c, d], s)))))"

text \<open>The groups of one side of \<open>::\<close>, and whether a dotted quad ended them.\<close>

function read_groups :: "nat \<Rightarrow> nat \<Rightarrow> nat list \<Rightarrow> string \<Rightarrow> nat list \<times> bool \<times> string" where
  "read_groups limit i groups s =
     (if limit \<le> i then (groups, False, s)
      else let quad = (if i < limit - 1
                 then Option.bind (after_separator CHR '':'' i s) read_ipv4 else None) in
      case quad of
        Some (octets, rest) \<Rightarrow>
          (groups @ [256 * octets ! 0 + octets ! 1, 256 * octets ! 2 + octets ! 3], True, rest)
      | None \<Rightarrow>
         (case Option.bind (after_separator CHR '':'' i s) (read_number hex_val 16 65536 4 True) of
            Some (g, rest) \<Rightarrow> read_groups limit (i + 1) (groups @ [g]) rest
          | None \<Rightarrow> (groups, False, s)))"
  by pat_completeness auto

termination
  by (relation "measure (\<lambda>(limit, i, groups, s). limit - i)") auto

declare read_groups.simps [simp del]

definition read_ipv6 :: "string \<Rightarrow> (nat list \<times> string) option" where
  "read_ipv6 s = (case read_groups 8 0 [] s of
     (head, quad, rest) \<Rightarrow>
       if length head = 8 then Some (head, rest)
       else if quad then None
       else Option.bind (strip_prefix ''::'' rest) (\<lambda>rest.
         case read_groups (7 - length head) 0 [] rest of
           (tail, _, rest) \<Rightarrow> Some (head @ replicate (8 - length head - length tail) 0 @ tail, rest)))"

definition parse_ip :: "string \<Rightarrow> ip_addr option" where
  "parse_ip s = (case read_ipv4 s of
     Some (octets, rest) \<Rightarrow> if rest = [] then Some (V4 (ipv4_of octets)) else None
   | None \<Rightarrow> (case read_ipv6 s of
       Some (segments, rest) \<Rightarrow> if rest = [] then Some (V6 (ipv6_of segments)) else None
     | None \<Rightarrow> None))"

end
