(* ===== verification/Url_Validation.thy ===== *)
theory Url_Validation
  imports Ip_Address App_Error Json
begin

text \<open>
  The guards of outgoing URLs: the shared validators (\<open>services/url_validation.rs\<close>), the target of an
  API specification (\<open>services/api_docs_service.rs\<close>), a webhook's URL
  (\<open>services/webhook_delivery_service.rs\<close>) and the client a media download uses
  (\<open>services/channel_media_service.rs\<close>).

  URL parsing, the resolver and whether a client can be built are the fields of \<open>net_env\<close>. Resolving
  is an effect: the answer may differ from one lookup of a call to the next, so a lookup is numbered.
  An \<open>http_client\<close> holds what its builder was given: whether it follows redirects, whether it ignores
  the system's proxies, and the addresses it is to use for a host instead of resolving it.
\<close>

record http_client =
  hc_follows_redirects :: bool
  hc_no_proxy :: bool
  hc_overrides :: "(string \<times> ip_addr list) list"

record net_env =
  ne_parse :: "string \<Rightarrow> parsed_url option"
  ne_set_host :: "parsed_url \<Rightarrow> string \<Rightarrow> parsed_url option"
  ne_lookup :: "nat \<Rightarrow> string \<Rightarrow> nat \<Rightarrow> string + ip_addr list"
  ne_build :: "http_client \<Rightarrow> string + http_client"

definition port_or_known_default :: "parsed_url \<Rightarrow> nat option" where
  "port_or_known_default u = (case url_port u of
     Some p \<Rightarrow> Some p
   | None \<Rightarrow> if url_scheme u \<in> {''http'', ''ws''} then Some 80
       else if url_scheme u \<in> {''https'', ''wss''} then Some 443
       else if url_scheme u = ''ftp'' then Some 21 else None)"

section \<open>Hosts and addresses\<close>

definition trim_host :: "string \<Rightarrow> string" where
  "trim_host s =
     rev (dropWhile (\<lambda>c. c = CHR ''.'') (dropWhile (\<lambda>c. c = CHR '']'')
       (rev (dropWhile (\<lambda>c. c = CHR ''['') s))))"

definition normalize_host :: "string \<Rightarrow> string" where
  "normalize_host host = to_ascii_lowercase (trim_host (trim host))"

definition is_cloud_metadata_host :: "string \<Rightarrow> bool" where
  "is_cloud_metadata_host host =
     (let normalized = to_ascii_lowercase (trim_host host) in
      normalized = ''metadata.google.internal''
      \<or> normalized = ''169.254.169.254''
      \<or> normalized = ''fd00:ec2::254''
      \<or> normalized = ''100.100.100.200''
      \<or> normalized = ''168.63.129.16'')"

definition is_rfc6598_cgnat :: "ipv4 \<Rightarrow> bool" where
  "is_rfc6598_cgnat a \<longleftrightarrow> octet 0 a = 100 \<and> 64 \<le> octet 1 a \<and> octet 1 a \<le> 127"

definition private_v4 :: "ipv4 \<Rightarrow> bool" where
  "private_v4 a \<longleftrightarrow> v4_is_loopback a \<or> v4_is_private a \<or> v4_is_link_local a
     \<or> v4_is_unspecified a \<or> v4_is_broadcast a \<or> is_rfc6598_cgnat a"

fun is_private_or_internal_ip :: "ip_addr \<Rightarrow> bool" where
  "is_private_or_internal_ip (V4 a) = private_v4 a"
| "is_private_or_internal_ip (V6 a) =
     (v6_is_loopback a \<or> v6_is_unspecified a
      \<or> segment 0 a AND 0xfe00 = 0xfc00
      \<or> segment 0 a AND 0xffc0 = 0xfe80
      \<or> (case to_ipv4_mapped a of None \<Rightarrow> False | Some mapped \<Rightarrow> private_v4 mapped))"

section \<open>The shared validators\<close>

definition MAX_URL_LEN :: nat where "MAX_URL_LEN = 2048"

definition reject_url_userinfo :: "parsed_url \<Rightarrow> app_error + unit" where
  "reject_url_userinfo u =
     (if url_username u \<noteq> [] \<or> url_password u \<noteq> None
      then Err (ValidationError ''URL must not contain userinfo (user:pass@)'') else Ok ())"

definition is_http :: "parsed_url \<Rightarrow> bool" where
  "is_http u \<longleftrightarrow> url_scheme u = ''http'' \<or> url_scheme u = ''https''"

definition guard_that :: "bool \<Rightarrow> app_error \<Rightarrow> app_error + unit" where
  "guard_that b e = (if b then Ok () else Err e)"

definition field_error :: "string \<Rightarrow> string \<Rightarrow> app_error" where
  "field_error field_name text = ValidationError (field_name @ text)"

definition validate_public_http_url_with_limit ::
  "net_env \<Rightarrow> string \<Rightarrow> string \<Rightarrow> nat \<Rightarrow> app_error + unit" where
  "validate_public_http_url_with_limit env url field_name max_len =
     and_then (guard_that (length url \<le> max_len)
       (field_error field_name ('' must not exceed '' @ nat_str max_len @ '' characters''))) (\<lambda>_.
     and_then (ok_or (ne_parse env url) (field_error field_name '' must be a valid URL'')) (\<lambda>parsed.
     and_then (guard_that (is_http parsed) (field_error field_name '' must use http or https'')) (\<lambda>_.
     and_then (reject_url_userinfo parsed) (\<lambda>_.
     and_then (ok_or (url_host_str parsed) (field_error field_name '' must include a hostname'')) (\<lambda>host.
     let normalized_host = normalize_host host in
     and_then (guard_that (normalized_host \<notin> {''localhost'', ''metadata.google.internal''})
       (field_error field_name '' must not target a private or internal hostname'')) (\<lambda>_.
     and_then (ok_or (port_or_known_default parsed) (field_error field_name '' must include a valid port'')) (\<lambda>port.
     and_then (case parse_ip normalized_host of
         Some ip \<Rightarrow> Ok [ip]
       | None \<Rightarrow> map_err (\<lambda>e. field_error (''Failed to resolve '' @ field_name) ('' host: '' @ e))
                   (ne_lookup env 0 normalized_host port)) (\<lambda>resolved_addrs.
     and_then (guard_that (resolved_addrs \<noteq> [])
       (field_error field_name '' host did not resolve to any IP addresses'')) (\<lambda>_.
     guard_that (\<not> list_ex is_private_or_internal_ip resolved_addrs)
       (field_error field_name '' must not resolve to private or internal IP addresses''))))))))))"

definition validate_public_http_url :: "net_env \<Rightarrow> string \<Rightarrow> string \<Rightarrow> app_error + unit" where
  "validate_public_http_url env url field_name = validate_public_http_url_with_limit env url field_name MAX_URL_LEN"

definition validate_advisory_http_url :: "net_env \<Rightarrow> string \<Rightarrow> string \<Rightarrow> nat \<Rightarrow> app_error + unit" where
  "validate_advisory_http_url env url field_name max_len =
     and_then (guard_that (length url \<le> max_len)
       (field_error field_name ('' must not exceed '' @ nat_str max_len @ '' characters''))) (\<lambda>_.
     and_then (ok_or (ne_parse env url) (field_error field_name '' must be a valid URL'')) (\<lambda>parsed.
     and_then (guard_that (is_http parsed) (field_error field_name '' must use http or https'')) (\<lambda>_.
     and_then (ok_or (url_host_str parsed) (field_error field_name '' must include a hostname'')) (\<lambda>host.
     and_then (guard_that (\<not> is_cloud_metadata_host host)
       (field_error field_name '' must not point to a cloud metadata endpoint'')) (\<lambda>_.
     reject_url_userinfo parsed)))))"

definition validate_user_endpoint_url :: "net_env \<Rightarrow> string \<Rightarrow> bool \<Rightarrow> string \<Rightarrow> app_error + unit" where
  "validate_user_endpoint_url env url hosted_mode field_name =
     and_then (guard_that (length url \<le> 2048) (field_error field_name '' must not exceed 2048 characters'')) (\<lambda>_.
     and_then (ok_or (ne_parse env url) (field_error field_name '' must be a valid URL'')) (\<lambda>parsed.
     and_then (guard_that (is_http parsed) (field_error field_name '' must use http or https'')) (\<lambda>_.
     and_then (guard_that (url_host_str parsed \<noteq> None) (field_error field_name '' must include a hostname'')) (\<lambda>_.
     and_then (guard_that (url_query parsed = None) (field_error field_name '' must not contain a query string'')) (\<lambda>_.
     and_then (guard_that (url_fragment parsed = None) (field_error field_name '' must not contain a fragment'')) (\<lambda>_.
     and_then (guard_that (url_username parsed = [] \<and> url_password parsed = None)
       (field_error field_name '' must not contain userinfo (user:pass@)'')) (\<lambda>_.
     if hosted_mode then validate_public_http_url env url field_name else Ok ())))))))"

definition validate_base_url :: "net_env \<Rightarrow> string \<Rightarrow> app_error + unit" where
  "validate_base_url env url =
     and_then (guard_that (starts_with ''https://'' url \<or> starts_with ''http://'' url)
       (ValidationError ''base_url must start with https:// or http://'')) (\<lambda>_.
     and_then (ok_or (ne_parse env url) (ValidationError ''Invalid base_url format'')) (\<lambda>parsed.
     and_then (ok_or (url_host_str parsed) (ValidationError ''base_url must contain a hostname'')) (\<lambda>host.
     guard_that (\<not> is_cloud_metadata_host host)
       (ValidationError ''URL must not point to a cloud metadata endpoint''))))"

definition validate_optional_spec_url :: "net_env \<Rightarrow> string \<Rightarrow> app_error + unit" where
  "validate_optional_spec_url env url =
     and_then (guard_that (length url \<le> 2048) (ValidationError ''Spec URL must not exceed 2048 characters'')) (\<lambda>_.
     and_then (validate_base_url env url) (\<lambda>_.
     and_then (ok_or (ne_parse env url) (ValidationError ''Invalid spec URL format'')) reject_url_userinfo))"

section \<open>Specifications\<close>

record spec_fetch_target =
  sf_url :: parsed_url
  sf_host :: string
  sf_resolved_addrs :: "ip_addr list"
  sf_requires_dns_pinning :: bool

definition is_blocked_fetch_hostname :: "string \<Rightarrow> bool" where
  "is_blocked_fetch_hostname host \<longleftrightarrow> normalize_host host \<in> {''localhost'', ''metadata.google.internal''}"

definition resolve_fetch_host_socket_addrs ::
  "net_env \<Rightarrow> string \<Rightarrow> nat \<Rightarrow> app_error + ip_addr list \<times> bool" where
  "resolve_fetch_host_socket_addrs env host port = (case parse_ip (normalize_host host) of
     Some ip \<Rightarrow> Ok ([ip], False)
   | None \<Rightarrow> and_then (map_err (\<lambda>e. BadRequest (''Failed to resolve spec host: '' @ e)) (ne_lookup env 0 host port))
       (\<lambda>resolved. Ok (resolved, True)))"

definition validate_spec_fetch_target :: "net_env \<Rightarrow> string \<Rightarrow> app_error + spec_fetch_target" where
  "validate_spec_fetch_target env url =
     and_then (ok_or (ne_parse env url) (BadRequest ''Spec URL is invalid'')) (\<lambda>parsed.
     and_then (guard_that (is_http parsed) (BadRequest ''Spec URL must use http or https'')) (\<lambda>_.
     and_then (reject_url_userinfo parsed) (\<lambda>_.
     and_then (ok_or (url_host_str parsed) (BadRequest ''Spec URL must include a hostname'')) (\<lambda>host.
     let normalized_host = normalize_host host in
     and_then (guard_that (\<not> is_blocked_fetch_hostname normalized_host)
       (BadRequest ''Spec URL must not target a private or internal hostname'')) (\<lambda>_.
     and_then (ok_or (port_or_known_default parsed) (BadRequest ''Spec URL must include a valid port'')) (\<lambda>port.
     and_then (resolve_fetch_host_socket_addrs env normalized_host port) (\<lambda>(resolved_addrs, requires_dns_pinning).
     and_then (guard_that (resolved_addrs \<noteq> [])
       (BadRequest ''Spec URL host did not resolve to any IP addresses'')) (\<lambda>_.
     and_then (guard_that (\<not> list_ex is_private_or_internal_ip resolved_addrs)
       (BadRequest ''Spec URL must not resolve to private or internal IP addresses'')) (\<lambda>_.
     and_then (ok_or (ne_set_host env parsed normalized_host) (BadRequest ''Spec URL hostname is invalid'')) (\<lambda>url.
       Ok \<lparr>sf_url = url, sf_host = normalized_host, sf_resolved_addrs = resolved_addrs,
           sf_requires_dns_pinning = requires_dns_pinning\<rparr>))))))))))"

definition SPEC_FETCH_CLIENT :: http_client where
  "SPEC_FETCH_CLIENT = \<lparr>hc_follows_redirects = False, hc_no_proxy = False, hc_overrides = []\<rparr>"

definition build_pinned_spec_fetch_client :: "net_env \<Rightarrow> spec_fetch_target \<Rightarrow> app_error + http_client" where
  "build_pinned_spec_fetch_client env target =
     map_err (\<lambda>e. Internal (''Failed to build pinned spec fetch client: '' @ e))
       (ne_build env \<lparr>hc_follows_redirects = False, hc_no_proxy = False,
          hc_overrides = [(sf_host target, sf_resolved_addrs target)]\<rparr>)"

text \<open>
  The request of \<open>fetch_json_spec_internal\<close>, for a URL that is neither hosted here nor cached: the
  client it is sent with and the URL it is sent to.
\<close>

definition spec_request :: "net_env \<Rightarrow> string \<Rightarrow> app_error + http_client \<times> parsed_url" where
  "spec_request env url =
     and_then (validate_spec_fetch_target env url) (\<lambda>target.
     and_then (if sf_requires_dns_pinning target then build_pinned_spec_fetch_client env target else Ok SPEC_FETCH_CLIENT)
       (\<lambda>client. Ok (client, sf_url target)))"

text \<open>The bounded read of a body that arrives in chunks; a failed read is \<open>None\<close>.\<close>

fun read_spec_body :: "nat \<Rightarrow> string option list \<Rightarrow> string \<Rightarrow> app_error + string" where
  "read_spec_body limit [] body = Ok body"
| "read_spec_body limit (None # chunks) body = Err (BadRequest ''Failed to read spec body'')"
| "read_spec_body limit (Some chunk # chunks) body =
     (if length body + length chunk > limit
      then Err (BadRequest (''Spec response exceeded the '' @ nat_str limit @ '' byte limit''))
      else read_spec_body limit chunks (body @ chunk))"

section \<open>Webhooks\<close>

definition validate_webhook_url :: "net_env \<Rightarrow> string \<Rightarrow> string \<Rightarrow> app_error + string" where
  "validate_webhook_url env url field_name =
     (let normalized = trim url in
     and_then (ok_or (ne_parse env normalized) (field_error field_name '' must be a valid URL'')) (\<lambda>parsed.
     and_then (guard_that (url_scheme parsed = ''https'') (field_error field_name '' must use https'')) (\<lambda>_.
     and_then (guard_that (url_fragment parsed = None) (field_error field_name '' must not contain a fragment'')) (\<lambda>_.
     and_then (validate_public_http_url env normalized field_name) (\<lambda>_. Ok normalized)))))"

section \<open>Media\<close>

definition MAX_MEDIA_URL_BYTES :: nat where "MAX_MEDIA_URL_BYTES = 8192"

definition fetch_failed :: app_error where
  "fetch_failed = ChannelMediaFetchFailed ''Media could not be retrieved from the approved provider''"

definition allowed_host :: "parsed_url \<Rightarrow> string list \<Rightarrow> bool" where
  "allowed_host u hosts = (case url_host_str u of
     None \<Rightarrow> False
   | Some host \<Rightarrow> list_ex (\<lambda>allowed. case strip_prefix ''*.'' allowed of
         Some suff \<Rightarrow> ends_with (CHR ''.'' # suff) host \<and> length host > length suff + 1
       | None \<Rightarrow> eq_ignore_ascii_case host allowed) hosts)"

text \<open>
  \<open>media_client\<close>, without the origin that tests trust. The second lookup is the one the client uses;
  the deadline over the whole call is \<open>timed_out\<close>.
\<close>

definition media_client :: "net_env \<Rightarrow> bool \<Rightarrow> string \<Rightarrow> string list option \<Rightarrow> app_error + http_client" where
  "media_client env timed_out target hosts =
     (if timed_out then Err fetch_failed
      else if length target > MAX_MEDIA_URL_BYTES then Err fetch_failed
      else and_then (ok_or (ne_parse env target) fetch_failed) (\<lambda>parsed.
      if url_scheme parsed \<noteq> ''https''
         \<or> url_fragment parsed \<noteq> None
         \<or> hosts \<noteq> None \<and> port_or_known_default parsed \<noteq> Some 443
         \<or> (case hosts of None \<Rightarrow> False | Some hs \<Rightarrow> \<not> allowed_host parsed hs)
      then Err fetch_failed
      else and_then (map_err (\<lambda>_. fetch_failed)
          (validate_public_http_url_with_limit env target ''Media URL'' MAX_MEDIA_URL_BYTES)) (\<lambda>_.
        and_then (ok_or (url_host_str parsed) fetch_failed) (\<lambda>host.
        and_then (ok_or (port_or_known_default parsed) fetch_failed) (\<lambda>port.
        and_then (map_err (\<lambda>_. fetch_failed) (ne_lookup env 1 host port)) (\<lambda>addresses.
          if addresses = [] \<or> list_ex is_private_or_internal_ip addresses then Err fetch_failed
          else map_err (\<lambda>_. fetch_failed)
            (ne_build env \<lparr>hc_follows_redirects = False, hc_no_proxy = True, hc_overrides = [(host, addresses)]\<rparr>)))))))"

text \<open>The request of \<open>download\<close>: its client, and the target it asks that client for.\<close>

definition download_request ::
  "net_env \<Rightarrow> bool \<Rightarrow> string \<Rightarrow> string list \<Rightarrow> nat option \<Rightarrow> nat \<Rightarrow> app_error + http_client \<times> parsed_url" where
  "download_request env timed_out target hosts declared_size max_bytes =
     and_then (media_client env timed_out target (Some hosts)) (\<lambda>client.
     if (case declared_size of None \<Rightarrow> False | Some n \<Rightarrow> n > max_bytes) then Err ChannelMediaTooLarge
     else and_then (ok_or (ne_parse env target) fetch_failed) (\<lambda>u. Ok (client, u)))"

end
