(* ===== verification/Url_Validation_Properties.thy ===== *)
theory Url_Validation_Properties
  imports Url_Validation
begin

text \<open>
  What the guards of outgoing URLs promise: the refused addresses are exactly a list of CIDR blocks, a
  URL is accepted exactly when all its conditions hold, and the clients built from a validated URL are
  pinned to addresses that passed.
\<close>

section \<open>Blocks\<close>

definition in_block :: "'a::len word \<Rightarrow> nat \<Rightarrow> 'a word \<Rightarrow> bool" where
  "in_block base plen a \<longleftrightarrow> drop_bit (LENGTH('a) - plen) a = drop_bit (LENGTH('a) - plen) base"

definition internal_v4_blocks :: "(nat list \<times> nat) list" where
  "internal_v4_blocks =
     [([0, 0, 0, 0], 32), ([10, 0, 0, 0], 8), ([100, 64, 0, 0], 10), ([127, 0, 0, 0], 8), ([169, 254, 0, 0], 16),
      ([172, 16, 0, 0], 12), ([192, 168, 0, 0], 16), ([255, 255, 255, 255], 32)]"

definition internal_v6_blocks :: "(nat list \<times> nat) list" where
  "internal_v6_blocks =
     [([0, 0, 0, 0, 0, 0, 0, 0], 128), ([0, 0, 0, 0, 0, 0, 0, 1], 128),
      ([0xfc00, 0, 0, 0, 0, 0, 0, 0], 7), ([0xfe80, 0, 0, 0, 0, 0, 0, 0], 10)]"

text \<open>The IPv4 blocks count again inside \<open>::ffff:0:0/96\<close>.\<close>

fun internal_address :: "ip_addr \<Rightarrow> bool" where
  "internal_address (V4 a) \<longleftrightarrow> (\<exists>(base, plen)\<in>set internal_v4_blocks. in_block (ipv4_of base) plen a)"
| "internal_address (V6 a) \<longleftrightarrow>
     (\<exists>(base, plen)\<in>set internal_v6_blocks. in_block (ipv6_of base) plen a)
     \<or> in_block (ipv6_of [0, 0, 0, 0, 0, 0xffff, 0, 0]) 96 a
       \<and> (\<exists>(base, plen)\<in>set internal_v4_blocks. in_block (ipv4_of base) plen (ucast a))"

lemma octet_unat: "unat (octet 0 a) = unat a div 16777216" "unat (octet (Suc 0) a) = unat a div 65536 mod 256"
proof -
  have "unat a < 4294967296" using unsigned_less [of a, where ?'a = nat] by simp
  then have "unat a div 16777216 < 256" by linarith
  then show "unat (octet 0 a) = unat a div 16777216"
    by (simp add: octet_def unsigned_ucast_eq unat_drop_bit_eq drop_bit_eq_div [where ?'a = nat] take_bit_eq_mod)
  show "unat (octet (Suc 0) a) = unat a div 65536 mod 256"
    by (simp add: octet_def unsigned_ucast_eq unat_drop_bit_eq drop_bit_eq_div [where ?'a = nat] take_bit_eq_mod)
qed

lemma in_block_unat: "in_block base plen a \<longleftrightarrow>
    unat a div 2 ^ (LENGTH('a) - plen) = unat base div 2 ^ (LENGTH('a) - plen)" for a :: "'a::len word"
  by (simp add: in_block_def word_unat_eq_iff unat_drop_bit_eq drop_bit_eq_div [where ?'a = nat])

lemma word8_eq: "x = numeral k \<longleftrightarrow> unat x = unat (numeral k :: 8 word)" for x :: "8 word"
  by (simp add: word_unat_eq_iff)

text \<open>Two octets as one number.\<close>

lemma octet_pair:
  fixes m :: nat
  shows "m div 256 = 172 \<and> 16 \<le> m mod 256 \<and> m mod 256 \<le> 31 \<longleftrightarrow> m div 16 = 2753"
    and "m div 256 = 100 \<and> 64 \<le> m mod 256 \<and> m mod 256 \<le> 127 \<longleftrightarrow> m div 64 = 401"
    and "m div 256 = 192 \<and> m mod 256 = 168 \<longleftrightarrow> m = 49320"
    and "m div 256 = 169 \<and> m mod 256 = 254 \<longleftrightarrow> m = 43518"
proof -
  have b: "m div 256 = h \<longleftrightarrow> 256 * h \<le> m \<and> m < 256 * h + 256" for h by auto
  have r: "m mod 256 = m - 256 * h" if "m div 256 = h" for h
    using that by (metis minus_mult_div_eq_mod)
  show "m div 256 = 172 \<and> 16 \<le> m mod 256 \<and> m mod 256 \<le> 31 \<longleftrightarrow> m div 16 = 2753"
  proof -
    have "m div 16 = 2753 \<longleftrightarrow> 44048 \<le> m \<and> m < 44064" by auto
    then show ?thesis using r [of 172] unfolding b by auto
  qed
  show "m div 256 = 100 \<and> 64 \<le> m mod 256 \<and> m mod 256 \<le> 127 \<longleftrightarrow> m div 64 = 401"
  proof -
    have "m div 64 = 401 \<longleftrightarrow> 25664 \<le> m \<and> m < 25728" by auto
    then show ?thesis using r [of 100] unfolding b by auto
  qed
  show "m div 256 = 192 \<and> m mod 256 = 168 \<longleftrightarrow> m = 49320" using r [of 192] unfolding b by auto
  show "m div 256 = 169 \<and> m mod 256 = 254 \<longleftrightarrow> m = 43518" using r [of 169] unfolding b by auto
qed

lemma private_v4_iff:
  "private_v4 a \<longleftrightarrow> (\<exists>(base, plen)\<in>set internal_v4_blocks. in_block (ipv4_of base) plen a)"
proof -
  define n where "n = unat a"
  have n: "n < 4294967296" using unsigned_less [of a, where ?'a = nat] by (simp add: n_def)
  have "private_v4 a \<longleftrightarrow> n div 16777216 = 127
     \<or> (n div 16777216 = 10 \<or> n div 16777216 = 172 \<and> 16 \<le> n div 65536 mod 256 \<and> n div 65536 mod 256 \<le> 31
        \<or> n div 16777216 = 192 \<and> n div 65536 mod 256 = 168)
     \<or> n div 16777216 = 169 \<and> n div 65536 mod 256 = 254 \<or> n = 0 \<or> n = 4294967295
     \<or> n div 16777216 = 100 \<and> 64 \<le> n div 65536 mod 256 \<and> n div 65536 mod 256 \<le> 127"
    by (simp add: private_v4_def v4_is_loopback_def v4_is_private_def v4_is_link_local_def v4_is_unspecified_def
        v4_is_broadcast_def is_rfc6598_cgnat_def word8_eq word_le_nat_alt octet_unat n_def [symmetric])
      (simp add: word_unat_eq_iff n_def)
  also have "\<dots> \<longleftrightarrow> n = 0 \<or> n div 16777216 = 10 \<or> n div 4194304 = 401 \<or> n div 16777216 = 127
     \<or> n div 65536 = 43518 \<or> n div 1048576 = 2753 \<or> n div 65536 = 49320 \<or> n = 4294967295"
  proof -
    define m where "m = n div 65536"
    have d: "n div 16777216 = m div 256" "n div 4194304 = m div 64" "n div 1048576 = m div 16" "n div 65536 = m"
      by (simp_all add: m_def div_mult2_eq [symmetric])
    show ?thesis unfolding d using octet_pair [of m] by metis
  qed
  also have "\<dots> \<longleftrightarrow> (\<exists>(base, plen)\<in>set internal_v4_blocks. in_block (ipv4_of base) plen a)"
    by (simp add: internal_v4_blocks_def in_block_unat ipv4_of_def n_def)
  finally show ?thesis .
qed

lemma and_not_mask_unat: "unat (x AND NOT (mask n)) = unat x div 2 ^ n * 2 ^ n" for x :: "'a::len word"
proof -
  have "x AND NOT (mask n) = push_bit n (drop_bit n x)" by (auto simp: bit_eq_iff bit_simps)
  then have "unat (x AND NOT (mask n)) = take_bit LENGTH('a) (unat x div 2 ^ n * 2 ^ n)"
    by (simp add: unsigned_push_bit_eq unat_drop_bit_eq drop_bit_eq_div [where ?'a = nat] push_bit_eq_mult [where ?'a = nat])
  moreover have "unat x div 2 ^ n * 2 ^ n < 2 ^ LENGTH('a)"
    using unsigned_less [of x, where ?'a = nat] div_times_less_eq_dividend [of "unat x" "2 ^ n"] by linarith
  ultimately show ?thesis by (simp add: take_bit_nat_eq_self)
qed

lemma segment_unat: "unat (segment 0 a) = unat a div 2 ^ 112"
proof -
  have "unat a < 2 ^ 112 * 65536" using unsigned_less [of a, where ?'a = nat] by simp
  then have "unat a div 2 ^ 112 < 65536" by (rule less_mult_imp_div_less [of _ 65536 "2 ^ 112", unfolded mult.commute [of 65536]])
  then show ?thesis
    by (simp add: segment_def unsigned_ucast_eq unat_drop_bit_eq drop_bit_eq_div [where ?'a = nat] take_bit_eq_mod)
qed

lemma segment_fc00: "segment 0 a AND 0xfe00 = 0xfc00 \<longleftrightarrow> unat a div 2 ^ 121 = 126"
proof -
  have m: "(0xfe00 :: 16 word) = NOT (mask 9)" by code_simp
  have "segment 0 a AND 0xfe00 = 0xfc00 \<longleftrightarrow> unat (segment 0 a AND NOT (mask 9)) = 64512"
    unfolding m by (simp add: word_unat_eq_iff)
  also have "\<dots> \<longleftrightarrow> unat (segment 0 a) div 512 = 126" unfolding and_not_mask_unat by simp
  also have "\<dots> \<longleftrightarrow> unat a div 2 ^ 121 = 126" by (simp add: segment_unat div_mult2_eq [symmetric])
  finally show ?thesis .
qed

lemma segment_fe80: "segment 0 a AND 0xffc0 = 0xfe80 \<longleftrightarrow> unat a div 2 ^ 118 = 1018"
proof -
  have m: "(0xffc0 :: 16 word) = NOT (mask 6)" by code_simp
  have "segment 0 a AND 0xffc0 = 0xfe80 \<longleftrightarrow> unat (segment 0 a AND NOT (mask 6)) = 65152"
    unfolding m by (simp add: word_unat_eq_iff)
  also have "\<dots> \<longleftrightarrow> unat (segment 0 a) div 64 = 1018" unfolding and_not_mask_unat by simp
  also have "\<dots> \<longleftrightarrow> unat a div 2 ^ 118 = 1018" by (simp add: segment_unat div_mult2_eq [symmetric])
  finally show ?thesis .
qed

lemma private_ip_internal: "is_private_or_internal_ip ip \<longleftrightarrow> internal_address ip"
proof (cases ip)
  case (V4 a)
  then show ?thesis by (simp add: private_v4_iff)
next
  case (V6 a)
  have "v6_is_loopback a \<or> v6_is_unspecified a \<or> segment 0 a AND 0xfe00 = 0xfc00 \<or> segment 0 a AND 0xffc0 = 0xfe80
      \<longleftrightarrow> (\<exists>(base, plen)\<in>set internal_v6_blocks. in_block (ipv6_of base) plen a)"
    unfolding segment_fc00 segment_fe80
    by (auto simp: internal_v6_blocks_def in_block_unat ipv6_of_def v6_is_loopback_def v6_is_unspecified_def
        word_unat_eq_iff)
  moreover have "to_ipv4_mapped a = (if in_block (ipv6_of [0, 0, 0, 0, 0, 0xffff, 0, 0]) 96 a then Some (ucast a) else None)"
    by (simp add: to_ipv4_mapped_def in_block_def ipv6_of_def)
  ultimately show ?thesis by (auto simp: V6 private_v4_iff)
qed

text \<open>
  The refused addresses are exactly the listed blocks. An address is private or internal precisely
  when it is the unspecified or the broadcast address or lies in 10/8, 100.64/10, 127/8, 169.254/16,
  172.16/12 or 192.168/16, or is \<open>::\<close> or \<open>::1\<close> or lies in fc00::/7 or fe80::/10, or is an IPv4-mapped
  IPv6 address of the former.
\<close>

theorem private_ip_iff_internal: "is_private_or_internal_ip ip \<longleftrightarrow> internal_address ip"
  by (rule private_ip_internal)

section \<open>Accepted URLs\<close>

definition resolves :: "net_env \<Rightarrow> string \<Rightarrow> nat \<Rightarrow> ip_addr list \<Rightarrow> bool" where
  "resolves env host port addrs \<longleftrightarrow> (case parse_ip host of
     Some ip \<Rightarrow> addrs = [ip] | None \<Rightarrow> ne_lookup env 0 host port = Ok addrs)"

definition public_addresses :: "ip_addr list \<Rightarrow> bool" where
  "public_addresses addrs \<longleftrightarrow> addrs \<noteq> [] \<and> (\<forall>ip\<in>set addrs. \<not> internal_address ip)"

definition public_url :: "net_env \<Rightarrow> string \<Rightarrow> nat \<Rightarrow> bool" where
  "public_url env url max_len \<longleftrightarrow> length url \<le> max_len
     \<and> (\<exists>u host port addrs. ne_parse env url = Some u \<and> url_scheme u \<in> {''http'', ''https''}
          \<and> url_username u = [] \<and> url_password u = None
          \<and> url_host_str u = Some host \<and> normalize_host host \<notin> {''localhost'', ''metadata.google.internal''}
          \<and> port_or_known_default u = Some port
          \<and> resolves env (normalize_host host) port addrs \<and> public_addresses addrs)"

lemma guard_that_Ok [simp]: "guard_that b e = Ok u \<longleftrightarrow> b"
  by (simp add: guard_that_def)

lemma reject_url_userinfo_Ok [simp]: "reject_url_userinfo u = Ok v \<longleftrightarrow> url_username u = [] \<and> url_password u = None"
  by (auto simp: reject_url_userinfo_def)

lemma none_internal: "addrs \<noteq> [] \<and> \<not> list_ex is_private_or_internal_ip addrs \<longleftrightarrow> public_addresses addrs"
  by (auto simp: public_addresses_def list_ex_iff private_ip_internal)

lemma resolve_Ok:
  "(case parse_ip host of Some ip \<Rightarrow> Ok [ip] | None \<Rightarrow> map_err f (ne_lookup env 0 host port)) = Ok addrs
     \<longleftrightarrow> resolves env host port addrs"
  by (auto simp: resolves_def split: option.splits)

lemma public_url_accepted:
  "validate_public_http_url_with_limit env url field_name max_len = Ok () \<longleftrightarrow> public_url env url max_len"
  by (auto simp: validate_public_http_url_with_limit_def public_url_def Let_def is_http_def resolve_Ok
      none_internal [symmetric])

text \<open>
  A URL is accepted as public exactly when it is. The check of a public URL passes if and only if
  the URL is short enough, parses with scheme http or https and no user information, names a host
  that is not one of the internal names, and every address the host stands for or resolves to, of
  which there is at least one, lies outside the internal blocks.
\<close>

theorem public_url_accepted_iff:
  "validate_public_http_url_with_limit env url field_name max_len = Ok () \<longleftrightarrow> public_url env url max_len"
  by (rule public_url_accepted)

section \<open>Pinned clients\<close>

text \<open>
  What the libraries promise. A host in the form URLs are written back in, but an IPv6 literal, is
  printable ASCII without brackets and colons; setting the normalized host of a parsed URL gives a URL
  of that host. Resolving an address literal gives that address. A client that does not follow
  redirects and uses no proxy connects to the address its URL's host spells, and else, when it was
  given addresses for that host, to one of them.
\<close>

definition plain_host :: "string \<Rightarrow> bool" where
  "plain_host h \<longleftrightarrow> list_all (\<lambda>c. 32 < byte c \<and> byte c < 127 \<and> c \<notin> {CHR ''['', CHR '']'', CHR '':''}) h"

definition literal_ip :: "string \<Rightarrow> ip_addr option" where
  "literal_ip h = parse_ip (if starts_with ''['' h \<and> ends_with '']'' h then butlast (tl h) else h)"

definition set_host_law :: "net_env \<Rightarrow> bool" where
  "set_host_law env \<longleftrightarrow> (\<forall>url u h u'. ne_parse env url = Some u \<and> url_host_str u = Some h \<and> plain_host h
     \<and> ne_set_host env u (normalize_host h) = Some u' \<longrightarrow> url_host_str u' = Some (normalize_host h))"

definition resolver_law :: "net_env \<Rightarrow> bool" where
  "resolver_law env \<longleftrightarrow> (\<forall>n h port a addrs. literal_ip h = Some a \<and> ne_lookup env n h port = Ok addrs \<longrightarrow> set addrs \<subseteq> {a})"

definition build_law :: "net_env \<Rightarrow> bool" where
  "build_law env \<longleftrightarrow> (\<forall>options client. ne_build env options = Ok client \<longrightarrow> client = options)"

definition client_law :: "(http_client \<Rightarrow> parsed_url \<Rightarrow> ip_addr \<Rightarrow> bool) \<Rightarrow> bool \<Rightarrow> bool" where
  "client_law connects system_proxy \<longleftrightarrow> (\<forall>client u h ip. connects client u ip \<and> url_host_str u = Some h
       \<and> \<not> hc_follows_redirects client \<and> (hc_no_proxy client \<or> \<not> system_proxy) \<longrightarrow>
     (case literal_ip h of
        Some a \<Rightarrow> ip = a
      | None \<Rightarrow> \<forall>addrs. (h, addrs) \<in> set (hc_overrides client) \<longrightarrow> ip \<in> set addrs))"

lemma drop_ws_plain:
  assumes "list_all (\<lambda>c. 32 < byte c \<and> byte c < 127) s"
    and "\<forall>w\<in>set codes. w \<noteq> [] \<and> \<not> (32 < byte (hd w) \<and> byte (hd w) < 127)"
  shows "drop_ws codes n s = s"
proof (cases n)
  case (Suc m)
  have "strip_prefix w s = None" if "w \<in> set codes" for w
  proof (rule ccontr)
    assume "strip_prefix w s \<noteq> None"
    then obtain t where "s = w @ t" by (auto simp: strip_prefix_iff)
    with that assms show False by (cases w) (auto simp: list_all_iff)
  qed
  then have "find_map (\<lambda>w. strip_prefix w s) codes = None" by (induction codes) auto
  then show ?thesis using Suc by simp
qed simp

lemma trim_plain:
  assumes "list_all (\<lambda>c. 32 < byte c \<and> byte c < 127) s"
  shows "trim s = s"
proof -
  have "\<forall>w\<in>set ws_codes. w \<noteq> [] \<and> \<not> (32 < byte (hd w) \<and> byte (hd w) < 127)"
    "\<forall>w\<in>set (map rev ws_codes). w \<noteq> [] \<and> \<not> (32 < byte (hd w) \<and> byte (hd w) < 127)" by code_simp+
  moreover have "list_all (\<lambda>c. 32 < byte c \<and> byte c < 127) (rev s)" using assms by (simp add: list_all_iff)
  ultimately show ?thesis using assms by (simp add: trim_def trim_start_def trim_end_def drop_ws_plain)
qed

lemma dropWhile_absent: "x \<notin> set xs \<Longrightarrow> dropWhile (\<lambda>c. c = x) xs = xs"
  by (cases xs) auto

lemma strip_dots:
  "CHR '']'' \<notin> set h \<Longrightarrow> CHR ''['' \<notin> set h \<Longrightarrow> trim_host h = rev (dropWhile (\<lambda>c. c = CHR ''.'') (rev h))"
  unfolding trim_host_def by (simp add: dropWhile_absent)

lemma to_lower_plain: "to_lower c = d \<longleftrightarrow> c = d" if "d \<in> {CHR ''['', CHR '']'', CHR ''.''}"
proof (cases "is_ascii_uppercase c")
  case True
  then have "byte (to_lower c) = byte c + 32" "65 \<le> byte c" "byte c \<le> 90"
    by (simp_all add: to_lower_def is_ascii_uppercase_def byte_def of_char_of)
  moreover have "byte d \<in> {91, 93, 46}" using that by (auto simp: byte_def)
  ultimately have "byte (to_lower c) \<noteq> byte d" "byte c \<noteq> byte d" by auto
  then show ?thesis by auto
qed (simp add: to_lower_def)

lemma normalize_plain:
  assumes "plain_host h"
  shows "normalize_host (normalize_host h) = normalize_host h" and "\<not> starts_with ''['' (normalize_host h)"
proof -
  define m where "m = rev (dropWhile (\<lambda>c. c = CHR ''.'') (rev h))"
  have sub: "set m \<subseteq> set h" unfolding m_def using set_dropWhileD by fastforce
  have printable: "list_all (\<lambda>c. 32 < byte c \<and> byte c < 127) h" "list_all (\<lambda>c. 32 < byte c \<and> byte c < 127) m"
    and out: "CHR '']'' \<notin> set h" "CHR ''['' \<notin> set h"
    using assms sub by (auto simp: plain_host_def list_all_iff)
  have n: "normalize_host h = map to_lower m"
    by (simp add: normalize_host_def trim_plain [OF printable(1)] strip_dots [OF out] m_def to_ascii_lowercase_def)
  have bracket: "d \<notin> set (map to_lower m)" if "d \<in> {CHR ''['', CHR '']''}" for d
    using that out sub to_lower_plain [of d] by auto
  have "trim (map to_lower m) = map to_lower m"
    using trim_lower [of m] trim_plain [OF printable(2)] by (simp add: to_ascii_lowercase_def)
  moreover have "trim_host (map to_lower m) = map to_lower m"
  proof -
    have "dropWhile (\<lambda>c. c = CHR ''.'') (rev (map to_lower m)) = map to_lower (dropWhile (\<lambda>c. c = CHR ''.'') (rev m))"
      by (simp add: rev_map dropWhile_map o_def to_lower_plain)
    also have "\<dots> = rev (map to_lower m)" by (simp add: m_def rev_map dropWhile_idem)
    finally show ?thesis using strip_dots [of "map to_lower m"] bracket by simp
  qed
  ultimately show "normalize_host (normalize_host h) = normalize_host h"
    using to_ascii_case_idem(1) [of m] unfolding n by (simp add: normalize_host_def to_ascii_lowercase_def)
  show "\<not> starts_with ''['' (normalize_host h)"
    unfolding n using bracket [of "CHR ''[''"] by (auto simp: starts_with_iff)
qed

lemma spec_connects_public:
  assumes "set_host_law env" "resolver_law env" "build_law env" "client_law connects system_proxy"
    and req: "spec_request env url = Ok (client, u)" and c: "connects client u ip" "\<not> system_proxy"
    and p: "ne_parse env url = Some p" "url_host_str p = Some h" "plain_host h"
  shows "\<not> internal_address ip"
proof -
  let ?h = "normalize_host h"
  obtain t where t: "validate_spec_fetch_target env url = Ok t" "u = sf_url t"
    and client: "(if sf_requires_dns_pinning t then build_pinned_spec_fetch_client env t else Ok SPEC_FETCH_CLIENT) = Ok client"
    using req by (auto simp: spec_request_def)
  obtain port where port: "port_or_known_default p = Some port"
    using t(1) p(1,2) by (cases "port_or_known_default p") (auto simp: validate_spec_fetch_target_def Let_def)
  obtain addrs pin where r: "resolve_fetch_host_socket_addrs env ?h port = Ok (addrs, pin)"
    using t(1) p(1,2) port
    by (cases "resolve_fetch_host_socket_addrs env ?h port") (auto simp: validate_spec_fetch_target_def Let_def)
  obtain v where set: "ne_set_host env p ?h = Some v"
    using t(1) p(1,2) port r by (cases "ne_set_host env p ?h") (auto simp: validate_spec_fetch_target_def Let_def)
  have checked: "addrs \<noteq> [] \<and> \<not> list_ex is_private_or_internal_ip addrs"
    and t': "t = \<lparr>sf_url = u, sf_host = ?h, sf_resolved_addrs = addrs, sf_requires_dns_pinning = pin\<rparr>" and u: "v = u"
    using t p(1,2) port r set by (auto simp: validate_spec_fetch_target_def Let_def)
  note pub = checked [unfolded none_internal] and set = set [unfolded u]
  have host: "url_host_str u = Some ?h" using assms(1) p set unfolding set_host_law_def by blast
  have lit: "literal_ip ?h = parse_ip ?h" using normalize_plain(2) [OF p(3)] by (simp add: literal_ip_def)
  have built: "ne_build env options = Ok client \<Longrightarrow> client = options" for options
    using assms(3) by (simp add: build_law_def)
  have opts: "\<not> hc_follows_redirects client" "pin \<Longrightarrow> hc_overrides client = [(?h, addrs)]"
    using client
    by (auto simp: t' build_pinned_spec_fetch_client_def SPEC_FETCH_CLIENT_def dest!: built split: if_split_asm)
  have conn: "case literal_ip ?h of Some a \<Rightarrow> ip = a | None \<Rightarrow> \<forall>addrs. (?h, addrs) \<in> set (hc_overrides client) \<longrightarrow> ip \<in> set addrs"
    using assms(4) c host opts(1) unfolding client_law_def by blast
  have "ip \<in> set addrs"
  proof (cases "parse_ip ?h")
    case (Some a)
    then show ?thesis using r conn by (auto simp: resolve_fetch_host_socket_addrs_def normalize_plain(1) [OF p(3)] lit)
  next
    case None
    then have pin using r by (auto simp: resolve_fetch_host_socket_addrs_def normalize_plain(1) [OF p(3)])
    then show ?thesis using conn opts(2) None lit by simp
  qed
  then show ?thesis using pub by (simp add: public_addresses_def)
qed

lemma media_connects_public:
  assumes "resolver_law env" "build_law env" "client_law connects system_proxy"
    and req: "download_request env timed_out url hosts declared max_bytes = Ok (client, u)" and c: "connects client u ip"
  shows "\<not> internal_address ip \<and> public_url env url MAX_MEDIA_URL_BYTES
        \<and> ne_parse env url = Some u \<and> url_scheme u = ''https'' \<and> allowed_host u hosts \<and> pred_option (\<lambda>n. n \<le> max_bytes) declared"
proof -
  have m: "media_client env timed_out url (Some hosts) = Ok client" and u: "ne_parse env url = Some u"
    and size: "pred_option (\<lambda>n. n \<le> max_bytes) declared"
    using req by (auto simp: download_request_def split: if_split_asm option.splits)
  obtain host where host: "url_host_str u = Some host"
    using m u by (cases "url_host_str u") (auto simp: media_client_def split: if_split_asm)
  obtain port where port: "port_or_known_default u = Some port"
    using m u host by (cases "port_or_known_default u") (auto simp: media_client_def split: if_split_asm)
  obtain addrs where l: "ne_lookup env 1 host port = Ok addrs"
    using m u host port by (cases "ne_lookup env 1 host port") (auto simp: media_client_def split: if_split_asm)
  have valid: "validate_public_http_url_with_limit env url ''Media URL'' MAX_MEDIA_URL_BYTES = Ok ()"
    and media: "url_scheme u = ''https''" "allowed_host u hosts"
    and checked: "addrs \<noteq> [] \<and> \<not> list_ex is_private_or_internal_ip addrs"
    and b: "ne_build env \<lparr>hc_follows_redirects = False, hc_no_proxy = True, hc_overrides = [(host, addrs)]\<rparr> = Ok client"
    using m u host port l by (auto simp: media_client_def split: if_split_asm)
  note pub = checked [unfolded none_internal] and public = valid [unfolded public_url_accepted]
  have "client = \<lparr>hc_follows_redirects = False, hc_no_proxy = True, hc_overrides = [(host, addrs)]\<rparr>"
    using assms(2) b unfolding build_law_def by blast
  then have conn: "case literal_ip host of Some a \<Rightarrow> ip = a | None \<Rightarrow> ip \<in> set addrs"
    using assms(3) c host unfolding client_law_def by (fastforce split: option.splits)
  have "ip \<in> set addrs"
  proof (cases "literal_ip host")
    case (Some a)
    then have "set addrs \<subseteq> {a}" using assms(1) l unfolding resolver_law_def by blast
    moreover have "addrs \<noteq> []" using pub by (simp add: public_addresses_def)
    ultimately show ?thesis using conn Some by (cases addrs) auto
  qed (use conn in simp)
  then show ?thesis using pub media public u size by (simp add: public_addresses_def)
qed


definition parsed_host :: "string \<Rightarrow> string \<Rightarrow> parsed_url" where
  "parsed_host scheme host = \<lparr>url_scheme = scheme, url_username = [], url_password = None, url_path = ''/'',
     url_query = None, url_fragment = None, url_port = None, url_host_str = Some host, url_origin = []\<rparr>"

text \<open>
  A resolver that answers with a public address twice and then with the metadata endpoint, and the
  client that resolves every host it was given no address for.
\<close>

definition demo_net :: net_env where
  "demo_net = \<lparr>ne_parse = (\<lambda>url. if url = ''http://168.63.129.16/'' then Some (parsed_host ''http'' ''168.63.129.16'')
       else if url = ''http://[::ffff:169.254.169.254]/'' then Some (parsed_host ''http'' ''[::ffff:a9fe:a9fe]'')
       else Some (parsed_host ''https'' ''cdn.example.com.'')),
     ne_set_host = (\<lambda>u h. Some (u\<lparr>url_host_str := Some h\<rparr>)),
     ne_lookup = (\<lambda>n h _. if literal_ip h \<noteq> None then Err ''not a name''
       else Ok [V4 (ipv4_of (if n < 2 then [93, 184, 216, 34] else [169, 254, 169, 254]))]),
     ne_build = Ok\<rparr>"

definition demo_connects :: "http_client \<Rightarrow> parsed_url \<Rightarrow> ip_addr \<Rightarrow> bool" where
  "demo_connects client u ip \<longleftrightarrow> (case url_host_str u of None \<Rightarrow> False
     | Some h \<Rightarrow> (case literal_ip h of
         Some a \<Rightarrow> ip = a
       | None \<Rightarrow> if hc_overrides client = [] then ip = V4 (ipv4_of [169, 254, 169, 254])
           else list_all (\<lambda>(name, addrs). name \<noteq> h \<or> ip \<in> set addrs) (hc_overrides client)))"

lemma demo_net_laws: "set_host_law demo_net" "resolver_law demo_net" "build_law demo_net" "client_law demo_connects system_proxy"
  by (auto simp: set_host_law_def resolver_law_def build_law_def client_law_def demo_net_def demo_connects_def list_all_iff
      split: option.splits if_splits)


text \<open>
  Two validators disagree about metadata endpoints. The address 168.63.129.16, which the base URL
  check refuses as a cloud metadata endpoint, passes the stricter check of public URLs; and the base
  URL check accepts 169.254.169.254 written as an IPv4-mapped IPv6 address, which it refuses in
  dotted form.
\<close>

theorem metadata_guards_disagree:
  "validate_public_http_url demo_net ''http://168.63.129.16/'' ''url'' = Ok ()
   \<and> is_cloud_metadata_host ''168.63.129.16'' \<and> \<not> is_ok (validate_base_url demo_net ''http://168.63.129.16/'')
   \<and> validate_base_url demo_net ''http://[::ffff:169.254.169.254]/'' = Ok ()
   \<and> Option.bind (parse_ip (normalize_host ''[::ffff:a9fe:a9fe]''))
        (\<lambda>ip. case ip of V6 a \<Rightarrow> to_ipv4_mapped a | V4 a \<Rightarrow> None) = Some (ipv4_of [169, 254, 169, 254])
   \<and> is_cloud_metadata_host ''169.254.169.254''"
  by code_simp

end
