(* ===== verification/Hash_Chain.thy ===== *)
theory Hash_Chain
  imports Prelude
begin

text \<open>
  Hash-chained records: what the audit log and the billing ledger have in common. A chain is a list of
  records at consecutive positions, each of which carries the hash of the one before and the hash of
  its own canonical bytes.

  The locale's laws are what a record type provides: the hash of a record is the code of its
  canonical bytes, and the canonical bytes of well-formed records commit to the position and to the
  previous hash.
\<close>

fun linked ::
  "('e \<Rightarrow> int) \<Rightarrow> ('e \<Rightarrow> string) \<Rightarrow> ('e \<Rightarrow> string) \<Rightarrow> ('e \<Rightarrow> string) \<Rightarrow> int \<Rightarrow> string \<Rightarrow> 'e list \<Rightarrow> bool"
where
  "linked seq prev stored digest n h [] \<longleftrightarrow> True"
| "linked seq prev stored digest n h (e # es) \<longleftrightarrow>
     seq e = n \<and> prev e = h \<and> stored e = digest e \<and> linked seq prev stored digest (n + 1) (stored e) es"

fun end_hash :: "('e \<Rightarrow> string) \<Rightarrow> string \<Rightarrow> 'e list \<Rightarrow> string" where
  "end_hash stored h [] = h"
| "end_hash stored h (e # es) = end_hash stored (stored e) es"

lemma end_hash_snoc [simp]: "end_hash stored h (es @ [e]) = stored e"
  by (induction es arbitrary: h) auto

lemma end_hash_append [simp]: "end_hash stored h (es @ fs) = end_hash stored (end_hash stored h es) fs"
  by (induction es arbitrary: h) auto

lemma end_hash_last: "es \<noteq> [] \<Longrightarrow> end_hash stored h es = stored (last es)"
  by (induction es arbitrary: h) auto

lemma linked_append [simp]:
  "linked seq prev stored digest n h (es @ fs) \<longleftrightarrow>
     linked seq prev stored digest n h es
     \<and> linked seq prev stored digest (n + int (length es)) (end_hash stored h es) fs"
  by (induction es arbitrary: n h) (auto simp: algebra_simps)

lemma linked_seq: "linked seq prev stored digest n h es \<Longrightarrow> i < length es \<Longrightarrow> seq (es ! i) = n + int i"
  by (induction es arbitrary: n h i) (auto simp: nth_Cons split: nat.split)

lemma linked_map_seq: "linked seq prev stored digest n h es \<Longrightarrow> map seq es = map (\<lambda>i. n + int i) [0..<length es]"
  by (rule nth_equalityI) (auto simp: linked_seq)

lemma linked_sorted: "linked seq prev stored digest n h es \<Longrightarrow> sorted_wrt (\<lambda>a b. seq a < seq b) es"
  by (auto simp: sorted_wrt_iff_nth_less linked_seq)

lemma linked_distinct: "linked seq prev stored digest n h es \<Longrightarrow> distinct (map seq es)"
  by (simp add: linked_map_seq distinct_map inj_on_def)

lemma linked_seq_range: "linked seq prev stored digest n h es \<Longrightarrow> seq ` set es = {n..<n + int (length es)}"
proof (induction es arbitrary: n h)
  case (Cons e es)
  then have "seq ` set es = {n + 1..<n + 1 + int (length es)}" "seq e = n" by auto
  then show ?case by auto
qed simp

lemma linked_filter_from: "linked seq prev stored digest n h es \<Longrightarrow> filter (\<lambda>e. a \<le> seq e) es = drop (nat (a - n)) es"
proof (induction es arbitrary: n h)
  case (Cons e es)
  then have IH: "filter (\<lambda>e. a \<le> seq e) es = drop (nat (a - (n + 1))) es" and "seq e = n" by auto
  moreover have "nat (a - n) = Suc (nat (a - (n + 1)))" if "\<not> a \<le> n" using that by simp
  ultimately show ?case by (cases "a \<le> n") simp_all
qed simp

lemma linked_filter_to: "linked seq prev stored digest n h es \<Longrightarrow> filter (\<lambda>e. seq e \<le> b) es = take (nat (b - n + 1)) es"
proof (induction es arbitrary: n h)
  case (Cons e es)
  then have IH: "filter (\<lambda>e. seq e \<le> b) es = take (nat (b - (n + 1) + 1)) es" and "seq e = n" by auto
  moreover have "nat (b - n + 1) = Suc (nat (b - (n + 1) + 1))" if "n \<le> b" using that by simp
  ultimately show ?case by (cases "n \<le> b") simp_all
qed simp

lemma linked_take: "linked seq prev stored digest n h es \<Longrightarrow> linked seq prev stored digest n h (take k es)"
  by (metis append_take_drop_id linked_append)

lemma linked_drop:
  "linked seq prev stored digest n h es \<Longrightarrow> k \<le> length es \<Longrightarrow>
     linked seq prev stored digest (n + int k) (end_hash stored h (take k es)) (drop k es)"
  using linked_append [of seq prev stored digest n h "take k es" "drop k es"] by simp

text \<open>The records of a range of positions, as a sorted query returns them.\<close>

lemma linked_range:
  assumes lk: "linked seq prev stored digest 1 h es"
  shows "sort_key seq (filter (\<lambda>e. a \<le> seq e \<and> (case b of None \<Rightarrow> True | Some t \<Rightarrow> seq e \<le> t)) es)
    = drop (nat (a - 1)) (case b of None \<Rightarrow> es | Some t \<Rightarrow> take (nat t) es)"
proof -
  let ?upto = "case b of None \<Rightarrow> es | Some t \<Rightarrow> take (nat t) es"
  have upto: "linked seq prev stored digest 1 h ?upto" using linked_take [OF lk] lk by (cases b) simp_all
  have take_filter: "take (nat t) es = filter (\<lambda>e. seq e \<le> t) es" for t
    using linked_filter_to [OF lk, of t] by simp
  have "filter (\<lambda>e. a \<le> seq e \<and> (case b of None \<Rightarrow> True | Some t \<Rightarrow> seq e \<le> t)) es = filter (\<lambda>e. a \<le> seq e) ?upto"
    by (cases b) (simp_all add: take_filter conj_commute)
  also have "\<dots> = drop (nat (a - 1)) ?upto" by (rule linked_filter_from [OF upto])
  finally have range: "filter (\<lambda>e. a \<le> seq e \<and> (case b of None \<Rightarrow> True | Some t \<Rightarrow> seq e \<le> t)) es = drop (nat (a - 1)) ?upto" .
  have "sorted_wrt (\<lambda>x y. seq x < seq y) (drop (nat (a - 1)) ?upto)"
    using linked_sorted [OF upto] by (metis append_take_drop_id sorted_wrt_append)
  then have "sorted (map seq (drop (nat (a - 1)) ?upto))"
    by (simp add: sorted_map sorted_wrt_mono_rel [of _ "\<lambda>x y. seq x < seq y"] del: drop_map)
  then show ?thesis by (simp add: range sort_key_id_if_sorted)
qed

lemma linked_segment:
  assumes lk: "linked seq prev stored digest 1 h es" and "1 \<le> a" "a \<le> 1 + int (length es)"
    and "case b of None \<Rightarrow> True | Some t \<Rightarrow> a \<le> t"
  shows "linked seq prev stored digest a (end_hash stored h (take (nat (a - 1)) es))
    (drop (nat (a - 1)) (case b of None \<Rightarrow> es | Some t \<Rightarrow> take (nat t) es))"
proof -
  let ?upto = "case b of None \<Rightarrow> es | Some t \<Rightarrow> take (nat t) es" and ?k = "nat (a - 1)"
  have "linked seq prev stored digest 1 h ?upto" "?k \<le> length ?upto" "take ?k ?upto = take ?k es"
    using linked_take [OF lk] lk assms(2-4) by (cases b; auto simp: min_def)+
  then have "linked seq prev stored digest (1 + int ?k) (end_hash stored h (take ?k es)) (drop ?k ?upto)"
    using linked_drop [of seq prev stored digest 1 h ?upto ?k] by simp
  then show ?thesis using assms(2) by simp
qed

locale hash_chain =
  fixes seq :: "'e \<Rightarrow> int" and prev :: "'e \<Rightarrow> string" and stored :: "'e \<Rightarrow> string"
    and canon :: "'e \<Rightarrow> string" and mac :: "string \<Rightarrow> string" and digest :: "'e \<Rightarrow> string"
    and wf :: "'e \<Rightarrow> bool"
  assumes digest_mac: "digest e = mac (canon e)"
    and commits: "wf a \<Longrightarrow> wf b \<Longrightarrow> canon a = canon b \<Longrightarrow> seq a = seq b \<and> prev a = prev b"
begin

text \<open>
  The hash at the head pins the history: two chains whose newest records carry one hash agree in
  every record's canonical bytes, as far as the shorter reaches, unless two of their records collide.
\<close>

lemma head_pins_history:
  assumes "linked seq prev stored digest n h es" "linked seq prev stored digest m k fs"
    and "end_hash stored h es = end_hash stored k fs" "length es = length fs"
    and "list_all wf es" "list_all wf fs"
    and "\<And>a b. a \<in> set es \<Longrightarrow> b \<in> set fs \<Longrightarrow> mac (canon a) = mac (canon b) \<Longrightarrow> canon a = canon b"
  shows "map canon es = map canon fs"
  using assms
proof (induction es arbitrary: fs rule: rev_induct)
  case (snoc a as)
  then obtain bs b where fs: "fs = bs @ [b]" by (metis append_is_Nil_conv length_0_conv list.distinct(1) rev_exhaust)
  have "mac (canon a) = mac (canon b)" using snoc.prems(1-3) by (simp add: fs digest_mac)
  then have ab: "canon a = canon b" using snoc.prems(7) [of a b] by (simp add: fs)
  then have "prev a = prev b" using commits snoc.prems(5,6) by (simp add: fs)
  then have "end_hash stored h as = end_hash stored k bs" using snoc.prems(1,2) by (simp add: fs)
  then have "map canon as = map canon bs" using snoc.prems snoc.IH [of bs] by (simp add: fs)
  then show ?case using ab by (simp add: fs)
qed simp

lemma snoc_linked:
  assumes "linked seq prev stored digest n h es"
  shows "linked seq prev stored digest n h (es @ [e]) \<longleftrightarrow>
    seq e = n + int (length es) \<and> prev e = end_hash stored h es \<and> stored e = digest e"
  using assms by simp

end

end
