(* ===== verification/Ledger.thy ===== *)
theory Ledger
  imports Service_Billing Credit_Amounts App_Error Rust_Time Hash_Chain
begin

text \<open>
  The billing ledger (\<open>services/billing/ledger.rs\<close>, \<open>models/billing_ledger.rs\<close>): double-entry
  transactions in a hash-chained log, appended in groups that commit together with the signed balance
  checkpoints of their accounts, and the verification of the chain.

  A \<open>DateTime<Utc>\<close> is its number of nanoseconds since the epoch. HMAC-SHA256 in hexadecimal and the
  text of a foreign \<open>Decimal128\<close> are the fields of \<open>ledger_env\<close>. A database transaction is atomic: it
  reads one snapshot, and its writes are applied together or not at all.
\<close>

record ledger_env =
  le_hmac_hex :: "string \<Rightarrow> string \<Rightarrow> string"
  le_decimal_str :: "decimal128 \<Rightarrow> string"

section \<open>Entries\<close>

datatype billing_layer = LayerPlatform | LayerResale

fun as_transaction_suffix :: "billing_layer \<Rightarrow> string" where
  "as_transaction_suffix LayerPlatform = ''platform''"
| "as_transaction_suffix LayerResale = ''resale''"

datatype ledger_event =
    AccountingV2 | UsageSettled | TopupCreated | WalletCredited | GrantIssued | GrantConsumed
  | GrantExpired | GrantRevoked | TopupExpired

fun event_str :: "ledger_event \<Rightarrow> string" where
  "event_str AccountingV2 = ''accounting_v2''"
| "event_str UsageSettled = ''usage_settled''"
| "event_str TopupCreated = ''topup_created''"
| "event_str WalletCredited = ''wallet_credited''"
| "event_str GrantIssued = ''grant_issued''"
| "event_str GrantConsumed = ''grant_consumed''"
| "event_str GrantExpired = ''grant_expired''"
| "event_str GrantRevoked = ''grant_revoked''"
| "event_str TopupExpired = ''topup_expired''"

definition uses_extended_encoding :: "ledger_event \<Rightarrow> bool" where
  "uses_extended_encoding e \<longleftrightarrow> e \<in> {GrantIssued, GrantConsumed, GrantExpired, GrantRevoked, TopupExpired}"

datatype posting_side = Debit | Credit

record billing_posting =
  bp_account :: string
  bp_side :: posting_side
  bp_amount :: credits

record ledger_entry =
  bl_id :: string
  bl_seq :: int
  bl_prev_hash :: string
  bl_entry_hash :: string
  bl_event_type :: ledger_event
  bl_movement :: "string option"
  bl_postings :: "billing_posting list"
  bl_owner_id :: string
  bl_reference_id :: string
  bl_transaction_id :: "string option"
  bl_layer :: "billing_layer option"
  bl_metric :: "billing_metric option"
  bl_service_slug :: "string option"
  bl_model :: "string option"
  bl_quantity :: "int option"
  bl_amount_credits :: "int option"
  bl_amount_micros :: "int option"
  bl_balance_credits :: "int option"
  bl_dedupe_key :: "string option"
  bl_wallet_id :: "string option"
  bl_created_at :: int

section \<open>Transactions\<close>

definition of_credits :: "credits_error + 'a \<Rightarrow> app_error + 'a" where
  "of_credits = map_err (\<lambda>_. Internal ''invalid or unrepresentable credit amount'')"

definition transfer :: "string \<Rightarrow> string \<Rightarrow> credits \<Rightarrow> billing_posting list" where
  "transfer debit credit amount =
     (if amount = ZERO then []
      else [\<lparr>bp_account = debit, bp_side = Debit, bp_amount = amount\<rparr>,
            \<lparr>bp_account = credit, bp_side = Credit, bp_amount = amount\<rparr>])"

fun sum_postings :: "billing_posting list \<Rightarrow> credits \<Rightarrow> credits \<Rightarrow> app_error + credits \<times> credits" where
  "sum_postings [] debit credit = Ok (debit, credit)"
| "sum_postings (posting # postings) debit credit =
     (if bp_amount posting \<le> ZERO \<or> bp_account posting = [] then Err (Internal ''invalid v2 posting'')
      else case bp_side posting of
        Debit \<Rightarrow> and_then (of_credits (checked_add debit (bp_amount posting))) (\<lambda>debit. sum_postings postings debit credit)
      | Credit \<Rightarrow> and_then (of_credits (checked_add credit (bp_amount posting))) (\<lambda>credit. sum_postings postings debit credit))"

definition validate_postings :: "ledger_entry \<Rightarrow> app_error + unit" where
  "validate_postings entry =
     (if bl_event_type entry \<noteq> AccountingV2 then Ok ()
      else and_then (ok_or (bl_movement entry) (Internal ''v2 movement is missing'')) (\<lambda>movement.
        if bl_postings entry = [] \<and> movement \<in> {''topup_created'', ''opening_balance'', ''wallet_credited''} then Ok ()
        else and_then (sum_postings (bl_postings entry) ZERO ZERO) (\<lambda>(debit, credit).
          if debit = ZERO \<or> debit \<noteq> credit then Err (Internal ''unbalanced v2 transaction'') else Ok ())))"

section \<open>Canonical bytes\<close>

definition GENESIS_PREV_HASH :: string where "GENESIS_PREV_HASH = replicate 64 CHR ''0''"
definition RECORD_SEPARATOR :: char where "RECORD_SEPARATOR = CHR 0x1E"

definition to_be_bytes :: "nat \<Rightarrow> string" where
  "to_be_bytes n = map (\<lambda>i. char_of (n div 256 ^ (7 - i) mod 256)) [0..<8]"

definition length_field :: "string \<Rightarrow> string" where
  "length_field v = to_be_bytes (length v) @ v"

definition or_empty :: "string option \<Rightarrow> string" where
  "or_empty v = (case v of None \<Rightarrow> [] | Some s \<Rightarrow> s)"

fun side_str :: "posting_side \<Rightarrow> string" where
  "side_str Debit = ''debit''"
| "side_str Credit = ''credit''"

definition v2_fields :: "ledger_entry \<Rightarrow> string list" where
  "v2_fields e =
     [int_str (bl_seq e), bl_prev_hash e, bl_id e, bl_owner_id e, bl_reference_id e,
      or_empty (bl_movement e), or_empty (bl_transaction_id e),
      or_empty (map_option as_transaction_suffix (bl_layer e)), or_empty (map_option metric_str (bl_metric e)),
      or_empty (bl_service_slug e), or_empty (bl_model e), or_empty (map_option int_str (bl_quantity e)),
      or_empty (map_option int_str (bl_amount_credits e)), or_empty (map_option int_str (bl_amount_micros e)),
      or_empty (map_option int_str (bl_balance_credits e)), or_empty (bl_dedupe_key e), or_empty (bl_wallet_id e),
      int_str (timestamp_millis (bl_created_at e)), nat_str (length (bl_postings e))]"

definition posting_fields :: "billing_posting \<Rightarrow> string list" where
  "posting_fields p = [bp_account p, side_str (bp_side p), credits_fmt (bp_amount p)]"

definition v1_fields :: "ledger_entry \<Rightarrow> string list" where
  "v1_fields e =
     [int_str (bl_seq e), bl_prev_hash e, bl_id e, event_str (bl_event_type e), bl_owner_id e, bl_reference_id e,
      or_empty (bl_transaction_id e), or_empty (map_option as_transaction_suffix (bl_layer e)),
      or_empty (map_option metric_str (bl_metric e)), or_empty (bl_service_slug e), or_empty (bl_model e),
      or_empty (map_option int_str (bl_quantity e)), or_empty (map_option int_str (bl_amount_credits e)),
      or_empty (map_option int_str (bl_balance_credits e)), or_empty (bl_dedupe_key e), or_empty (bl_wallet_id e),
      int_str (timestamp_millis (bl_created_at e))]
     @ (if uses_extended_encoding (bl_event_type e) then [or_empty (map_option int_str (bl_amount_micros e))] else [])"

text \<open>The prefixed join of the first version.\<close>

definition prefixed_field :: "string \<Rightarrow> string" where
  "prefixed_field v = nat_str (length v) @ CHR '':'' # v"

definition join_record_fields :: "string list \<Rightarrow> string" where
  "join_record_fields vs = join [RECORD_SEPARATOR] (map prefixed_field vs)"

definition V2_MARKER :: string where "V2_MARKER = ''nyxid:billing-ledger:v2'' @ [CHR 0x00]"

definition canonical_entry_bytes :: "ledger_entry \<Rightarrow> string" where
  "canonical_entry_bytes e =
     (if bl_event_type e = AccountingV2
      then V2_MARKER @ concat (map length_field (v2_fields e))
             @ concat (map length_field (concat (map posting_fields (bl_postings e))))
      else join_record_fields (v1_fields e))"

definition compute_entry_hash :: "ledger_env \<Rightarrow> string \<Rightarrow> ledger_entry \<Rightarrow> string" where
  "compute_entry_hash env key e = le_hmac_hex env key (canonical_entry_bytes e)"

section \<open>The database\<close>

record checkpoint_row =
  cp_balance :: "bson option"
  cp_through_seq :: "int option"
  cp_signature :: "string option"

record ledger_db =
  lb_entries :: "ledger_entry list"
  lb_checkpoints :: "(string, checkpoint_row) btree_map"

text \<open>\<open>find_one({}).sort({seq: -1})\<close>.\<close>

definition tail_entry :: "ledger_db \<Rightarrow> ledger_entry option" where
  "tail_entry db = (case rev (sort_key bl_seq (lb_entries db)) of [] \<Rightarrow> None | e # _ \<Rightarrow> Some e)"

text \<open>
  The unique indexes on the id, the position and the deduplication key. (Where old rows already
  repeat a key, the server keeps the last index non-unique; that deployment is not modelled.)
\<close>

definition insert_many :: "ledger_entry list \<Rightarrow> ledger_entry list \<Rightarrow> app_error + ledger_entry list" where
  "insert_many rows new =
     (let all = rows @ new in
      if distinct (map bl_id all) \<and> distinct (map bl_seq all) \<and> distinct (List.map_filter bl_dedupe_key all)
      then Ok all else Err (DatabaseError ''E11000 duplicate key''))"

section \<open>Appending\<close>

definition existing_entries :: "ledger_entry list \<Rightarrow> string list \<Rightarrow> (string \<times> ledger_entry) list" where
  "existing_entries rows keys =
     rev (List.map_filter (\<lambda>r. case bl_dedupe_key r of
            Some k \<Rightarrow> if k \<in> set keys then Some (k, r) else None | None \<Rightarrow> None) rows)"

text \<open>The entry as it is appended at a position.\<close>

definition chained :: "ledger_env \<Rightarrow> string \<Rightarrow> int \<Rightarrow> string \<Rightarrow> ledger_entry \<Rightarrow> ledger_entry" where
  "chained env key seq prev e =
     (let e = e\<lparr>bl_seq := seq, bl_prev_hash := prev, bl_created_at := bson_time (bl_created_at e)\<rparr>
      in e\<lparr>bl_entry_hash := compute_entry_hash env key e\<rparr>)"

fun append_loop ::
  "ledger_env \<Rightarrow> string \<Rightarrow> (string \<times> ledger_entry) list \<Rightarrow> int \<Rightarrow> string
   \<Rightarrow> (string \<times> ledger_entry) list \<Rightarrow> ledger_entry list \<Rightarrow> app_error + ledger_entry list \<times> ledger_entry list"
where
  "append_loop env key existing next_seq prev deduped [] = Ok ([], [])"
| "append_loop env key existing next_seq prev deduped (e # es) =
     (case Option.bind (bl_dedupe_key e) (map_of existing) of
        Some found \<Rightarrow>
          and_then (append_loop env key existing next_seq prev deduped es) (\<lambda>(saved, new). Ok (found # saved, new))
      | None \<Rightarrow>
     (case Option.bind (bl_dedupe_key e) (map_of deduped) of
        Some inserted \<Rightarrow>
          and_then (append_loop env key existing next_seq prev deduped es) (\<lambda>(saved, new). Ok (inserted # saved, new))
      | None \<Rightarrow>
          and_then (validate_postings e) (\<lambda>_.
          let e = chained env key next_seq prev e in
          and_then (of_credits (ok_or (checked_i64 (next_seq + 1)) CreditsError)) (\<lambda>next_seq.
          and_then (append_loop env key existing next_seq (bl_entry_hash e)
              (case bl_dedupe_key e of None \<Rightarrow> deduped | Some k \<Rightarrow> (k, e) # deduped) es) (\<lambda>(saved, new).
            Ok (e # saved, e # new))))))"

definition is_reconciled_account :: "string \<Rightarrow> bool" where
  "is_reconciled_account account \<longleftrightarrow> starts_with ''wallet:'' account \<or> starts_with ''grant:'' account"

definition posting_delta :: "billing_posting \<Rightarrow> credits" where
  "posting_delta p = (case bp_side p of Debit \<Rightarrow> bp_amount p | Credit \<Rightarrow> credits_neg (bp_amount p))"

text \<open>The change of each reconciled account, with the last position that posts to it.\<close>

definition add_delta ::
  "(string, credits \<times> int) btree_map \<Rightarrow> int \<times> billing_posting \<Rightarrow> app_error + (string, credits \<times> int) btree_map" where
  "add_delta deltas = (\<lambda>(seq, p).
     if \<not> is_reconciled_account (bp_account p) then Ok deltas
     else (let previous = (case btm_get deltas (bp_account p) of None \<Rightarrow> ZERO | Some (c, _) \<Rightarrow> c)
           in and_then (of_credits (checked_add previous (posting_delta p))) (\<lambda>c.
                Ok (btm_insert (bp_account p) (c, seq) deltas))))"

definition entry_postings :: "ledger_entry list \<Rightarrow> (int \<times> billing_posting) list" where
  "entry_postings es = concat (map (\<lambda>e. map (Pair (bl_seq e)) (bl_postings e)) es)"

definition checkpoint_signature :: "ledger_env \<Rightarrow> string \<Rightarrow> string \<Rightarrow> int \<Rightarrow> credits \<Rightarrow> string" where
  "checkpoint_signature env key account seq balance =
     le_hmac_hex env key (''nyxid:billing-account:v1'' @ [CHR 0x00]
       @ concat (map length_field [account, int_str seq, credits_fmt balance]))"

definition authenticated_checkpoint ::
  "ledger_env \<Rightarrow> string \<Rightarrow> string \<Rightarrow> checkpoint_row \<Rightarrow> app_error + credits \<times> int" where
  "authenticated_checkpoint env key account row =
     (let invalid = Internal ''invalid billing account checkpoint'' in
      and_then (ok_or (cp_through_seq row) invalid) (\<lambda>seq.
      and_then (ok_or (cp_balance row) invalid) (\<lambda>balance.
      and_then (of_credits (from_bson (le_decimal_str env) balance SCALE)) (\<lambda>balance.
        if cp_signature row \<noteq> Some (checkpoint_signature env key account seq balance) then Err invalid
        else Ok (balance, seq)))))"

text \<open>The checkpoints of the accounts are all authenticated before one is updated.\<close>

definition previous_checkpoints ::
  "ledger_env \<Rightarrow> string \<Rightarrow> ledger_db \<Rightarrow> string list \<Rightarrow> app_error + (string \<times> credits) list" where
  "previous_checkpoints env key db accounts =
     try_map (\<lambda>(account, row).
        and_then (authenticated_checkpoint env key account row) (\<lambda>(balance, _). Ok (account, balance)))
       (filter (\<lambda>(account, _). account \<in> set accounts) (lb_checkpoints db))"

definition checkpoint_update ::
  "ledger_env \<Rightarrow> string \<Rightarrow> (string \<times> credits) list \<Rightarrow> string \<times> credits \<times> int \<Rightarrow> app_error + string \<times> checkpoint_row" where
  "checkpoint_update env key previous = (\<lambda>(account, delta, through_seq).
     let balance = (case map_of previous account of None \<Rightarrow> ZERO | Some b \<Rightarrow> b)
     in and_then (of_credits (checked_add balance delta)) (\<lambda>balance.
          Ok (account, \<lparr>cp_balance = Some (bson_of_credits balance), cp_through_seq = Some through_seq,
                        cp_signature = Some (checkpoint_signature env key account through_seq balance)\<rparr>)))"

definition append_entries_with_key ::
  "ledger_env \<Rightarrow> string \<Rightarrow> ledger_entry list \<Rightarrow> ledger_db \<Rightarrow> app_error + ledger_entry list \<times> ledger_db" where
  "append_entries_with_key env key entries db =
     and_then (for_each validate_postings entries) (\<lambda>_.
     let tail = tail_entry db;
         existing = existing_entries (lb_entries db) (List.map_filter bl_dedupe_key entries)
     in and_then (case tail of None \<Rightarrow> Ok 1
           | Some t \<Rightarrow> of_credits (ok_or (checked_i64 (bl_seq t + 1)) CreditsError)) (\<lambda>next_seq.
        let previous_hash = (case tail of None \<Rightarrow> GENESIS_PREV_HASH | Some t \<Rightarrow> bl_entry_hash t)
        in and_then (append_loop env key existing next_seq previous_hash [] entries) (\<lambda>(saved, new).
           and_then (if new = [] then Ok (lb_entries db) else insert_many (lb_entries db) new) (\<lambda>rows.
           and_then (try_fold add_delta [] (entry_postings new)) (\<lambda>deltas.
           and_then (previous_checkpoints env key db (btm_keys deltas)) (\<lambda>previous.
           and_then (try_map (checkpoint_update env key previous) deltas) (\<lambda>updates.
             Ok (saved, \<lparr>lb_entries = rows,
               lb_checkpoints = foldl (\<lambda>m (account, row). btm_insert account row m) (lb_checkpoints db) updates\<rparr>))))))))"

section \<open>Verification\<close>

datatype ledger_break_kind = Unbalanced | BreakGap | LinkMismatch | HashMismatch | TailTruncated | AnchorInvalid

record ledger_break =
  lk_break_seq :: int
  lk_break_kind :: ledger_break_kind
  lk_expected :: string
  lk_actual :: string

datatype ledger_status = LedgerOk | LedgerBroken

record ledger_report =
  lr_status :: ledger_status
  lr_checked_count :: nat
  lr_head_seq :: "int option"
  lr_head_hash :: "string option"
  lr_break_info :: "ledger_break option"
  lr_next_from_seq :: "int option"

definition DEFAULT_VERIFY_LIMIT :: int where "DEFAULT_VERIFY_LIMIT = 10000"
definition MAX_VERIFY_LIMIT :: int where "MAX_VERIFY_LIMIT = 10000"

definition load_entry_by_seq :: "ledger_db \<Rightarrow> int \<Rightarrow> ledger_entry option" where
  "load_entry_by_seq db seq = find (\<lambda>e. bl_seq e = seq) (lb_entries db)"

definition verify_query :: "ledger_db \<Rightarrow> int \<Rightarrow> int option \<Rightarrow> int \<Rightarrow> ledger_entry list" where
  "verify_query db from_seq to_seq limit =
     take (nat limit) (sort_key bl_seq (filter (\<lambda>e. from_seq \<le> bl_seq e
       \<and> (case to_seq of None \<Rightarrow> True | Some t \<Rightarrow> bl_seq e \<le> t)) (lb_entries db)))"

text \<open>The loop: how many entries passed, the next expected position and the first break.\<close>

fun verify_loop ::
  "ledger_env \<Rightarrow> string \<Rightarrow> int \<Rightarrow> string \<Rightarrow> nat \<Rightarrow> ledger_entry list \<Rightarrow> nat \<times> int \<times> ledger_break option" where
  "verify_loop env key expected_seq expected_prev checked [] = (checked, expected_seq, None)"
| "verify_loop env key expected_seq expected_prev checked (e # es) =
     (let expected_hash = compute_entry_hash env key e in
      if bl_seq e \<noteq> expected_seq
      then (checked, expected_seq, Some \<lparr>lk_break_seq = expected_seq, lk_break_kind = BreakGap,
              lk_expected = int_str expected_seq, lk_actual = int_str (bl_seq e)\<rparr>)
      else if bl_prev_hash e \<noteq> expected_prev
      then (checked, expected_seq, Some \<lparr>lk_break_seq = expected_seq, lk_break_kind = LinkMismatch,
              lk_expected = expected_prev, lk_actual = bl_prev_hash e\<rparr>)
      else if is_err (validate_postings e)
      then (checked, expected_seq, Some \<lparr>lk_break_seq = bl_seq e, lk_break_kind = Unbalanced,
              lk_expected = ''balanced v2 postings'', lk_actual = ''invalid postings''\<rparr>)
      else if bl_entry_hash e \<noteq> expected_hash
      then (checked, expected_seq, Some \<lparr>lk_break_seq = expected_seq, lk_break_kind = HashMismatch,
              lk_expected = expected_hash, lk_actual = bl_entry_hash e\<rparr>)
      else verify_loop env key (expected_seq + 1) (bl_entry_hash e) (checked + 1) es)"

definition verify_chain ::
  "ledger_env \<Rightarrow> string \<Rightarrow> ledger_db \<Rightarrow> int option \<Rightarrow> int option \<Rightarrow> int option \<Rightarrow> app_error + ledger_report" where
  "verify_chain env key db from_seq to_seq limit =
     (let from_seq = (case from_seq of None \<Rightarrow> 1 | Some s \<Rightarrow> s);
          limit = (case limit of None \<Rightarrow> DEFAULT_VERIFY_LIMIT | Some l \<Rightarrow> l);
          head_seq = map_option bl_seq (tail_entry db);
          head_hash = map_option bl_entry_hash (tail_entry db);
          entries = verify_query db from_seq to_seq limit
      in if from_seq < 1 then Err (ValidationError ''from_seq must be greater than or equal to 1'')
      else if (case to_seq of None \<Rightarrow> False | Some t \<Rightarrow> t < from_seq)
      then Err (ValidationError ''to_seq must be greater than or equal to from_seq'')
      else if limit < 1 \<or> MAX_VERIFY_LIMIT < limit
      then Err (ValidationError (''limit must be between 1 and '' @ int_str MAX_VERIFY_LIMIT))
      else (case (if from_seq = 1 then Some GENESIS_PREV_HASH
                  else map_option bl_entry_hash (load_entry_by_seq db (from_seq - 1))) of
        None \<Rightarrow> Ok \<lparr>lr_status = LedgerBroken, lr_checked_count = 0, lr_head_seq = head_seq, lr_head_hash = head_hash,
           lr_break_info = Some \<lparr>lk_break_seq = from_seq, lk_break_kind = BreakGap,
             lk_expected = int_str (from_seq - 1), lk_actual = ''missing''\<rparr>, lr_next_from_seq = None\<rparr>
      | Some expected_prev_hash \<Rightarrow>
         (case verify_loop env key from_seq expected_prev_hash 0 entries of
           (checked, expected_seq, Some break) \<Rightarrow>
             Ok \<lparr>lr_status = LedgerBroken, lr_checked_count = checked, lr_head_seq = head_seq,
                 lr_head_hash = head_hash, lr_break_info = Some break, lr_next_from_seq = None\<rparr>
         | (checked, expected_seq, None) \<Rightarrow>
             Ok \<lparr>lr_status = LedgerOk, lr_checked_count = checked, lr_head_seq = head_seq, lr_head_hash = head_hash,
                 lr_break_info = None,
                 lr_next_from_seq =
                   (if int (length entries) = limit
                       \<and> (case to_seq of None \<Rightarrow> True | Some t \<Rightarrow> expected_seq \<le> t)
                       \<and> (case head_seq of None \<Rightarrow> False | Some h \<Rightarrow> expected_seq \<le> h)
                    then Some expected_seq else None)\<rparr>)))"

end
