(* ===== verification/Ledger_Encoding.thy ===== *)
theory Ledger_Encoding
  imports Ledger Credit_Properties
begin

text \<open>
  The encodings of the billing ledger: which entries have the same canonical bytes, and so what the
  hash of an entry commits to.
\<close>

section \<open>Encodings\<close>

lemma base_digits_unique:
  "n < 256 ^ k \<Longrightarrow> m < 256 ^ k \<Longrightarrow> (\<And>i. i < k \<Longrightarrow> n div 256 ^ i mod 256 = m div 256 ^ i mod 256) \<Longrightarrow> n = (m :: nat)"
proof (induction k arbitrary: n m)
  case (Suc k)
  have "n mod 256 = m mod 256" using Suc.prems(3) [of 0] by simp
  moreover have "n div 256 = m div 256"
  proof (rule Suc.IH)
    show "n div 256 < 256 ^ k" "m div 256 < 256 ^ k" using Suc.prems(1,2) by (simp_all add: less_mult_imp_div_less mult.commute)
    show "n div 256 div 256 ^ i mod 256 = m div 256 div 256 ^ i mod 256" if "i < k" for i
      using Suc.prems(3) [of "Suc i"] that by (simp add: div_mult2_eq)
  qed
  ultimately show ?case by (metis div_mult_mod_eq)
qed simp

lemma length_to_be_bytes [simp]: "length (to_be_bytes n) = 8"
  by (simp add: to_be_bytes_def)

lemma nth_to_be_bytes: "i < 8 \<Longrightarrow> to_be_bytes n ! (7 - i) = char_of (n div 256 ^ i mod 256)"
  unfolding to_be_bytes_def by (subst nth_map) (simp_all add: nth_upt del: upt_Suc upt_rec_numeral)

lemma to_be_bytes_inj:
  assumes "n < 256 ^ 8" "m < 256 ^ 8" and eq: "to_be_bytes n = to_be_bytes m"
  shows "n = m"
proof (rule base_digits_unique [OF assms(1,2)])
  fix i :: nat
  assume "i < 8"
  then have "(char_of (n div 256 ^ i mod 256) :: char) = char_of (m div 256 ^ i mod 256)"
    using nth_to_be_bytes [of i n] nth_to_be_bytes [of i m] eq by metis
  then have "(of_char (char_of (n div 256 ^ i mod 256) :: char) :: nat) = of_char (char_of (m div 256 ^ i mod 256) :: char)"
    by (rule arg_cong)
  then show "n div 256 ^ i mod 256 = m div 256 ^ i mod 256" by simp
qed

definition short :: "string \<Rightarrow> bool" where
  "short v \<longleftrightarrow> length v < 256 ^ 8"

lemma length_field_eq: "short v \<Longrightarrow> short w \<Longrightarrow> length_field v @ x = length_field w @ y \<longleftrightarrow> v = w \<and> x = y"
  using to_be_bytes_inj [of "length v" "length w"] by (auto simp: length_field_def short_def)

lemma length_fields_eq:
  "length vs = length ws \<Longrightarrow> list_all short vs \<Longrightarrow> list_all short ws \<Longrightarrow>
     concat (map length_field vs) @ x = concat (map length_field ws) @ y \<longleftrightarrow> vs = ws \<and> x = y"
  by (induction vs ws rule: list_induct2) (auto simp: length_field_eq)

lemma colon_not_digits: "CHR '':'' \<notin> set (nat_str n)"
proof (rule all_digits_notin)
  show "\<not> is_ascii_digit (CHR '':'')" by code_simp
qed simp

lemma nat_str_inj: "nat_str n = nat_str m \<longleftrightarrow> n = m"
  by (metis digits_val_nat_str)

lemma before_separator: "c \<notin> set a \<Longrightarrow> c \<notin> set b \<Longrightarrow> a @ c # x = b @ c # y \<longleftrightarrow> a = b \<and> x = y"
proof (induction a arbitrary: b)
  case Nil
  then show ?case by (cases b) auto
next
  case (Cons d a)
  then show ?case by (cases b) auto
qed

lemma prefixed_field_eq: "prefixed_field v @ x = prefixed_field w @ y \<longleftrightarrow> v = w \<and> x = y"
proof
  assume eq: "prefixed_field v @ x = prefixed_field w @ y"
  then have "nat_str (length v) = nat_str (length w)" "v @ x = w @ y"
    by (simp_all add: prefixed_field_def before_separator [OF colon_not_digits colon_not_digits])
  then show "v = w \<and> x = y" by (simp add: nat_str_inj)
qed simp

lemma prefixed_field_Nil [simp]: "prefixed_field v \<noteq> []"
  by (simp add: prefixed_field_def)

lemma join_record_fields_Cons:
  "join_record_fields (v # vs) = prefixed_field v @ (if vs = [] then [] else RECORD_SEPARATOR # join_record_fields vs)"
  by (cases vs) (simp_all add: join_record_fields_def)

lemma join_record_fields_Nil [simp]: "join_record_fields [] = []"
  by (simp add: join_record_fields_def)

lemma join_prefixed_eq: "join_record_fields vs = join_record_fields ws \<longleftrightarrow> vs = ws"
proof (induction vs arbitrary: ws)
  case Nil
  then show ?case by (cases ws) (auto simp: join_record_fields_Cons)
next
  case (Cons v vs)
  then show ?case
    by (cases ws) (auto simp: join_record_fields_Cons prefixed_field_eq)
qed

lemma int_str_inj: "int_str i = int_str j \<longleftrightarrow> i = j"
proof
  assume eq: "int_str i = int_str j"
  have "parse_int (min i j) (max i j) (int_str i) = Some i"
    by (rule parse_int_int_str [OF min.cobounded1 max.cobounded1])
  moreover have "parse_int (min i j) (max i j) (int_str j) = Some j"
    by (rule parse_int_int_str [OF min.cobounded2 max.cobounded2])
  ultimately show "i = j" using eq by (metis option.inject)
qed simp

lemma int_str_Nil [simp]: "int_str i \<noteq> []"
  by (simp add: int_str_def)

lemma metric_str_inj: "metric_str a = metric_str b \<longleftrightarrow> a = b"
proof
  assume eq: "metric_str a = metric_str b"
  have "distinct (map metric_str BILLING_METRICS)" by (simp add: BILLING_METRICS_def metric_str_def)
  then have "inj_on metric_str (set BILLING_METRICS)" by (simp add: distinct_map)
  moreover have "m \<in> set BILLING_METRICS" for m by (cases m) (simp_all add: BILLING_METRICS_def)
  ultimately show "a = b" using eq by (auto dest: inj_onD)
qed simp

lemma metric_str_Nil [simp]: "metric_str a \<noteq> []"
  by (cases a) (simp_all add: metric_str_def)

lemma suffix_inj: "as_transaction_suffix a = as_transaction_suffix b \<longleftrightarrow> a = b"
  by (cases a; cases b) simp_all

lemma suffix_Nil [simp]: "as_transaction_suffix a \<noteq> []"
  by (cases a) simp_all

lemma event_str_inj: "event_str a = event_str b \<longleftrightarrow> a = b"
  by (cases a; cases b) simp_all

lemma or_empty_simps [simp]: "or_empty None = []" "or_empty (Some s) = s"
  by (simp_all add: or_empty_def)

lemma or_empty_map:
  "(\<And>a. f a \<noteq> []) \<Longrightarrow> (\<And>a b. f a = f b \<longleftrightarrow> a = b) \<Longrightarrow>
     or_empty (map_option f x) = or_empty (map_option f y) \<longleftrightarrow> x = y"
  by (cases x; cases y) (simp_all, metis)

lemma or_empty_fields:
  "or_empty (map_option int_str i) = or_empty (map_option int_str j) \<longleftrightarrow> i = j"
  "or_empty (map_option metric_str m) = or_empty (map_option metric_str n) \<longleftrightarrow> m = n"
  "or_empty (map_option as_transaction_suffix l) = or_empty (map_option as_transaction_suffix k) \<longleftrightarrow> l = k"
  by (rule or_empty_map; simp add: int_str_inj metric_str_inj suffix_inj)+

lemma millis_eq: "timestamp_millis t = timestamp_millis u \<longleftrightarrow> bson_time t = bson_time u"
  by (simp add: timestamp_millis_def bson_time_def NS_PER_MS_def)

lemma credits_fmt_inj: "credit_ok a \<Longrightarrow> credit_ok b \<Longrightarrow> credits_fmt a = credits_fmt b \<longleftrightarrow> a = b"
  by (metis from_str_fmt sum.inject(2))

lemma side_str_inj: "side_str a = side_str b \<longleftrightarrow> a = b"
  by (cases a; cases b) simp_all

section \<open>What the canonical bytes commit to\<close>

text \<open>
  The lengths are 64-bit and the amounts are amounts. The first encoding covers neither movement nor
  postings, and covers the micro-credits only for the events that carry them; both store an absent
  text as an empty one.
\<close>

definition encodable :: "ledger_entry \<Rightarrow> bool" where
  "encodable e \<longleftrightarrow> list_all short (v2_fields e) \<and> list_all short (concat (map posting_fields (bl_postings e)))
     \<and> list_all (\<lambda>p. credit_ok (bp_amount p)) (bl_postings e)"

definition committed :: "ledger_entry \<Rightarrow> ledger_entry" where
  "committed e =
     (let v2 = (bl_event_type e = AccountingV2) in
      e\<lparr>bl_entry_hash := [], bl_movement := (if v2 then Some (or_empty (bl_movement e)) else None),
        bl_postings := (if v2 then bl_postings e else []),
        bl_transaction_id := Some (or_empty (bl_transaction_id e)),
        bl_service_slug := Some (or_empty (bl_service_slug e)), bl_model := Some (or_empty (bl_model e)),
        bl_dedupe_key := Some (or_empty (bl_dedupe_key e)), bl_wallet_id := Some (or_empty (bl_wallet_id e)),
        bl_amount_micros := (if v2 \<or> uses_extended_encoding (bl_event_type e) then bl_amount_micros e else None),
        bl_created_at := bson_time (bl_created_at e)\<rparr>)"

lemma committed_eq:
  "committed a = committed b \<longleftrightarrow>
     bl_event_type a = bl_event_type b \<and> bl_seq a = bl_seq b \<and> bl_prev_hash a = bl_prev_hash b \<and> bl_id a = bl_id b
     \<and> bl_owner_id a = bl_owner_id b \<and> bl_reference_id a = bl_reference_id b
     \<and> or_empty (bl_transaction_id a) = or_empty (bl_transaction_id b) \<and> bl_layer a = bl_layer b
     \<and> bl_metric a = bl_metric b \<and> or_empty (bl_service_slug a) = or_empty (bl_service_slug b)
     \<and> or_empty (bl_model a) = or_empty (bl_model b) \<and> bl_quantity a = bl_quantity b
     \<and> bl_amount_credits a = bl_amount_credits b \<and> bl_balance_credits a = bl_balance_credits b
     \<and> or_empty (bl_dedupe_key a) = or_empty (bl_dedupe_key b) \<and> or_empty (bl_wallet_id a) = or_empty (bl_wallet_id b)
     \<and> bson_time (bl_created_at a) = bson_time (bl_created_at b)
     \<and> (bl_event_type a = AccountingV2 \<longrightarrow>
          or_empty (bl_movement a) = or_empty (bl_movement b) \<and> bl_postings a = bl_postings b)
     \<and> (bl_event_type a = AccountingV2 \<or> uses_extended_encoding (bl_event_type a) \<longrightarrow>
          bl_amount_micros a = bl_amount_micros b)"
  unfolding committed_def Let_def
  by (cases a; cases b) (auto split: if_splits)

lemma posting_fields_length: "length (concat (map posting_fields ps)) = 3 * length ps"
  by (induction ps) (simp_all add: posting_fields_def)

lemma posting_fields_eq:
  "length ps = length qs \<Longrightarrow> list_all (\<lambda>p. credit_ok (bp_amount p)) ps \<Longrightarrow> list_all (\<lambda>p. credit_ok (bp_amount p)) qs \<Longrightarrow>
     concat (map posting_fields ps) = concat (map posting_fields qs) \<longleftrightarrow> ps = qs"
proof (induction ps qs rule: list_induct2)
  case (Cons p ps q qs)
  then show ?case
    by (cases p; cases q) (auto simp: posting_fields_def credits_fmt_inj side_str_inj)
qed simp

lemma v2_fields_eq:
  "v2_fields a = v2_fields b \<longleftrightarrow>
     bl_seq a = bl_seq b \<and> bl_prev_hash a = bl_prev_hash b \<and> bl_id a = bl_id b
     \<and> bl_owner_id a = bl_owner_id b \<and> bl_reference_id a = bl_reference_id b
     \<and> or_empty (bl_movement a) = or_empty (bl_movement b)
     \<and> or_empty (bl_transaction_id a) = or_empty (bl_transaction_id b) \<and> bl_layer a = bl_layer b
     \<and> bl_metric a = bl_metric b \<and> or_empty (bl_service_slug a) = or_empty (bl_service_slug b)
     \<and> or_empty (bl_model a) = or_empty (bl_model b) \<and> bl_quantity a = bl_quantity b
     \<and> bl_amount_credits a = bl_amount_credits b \<and> bl_amount_micros a = bl_amount_micros b
     \<and> bl_balance_credits a = bl_balance_credits b
     \<and> or_empty (bl_dedupe_key a) = or_empty (bl_dedupe_key b) \<and> or_empty (bl_wallet_id a) = or_empty (bl_wallet_id b)
     \<and> bson_time (bl_created_at a) = bson_time (bl_created_at b) \<and> length (bl_postings a) = length (bl_postings b)"
  unfolding v2_fields_def by (simp add: int_str_inj or_empty_fields millis_eq nat_str_inj)

lemma v1_fields_eq:
  "v1_fields a = v1_fields b \<longleftrightarrow>
     bl_event_type a = bl_event_type b \<and> bl_seq a = bl_seq b \<and> bl_prev_hash a = bl_prev_hash b \<and> bl_id a = bl_id b
     \<and> bl_owner_id a = bl_owner_id b \<and> bl_reference_id a = bl_reference_id b
     \<and> or_empty (bl_transaction_id a) = or_empty (bl_transaction_id b) \<and> bl_layer a = bl_layer b
     \<and> bl_metric a = bl_metric b \<and> or_empty (bl_service_slug a) = or_empty (bl_service_slug b)
     \<and> or_empty (bl_model a) = or_empty (bl_model b) \<and> bl_quantity a = bl_quantity b
     \<and> bl_amount_credits a = bl_amount_credits b \<and> bl_balance_credits a = bl_balance_credits b
     \<and> or_empty (bl_dedupe_key a) = or_empty (bl_dedupe_key b) \<and> or_empty (bl_wallet_id a) = or_empty (bl_wallet_id b)
     \<and> bson_time (bl_created_at a) = bson_time (bl_created_at b)
     \<and> (uses_extended_encoding (bl_event_type a) \<longrightarrow> bl_amount_micros a = bl_amount_micros b)"
  unfolding v1_fields_def by (auto simp: int_str_inj or_empty_fields millis_eq event_str_inj)

lemma canonical_kind:
  "canonical_entry_bytes a = canonical_entry_bytes b \<Longrightarrow> bl_event_type a = AccountingV2 \<longleftrightarrow> bl_event_type b = AccountingV2"
proof -
  have v2: "hd (canonical_entry_bytes e) = CHR ''n''" if "bl_event_type e = AccountingV2" for e
    using that by (simp add: canonical_entry_bytes_def V2_MARKER_def)
  have v1: "hd (canonical_entry_bytes e) \<noteq> CHR ''n''" if "bl_event_type e \<noteq> AccountingV2" for e
  proof -
    have "hd (canonical_entry_bytes e) = hd (nat_str (length (int_str (bl_seq e))))"
      using that by (simp add: canonical_entry_bytes_def v1_fields_def join_record_fields_Cons prefixed_field_def)
    moreover have "hd (nat_str n) \<in> set (nat_str n)" for n by simp
    moreover have "CHR ''n'' \<notin> set (nat_str n)" for n
    proof (rule all_digits_notin)
      show "\<not> is_ascii_digit (CHR ''n'')" by code_simp
    qed simp
    ultimately show ?thesis by metis
  qed
  assume "canonical_entry_bytes a = canonical_entry_bytes b"
  then show ?thesis using v1 v2 by metis
qed

lemma canonical_bytes_eq_iff:
  assumes "encodable a" "encodable b"
  shows "canonical_entry_bytes a = canonical_entry_bytes b \<longleftrightarrow> committed a = committed b"
proof (cases "bl_event_type a = AccountingV2 \<longleftrightarrow> bl_event_type b = AccountingV2")
  case False
  then show ?thesis using canonical_kind [of a b] by (auto simp: committed_eq)
next
  case kind: True
  show ?thesis
  proof (cases "bl_event_type a = AccountingV2")
    case True
    have "length (v2_fields a) = length (v2_fields b)" by (simp add: v2_fields_def)
    then have "canonical_entry_bytes a = canonical_entry_bytes b \<longleftrightarrow>
        v2_fields a = v2_fields b
        \<and> concat (map length_field (concat (map posting_fields (bl_postings a))))
          = concat (map length_field (concat (map posting_fields (bl_postings b))))"
      using True kind assms by (simp add: canonical_entry_bytes_def encodable_def length_fields_eq)
    also have "\<dots> \<longleftrightarrow> v2_fields a = v2_fields b \<and> bl_postings a = bl_postings b"
    proof (intro conj_cong refl)
      assume "v2_fields a = v2_fields b"
      then have len: "length (bl_postings a) = length (bl_postings b)" by (simp add: v2_fields_eq)
      then show "concat (map length_field (concat (map posting_fields (bl_postings a))))
          = concat (map length_field (concat (map posting_fields (bl_postings b)))) \<longleftrightarrow> bl_postings a = bl_postings b"
        using length_fields_eq [of "concat (map posting_fields (bl_postings a))" "concat (map posting_fields (bl_postings b))" "[]" "[]"]
          assms posting_fields_eq [OF len] by (simp add: encodable_def posting_fields_length)
    qed
    also have "\<dots> \<longleftrightarrow> committed a = committed b" using True kind by (auto simp: v2_fields_eq committed_eq)
    finally show ?thesis .
  next
    case False
    then show ?thesis using kind by (auto simp: canonical_entry_bytes_def join_prefixed_eq v1_fields_eq committed_eq)
  qed
qed

interpretation ledger_chain:
  hash_chain bl_seq bl_prev_hash bl_entry_hash canonical_entry_bytes "le_hmac_hex env key" "compute_entry_hash env key" encodable
  for env key
proof
  show "compute_entry_hash env key e = le_hmac_hex env key (canonical_entry_bytes e)" for e
    by (simp add: compute_entry_hash_def)
  show "encodable a \<Longrightarrow> encodable b \<Longrightarrow> canonical_entry_bytes a = canonical_entry_bytes b \<Longrightarrow>
      bl_seq a = bl_seq b \<and> bl_prev_hash a = bl_prev_hash b" for a b
    using canonical_bytes_eq_iff by (simp add: committed_eq)
qed

end
