(* ===== verification/Ledger_Append.thy ===== *)
theory Ledger_Append
  imports Ledger_Encoding
begin

text \<open>
  Appending to the billing ledger: what every committed group keeps of the chain, of the unique keys
  and of the signed account checkpoints, what a retried group does, and what balance an entry has.
\<close>

section \<open>The entries of a commit\<close>

lemma canonical_bytes_stored [simp]:
  "canonical_entry_bytes (e\<lparr>bl_entry_hash := h\<rparr>) = canonical_entry_bytes e"
  "canonical_entry_bytes (e\<lparr>bl_created_at := bson_time t\<rparr>) = canonical_entry_bytes (e\<lparr>bl_created_at := t\<rparr>)"
  by (simp_all add: canonical_entry_bytes_def v2_fields_def v1_fields_def)

lemma validate_postings_cong:
  "bl_event_type a = bl_event_type b \<Longrightarrow> bl_movement a = bl_movement b \<Longrightarrow> bl_postings a = bl_postings b \<Longrightarrow>
     validate_postings a = validate_postings b"
  by (simp only: validate_postings_def)

lemma chained_fields [simp]:
  "bl_seq (chained env key n prev e) = n" "bl_prev_hash (chained env key n prev e) = prev"
  "bl_entry_hash (chained env key n prev e) = compute_entry_hash env key (chained env key n prev e)"
  "bl_id (chained env key n prev e) = bl_id e" "bl_dedupe_key (chained env key n prev e) = bl_dedupe_key e"
  "bl_postings (chained env key n prev e) = bl_postings e"
  "validate_postings (chained env key n prev e) = validate_postings e"
proof -
  show "validate_postings (chained env key n prev e) = validate_postings e"
    by (rule validate_postings_cong) (simp_all add: chained_def Let_def)
qed (simp_all add: chained_def Let_def compute_entry_hash_def)

abbreviation ledger_linked :: "ledger_env \<Rightarrow> string \<Rightarrow> int \<Rightarrow> string \<Rightarrow> ledger_entry list \<Rightarrow> bool" where
  "ledger_linked env key \<equiv> linked bl_seq bl_prev_hash bl_entry_hash (compute_entry_hash env key)"

lemma append_loopE:
  assumes "append_loop env key existing n prev deduped (e # es) = Ok (saved, new)"
  obtains (kept) s saved' where
      "Option.bind (bl_dedupe_key e) (map_of existing) = Some s \<or> Option.bind (bl_dedupe_key e) (map_of deduped) = Some s"
      "saved = s # saved'" "append_loop env key existing n prev deduped es = Ok (saved', new)"
  | (appended) saved' new' where
      "validate_postings e = Ok ()" "checked_i64 (n + 1) = Some (n + 1)"
      "saved = chained env key n prev e # saved'" "new = chained env key n prev e # new'"
      "append_loop env key existing (n + 1) (bl_entry_hash (chained env key n prev e))
         (case bl_dedupe_key e of None \<Rightarrow> deduped | Some k \<Rightarrow> (k, chained env key n prev e) # deduped) es = Ok (saved', new')"
  using assms by (auto simp: Let_def of_credits_def checked_i64_def split: option.splits if_splits)

lemma append_loop_linked:
  "append_loop env key existing n prev deduped es = Ok (saved, new) \<Longrightarrow>
     ledger_linked env key n prev new \<and> list_all (\<lambda>e. validate_postings e = Ok ()) new"
proof (induction es arbitrary: n prev deduped saved new)
  case (Cons e es)
  from Cons.prems show ?case
    by (cases rule: append_loopE) (use Cons.IH in auto)
qed simp

section \<open>The accounts of a commit\<close>

definition account_total :: "string \<Rightarrow> (int \<times> billing_posting) list \<Rightarrow> int" where
  "account_total account ps =
     sum_list (map (\<lambda>(_, p). if bp_account p = account then pico (posting_delta p) else 0) ps)"

fun last_posting :: "string \<Rightarrow> (int \<times> billing_posting) list \<Rightarrow> int option" where
  "last_posting account [] = None"
| "last_posting account ((seq, p) # ps) =
     (case last_posting account ps of
        Some s \<Rightarrow> Some s | None \<Rightarrow> if bp_account p = account then Some seq else None)"

lemma account_total_simps [simp]:
  "account_total account [] = 0"
  "account_total account ((seq, p) # ps) =
     (if bp_account p = account then pico (posting_delta p) else 0) + account_total account ps"
  "account_total account (ps @ qs) = account_total account ps + account_total account qs"
  by (simp_all add: account_total_def)

lemma last_posting_append [simp]:
  "last_posting account (ps @ qs) =
     (case last_posting account qs of Some s \<Rightarrow> Some s | None \<Rightarrow> last_posting account ps)"
  by (induction account ps rule: last_posting.induct) (auto split: option.splits)

lemma last_posting_None: "last_posting account ps = None \<Longrightarrow> account_total account ps = 0"
  by (induction account ps rule: last_posting.induct) (auto split: option.splits if_splits)

lemma add_delta_step:
  "add_delta m (seq, p) = Ok m' \<Longrightarrow> btm_wf m \<Longrightarrow>
     btm_wf m' \<and> btm_get m' account =
       (if is_reconciled_account account \<and> bp_account p = account
        then Some (Credits ((case btm_get m account of None \<Rightarrow> 0 | Some (c, _) \<Rightarrow> pico c) + pico (posting_delta p)), seq)
        else btm_get m account)"
  by (auto simp: add_delta_def Let_def of_credits_def checked_ops_Ok_iff ZERO_def credits.expand
      split: if_splits option.splits intro!: credits.expand)

lemma deltas_get:
  assumes "try_fold add_delta m ps = Ok deltas" "btm_wf m"
  shows "btm_wf deltas \<and> btm_get deltas account =
    (if is_reconciled_account account then
       (case last_posting account ps of
          None \<Rightarrow> btm_get m account
        | Some s \<Rightarrow> Some (Credits ((case btm_get m account of None \<Rightarrow> 0 | Some (c, _) \<Rightarrow> pico c) + account_total account ps), s))
     else btm_get m account)"
  using assms
proof (induction ps arbitrary: m)
  case (Cons x ps)
  obtain seq p where x: "x = (seq, p)" by (cases x)
  obtain m' where m': "add_delta m (seq, p) = Ok m'" "try_fold add_delta m' ps = Ok deltas"
    using Cons.prems(1) by (auto simp: x split: sum.splits)
  note step = add_delta_step [OF m'(1) Cons.prems(2)]
  show ?case using Cons.IH [OF m'(2)] step [of account] last_posting_None [of account ps]
    by (auto simp: x split: option.splits)
qed simp

section \<open>Checkpoints\<close>

definition signed_checkpoint :: "ledger_env \<Rightarrow> string \<Rightarrow> string \<Rightarrow> int \<Rightarrow> int \<Rightarrow> checkpoint_row" where
  "signed_checkpoint env key account balance seq =
     \<lparr>cp_balance = Some (bson_of_credits (Credits balance)), cp_through_seq = Some seq,
      cp_signature = Some (checkpoint_signature env key account seq (Credits balance))\<rparr>"

lemma authenticated_signed:
  "credit_ok (Credits balance) \<Longrightarrow>
     authenticated_checkpoint env key account (signed_checkpoint env key account balance seq) = Ok (Credits balance, seq)"
  by (simp add: authenticated_checkpoint_def signed_checkpoint_def bson_of_credits_def from_bson_decimal of_credits_def)

text \<open>
  There is a checkpoint for each reconciled account that has been posted to, and for no other; it
  carries the account's whole balance and the last position that posts to it, signed.
\<close>

definition checkpoints_ok :: "ledger_env \<Rightarrow> string \<Rightarrow> (int \<times> billing_posting) list \<Rightarrow> (string, checkpoint_row) btree_map \<Rightarrow> bool" where
  "checkpoints_ok env key ps cps \<longleftrightarrow> btm_wf cps \<and>
     (\<forall>account. btm_get cps account =
        (if is_reconciled_account account
         then map_option (signed_checkpoint env key account (account_total account ps)) (last_posting account ps) else None)
      \<and> (is_reconciled_account account \<longrightarrow> \<bar>account_total account ps\<bar> \<le> MAX_PICO))"

lemma map_of_constant: "map_of (map (\<lambda>(a, _). (a, g a)) rows) k = (if k \<in> fst ` set rows then Some (g k) else None)"
  by (induction rows) auto

lemma previous_checkpoints_ok:
  assumes "checkpoints_ok env key ps (lb_checkpoints db)" "previous_checkpoints env key db accounts = Ok previous"
    "account \<in> set accounts" "is_reconciled_account account"
  shows "(case map_of previous account of None \<Rightarrow> ZERO | Some b \<Rightarrow> b) = Credits (account_total account ps)"
proof -
  let ?rows = "filter (\<lambda>(account, _). account \<in> set accounts) (lb_checkpoints db)"
  have wf: "btm_wf (lb_checkpoints db)" using assms(1) by (simp add: checkpoints_ok_def)
  have auth: "authenticated_checkpoint env key a row = Ok (Credits (account_total a ps), the (last_posting a ps))"
    if "(a, row) \<in> set (lb_checkpoints db)" for a row
  proof -
    have get: "btm_get (lb_checkpoints db) a = Some row" using that btm_get_iff [OF wf] by blast
    then show ?thesis using assms(1) unfolding checkpoints_ok_def
      by (auto simp: authenticated_signed credit_ok_def split: if_splits dest!: spec [of _ a])
  qed
  have "try_map (\<lambda>(a, row). and_then (authenticated_checkpoint env key a row) (\<lambda>(balance, _). Ok (a, balance))) rows
      = Ok (map (\<lambda>(a, _). (a, Credits (account_total a ps))) rows)"
    if "set rows \<subseteq> set (lb_checkpoints db)" for rows
    using that by (induction rows) (auto simp: auth)
  then have "previous = map (\<lambda>(a, _). (a, Credits (account_total a ps))) ?rows"
    using assms(2) unfolding previous_checkpoints_def by auto
  then have "map_of previous account = (if account \<in> fst ` set (lb_checkpoints db) then Some (Credits (account_total account ps)) else None)"
    using assms(3) by (simp add: map_of_constant) (auto intro: image_eqI [rotated])
  moreover have "account \<in> fst ` set (lb_checkpoints db) \<longleftrightarrow> last_posting account ps \<noteq> None"
    using assms(1,4) btm_keys_get [of account "lb_checkpoints db"] by (auto simp: checkpoints_ok_def btm_keys_def)
  ultimately show ?thesis using last_posting_None [of account ps] by (auto simp: ZERO_def)
qed

lemma checkpoint_updates_get:
  assumes "try_map (checkpoint_update env key previous) deltas = Ok updates"
  shows "map fst updates = map fst deltas"
    and "map_of deltas account = Some (delta, seq) \<Longrightarrow>
      \<exists>c. checked_add (case map_of previous account of None \<Rightarrow> ZERO | Some b \<Rightarrow> b) delta = Ok c
        \<and> map_of updates account = Some (signed_checkpoint env key account (pico c) seq)"
    and "map_of deltas account = None \<Longrightarrow> map_of updates account = None"
proof -
  have step: "fst y = fst x \<and> (\<exists>c. checked_add (case map_of previous (fst x) of None \<Rightarrow> ZERO | Some b \<Rightarrow> b) (fst (snd x)) = Ok c
       \<and> y = (fst x, signed_checkpoint env key (fst x) (pico c) (snd (snd x))))"
    if "checkpoint_update env key previous x = Ok y" for x y
    using that by (cases x) (auto simp: checkpoint_update_def Let_def of_credits_def signed_checkpoint_def)
  have all: "list_all2 (\<lambda>x y. checkpoint_update env key previous x = Ok y) deltas updates"
    using assms by (simp add: try_map_Ok_iff)
  then show fst_eq: "map fst updates = map fst deltas"
    by (induction rule: list_all2_induct) (auto dest: step)
  show "map_of deltas account = Some (delta, seq) \<Longrightarrow>
      \<exists>c. checked_add (case map_of previous account of None \<Rightarrow> ZERO | Some b \<Rightarrow> b) delta = Ok c
        \<and> map_of updates account = Some (signed_checkpoint env key account (pico c) seq)"
    using all by (induction rule: list_all2_induct) (auto dest!: step split: if_splits)
  show "map_of deltas account = None \<Longrightarrow> map_of updates account = None"
    using fst_eq by (metis list.set_map map_of_eq_None_iff)
qed

lemma checkpoints_after:
  assumes ok: "checkpoints_ok env key ps (lb_checkpoints db)" and deltas: "try_fold add_delta [] qs = Ok deltas"
    and previous: "previous_checkpoints env key db (btm_keys deltas) = Ok previous"
    and updates: "try_map (checkpoint_update env key previous) deltas = Ok updates"
  shows "checkpoints_ok env key (ps @ qs) (foldl (\<lambda>m (account, row). btm_insert account row m) (lb_checkpoints db) updates)"
  unfolding checkpoints_ok_def
proof (intro conjI allI)
  note d = deltas_get [OF deltas btm_wf_Nil]
  note u = checkpoint_updates_get [OF updates]
  have wf: "btm_wf (lb_checkpoints db)" using ok by (simp add: checkpoints_ok_def)
  then show "btm_wf (foldl (\<lambda>m (account, row). btm_insert account row m) (lb_checkpoints db) updates)"
    by (rule btm_wf_inserts)
  have dist: "distinct (map fst updates)" using d btm_wf_distinct u(1) by metis
  fix account
  let ?get = "btm_get (foldl (\<lambda>m (account, row). btm_insert account row m) (lb_checkpoints db) updates) account"
  let ?new = "last_posting account (ps @ qs)" and ?sum = "account_total account (ps @ qs)"
  have old: "btm_get (lb_checkpoints db) account = (if is_reconciled_account account
      then map_option (signed_checkpoint env key account (account_total account ps)) (last_posting account ps) else None)"
      "is_reconciled_account account \<Longrightarrow> \<bar>account_total account ps\<bar> \<le> MAX_PICO"
    using ok by (auto simp: checkpoints_ok_def)
  have "?get = (if is_reconciled_account account then map_option (signed_checkpoint env key account ?sum) ?new else None)
      \<and> (is_reconciled_account account \<longrightarrow> \<bar>?sum\<bar> \<le> MAX_PICO)"
  proof (cases "is_reconciled_account account \<and> last_posting account qs \<noteq> None")
    case True
    then obtain s where s: "last_posting account qs = Some s" by blast
    then have "map_of deltas account = Some (Credits (account_total account qs), s)"
      using d [of account] True by (simp add: btm_get_def)
    moreover from this have "account \<in> set (btm_keys deltas)"
      using btm_keys_get [of account deltas] by (simp add: btm_get_def)
    ultimately obtain c where c: "pico c = account_total account ps + account_total account qs" "credit_ok c"
        "map_of updates account = Some (signed_checkpoint env key account (pico c) s)"
      using u(2) [of account] True previous_checkpoints_ok [OF ok previous]
      by (fastforce simp: checked_ops_Ok_iff)
    then show ?thesis using True by (simp add: btm_get_inserts [OF dist] s credit_ok_def)
  next
    case False
    then have "map_of deltas account = None" using d [of account] by (auto simp: btm_get_def)
    then have "?get = btm_get (lb_checkpoints db) account" by (simp add: btm_get_inserts [OF dist] u(3))
    then show ?thesis using False old last_posting_None [of account qs] by auto
  qed
  then show "?get = (if is_reconciled_account account then map_option (signed_checkpoint env key account ?sum) ?new else None)"
    and "is_reconciled_account account \<longrightarrow> \<bar>?sum\<bar> \<le> MAX_PICO" by blast+
qed

section \<open>The invariant\<close>

definition ledger_ok :: "ledger_env \<Rightarrow> string \<Rightarrow> ledger_db \<Rightarrow> bool" where
  "ledger_ok env key db \<longleftrightarrow>
     ledger_linked env key 1 GENESIS_PREV_HASH (lb_entries db)
     \<and> list_all (\<lambda>e. validate_postings e = Ok ()) (lb_entries db)
     \<and> distinct (map bl_id (lb_entries db)) \<and> distinct (List.map_filter bl_dedupe_key (lb_entries db))
     \<and> checkpoints_ok env key (entry_postings (lb_entries db)) (lb_checkpoints db)"

lemma linked_tail:
  assumes "ledger_linked env key 1 h (lb_entries db)"
  shows "tail_entry db = (if lb_entries db = [] then None else Some (last (lb_entries db)))"
proof -
  have "sorted (map bl_seq (lb_entries db))"
    using linked_sorted [OF assms] by (simp add: sorted_map sorted_wrt_mono_rel [of _ "\<lambda>a b. bl_seq a < bl_seq b"])
  then have "sort_key bl_seq (lb_entries db) = lb_entries db" by (simp add: sort_key_id_if_sorted)
  then show ?thesis by (cases "lb_entries db" rule: rev_cases) (simp_all add: tail_entry_def)
qed

lemma linked_next:
  assumes "ledger_linked env key 1 GENESIS_PREV_HASH (lb_entries db)"
    "(case tail_entry db of None \<Rightarrow> Ok 1 | Some t \<Rightarrow> of_credits (ok_or (checked_i64 (bl_seq t + 1)) CreditsError)) = Ok nxt"
  shows "nxt = 1 + int (length (lb_entries db))"
    and "(case tail_entry db of None \<Rightarrow> GENESIS_PREV_HASH | Some t \<Rightarrow> bl_entry_hash t)
      = end_hash bl_entry_hash GENESIS_PREV_HASH (lb_entries db)"
  using assms linked_seq [OF assms(1), of "length (lb_entries db) - 1"]
  by (cases "lb_entries db" rule: rev_cases; simp add: linked_tail [OF assms(1)] of_credits_def)+

lemma entry_postings_append [simp]: "entry_postings (es @ fs) = entry_postings es @ entry_postings fs"
  by (simp add: entry_postings_def)

lemma insert_many_Ok:
  "insert_many rows new = Ok all \<longleftrightarrow> all = rows @ new \<and> distinct (map bl_id (rows @ new))
     \<and> distinct (map bl_seq (rows @ new)) \<and> distinct (List.map_filter bl_dedupe_key (rows @ new))"
  by (auto simp: insert_many_def Let_def)

lemma append_entriesE:
  assumes "ledger_ok env key db" "append_entries_with_key env key entries db = Ok (saved, db')"
  obtains new deltas previous updates where
    "for_each validate_postings entries = Ok ()"
    "checked_i64 (1 + int (length (lb_entries db))) = Some (1 + int (length (lb_entries db)))"
    "append_loop env key (existing_entries (lb_entries db) (List.map_filter bl_dedupe_key entries))
       (1 + int (length (lb_entries db))) (end_hash bl_entry_hash GENESIS_PREV_HASH (lb_entries db)) [] entries = Ok (saved, new)"
    "lb_entries db' = lb_entries db @ new" "distinct (map bl_id (lb_entries db'))"
    "distinct (List.map_filter bl_dedupe_key (lb_entries db'))"
    "try_fold add_delta [] (entry_postings new) = Ok deltas"
    "previous_checkpoints env key db (btm_keys deltas) = Ok previous"
    "try_map (checkpoint_update env key previous) deltas = Ok updates"
    "lb_checkpoints db' = foldl (\<lambda>m (account, row). btm_insert account row m) (lb_checkpoints db) updates"
proof -
  have lk: "ledger_linked env key 1 GENESIS_PREV_HASH (lb_entries db)"
    and uniq: "distinct (map bl_id (lb_entries db))" "distinct (List.map_filter bl_dedupe_key (lb_entries db))"
    using assms(1) by (simp_all add: ledger_ok_def)
  obtain nxt new rows deltas previous updates where
    valid: "for_each validate_postings entries = Ok ()"
    and nxt: "(case tail_entry db of None \<Rightarrow> Ok 1 | Some t \<Rightarrow> of_credits (ok_or (checked_i64 (bl_seq t + 1)) CreditsError)) = Ok nxt"
    and loop: "append_loop env key (existing_entries (lb_entries db) (List.map_filter bl_dedupe_key entries)) nxt
        (case tail_entry db of None \<Rightarrow> GENESIS_PREV_HASH | Some t \<Rightarrow> bl_entry_hash t) [] entries = Ok (saved, new)"
    and rows: "(if new = [] then Ok (lb_entries db) else insert_many (lb_entries db) new) = Ok rows"
    and deltas: "try_fold add_delta [] (entry_postings new) = Ok deltas"
    and previous: "previous_checkpoints env key db (btm_keys deltas) = Ok previous"
    and updates: "try_map (checkpoint_update env key previous) deltas = Ok updates"
    and db': "db' = \<lparr>lb_entries = rows,
               lb_checkpoints = foldl (\<lambda>m (account, row). btm_insert account row m) (lb_checkpoints db) updates\<rparr>"
    using assms(2) unfolding append_entries_with_key_def Let_def by auto
  note next_eq = linked_next [OF lk nxt]
  have "rows = lb_entries db @ new" "distinct (map bl_id rows)" "distinct (List.map_filter bl_dedupe_key rows)"
    using rows uniq by (auto simp: insert_many_Ok split: if_splits)
  moreover have "checked_i64 nxt = Some nxt"
    using nxt by (auto simp: of_credits_def checked_i64_def i64_min_def i64_max_def split: option.splits if_splits)
  ultimately show thesis
    using that [OF valid _ _ _ _ _ deltas previous updates] loop db' by (simp add: next_eq)
qed

lemma append_ledger_ok:
  assumes ok: "ledger_ok env key db" and app: "append_entries_with_key env key entries db = Ok (saved, db')"
  shows "ledger_ok env key db'"
proof -
  from append_entriesE [OF ok app] obtain new deltas previous updates where
    loop: "append_loop env key (existing_entries (lb_entries db) (List.map_filter bl_dedupe_key entries))
       (1 + int (length (lb_entries db))) (end_hash bl_entry_hash GENESIS_PREV_HASH (lb_entries db)) [] entries = Ok (saved, new)"
    and rows: "lb_entries db' = lb_entries db @ new" "distinct (map bl_id (lb_entries db'))"
      "distinct (List.map_filter bl_dedupe_key (lb_entries db'))"
    and cps: "try_fold add_delta [] (entry_postings new) = Ok deltas" "previous_checkpoints env key db (btm_keys deltas) = Ok previous"
      "try_map (checkpoint_update env key previous) deltas = Ok updates"
      "lb_checkpoints db' = foldl (\<lambda>m (account, row). btm_insert account row m) (lb_checkpoints db) updates" .
  have "checkpoints_ok env key (entry_postings (lb_entries db')) (lb_checkpoints db')"
    using checkpoints_after [OF _ cps(1-3)] ok by (simp add: rows(1) cps(4) ledger_ok_def)
  moreover have "ledger_linked env key 1 GENESIS_PREV_HASH (lb_entries db') \<and> list_all (\<lambda>e. validate_postings e = Ok ()) (lb_entries db')"
    using append_loop_linked [OF loop] ok by (simp add: rows(1) ledger_ok_def)
  ultimately show ?thesis using rows(2,3) by (simp add: ledger_ok_def)
qed

section \<open>Retries\<close>

lemma map_filter_Cons: "List.map_filter f (x # xs) = (case f x of None \<Rightarrow> List.map_filter f xs | Some y \<Rightarrow> y # List.map_filter f xs)"
  by (simp add: List.map_filter_simps)

lemma in_map_filter: "y \<in> set (List.map_filter f xs) \<longleftrightarrow> (\<exists>x \<in> set xs. f x = Some y)"
  by (induction xs) (auto simp: map_filter_Cons List.map_filter_simps split: option.splits)

lemma existing_entries_mem:
  "(k, r) \<in> set (existing_entries rows keys) \<longleftrightarrow> r \<in> set rows \<and> bl_dedupe_key r = Some k \<and> k \<in> set keys"
  by (auto simp: existing_entries_def in_map_filter split: option.splits if_splits)

lemma existing_entries_found:
  assumes "distinct (List.map_filter bl_dedupe_key rows)" "r \<in> set rows" "bl_dedupe_key r = Some k" "k \<in> set keys"
  shows "map_of (existing_entries rows keys) k = Some r"
proof -
  let ?f = "\<lambda>r. case bl_dedupe_key r of Some k \<Rightarrow> if k \<in> set keys then Some (k, r) else None | None \<Rightarrow> None"
  have "map fst (List.map_filter ?f rows) = filter (\<lambda>k. k \<in> set keys) (List.map_filter bl_dedupe_key rows)"
    by (induction rows) (auto simp: map_filter_Cons List.map_filter_simps split: option.splits)
  then have "distinct (map fst (List.map_filter ?f rows))" using assms(1) by simp
  then have "distinct (map fst (existing_entries rows keys))"
    by (simp add: existing_entries_def flip: rev_map)
  then show ?thesis using assms(2-4) by (simp add: existing_entries_mem)
qed

lemma append_loop_saved:
  assumes "append_loop env key existing n prev deduped es = Ok (saved, new)"
    and "\<And>k r. (k, r) \<in> set existing \<Longrightarrow> r \<in> rows \<and> bl_dedupe_key r = Some k"
    and "\<And>k r. (k, r) \<in> set deduped \<Longrightarrow> r \<in> rows \<and> bl_dedupe_key r = Some k"
    and "set new \<subseteq> rows"
  shows "list_all2 (\<lambda>e s. bl_dedupe_key s = bl_dedupe_key e \<and> s \<in> rows) es saved"
  using assms(1,3,4)
proof (induction es arbitrary: n prev deduped saved new)
  case (Cons e es)
  from Cons.prems(1) show ?case
  proof (cases rule: append_loopE)
    case (kept s saved')
    from kept(1) obtain k where "bl_dedupe_key e = Some k" "(k, s) \<in> set existing \<or> (k, s) \<in> set deduped"
      unfolding bind_eq_Some_conv by (blast dest: map_of_SomeD)
    then have "s \<in> rows \<and> bl_dedupe_key s = bl_dedupe_key e" using assms(2) Cons.prems(2) by metis
    then show ?thesis using Cons.IH [OF kept(3) Cons.prems(2,3)] kept(2) by simp
  next
    case (appended saved' new')
    have "list_all2 (\<lambda>e s. bl_dedupe_key s = bl_dedupe_key e \<and> s \<in> rows) es saved'"
    proof (rule Cons.IH [OF appended(5)])
      show "set new' \<subseteq> rows" using Cons.prems(3) by (simp add: appended(4))
      show "r \<in> rows \<and> bl_dedupe_key r = Some k"
        if "(k, r) \<in> set (case bl_dedupe_key e of None \<Rightarrow> deduped | Some k \<Rightarrow> (k, chained env key n prev e) # deduped)" for k r
        using that Cons.prems(2) [of k r] Cons.prems(3) by (cases "bl_dedupe_key e") (auto simp: appended(4))
    qed
    then show ?thesis using Cons.prems(3) by (simp add: appended(3,4))
  qed
qed simp

lemma append_loop_next:
  "append_loop env key existing n prev deduped es = Ok (saved, new) \<Longrightarrow>
     new = [] \<or> checked_i64 (n + int (length new)) = Some (n + int (length new))"
proof (induction es arbitrary: n prev deduped saved new)
  case (Cons e es)
  from Cons.prems show ?case
  proof (cases rule: append_loopE)
    case (appended saved' new')
    then show ?thesis using Cons.IH [OF appended(5)] by (auto simp: algebra_simps)
  qed (rule Cons.IH)
qed simp

lemma append_loop_found:
  "list_all2 (\<lambda>e s. \<exists>k. bl_dedupe_key e = Some k \<and> map_of existing k = Some s) es saved \<Longrightarrow>
     append_loop env key existing n prev deduped es = Ok (saved, [])"
  by (induction es saved rule: list_all2_induct) auto

lemma append_again:
  assumes ok: "ledger_ok env key db" and app: "append_entries_with_key env key entries db = Ok (saved, db')"
    and keyed: "\<And>e. e \<in> set entries \<Longrightarrow> bl_dedupe_key e \<noteq> None"
    and again: "map bl_dedupe_key retry = map bl_dedupe_key entries" "for_each validate_postings retry = Ok ()"
  shows "append_entries_with_key env key retry db' = Ok (saved, db')"
proof -
  have ok': "ledger_ok env key db'" by (rule append_ledger_ok [OF ok app])
  then have lk': "ledger_linked env key 1 GENESIS_PREV_HASH (lb_entries db')" by (simp add: ledger_ok_def)
  from append_entriesE [OF ok app] obtain new where
    head: "checked_i64 (1 + int (length (lb_entries db))) = Some (1 + int (length (lb_entries db)))"
    and loop: "append_loop env key (existing_entries (lb_entries db) (List.map_filter bl_dedupe_key entries))
       (1 + int (length (lb_entries db))) (end_hash bl_entry_hash GENESIS_PREV_HASH (lb_entries db)) [] entries = Ok (saved, new)"
    and rows: "lb_entries db' = lb_entries db @ new" "distinct (List.map_filter bl_dedupe_key (lb_entries db'))" .
  define keys where "keys = List.map_filter bl_dedupe_key retry"
  have "list_all2 (\<lambda>e s. bl_dedupe_key s = bl_dedupe_key e \<and> s \<in> set (lb_entries db')) entries saved"
    using append_loop_saved [OF loop, of "set (lb_entries db')"] by (auto simp: existing_entries_mem rows(1))
  then have "list_all2 (\<lambda>e s. \<exists>k. bl_dedupe_key e = Some k \<and> map_of (existing_entries (lb_entries db') keys) k = Some s) retry saved"
    unfolding list_all2_conv_all_nth
  proof (intro conjI allI impI)
    assume all: "length entries = length saved \<and>
      (\<forall>i < length entries. bl_dedupe_key (saved ! i) = bl_dedupe_key (entries ! i) \<and> saved ! i \<in> set (lb_entries db'))"
    have len: "length retry = length entries" using again(1) by (metis length_map)
    then show "length retry = length saved" using all by simp
    fix i assume i: "i < length retry"
    then have "bl_dedupe_key (retry ! i) = bl_dedupe_key (entries ! i)" using again(1) len by (metis nth_map)
    moreover obtain k where "bl_dedupe_key (entries ! i) = Some k" using keyed [of "entries ! i"] i len by auto
    moreover from calculation have "k \<in> set keys" using i by (auto simp: keys_def in_map_filter)
    ultimately show "\<exists>k. bl_dedupe_key (retry ! i) = Some k \<and> map_of (existing_entries (lb_entries db') keys) k = Some (saved ! i)"
      using existing_entries_found [OF rows(2)] all i len by auto
  qed
  then have loop': "append_loop env key (existing_entries (lb_entries db') keys) n prev [] retry = Ok (saved, [])" for n prev
    by (rule append_loop_found)
  have "checked_i64 (1 + int (length (lb_entries db'))) = Some (1 + int (length (lb_entries db')))"
    using append_loop_next [OF loop] head by (auto simp: rows(1) algebra_simps)
  then have "(case tail_entry db' of None \<Rightarrow> Ok 1 | Some t \<Rightarrow> of_credits (ok_or (checked_i64 (bl_seq t + 1)) CreditsError))
      = Ok (1 + int (length (lb_entries db')))"
    using linked_seq [OF lk', of "length (lb_entries db') - 1"]
    by (cases "lb_entries db'" rule: rev_cases) (simp_all add: linked_tail [OF lk'] of_credits_def)
  then show ?thesis unfolding append_entries_with_key_def Let_def keys_def [symmetric]
    by (simp add: again(2) loop' entry_postings_def previous_checkpoints_def btm_keys_def)
qed

section \<open>Balance\<close>

definition side_total :: "posting_side \<Rightarrow> billing_posting list \<Rightarrow> int" where
  "side_total side ps = sum_list (map (\<lambda>p. pico (bp_amount p)) (filter (\<lambda>p. bp_side p = side) ps))"

lemma sum_postings_sides:
  "sum_postings ps d c = Ok (d', c') \<Longrightarrow> pico d' = pico d + side_total Debit ps \<and> pico c' = pico c + side_total Credit ps"
proof (induction ps arbitrary: d c)
  case (Cons p ps)
  then show ?case
    by (auto simp: side_total_def of_credits_def checked_ops_Ok_iff split: if_splits posting_side.splits dest!: Cons.IH)
qed (simp add: side_total_def)

lemma valid_balanced:
  assumes "validate_postings e = Ok ()" "bl_event_type e = AccountingV2"
  shows "side_total Debit (bl_postings e) = side_total Credit (bl_postings e)"
  using assms sum_postings_sides [of "bl_postings e" ZERO ZERO]
  by (fastforce simp: validate_postings_def side_total_def split: if_splits)

lemma side_total_append [simp]: "side_total side (ps @ qs) = side_total side ps + side_total side qs"
  by (simp add: side_total_def)

lemma side_total_sum:
  "side_total side (concat (map bl_postings es)) = sum_list (map (\<lambda>e. side_total side (bl_postings e)) es)"
  by (induction es) (simp_all add: side_total_def)

end
