(* ===== verification/Ledger_Verification.thy ===== *)
theory Ledger_Verification
  imports Ledger_Append
begin

text \<open>
  The verification of the billing ledger: what a page's verdict is worth.
\<close>

section \<open>Verification\<close>

abbreviation all_balanced :: "ledger_entry list \<Rightarrow> bool" where
  "all_balanced \<equiv> list_all (\<lambda>e. validate_postings e = Ok ())"

lemma not_err_unit [simp]: "\<not> is_err r \<longleftrightarrow> r = Ok ()"
  by (cases r) auto

lemma verify_loop_None:
  "verify_loop env key n h c es = (c', n', None) \<longleftrightarrow>
     ledger_linked env key n h es \<and> all_balanced es \<and> c' = c + length es \<and> n' = n + int (length es)"
  by (induction es arbitrary: n h c) (auto simp: Let_def)

lemma verify_loop_count: "verify_loop env key n h c es = (c', n', Some b) \<Longrightarrow> c' < c + length es"
  by (induction es arbitrary: n h c) (auto simp: Let_def split: if_splits, fastforce+)

text \<open>The hash a page of the verification starts from.\<close>

definition start_hash :: "ledger_db \<Rightarrow> int \<Rightarrow> string option" where
  "start_hash db from_seq =
     (if from_seq = 1 then Some GENESIS_PREV_HASH else map_option bl_entry_hash (load_entry_by_seq db (from_seq - 1)))"

lemma verify_chain_args:
  assumes "verify_chain env key db from_seq to_seq limit = Ok r"
  shows "1 \<le> (case from_seq of None \<Rightarrow> 1 | Some s \<Rightarrow> s)"
  using assms by (auto simp: verify_chain_def Let_def split: if_splits)

lemma verify_chain_status:
  fixes from_seq limit
  defines "frm \<equiv> (case from_seq of None \<Rightarrow> 1 | Some s \<Rightarrow> s)"
    and "lmt \<equiv> (case limit of None \<Rightarrow> DEFAULT_VERIFY_LIMIT | Some l \<Rightarrow> l)"
  assumes "verify_chain env key db from_seq to_seq limit = Ok r"
  shows "lr_status r = LedgerOk \<longleftrightarrow>
    (\<exists>h. start_hash db frm = Some h \<and> ledger_linked env key frm h (verify_query db frm to_seq lmt)
       \<and> all_balanced (verify_query db frm to_seq lmt))"
proof (cases "start_hash db frm")
  case None
  then show ?thesis using assms(3)
    by (auto simp: verify_chain_def Let_def frm_def [symmetric] lmt_def [symmetric] start_hash_def split: if_splits)
next
  case (Some h)
  obtain c n b where loop: "verify_loop env key frm h 0 (verify_query db frm to_seq lmt) = (c, n, b)" by (metis prod_cases3)
  have "lr_status r = LedgerOk \<longleftrightarrow> b = None"
    using assms(3) Some loop
    by (auto simp: verify_chain_def Let_def frm_def [symmetric] lmt_def [symmetric] start_hash_def
        split: if_splits option.splits)
  also have "\<dots> \<longleftrightarrow> ledger_linked env key frm h (verify_query db frm to_seq lmt) \<and> all_balanced (verify_query db frm to_seq lmt)"
    using loop verify_loop_None [of env key frm h 0 "verify_query db frm to_seq lmt"] by (cases b) auto
  finally show ?thesis using Some by simp
qed

lemma verify_chain_report:
  fixes from_seq limit
  defines "frm \<equiv> (case from_seq of None \<Rightarrow> 1 | Some s \<Rightarrow> s)"
    and "lmt \<equiv> (case limit of None \<Rightarrow> DEFAULT_VERIFY_LIMIT | Some l \<Rightarrow> l)"
  assumes args: "1 \<le> frm" "case to_seq of None \<Rightarrow> True | Some t \<Rightarrow> frm \<le> t" "1 \<le> lmt" "lmt \<le> MAX_VERIFY_LIMIT"
    and page: "start_hash db frm = Some h" "ledger_linked env key frm h (verify_query db frm to_seq lmt)"
      "all_balanced (verify_query db frm to_seq lmt)"
  shows "verify_chain env key db from_seq to_seq limit = Ok
     (let page = verify_query db frm to_seq lmt; next_seq = frm + int (length page); head = map_option bl_seq (tail_entry db) in
      \<lparr>lr_status = LedgerOk, lr_checked_count = length page, lr_head_seq = head,
       lr_head_hash = map_option bl_entry_hash (tail_entry db), lr_break_info = None,
       lr_next_from_seq =
         (if int (length page) = lmt \<and> (case to_seq of None \<Rightarrow> True | Some t \<Rightarrow> next_seq \<le> t)
             \<and> (case head of None \<Rightarrow> False | Some h \<Rightarrow> next_seq \<le> h)
          then Some next_seq else None)\<rparr>)"
proof -
  have "verify_loop env key frm h 0 (verify_query db frm to_seq lmt)
      = (length (verify_query db frm to_seq lmt), frm + int (length (verify_query db frm to_seq lmt)), None)"
    using page(2,3) by (simp add: verify_loop_None)
  moreover have "\<not> frm < 1" "\<not> (case to_seq of None \<Rightarrow> False | Some t \<Rightarrow> t < frm)" "\<not> (lmt < 1 \<or> MAX_VERIFY_LIMIT < lmt)"
    using args by (auto split: option.splits)
  ultimately show ?thesis
    using page(1) unfolding verify_chain_def frm_def [symmetric] lmt_def [symmetric] start_hash_def Let_def by simp
qed

end
