(* ===== verification/Ledger_Properties.thy ===== *)
theory Ledger_Properties
  imports Ledger_Verification
begin

text \<open>
  What the billing ledger promises over its whole life: each committed group keeps the chain, the
  checkpoints and the balance; a retry posts nothing; verification accepts what was appended and
  rejects everything else; and a verified head pins all that was ever recorded.
\<close>

section \<open>Histories\<close>

inductive ledger_reachable :: "ledger_env \<Rightarrow> string \<Rightarrow> ledger_db \<Rightarrow> bool" for env key where
  ledger_empty: "ledger_reachable env key \<lparr>lb_entries = [], lb_checkpoints = []\<rparr>"
| ledger_append: "ledger_reachable env key db \<Longrightarrow> append_entries_with_key env key entries db = Ok (saved, db')
    \<Longrightarrow> ledger_reachable env key db'"

lemma empty_ledger_ok: "ledger_ok env key \<lparr>lb_entries = [], lb_checkpoints = []\<rparr>"
  by (simp add: ledger_ok_def checkpoints_ok_def entry_postings_def map_filter_def MAX_PICO_def)

lemma reachable_ledger_ok: "ledger_reachable env key db \<Longrightarrow> ledger_ok env key db"
  by (induction rule: ledger_reachable.induct) (auto intro: empty_ledger_ok append_ledger_ok)

section \<open>A history of two entries\<close>

definition demo_ledger_env :: ledger_env where
  "demo_ledger_env = \<lparr>le_hmac_hex = (\<lambda>key m. key @ m), le_decimal_str = (\<lambda>_. [])\<rparr>"

definition demo_settlement :: "string \<Rightarrow> string \<Rightarrow> int \<Rightarrow> ledger_entry" where
  "demo_settlement k account amount =
     \<lparr>bl_id = k, bl_seq = 0, bl_prev_hash = [], bl_entry_hash = [], bl_event_type = AccountingV2,
      bl_movement = Some ''usage_settled'', bl_postings = transfer account ''revenue'' (Credits amount),
      bl_owner_id = ''o'', bl_reference_id = ''r'', bl_transaction_id = None, bl_layer = None, bl_metric = None,
      bl_service_slug = None, bl_model = None, bl_quantity = Some 1, bl_amount_credits = None, bl_amount_micros = None,
      bl_balance_credits = None, bl_dedupe_key = Some k, bl_wallet_id = None, bl_created_at = 0\<rparr>"

definition demo_ledger_entries :: "ledger_entry list" where
  "demo_ledger_entries = [demo_settlement ''a'' ''wallet:w'' 5, demo_settlement ''b'' ''wallet:w'' 7]"

definition demo_chain :: "ledger_entry list" where
  "demo_chain =
     (let first = chained demo_ledger_env ''k'' 1 GENESIS_PREV_HASH (demo_settlement ''a'' ''wallet:w'' 5)
      in [first, chained demo_ledger_env ''k'' 2 (bl_entry_hash first) (demo_settlement ''b'' ''wallet:w'' 7)])"

definition demo_books :: ledger_db where
  "demo_books =
     \<lparr>lb_entries = demo_chain,
      lb_checkpoints = [(''wallet:w'', signed_checkpoint demo_ledger_env ''k'' ''wallet:w'' 12 2)]\<rparr>"

lemma demo_valid: "list_all (\<lambda>e. validate_postings e = Ok ()) demo_ledger_entries"
  by code_simp

lemma demo_deltas: "try_fold add_delta [] (entry_postings demo_chain) = Ok [(''wallet:w'', Credits 12, 2)]"
proof -
  have "entry_postings demo_chain = map (Pair 1) (transfer ''wallet:w'' ''revenue'' (Credits 5)) @ map (Pair 2) (transfer ''wallet:w'' ''revenue'' (Credits 7))"
    by (simp add: entry_postings_def demo_chain_def demo_settlement_def Let_def)
  moreover have "try_fold add_delta [] (map (Pair 1) (transfer ''wallet:w'' ''revenue'' (Credits 5)) @ map (Pair 2) (transfer ''wallet:w'' ''revenue'' (Credits 7)))
      = Ok [(''wallet:w'', Credits 12, 2)]" by code_simp
  ultimately show ?thesis by simp
qed

lemma demo_append:
  "append_entries_with_key demo_ledger_env ''k'' demo_ledger_entries \<lparr>lb_entries = [], lb_checkpoints = []\<rparr>
     = Ok (demo_chain, demo_books)"
proof -
  have loop: "append_loop demo_ledger_env ''k'' [] 1 GENESIS_PREV_HASH [] demo_ledger_entries = Ok (demo_chain, demo_chain)"
    using demo_valid
    by (simp add: demo_ledger_entries_def demo_chain_def Let_def demo_settlement_def of_credits_def
        checked_i64_def i64_min_def i64_max_def)
  have rows: "insert_many [] demo_chain = Ok demo_chain"
    by (simp add: insert_many_def demo_chain_def Let_def demo_settlement_def map_filter_Cons List.map_filter_simps)
  have update: "checkpoint_update demo_ledger_env ''k'' [] (''wallet:w'', Credits 12, 2)
      = Ok (''wallet:w'', signed_checkpoint demo_ledger_env ''k'' ''wallet:w'' 12 2)"
  proof -
    have "checked_add ZERO (Credits 12) = Ok (Credits 12)" by code_simp
    then show ?thesis by (simp add: checkpoint_update_def signed_checkpoint_def of_credits_def)
  qed
  have "demo_chain \<noteq> []" by (simp add: demo_chain_def Let_def)
  then show ?thesis
    unfolding append_entries_with_key_def Let_def
    using demo_valid loop rows demo_deltas update
    by (simp add: tail_entry_def existing_entries_def List.map_filter_simps previous_checkpoints_def demo_books_def list_all_iff)
qed

lemma demo_reachable: "ledger_reachable demo_ledger_env ''k'' demo_books"
  by (rule ledger_append [OF ledger_empty demo_append])

section \<open>Appending\<close>

text \<open>
  C12. The signed checkpoints are the balances: in every history, a wallet or grant account that has
  been posted to has one checkpoint, whose balance is the sum of all its postings (debits less
  credits) and whose position is that of its last posting, signed with the key; no other account has
  one.
\<close>

theorem checkpoints_are_balances:
  assumes "ledger_reachable env key db"
  shows "btm_get (lb_checkpoints db) account =
    (if is_reconciled_account account
     then map_option (signed_checkpoint env key account (account_total account (entry_postings (lb_entries db))))
            (last_posting account (entry_postings (lb_entries db)))
     else None)"
  using reachable_ledger_ok [OF assms] by (simp add: ledger_ok_def checkpoints_ok_def)

lemma checkpoints_are_balances_witness:
  "btm_get (lb_checkpoints demo_books) ''wallet:w''
     = Some (signed_checkpoint demo_ledger_env ''k'' ''wallet:w'' 12 2)
   \<and> btm_get (lb_checkpoints demo_books) ''revenue'' = None"
proof -
  have "\<not> is_reconciled_account ''revenue''" by code_simp
  then show ?thesis using checkpoints_are_balances [OF demo_reachable, of "''revenue''"]
    by (simp add: demo_books_def)
qed

text \<open>
  C18. The books balance: in every history, what the committed transactions debit is what they
  credit, to the picocredit; so no sequence of postings creates or destroys credits.
\<close>

theorem books_balance:
  assumes "ledger_reachable env key db"
  defines "posted \<equiv> concat (map bl_postings (filter (\<lambda>e. bl_event_type e = AccountingV2) (lb_entries db)))"
  shows "side_total Debit posted = side_total Credit posted"
proof -
  have "side_total Debit (bl_postings e) = side_total Credit (bl_postings e)"
    if "e \<in> set (filter (\<lambda>e. bl_event_type e = AccountingV2) (lb_entries db))" for e
    using that reachable_ledger_ok [OF assms(1)] by (auto simp: ledger_ok_def list_all_iff intro: valid_balanced)
  then show ?thesis unfolding posted_def side_total_sum by (metis (mono_tags, lifting) map_eq_conv)
qed

lemma books_balance_witness:
  "side_total Debit (concat (map bl_postings (filter (\<lambda>e. bl_event_type e = AccountingV2) (lb_entries demo_books))))
     = side_total Credit (concat (map bl_postings (filter (\<lambda>e. bl_event_type e = AccountingV2) (lb_entries demo_books))))"
  by (rule books_balance [OF demo_reachable])

text \<open>
  C9. Posting is idempotent: a group whose entries all carry deduplication keys, appended again after
  it was committed - with whatever contents, under the same keys - returns the entries that were
  committed the first time and changes neither the chain nor a checkpoint.
\<close>

theorem retry_posts_nothing:
  assumes "ledger_reachable env key db" "append_entries_with_key env key entries db = Ok (saved, db')"
    and "\<And>e. e \<in> set entries \<Longrightarrow> bl_dedupe_key e \<noteq> None"
    and "map bl_dedupe_key retry = map bl_dedupe_key entries" "for_each validate_postings retry = Ok ()"
  shows "append_entries_with_key env key retry db' = Ok (saved, db')"
  by (rule append_again [OF reachable_ledger_ok [OF assms(1)] assms(2-5)])

lemma retry_posts_nothing_witness:
  "append_entries_with_key demo_ledger_env ''k'' demo_ledger_entries demo_books = Ok (demo_chain, demo_books)"
proof (rule retry_posts_nothing [OF ledger_empty demo_append])
  show "for_each validate_postings demo_ledger_entries = Ok ()" using demo_valid by (simp add: list_all_iff)
qed (auto simp: demo_ledger_entries_def demo_settlement_def)

section \<open>Verifying\<close>

lemma verify_query_linked:
  assumes "ledger_linked env key 1 h (lb_entries db)"
  shows "verify_query db frm to_seq lmt =
    take (nat lmt) (drop (nat (frm - 1)) (case to_seq of None \<Rightarrow> lb_entries db | Some t \<Rightarrow> take (nat t) (lb_entries db)))"
  unfolding verify_query_def by (simp only: linked_range [OF assms])

lemma linked_start_hash:
  assumes lk: "ledger_linked env key 1 GENESIS_PREV_HASH (lb_entries db)" and "1 \<le> frm" "frm \<le> 1 + int (length (lb_entries db))"
  shows "start_hash db frm = Some (end_hash bl_entry_hash GENESIS_PREV_HASH (take (nat (frm - 1)) (lb_entries db)))"
proof (cases "frm = 1")
  case False
  define i where "i = nat (frm - 2)"
  have i: "i < length (lb_entries db)" "frm - 1 = 1 + int i" "nat (frm - 1) = Suc i" using assms False by (auto simp: i_def)
  have "find (\<lambda>e. bl_seq e = frm - 1) (lb_entries db) = Some (lb_entries db ! i)"
    using i by (auto simp: find_Some_iff linked_seq [OF lk])
  then show ?thesis using False i by (simp add: start_hash_def load_entry_by_seq_def take_Suc_conv_app_nth)
qed (simp add: start_hash_def)

text \<open>
  What was appended verifies: on every history, the verification of any range that starts at or
  before the next position succeeds, having checked every entry of the range up to the limit, and
  reports the newest entry as the head.
\<close>

theorem honest_ledger_verifies:
  fixes to_seq
  assumes "ledger_reachable env key db"
    and "1 \<le> frm" "frm \<le> 1 + int (length (lb_entries db))" "1 \<le> lmt" "lmt \<le> MAX_VERIFY_LIMIT"
    and "case to_seq of None \<Rightarrow> True | Some t \<Rightarrow> frm \<le> t"
  defines "end_seq \<equiv> (case to_seq of None \<Rightarrow> int (length (lb_entries db)) | Some t \<Rightarrow> min t (int (length (lb_entries db))))"
  shows "\<exists>nxt. verify_chain env key db (Some frm) to_seq (Some lmt) = Ok
    \<lparr>lr_status = LedgerOk, lr_checked_count = nat (min lmt (end_seq - frm + 1)),
     lr_head_seq = (if lb_entries db = [] then None else Some (int (length (lb_entries db)))),
     lr_head_hash = (if lb_entries db = [] then None else Some (bl_entry_hash (last (lb_entries db)))),
     lr_break_info = None, lr_next_from_seq = nxt\<rparr>"
proof -
  let ?es = "lb_entries db" and ?k = "nat (frm - 1)"
  let ?upto = "case to_seq of None \<Rightarrow> lb_entries db | Some t \<Rightarrow> take (nat t) (lb_entries db)"
  have lk: "ledger_linked env key 1 GENESIS_PREV_HASH ?es" and valid: "all_balanced ?es"
    using reachable_ledger_ok [OF assms(1)] by (simp_all add: ledger_ok_def)
  have query: "verify_query db frm to_seq lmt = take (nat lmt) (drop ?k ?upto)" by (rule verify_query_linked [OF lk])
  have page: "ledger_linked env key frm (end_hash bl_entry_hash GENESIS_PREV_HASH (take ?k ?es)) (verify_query db frm to_seq lmt)"
    using linked_take linked_segment [OF lk assms(2,3,6)] unfolding query by blast
  have "set (verify_query db frm to_seq lmt) \<subseteq> set ?es"
    using query by (cases to_seq) (auto dest!: in_set_takeD in_set_dropD)
  then have bal: "all_balanced (verify_query db frm to_seq lmt)" using valid by (auto simp: list_all_iff)
  have count: "length (verify_query db frm to_seq lmt) = nat (min lmt (end_seq - frm + 1))"
    using assms(2-6) unfolding query end_seq_def by (cases to_seq) (auto simp: min_def)
  have tail: "map_option bl_seq (tail_entry db) = (if ?es = [] then None else Some (int (length ?es)))"
    "map_option bl_entry_hash (tail_entry db) = (if ?es = [] then None else Some (bl_entry_hash (last ?es)))"
    using linked_seq [OF lk, of "length ?es - 1"] by (auto simp: linked_tail [OF lk] last_conv_nth)
  note report = verify_chain_report [of "Some frm" to_seq "Some lmt", unfolded option.case, OF assms(2,6,4,5) _ page bal]
  show ?thesis using report linked_start_hash [OF lk assms(2,3)] by (simp add: Let_def count tail)
qed

lemma honest_ledger_verifies_witness:
  "\<exists>nxt. verify_chain demo_ledger_env ''k'' demo_books (Some 1) None (Some 10) = Ok
    \<lparr>lr_status = LedgerOk, lr_checked_count = 2, lr_head_seq = Some 2,
     lr_head_hash = Some (bl_entry_hash (last demo_chain)), lr_break_info = None, lr_next_from_seq = nxt\<rparr>"
  using honest_ledger_verifies [OF demo_reachable, of 1 10 None]
  by (simp add: demo_books_def demo_chain_def Let_def MAX_VERIFY_LIMIT_def)

text \<open>
  A verdict is exact: on any stored entries whatever, a page is accepted exactly when the entry
  before it is there (or it is the first page), its entries are at consecutive positions, each carries
  the hash of the one before and the code of its own canonical bytes, and each v2 entry balances.
\<close>

theorem verify_accepts_iff_intact:
  fixes from_seq lmt
  assumes "verify_chain env key db from_seq to_seq lmt = Ok r"
  defines "page \<equiv> verify_query db (case from_seq of None \<Rightarrow> 1 | Some s \<Rightarrow> s) to_seq (case lmt of None \<Rightarrow> DEFAULT_VERIFY_LIMIT | Some l \<Rightarrow> l)"
  shows "lr_status r = LedgerOk \<longleftrightarrow>
    (\<exists>h. start_hash db (case from_seq of None \<Rightarrow> 1 | Some s \<Rightarrow> s) = Some h
       \<and> linked bl_seq bl_prev_hash bl_entry_hash (compute_entry_hash env key) (case from_seq of None \<Rightarrow> 1 | Some s \<Rightarrow> s) h page
       \<and> list_all (\<lambda>e. validate_postings e = Ok ()) page)"
  unfolding page_def by (rule verify_chain_status [OF assms(1)])

definition demo_forged :: ledger_db where
  "demo_forged =
     \<lparr>lb_entries = [(demo_settlement ''a'' ''wallet:w'' 5)\<lparr>bl_seq := 1, bl_prev_hash := GENESIS_PREV_HASH, bl_entry_hash := ''x''\<rparr>],
      lb_checkpoints = []\<rparr>"

lemma verify_accepts_iff_intact_witness:
  "\<exists>r. verify_chain demo_ledger_env ''k'' demo_forged None None None = Ok r \<and> lr_status r = LedgerBroken
    \<and> \<not> (\<exists>h. start_hash demo_forged 1 = Some h
       \<and> linked bl_seq bl_prev_hash bl_entry_hash (compute_entry_hash demo_ledger_env ''k'') 1 h (verify_query demo_forged 1 None DEFAULT_VERIFY_LIMIT)
       \<and> list_all (\<lambda>e. validate_postings e = Ok ()) (verify_query demo_forged 1 None DEFAULT_VERIFY_LIMIT))"
proof -
  have "map_err (\<lambda>_. ()) (and_then (verify_chain demo_ledger_env ''k'' demo_forged None None None) (\<lambda>r. Ok (lr_status r))) = Ok LedgerBroken"
    by code_simp
  then obtain r where r: "verify_chain demo_ledger_env ''k'' demo_forged None None None = Ok r" "lr_status r = LedgerBroken"
    by auto
  show ?thesis using verify_accepts_iff_intact [OF r(1)] r by (intro exI [of _ r]) simp
qed

section \<open>Tampering\<close>

lemma strict_seq_bound:
  assumes "sorted_wrt (\<lambda>a b. bl_seq a < bl_seq b) es" "\<And>e. e \<in> set es \<Longrightarrow> 1 \<le> bl_seq e" "i < length es"
  shows "1 + int i \<le> bl_seq (es ! i)"
  using assms(3)
proof (induction i)
  case (Suc i)
  then have "bl_seq (es ! i) < bl_seq (es ! Suc i)" using sorted_wrt_nth_less [OF assms(1), of i "Suc i"] by simp
  then show ?case using Suc by simp
qed (simp add: assms(2))

lemma full_verification:
  assumes "verify_chain env key db None None None = Ok r" "lr_status r = LedgerOk" "lr_next_from_seq r = None"
    and "distinct (map bl_seq (lb_entries db))" "\<And>e. e \<in> set (lb_entries db) \<Longrightarrow> 1 \<le> bl_seq e"
  defines "es \<equiv> sort_key bl_seq (lb_entries db)"
  shows "ledger_linked env key 1 GENESIS_PREV_HASH es"
    and "lr_head_seq r = (if es = [] then None else Some (int (length es)))"
    and "lr_head_hash r = (if es = [] then None else Some (end_hash bl_entry_hash GENESIS_PREV_HASH es))"
proof -
  let ?page = "verify_query db 1 None DEFAULT_VERIFY_LIMIT"
  have page: "?page = take 10000 es"
    using assms(5) by (simp add: verify_query_def es_def DEFAULT_VERIFY_LIMIT_def cong: filter_cong)
  then have len: "length (verify_query db 1 None 10000) = min (length es) 10000"
    by (simp add: DEFAULT_VERIFY_LIMIT_def)
  have ok: "ledger_linked env key 1 GENESIS_PREV_HASH ?page" "all_balanced ?page"
    using verify_chain_status [OF assms(1)] assms(2) by (simp_all add: start_hash_def)
  have tail: "tail_entry db = (if es = [] then None else Some (last es))"
    by (cases es rule: rev_cases) (simp_all add: tail_entry_def es_def)
  have mem: "\<And>e. e \<in> set es \<Longrightarrow> 1 \<le> bl_seq e" using assms(5) by (simp add: es_def)
  have strict: "sorted_wrt (\<lambda>a b. bl_seq a < bl_seq b) es"
  proof -
    have "sorted (map bl_seq es)" "distinct (map bl_seq es)" using assms(4) by (simp_all add: es_def distinct_map)
    then have "sorted_wrt (<) (map bl_seq es)" by (simp only: strict_sorted_iff)
    then show ?thesis by (simp only: sorted_wrt_map)
  qed
  note report = verify_chain_report [of None None None, unfolded option.case, OF _ TrueI _ _ _ ok, unfolded start_hash_def, simplified]
  have "length es \<le> 10000"
  proof (rule ccontr)
    assume long: "\<not> length es \<le> 10000"
    then have "es \<noteq> [] \<and> 10000 < length es" by auto
    then have "10000 < bl_seq (last es)"
      using strict_seq_bound [OF strict, of "length es - 1"] mem by (simp add: last_conv_nth)
    then show False using report assms(1,3) long
      by (simp add: Let_def len tail DEFAULT_VERIFY_LIMIT_def MAX_VERIFY_LIMIT_def split: if_splits)
  qed
  then show lk: "ledger_linked env key 1 GENESIS_PREV_HASH es" using ok(1) by (simp add: page)
  show "lr_head_seq r = (if es = [] then None else Some (int (length es)))"
    using report assms(1) linked_seq [OF lk, of "length es - 1"]
    by (auto simp: Let_def tail DEFAULT_VERIFY_LIMIT_def MAX_VERIFY_LIMIT_def last_conv_nth)
  show "lr_head_hash r = (if es = [] then None else Some (end_hash bl_entry_hash GENESIS_PREV_HASH es))"
    using report assms(1)
    by (auto simp: Let_def tail DEFAULT_VERIFY_LIMIT_def MAX_VERIFY_LIMIT_def end_hash_last)
qed

text \<open>
  C6. The head pins the history. Whatever two databases hold - say, an archived ledger and one that
  someone with full write access but not the key has worked on - if both verify to the end, and their
  reports show the same head position and hash, then they record the same history: at each position
  the same movement, owner, reference, amounts, keys and, for v2 entries, postings (an absent text
  counting as an empty one and times to the millisecond), provided the keyed hash has no collision
  among the entries of the two.
\<close>

theorem verified_head_pins_history:
  assumes "verify_chain env key db None None None = Ok r" "lr_status r = LedgerOk" "lr_next_from_seq r = None"
    and "verify_chain env key db' None None None = Ok r'" "lr_status r' = LedgerOk" "lr_next_from_seq r' = None"
    and "lr_head_seq r = lr_head_seq r'" "lr_head_hash r = lr_head_hash r'"
    and "distinct (map bl_seq (lb_entries db))" "\<And>e. e \<in> set (lb_entries db) \<Longrightarrow> 1 \<le> bl_seq e \<and> encodable e"
    and "distinct (map bl_seq (lb_entries db'))" "\<And>e. e \<in> set (lb_entries db') \<Longrightarrow> 1 \<le> bl_seq e \<and> encodable e"
    and "\<And>a b. a \<in> set (lb_entries db) \<Longrightarrow> b \<in> set (lb_entries db') \<Longrightarrow>
        le_hmac_hex env key (canonical_entry_bytes a) = le_hmac_hex env key (canonical_entry_bytes b) \<Longrightarrow>
        canonical_entry_bytes a = canonical_entry_bytes b"
  shows "map committed (sort_key bl_seq (lb_entries db)) = map committed (sort_key bl_seq (lb_entries db'))"
proof -
  let ?es = "sort_key bl_seq (lb_entries db)" and ?fs = "sort_key bl_seq (lb_entries db')"
  note full = full_verification [OF assms(1-3,9)] and full' = full_verification [OF assms(4-6,11)]
  have es: "ledger_linked env key 1 GENESIS_PREV_HASH ?es" using full(1) assms(10) by blast
  have fs: "ledger_linked env key 1 GENESIS_PREV_HASH ?fs" using full'(1) assms(12) by blast
  have len: "length ?es = length ?fs"
    using full(2) full'(2) assms(7,10,12) by (auto split: if_splits simp del: length_sort)
  have hash: "end_hash bl_entry_hash GENESIS_PREV_HASH ?es = end_hash bl_entry_hash GENESIS_PREV_HASH ?fs"
    using full(3) full'(3) assms(8,10,12) len by (auto split: if_splits)
  have "map canonical_entry_bytes ?es = map canonical_entry_bytes ?fs"
  proof (rule ledger_chain.head_pins_history [OF es fs hash len])
    show "list_all encodable ?es" "list_all encodable ?fs" using assms(10,12) by (auto simp: list_all_iff)
  qed (use assms(13) in auto)
  then have "canonical_entry_bytes (?es ! i) = canonical_entry_bytes (?fs ! i)" if "i < length ?es" for i
    using that len by (metis nth_map)
  moreover have "encodable (?es ! i) \<and> encodable (?fs ! i)" if "i < length ?es" for i
    using that len assms(10,12) nth_mem [of i ?es] nth_mem [of i ?fs] by (simp del: nth_mem)
  ultimately show ?thesis using len canonical_bytes_eq_iff by (intro nth_equalityI) (simp_all add: length_sort)
qed

lemma demo_encodable: "list_all encodable demo_chain"
  by code_simp

lemma demo_verified:
  "\<exists>r. verify_chain demo_ledger_env ''k'' demo_books None None None = Ok r
     \<and> lr_status r = LedgerOk \<and> lr_next_from_seq r = None \<and> lr_head_seq r = Some 2 \<and> lr_break_info r = None"
proof -
  have lk: "ledger_linked demo_ledger_env ''k'' 1 GENESIS_PREV_HASH demo_chain" and bal: "all_balanced demo_chain"
    using reachable_ledger_ok [OF demo_reachable] by (simp_all add: ledger_ok_def demo_books_def)
  have chain: "length demo_chain = 2" "bl_seq (last demo_chain) = 2" by (simp_all add: demo_chain_def Let_def)
  have tail: "tail_entry demo_books = Some (last demo_chain)"
    using linked_tail [of demo_ledger_env "''k''" GENESIS_PREV_HASH demo_books] lk chain by (auto simp: demo_books_def)
  have query: "verify_query demo_books 1 None DEFAULT_VERIFY_LIMIT = demo_chain"
    using verify_query_linked [of demo_ledger_env "''k''" GENESIS_PREV_HASH demo_books 1 None DEFAULT_VERIFY_LIMIT] lk chain
    by (simp add: demo_books_def DEFAULT_VERIFY_LIMIT_def)
  show ?thesis
    using verify_chain_report [of None None None demo_books GENESIS_PREV_HASH demo_ledger_env "''k''"] lk bal
    by (simp add: query tail chain start_hash_def Let_def query [unfolded DEFAULT_VERIFY_LIMIT_def]
        DEFAULT_VERIFY_LIMIT_def MAX_VERIFY_LIMIT_def)
qed

lemma demo_rows:
  "distinct (map bl_seq (lb_entries demo_books))"
  "e \<in> set (lb_entries demo_books) \<Longrightarrow> 1 \<le> bl_seq e \<and> encodable e"
proof -
  have lk: "ledger_linked demo_ledger_env ''k'' 1 GENESIS_PREV_HASH (lb_entries demo_books)"
    using reachable_ledger_ok [OF demo_reachable] by (simp add: ledger_ok_def)
  then show "distinct (map bl_seq (lb_entries demo_books))" by (rule linked_distinct)
  show "1 \<le> bl_seq e \<and> encodable e" if "e \<in> set (lb_entries demo_books)"
    using that linked_seq_range [OF lk] demo_encodable by (force simp: demo_books_def list_all_iff)
qed

lemma verified_head_pins_history_witness:
  "\<exists>r. verify_chain demo_ledger_env ''k'' demo_books None None None = Ok r \<and> lr_head_seq r = Some 2
     \<and> map committed (sort_key bl_seq (lb_entries demo_books)) = map committed (sort_key bl_seq (lb_entries demo_books))"
proof -
  obtain r where r: "verify_chain demo_ledger_env ''k'' demo_books None None None = Ok r"
      "lr_status r = LedgerOk" "lr_next_from_seq r = None" "lr_head_seq r = Some 2"
    using demo_verified by blast
  show ?thesis
    using verified_head_pins_history [OF r(1-3) r(1-3) refl refl demo_rows demo_rows] r
    by (auto simp: demo_ledger_env_def)
qed

end
