(* ===== verification/Audit_Chain.thy ===== *)
theory Audit_Chain
  imports Ledger Execution_Permission
begin

text \<open>
  The audit chain (\<open>services/audit_chain_service.rs\<close>, \<open>models/audit_log.rs\<close>): the canonical bytes of an audit
  entry, the concurrent appenders that race for the next position, and the verification of the chain;
  the anchors that tie the billing ledger's head to it (\<open>services/billing/ledger.rs\<close>); and the sweep that
  verifies both chains in rolling chunks (\<open>services/chain_verify_service.rs\<close>).

  The libraries are \<open>audit_env\<close>: JSON text and HMAC-SHA256 in hexadecimal.
\<close>

record audit_env =
  au_ext :: externals
  au_hmac_hex :: "string \<Rightarrow> string \<Rightarrow> string"

section \<open>Entries\<close>

record audit_log =
  ag_id :: string
  ag_user_id :: "string option"
  ag_event_type :: string
  ag_event_data :: "json option"
  ag_ip_address :: "string option"
  ag_user_agent :: "string option"
  ag_api_key_id :: "string option"
  ag_api_key_name :: "string option"
  ag_seq :: "int option"
  ag_prev_hash :: "string option"
  ag_entry_hash :: "string option"
  ag_created_at :: int

definition or_zero_i64 :: "int option \<Rightarrow> int" where
  "or_zero_i64 v = (case v of None \<Rightarrow> 0 | Some i \<Rightarrow> i)"

definition wrap_i64 :: "int \<Rightarrow> int" where
  "wrap_i64 i = (i + 2 ^ 63) mod 2 ^ 64 - 2 ^ 63"

definition audit_join_fields :: "string list \<Rightarrow> string" where
  "audit_join_fields fs = join [RECORD_SEPARATOR] fs"

definition canonical_json_string :: "audit_env \<Rightarrow> json \<Rightarrow> string" where
  "canonical_json_string env v = to_vec (au_ext env) (canonical_json v)"

definition audit_fields :: "audit_env \<Rightarrow> int \<Rightarrow> string \<Rightarrow> audit_log \<Rightarrow> string list" where
  "audit_fields env seq prev_hash e =
     [int_str seq, prev_hash, ag_id e, or_empty (ag_user_id e), ag_event_type e,
      or_empty (map_option (canonical_json_string env) (ag_event_data e)), or_empty (ag_ip_address e),
      or_empty (ag_user_agent e), or_empty (ag_api_key_id e), or_empty (ag_api_key_name e),
      int_str (timestamp_millis (ag_created_at e))]"

definition canonical_audit_bytes :: "audit_env \<Rightarrow> audit_log \<Rightarrow> app_error + string" where
  "canonical_audit_bytes env e =
     and_then (ok_or (ag_seq e) (Internal ''audit chain entry missing seq'')) (\<lambda>seq.
     and_then (ok_or (ag_prev_hash e) (Internal ''audit chain entry missing prev_hash'')) (\<lambda>prev_hash.
       Ok (audit_join_fields (audit_fields env seq prev_hash e))))"

definition audit_entry_hash :: "audit_env \<Rightarrow> string \<Rightarrow> audit_log \<Rightarrow> app_error + string" where
  "audit_entry_hash env key e = and_then (canonical_audit_bytes env e) (\<lambda>b. Ok (au_hmac_hex env key b))"

definition prepare_chained_entry ::
  "audit_env \<Rightarrow> string \<Rightarrow> audit_log \<Rightarrow> int \<Rightarrow> string \<Rightarrow> app_error + audit_log" where
  "prepare_chained_entry env key e seq prev_hash =
     (let e = e\<lparr>ag_created_at := bson_time (ag_created_at e), ag_seq := Some seq, ag_prev_hash := Some prev_hash,
                ag_entry_hash := None\<rparr>
      in and_then (audit_entry_hash env key e) (\<lambda>h. Ok (e\<lparr>ag_entry_hash := Some h\<rparr>)))"

definition option_json_eq :: "json option \<Rightarrow> json option \<Rightarrow> bool" where
  "option_json_eq a b \<longleftrightarrow> (case (a, b) of (Some v, Some w) \<Rightarrow> json_eq v w | (None, None) \<Rightarrow> True | _ \<Rightarrow> False)"

definition immutable_entry_matches :: "audit_log \<Rightarrow> audit_log \<Rightarrow> bool" where
  "immutable_entry_matches a b \<longleftrightarrow>
     ag_id a = ag_id b \<and> ag_user_id a = ag_user_id b \<and> ag_event_type a = ag_event_type b
     \<and> option_json_eq (ag_event_data a) (ag_event_data b) \<and> ag_ip_address a = ag_ip_address b
     \<and> ag_user_agent a = ag_user_agent b \<and> ag_api_key_id a = ag_api_key_id b
     \<and> ag_api_key_name a = ag_api_key_name b
     \<and> timestamp_millis (ag_created_at a) = timestamp_millis (ag_created_at b)"

section \<open>The collection\<close>

text \<open>The chained rows by position; rows from before the chain have none.\<close>

definition chained_rows :: "audit_log list \<Rightarrow> audit_log list" where
  "chained_rows rows = filter (\<lambda>e. ag_seq e \<noteq> None) rows"

definition newest_chained :: "audit_log list \<Rightarrow> audit_log option" where
  "newest_chained rows =
     (case rev (sort_key (\<lambda>e. or_zero_i64 (ag_seq e)) (chained_rows rows)) of [] \<Rightarrow> None | e # _ \<Rightarrow> Some e)"

definition audit_tail :: "audit_log list \<Rightarrow> (int \<times> string) option" where
  "audit_tail rows = Option.bind (newest_chained rows) (\<lambda>e.
     Option.bind (ag_seq e) (\<lambda>seq. map_option (Pair seq) (ag_entry_hash e)))"

text \<open>The unique indexes on \<open>_id\<close> and on an existing position.\<close>

definition audit_duplicate :: "audit_log list \<Rightarrow> audit_log \<Rightarrow> bool" where
  "audit_duplicate rows e \<longleftrightarrow>
     list_ex (\<lambda>r. ag_id r = ag_id e \<or> ag_seq e \<noteq> None \<and> ag_seq r = ag_seq e) rows"

section \<open>Appending\<close>

definition MAX_APPEND_ATTEMPTS :: nat where "MAX_APPEND_ATTEMPTS = 8"

text \<open>
  Where an appender stands between two database calls: before it reads the tail, before it
  inserts, and after a duplicate key, before it looks its own id up. The number is the attempt.
\<close>

datatype append_phase =
    Reading nat audit_log
  | Inserting nat audit_log
  | Colliding nat audit_log
  | Appended audit_log
  | AppendFailed

definition next_position :: "(int \<times> string) option \<Rightarrow> int \<times> string" where
  "next_position t = (case t of Some (seq, h) \<Rightarrow> (wrap_i64 (seq + 1), h) | None \<Rightarrow> (1, GENESIS_PREV_HASH))"

definition already_recorded :: "audit_env \<Rightarrow> string \<Rightarrow> audit_log \<Rightarrow> audit_log \<Rightarrow> bool" where
  "already_recorded env key existing e \<longleftrightarrow>
     immutable_entry_matches existing e \<and> ag_seq existing \<noteq> None \<and> ag_prev_hash existing \<noteq> None
     \<and> (case ag_entry_hash existing of None \<Rightarrow> False | Some h \<Rightarrow> audit_entry_hash env key existing = Ok h)"

fun append_chained_entry ::
  "audit_env \<Rightarrow> string \<Rightarrow> audit_log list \<Rightarrow> append_phase \<Rightarrow> append_phase \<times> audit_log list" where
  "append_chained_entry env key rows (Reading attempt e) =
     (let (seq, prev_hash) = next_position (audit_tail rows)
      in case prepare_chained_entry env key e seq prev_hash of
           Err _ \<Rightarrow> (AppendFailed, rows) | Ok e \<Rightarrow> (Inserting attempt e, rows))"
| "append_chained_entry env key rows (Inserting attempt e) =
     (if audit_duplicate rows e then (Colliding attempt e, rows) else (Appended e, rows @ [e]))"
| "append_chained_entry env key rows (Colliding attempt e) =
     (case find (\<lambda>r. ag_id r = ag_id e) rows of
        Some existing \<Rightarrow> (if already_recorded env key existing e then Appended existing else AppendFailed, rows)
      | None \<Rightarrow> (if attempt = MAX_APPEND_ATTEMPTS then AppendFailed else Reading (attempt + 1) e, rows))"
| "append_chained_entry env key rows (Appended e) = (Appended e, rows)"
| "append_chained_entry env key rows AppendFailed = (AppendFailed, rows)"

definition append_in_session ::
  "audit_env \<Rightarrow> string \<Rightarrow> audit_log \<Rightarrow> audit_log list \<Rightarrow> app_error + audit_log list" where
  "append_in_session env key e rows =
     (let (seq, prev_hash) = (case newest_chained rows of
            Some t \<Rightarrow> (wrap_i64 (or_zero_i64 (ag_seq t) + 1), or_empty (ag_entry_hash t))
          | None \<Rightarrow> (1, GENESIS_PREV_HASH))
      in and_then (prepare_chained_entry env key e seq prev_hash) (\<lambda>e.
         if audit_duplicate rows e then Err (DatabaseError ''E11000 duplicate key'') else Ok (rows @ [e])))"

section \<open>Verification\<close>

datatype audit_break_kind = AuditGap | AuditLinkMismatch | AuditHashMismatch

record audit_break =
  ak_break_seq :: int
  ak_break_kind :: audit_break_kind
  ak_expected :: string
  ak_actual :: string

datatype audit_status = AuditOk | AuditBroken

record audit_report =
  ar_status :: audit_status
  ar_checked_count :: nat
  ar_pre_chain_count :: nat
  ar_head_seq :: "int option"
  ar_head_hash :: "string option"
  ar_break_info :: "audit_break option"
  ar_next_from_seq :: "int option"

definition audit_by_seq :: "audit_log list \<Rightarrow> int \<Rightarrow> audit_log option" where
  "audit_by_seq rows seq = find (\<lambda>e. ag_seq e = Some seq) rows"

definition audit_query :: "audit_log list \<Rightarrow> int \<Rightarrow> int option \<Rightarrow> int \<Rightarrow> audit_log list" where
  "audit_query rows from_seq to_seq limit =
     take (nat limit) (sort_key (\<lambda>e. or_zero_i64 (ag_seq e)) (filter (\<lambda>e. case ag_seq e of None \<Rightarrow> False
       | Some s \<Rightarrow> from_seq \<le> s \<and> (case to_seq of None \<Rightarrow> True | Some t \<Rightarrow> s \<le> t)) rows))"

fun audit_verify_loop ::
  "audit_env \<Rightarrow> string \<Rightarrow> int \<Rightarrow> string \<Rightarrow> nat \<Rightarrow> audit_log list \<Rightarrow> app_error + nat \<times> int \<times> audit_break option" where
  "audit_verify_loop env key expected_seq expected_prev checked [] = Ok (checked, expected_seq, None)"
| "audit_verify_loop env key expected_seq expected_prev checked (e # es) =
     (let actual_seq = or_zero_i64 (ag_seq e); actual_prev = or_empty (ag_prev_hash e) in
      if actual_seq \<noteq> expected_seq
      then Ok (checked, expected_seq, Some \<lparr>ak_break_seq = expected_seq, ak_break_kind = AuditGap,
             ak_expected = int_str expected_seq, ak_actual = int_str actual_seq\<rparr>)
      else if actual_prev \<noteq> expected_prev
      then Ok (checked, expected_seq, Some \<lparr>ak_break_seq = expected_seq, ak_break_kind = AuditLinkMismatch,
             ak_expected = expected_prev, ak_actual = actual_prev\<rparr>)
      else and_then (audit_entry_hash env key e) (\<lambda>expected_hash.
        let actual_hash = or_empty (ag_entry_hash e) in
        if actual_hash \<noteq> expected_hash
        then Ok (checked, expected_seq, Some \<lparr>ak_break_seq = expected_seq, ak_break_kind = AuditHashMismatch,
               ak_expected = expected_hash, ak_actual = actual_hash\<rparr>)
        else audit_verify_loop env key (expected_seq + 1) actual_hash (checked + 1) es))"

definition audit_verify_chain ::
  "audit_env \<Rightarrow> string \<Rightarrow> audit_log list \<Rightarrow> int option \<Rightarrow> int option \<Rightarrow> int option \<Rightarrow> app_error + audit_report" where
  "audit_verify_chain env key rows from_seq to_seq limit =
     (let from_seq = (case from_seq of None \<Rightarrow> 1 | Some s \<Rightarrow> s);
          limit = (case limit of None \<Rightarrow> DEFAULT_VERIFY_LIMIT | Some l \<Rightarrow> l);
          pre_chain = length (filter (\<lambda>e. ag_seq e = None) rows);
          head_seq = map_option fst (audit_tail rows);
          head_hash = map_option snd (audit_tail rows);
          entries = audit_query rows from_seq to_seq limit
      in if from_seq < 1 then Err (ValidationError ''from_seq must be greater than or equal to 1'')
      else if (case to_seq of None \<Rightarrow> False | Some t \<Rightarrow> t < from_seq)
      then Err (ValidationError ''to_seq must be greater than or equal to from_seq'')
      else if limit < 1 \<or> MAX_VERIFY_LIMIT < limit
      then Err (ValidationError (''limit must be between 1 and '' @ int_str MAX_VERIFY_LIMIT))
      else (case (if from_seq = 1 then Some GENESIS_PREV_HASH
                  else map_option (\<lambda>e. or_empty (ag_entry_hash e)) (audit_by_seq rows (from_seq - 1))) of
        None \<Rightarrow> Ok \<lparr>ar_status = AuditBroken, ar_checked_count = 0, ar_pre_chain_count = pre_chain,
           ar_head_seq = head_seq, ar_head_hash = head_hash,
           ar_break_info = Some \<lparr>ak_break_seq = from_seq, ak_break_kind = AuditGap,
             ak_expected = int_str (from_seq - 1), ak_actual = ''missing''\<rparr>, ar_next_from_seq = None\<rparr>
      | Some expected_prev_hash \<Rightarrow>
         and_then (audit_verify_loop env key from_seq expected_prev_hash 0 entries) (\<lambda>(checked, expected_seq, break).
           case break of
             Some _ \<Rightarrow> Ok \<lparr>ar_status = AuditBroken, ar_checked_count = checked, ar_pre_chain_count = pre_chain,
               ar_head_seq = head_seq, ar_head_hash = head_hash, ar_break_info = break, ar_next_from_seq = None\<rparr>
           | None \<Rightarrow> Ok \<lparr>ar_status = AuditOk, ar_checked_count = checked, ar_pre_chain_count = pre_chain,
               ar_head_seq = head_seq, ar_head_hash = head_hash, ar_break_info = None,
               ar_next_from_seq =
                 (if int (length entries) = limit
                     \<and> (case to_seq of None \<Rightarrow> True | Some t \<Rightarrow> expected_seq \<le> t)
                     \<and> (case head_seq of None \<Rightarrow> False | Some h \<Rightarrow> expected_seq \<le> h)
                  then Some expected_seq else None)\<rparr>)))"

end
