(* ===== verification/Audit_Appenders.thy ===== *)
theory Audit_Appenders
  imports Audit_Chain Ledger_Verification Json_Equality
begin

text \<open>
  Many processes append to the audit log at once: the states of their appends as a step relation, and
  the invariant that the chained rows stay one chain and that what an appender holds is still true.
\<close>

section \<open>The chain of an audit log\<close>

definition ag_position :: "audit_log \<Rightarrow> int" where "ag_position e = or_zero_i64 (ag_seq e)"
definition ag_previous :: "audit_log \<Rightarrow> string" where "ag_previous e = or_empty (ag_prev_hash e)"
definition ag_stored :: "audit_log \<Rightarrow> string" where "ag_stored e = or_empty (ag_entry_hash e)"

definition ag_bytes :: "audit_env \<Rightarrow> audit_log \<Rightarrow> string" where
  "ag_bytes env e = audit_join_fields (audit_fields env (ag_position e) (ag_previous e) e)"

definition ag_digest :: "audit_env \<Rightarrow> string \<Rightarrow> audit_log \<Rightarrow> string" where
  "ag_digest env key e = au_hmac_hex env key (ag_bytes env e)"

abbreviation audit_linked :: "audit_env \<Rightarrow> string \<Rightarrow> int \<Rightarrow> string \<Rightarrow> audit_log list \<Rightarrow> bool" where
  "audit_linked env key \<equiv> linked ag_position ag_previous ag_stored (ag_digest env key)"

text \<open>Every chained row carries its three chain fields.\<close>

definition fully_chained :: "audit_log \<Rightarrow> bool" where
  "fully_chained e \<longleftrightarrow> ag_seq e \<noteq> None \<and> ag_prev_hash e \<noteq> None \<and> ag_entry_hash e \<noteq> None"

lemma or_zero_i64_simps [simp]: "or_zero_i64 None = 0" "or_zero_i64 (Some i) = i"
  by (simp_all add: or_zero_i64_def)

lemma audit_hash_chained:
  "ag_seq e \<noteq> None \<Longrightarrow> ag_prev_hash e \<noteq> None \<Longrightarrow> audit_entry_hash env key e = Ok (ag_digest env key e)"
  by (auto simp: audit_entry_hash_def canonical_audit_bytes_def ag_digest_def ag_bytes_def ag_position_def ag_previous_def)

lemma ag_digest_stored [simp]: "ag_digest env key (e\<lparr>ag_entry_hash := h\<rparr>) = ag_digest env key e"
  by (simp add: ag_digest_def ag_bytes_def ag_position_def ag_previous_def audit_fields_def)

definition positioned :: "audit_env \<Rightarrow> string \<Rightarrow> int \<Rightarrow> string \<Rightarrow> audit_log \<Rightarrow> audit_log" where
  "positioned env key seq prev_hash e =
     (let e = e\<lparr>ag_created_at := bson_time (ag_created_at e), ag_seq := Some seq, ag_prev_hash := Some prev_hash,
                ag_entry_hash := None\<rparr>
      in e\<lparr>ag_entry_hash := Some (ag_digest env key e)\<rparr>)"

lemma prepare_positioned: "prepare_chained_entry env key e seq prev_hash = Ok (positioned env key seq prev_hash e)"
  by (simp add: prepare_chained_entry_def positioned_def Let_def audit_hash_chained)

lemma positioned_fields [simp]:
  "ag_seq (positioned env key seq prev_hash e) = Some seq"
  "ag_prev_hash (positioned env key seq prev_hash e) = Some prev_hash"
  "ag_entry_hash (positioned env key seq prev_hash e) = Some (ag_digest env key (positioned env key seq prev_hash e))"
  "ag_id (positioned env key seq prev_hash e) = ag_id e"
  "fully_chained (positioned env key seq prev_hash e)"
  "ag_position (positioned env key seq prev_hash e) = seq"
  "ag_previous (positioned env key seq prev_hash e) = prev_hash"
  "ag_stored (positioned env key seq prev_hash e) = ag_digest env key (positioned env key seq prev_hash e)"
  by (simp_all add: positioned_def Let_def fully_chained_def ag_position_def ag_previous_def ag_stored_def)

lemma wrap_i64_small: "i64_min \<le> i \<Longrightarrow> i \<le> i64_max \<Longrightarrow> wrap_i64 i = i"
  by (simp add: wrap_i64_def i64_min_def i64_max_def)

section \<open>Appenders\<close>

text \<open>
  A state: the rows, and for each appender the entry it was asked to record and where it stands. A
  step is one database call of one appender; or such a call whose answer is lost with its effect
  done or not; or a new request; or a write of another kind: an append inside a transaction, or an
  unchained row of a process without a key.
\<close>

record audit_state =
  as_rows :: "audit_log list"
  as_request :: "nat \<Rightarrow> audit_log"
  as_phase :: "nat \<Rightarrow> append_phase"

inductive audit_step :: "audit_env \<Rightarrow> string \<Rightarrow> audit_state \<Rightarrow> audit_state \<Rightarrow> bool" for env key where
  appender_call:
    "append_chained_entry env key (as_rows st) (as_phase st i) = (phase, rows) \<Longrightarrow>
     audit_step env key st (st\<lparr>as_rows := rows, as_phase := (as_phase st)(i := phase)\<rparr>)"
| appender_lost:
    "append_chained_entry env key (as_rows st) (as_phase st i) = (phase, rows) \<Longrightarrow> rows' \<in> {rows, as_rows st} \<Longrightarrow>
     audit_step env key st (st\<lparr>as_rows := rows', as_phase := (as_phase st)(i := AppendFailed)\<rparr>)"
| appender_start:
    "as_phase st i = AppendFailed \<or> (\<exists>e. as_phase st i = Appended e) \<Longrightarrow>
     (\<And>v. ag_event_data e = Some v \<Longrightarrow> json_wf v) \<Longrightarrow>
     audit_step env key st (st\<lparr>as_request := (as_request st)(i := e), as_phase := (as_phase st)(i := Reading 1 e)\<rparr>)"
| session_append:
    "append_in_session env key e (as_rows st) = Ok rows \<Longrightarrow> audit_step env key st (st\<lparr>as_rows := rows\<rparr>)"
| unchained_insert:
    "ag_seq e = None \<Longrightarrow> \<not> audit_duplicate (as_rows st) e \<Longrightarrow> audit_step env key st (st\<lparr>as_rows := as_rows st @ [e]\<rparr>)"

inductive audit_reachable :: "audit_env \<Rightarrow> string \<Rightarrow> audit_state \<Rightarrow> bool" for env key where
  audit_initial:
    "list_all (\<lambda>e. ag_seq e = None) (as_rows st) \<Longrightarrow> distinct (map ag_id (as_rows st)) \<Longrightarrow>
     (\<And>i. as_phase st i = AppendFailed) \<Longrightarrow> audit_reachable env key st"
| audit_next: "audit_reachable env key st \<Longrightarrow> audit_step env key st st' \<Longrightarrow> audit_reachable env key st'"

section \<open>The invariant\<close>

definition chain_ok :: "audit_env \<Rightarrow> string \<Rightarrow> audit_log list \<Rightarrow> bool" where
  "chain_ok env key rows \<longleftrightarrow>
     audit_linked env key 1 GENESIS_PREV_HASH (chained_rows rows)
     \<and> list_all fully_chained (chained_rows rows) \<and> distinct (map ag_id rows)"

text \<open>An entry ready to be inserted was positioned after some prefix of the chain.\<close>

fun phase_ok :: "audit_env \<Rightarrow> string \<Rightarrow> audit_log list \<Rightarrow> audit_log \<Rightarrow> append_phase \<Rightarrow> bool" where
  "phase_ok env key rows request (Reading _ e) \<longleftrightarrow> immutable_entry_matches e request"
| "phase_ok env key rows request (Inserting _ e) \<longleftrightarrow> immutable_entry_matches e request \<and>
     (\<exists>k e'. k \<le> length (chained_rows rows)
       \<and> e = positioned env key (1 + int k) (end_hash ag_stored GENESIS_PREV_HASH (take k (chained_rows rows))) e')"
| "phase_ok env key rows request (Colliding _ e) \<longleftrightarrow> immutable_entry_matches e request"
| "phase_ok env key rows request (Appended e) \<longleftrightarrow>
     e \<in> set rows \<and> immutable_entry_matches e request \<and> fully_chained e \<and> ag_entry_hash e = Some (ag_digest env key e)"
| "phase_ok env key rows request AppendFailed \<longleftrightarrow> True"

definition audit_ok :: "audit_env \<Rightarrow> string \<Rightarrow> audit_state \<Rightarrow> bool" where
  "audit_ok env key st \<longleftrightarrow>
     chain_ok env key (as_rows st) \<and> (\<forall>i. phase_ok env key (as_rows st) (as_request st i) (as_phase st i))"

lemma chained_rows_append [simp]: "chained_rows (rows @ new) = chained_rows rows @ chained_rows new"
  by (simp add: chained_rows_def)

lemma chained_rows_single: "chained_rows [e] = (if ag_seq e = None then [] else [e])"
  by (simp add: chained_rows_def)

lemma chained_rows_length: "length (chained_rows rows) \<le> length rows"
  by (simp add: chained_rows_def)

lemma phase_ok_more: "phase_ok env key rows request phase \<Longrightarrow> phase_ok env key (rows @ new) request phase"
proof (cases phase)
  case (Inserting n e)
  assume "phase_ok env key rows request phase"
  then obtain k e' where k: "k \<le> length (chained_rows rows)" "immutable_entry_matches e request"
      "e = positioned env key (1 + int k) (end_hash ag_stored GENESIS_PREV_HASH (take k (chained_rows rows))) e'"
    by (auto simp: Inserting)
  then show ?thesis
    unfolding Inserting phase_ok.simps by (intro conjI exI [of _ k] exI [of _ e']) simp_all
qed auto

lemma chain_newest:
  assumes "chain_ok env key rows"
  shows "newest_chained rows = (if chained_rows rows = [] then None else Some (last (chained_rows rows)))"
proof -
  let ?pos = "\<lambda>e. or_zero_i64 (ag_seq e)"
  have "sorted_wrt (\<lambda>a b. ag_position a < ag_position b) (chained_rows rows)"
    using assms linked_sorted unfolding chain_ok_def by blast
  then have "sorted (map ?pos (chained_rows rows))"
    by (simp add: sorted_map ag_position_def sorted_wrt_mono_rel [of _ "\<lambda>a b. ?pos a < ?pos b"])
  then show ?thesis by (cases "chained_rows rows" rule: rev_cases) (simp_all add: newest_chained_def sort_key_id_if_sorted)
qed

lemma chain_last:
  assumes "chain_ok env key rows" "chained_rows rows \<noteq> []"
  shows "ag_seq (last (chained_rows rows)) = Some (int (length (chained_rows rows)))"
    and "ag_entry_hash (last (chained_rows rows)) = Some (end_hash ag_stored GENESIS_PREV_HASH (chained_rows rows))"
proof -
  let ?es = "chained_rows rows"
  have "fully_chained (last ?es)" using assms by (simp add: chain_ok_def list_all_iff)
  moreover have "ag_position (last ?es) = int (length ?es)"
  proof -
    have "audit_linked env key 1 GENESIS_PREV_HASH ?es" using assms(1) by (simp add: chain_ok_def)
    moreover have "length ?es - 1 < length ?es" using assms(2) by simp
    ultimately have "ag_position (?es ! (length ?es - 1)) = 1 + int (length ?es - 1)" by (rule linked_seq)
    then show ?thesis using assms(2) by (simp add: last_conv_nth of_nat_diff Suc_le_eq)
  qed
  ultimately show "ag_seq (last ?es) = Some (int (length ?es))"
      "ag_entry_hash (last ?es) = Some (end_hash ag_stored GENESIS_PREV_HASH ?es)"
    using assms(2) by (auto simp: fully_chained_def ag_position_def end_hash_last ag_stored_def)
qed

lemma chain_next_position:
  assumes "chain_ok env key rows" "int (length rows) < i64_max"
  shows "next_position (audit_tail rows) = (1 + int (length (chained_rows rows)), end_hash ag_stored GENESIS_PREV_HASH (chained_rows rows))"
proof -
  have "wrap_i64 (int (length (chained_rows rows)) + 1) = 1 + int (length (chained_rows rows))"
    using assms(2) chained_rows_length [of rows] by (subst wrap_i64_small) (simp_all add: i64_min_def)
  then show ?thesis
    using chain_last [OF assms(1)] by (simp add: audit_tail_def chain_newest [OF assms(1)] next_position_def)
qed

lemma chain_insert:
  assumes "chain_ok env key rows" "k \<le> length (chained_rows rows)" "\<not> audit_duplicate rows e"
    and "e = positioned env key (1 + int k) (end_hash ag_stored GENESIS_PREV_HASH (take k (chained_rows rows))) e'"
  shows "chain_ok env key (rows @ [e])"
proof -
  let ?es = "chained_rows rows"
  have lk: "audit_linked env key 1 GENESIS_PREV_HASH ?es" and full: "list_all fully_chained ?es"
    using assms(1) by (simp_all add: chain_ok_def)
  have "k = length ?es"
  proof (rule ccontr)
    assume "k \<noteq> length ?es"
    then have "k < length ?es" using assms(2) by simp
    then have "ag_position (?es ! k) = 1 + int k" "?es ! k \<in> set rows" "fully_chained (?es ! k)"
      using linked_seq [OF lk] full nth_mem [of k ?es] by (auto simp: list_all_length chained_rows_def simp del: nth_mem)
    then have "ag_seq (?es ! k) = Some (1 + int k) \<and> ?es ! k \<in> set rows" by (auto simp: ag_position_def fully_chained_def)
    then show False using assms(3,4) by (auto simp: audit_duplicate_def list_ex_iff)
  qed
  moreover have "ag_id e \<notin> ag_id ` set rows" using assms(3) by (auto simp: audit_duplicate_def list_ex_iff)
  ultimately show ?thesis
    using assms(1) by (simp add: chain_ok_def chained_rows_single assms(4))
qed

lemma matches_positioned [simp]:
  "immutable_entry_matches (positioned env key seq prev_hash e) r = immutable_entry_matches e r"
  "immutable_entry_matches x (positioned env key seq prev_hash e) = immutable_entry_matches x e"
  by (simp_all add: immutable_entry_matches_def positioned_def Let_def)

lemma option_json_eq_trans:
  "option_json_eq a b \<Longrightarrow> option_json_eq b c \<Longrightarrow> option_json_eq a c"
  by (auto simp: option_json_eq_def split: option.splits intro: json_eq_trans)

lemma matches_trans: "immutable_entry_matches a b \<Longrightarrow> immutable_entry_matches b c \<Longrightarrow> immutable_entry_matches a c"
  by (auto simp: immutable_entry_matches_def intro: option_json_eq_trans)

lemma matches_refl: "(\<And>v. ag_event_data e = Some v \<Longrightarrow> json_wf v) \<Longrightarrow> immutable_entry_matches e e"
  by (auto simp: immutable_entry_matches_def option_json_eq_def json_eq_refl split: option.splits)

lemma append_call_ok:
  assumes chain: "chain_ok env key rows" and phase: "phase_ok env key rows request phase"
    and call: "append_chained_entry env key rows phase = (phase', rows')" and room: "int (length rows) < i64_max"
  shows "chain_ok env key rows' \<and> phase_ok env key rows' request phase' \<and> (rows' = rows \<or> (\<exists>e. rows' = rows @ [e]))"
proof (cases phase)
  case (Reading n e)
  have "phase' = Inserting n (positioned env key (1 + int (length (chained_rows rows)))
      (end_hash ag_stored GENESIS_PREV_HASH (chained_rows rows)) e)" "rows' = rows"
    using call by (auto simp: Reading chain_next_position [OF chain room] prepare_positioned)
  moreover have "\<exists>k e'. k \<le> length (chained_rows rows) \<and>
      positioned env key (1 + int (length (chained_rows rows))) (end_hash ag_stored GENESIS_PREV_HASH (chained_rows rows)) e
      = positioned env key (1 + int k) (end_hash ag_stored GENESIS_PREV_HASH (take k (chained_rows rows))) e'"
    by (intro exI [of _ "length (chained_rows rows)"] exI [of _ e]) simp
  ultimately show ?thesis using chain phase by (simp add: Reading)
next
  case (Inserting n e)
  then obtain k e' where k: "k \<le> length (chained_rows rows)" and match: "immutable_entry_matches e request"
      and e: "e = positioned env key (1 + int k) (end_hash ag_stored GENESIS_PREV_HASH (take k (chained_rows rows))) e'"
    using phase by auto
  show ?thesis
  proof (cases "audit_duplicate rows e")
    case True
    then show ?thesis using call chain match by (auto simp: Inserting)
  next
    case False
    then have res: "phase' = Appended e" "rows' = rows @ [e]" using call by (auto simp: Inserting)
    have "fully_chained e" "ag_entry_hash e = Some (ag_digest env key e)" by (simp_all add: e)
    then show ?thesis using chain_insert [OF chain k False e] match by (simp add: res)
  qed
next
  case (Colliding n e)
  show ?thesis
  proof (cases "find (\<lambda>r. ag_id r = ag_id e) rows")
    case None
    then show ?thesis using call chain phase by (auto simp: Colliding split: if_splits)
  next
    case (Some r)
    have r: "r \<in> set rows" using Some by (auto simp: find_Some_iff)
    have "phase_ok env key rows request (Appended r)" if "already_recorded env key r e"
    proof -
      have "immutable_entry_matches r request" using that phase matches_trans by (auto simp: already_recorded_def Colliding)
      then show ?thesis using that r audit_hash_chained [of r env key]
        by (auto simp: already_recorded_def fully_chained_def split: option.splits)
    qed
    then show ?thesis using call chain Some by (auto simp: Colliding split: if_splits)
  qed
qed (use call chain phase in auto)

lemma guard_Ok_iff: "Ok z = (if b then Err e else Ok y) \<longleftrightarrow> \<not> b \<and> z = y"
  by auto

lemma session_append_ok:
  assumes chain: "chain_ok env key rows" and app: "append_in_session env key e rows = Ok rows'"
    and room: "int (length rows) < i64_max"
  shows "chain_ok env key rows' \<and> (\<exists>e. rows' = rows @ [e])"
proof -
  let ?es = "chained_rows rows"
  let ?e = "positioned env key (1 + int (length ?es)) (end_hash ag_stored GENESIS_PREV_HASH ?es) e"
  have "wrap_i64 (int (length ?es) + 1) = 1 + int (length ?es)"
    using room chained_rows_length [of rows] by (subst wrap_i64_small) (simp_all add: i64_min_def)
  then have tail: "(case newest_chained rows of Some t \<Rightarrow> (wrap_i64 (or_zero_i64 (ag_seq t) + 1), or_empty (ag_entry_hash t))
       | None \<Rightarrow> (1, GENESIS_PREV_HASH)) = (1 + int (length ?es), end_hash ag_stored GENESIS_PREV_HASH ?es)"
    using chain_last [OF chain] by (simp add: chain_newest [OF chain])
  have "append_in_session env key e rows
      = (if audit_duplicate rows ?e then Err (DatabaseError ''E11000 duplicate key'') else Ok (rows @ [?e]))"
    by (simp only: append_in_session_def Let_def tail prod.case prepare_positioned and_then_simps)
  then have "\<not> audit_duplicate rows ?e \<and> rows' = rows @ [?e]"
    unfolding app by (rule iffD1 [OF guard_Ok_iff])
  moreover from this have "chain_ok env key (rows @ [?e])" by (intro chain_insert [OF chain le_refl]) simp_all
  ultimately show ?thesis by blast
qed

lemma unchained_ok: "chain_ok env key rows \<Longrightarrow> ag_seq e = None \<Longrightarrow> \<not> audit_duplicate rows e \<Longrightarrow> chain_ok env key (rows @ [e])"
  by (auto simp: chain_ok_def chained_rows_single audit_duplicate_def list_ex_iff)

lemma append_call_rows: "\<exists>new. snd (append_chained_entry env key rows phase) = rows @ new"
proof (cases phase)
  case (Reading n e)
  then show ?thesis by (simp add: case_prod_beta prepare_positioned)
next
  case (Colliding n e)
  then show ?thesis by (simp split: option.split)
qed simp_all

lemma audit_step_rows: "audit_step env key st st' \<Longrightarrow> \<exists>new. as_rows st' = as_rows st @ new"
proof (induction rule: audit_step.induct)
  case (appender_call st i phase rows)
  then show ?case using append_call_rows [of env key "as_rows st" "as_phase st i"] by simp
next
  case (appender_lost st i phase rows rows')
  then show ?case using append_call_rows [of env key "as_rows st" "as_phase st i"] by auto
next
  case (session_append e st rows)
  then show ?case by (simp add: append_in_session_def Let_def case_prod_beta prepare_positioned split: if_splits) auto
qed auto

lemma step_ok:
  assumes "audit_step env key st st'" "audit_ok env key st" "int (length (as_rows st)) < i64_max"
  shows "audit_ok env key st'"
  using assms
proof (induction rule: audit_step.induct)
  case (appender_call st i phase rows)
  have ok: "chain_ok env key (as_rows st)" "\<And>j. phase_ok env key (as_rows st) (as_request st j) (as_phase st j)"
    using appender_call.prems by (simp_all add: audit_ok_def)
  note new = append_call_ok [OF ok(1) ok(2) [of i] appender_call.hyps appender_call.prems(2)]
  then have "phase_ok env key rows (as_request st j) (as_phase st j)" for j using ok(2) phase_ok_more by auto
  then show ?case using new by (simp add: audit_ok_def)
next
  case (appender_lost st i phase rows rows')
  have ok: "chain_ok env key (as_rows st)" "\<And>j. phase_ok env key (as_rows st) (as_request st j) (as_phase st j)"
    using appender_lost.prems by (simp_all add: audit_ok_def)
  note new = append_call_ok [OF ok(1) ok(2) [of i] appender_lost.hyps(1) appender_lost.prems(2)]
  then have "phase_ok env key rows' (as_request st j) (as_phase st j)" for j using ok(2) phase_ok_more appender_lost.hyps(2) by auto
  then show ?case using new ok(1) appender_lost.hyps(2) by (auto simp: audit_ok_def)
next
  case (appender_start st i e)
  then show ?case by (simp add: audit_ok_def matches_refl)
next
  case (session_append e st rows)
  then have "chain_ok env key rows \<and> (\<exists>e. rows = as_rows st @ [e])" using session_append_ok by (auto simp: audit_ok_def)
  then show ?case using session_append.prems(1) phase_ok_more by (auto simp: audit_ok_def)
next
  case (unchained_insert e st)
  then show ?case using unchained_ok phase_ok_more by (auto simp: audit_ok_def)
qed

lemma reachable_audit_ok:
  "audit_reachable env key st \<Longrightarrow> int (length (as_rows st)) < i64_max \<Longrightarrow> audit_ok env key st"
proof (induction rule: audit_reachable.induct)
  case (audit_initial st)
  then have "chained_rows (as_rows st) = []" by (auto simp: chained_rows_def list_all_iff filter_empty_conv)
  then show ?case using audit_initial by (simp add: audit_ok_def chain_ok_def)
next
  case (audit_next st st')
  obtain new where new: "as_rows st' = as_rows st @ new" using audit_step_rows [OF audit_next.hyps(2)] by blast
  then show ?case using step_ok [OF audit_next.hyps(2)] audit_next by simp
qed

end
