(* ===== verification/Audit_Chain_Properties.thy ===== *)
theory Audit_Chain_Properties
  imports Audit_Appenders Reference_Codec
begin

text \<open>
  What the audit chain promises while many processes append to it: the rows stay one chain, and what
  an appender was told is recorded is recorded once and intact. And what its canonical bytes do not
  promise: without length prefixes, neighbouring texts can be moved into each other.
\<close>

section \<open>Verification\<close>

lemma audit_query_linked:
  assumes "chain_ok env key rows"
  shows "audit_query rows frm to_seq lmt =
    take (nat lmt) (drop (nat (frm - 1)) (case to_seq of None \<Rightarrow> chained_rows rows | Some t \<Rightarrow> take (nat t) (chained_rows rows)))"
proof -
  have lk: "audit_linked env key 1 GENESIS_PREV_HASH (chained_rows rows)" using assms by (simp add: chain_ok_def)
  have chained: "filter (\<lambda>e. case ag_seq e of None \<Rightarrow> False | Some s \<Rightarrow> frm \<le> s \<and> (case to_seq of None \<Rightarrow> True | Some t \<Rightarrow> s \<le> t)) rows
      = filter (\<lambda>e. frm \<le> ag_position e \<and> (case to_seq of None \<Rightarrow> True | Some t \<Rightarrow> ag_position e \<le> t)) (chained_rows rows)"
    unfolding chained_rows_def filter_filter
    by (rule filter_cong) (auto simp: ag_position_def split: option.splits)
  have "(\<lambda>e. or_zero_i64 (ag_seq e)) = ag_position" by (simp add: fun_eq_iff ag_position_def)
  then show ?thesis unfolding audit_query_def chained by (simp only: linked_range [OF lk])
qed

lemma audit_verify_loop_linked:
  "audit_linked env key n h es \<Longrightarrow> list_all fully_chained es \<Longrightarrow>
     audit_verify_loop env key n h c es = Ok (c + length es, n + int (length es), None)"
proof (induction es arbitrary: n h c)
  case (Cons e es)
  then have "audit_entry_hash env key e = Ok (ag_digest env key e)" by (simp add: audit_hash_chained fully_chained_def)
  moreover have "or_zero_i64 (ag_seq e) = n" "or_empty (ag_prev_hash e) = h" "or_empty (ag_entry_hash e) = ag_digest env key e"
    using Cons.prems by (simp_all add: ag_position_def ag_previous_def ag_stored_def)
  moreover have "audit_linked env key (n + 1) (ag_digest env key e) es" "list_all fully_chained es"
    using Cons.prems by (metis linked.simps(2), simp)
  ultimately show ?case using Cons.IH [of "n + 1" "ag_digest env key e" "c + 1"] by (simp add: Let_def)
qed simp

lemma audit_start_hash:
  assumes ok: "chain_ok env key rows" and "1 \<le> frm" "frm \<le> 1 + int (length (chained_rows rows))"
  shows "(if frm = 1 then Some GENESIS_PREV_HASH
      else map_option (\<lambda>e. or_empty (ag_entry_hash e)) (audit_by_seq rows (frm - 1)))
    = Some (end_hash ag_stored GENESIS_PREV_HASH (take (nat (frm - 1)) (chained_rows rows)))"
proof (cases "frm = 1")
  case False
  let ?es = "chained_rows rows"
  have lk: "audit_linked env key 1 GENESIS_PREV_HASH ?es" using ok by (simp add: chain_ok_def)
  define i where "i = nat (frm - 2)"
  have i: "i < length ?es" "frm - 1 = 1 + int i" "nat (frm - 1) = Suc i" using assms False by (auto simp: i_def)
  have find_chained: "find (\<lambda>e. ag_seq e = Some s) rows = find (\<lambda>e. ag_position e = s) (chained_rows rows)" for s
    unfolding chained_rows_def by (induction rows) (auto simp: ag_position_def)
  have "find (\<lambda>e. ag_position e = frm - 1) ?es = Some (?es ! i)"
    using i by (auto simp: find_Some_iff linked_seq [OF lk])
  then show ?thesis using False i by (simp add: audit_by_seq_def find_chained take_Suc_conv_app_nth ag_stored_def)
qed simp

section \<open>Promises\<close>

text \<open>
  C7. Racing appenders keep one chain. Whatever the interleaving of any number of appenders - their
  reads, inserts, collisions and retries, answers lost with the write done or not, appends inside
  transactions, unchained rows of processes without the key - the verification of any range of the
  log succeeds in every state, having checked every chained row of the range up to the limit.
\<close>

theorem racing_appenders_keep_one_chain:
  fixes to_seq
  assumes "audit_reachable env key st" "int (length (as_rows st)) < i64_max"
  defines "es \<equiv> filter (\<lambda>e. ag_seq e \<noteq> None) (as_rows st)"
  defines "end_seq \<equiv> (case to_seq of None \<Rightarrow> int (length es) | Some t \<Rightarrow> min t (int (length es)))"
  assumes "1 \<le> frm" "frm \<le> 1 + int (length es)" "1 \<le> lmt" "lmt \<le> MAX_VERIFY_LIMIT"
    and "case to_seq of None \<Rightarrow> True | Some t \<Rightarrow> frm \<le> t"
  shows "\<exists>nxt. audit_verify_chain env key (as_rows st) (Some frm) to_seq (Some lmt) = Ok
    \<lparr>ar_status = AuditOk, ar_checked_count = nat (min lmt (end_seq - frm + 1)),
     ar_pre_chain_count = length (as_rows st) - length es,
     ar_head_seq = (if es = [] then None else Some (int (length es))),
     ar_head_hash = (if es = [] then None else ag_entry_hash (last es)),
     ar_break_info = None, ar_next_from_seq = nxt\<rparr>"
proof -
  let ?upto = "case to_seq of None \<Rightarrow> es | Some t \<Rightarrow> take (nat t) es" and ?k = "nat (frm - 1)"
  have ok: "chain_ok env key (as_rows st)" using reachable_audit_ok [OF assms(1,2)] by (simp add: audit_ok_def)
  have es: "chained_rows (as_rows st) = es" by (simp add: es_def chained_rows_def)
  have lk: "audit_linked env key 1 GENESIS_PREV_HASH es" and full: "list_all fully_chained es"
    using ok by (simp_all add: chain_ok_def es)
  have query: "audit_query (as_rows st) frm to_seq lmt = take (nat lmt) (drop ?k ?upto)"
    by (simp only: audit_query_linked [OF ok] es)
  have page: "audit_linked env key frm (end_hash ag_stored GENESIS_PREV_HASH (take ?k es)) (take (nat lmt) (drop ?k ?upto))"
    using linked_take linked_segment [OF lk assms(5,6,9)] by blast
  have "set (take (nat lmt) (drop ?k ?upto)) \<subseteq> set es"
    by (cases to_seq) (auto dest!: in_set_takeD in_set_dropD)
  then have "list_all fully_chained (take (nat lmt) (drop ?k ?upto))" using full by (auto simp: list_all_iff)
  note loop = audit_verify_loop_linked [OF page this]
  have count: "length (take (nat lmt) (drop ?k ?upto)) = nat (min lmt (end_seq - frm + 1))"
    using assms(5-9) unfolding end_seq_def by (cases to_seq) (auto simp: min_def)
  have tail: "audit_tail (as_rows st) = (if es = [] then None else Some (int (length es), the (ag_entry_hash (last es))))"
    "es \<noteq> [] \<Longrightarrow> ag_entry_hash (last es) = Some (the (ag_entry_hash (last es)))"
    using chain_last [OF ok] by (auto simp: audit_tail_def chain_newest [OF ok] es)
  have pre: "length (filter (\<lambda>e. ag_seq e = None) (as_rows st)) = length (as_rows st) - length es"
    using sum_length_filter_compl [of "\<lambda>e. ag_seq e = None" "as_rows st"] by (simp add: es_def)
  have args: "\<not> frm < 1" "\<not> (case to_seq of None \<Rightarrow> False | Some t \<Rightarrow> t < frm)" "\<not> (lmt < 1 \<or> MAX_VERIFY_LIMIT < lmt)"
    using assms(5-9) by (auto split: option.splits)
  show ?thesis
    unfolding audit_verify_chain_def Let_def option.case query audit_start_hash [OF ok assms(5), unfolded es, OF assms(6)] loop pre
    using args tail by (simp add: count del: length_take length_drop)
qed

definition demo_audit_env :: audit_env where
  "demo_audit_env = \<lparr>au_ext = ref_externals, au_hmac_hex = (\<lambda>key m. key @ m)\<rparr>"

definition demo_audit_entry :: "string \<Rightarrow> audit_log" where
  "demo_audit_entry k =
     \<lparr>ag_id = k, ag_user_id = Some ''u'', ag_event_type = ''login'', ag_event_data = None, ag_ip_address = None,
      ag_user_agent = Some ''agent'', ag_api_key_id = Some ''k1'', ag_api_key_name = Some ''ci'', ag_seq = None,
      ag_prev_hash = None, ag_entry_hash = None, ag_created_at = 0\<rparr>"

text \<open>Two appenders read the same empty tail; the second one to insert collides and retries.\<close>

definition demo_race :: "append_phase \<Rightarrow> append_phase \<Rightarrow> audit_log list \<Rightarrow> audit_state" where
  "demo_race p q rows =
     \<lparr>as_rows = rows, as_request = (\<lambda>i. if i = 0 then demo_audit_entry ''a'' else if i = 1 then demo_audit_entry ''b'' else demo_audit_entry []),
      as_phase = (\<lambda>i. if i = 0 then p else if i = 1 then q else AppendFailed)\<rparr>"

definition demo_first :: "string \<Rightarrow> audit_log" where
  "demo_first k = positioned demo_audit_env ''k'' 1 GENESIS_PREV_HASH (demo_audit_entry k)"

lemma demo_race_step:
  "append_chained_entry demo_audit_env ''k'' rows p = (p', rows') \<Longrightarrow>
     audit_step demo_audit_env ''k'' (demo_race p q rows) (demo_race p' q rows')"
  "append_chained_entry demo_audit_env ''k'' rows q = (q', rows') \<Longrightarrow>
     audit_step demo_audit_env ''k'' (demo_race p q rows) (demo_race p q' rows')"
proof -
  assume "append_chained_entry demo_audit_env ''k'' rows p = (p', rows')"
  then have "audit_step demo_audit_env ''k'' (demo_race p q rows)
      ((demo_race p q rows)\<lparr>as_rows := rows', as_phase := (as_phase (demo_race p q rows))(0 := p')\<rparr>)"
    by (intro appender_call) (simp add: demo_race_def)
  then show "audit_step demo_audit_env ''k'' (demo_race p q rows) (demo_race p' q rows')"
    by (rule back_subst) (simp add: demo_race_def fun_eq_iff)
next
  assume "append_chained_entry demo_audit_env ''k'' rows q = (q', rows')"
  then have "audit_step demo_audit_env ''k'' (demo_race p q rows)
      ((demo_race p q rows)\<lparr>as_rows := rows', as_phase := (as_phase (demo_race p q rows))(1 := q')\<rparr>)"
    by (intro appender_call) (simp add: demo_race_def)
  then show "audit_step demo_audit_env ''k'' (demo_race p q rows) (demo_race p q' rows')"
    by (rule back_subst) (simp add: demo_race_def fun_eq_iff)
qed

definition demo_second :: audit_log where
  "demo_second = positioned demo_audit_env ''k'' 2 (ag_stored (demo_first ''a'')) (demo_first ''b'')"

lemma demo_race_reachable:
  "audit_reachable demo_audit_env ''k''
     (demo_race (Appended (demo_first ''a'')) (Appended demo_second) [demo_first ''a'', demo_second])"
proof -
  let ?R = "audit_reachable demo_audit_env ''k''" and ?S = "audit_step demo_audit_env ''k''"
  let ?a = "demo_audit_entry ''a''" and ?b = "demo_audit_entry ''b''"
  let ?fa = "demo_first ''a''" and ?fb = "demo_first ''b''"
  have none: "audit_tail [] = None" by (simp add: audit_tail_def newest_chained_def chained_rows_def)
  have ids: "ag_id ?fa = ''a''" "ag_id ?fb = ''b''" "ag_id demo_second = ''b''"
    "ag_seq ?fa = Some 1" "ag_seq ?fb = Some 1" "ag_seq demo_second = Some 2"
    by (simp_all add: demo_first_def demo_second_def demo_audit_entry_def)
  have tail: "audit_tail [?fa] = Some (1, ag_stored ?fa)"
    by (simp add: audit_tail_def newest_chained_def chained_rows_def demo_first_def)
  have r: "?R (demo_race AppendFailed AppendFailed [])" by (rule audit_initial) (simp_all add: demo_race_def)
  have s1: "?S (demo_race AppendFailed AppendFailed []) (demo_race (Reading 1 ?a) AppendFailed [])"
  proof -
    have "?S (demo_race AppendFailed AppendFailed []) ((demo_race AppendFailed AppendFailed [])\<lparr>
        as_request := (as_request (demo_race AppendFailed AppendFailed []))(0 := ?a),
        as_phase := (as_phase (demo_race AppendFailed AppendFailed []))(0 := Reading 1 ?a)\<rparr>)"
      by (rule appender_start) (simp_all add: demo_race_def demo_audit_entry_def)
    then show ?thesis by (rule back_subst) (simp add: demo_race_def fun_eq_iff)
  qed
  have s2: "?S (demo_race (Reading 1 ?a) AppendFailed []) (demo_race (Reading 1 ?a) (Reading 1 ?b) [])"
  proof -
    have "?S (demo_race (Reading 1 ?a) AppendFailed []) ((demo_race (Reading 1 ?a) AppendFailed [])\<lparr>
        as_request := (as_request (demo_race (Reading 1 ?a) AppendFailed []))(1 := ?b),
        as_phase := (as_phase (demo_race (Reading 1 ?a) AppendFailed []))(1 := Reading 1 ?b)\<rparr>)"
      by (rule appender_start) (simp_all add: demo_race_def demo_audit_entry_def)
    then show ?thesis by (rule back_subst) (simp add: demo_race_def fun_eq_iff)
  qed
  have s3: "?S (demo_race (Reading 1 ?a) (Reading 1 ?b) []) (demo_race (Inserting 1 ?fa) (Reading 1 ?b) [])"
    by (rule demo_race_step) (simp add: none next_position_def prepare_positioned demo_first_def)
  have s4: "?S (demo_race (Inserting 1 ?fa) (Reading 1 ?b) []) (demo_race (Inserting 1 ?fa) (Inserting 1 ?fb) [])"
    by (rule demo_race_step) (simp add: none next_position_def prepare_positioned demo_first_def)
  have s5: "?S (demo_race (Inserting 1 ?fa) (Inserting 1 ?fb) []) (demo_race (Appended ?fa) (Inserting 1 ?fb) [?fa])"
    by (rule demo_race_step) (simp add: audit_duplicate_def)
  have s6: "?S (demo_race (Appended ?fa) (Inserting 1 ?fb) [?fa]) (demo_race (Appended ?fa) (Colliding 1 ?fb) [?fa])"
    by (rule demo_race_step) (simp add: audit_duplicate_def ids)
  have s7: "?S (demo_race (Appended ?fa) (Colliding 1 ?fb) [?fa]) (demo_race (Appended ?fa) (Reading 2 ?fb) [?fa])"
    by (rule demo_race_step) (simp add: ids MAX_APPEND_ATTEMPTS_def)
  have s8: "?S (demo_race (Appended ?fa) (Reading 2 ?fb) [?fa]) (demo_race (Appended ?fa) (Inserting 2 demo_second) [?fa])"
    by (rule demo_race_step) (simp add: tail next_position_def wrap_i64_def prepare_positioned demo_second_def)
  have s9: "?S (demo_race (Appended ?fa) (Inserting 2 demo_second) [?fa]) (demo_race (Appended ?fa) (Appended demo_second) [?fa, demo_second])"
    by (rule demo_race_step) (simp add: audit_duplicate_def ids)
  show ?thesis
    by (rule audit_next [OF audit_next [OF audit_next [OF audit_next [OF audit_next [OF audit_next [OF audit_next [OF audit_next [OF audit_next [OF r s1] s2] s3] s4] s5] s6] s7] s8] s9])
qed

lemma racing_appenders_keep_one_chain_witness:
  "\<exists>nxt. audit_verify_chain demo_audit_env ''k'' [demo_first ''a'', demo_second] (Some 2) None (Some 5) = Ok
    \<lparr>ar_status = AuditOk, ar_checked_count = 1, ar_pre_chain_count = 0, ar_head_seq = Some 2,
     ar_head_hash = ag_entry_hash demo_second, ar_break_info = None, ar_next_from_seq = nxt\<rparr>"
proof -
  have rows: "as_rows (demo_race (Appended (demo_first ''a'')) (Appended demo_second) [demo_first ''a'', demo_second]) = [demo_first ''a'', demo_second]"
    by (simp add: demo_race_def)
  have "ag_seq (demo_first ''a'') \<noteq> None" "ag_seq demo_second \<noteq> None"
    by (simp_all add: demo_first_def demo_second_def)
  then show ?thesis
    using racing_appenders_keep_one_chain [OF demo_race_reachable, of 2 5 None]
    by (simp add: rows i64_max_def MAX_VERIFY_LIMIT_def)
qed

text \<open>
  C39. What an appender was told is recorded: in every state, the entry returned to an appender is in
  the log, it is the only one with the requested id, it has the requested content, and its stored
  hash is the code of its canonical bytes.
\<close>

theorem acknowledged_entries_are_recorded:
  assumes "audit_reachable env key st" "int (length (as_rows st)) < i64_max" "as_phase st i = Appended e"
  shows "filter (\<lambda>r. ag_id r = ag_id (as_request st i)) (as_rows st) = [e]
    \<and> immutable_entry_matches e (as_request st i)
    \<and> (\<exists>h. ag_entry_hash e = Some h \<and> audit_entry_hash env key e = Ok h)"
proof -
  have ok: "audit_ok env key st" by (rule reachable_audit_ok [OF assms(1,2)])
  then have phase: "phase_ok env key (as_rows st) (as_request st i) (Appended e)" using assms(3) by (metis audit_ok_def)
  then have id: "ag_id e = ag_id (as_request st i)" by (simp add: immutable_entry_matches_def)
  have "filter (\<lambda>r. ag_id r = ag_id e) rows = [e]" if "e \<in> set rows" "distinct (map ag_id rows)" for rows
    using that
  proof (induction rows)
    case (Cons r rows)
    show ?case
    proof (cases "r = e")
      case True
      then show ?thesis using Cons.prems by (auto simp: filter_empty_conv image_iff)
    next
      case False
      then show ?thesis using Cons by (auto simp: image_iff)
    qed
  qed simp
  then have "filter (\<lambda>r. ag_id r = ag_id (as_request st i)) (as_rows st) = [e]"
    using ok phase by (simp add: audit_ok_def chain_ok_def flip: id)
  then show ?thesis using phase audit_hash_chained [of e env key] by (simp add: fully_chained_def)
qed

lemma acknowledged_entries_are_recorded_witness:
  "filter (\<lambda>r. ag_id r = ''b'') [demo_first ''a'', demo_second] = [demo_second]
   \<and> immutable_entry_matches demo_second (demo_audit_entry ''b'')"
  using acknowledged_entries_are_recorded [OF demo_race_reachable, of 1 demo_second]
  by (simp add: demo_race_def i64_max_def demo_audit_entry_def)

section \<open>Termination\<close>

text \<open>An appender on its own: the rows each of its calls finds, whatever others do between them.\<close>

fun appender_run :: "audit_env \<Rightarrow> string \<Rightarrow> audit_log list list \<Rightarrow> append_phase \<Rightarrow> append_phase" where
  "appender_run env key [] phase = phase"
| "appender_run env key (rows # later) phase = appender_run env key later (fst (append_chained_entry env key rows phase))"

fun calls_left :: "append_phase \<Rightarrow> nat" where
  "calls_left (Reading n _) = 3 * (MAX_APPEND_ATTEMPTS - n) + 3"
| "calls_left (Inserting n _) = 3 * (MAX_APPEND_ATTEMPTS - n) + 2"
| "calls_left (Colliding n _) = 3 * (MAX_APPEND_ATTEMPTS - n) + 1"
| "calls_left (Appended _) = 0"
| "calls_left AppendFailed = 0"

fun attempt_ok :: "append_phase \<Rightarrow> bool" where
  "attempt_ok (Reading n _) \<longleftrightarrow> n \<le> MAX_APPEND_ATTEMPTS"
| "attempt_ok (Inserting n _) \<longleftrightarrow> n \<le> MAX_APPEND_ATTEMPTS"
| "attempt_ok (Colliding n _) \<longleftrightarrow> n \<le> MAX_APPEND_ATTEMPTS"
| "attempt_ok _ \<longleftrightarrow> True"

lemma call_left:
  "attempt_ok phase \<Longrightarrow> attempt_ok (fst (append_chained_entry env key rows phase))
     \<and> calls_left (fst (append_chained_entry env key rows phase)) \<le> calls_left phase - 1"
  by (cases phase) (auto simp: case_prod_beta prepare_positioned MAX_APPEND_ATTEMPTS_def split: option.split)

lemma run_left: "attempt_ok phase \<Longrightarrow> calls_left (appender_run env key views phase) \<le> calls_left phase - length views"
proof (induction views arbitrary: phase)
  case (Cons rows later)
  let ?next = "fst (append_chained_entry env key rows phase)"
  have "calls_left (appender_run env key later ?next) \<le> calls_left ?next - length later"
    using call_left [OF Cons.prems] by (intro Cons.IH) blast
  also have "\<dots> \<le> calls_left phase - 1 - length later"
    using call_left [OF Cons.prems] by (intro diff_le_mono) blast
  finally show ?case by simp
qed simp

text \<open>
  An append ends: whatever the rows its database calls find, after at most 24 of them an appender
  has its answer, an entry or a failure.
\<close>

theorem append_ends:
  assumes "24 \<le> length views"
  shows "appender_run env key views (Reading 1 e) = AppendFailed
    \<or> (\<exists>recorded. appender_run env key views (Reading 1 e) = Appended recorded)"
proof -
  have "calls_left (appender_run env key views (Reading 1 e)) = 0"
    using run_left [of "Reading 1 e" env key views] assms by (simp add: MAX_APPEND_ATTEMPTS_def)
  then show ?thesis by (cases "appender_run env key views (Reading 1 e)") simp_all
qed

lemma append_ends_witness:
  "appender_run demo_audit_env ''k'' (replicate 24 [demo_first ''a'']) (Reading 1 (demo_audit_entry ''b'')) = AppendFailed
   \<or> (\<exists>recorded. appender_run demo_audit_env ''k'' (replicate 24 [demo_first ''a'']) (Reading 1 (demo_audit_entry ''b'')) = Appended recorded)"
  by (rule append_ends) simp

section \<open>What the canonical bytes commit to\<close>

lemma join_cons: "ys \<noteq> [] \<Longrightarrow> join sep (x # ys) = x @ sep @ join sep ys"
  by (cases ys) simp_all

lemma join_at_separator:
  "join [c] (as @ (u @ [c] @ v) # bs) = join [c] (as @ u # v # bs)"
proof (induction as)
  case Nil
  then show ?case by (cases bs) simp_all
next
  case (Cons a as)
  then show ?case by (simp add: join_cons)
qed

lemma join_separator_inj:
  "length fs = length gs \<Longrightarrow> list_all (\<lambda>f. c \<notin> set f) fs \<Longrightarrow> list_all (\<lambda>g. c \<notin> set g) gs \<Longrightarrow>
     join [c] fs = join [c] gs \<longleftrightarrow> fs = gs"
proof (induction fs gs rule: list_induct2)
  case (Cons f fs g gs)
  then show ?case by (cases fs; cases gs) (auto simp: before_separator)
qed simp

text \<open>No text of the entry contains the separator. (JSON text never does: it escapes control bytes.)\<close>

definition plain_entry :: "audit_env \<Rightarrow> audit_log \<Rightarrow> bool" where
  "plain_entry env e \<longleftrightarrow> list_all (\<lambda>f. RECORD_SEPARATOR \<notin> set f) (audit_fields env (ag_position e) (ag_previous e) e)"

lemma plain_bytes_commit:
  assumes "plain_entry env a" "plain_entry env b"
  shows "ag_bytes env a = ag_bytes env b \<longleftrightarrow>
    audit_fields env (ag_position a) (ag_previous a) a = audit_fields env (ag_position b) (ag_previous b) b"
  unfolding ag_bytes_def audit_join_fields_def
  by (rule join_separator_inj) (use assms in \<open>simp_all add: plain_entry_def audit_fields_def\<close>)

interpretation audit_chain:
  hash_chain ag_position ag_previous ag_stored "ag_bytes env" "au_hmac_hex env key" "ag_digest env key" "plain_entry env"
  for env key
proof
  show "ag_digest env key e = au_hmac_hex env key (ag_bytes env e)" for e by (simp add: ag_digest_def)
  show "plain_entry env a \<Longrightarrow> plain_entry env b \<Longrightarrow> ag_bytes env a = ag_bytes env b \<Longrightarrow>
      ag_position a = ag_position b \<and> ag_previous a = ag_previous b" for a b
    by (simp add: plain_bytes_commit) (simp add: audit_fields_def int_str_inj)
qed

text \<open>
  Audit hashes do not fix which key acted. The fields of an audit entry are joined by the record
  separator without lengths, so where the name of the key contains that byte, part of the name can be
  moved into the id of the key (or back) without changing the entry's code: the row verifies exactly
  as before although it names another key.
\<close>

theorem audit_text_can_be_moved:
  "audit_entry_hash env key (e\<lparr>ag_api_key_id := Some (k @ [RECORD_SEPARATOR] @ x), ag_api_key_name := Some y\<rparr>)
   = audit_entry_hash env key (e\<lparr>ag_api_key_id := Some k, ag_api_key_name := Some (x @ [RECORD_SEPARATOR] @ y)\<rparr>)"
proof -
  let ?millis = "int_str (timestamp_millis (ag_created_at e))"
  have "join [RECORD_SEPARATOR] (as @ [k @ [RECORD_SEPARATOR] @ x, y, ?millis])
      = join [RECORD_SEPARATOR] (as @ [k, x @ [RECORD_SEPARATOR] @ y, ?millis])" for as
    using join_at_separator [of RECORD_SEPARATOR as k x "[y, ?millis]"] join_at_separator [of RECORD_SEPARATOR "as @ [k]" x y "[?millis]"]
    by simp
  from this [of "[int_str seq, prev_hash, ag_id e, or_empty (ag_user_id e), ag_event_type e,
      or_empty (map_option (canonical_json_string env) (ag_event_data e)), or_empty (ag_ip_address e), or_empty (ag_user_agent e)]" for seq prev_hash]
  show ?thesis by (simp add: audit_entry_hash_def canonical_audit_bytes_def audit_join_fields_def audit_fields_def)
qed

end
