(* ===== verification/Chain_Sweep.thy ===== *)
theory Chain_Sweep
  imports Audit_Appenders
begin

text \<open>
  The anchors that tie the head of the billing ledger to the audit chain
  (\<open>services/billing/ledger.rs\<close>), and the sweep that verifies both chains in rolling chunks and keeps
  one status per chain (\<open>services/chain_verify_service.rs\<close>, \<open>models/chain_verify_status.rs\<close>).
\<close>

section \<open>Anchors\<close>

definition HEAD_ANCHOR_EVENT_TYPE :: string where "HEAD_ANCHOR_EVENT_TYPE = ''billing_ledger_head_anchored''"

record latest_anchor =
  la_entry :: audit_log
  la_ledger_seq :: int
  la_head_hash :: string

definition load_latest_anchor :: "audit_log list \<Rightarrow> latest_anchor option" where
  "load_latest_anchor rows =
     Option.bind (newest_chained (filter (\<lambda>e. ag_event_type e = HEAD_ANCHOR_EVENT_TYPE) rows)) (\<lambda>e.
     Option.bind (ag_event_data e) (\<lambda>data.
     Option.bind (Option.bind (jget data ''seq'') as_i64) (\<lambda>seq.
     Option.bind (Option.bind (jget data ''head_hash'') as_str) (\<lambda>hash.
       Some \<lparr>la_entry = e, la_ledger_seq = seq, la_head_hash = hash\<rparr>))))"

text \<open>The position to anchor, with the data of the event that anchors it.\<close>

definition anchor_head :: "ledger_db \<Rightarrow> audit_log list \<Rightarrow> (int \<times> json) option" where
  "anchor_head db rows = (case tail_entry db of
     None \<Rightarrow> None
   | Some head \<Rightarrow>
       if (case load_latest_anchor rows of None \<Rightarrow> False | Some anchor \<Rightarrow> la_ledger_seq anchor \<ge> bl_seq head) then None
       else Some (bl_seq head,
         JObject [(''seq'', JNumber (if bl_seq head < 0 then NegInt (bl_seq head) else PosInt (nat (bl_seq head)))),
                  (''head_hash'', JString (bl_entry_hash head))]))"

record head_anchor_check =
  hc_anchor_seq :: "int option"
  hc_anchor_valid :: "bool option"
  hc_break_info :: "ledger_break option"

definition check_head_anchor ::
  "audit_env \<Rightarrow> string \<Rightarrow> ledger_db \<Rightarrow> audit_log list \<Rightarrow> app_error + head_anchor_check" where
  "check_head_anchor env audit_key db rows = (case load_latest_anchor rows of
     None \<Rightarrow> Ok \<lparr>hc_anchor_seq = None, hc_anchor_valid = None, hc_break_info = None\<rparr>
   | Some anchor \<Rightarrow>
       and_then (audit_entry_hash env audit_key (la_entry anchor)) (\<lambda>expected_hash.
       if ag_entry_hash (la_entry anchor) \<noteq> Some expected_hash
       then Ok \<lparr>hc_anchor_seq = Some (la_ledger_seq anchor), hc_anchor_valid = Some False,
                hc_break_info = Some \<lparr>lk_break_seq = la_ledger_seq anchor, lk_break_kind = AnchorInvalid,
                  lk_expected = expected_hash, lk_actual = or_empty (ag_entry_hash (la_entry anchor))\<rparr>\<rparr>
       else if (case tail_entry db of None \<Rightarrow> True | Some head \<Rightarrow> bl_seq head < la_ledger_seq anchor)
       then Ok \<lparr>hc_anchor_seq = Some (la_ledger_seq anchor), hc_anchor_valid = Some True,
                hc_break_info = Some \<lparr>lk_break_seq = la_ledger_seq anchor, lk_break_kind = TailTruncated,
                  lk_expected = int_str (la_ledger_seq anchor),
                  lk_actual = (case tail_entry db of None \<Rightarrow> ''missing'' | Some head \<Rightarrow> int_str (bl_seq head))\<rparr>\<rparr>
       else Ok \<lparr>hc_anchor_seq = Some (la_ledger_seq anchor), hc_anchor_valid = Some True,
                hc_break_info = (case load_entry_by_seq db (la_ledger_seq anchor) of
                  None \<Rightarrow> Some \<lparr>lk_break_seq = la_ledger_seq anchor, lk_break_kind = BreakGap,
                    lk_expected = int_str (la_ledger_seq anchor), lk_actual = ''missing''\<rparr>
                | Some entry \<Rightarrow>
                    if bl_entry_hash entry \<noteq> la_head_hash anchor
                    then Some \<lparr>lk_break_seq = la_ledger_seq anchor, lk_break_kind = HashMismatch,
                      lk_expected = la_head_hash anchor, lk_actual = bl_entry_hash entry\<rparr>
                    else None)\<rparr>))"

section \<open>Statuses\<close>

definition CHAIN_AUDIT_LOG :: string where "CHAIN_AUDIT_LOG = ''audit_log''"
definition CHAIN_BILLING_LEDGER :: string where "CHAIN_BILLING_LEDGER = ''billing_ledger''"
definition VERIFY_CHUNK :: int where "VERIFY_CHUNK = 10000"

datatype verify_outcome = OutcomeOk | OutcomeBroken

record chain_verify_status =
  cs_id :: string
  cs_outcome :: verify_outcome
  cs_cursor_seq :: int
  cs_head_seq :: "int option"
  cs_checked_entries :: int
  cs_last_full_pass_at :: "int option"
  cs_break_seq :: "int option"
  cs_break_kind :: "string option"
  cs_break_detail :: "string option"
  cs_anchor_seq :: "int option"
  cs_anchor_valid :: "bool option"
  cs_pre_chain_count :: "int option"
  cs_last_run_at :: int

fun audit_kind_string :: "audit_break_kind \<Rightarrow> string" where
  "audit_kind_string AuditGap = ''gap''"
| "audit_kind_string AuditLinkMismatch = ''link_mismatch''"
| "audit_kind_string AuditHashMismatch = ''hash_mismatch''"

fun ledger_kind_string :: "ledger_break_kind \<Rightarrow> string" where
  "ledger_kind_string Unbalanced = ''unbalanced''"
| "ledger_kind_string BreakGap = ''gap''"
| "ledger_kind_string LinkMismatch = ''link_mismatch''"
| "ledger_kind_string HashMismatch = ''hash_mismatch''"
| "ledger_kind_string TailTruncated = ''tail_truncated''"
| "ledger_kind_string AnchorInvalid = ''anchor_invalid''"

text \<open>\<open>unwrap_or(1)\<close>.\<close>

definition or_one :: "int option \<Rightarrow> int" where
  "or_one v = (case v of None \<Rightarrow> 1 | Some i \<Rightarrow> i)"

definition resume_seq :: "chain_verify_status option \<Rightarrow> int" where
  "resume_seq previous =
     max (or_one (map_option (\<lambda>p. case cs_outcome p of
       OutcomeBroken \<Rightarrow> or_one (cs_break_seq p) | OutcomeOk \<Rightarrow> cs_cursor_seq p) previous)) 1"

definition full_pass_timestamp ::
  "chain_verify_status option \<Rightarrow> int \<Rightarrow> bool \<Rightarrow> verify_outcome \<Rightarrow> int option" where
  "full_pass_timestamp previous now wrapped outcome =
     (if wrapped \<and> outcome = OutcomeOk then Some now else Option.bind previous cs_last_full_pass_at)"

definition break_detail :: "string \<Rightarrow> string \<Rightarrow> string" where
  "break_detail expected actual = ''expected '' @ expected @ '' actual '' @ actual"

definition cursor_after :: "verify_outcome \<Rightarrow> int option \<Rightarrow> int option \<Rightarrow> int" where
  "cursor_after outcome break_seq next_from_seq = (case outcome of
     OutcomeBroken \<Rightarrow> or_one break_seq
   | OutcomeOk \<Rightarrow> or_one next_from_seq)"

text \<open>The status a run stores, from the one before it.\<close>

definition verify_audit_chunk ::
  "audit_env \<Rightarrow> string \<Rightarrow> audit_log list \<Rightarrow> int \<Rightarrow> chain_verify_status option \<Rightarrow> app_error + chain_verify_status" where
  "verify_audit_chunk env key rows now previous =
     and_then (audit_verify_chain env key rows (Some (resume_seq previous)) None (Some VERIFY_CHUNK)) (\<lambda>report.
     let outcome = (case ar_break_info report of Some _ \<Rightarrow> OutcomeBroken | None \<Rightarrow> OutcomeOk);
         break_seq = map_option ak_break_seq (ar_break_info report);
         wrapped = (ar_status report = AuditOk \<and> ar_next_from_seq report = None)
     in Ok \<lparr>cs_id = CHAIN_AUDIT_LOG, cs_outcome = outcome,
            cs_cursor_seq = cursor_after outcome break_seq (ar_next_from_seq report),
            cs_head_seq = ar_head_seq report, cs_checked_entries = int (ar_checked_count report),
            cs_last_full_pass_at = full_pass_timestamp previous now wrapped outcome,
            cs_break_seq = break_seq,
            cs_break_kind = map_option (\<lambda>b. audit_kind_string (ak_break_kind b)) (ar_break_info report),
            cs_break_detail = map_option (\<lambda>b. break_detail (ak_expected b) (ak_actual b)) (ar_break_info report),
            cs_anchor_seq = None, cs_anchor_valid = None,
            cs_pre_chain_count = Some (int (ar_pre_chain_count report)), cs_last_run_at = now\<rparr>)"

definition verify_ledger_chunk ::
  "ledger_env \<Rightarrow> audit_env \<Rightarrow> string \<Rightarrow> string \<Rightarrow> ledger_db \<Rightarrow> audit_log list \<Rightarrow> int \<Rightarrow> chain_verify_status option
   \<Rightarrow> app_error + chain_verify_status" where
  "verify_ledger_chunk env aenv ledger_key audit_key db rows now previous =
     and_then (verify_chain env ledger_key db (Some (resume_seq previous)) None (Some VERIFY_CHUNK)) (\<lambda>report.
     and_then (check_head_anchor aenv audit_key db rows) (\<lambda>anchor.
     let break_info = (case lr_break_info report of Some b \<Rightarrow> Some b | None \<Rightarrow> hc_break_info anchor);
         outcome = (case break_info of Some _ \<Rightarrow> OutcomeBroken | None \<Rightarrow> OutcomeOk);
         break_seq = map_option lk_break_seq break_info;
         wrapped = (outcome = OutcomeOk \<and> lr_next_from_seq report = None)
     in Ok \<lparr>cs_id = CHAIN_BILLING_LEDGER, cs_outcome = outcome,
            cs_cursor_seq = cursor_after outcome break_seq (lr_next_from_seq report),
            cs_head_seq = lr_head_seq report, cs_checked_entries = int (lr_checked_count report),
            cs_last_full_pass_at = full_pass_timestamp previous now wrapped outcome,
            cs_break_seq = break_seq,
            cs_break_kind = map_option (\<lambda>b. ledger_kind_string (lk_break_kind b)) break_info,
            cs_break_detail = map_option (\<lambda>b. break_detail (lk_expected b) (lk_actual b)) break_info,
            cs_anchor_seq = hc_anchor_seq anchor, cs_anchor_valid = hc_anchor_valid anchor,
            cs_pre_chain_count = None, cs_last_run_at = now\<rparr>))"

end
