(* ===== verification/Chain_Sweep_Properties.thy ===== *)
theory Chain_Sweep_Properties
  imports Chain_Sweep Ledger_Properties Audit_Chain_Properties
begin

text \<open>
  What the sweep's statuses are worth: an anchored history cannot be rewritten or cut off without the
  sweep reporting it, and what a recorded full pass does not mean.
\<close>

lemma sweep_chain: "verify_chain env key db (Some 1) None (Some VERIFY_CHUNK) = verify_chain env key db None None None"
  by (simp add: verify_chain_def VERIFY_CHUNK_def DEFAULT_VERIFY_LIMIT_def)

lemma anchor_ok:
  assumes "check_head_anchor aenv akey db rows = Ok check" "hc_break_info check = None" "load_latest_anchor rows = Some anchor"
  shows "\<exists>e. load_entry_by_seq db (la_ledger_seq anchor) = Some e \<and> bl_entry_hash e = la_head_hash anchor"
  using assms by (auto simp: check_head_anchor_def split: if_splits option.splits)

lemma sweepE:
  assumes "verify_ledger_chunk env aenv key akey db rows now previous = Ok st" "cs_outcome st = OutcomeOk"
  obtains report check where
    "verify_chain env key db (Some (resume_seq previous)) None (Some VERIFY_CHUNK) = Ok report"
    "check_head_anchor aenv akey db rows = Ok check" "hc_break_info check = None" "lr_break_info report = None"
    "cs_last_full_pass_at st = full_pass_timestamp previous now (lr_next_from_seq report = None) OutcomeOk"
  using assms by (auto simp: verify_ledger_chunk_def Let_def split: option.splits)

lemma no_break_ok:
  "verify_chain env key db from_seq to_seq limit = Ok r \<Longrightarrow> lr_break_info r = None \<Longrightarrow> lr_status r = LedgerOk"
  by (auto simp: verify_chain_def Let_def split: if_splits option.splits prod.splits)

text \<open>
  C10. An anchored history cannot be rewritten. Let a ledger have been anchored at its head in the audit
  log. Whatever someone with full write access to the ledger but not its key then makes of it, if a
  sweep over all of it still ends well, the first entries are those that were anchored, in everything
  their hashes commit to: none was changed, removed, reordered or cut off - provided the keyed hash
  has no collision among the entries of the two.
\<close>

theorem anchored_history_is_fixed:
  assumes honest: "ledger_reachable env key db0" "lb_entries db0 \<noteq> []"
    and anchored: "load_latest_anchor rows = Some anchor" "la_ledger_seq anchor = int (length (lb_entries db0))"
      "la_head_hash anchor = bl_entry_hash (last (lb_entries db0))"
    and swept: "verify_ledger_chunk env aenv key akey db rows now None = Ok st" "cs_outcome st = OutcomeOk"
      "cs_last_full_pass_at st = Some now"
    and wf: "distinct (map bl_seq (lb_entries db))" "\<And>e. e \<in> set (lb_entries db) \<Longrightarrow> 1 \<le> bl_seq e \<and> encodable e"
      "list_all encodable (lb_entries db0)"
    and collision_free: "\<And>a b. a \<in> set (lb_entries db0) \<Longrightarrow> b \<in> set (lb_entries db) \<Longrightarrow>
        le_hmac_hex env key (canonical_entry_bytes a) = le_hmac_hex env key (canonical_entry_bytes b) \<Longrightarrow>
        canonical_entry_bytes a = canonical_entry_bytes b"
  shows "map committed (take (length (lb_entries db0)) (sort_key bl_seq (lb_entries db))) = map committed (lb_entries db0)"
proof -
  let ?es = "sort_key bl_seq (lb_entries db)" and ?n = "length (lb_entries db0)"
  from sweepE [OF swept(1,2)] obtain report check where
    report: "verify_chain env key db (Some (resume_seq None)) None (Some VERIFY_CHUNK) = Ok report" "lr_break_info report = None"
    and check: "check_head_anchor aenv akey db rows = Ok check" "hc_break_info check = None"
    and pass: "cs_last_full_pass_at st = full_pass_timestamp None now (lr_next_from_seq report = None) OutcomeOk" .
  have "lr_next_from_seq report = None" using pass swept(3) by (auto simp: full_pass_timestamp_def split: if_splits)
  moreover have chain: "verify_chain env key db None None None = Ok report"
    using report(1) by (simp add: resume_seq_def or_one_def sweep_chain)
  ultimately have es: "ledger_linked env key 1 GENESIS_PREV_HASH ?es"
    using full_verification(1) [OF chain no_break_ok [OF chain report(2)]] wf by blast
  obtain e where e: "load_entry_by_seq db (int ?n) = Some e" "bl_entry_hash e = la_head_hash anchor"
    using anchor_ok [OF check anchored(1)] by (auto simp: anchored(2))
  have n0: "0 < ?n" using honest(2) by simp
  have "e \<in> set ?es" "bl_seq e = int ?n" using e(1) by (auto simp: load_entry_by_seq_def find_Some_iff)
  then obtain i where i: "i < length ?es" "?es ! i = e" by (metis in_set_conv_nth)
  then have "?n = Suc i" using linked_seq [OF es i(1)] \<open>bl_seq e = int ?n\<close> by simp
  then have take: "take ?n ?es = take i ?es @ [e]" and len: "length (take ?n ?es) = ?n"
    using i by (simp_all add: take_Suc_conv_app_nth)
  have lk0: "ledger_linked env key 1 GENESIS_PREV_HASH (lb_entries db0)"
    using reachable_ledger_ok [OF honest(1)] by (simp add: ledger_ok_def)
  have hash: "end_hash bl_entry_hash GENESIS_PREV_HASH (lb_entries db0) = end_hash bl_entry_hash GENESIS_PREV_HASH (take ?n ?es)"
    using honest(2) e(2) by (simp add: take end_hash_last anchored(3))
  have sub: "set (take ?n ?es) \<subseteq> set (lb_entries db)" using set_take_subset [of ?n ?es] by simp
  have "map canonical_entry_bytes (lb_entries db0) = map canonical_entry_bytes (take ?n ?es)"
  proof (rule ledger_chain.head_pins_history [OF lk0 linked_take [OF es] hash len [symmetric] wf(3)])
    show "list_all encodable (take ?n ?es)" using wf(2) sub by (auto simp: list_all_iff)
  qed (use collision_free sub in blast)
  then have "canonical_entry_bytes (lb_entries db0 ! j) = canonical_entry_bytes (take ?n ?es ! j)" if "j < ?n" for j
    using that len by (metis nth_map)
  moreover have "encodable (lb_entries db0 ! j) \<and> encodable (take ?n ?es ! j)" if "j < ?n" for j
    using that len wf(2,3) sub nth_mem [of j "take ?n ?es"] by (auto simp: list_all_length simp del: nth_mem nth_take)
  ultimately show ?thesis using len canonical_bytes_eq_iff by (intro nth_equalityI) (simp_all del: nth_take)
qed

definition demo_anchor :: audit_log where
  "demo_anchor = positioned demo_audit_env ''k'' 1 GENESIS_PREV_HASH
     ((demo_audit_entry ''anchor'')\<lparr>ag_event_type := HEAD_ANCHOR_EVENT_TYPE,
        ag_event_data := Some (JObject [(''seq'', JNumber (PosInt 2)), (''head_hash'', JString (bl_entry_hash (last demo_chain)))])\<rparr>)"

lemma demo_anchor_loaded:
  "load_latest_anchor [demo_anchor]
     = Some \<lparr>la_entry = demo_anchor, la_ledger_seq = 2, la_head_hash = bl_entry_hash (last demo_chain)\<rparr>"
proof -
  have "ag_event_type demo_anchor = HEAD_ANCHOR_EVENT_TYPE" "ag_seq demo_anchor = Some 1"
    "ag_event_data demo_anchor = Some (JObject [(''seq'', JNumber (PosInt 2)), (''head_hash'', JString (bl_entry_hash (last demo_chain)))])"
    by (simp_all add: demo_anchor_def positioned_def Let_def)
  then show ?thesis
    by (simp add: load_latest_anchor_def newest_chained_def chained_rows_def jget_def i64_max_def)
qed

lemma demo_sweep:
  "\<exists>st. verify_ledger_chunk demo_ledger_env demo_audit_env ''k'' ''k'' demo_books [demo_anchor] 7 None = Ok st
     \<and> cs_outcome st = OutcomeOk \<and> cs_last_full_pass_at st = Some 7"
proof -
  obtain r where r: "verify_chain demo_ledger_env ''k'' demo_books None None None = Ok r"
      "lr_next_from_seq r = None" "lr_break_info r = None"
    using demo_verified by blast
  have chain: "tail_entry demo_books = Some (last demo_chain)" "bl_seq (last demo_chain) = 2"
      "load_entry_by_seq demo_books 2 = Some (last demo_chain)"
    using linked_tail [of demo_ledger_env "''k''" GENESIS_PREV_HASH demo_books] reachable_ledger_ok [OF demo_reachable]
    by (auto simp: ledger_ok_def load_entry_by_seq_def demo_books_def demo_chain_def Let_def)
  have "audit_entry_hash demo_audit_env ''k'' demo_anchor = Ok (ag_digest demo_audit_env ''k'' demo_anchor)"
      "ag_entry_hash demo_anchor = Some (ag_digest demo_audit_env ''k'' demo_anchor)"
    by (rule audit_hash_chained) (simp_all add: demo_anchor_def)
  then have "check_head_anchor demo_audit_env ''k'' demo_books [demo_anchor]
      = Ok \<lparr>hc_anchor_seq = Some 2, hc_anchor_valid = Some True, hc_break_info = None\<rparr>"
    by (simp add: check_head_anchor_def demo_anchor_loaded chain)
  then show ?thesis
    using r by (simp add: verify_ledger_chunk_def resume_seq_def or_one_def sweep_chain Let_def full_pass_timestamp_def)
qed

lemma anchored_history_is_fixed_witness:
  "map committed (take 2 (sort_key bl_seq (lb_entries demo_books))) = map committed (lb_entries demo_books)"
proof -
  obtain st where st: "verify_ledger_chunk demo_ledger_env demo_audit_env ''k'' ''k'' demo_books [demo_anchor] 7 None = Ok st"
      "cs_outcome st = OutcomeOk" "cs_last_full_pass_at st = Some 7"
    using demo_sweep by blast
  have chain: "lb_entries demo_books = demo_chain" "length demo_chain = 2" "demo_chain \<noteq> []"
    by (simp_all add: demo_books_def demo_chain_def Let_def)
  show ?thesis
    using anchored_history_is_fixed [OF demo_reachable _ demo_anchor_loaded _ _ st demo_rows] demo_encodable
    by (simp add: chain demo_ledger_env_def)
qed

section \<open>What a full pass does not mean\<close>

definition demo_cut :: ledger_db where
  "demo_cut = demo_books\<lparr>lb_entries := [(hd demo_chain)\<lparr>bl_prev_hash := ''x''\<rparr>, last demo_chain]\<rparr>"

text \<open>
  A recorded full pass does not mean that the whole chain was found intact. After a break the
  sweep resumes at the position of the break, and when it reaches the head from there it stamps a full
  pass: here the status before was a break at position 2, entry 1 is not authentic, and yet the run
  ends well and records a full pass, while verifying the chain reports it broken.
\<close>

theorem full_pass_skips_entries:
  "\<exists>previous st r. cs_outcome previous = OutcomeBroken
     \<and> verify_ledger_chunk demo_ledger_env demo_audit_env ''k'' ''k'' demo_cut [] now (Some previous) = Ok st
     \<and> cs_outcome st = OutcomeOk \<and> cs_last_full_pass_at st = Some now
     \<and> verify_chain demo_ledger_env ''k'' demo_cut None None None = Ok r \<and> lr_status r = LedgerBroken"
proof -
  have "map bl_seq demo_chain = [1, 2]" by (simp add: demo_chain_def Let_def)
  then obtain a b where chain: "demo_chain = [a, b]" "bl_seq a = 1" "bl_seq b = 2" by (auto simp: map_eq_Cons_conv)
  let ?cut = "a\<lparr>bl_prev_hash := ''x''\<rparr>"
  have rows: "lb_entries demo_cut = [?cut, b]" by (simp add: demo_cut_def chain)
  have lk: "ledger_linked demo_ledger_env ''k'' 1 GENESIS_PREV_HASH [a, b]" and bal: "all_balanced [a, b]"
    using reachable_ledger_ok [OF demo_reachable] chain(1) by (simp_all add: ledger_ok_def demo_books_def)
  have tail: "tail_entry demo_cut = Some b" by (simp add: tail_entry_def rows chain)
  have page2: "verify_query demo_cut 2 None VERIFY_CHUNK = [b]" by (simp add: verify_query_def rows chain VERIFY_CHUNK_def)
  have page1: "verify_query demo_cut 1 None DEFAULT_VERIFY_LIMIT = [?cut, b]"
    by (simp add: verify_query_def rows chain DEFAULT_VERIFY_LIMIT_def)
  define previous where "previous = \<lparr>cs_id = CHAIN_BILLING_LEDGER, cs_outcome = OutcomeBroken, cs_cursor_seq = 2,
    cs_head_seq = None, cs_checked_entries = 0, cs_last_full_pass_at = None, cs_break_seq = Some 2,
    cs_break_kind = None, cs_break_detail = None, cs_anchor_seq = None, cs_anchor_valid = None,
    cs_pre_chain_count = None, cs_last_run_at = 0\<rparr>"
  have "start_hash demo_cut 2 = Some (bl_entry_hash a)" by (simp add: start_hash_def load_entry_by_seq_def rows chain)
  then have "\<exists>r. verify_chain demo_ledger_env ''k'' demo_cut (Some 2) None (Some VERIFY_CHUNK) = Ok r
      \<and> lr_next_from_seq r = None \<and> lr_break_info r = None"
    using verify_chain_report [of "Some 2" None "Some VERIFY_CHUNK" demo_cut "bl_entry_hash a" demo_ledger_env "''k''"] lk bal
    by (simp add: page2 tail chain Let_def VERIFY_CHUNK_def MAX_VERIFY_LIMIT_def page2 [unfolded VERIFY_CHUNK_def])
  then obtain st where st: "verify_ledger_chunk demo_ledger_env demo_audit_env ''k'' ''k'' demo_cut [] now (Some previous) = Ok st"
      "cs_outcome st = OutcomeOk" "cs_last_full_pass_at st = Some now"
    by (auto simp: verify_ledger_chunk_def resume_seq_def or_one_def previous_def check_head_anchor_def load_latest_anchor_def
        newest_chained_def chained_rows_def full_pass_timestamp_def Let_def)
  have "verify_chain demo_ledger_env ''k'' demo_cut None None None \<noteq> Err e" for e
    by (simp add: verify_chain_def Let_def MAX_VERIFY_LIMIT_def DEFAULT_VERIFY_LIMIT_def split: option.split prod.split)
  then obtain r where r: "verify_chain demo_ledger_env ''k'' demo_cut None None None = Ok r"
    by (cases "verify_chain demo_ledger_env ''k'' demo_cut None None None") auto
  have "\<not> ledger_linked demo_ledger_env ''k'' 1 GENESIS_PREV_HASH [?cut, b]"
  proof -
    have "GENESIS_PREV_HASH \<noteq> ''x''" by code_simp
    then show ?thesis by auto
  qed
  then have "lr_status r \<noteq> LedgerOk" using verify_chain_status [OF r] by (auto simp: page1 start_hash_def)
  then have "lr_status r = LedgerBroken" by (cases "lr_status r") simp_all
  moreover have "cs_outcome previous = OutcomeBroken" by (simp add: previous_def)
  ultimately show ?thesis using st r by blast
qed

end
