(* ===== verification/Spec2Isabelle.thy ===== *)
theory Spec2Isabelle
  imports Engine_Properties Values_Properties Number_Bounds Proxy_Properties Approval_Properties Pool_Health_Properties
    Credit_Properties Runtime_Billing_Properties Schedule_Properties Route_Context_Properties Pricing_Properties
    Sse_Properties Llm_Usage_Properties Execution_Permission_Properties
    Url_Validation_Properties Ledger_Properties Audit_Chain_Properties
    Chain_Sweep_Properties
begin

text \<open>
  NyxID: a gateway that lets people give agents governed access to their accounts, meters what is
  used and bills it. This development models the deciding parts of its Rust code: the permission
  crate (\<open>permissions/src\<close>) and, of the backend (\<open>backend/src\<close>), the services that decide whether a
  request may be made, where it goes, and what it costs.

  \<^bold>\<open>How the parts interact.\<close> A request of an agent first meets its operation scope (which
  operations of which services the agent may call), then the operation policy of the service (which
  paths, decoded once and forwarded canonically), then the approval policy (which operations ask the
  owner, and what a grant minted by the answer covers) or, for a prepared effect, the execution
  permissions (which stored consent covers it). A governed provider call goes through the permission
  engine instead: plan, policy, input rules, resource verification, hooks, dispatch, outcome. The
  request is then routed - to a member of a service pool, by weight and passive health - and every URL
  that comes from outside is checked and pinned before a client is built for it. The response's
  usage is read from a body, a stream or a realtime session, normalized against the model's contract,
  charged by the route's prices or the selected tariff, and posted to the billing ledger as a balanced,
  hash-chained transaction. Triggers make requests of their own at the instants of their schedules.

  \<^bold>\<open>The theories.\<close> Each component has a theory of definitions and one or more of properties.

  \<^item> Language and data: \<open>Prelude\<close> (results, ordered maps behind the locale \<open>ordered_map\<close>, error-stopping
    loops), \<open>Rust_Str\<close>, \<open>Rust_Utf8\<close>, \<open>Rust_Int\<close>, \<open>Rust_F64\<close>, \<open>Rust_Time\<close>, \<open>Ip_Address\<close> (what the code uses of
    \<open>std\<close> and \<open>chrono\<close>), \<open>Json\<close> and \<open>Json_Equality\<close> (values of \<open>serde_json\<close>), \<open>Reference_Codec\<close> (an instance
    of the external functions for the witnesses), \<open>Decimal_Text\<close> (decimal numbers as text),
    \<open>Hash_Chain\<close> (the locale of hash-chained records), \<open>App_Error\<close> (\<open>errors/mod.rs\<close>).
  \<^item> Permission crate: \<open>Perm_Types\<close>, \<open>Perm_Values\<close>, \<open>Perm_Inputs\<close> (\<open>values.rs\<close>), \<open>Perm_Hooks\<close> (\<open>hooks.rs\<close>), \<open>Perm_Engine\<close>
    (\<open>lib.rs\<close>: \<open>new\<close>, \<open>authorize_plan\<close>, \<open>call\<close>, \<open>report\<close> and the call permits as a step relation, with the
    locales \<open>adapter_contract\<close>, \<open>transport_contract\<close> and \<open>governed_engine\<close>), \<open>Perm_Drive\<close> (\<open>drive.rs\<close>), \<open>Perm_Google\<close>
    (\<open>google.rs\<close>), \<open>Perm_Mock\<close> (\<open>mock.rs\<close>, the in-memory Drive as a state transformer, and the
    interpretations). \<open>Engine_Properties\<close>: nothing is dispatched unauthorized, a reported error changed
    nothing. \<open>Perm_Confinement\<close> and \<open>Drive_Confinement\<close>: a call changes only files below the policy's
    folder. \<open>Values_Properties\<close> and \<open>Number_Bounds\<close>: the limits on untrusted input.
  \<^item> Operation policies: \<open>Proxy_Authorization\<close> (\<open>services/proxy_authorization.rs\<close>) and \<open>Proxy_Properties\<close>:
    templates, percent decoding and what is forwarded.
  \<^item> Operation descriptors and approval: \<open>Operation_Descriptor\<close> (\<open>services/operation_descriptor.rs\<close>,
    \<open>action_description.rs\<close>), \<open>Approval_Policy\<close> (\<open>services/approval_policy.rs\<close>; the matcher cache is threaded
    state) and \<open>Approval_Properties\<close> (the cache never changes a decision: locale \<open>stateful_test\<close>).
  \<^item> Operation scopes: \<open>Agent_Scope\<close>, \<open>Agent_Compile\<close> (\<open>services/agent_operation_scope_service.rs\<close>: authorizing a
    call, comparing scopes, saving a selection at its revision) and their properties.
  \<^item> Execution permissions: \<open>Execution_Permission\<close> (\<open>services/execution_permission.rs\<close>) and its properties, against a
    declarative consent relation that writes out every condition on the contract, the call and its inputs.
  \<^item> Outgoing requests: \<open>Url_Validation\<close> (\<open>services/url_validation.rs\<close> and the download targets of
    \<open>api_docs_service.rs\<close>, \<open>webhook_delivery_service.rs\<close>, \<open>channel_media_service.rs\<close>, with the clients their
    requests are sent with) and its properties: what those clients connect to.
  \<^item> Service pools: \<open>Pool_Config\<close> (\<open>models/service_pool.rs\<close>, \<open>services/service_pool_service.rs\<close>, \<open>pool_failover.rs\<close>),
    \<open>Pool_Health\<close> (\<open>services/service_pool_health_service.rs\<close>: tickets, observations and rows in an explicit
    store, with the step relation \<open>health_step\<close> and its reachable states), \<open>Pool_Properties\<close> and
    \<open>Pool_Health_Properties\<close> (locale \<open>stays\<close>: what once holds holds for ever).
  \<^item> Schedules: \<open>Schedule\<close> (\<open>services/trigger_schedule/compute.rs\<close>) and \<open>Schedule_Properties\<close>, against sets of
    instants and, for cron expressions, the clock of their zone.
  \<^item> Usage: \<open>Sse_Parser\<close> (\<open>services/sse_parser.rs\<close>), \<open>Llm_Usage\<close> (\<open>services/llm_usage_service.rs\<close>),
    \<open>Model_Usage\<close> (\<open>services/billing/model_usage.rs\<close>) and their properties: nothing a provider reports is
    lost or counted twice.
  \<^item> Prices: \<open>Credit_Amounts\<close> (\<open>models/credits.rs\<close>, \<open>billing/amounts.rs\<close>), \<open>Service_Billing\<close>
    (\<open>models/service_billing.rs\<close>), \<open>Pricing\<close>, \<open>Model_Tariff\<close>, \<open>Route_Context\<close>, \<open>Runtime_Billing\<close> (the files of
    \<open>services/billing\<close> with these names), \<open>Settlement_Rows\<close> (the platform rows of \<open>billing/meter.rs\<close>) and
    their properties: amounts are exact or refused, a tariff charges each token once, and a request is
    charged only as configured, each row with the quantity of its component.
  \<^item> Ledger: \<open>Ledger\<close> (\<open>services/billing/ledger.rs\<close>, \<open>models/billing_ledger.rs\<close>), \<open>Ledger_Encoding\<close> (what the
    canonical bytes commit to, and the interpretation of \<open>hash_chain\<close>), \<open>Ledger_Append\<close> (the invariant of an
    append), \<open>Ledger_Verification\<close> and \<open>Ledger_Properties\<close> (histories as an inductive set of databases).
  \<^item> Audit log: \<open>Audit_Chain\<close> (\<open>services/audit_chain_service.rs\<close>, \<open>models/audit_log.rs\<close>), \<open>Audit_Appenders\<close>
    (racing appenders as a step relation over their database calls, and its invariant),
    \<open>Audit_Chain_Properties\<close> (with the second interpretation of \<open>hash_chain\<close>), \<open>Chain_Sweep\<close>
    (\<open>services/chain_verify_service.rs\<close> and the head anchors of \<open>ledger.rs\<close>) and \<open>Chain_Sweep_Properties\<close>: an
    anchored history cannot be rewritten unnoticed.

  \<^bold>\<open>How state and effects are modelled.\<close> A struct is a record, an enum a datatype, and every
  function that can fail returns a sum, so each early return and error of the source is a branch.
  Mutable state is passed explicitly (the file system of the mock, the matcher cache, the health
  store, the ledger database). Awaited calls of the engine may each meet the deadline; concurrent
  outcomes, resets and configuration writes of pool health, and the database calls of racing audit
  appenders, are the steps of relations, so their properties hold for every interleaving. A database transaction is atomic and its unique
  indexes are installed. Text is UTF-8 bytes; fixed-width integers are \<open>int\<close> or \<open>nat\<close> with the checked, wrapping
  or saturating operation written out, stored decimals and addresses are machine words, and an
  \<open>f64\<close> is an exact rational rounded after each operation.

  \<^bold>\<open>What is a parameter.\<close> Code that is not in the repository is an argument: \<open>externals\<close> (JSON
  text and pointers, URL decoding, substring search), \<open>proxy_externals\<close>, \<open>hook_env\<close>, \<open>execution_env\<close>, \<open>net_env\<close> (URL parser,
  client builder and resolver, which may answer differently each time), \<open>time_lib\<close> (zones, calendar and
  cron parsing), \<open>ledger_env\<close> and \<open>audit_env\<close> (HMAC-SHA256), the glob compiler, and the adapters and transports of the engine. What
  a property needs of them is a hypothesis in its statement, discharged in its witness for a
  concrete instance; the ledger's no-collision hypothesis ranges only over the entries of the two
  ledgers compared.

  \<^bold>\<open>Bounds and termination.\<close> No definition takes fuel: the loops of the source are structural, or
  terminate by a measure (the remaining text of a stream or an address, the exponent left in a
  decimal, the width of a search interval, the days of a counted interval, the 32 rounds the code
  itself allows a walk over a file's ancestry). The limits the code sets (sizes, depths, retries,
  cooldowns, page sizes of verification) are the code's constants.

  \<^bold>\<open>Not modelled.\<close> The HTTP handlers and middleware, the WebSocket and channel services, the assistant,
  identity and OAuth, organizations, nodes and machines, the storage and Lago halves of billing, the
  command line client and the front ends: almost every line of them is a query, an HTTP exchange
  or a projection of documents, so a model would state what the database or the peer does rather than what
  this code does. Within modelled files the parts left out are the derived serialization, logging and
  the queries that gather the data an operation works on. The batching worker in front of the ledger's
  append, the derivation of the chains' keys and the worker that schedules sweeps are likewise left out.
\<close>

end
